(* ===== verification/Prelude.thy ===== *)
theory Prelude
  imports Main "HOL-Library.Word" "HOL-Library.Sublist"
begin

text \<open>
  Shared vocabulary of the development: the fixed-width integer types of the C sources, the
  error numbers the stack returns, the byte-list helpers that stand for \<^verbatim>\<open>memcpy\<close>, \<^verbatim>\<open>memset\<close>
  and pointer reads, the wrap-around of \<^verbatim>\<open>u16_t\<close> counters that the model keeps as natural
  numbers, and the generic list and word lemmas the component theories rely on. Two fact
  collections are declared: \<open>byte_simps\<close> for rewriting byte-list terms and \<open>len_simps\<close> for
  the lengths of model-level buffers.
\<close>

unbundle bit_operations_syntax

named_theorems byte_simps
named_theorems len_simps

section \<open>Machine integers and error numbers\<close>

type_synonym u8 = "8 word"
type_synonym u16 = "16 word"
type_synonym u24 = "24 word"
type_synonym u32 = "32 word"
type_synonym u64 = "64 word"
type_synonym bytes = "u8 list"

text \<open>
  The negative \<^verbatim>\<open>errno\<close> values returned by the stack. Two values are no error numbers: \<open>ERR_ONE\<close>
  is the result \<open>1\<close> of a function declared \<^verbatim>\<open>bool\<close> whose caller treats it as an error code, and
  \<open>UNDEF\<close> marks a run of the C code that reads an uninitialised object, whose outcome C does not
  define.
\<close>

datatype errno =
    EINVAL | EIO | EBADMSG | EALREADY | ENOENT | ENOBUFS | EMSGSIZE | EBUSY
  | EAGAIN | ENOMEM | EADDRNOTAVAIL | ENOTSUP | ECANCELED | ETIMEDOUT | ENOTCONN | E2BIG | ERR_ONE | UNDEF

section \<open>Byte lists\<close>

text \<open>A read through a pointer, with \<open>0\<close> standing for whatever lies beyond the object.\<close>

definition byte_at :: "bytes \<Rightarrow> nat \<Rightarrow> u8" where
  "byte_at xs i = (if i < length xs then xs ! i else 0)"

lemma byte_at_in [simp, byte_simps]: "i < length xs \<Longrightarrow> byte_at xs i = xs ! i"
  by (simp add: byte_at_def)

lemma byte_at_out [simp]: "length xs \<le> i \<Longrightarrow> byte_at xs i = 0"
  by (simp add: byte_at_def)

lemma byte_at_Nil [simp]: "byte_at [] i = 0"
  by (simp add: byte_at_def)

lemma byte_at_Cons_0 [simp]: "byte_at (x # xs) 0 = x"
  by (simp add: byte_at_def)

lemma byte_at_Cons_Suc [simp]: "byte_at (x # xs) (Suc i) = byte_at xs i"
  by (simp add: byte_at_def)

lemma byte_at_Cons_numeral [simp]:
  "byte_at (x # xs) (numeral n) = byte_at xs (pred_numeral n)"
  by (simp add: numeral_eq_Suc)

text \<open>\<^verbatim>\<open>memcpy(base + pos, xs, len)\<close> into an object that keeps its size.\<close>

definition put_bytes :: "bytes \<Rightarrow> nat \<Rightarrow> bytes \<Rightarrow> bytes" where
  "put_bytes base pos xs =
     take (length base) (take pos base @ xs @ drop (pos + length xs) base)"

text \<open>\<^verbatim>\<open>len\<close> bytes read from a position of an object.\<close>

definition get_bytes :: "bytes \<Rightarrow> nat \<Rightarrow> nat \<Rightarrow> bytes" where
  "get_bytes base pos n = take n (drop pos base)"

lemma length_put_bytes [simp, len_simps]:
  "length (put_bytes base pos xs) = length base"
  by (auto simp: put_bytes_def min_def)

lemma put_bytes_Nil [simp]: "put_bytes base pos [] = base"
  by (simp add: put_bytes_def)

lemma put_bytes_in:
  "pos + length xs \<le> length base \<Longrightarrow>
   put_bytes base pos xs = take pos base @ xs @ drop (pos + length xs) base"
  by (simp add: put_bytes_def)

lemma length_get_bytes [simp, len_simps]:
  "length (get_bytes base pos n) = min n (length base - pos)"
  by (simp add: get_bytes_def min.commute)

lemma get_put_same:
  "pos + length xs \<le> length base \<Longrightarrow> get_bytes (put_bytes base pos xs) pos (length xs) = xs"
  by (simp add: put_bytes_in get_bytes_def)

lemma get_put_before:
  "pos + n \<le> pos' \<Longrightarrow> pos' + length xs \<le> length base \<Longrightarrow>
   get_bytes (put_bytes base pos' xs) pos n = get_bytes base pos n"
  by (simp add: put_bytes_in get_bytes_def drop_take)

lemma get_put_after:
  "pos' + length xs \<le> pos \<Longrightarrow> pos' + length xs \<le> length base \<Longrightarrow>
   get_bytes (put_bytes base pos' xs) pos n = get_bytes base pos n"
  by (simp add: put_bytes_in get_bytes_def add.commute)

lemma get_bytes_append:
  "get_bytes base pos (m + n) = get_bytes base pos m @ get_bytes base (pos + m) n"
  by (simp add: get_bytes_def take_add add.commute)

lemma get_bytes_0 [simp]: "get_bytes base pos 0 = []"
  by (simp add: get_bytes_def)

lemma nth_get_bytes:
  "i < n \<Longrightarrow> pos + n \<le> length base \<Longrightarrow> get_bytes base pos n ! i = base ! (pos + i)"
  by (simp add: get_bytes_def)

text \<open>Bytewise exclusive or of two objects of the same length.\<close>

definition xor_bytes :: "bytes \<Rightarrow> bytes \<Rightarrow> bytes" where
  "xor_bytes xs ys = map2 (XOR) xs ys"

lemma length_xor_bytes [simp, len_simps]:
  "length (xor_bytes xs ys) = min (length xs) (length ys)"
  by (simp add: xor_bytes_def)

lemma nth_xor_bytes [simp]:
  "i < length xs \<Longrightarrow> i < length ys \<Longrightarrow> xor_bytes xs ys ! i = xs ! i XOR ys ! i"
  by (simp add: xor_bytes_def)

lemma xor_cancel_right [simp]: "(a XOR b) XOR b = (a :: 'a::len word)"
  by (simp add: xor.assoc)

lemma xor_cancel_left [simp]: "b XOR (b XOR a) = (a :: 'a::len word)"
  by (simp add: xor.assoc [symmetric])

lemma xor_bytes_twice:
  "length xs \<le> length ks \<Longrightarrow> xor_bytes (xor_bytes xs ks) ks = xs"
  by (rule nth_equalityI) auto

lemma xor_bytes_commute: "xor_bytes xs ys = xor_bytes ys xs"
  by (rule nth_equalityI) (auto simp: xor.commute)

section \<open>Counters of type \<^verbatim>\<open>u16_t\<close>\<close>

definition u16_add :: "nat \<Rightarrow> nat \<Rightarrow> nat" where
  "u16_add a b = (a + b) mod 65536"

definition u16_sub :: "nat \<Rightarrow> nat \<Rightarrow> nat" where
  "u16_sub a b = (a + 65536 - b mod 65536) mod 65536"

lemma u16_add_small [simp]: "a + b < 65536 \<Longrightarrow> u16_add a b = a + b"
  by (simp add: u16_add_def)

lemma u16_sub_small [simp]: "b \<le> a \<Longrightarrow> a < 65536 \<Longrightarrow> u16_sub a b = a - b"
proof -
  assume ba: "b \<le> a" and a: "a < 65536"
  have "a + 65536 - b mod 65536 = (a - b) + 65536"
    using ba a by simp
  then show ?thesis using a by (simp add: u16_sub_def)
qed

lemma u16_sub_le: "n \<le> a \<Longrightarrow> n < 65536 \<Longrightarrow> u16_sub a n \<le> a"
proof (cases "a < 65536")
  case False
  moreover have "u16_sub a n < 65536" by (simp add: u16_sub_def)
  ultimately show ?thesis by simp
qed (simp add: u16_sub_small)

lemma u16_sub_less: "n \<le> a \<Longrightarrow> 0 < n \<Longrightarrow> n < 65536 \<Longrightarrow> u16_sub a n < a"
proof (cases "a < 65536")
  case False
  moreover have "u16_sub a n < 65536" by (simp add: u16_sub_def)
  ultimately show ?thesis by simp
qed (simp add: u16_sub_small)

lemma u16_add_bound: "u16_add a b < 65536"
  by (simp add: u16_add_def)

lemma u16_sub_bound: "u16_sub a b < 65536"
  by (simp add: u16_sub_def)

section \<open>Lists\<close>

lemma take_drop_append: "take n xs @ take m (drop n xs) = take (n + m) xs"
  by (simp add: take_add)

lemma nth_eq_take_drop_split:
  "n \<le> length xs \<Longrightarrow> m \<le> length xs - n \<Longrightarrow> xs = take n xs @ take m (drop n xs) @ drop (n + m) xs"
  by (metis add.commute append_take_drop_id drop_drop)

lemma map_nth_upt_eq:
  "length xs = n \<Longrightarrow> (\<And>i. i < n \<Longrightarrow> f i = xs ! i) \<Longrightarrow> map f [0..<n] = xs"
  by (rule nth_equalityI) auto

text \<open>The first index of a list whose element satisfies a predicate: the \<^verbatim>\<open>for\<close> loop that
  returns a pointer into a table, or \<^verbatim>\<open>NULL\<close>.\<close>

fun find_index :: "('a \<Rightarrow> bool) \<Rightarrow> 'a list \<Rightarrow> nat option" where
  "find_index P [] = None"
| "find_index P (x # xs) = (if P x then Some 0 else map_option Suc (find_index P xs))"

lemma find_index_Some:
  "find_index P xs = Some i \<Longrightarrow> i < length xs \<and> P (xs ! i) \<and> (\<forall>j<i. \<not> P (xs ! j))"
proof (induction xs arbitrary: i)
  case Nil
  then show ?case by simp
next
  case (Cons x xs)
  show ?case
  proof (cases "P x")
    case True
    with Cons.prems show ?thesis by simp
  next
    case False
    with Cons.prems obtain k where k: "find_index P xs = Some k" "i = Suc k" by auto
    from Cons.IH [OF k(1)] False k(2) show ?thesis
      by (auto simp: nth_Cons split: nat.splits)
  qed
qed

lemma find_index_None: "find_index P xs = None \<longleftrightarrow> (\<forall>x\<in>set xs. \<not> P x)"
  by (induction xs) auto

lemma find_index_bound: "find_index P xs = Some i \<Longrightarrow> i < length xs"
  by (simp add: find_index_Some)

lemma find_index_holds: "find_index P xs = Some i \<Longrightarrow> P (xs ! i)"
  by (simp add: find_index_Some)

text \<open>In-place update of one table entry by a function.\<close>

definition upd_at :: "nat \<Rightarrow> ('a \<Rightarrow> 'a) \<Rightarrow> 'a list \<Rightarrow> 'a list" where
  "upd_at i f xs = (if i < length xs then xs[i := f (xs ! i)] else xs)"

lemma length_upd_at [simp, len_simps]: "length (upd_at i f xs) = length xs"
  by (simp add: upd_at_def)

lemma nth_upd_at: "j < length xs \<Longrightarrow> upd_at i f xs ! j = (if i = j then f (xs ! j) else xs ! j)"
  by (auto simp: upd_at_def nth_list_update)

text \<open>An observation that every step of a loop leaves alone.\<close>

lemma fold_unchanged: "(\<And>x s. f (g x s) = f s) \<Longrightarrow> f (fold g xs s) = f s"
  by (induction xs arbitrary: s) auto

section \<open>Words\<close>

lemma unat_u8_less [simp]: "unat (x :: u8) < 256"
  using unsigned_less [of x] by simp

lemma unat_u16_less [simp]: "unat (x :: u16) < 65536"
  using unsigned_less [of x] by simp

lemma unat_shift: "unat (drop_bit n w) = unat w div 2 ^ n"
  by (simp add: unat_drop_bit_eq drop_bit_eq_div [where 'a = nat])

lemma unat_cast: "unat (ucast (w :: 'a::len word) :: 'b::len word) = unat w mod 2 ^ LENGTH('b)"
  by (simp add: unsigned_ucast_eq take_bit_eq_mod)

lemma ucast_small:
  "v < 0x100 \<Longrightarrow> ucast (ucast v :: u8) = (v :: u32)"
  "v < 0x10000 \<Longrightarrow> ucast (ucast v :: u16) = (v :: u32)"
  by (simp_all add: word_unat_eq_iff unat_cast word_less_nat_alt)

lemma ucast_u8_u32 [simp]: "ucast (ucast (v :: u8) :: u32) = v"
  using unat_u8_less [of v] by (simp add: word_unat_eq_iff unat_cast del: unat_u8_less)

lemma ucast_u16_u32 [simp]: "ucast (ucast (v :: u16) :: u32) = v"
  using unat_u16_less [of v] by (simp add: word_unat_eq_iff unat_cast del: unat_u16_less)

end
