(* ===== verification/Byteorder.thy ===== *)
theory Byteorder
  imports Prelude
begin

text \<open>
  The byte-order helpers of \<^verbatim>\<open>bt_common/include/misc/byteorder.h\<close>: \<^verbatim>\<open>sys_put_*\<close> writes an integer
  to memory as a byte list, \<^verbatim>\<open>sys_get_*\<close> reads it back. The lemmas are the two halves of the
  round trip for every width the stack uses.
\<close>

definition sys_put_be16 :: "u16 \<Rightarrow> bytes" where
  "sys_put_be16 val = [ucast (drop_bit 8 val), ucast val]"

definition sys_put_be32 :: "u32 \<Rightarrow> bytes" where
  "sys_put_be32 val = sys_put_be16 (ucast (drop_bit 16 val)) @ sys_put_be16 (ucast val)"

definition sys_put_le16 :: "u16 \<Rightarrow> bytes" where
  "sys_put_le16 val = [ucast val, ucast (drop_bit 8 val)]"

definition sys_put_le32 :: "u32 \<Rightarrow> bytes" where
  "sys_put_le32 val = sys_put_le16 (ucast val) @ sys_put_le16 (ucast (drop_bit 16 val))"

definition sys_get_be16 :: "bytes \<Rightarrow> u16" where
  "sys_get_be16 src = push_bit 8 (ucast (byte_at src 0)) OR ucast (byte_at src 1)"

definition sys_get_be32 :: "bytes \<Rightarrow> u32" where
  "sys_get_be32 src = push_bit 16 (ucast (sys_get_be16 src)) OR ucast (sys_get_be16 (drop 2 src))"

definition sys_get_le16 :: "bytes \<Rightarrow> u16" where
  "sys_get_le16 src = push_bit 8 (ucast (byte_at src 1)) OR ucast (byte_at src 0)"

definition sys_get_le32 :: "bytes \<Rightarrow> u32" where
  "sys_get_le32 src = push_bit 16 (ucast (sys_get_le16 (drop 2 src))) OR ucast (sys_get_le16 src)"

section \<open>Lengths and round trips\<close>

lemma length_sys_put [simp, len_simps]:
  "length (sys_put_be16 v) = 2" "length (sys_put_le16 v) = 2"
  "length (sys_put_be32 w) = 4" "length (sys_put_le32 w) = 4"
  by (simp_all add: sys_put_be16_def sys_put_le16_def sys_put_be32_def sys_put_le32_def)

lemma join8_split:
  "push_bit 8 (ucast (ucast (drop_bit 8 v) :: u8)) OR ucast (ucast v :: u8) = (v :: u16)"
  by (rule bit_word_eqI) (auto simp: bit_simps)

lemma join16_split:
  "push_bit 16 (ucast (ucast (drop_bit 16 v) :: u16)) OR ucast (ucast v :: u16) = (v :: u32)"
  by (rule bit_word_eqI) (auto simp: bit_simps)

lemma split8_join:
  "ucast (drop_bit 8 (push_bit 8 (ucast a)) OR drop_bit 8 (ucast b) :: u16) = (a :: u8)"
  "ucast (push_bit 8 (ucast a) OR ucast b :: u16) = (b :: u8)"
  for a b :: u8
  by (rule bit_word_eqI, auto simp: bit_simps dest: bit_imp_le_length)+

lemma split16_join:
  "ucast (drop_bit 16 (push_bit 16 (ucast a)) OR drop_bit 16 (ucast b) :: u32) = (a :: u16)"
  "ucast (push_bit 16 (ucast a) OR ucast b :: u32) = (b :: u16)"
  for a b :: u16
  by (rule bit_word_eqI, auto simp: bit_simps dest: bit_imp_le_length)+

lemma get_put_be16 [simp]: "sys_get_be16 (sys_put_be16 v @ xs) = v"
  by (simp add: sys_get_be16_def sys_put_be16_def join8_split)

lemma get_put_le16 [simp]: "sys_get_le16 (sys_put_le16 v @ xs) = v"
  by (simp add: sys_get_le16_def sys_put_le16_def join8_split)

lemma get_put_be32 [simp]: "sys_get_be32 (sys_put_be32 v @ xs) = v"
  by (simp add: sys_get_be32_def sys_put_be32_def join16_split)

lemma get_put_le32 [simp]: "sys_get_le32 (sys_put_le32 v @ xs) = v"
  by (simp add: sys_get_le32_def sys_put_le32_def join16_split)

lemma get_put_self [simp]:
  "sys_get_be16 (sys_put_be16 v) = v" "sys_get_be32 (sys_put_be32 w) = w"
  "sys_get_le16 (sys_put_le16 v) = v" "sys_get_le32 (sys_put_le32 w) = w"
  using get_put_be16 [of v "[]"] get_put_be32 [of w "[]"]
    get_put_le16 [of v "[]"] get_put_le32 [of w "[]"] by simp_all

lemma put_get_be16 [simp]: "sys_put_be16 (sys_get_be16 [a, b]) = [a, b]"
  by (simp add: sys_get_be16_def sys_put_be16_def split8_join)

lemma sys_get_be16_Cons: "sys_get_be16 (a # b # xs) = sys_get_be16 [a, b]"
  by (simp add: sys_get_be16_def)

lemma put_get_be32 [simp]: "sys_put_be32 (sys_get_be32 [a, b, c, d]) = [a, b, c, d]"
  using sys_get_be16_Cons [of a b "[c, d]"]
  by (simp add: sys_get_be32_def sys_put_be32_def split16_join)

lemma sys_put_be16_inj [simp]: "sys_put_be16 v = sys_put_be16 w \<longleftrightarrow> v = w"
  by (metis get_put_self(1))

lemma sys_put_be32_inj [simp]: "sys_put_be32 v = sys_put_be32 w \<longleftrightarrow> v = w"
  by (metis get_put_self(2))

lemma list_of_two: "length xs = 2 \<Longrightarrow> xs = [byte_at xs 0, byte_at xs 1]"
  by (auto simp: numeral_2_eq_2 length_Suc_conv)

end
