(* ===== verification/Net_Buf.thy ===== *)
theory Net_Buf
  imports Byteorder
begin

text \<open>
  The linear buffers of \<^verbatim>\<open>bt_common/buf.c\<close> and \<^verbatim>\<open>net/buf.h\<close>. A \<^verbatim>\<open>struct net_buf_simple\<close> is its
  storage (\<^verbatim>\<open>__buf\<close>, whose length is \<^verbatim>\<open>size\<close>), the offset of the \<^verbatim>\<open>data\<close> pointer into it and the
  \<^verbatim>\<open>u16_t len\<close>. The field \<open>nb_fault\<close> is a ghost flag: an operation sets it exactly when the
  \<^verbatim>\<open>NET_BUF_SIMPLE_ASSERT\<close> of the source would fail, and no operation clears it, so that a
  theorem about memory safety says the flag stays false. \<open>nb_ok\<close> is the invariant of the
  type; \<open>nb_data\<close> is the abstraction to the byte list the buffer carries.
\<close>

record net_buf_simple =
  nb_buf :: bytes
  nb_off :: nat
  nb_len :: nat
  nb_fault :: bool

definition nb_data :: "net_buf_simple \<Rightarrow> bytes" where
  "nb_data b = get_bytes (nb_buf b) (nb_off b) (nb_len b)"

definition nb_ok :: "net_buf_simple \<Rightarrow> bool" where
  "nb_ok b \<longleftrightarrow> nb_off b + nb_len b \<le> length (nb_buf b) \<and> length (nb_buf b) < 65536 \<and> \<not> nb_fault b"

definition nb_byte :: "net_buf_simple \<Rightarrow> nat \<Rightarrow> u8" where
  "nb_byte b i = byte_at (nb_buf b) (nb_off b + i)"

definition nb_put :: "net_buf_simple \<Rightarrow> nat \<Rightarrow> bytes \<Rightarrow> net_buf_simple" where
  "nb_put b i xs = b\<lparr>nb_buf := put_bytes (nb_buf b) (nb_off b + i) xs\<rparr>"

section \<open>Operations\<close>

definition NET_BUF_SIMPLE :: "nat \<Rightarrow> net_buf_simple" where
  "NET_BUF_SIMPLE n = \<lparr>nb_buf = replicate n 0, nb_off = 0, nb_len = 0, nb_fault = False\<rparr>"

definition net_buf_simple_init :: "net_buf_simple \<Rightarrow> nat \<Rightarrow> net_buf_simple" where
  "net_buf_simple_init b reserve_head = b\<lparr>nb_off := reserve_head, nb_len := 0\<rparr>"

definition net_buf_simple_headroom :: "net_buf_simple \<Rightarrow> nat" where
  "net_buf_simple_headroom b = nb_off b"

definition net_buf_simple_tailroom :: "net_buf_simple \<Rightarrow> nat" where
  "net_buf_simple_tailroom b = length (nb_buf b) - net_buf_simple_headroom b - nb_len b"

definition net_buf_simple_add :: "net_buf_simple \<Rightarrow> nat \<Rightarrow> net_buf_simple" where
  "net_buf_simple_add b n =
     b\<lparr>nb_len := u16_add (nb_len b) n,
       nb_fault := nb_fault b \<or> \<not> n \<le> net_buf_simple_tailroom b\<rparr>"

definition net_buf_simple_add_mem :: "net_buf_simple \<Rightarrow> bytes \<Rightarrow> net_buf_simple" where
  "net_buf_simple_add_mem b mem = nb_put (net_buf_simple_add b (length mem)) (nb_len b) mem"

definition net_buf_simple_add_u8 :: "net_buf_simple \<Rightarrow> u8 \<Rightarrow> net_buf_simple" where
  "net_buf_simple_add_u8 b val = nb_put (net_buf_simple_add b 1) (nb_len b) [val]"

definition net_buf_simple_add_le16 :: "net_buf_simple \<Rightarrow> u16 \<Rightarrow> net_buf_simple" where
  "net_buf_simple_add_le16 b val = nb_put (net_buf_simple_add b 2) (nb_len b) (sys_put_le16 val)"

definition net_buf_simple_add_be16 :: "net_buf_simple \<Rightarrow> u16 \<Rightarrow> net_buf_simple" where
  "net_buf_simple_add_be16 b val = nb_put (net_buf_simple_add b 2) (nb_len b) (sys_put_be16 val)"

definition net_buf_simple_add_le32 :: "net_buf_simple \<Rightarrow> u32 \<Rightarrow> net_buf_simple" where
  "net_buf_simple_add_le32 b val = nb_put (net_buf_simple_add b 4) (nb_len b) (sys_put_le32 val)"

definition net_buf_simple_add_be32 :: "net_buf_simple \<Rightarrow> u32 \<Rightarrow> net_buf_simple" where
  "net_buf_simple_add_be32 b val = nb_put (net_buf_simple_add b 4) (nb_len b) (sys_put_be32 val)"

definition net_buf_simple_push :: "net_buf_simple \<Rightarrow> nat \<Rightarrow> net_buf_simple" where
  "net_buf_simple_push b n =
     b\<lparr>nb_off := nb_off b - n, nb_len := u16_add (nb_len b) n,
       nb_fault := nb_fault b \<or> \<not> n \<le> net_buf_simple_headroom b\<rparr>"

definition net_buf_simple_push_le16 :: "net_buf_simple \<Rightarrow> u16 \<Rightarrow> net_buf_simple" where
  "net_buf_simple_push_le16 b val = nb_put (net_buf_simple_push b 2) 0 (sys_put_le16 val)"

definition net_buf_simple_push_be16 :: "net_buf_simple \<Rightarrow> u16 \<Rightarrow> net_buf_simple" where
  "net_buf_simple_push_be16 b val = nb_put (net_buf_simple_push b 2) 0 (sys_put_be16 val)"

definition net_buf_simple_push_u8 :: "net_buf_simple \<Rightarrow> u8 \<Rightarrow> net_buf_simple" where
  "net_buf_simple_push_u8 b val = nb_put (net_buf_simple_push b 1) 0 [val]"

definition net_buf_simple_pull :: "net_buf_simple \<Rightarrow> nat \<Rightarrow> net_buf_simple" where
  "net_buf_simple_pull b n =
     b\<lparr>nb_off := nb_off b + n, nb_len := u16_sub (nb_len b) n,
       nb_fault := nb_fault b \<or> \<not> n \<le> nb_len b\<rparr>"

definition net_buf_simple_pull_u8 :: "net_buf_simple \<Rightarrow> u8 \<times> net_buf_simple" where
  "net_buf_simple_pull_u8 b = (nb_byte b 0, net_buf_simple_pull b 1)"

definition net_buf_simple_pull_le16 :: "net_buf_simple \<Rightarrow> u16 \<times> net_buf_simple" where
  "net_buf_simple_pull_le16 b = (sys_get_le16 [nb_byte b 0, nb_byte b 1], net_buf_simple_pull b 2)"

definition net_buf_simple_pull_be16 :: "net_buf_simple \<Rightarrow> u16 \<times> net_buf_simple" where
  "net_buf_simple_pull_be16 b = (sys_get_be16 [nb_byte b 0, nb_byte b 1], net_buf_simple_pull b 2)"

definition net_buf_simple_pull_le32 :: "net_buf_simple \<Rightarrow> u32 \<times> net_buf_simple" where
  "net_buf_simple_pull_le32 b =
     (sys_get_le32 [nb_byte b 0, nb_byte b 1, nb_byte b 2, nb_byte b 3], net_buf_simple_pull b 4)"

definition net_buf_simple_pull_be32 :: "net_buf_simple \<Rightarrow> u32 \<times> net_buf_simple" where
  "net_buf_simple_pull_be32 b =
     (sys_get_be32 [nb_byte b 0, nb_byte b 1, nb_byte b 2, nb_byte b 3], net_buf_simple_pull b 4)"

record net_buf_simple_state =
  nbs_offset :: nat
  nbs_len :: nat

definition net_buf_simple_save :: "net_buf_simple \<Rightarrow> net_buf_simple_state" where
  "net_buf_simple_save b = \<lparr>nbs_offset = net_buf_simple_headroom b, nbs_len = nb_len b\<rparr>"

definition net_buf_simple_restore :: "net_buf_simple \<Rightarrow> net_buf_simple_state \<Rightarrow> net_buf_simple" where
  "net_buf_simple_restore b st = b\<lparr>nb_off := nbs_offset st, nb_len := nbs_len st\<rparr>"

section \<open>Bytes of a well-formed buffer\<close>

lemma nb_ok_fault [simp]: "nb_ok b \<Longrightarrow> \<not> nb_fault b"
  by (simp add: nb_ok_def)

lemma length_nb_data [simp, len_simps]: "nb_ok b \<Longrightarrow> length (nb_data b) = nb_len b"
  by (auto simp: nb_ok_def nb_data_def)

lemma nb_byte_eq: "nb_ok b \<Longrightarrow> i < nb_len b \<Longrightarrow> nb_byte b i = nb_data b ! i"
  by (simp add: nb_ok_def nb_data_def nb_byte_def nth_get_bytes)

lemma nb_put_sel [simp]:
  "nb_off (nb_put b i xs) = nb_off b" "nb_len (nb_put b i xs) = nb_len b"
  "nb_fault (nb_put b i xs) = nb_fault b" "length (nb_buf (nb_put b i xs)) = length (nb_buf b)"
  by (simp_all add: nb_put_def)

lemma nb_ok_put [simp]: "nb_ok (nb_put b i xs) = nb_ok b"
  by (simp add: nb_ok_def)

lemma nb_data_put_end:
  assumes "nb_off b + i + length xs \<le> length (nb_buf b)" and "nb_len b = i + length xs"
  shows "nb_data (nb_put b i xs) = get_bytes (nb_buf b) (nb_off b) i @ xs"
proof -
  let ?buf = "put_bytes (nb_buf b) (nb_off b + i) xs"
  have "nb_data (nb_put b i xs)
      = get_bytes ?buf (nb_off b) i @ get_bytes ?buf (nb_off b + i) (length xs)"
    using assms(2) by (simp add: nb_data_def nb_put_def get_bytes_append)
  with assms(1) show ?thesis by (simp add: get_put_before get_put_same)
qed

lemma nb_data_put_front:
  assumes "nb_off b + length xs \<le> length (nb_buf b)" and "length xs \<le> nb_len b"
  shows "nb_data (nb_put b 0 xs) = xs @ get_bytes (nb_buf b) (nb_off b + length xs) (nb_len b - length xs)"
proof -
  let ?buf = "put_bytes (nb_buf b) (nb_off b) xs"
  have "nb_len b = length xs + (nb_len b - length xs)" using assms(2) by simp
  then have "nb_data (nb_put b 0 xs)
      = get_bytes ?buf (nb_off b) (length xs)
        @ get_bytes ?buf (nb_off b + length xs) (nb_len b - length xs)"
    by (metis (no_types, lifting) add.right_neutral get_bytes_append nb_data_def nb_put_def
        nb_put_sel(1) nb_put_sel(2) net_buf_simple.select_convs(1) net_buf_simple.surjective
        net_buf_simple.update_convs(1))
  with assms(1) show ?thesis by (simp add: get_put_same get_put_after)
qed

section \<open>Each operation on the carried bytes\<close>

lemma tailroom_le:
  "nb_ok b \<Longrightarrow> n \<le> net_buf_simple_tailroom b \<longleftrightarrow> nb_off b + nb_len b + n \<le> length (nb_buf b)"
  by (auto simp: nb_ok_def net_buf_simple_tailroom_def net_buf_simple_headroom_def)

lemma nb_ok_add:
  assumes "nb_ok b" "n \<le> net_buf_simple_tailroom b"
  shows "nb_ok (net_buf_simple_add b n)" "nb_len (net_buf_simple_add b n) = nb_len b + n"
  using assms tailroom_le [OF assms(1), of n]
  by (auto simp: nb_ok_def net_buf_simple_add_def)

lemma add_mem_data:
  assumes "nb_ok b" "length xs \<le> net_buf_simple_tailroom b"
  shows "nb_ok (net_buf_simple_add_mem b xs)"
    and "nb_data (net_buf_simple_add_mem b xs) = nb_data b @ xs"
proof -
  let ?b = "net_buf_simple_add b (length xs)"
  have sel: "nb_buf ?b = nb_buf b" "nb_off ?b = nb_off b"
    by (simp_all add: net_buf_simple_add_def)
  note ok = nb_ok_add [OF assms]
  show "nb_ok (net_buf_simple_add_mem b xs)"
    using ok by (simp add: net_buf_simple_add_mem_def)
  have "nb_off b + nb_len b + length xs \<le> length (nb_buf b)"
    using assms tailroom_le by blast
  then show "nb_data (net_buf_simple_add_mem b xs) = nb_data b @ xs"
    using nb_data_put_end [of ?b "nb_len b" xs] ok sel
    by (simp add: net_buf_simple_add_mem_def nb_data_def)
qed

lemma add_as_mem:
  "net_buf_simple_add_u8 b v = net_buf_simple_add_mem b [v]"
  "net_buf_simple_add_le16 b w = net_buf_simple_add_mem b (sys_put_le16 w)"
  "net_buf_simple_add_be16 b w = net_buf_simple_add_mem b (sys_put_be16 w)"
  "net_buf_simple_add_le32 b x = net_buf_simple_add_mem b (sys_put_le32 x)"
  "net_buf_simple_add_be32 b x = net_buf_simple_add_mem b (sys_put_be32 x)"
  by (simp_all add: net_buf_simple_add_mem_def net_buf_simple_add_u8_def
      net_buf_simple_add_le16_def net_buf_simple_add_be16_def net_buf_simple_add_le32_def
      net_buf_simple_add_be32_def)

text \<open>A buffer with given contents and room, and how additions change them.\<close>

definition nb_holds :: "net_buf_simple \<Rightarrow> bytes \<Rightarrow> nat \<Rightarrow> bool" where
  "nb_holds b d room \<longleftrightarrow> nb_ok b \<and> nb_data b = d \<and> net_buf_simple_tailroom b = room"

lemma nb_holds_add_mem: "nb_holds b d r \<Longrightarrow> length xs \<le> r \<Longrightarrow> nb_holds (net_buf_simple_add_mem b xs) (d @ xs) (r - length xs)"
  using add_mem_data [of b xs] nb_ok_add [of b "length xs"]
  by (auto simp: nb_holds_def net_buf_simple_tailroom_def net_buf_simple_headroom_def net_buf_simple_add_mem_def net_buf_simple_add_def)

lemma nb_holds_add:
  "nb_holds b d r \<Longrightarrow> 1 \<le> r \<Longrightarrow> nb_holds (net_buf_simple_add_u8 b v) (d @ [v]) (r - 1)"
  "nb_holds b d r \<Longrightarrow> 2 \<le> r \<Longrightarrow> nb_holds (net_buf_simple_add_le16 b w) (d @ sys_put_le16 w) (r - 2)"
  "nb_holds b d r \<Longrightarrow> 2 \<le> r \<Longrightarrow> nb_holds (net_buf_simple_add_be16 b w) (d @ sys_put_be16 w) (r - 2)"
  using nb_holds_add_mem [of b d r "[v]"] nb_holds_add_mem [of b d r "sys_put_le16 w"] nb_holds_add_mem [of b d r "sys_put_be16 w"]
  by (simp_all add: add_as_mem)

lemma nb_holds_init: "h \<le> length (nb_buf b) \<Longrightarrow> length (nb_buf b) < 65536 \<Longrightarrow> \<not> nb_fault b \<Longrightarrow>
    nb_holds (net_buf_simple_init b h) [] (length (nb_buf b) - h)"
  by (simp add: nb_holds_def nb_ok_def net_buf_simple_init_def nb_data_def net_buf_simple_tailroom_def net_buf_simple_headroom_def)

lemma nb_holds_bytes: "nb_holds b d r \<Longrightarrow> m \<le> n \<Longrightarrow> n \<le> length d \<Longrightarrow> map (nb_byte b) [m..<n] = take (n - m) (drop m d)"
  by (intro nth_equalityI) (auto simp: nb_holds_def nb_byte_eq)

definition push_mem :: "net_buf_simple \<Rightarrow> bytes \<Rightarrow> net_buf_simple" where
  "push_mem b xs = nb_put (net_buf_simple_push b (length xs)) 0 xs"

lemma push_as_mem:
  "net_buf_simple_push_u8 b v = push_mem b [v]"
  "net_buf_simple_push_le16 b w = push_mem b (sys_put_le16 w)"
  "net_buf_simple_push_be16 b w = push_mem b (sys_put_be16 w)"
  by (simp_all add: push_mem_def net_buf_simple_push_u8_def net_buf_simple_push_le16_def
      net_buf_simple_push_be16_def)

lemma push_mem_data:
  assumes "nb_ok b" "length xs \<le> net_buf_simple_headroom b"
  shows "nb_ok (push_mem b xs)" and "nb_data (push_mem b xs) = xs @ nb_data b"
    and "net_buf_simple_headroom (push_mem b xs) = net_buf_simple_headroom b - length xs"
    and "net_buf_simple_tailroom (push_mem b xs) = net_buf_simple_tailroom b"
proof -
  let ?b = "net_buf_simple_push b (length xs)"
  have hd: "length xs \<le> nb_off b" using assms(2) by (simp add: net_buf_simple_headroom_def)
  have sel: "nb_buf ?b = nb_buf b" "nb_off ?b = nb_off b - length xs"
    "nb_len ?b = nb_len b + length xs"
    using assms(1) hd by (auto simp: net_buf_simple_push_def nb_ok_def)
  show "nb_ok (push_mem b xs)"
    using assms(1) hd by (auto simp: push_mem_def nb_ok_def net_buf_simple_push_def
        net_buf_simple_headroom_def)
  show "nb_data (push_mem b xs) = xs @ nb_data b"
    using nb_data_put_front [of ?b xs] assms(1) hd sel
    by (simp add: push_mem_def nb_data_def nb_ok_def)
  show "net_buf_simple_headroom (push_mem b xs) = net_buf_simple_headroom b - length xs"
    by (simp add: push_mem_def net_buf_simple_push_def net_buf_simple_headroom_def)
  show "net_buf_simple_tailroom (push_mem b xs) = net_buf_simple_tailroom b"
    using hd sel assms(1)
    by (simp add: push_mem_def net_buf_simple_tailroom_def net_buf_simple_headroom_def)
qed

lemma pull_data:
  assumes "nb_ok b" "n \<le> nb_len b"
  shows "nb_ok (net_buf_simple_pull b n)"
    and "nb_data (net_buf_simple_pull b n) = drop n (nb_data b)"
    and "nb_len (net_buf_simple_pull b n) = nb_len b - n"
  using assms by (auto simp: nb_ok_def net_buf_simple_pull_def nb_data_def get_bytes_def
      drop_take add.commute)

lemma nb_data_split2:
  assumes "nb_ok b" "2 \<le> nb_len b"
  shows "[nb_byte b 0, nb_byte b 1] = take 2 (nb_data b)"
  using assms by (auto simp: nb_byte_eq numeral_2_eq_2 take_Suc_conv_app_nth)

lemma pull_be16_data:
  assumes "nb_ok b" "2 \<le> nb_len b"
  shows "net_buf_simple_pull_be16 b = (sys_get_be16 (take 2 (nb_data b)), net_buf_simple_pull b 2)"
  using nb_data_split2 [OF assms] by (simp add: net_buf_simple_pull_be16_def)

lemma pull_u8_data:
  "nb_ok b \<Longrightarrow> 1 \<le> nb_len b \<Longrightarrow>
   net_buf_simple_pull_u8 b = (hd (nb_data b), net_buf_simple_pull b 1)"
  using length_nb_data [of b]
  by (cases "nb_data b") (auto simp: net_buf_simple_pull_u8_def nb_byte_eq)

lemma restore_save_pull:
  assumes "nb_ok b" "n \<le> nb_len b"
  shows "net_buf_simple_restore (net_buf_simple_pull b n) (net_buf_simple_save b) = b"
  using assms
  by (simp add: net_buf_simple_restore_def net_buf_simple_pull_def net_buf_simple_save_def
      net_buf_simple_headroom_def nb_ok_def)

lemma init_data:
  assumes "nb_ok b" "r \<le> length (nb_buf b)"
  shows "nb_ok (net_buf_simple_init b r)" "nb_data (net_buf_simple_init b r) = []"
    "net_buf_simple_headroom (net_buf_simple_init b r) = r"
    "net_buf_simple_tailroom (net_buf_simple_init b r) = length (nb_buf b) - r"
  using assms by (simp_all add: nb_ok_def net_buf_simple_init_def nb_data_def
      net_buf_simple_headroom_def net_buf_simple_tailroom_def)

lemma NET_BUF_SIMPLE_ok: "n < 65536 \<Longrightarrow> nb_ok (NET_BUF_SIMPLE n)"
  by (simp add: nb_ok_def NET_BUF_SIMPLE_def)

lemma NET_BUF_SIMPLE_sel [simp]:
  "length (nb_buf (NET_BUF_SIMPLE n)) = n" "nb_off (NET_BUF_SIMPLE n) = 0"
  "nb_len (NET_BUF_SIMPLE n) = 0" "nb_data (NET_BUF_SIMPLE n) = []"
  by (simp_all add: NET_BUF_SIMPLE_def nb_data_def)

end
