(* ===== verification/Sec_Hal.thy ===== *)
theory Sec_Hal
  imports Tinycrypt
begin

text \<open>
  The security port of the stack: \<^verbatim>\<open>bt_encrypt_be\<close> of \<^verbatim>\<open>bt_host/host/crypto.c\<close> and
  \<^verbatim>\<open>bt_mesh_aes_encrypt\<close>, \<^verbatim>\<open>bt_mesh_aes_cmac\<close> of \<^verbatim>\<open>bt_mesh/ref_impl/mesh_hal_sec.c\<close>, with the
  inline wrappers of \<^verbatim>\<open>mesh_crypto.h\<close>. A scatter-gather list of \<^verbatim>\<open>struct bt_mesh_sg\<close> is a list
  of byte lists. The theorems relate the scatter-gather MAC to the MAC of the concatenation.
\<close>

definition bt_encrypt_be :: "bytes \<Rightarrow> bytes \<Rightarrow> errno + bytes" where
  "bt_encrypt_be key plaintext = Inr (tc_aes_encrypt plaintext (tc_aes128_set_encrypt_key key))"

definition bt_mesh_aes_encrypt :: "bytes \<Rightarrow> bytes \<Rightarrow> errno + bytes" where
  "bt_mesh_aes_encrypt key plaintext = bt_encrypt_be key plaintext"

fun cmac_feed :: "tc_cmac_struct \<Rightarrow> bytes list \<Rightarrow> tc_cmac_struct option" where
  "cmac_feed s [] = Some s"
| "cmac_feed s (d # sg) =
     (case tc_cmac_update s d of None \<Rightarrow> None | Some s' \<Rightarrow> cmac_feed s' sg)"

definition bt_mesh_aes_cmac :: "bytes \<Rightarrow> bytes list \<Rightarrow> errno + bytes" where
  "bt_mesh_aes_cmac key sg =
     (case cmac_feed (tc_cmac_setup key) sg of
        None \<Rightarrow> Inl EIO
      | Some s \<Rightarrow> Inr (tc_cmac_final s))"

definition bt_mesh_aes_cmac_one :: "bytes \<Rightarrow> bytes \<Rightarrow> errno + bytes" where
  "bt_mesh_aes_cmac_one key m = bt_mesh_aes_cmac key [m]"

section \<open>The CBC chain\<close>

lemma cbc_blocks_short: "length d \<le> 16 \<Longrightarrow> cbc_blocks sched iv d = (iv, d)"
  by (simp add: cbc_blocks.simps)

lemma cbc_blocks_long:
  "16 < length d \<Longrightarrow>
   cbc_blocks sched iv d = cbc_blocks sched (tc_aes_encrypt (xor_bytes iv (take 16 d)) sched) (drop 16 d)"
  by (simp add: cbc_blocks.simps [of sched iv d])

lemma cbc_blocks_append:
  "cbc_blocks sched iv p = (iv', r) \<Longrightarrow> cbc_blocks sched iv (p @ d) = cbc_blocks sched iv' (r @ d)"
proof (induction sched iv p rule: cbc_blocks.induct)
  case (1 sched iv p)
  show ?case
  proof (cases "16 < length p")
    case True
    with "1.prems" have "cbc_blocks sched (tc_aes_encrypt (xor_bytes iv (take 16 p)) sched) (drop 16 p) = (iv', r)"
      by (simp add: cbc_blocks_long)
    from "1.IH" [OF True this] True show ?thesis by (simp add: cbc_blocks_long)
  next
    case False
    with "1.prems" show ?thesis by (simp add: cbc_blocks_short)
  qed
qed

lemma cbc_blocks_block:
  "length b = 16 \<Longrightarrow> d \<noteq> [] \<Longrightarrow>
   cbc_blocks sched iv (b @ d) = cbc_blocks sched (tc_aes_encrypt (xor_bytes iv b) sched) d"
  by (simp add: cbc_blocks_long)

lemma cbc_blocks_rest:
  "cbc_blocks sched iv p = (iv', r) \<Longrightarrow>
   length r \<le> 16 \<and> (p \<noteq> [] \<longrightarrow> r \<noteq> []) \<and> 16 dvd length p - length r \<and> length r \<le> length p"
proof (induction sched iv p rule: cbc_blocks.induct)
  case (1 sched iv p)
  show ?case
  proof (cases "16 < length p")
    case True
    with "1.prems" have "cbc_blocks sched (tc_aes_encrypt (xor_bytes iv (take 16 p)) sched) (drop 16 p) = (iv', r)"
      by (simp add: cbc_blocks_long)
    from "1.IH" [OF True this] True have
      "length r \<le> 16 \<and> r \<noteq> [] \<and> 16 dvd length p - 16 - length r \<and> length r \<le> length p - 16"
      by auto
    then have r: "length r \<le> 16" "r \<noteq> []" "16 dvd length p - 16 - length r" "length r \<le> length p - 16"
      by auto
    have "16 dvd (length p - 16 - length r) + 16" using r(3) by simp
    moreover have "(length p - 16 - length r) + 16 = length p - length r" using r(4) True by linarith
    ultimately have "16 dvd length p - length r" by metis
    with r show ?thesis by auto
  next
    case False
    with "1.prems" show ?thesis by (auto simp: cbc_blocks_short)
  qed
qed

lemma cbc_blocks_iv_length:
  "length sched = 44 \<Longrightarrow> length iv = 16 \<Longrightarrow> cbc_blocks sched iv p = (iv', r) \<Longrightarrow> length iv' = 16"
proof (induction sched iv p rule: cbc_blocks.induct)
  case (1 sched iv p)
  show ?case
  proof (cases "16 < length p")
    case True
    with 1 show ?thesis by (simp add: cbc_blocks_long)
  next
    case False
    with "1.prems" show ?thesis by (simp add: cbc_blocks_short)
  qed
qed

section \<open>What a CMAC state stands for\<close>

definition cmac_keyed :: "bytes \<Rightarrow> tc_cmac_struct \<Rightarrow> bool" where
  "cmac_keyed key s \<longleftrightarrow>
     cm_sched s = tc_aes128_set_encrypt_key key \<and>
     cm_K1 s = cmac_K1 key \<and> cm_K2 s = cmac_K2 key \<and> length (cm_leftover s) = 16"

text \<open>
  An open state holds the last one to sixteen bytes of the message in \<^verbatim>\<open>leftover\<close>. A closed state
  has already encrypted them, so it stands for its message only as a prefix of a longer one.
\<close>

definition cmac_open :: "tc_cmac_struct \<Rightarrow> bytes \<Rightarrow> bool" where
  "cmac_open s p \<longleftrightarrow> cm_leftover_offset s \<le> 16 \<and>
     cbc_blocks (cm_sched s) (replicate 16 0) p = (cm_iv s, take (cm_leftover_offset s) (cm_leftover s))"

definition cmac_closed :: "tc_cmac_struct \<Rightarrow> bytes \<Rightarrow> bool" where
  "cmac_closed s p \<longleftrightarrow> cm_leftover_offset s = 0 \<and> 16 dvd length p \<and>
     (\<forall>d. d \<noteq> [] \<longrightarrow>
        cbc_blocks (cm_sched s) (replicate 16 0) (p @ d) = cbc_blocks (cm_sched s) (cm_iv s) d)"

lemma cmac_setup_rep:
  "cmac_keyed key (tc_cmac_setup key)" "cmac_open (tc_cmac_setup key) []"
  "cm_countdown (tc_cmac_setup key) = push_bit 48 1"
  by (simp_all add: cmac_keyed_def cmac_open_def tc_cmac_setup_def tc_cmac_init_def Let_def
      cbc_blocks_short cmac_K1_def cmac_K2_def)

lemma cmac_tail_rep:
  assumes "cmac_keyed key s" "d \<noteq> []"
    and "cbc_blocks (cm_sched s) (replicate 16 0) (p @ d) = cbc_blocks (cm_sched s) (cm_iv s) d"
  shows "cmac_keyed key (cmac_tail s d) \<and> cmac_open (cmac_tail s d) (p @ d)
         \<and> cm_countdown (cmac_tail s d) = cm_countdown s"
proof -
  obtain iv r where ivr: "cbc_blocks (cm_sched s) (cm_iv s) d = (iv, r)" by fastforce
  from cbc_blocks_rest [OF this] assms(2) have r: "length r \<le> 16" "r \<noteq> []" by auto
  have "length (cm_leftover s) = 16" using assms(1) by (simp add: cmac_keyed_def)
  then have "take (length r) (put_bytes (cm_leftover s) 0 r) = r"
    using r by (simp add: put_bytes_in)
  with assms r ivr show ?thesis
    by (auto simp: cmac_tail_def cmac_keyed_def cmac_open_def Let_def)
qed

lemma cmac_fill_rep:
  assumes "cmac_keyed key s" "cmac_open s p" "cm_leftover_offset s = off"
    and "16 - off \<le> length d"
  defines "lo \<equiv> take off (cm_leftover s) @ take (16 - off) d"
  shows "cmac_keyed key (cmac_fill s d)" "cm_leftover_offset (cmac_fill s d) = 0"
    and "e \<noteq> [] \<Longrightarrow> drop (16 - off) d = [] \<or> e = drop (16 - off) d \<Longrightarrow>
         cbc_blocks (cm_sched s) (replicate 16 0) (p @ take (16 - off) d @ e)
         = cbc_blocks (cm_sched (cmac_fill s d)) (cm_iv (cmac_fill s d)) e"
    and "cm_countdown (cmac_fill s d) = cm_countdown s"
proof -
  have off: "off \<le> 16" and cb: "cbc_blocks (cm_sched s) (replicate 16 0) p = (cm_iv s, take off (cm_leftover s))"
    using assms(2,3) by (auto simp: cmac_open_def)
  have lf: "length (cm_leftover s) = 16" using assms(1) by (simp add: cmac_keyed_def)
  have full: "put_bytes (cm_leftover s) off (take (16 - off) d) = lo"
    using off lf assms(4) by (simp add: put_bytes_in lo_def)
  have len: "length lo = 16" using off lf assms(4) by (simp add: lo_def)
  show "cmac_keyed key (cmac_fill s d)" "cm_leftover_offset (cmac_fill s d) = 0"
    "cm_countdown (cmac_fill s d) = cm_countdown s"
    using assms(1) by (simp_all add: cmac_fill_def cmac_keyed_def Let_def)
  assume "e \<noteq> []"
  then have "cbc_blocks (cm_sched s) (cm_iv s) (lo @ e)
      = cbc_blocks (cm_sched s) (tc_aes_encrypt (xor_bytes (cm_iv s) lo) (cm_sched s)) e"
    by (rule cbc_blocks_block [OF len])
  then show "cbc_blocks (cm_sched s) (replicate 16 0) (p @ take (16 - off) d @ e)
         = cbc_blocks (cm_sched (cmac_fill s d)) (cm_iv (cmac_fill s d)) e"
    using cbc_blocks_append [OF cb, of "take (16 - off) d @ e"] full assms(3)
    by (simp add: cmac_fill_def Let_def lo_def)
qed

lemma cmac_open_offset:
  "cmac_keyed key s \<Longrightarrow> cmac_open s p \<Longrightarrow>
   (cm_leftover_offset s = 0 \<longleftrightarrow> p = []) \<and> length p mod 16 = cm_leftover_offset s mod 16"
proof -
  assume k: "cmac_keyed key s" and o: "cmac_open s p"
  then have l: "length (take (cm_leftover_offset s) (cm_leftover s)) = cm_leftover_offset s"
    by (simp add: cmac_keyed_def cmac_open_def)
  from o have cb: "cbc_blocks (cm_sched s) (replicate 16 0) p
      = (cm_iv s, take (cm_leftover_offset s) (cm_leftover s))" by (simp add: cmac_open_def)
  note r = cbc_blocks_rest [OF cb, unfolded l]
  then obtain q where "length p = 16 * q + cm_leftover_offset s"
    by (metis dvdE le_add_diff_inverse2)
  with r l show ?thesis by (cases "p = []") auto
qed

section \<open>One update\<close>

text \<open>An update leaves a closed state exactly when it completes a partly filled block.\<close>

lemma cmac_update_open:
  assumes "cmac_keyed key s" "cmac_open s p" "d \<noteq> []" "cm_countdown s \<noteq> 0"
  shows "\<exists>s'. tc_cmac_update s d = Some s' \<and> cmac_keyed key s' \<and>
           cm_countdown s' = cm_countdown s - 1 \<and>
           (if length p mod 16 \<noteq> 0 \<and> length p mod 16 + length d = 16
            then cmac_closed s' (p @ d) else cmac_open s' (p @ d))"
proof -
  define off where "off = cm_leftover_offset s"
  define s1 where "s1 = s\<lparr>cm_countdown := cm_countdown s - 1\<rparr>"
  have k1: "cmac_keyed key s1" and o1: "cmac_open s1 p"
    using assms(1,2) by (simp_all add: cmac_keyed_def cmac_open_def s1_def)
  have s1: "cm_leftover_offset s1 = off" "cm_countdown s1 = cm_countdown s - 1"
    by (simp_all add: s1_def off_def)
  have off: "off \<le> 16" "off = 0 \<longleftrightarrow> p = []" "length p mod 16 = off mod 16"
    using cmac_open_offset [OF assms(1,2)] assms(2) by (auto simp: off_def cmac_open_def)
  have lf: "length (cm_leftover s1) = 16" using k1 by (simp add: cmac_keyed_def)
  have cb: "cbc_blocks (cm_sched s1) (replicate 16 0) p = (cm_iv s1, take off (cm_leftover s1))"
    using o1 s1 by (simp add: cmac_open_def)
  consider (zero) "off = 0" | (more) "0 < off" "length d < 16 - off" | (full) "0 < off" "16 - off \<le> length d"
    by linarith
  then show ?thesis
  proof cases
    case zero
    have "cbc_blocks (cm_sched s1) (replicate 16 0) (p @ d) = cbc_blocks (cm_sched s1) (cm_iv s1) d"
      using cbc_blocks_append [OF cb, of d] zero by simp
    from cmac_tail_rep [OF k1 assms(3) this] zero off s1 assms(3,4) show ?thesis
      by (auto simp: tc_cmac_update_def Let_def s1_def off_def)
  next
    case more
    let ?s = "s1\<lparr>cm_leftover := put_bytes (cm_leftover s1) off d, cm_leftover_offset := off + length d\<rparr>"
    have upd: "tc_cmac_update s d = Some ?s"
      using more assms(3,4) by (simp add: tc_cmac_update_def Let_def s1_def off_def)
    have "take (off + length d) (put_bytes (cm_leftover s1) off d) = take off (cm_leftover s1) @ d"
      using more lf by (simp add: put_bytes_in)
    moreover have "cbc_blocks (cm_sched s1) (replicate 16 0) (p @ d) = (cm_iv s1, take off (cm_leftover s1) @ d)"
      using cbc_blocks_append [OF cb, of d] more lf by (simp add: cbc_blocks_short)
    ultimately have "cmac_open ?s (p @ d)" using more by (simp add: cmac_open_def)
    with upd k1 more off s1 show ?thesis by (auto simp: cmac_keyed_def)
  next
    case full
    let ?f = "cmac_fill s1 d" and ?d = "drop (16 - off) d"
    have upd: "tc_cmac_update s d = Some (cmac_tail ?f ?d)"
      using full assms(3,4) by (simp add: tc_cmac_update_def Let_def s1_def off_def)
    note fill = cmac_fill_rep [OF k1 o1 s1(1) full(2)]
    show ?thesis
    proof (cases "?d = []")
      case True
      then have "length d \<le> 16 - off" by simp
      then have d: "take (16 - off) d = d" "off + length d = 16" using full off(1) by (simp, linarith)
      have tail: "cmac_tail ?f [] = ?f"
        by (simp add: cmac_tail_def cbc_blocks_short Let_def)
      have "off mod 16 = off" "0 < off" using d(2) assms(3) full by (cases "off = 16"; simp)+
      moreover have "16 dvd length (p @ d)"
      proof -
        have "(length p + length d) mod 16 = (off mod 16 + length d) mod 16"
          unfolding off(3) [symmetric] by presburger
        with d(2) \<open>off mod 16 = off\<close> show ?thesis by (simp add: dvd_eq_mod_eq_0)
      qed
      moreover have "cmac_closed ?f (p @ d)"
        using fill(2) fill(3) d(1) True \<open>16 dvd length (p @ d)\<close>
        by (auto simp: cmac_closed_def cmac_fill_def Let_def)
      ultimately show ?thesis using upd tail True fill(1,4) off d(2) s1 by auto
    next
      case False
      have "cbc_blocks (cm_sched ?f) (replicate 16 0) ((p @ take (16 - off) d) @ ?d)
          = cbc_blocks (cm_sched ?f) (cm_iv ?f) ?d"
        using fill(3) [OF False] by (simp add: cmac_fill_def Let_def)
      from cmac_tail_rep [OF fill(1) False this] have
        t: "cmac_keyed key (cmac_tail ?f ?d)" "cmac_open (cmac_tail ?f ?d) (p @ d)"
        "cm_countdown (cmac_tail ?f ?d) = cm_countdown s - 1"
        using fill(4) s1 by simp_all
      have "\<not> (off mod 16 \<noteq> 0 \<and> off mod 16 + length d = 16)" using False full off(1) by (cases "off = 16") auto
      with upd t off(3) show ?thesis by auto
    qed
  qed
qed

lemma cmac_update_closed:
  assumes "cmac_keyed key s" "cmac_closed s p" "d \<noteq> []" "cm_countdown s \<noteq> 0"
  shows "\<exists>s'. tc_cmac_update s d = Some s' \<and> cmac_keyed key s' \<and>
           cm_countdown s' = cm_countdown s - 1 \<and> cmac_open s' (p @ d)"
proof -
  let ?s = "s\<lparr>cm_countdown := cm_countdown s - 1\<rparr>"
  have "cmac_keyed key ?s" using assms(1) by (simp add: cmac_keyed_def)
  moreover have "cbc_blocks (cm_sched ?s) (replicate 16 0) (p @ d) = cbc_blocks (cm_sched ?s) (cm_iv ?s) d"
    using assms(2,3) by (simp add: cmac_closed_def)
  ultimately show ?thesis
    using cmac_tail_rep [of key ?s d p] assms
    by (auto simp: tc_cmac_update_def Let_def cmac_closed_def)
qed

lemma cmac_final_open:
  assumes "cmac_keyed key s" "cmac_open s p"
  shows "tc_cmac_final s = cmac_spec key p"
proof -
  define off where "off = cm_leftover_offset s"
  have off: "off \<le> 16" and lf: "length (cm_leftover s) = 16"
    using assms by (auto simp: cmac_keyed_def cmac_open_def off_def)
  have "off < 16 \<Longrightarrow> put_bytes (cm_leftover s) off (0x80 # replicate (15 - off) 0)
      = take off (cm_leftover s) @ 0x80 # replicate (15 - off) 0"
    using lf by (simp add: put_bytes_in)
  with assms off lf show ?thesis
    by (auto simp: tc_cmac_final_def cmac_spec_def cmac_last_def cmac_keyed_def cmac_open_def
        Let_def off_def)
qed

lemma cmac_final_closed:
  assumes "cmac_keyed key s" "cmac_closed s p" "length p = 16"
  shows "tc_cmac_final s
    = cmac_last key (tc_aes_encrypt (xor_bytes (replicate 16 0) p) (tc_aes128_set_encrypt_key key)) []"
proof -
  have off: "cm_leftover_offset s = 0" using assms(2) by (simp add: cmac_closed_def)
  have "cbc_blocks (cm_sched s) (replicate 16 0) (p @ [0]) = cbc_blocks (cm_sched s) (cm_iv s) [0]"
    using assms(2) by (simp add: cmac_closed_def)
  then have iv: "cm_iv s = tc_aes_encrypt (xor_bytes (replicate 16 0) p) (cm_sched s)"
    using assms(3) by (simp add: cbc_blocks_block cbc_blocks_short)
  have lf: "length (cm_leftover s) = 16" using assms(1) by (simp add: cmac_keyed_def)
  have "put_bytes (cm_leftover s) 0 (0x80 # replicate 15 0) = 0x80 # replicate 15 0"
    using lf by (simp add: put_bytes_in)
  with off iv assms(1) show ?thesis
    by (simp add: tc_cmac_final_def cmac_last_def cmac_keyed_def Let_def)
qed

section \<open>The scatter-gather MAC\<close>

definition cmac_split_ok :: "bytes list \<Rightarrow> bool" where
  "cmac_split_ok sg =
     (let xs = filter (\<lambda>x. x \<noteq> []) sg; n = length (concat (butlast xs)) in
      xs = [] \<or> n mod 16 = 0 \<or> n mod 16 + length (last xs) \<noteq> 16)"

lemma cmac_feed_filter: "cmac_feed s sg = cmac_feed s (filter (\<lambda>x. x \<noteq> []) sg)"
  by (induction sg arbitrary: s) (auto simp: tc_cmac_update_def split: option.splits)

lemma concat_filter_ne: "concat (filter (\<lambda>x. x \<noteq> []) sg) = concat sg"
  by (induction sg) auto

lemma cmac_feed_append:
  "cmac_feed s (xs @ ys) = (case cmac_feed s xs of None \<Rightarrow> None | Some s' \<Rightarrow> cmac_feed s' ys)"
  by (induction xs arbitrary: s) (auto split: option.splits)

lemma countdown_step:
  fixes c :: u64
  assumes "Suc n \<le> unat c"
  shows "c \<noteq> 0" "n \<le> unat (c - 1)"
proof -
  show "c \<noteq> 0" using assms by auto
  then have "unat (c - 1) = unat c - 1" by (rule unat_minus_one)
  with assms show "n \<le> unat (c - 1)" by simp
qed

lemma cmac_feed_rep:
  assumes "cmac_keyed key s" "cmac_open s p \<or> cmac_closed s p"
    and "\<forall>x\<in>set sg. x \<noteq> []" "n + length sg \<le> unat (cm_countdown s)"
  shows "\<exists>s'. cmac_feed s sg = Some s' \<and> cmac_keyed key s' \<and> n \<le> unat (cm_countdown s') \<and>
           (cmac_open s' (p @ concat sg) \<or> cmac_closed s' (p @ concat sg))"
  using assms
proof (induction sg arbitrary: s p)
  case Nil
  then show ?case by simp
next
  case (Cons d sg)
  from Cons.prems(4) have "Suc (n + length sg) \<le> unat (cm_countdown s)" by simp
  note cd = countdown_step [OF this]
  have "\<exists>s'. tc_cmac_update s d = Some s' \<and> cmac_keyed key s' \<and> cm_countdown s' = cm_countdown s - 1 \<and>
      (cmac_open s' (p @ d) \<or> cmac_closed s' (p @ d))"
    using Cons.prems(2)
  proof
    assume "cmac_open s p"
    from cmac_update_open [OF Cons.prems(1) this _ cd(1), of d] Cons.prems(3) show ?thesis
      by (auto split: if_splits)
  next
    assume "cmac_closed s p"
    from cmac_update_closed [OF Cons.prems(1) this _ cd(1), of d] Cons.prems(3) show ?thesis
      by auto
  qed
  then obtain s' where s': "tc_cmac_update s d = Some s'" "cmac_keyed key s'"
    "cm_countdown s' = cm_countdown s - 1" "cmac_open s' (p @ d) \<or> cmac_closed s' (p @ d)" by blast
  from Cons.IH [OF s'(2,4)] Cons.prems(3) cd(2) s'(3) s'(1) show ?case by simp
qed

lemma countdown_start: "unat (push_bit 48 1 :: u64) = 2 ^ 48"
  by (simp add: push_bit_eq_mult unat_word_ariths)

lemma cmac_sg_spec:
  assumes "length sg \<le> 2 ^ 48" "cmac_split_ok sg"
  shows "bt_mesh_aes_cmac key sg = Inr (cmac_spec key (concat sg))"
proof -
  define xs where "xs = filter (\<lambda>x. x \<noteq> []) sg"
  have fx: "cmac_feed (tc_cmac_setup key) sg = cmac_feed (tc_cmac_setup key) xs"
    unfolding xs_def by (rule cmac_feed_filter)
  have cx: "concat xs = concat sg" unfolding xs_def by (rule concat_filter_ne)
  have ne: "\<forall>x\<in>set xs. x \<noteq> []" and lx: "length xs \<le> 2 ^ 48"
    using assms(1) by (auto simp: xs_def intro: le_trans [OF length_filter_le])
  have "\<exists>s. cmac_feed (tc_cmac_setup key) xs = Some s \<and> cmac_keyed key s \<and> cmac_open s (concat xs)"
  proof (cases "xs = []")
    case True
    then show ?thesis by (simp add: cmac_setup_rep)
  next
    case False
    then obtain ys d where xs: "xs = ys @ [d]" by (metis append_butlast_last_id)
    have n: "length (concat ys) mod 16 = 0 \<or> length (concat ys) mod 16 + length d \<noteq> 16"
      using assms(2) xs by (auto simp: cmac_split_ok_def xs_def [symmetric] Let_def)
    have "1 + length ys \<le> unat (cm_countdown (tc_cmac_setup key))"
      using lx xs by (simp add: cmac_setup_rep countdown_start del: push_bit_of_1)
    from cmac_feed_rep [OF cmac_setup_rep(1) disjI1 [OF cmac_setup_rep(2)] _ this] ne xs
    obtain s where s: "cmac_feed (tc_cmac_setup key) ys = Some s" "cmac_keyed key s"
      "1 \<le> unat (cm_countdown s)" "cmac_open s (concat ys) \<or> cmac_closed s (concat ys)" by auto
    then have "cm_countdown s \<noteq> 0" and "d \<noteq> []" using ne xs by auto
    then have "\<exists>s'. tc_cmac_update s d = Some s' \<and> cmac_keyed key s' \<and> cmac_open s' (concat ys @ d)"
      using s(4) cmac_update_open [OF s(2)] cmac_update_closed [OF s(2)] n by metis
    then show ?thesis using xs s(1) by (auto simp: cmac_feed_append)
  qed
  with fx cx show ?thesis by (auto simp: bt_mesh_aes_cmac_def cmac_final_open)
qed

text \<open>
  C26. The scatter-gather MAC of \<^verbatim>\<open>bt_mesh_aes_cmac\<close> is the RFC 4493 MAC of the concatenation of
  its parts, for every list of parts short enough for the re-keying countdown, unless the last
  non-empty part exactly completes a partly filled block.
\<close>

theorem bt_mesh_aes_cmac_eq_spec:
  assumes "length sg \<le> 2 ^ 48" "cmac_split_ok sg"
  shows "bt_mesh_aes_cmac key sg = Inr (cmac_spec key (concat sg))"
  using assms by (rule cmac_sg_spec)

theorem bt_mesh_aes_cmac_eq_spec_witness:
  "bt_mesh_aes_cmac (replicate 16 7) [replicate 16 1, replicate 9 2, [3]]
     = Inr (cmac_spec (replicate 16 7) (replicate 16 1 @ replicate 9 2 @ [3]))"
  using bt_mesh_aes_cmac_eq_spec [of "[replicate 16 1, replicate 9 2, [3]]" "replicate 16 7"]
  by (simp add: cmac_split_ok_def)

lemma cmac_update_sched: "tc_cmac_update s d = Some s' \<Longrightarrow> cm_sched s' = cm_sched s"
  by (auto simp: tc_cmac_update_def cmac_tail_def cmac_fill_def Let_def
      split: if_splits prod.splits)

lemma length_bt_mesh_aes_cmac:
  assumes "bt_mesh_aes_cmac key sg = Inr mac"
  shows "length mac = 16"
proof -
  have "cmac_feed s sg = Some s' \<Longrightarrow> cm_sched s' = cm_sched s" for s s'
    by (induction sg arbitrary: s) (auto split: option.splits dest: cmac_update_sched)
  moreover have "length (cm_sched (tc_cmac_setup key)) = 44"
    by (simp add: tc_cmac_setup_def tc_cmac_init_def Let_def)
  ultimately show ?thesis using assms
    by (auto simp: bt_mesh_aes_cmac_def tc_cmac_final_def Let_def split: option.splits prod.splits)
qed



end
