(* ===== verification/Ccm.thy ===== *)
theory Ccm
  imports Byteorder Sec_Hal
begin

text \<open>
  The CCM mode of \<^verbatim>\<open>bt_mesh/src/crypto.c\<close> (\<^verbatim>\<open>bt_mesh_ccm_encrypt\<close>, \<^verbatim>\<open>bt_mesh_ccm_decrypt\<close>). The block
  encryption \<^verbatim>\<open>bt_mesh_aes_encrypt\<close> is an operation of the security port, so it is the first
  argument \<open>aes\<close> of the definitions. \<^verbatim>\<open>size_t\<close> lengths are natural numbers, the two \<^verbatim>\<open>u16_t\<close>
  locals \<^verbatim>\<open>last_blk\<close> and \<^verbatim>\<open>blk_cnt\<close> wrap at 65536. Encryption returns the bytes it writes to
  \<^verbatim>\<open>out_msg\<close>; decryption returns its error code (\<open>None\<close> is the return value 0) together with the
  bytes it has written to \<^verbatim>\<open>out_msg\<close> by then. The locale \<open>block_cipher\<close> is the contract the mode
  needs from the port; under it the code is shown equal to the CCM of RFC 3610 and encryption and
  decryption are shown to be inverse to each other.
\<close>

section \<open>The code\<close>

definition ccm_ctr_block :: "bytes \<Rightarrow> nat \<Rightarrow> bytes" where
  "ccm_ctr_block nonce i = 0x01 # take 13 nonce @ sys_put_be16 (of_nat i)"

definition ccm_b0 :: "bytes \<Rightarrow> nat \<Rightarrow> nat \<Rightarrow> nat \<Rightarrow> bytes" where
  "ccm_b0 nonce msg_len aad_len mic_size =
     ((if mic_size = 8 then 0x19 else 0x09) OR (if aad_len \<noteq> 0 then 0x40 else 0x00))
     # take 13 nonce @ sys_put_be16 (of_nat msg_len)"

text \<open>The \<^verbatim>\<open>while (aad_len > 16)\<close> loop and the two \<^verbatim>\<open>for\<close> loops after it.\<close>

function ccm_aad_loop ::
  "(bytes \<Rightarrow> bytes \<Rightarrow> errno + bytes) \<Rightarrow> bytes \<Rightarrow> bytes \<Rightarrow> bytes \<Rightarrow> bytes \<Rightarrow> nat \<Rightarrow> nat \<Rightarrow> nat \<Rightarrow> errno + bytes"
where
  "ccm_aad_loop aes key pmsg Xn aad i j aad_len =
     (if aad_len > 16 then
        let pmsg = take i pmsg @ map (\<lambda>k. Xn ! k XOR byte_at aad (j + (k - i))) [i..<16] in
        case aes key pmsg of
          Inl err \<Rightarrow> Inl err
        | Inr Xn \<Rightarrow> ccm_aad_loop aes key pmsg Xn aad 0 (j + (16 - i)) (aad_len - 16)
      else
        aes key (map (\<lambda>k. if k < aad_len then Xn ! k XOR byte_at aad (j + k) else Xn ! k) [0..<16]))"
  by pat_completeness auto
termination
  by (relation "measure (\<lambda>(aes, key, pmsg, Xn, aad, i, j, n). n)") auto

declare ccm_aad_loop.simps [simp del]

definition ccm_aad ::
  "(bytes \<Rightarrow> bytes \<Rightarrow> errno + bytes) \<Rightarrow> bytes \<Rightarrow> bytes \<Rightarrow> bytes \<Rightarrow> bytes \<Rightarrow> nat \<Rightarrow> errno + bytes" where
  "ccm_aad aes key pmsg Xn aad aad_len =
     (if aad_len \<noteq> 0 then
        let pmsg = xor_bytes (take 2 Xn) (sys_put_be16 (of_nat aad_len)) @ drop 2 pmsg
        in ccm_aad_loop aes key pmsg Xn aad 2 0 (aad_len + 2)
      else Inr Xn)"

function ccm_enc_loop ::
  "(bytes \<Rightarrow> bytes \<Rightarrow> errno + bytes) \<Rightarrow> bytes \<Rightarrow> bytes \<Rightarrow> bytes \<Rightarrow> bytes \<Rightarrow> nat \<Rightarrow> nat \<Rightarrow> nat \<Rightarrow> bytes
   \<Rightarrow> errno + bytes \<times> bytes"
where
  "ccm_enc_loop aes key nonce cmic msg last_blk blk_cnt j Xn =
     (if j < blk_cnt then
        if j + 1 = blk_cnt then
          case aes key (map (\<lambda>i. if i < last_blk then Xn ! i XOR byte_at msg (j * 16 + i)
                                 else Xn ! i XOR 0) [0..<16]) of
            Inl err \<Rightarrow> Inl err
          | Inr Xn \<Rightarrow>
              let mic = xor_bytes cmic Xn in
              (case aes key (ccm_ctr_block nonce (j + 1)) of
                 Inl err \<Rightarrow> Inl err
               | Inr cmsg \<Rightarrow>
                   Inr (map (\<lambda>i. byte_at msg (j * 16 + i) XOR cmsg ! i) [0..<last_blk], mic))
        else
          case aes key (map (\<lambda>i. Xn ! i XOR byte_at msg (j * 16 + i)) [0..<16]) of
            Inl err \<Rightarrow> Inl err
          | Inr Xn \<Rightarrow>
              (case aes key (ccm_ctr_block nonce (j + 1)) of
                 Inl err \<Rightarrow> Inl err
               | Inr cmsg \<Rightarrow>
                   let out = map (\<lambda>i. byte_at msg (j * 16 + i) XOR cmsg ! i) [0..<16] in
                   (case ccm_enc_loop aes key nonce cmic msg last_blk blk_cnt (j + 1) Xn of
                      Inl err \<Rightarrow> Inl err
                    | Inr (out', mic) \<Rightarrow> Inr (out @ out', mic)))
      else Inl UNDEF)"
  by pat_completeness auto
termination
  by (relation "measure (\<lambda>(aes, key, nonce, cmic, msg, last_blk, blk_cnt, j, Xn). blk_cnt - j)") auto

declare ccm_enc_loop.simps [simp del]

definition ccm_last_blk :: "nat \<Rightarrow> nat" where
  "ccm_last_blk msg_len = (let last_blk = msg_len mod 16 in if last_blk = 0 then 16 else last_blk)"

definition ccm_blk_cnt :: "nat \<Rightarrow> nat" where
  "ccm_blk_cnt msg_len = (msg_len + 15) div 16 mod 65536"

definition bt_mesh_ccm_encrypt ::
  "(bytes \<Rightarrow> bytes \<Rightarrow> errno + bytes) \<Rightarrow> bytes \<Rightarrow> bytes \<Rightarrow> bytes \<Rightarrow> nat \<Rightarrow> bytes \<Rightarrow> nat \<Rightarrow> nat
   \<Rightarrow> errno + bytes" where
  "bt_mesh_ccm_encrypt aes key nonce msg msg_len aad aad_len mic_size =
     (if aad_len \<ge> 0xff00 then Inl EINVAL
      else case aes key (ccm_ctr_block nonce 0) of
        Inl err \<Rightarrow> Inl err
      | Inr cmic \<Rightarrow>
          (let pmsg = ccm_b0 nonce msg_len aad_len mic_size in
           case aes key pmsg of
             Inl err \<Rightarrow> Inl err
           | Inr Xn \<Rightarrow>
               (case ccm_aad aes key pmsg Xn aad aad_len of
                  Inl err \<Rightarrow> Inl err
                | Inr Xn \<Rightarrow>
                    (case ccm_enc_loop aes key nonce cmic msg (ccm_last_blk msg_len)
                            (ccm_blk_cnt msg_len) 0 Xn of
                       Inl err \<Rightarrow> Inl err
                     | Inr (out, mic) \<Rightarrow> Inr (out @ take mic_size mic)))))"

text \<open>
  The payload loop of decryption: error code, plaintext written so far and MIC. The \<open>mic\<close> array
  of a run that executes no iteration is uninitialised.
\<close>

function ccm_dec_loop ::
  "(bytes \<Rightarrow> bytes \<Rightarrow> errno + bytes) \<Rightarrow> bytes \<Rightarrow> bytes \<Rightarrow> bytes \<Rightarrow> bytes \<Rightarrow> nat \<Rightarrow> nat \<Rightarrow> nat \<Rightarrow> bytes
   \<Rightarrow> errno option \<times> bytes \<times> bytes"
where
  "ccm_dec_loop aes key nonce cmic enc_msg last_blk blk_cnt j Xn =
     (if j < blk_cnt then
        case aes key (ccm_ctr_block nonce (j + 1)) of
          Inl err \<Rightarrow> (Some err, [], [])
        | Inr cmsg \<Rightarrow>
            if j + 1 = blk_cnt then
              let msg = map (\<lambda>i. byte_at enc_msg (j * 16 + i) XOR cmsg ! i) [0..<last_blk] in
              (case aes key (map (\<lambda>i. if i < last_blk then Xn ! i XOR msg ! i
                                      else Xn ! i XOR 0) [0..<16]) of
                 Inl err \<Rightarrow> (Some err, msg, [])
               | Inr Xn \<Rightarrow> (None, msg, xor_bytes cmic Xn))
            else
              let msg = map (\<lambda>i. byte_at enc_msg (j * 16 + i) XOR cmsg ! i) [0..<16] in
              (case aes key (map (\<lambda>i. Xn ! i XOR msg ! i) [0..<16]) of
                 Inl err \<Rightarrow> (Some err, msg, [])
               | Inr Xn \<Rightarrow>
                   let (err, out, mic) =
                     ccm_dec_loop aes key nonce cmic enc_msg last_blk blk_cnt (j + 1) Xn
                   in (err, msg @ out, mic))
      else (Some UNDEF, [], []))"
  by pat_completeness auto
termination
  by (relation "measure (\<lambda>(aes, key, nonce, cmic, enc, last_blk, blk_cnt, j, Xn). blk_cnt - j)") auto

declare ccm_dec_loop.simps [simp del]

definition bt_mesh_ccm_decrypt ::
  "(bytes \<Rightarrow> bytes \<Rightarrow> errno + bytes) \<Rightarrow> bytes \<Rightarrow> bytes \<Rightarrow> bytes \<Rightarrow> nat \<Rightarrow> bytes \<Rightarrow> nat \<Rightarrow> nat
   \<Rightarrow> errno option \<times> bytes" where
  "bt_mesh_ccm_decrypt aes key nonce enc_msg msg_len aad aad_len mic_size =
     (if msg_len < 1 \<or> aad_len \<ge> 0xff00 then (Some EINVAL, [])
      else case aes key (ccm_ctr_block nonce 0) of
        Inl err \<Rightarrow> (Some err, [])
      | Inr cmic \<Rightarrow>
          (let pmsg = ccm_b0 nonce msg_len aad_len mic_size in
           case aes key pmsg of
             Inl err \<Rightarrow> (Some err, [])
           | Inr Xn \<Rightarrow>
               (case ccm_aad aes key pmsg Xn aad aad_len of
                  Inl err \<Rightarrow> (Some err, [])
                | Inr Xn \<Rightarrow>
                    (case ccm_dec_loop aes key nonce cmic enc_msg (ccm_last_blk msg_len)
                            (ccm_blk_cnt msg_len) 0 Xn of
                       (Some err, out, mic) \<Rightarrow> (Some err, out)
                     | (None, out, mic) \<Rightarrow>
                         if take mic_size mic \<noteq> map (\<lambda>i. byte_at enc_msg (msg_len + i)) [0..<mic_size]
                         then (Some EBADMSG, out)
                         else (None, out)))))"

section \<open>CCM as RFC 3610 states it\<close>

definition zpad16 :: "bytes \<Rightarrow> bytes" where
  "zpad16 b = b @ replicate (16 - length b) 0"

function cbc_mac :: "(bytes \<Rightarrow> bytes) \<Rightarrow> bytes \<Rightarrow> bytes \<Rightarrow> bytes" where
  "cbc_mac E X m =
     (if m = [] then X else cbc_mac E (E (xor_bytes X (zpad16 (take 16 m)))) (drop 16 m))"
  by pat_completeness auto
termination
  by (relation "measure (\<lambda>(E, X, m). length m)") auto

declare cbc_mac.simps [simp del]

function ctr_xor :: "(bytes \<Rightarrow> bytes) \<Rightarrow> bytes \<Rightarrow> nat \<Rightarrow> bytes \<Rightarrow> bytes" where
  "ctr_xor E nonce i m =
     (if m = [] then []
      else xor_bytes (take 16 m) (E (ccm_ctr_block nonce i)) @ ctr_xor E nonce (i + 1) (drop 16 m))"
  by pat_completeness auto
termination
  by (relation "measure (\<lambda>(E, nonce, i, m). length m)") auto

declare ctr_xor.simps [simp del]

text \<open>Tag and ciphertext; the additional data, if any, is preceded by its length in two bytes.\<close>

definition ccm_tag :: "(bytes \<Rightarrow> bytes) \<Rightarrow> bytes \<Rightarrow> bytes \<Rightarrow> bytes \<Rightarrow> nat \<Rightarrow> bytes" where
  "ccm_tag E nonce m aad mic_size =
     (let X0 = E (xor_bytes (replicate 16 0) (ccm_b0 nonce (length m) (length aad) mic_size));
          Xa = (if aad = [] then X0 else cbc_mac E X0 (sys_put_be16 (of_nat (length aad)) @ aad))
      in take mic_size (xor_bytes (E (ccm_ctr_block nonce 0)) (cbc_mac E Xa m)))"

definition ccm_spec :: "(bytes \<Rightarrow> bytes) \<Rightarrow> bytes \<Rightarrow> bytes \<Rightarrow> bytes \<Rightarrow> nat \<Rightarrow> bytes" where
  "ccm_spec E nonce m aad mic_size = ctr_xor E nonce 1 m @ ccm_tag E nonce m aad mic_size"

lemma ctr_xor_Nil [simp]: "ctr_xor E nonce i [] = []"
  by (simp add: ctr_xor.simps)

lemma cbc_mac_Nil [simp]: "cbc_mac E X [] = X"
  by (simp add: cbc_mac.simps)

lemma length_ctr_xor:
  "(\<And>b. length (E b) = 16) \<Longrightarrow> length (ctr_xor E nonce i m) = length m"
proof (induction E nonce i m rule: ctr_xor.induct)
  case (1 E nonce i m)
  then show ?case by (cases "m = []") (simp_all add: ctr_xor.simps [of E nonce i m])
qed

lemma ctr_xor_block:
  assumes "b \<noteq> []" "length b = 16 \<or> length b < 16 \<and> r = []"
  shows "ctr_xor E nonce i (b @ r) = xor_bytes b (E (ccm_ctr_block nonce i)) @ ctr_xor E nonce (i + 1) r"
  using assms by (auto simp: ctr_xor.simps [of E nonce i])

lemma cbc_mac_block:
  assumes "b \<noteq> []" "length b = 16 \<or> length b < 16 \<and> r = []"
  shows "cbc_mac E X (b @ r) = cbc_mac E (E (xor_bytes X (zpad16 b))) r"
  using assms by (auto simp: cbc_mac.simps [of E X])

lemma one_block:
  assumes "b \<noteq> []" "length b \<le> 16"
  shows "ctr_xor E nonce i b = xor_bytes b (E (ccm_ctr_block nonce i))"
    and "cbc_mac E X b = E (xor_bytes X (zpad16 b))"
  using assms by (simp_all add: ctr_xor.simps [of E nonce i b] cbc_mac.simps [of E X b])

lemma ctr_xor_twice:
  "(\<And>b. length (E b) = 16) \<Longrightarrow> ctr_xor E nonce i (ctr_xor E nonce i m) = m"
proof (induction E nonce i m rule: ctr_xor.induct)
  case (1 E nonce i m)
  show ?case
  proof (cases "m = []")
    case False
    let ?b = "xor_bytes (take 16 m) (E (ccm_ctr_block nonce i))"
    let ?r = "ctr_xor E nonce (i + 1) (drop 16 m)"
    have m': "ctr_xor E nonce i m = ?b @ ?r" using False by (simp add: ctr_xor.simps [of E nonce i m])
    have lb: "length ?b = min (length m) 16" using "1.prems" by simp
    have ne: "?b \<noteq> []"
    proof
      assume "?b = []"
      with lb have "min (length m) 16 = 0" by (metis list.size(3))
      with False show False by (simp add: min_def split: if_splits)
    qed
    have "ctr_xor E nonce i (?b @ ?r) = xor_bytes ?b (E (ccm_ctr_block nonce i)) @ ctr_xor E nonce (i + 1) ?r"
      using lb by (intro ctr_xor_block [OF ne]) auto
    also have "\<dots> = take 16 m @ drop 16 m"
      using "1.IH" [OF False "1.prems"] "1.prems" by (simp add: xor_bytes_twice)
    finally show ?thesis using m' by simp
  qed simp
qed

lemma ccm_last_blk_bounds: "0 < ccm_last_blk n" "ccm_last_blk n \<le> 16"
  by (simp_all add: ccm_last_blk_def Let_def less_imp_le)

lemma ccm_last_block:
  assumes "16 * j < n" "j + 1 = (n + 15) div 16"
  shows "n = 16 * j + ccm_last_blk n"
proof -
  have "n \<le> 16 * j + 16" using assms(2) by linarith
  then obtain r where r: "n = 16 * j + r" "0 < r" "r \<le> 16" using assms(1) that [of "n - 16 * j"] by auto
  then show ?thesis by (cases "r = 16") (auto simp: ccm_last_blk_def Let_def)
qed

lemma ccm_more_blocks: "k < (n + 15) div 16 \<Longrightarrow> 16 * k < n" for n :: nat
  by linarith

lemma ccm_blk_cnt_small: "n < 65536 \<Longrightarrow> ccm_blk_cnt n = (n + 15) div 16"
  by (simp add: ccm_blk_cnt_def)

section \<open>The contract of the security port\<close>

locale block_cipher =
  fixes aes :: "bytes \<Rightarrow> bytes \<Rightarrow> errno + bytes"
    and E :: "bytes \<Rightarrow> bytes \<Rightarrow> bytes"
  assumes aes_E: "aes key b = Inr (E key b)"
    and length_E: "length (E key b) = 16"
begin

lemma ctr_len: "length (ctr_xor (E key) nonce i m) = length m"
  by (rule length_ctr_xor) (rule length_E)

lemma pad_block:
  assumes "length X = 16" "n \<le> 16" "j + n \<le> length m"
  shows "map (\<lambda>i. if i < n then X ! i XOR byte_at m (j + i) else X ! i) [0..<16]
         = xor_bytes X (zpad16 (take n (drop j m)))"
  using assms by (intro map_nth_upt_eq) (auto simp: zpad16_def nth_append)

lemma pad_block0:
  assumes "length X = 16" "n \<le> 16" "j + n \<le> length m"
  shows "map (\<lambda>i. if i < n then X ! i XOR byte_at m (j + i) else X ! i XOR 0) [0..<16]
         = xor_bytes X (zpad16 (take n (drop j m)))"
  using assms by (intro map_nth_upt_eq) (auto simp: zpad16_def nth_append)

lemma full_block:
  assumes "length X = 16" "j + 16 \<le> length m"
  shows "map (\<lambda>i. X ! i XOR byte_at m (j + i)) [0..<16] = xor_bytes X (zpad16 (take 16 (drop j m)))"
  using assms by (intro map_nth_upt_eq) (auto simp: zpad16_def)

lemma stream_block:
  assumes "length C = 16" "n \<le> 16" "j + n \<le> length m"
  shows "map (\<lambda>i. byte_at m (j + i) XOR C ! i) [0..<n] = xor_bytes (take n (drop j m)) C"
  using assms by (intro map_nth_upt_eq) auto

lemma length_mac: "length X = 16 \<Longrightarrow> length (cbc_mac (E key) X m) = 16"
proof (induction "E key" X m rule: cbc_mac.induct)
  case (1 X m)
  then show ?case by (cases "m = []") (simp_all add: cbc_mac.simps [of _ X m] length_E)
qed

lemma aad_loop:
  assumes "length X = 16" "j + n = length aad" "0 < n"
  shows "ccm_aad_loop aes key pmsg X aad 0 j n = Inr (cbc_mac (E key) X (drop j aad))"
  using assms
proof (induction n arbitrary: pmsg X j rule: less_induct)
  case (less n)
  have blk: "take 16 (drop j aad) = take (min n 16) (drop j aad)" using less.prems by (simp add: min_def)
  show ?case
  proof (cases "n > 16")
    case True
    have "ccm_aad_loop aes key pmsg X aad 0 j n
      = ccm_aad_loop aes key (xor_bytes X (zpad16 (take 16 (drop j aad))))
          (E key (xor_bytes X (zpad16 (take 16 (drop j aad))))) aad 0 (j + 16) (n - 16)"
      using True less.prems full_block [of X j aad]
      by (simp add: ccm_aad_loop.simps [of aes key pmsg X aad 0 j n] aes_E Let_def)
    also have "\<dots> = Inr (cbc_mac (E key) (E key (xor_bytes X (zpad16 (take 16 (drop j aad))))) (drop (j + 16) aad))"
      using less.prems True by (intro less.IH) (auto simp: length_E)
    finally show ?thesis
      using less.prems by (simp add: cbc_mac.simps [of "E key" X "drop j aad"] add.commute)
  next
    case False
    have "ccm_aad_loop aes key pmsg X aad 0 j n = Inr (E key (xor_bytes X (zpad16 (take n (drop j aad)))))"
      using False less.prems pad_block [of X n j aad]
      by (simp add: ccm_aad_loop.simps [of aes key pmsg X aad 0 j n] aes_E)
    with False less.prems show ?thesis
      by (simp add: cbc_mac.simps [of "E key" X "drop j aad"])
  qed
qed

lemma first_index: "\<not> i < 2 \<Longrightarrow> Suc (Suc (i - 2)) = i"
  by simp

text \<open>Additional data of fifteen bytes or more is absorbed as the standard says.\<close>

lemma aad_long:
  assumes "length X = 16" "15 \<le> length aad"
  shows "ccm_aad aes key pmsg X aad (length aad)
         = Inr (cbc_mac (E key) X (sys_put_be16 (of_nat (length aad)) @ aad))"
proof -
  let ?l = "sys_put_be16 (of_nat (length aad))"
  let ?p = "xor_bytes (take 2 X) ?l @ drop 2 pmsg"
  have first: "take 2 ?p @ map (\<lambda>k. X ! k XOR byte_at aad (0 + (k - 2))) [2..<16]
      = xor_bytes X (zpad16 (take 16 (?l @ aad)))" (is "?a = ?b")
  proof (rule nth_equalityI)
    show "length ?a = length ?b" using assms by (simp add: zpad16_def)
    fix i assume "i < length ?a"
    then have "i < 16" using assms by simp
    then show "?a ! i = ?b ! i"
      using assms first_index [of i]
      by (cases "i < 2") (auto simp: zpad16_def nth_append simp del: upt_rec_numeral)
  qed
  have "ccm_aad aes key pmsg X aad (length aad)
      = ccm_aad_loop aes key (xor_bytes X (zpad16 (take 16 (?l @ aad))))
          (E key (xor_bytes X (zpad16 (take 16 (?l @ aad))))) aad 0 14 (length aad - 14)"
    using assms(2) first
    by (auto simp: ccm_aad_def ccm_aad_loop.simps [of aes key ?p X aad 2 0] aes_E Let_def)
  also have "\<dots> = Inr (cbc_mac (E key) (E key (xor_bytes X (zpad16 (take 16 (?l @ aad))))) (drop 14 aad))"
    using assms by (intro aad_loop) (auto simp: length_E)
  also have "\<dots> = Inr (cbc_mac (E key) X (take 16 (?l @ aad) @ drop 16 (?l @ aad)))"
    using assms by (subst cbc_mac_block) auto
  finally show ?thesis by (simp only: append_take_drop_id)
qed

lemma enc_loop:
  assumes "length X = 16" "16 * j < length msg"
  shows "ccm_enc_loop aes key nonce cmic msg (ccm_last_blk (length msg)) ((length msg + 15) div 16) j X
         = Inr (ctr_xor (E key) nonce (j + 1) (drop (16 * j) msg),
                xor_bytes cmic (cbc_mac (E key) X (drop (16 * j) msg)))"
  using assms
proof (induction "length msg - 16 * j" arbitrary: X j rule: less_induct)
  case less
  let ?cnt = "(length msg + 15) div 16" and ?lb = "ccm_last_blk (length msg)" and ?r = "drop (16 * j) msg"
  let ?C = "E key (ccm_ctr_block nonce (j + 1))"
  have j: "j < ?cnt" using less.prems(2) by linarith
  have ne: "?r \<noteq> []" using less.prems(2) by simp
  note unf = ccm_enc_loop.simps [of aes key nonce cmic msg ?lb ?cnt j X]
  show ?case
  proof (cases "j + 1 = ?cnt")
    case True
    from ccm_last_block [OF less.prems(2) True] have l: "length ?r = ?lb" "j * 16 + ?lb = length msg" by simp_all
    note b = ccm_last_blk_bounds [of "length msg"]
    have t: "take ?lb (drop (j * 16) msg) = ?r" using l by (simp add: mult.commute)
    have "ctr_xor (E key) nonce (j + 1) ?r = xor_bytes ?r ?C"
      "cbc_mac (E key) X ?r = E key (xor_bytes X (zpad16 ?r))"
      using one_block [OF ne] l(1) b(2) by (simp_all del: length_drop)
    with True j pad_block0 [of X ?lb "j * 16" msg] stream_block [of ?C ?lb "j * 16" msg] less.prems(1) b l(2)
    show ?thesis by (simp add: unf aes_E length_E t del: upt_rec_numeral)
  next
    case False
    then have "j + 1 < ?cnt" using j by simp
    then have more: "16 * (j + 1) < length msg" by (rule ccm_more_blocks)
    let ?X = "E key (xor_bytes X (zpad16 (take 16 ?r)))"
    from less.hyps [of "j + 1" ?X] more less.prems have
      IH: "ccm_enc_loop aes key nonce cmic msg ?lb ?cnt (j + 1) ?X
         = Inr (ctr_xor (E key) nonce (j + 1 + 1) (drop 16 ?r), xor_bytes cmic (cbc_mac (E key) ?X (drop 16 ?r)))"
      by (simp add: length_E add.commute)
    have t: "take 16 (drop (j * 16) msg) = take 16 ?r" "take 16 ?r \<noteq> []" "length (take 16 ?r) = 16"
      using ne more by (simp_all add: mult.commute)
    have "ctr_xor (E key) nonce (j + 1) ?r = xor_bytes (take 16 ?r) ?C @ ctr_xor (E key) nonce (j + 1 + 1) (drop 16 ?r)"
      "cbc_mac (E key) X ?r = cbc_mac (E key) ?X (drop 16 ?r)"
      using ctr_xor_block [OF t(2), of "drop 16 ?r"] cbc_mac_block [OF t(2), of "drop 16 ?r"] t(3)
      by (simp_all only: append_take_drop_id simp_thms)
    with False j IH full_block [of X "j * 16" msg] stream_block [of ?C 16 "j * 16" msg] less.prems(1) more
    show ?thesis by (simp add: unf aes_E length_E t(1) Let_def del: drop_drop upt_rec_numeral)
  qed
qed

lemma dec_loop:
  assumes "length X = 16" "16 * j < n" "n \<le> length enc"
  shows "ccm_dec_loop aes key nonce cmic enc (ccm_last_blk n) ((n + 15) div 16) j X
         = (let m = ctr_xor (E key) nonce (j + 1) (drop (16 * j) (take n enc))
            in (None, m, xor_bytes cmic (cbc_mac (E key) X m)))"
  using assms
proof (induction "n - 16 * j" arbitrary: X j rule: less_induct)
  case less
  let ?cnt = "(n + 15) div 16" and ?lb = "ccm_last_blk n" and ?r = "drop (16 * j) (take n enc)"
  let ?C = "E key (ccm_ctr_block nonce (j + 1))"
  have j: "j < ?cnt" using less.prems(2) by linarith
  have lr: "length ?r = n - 16 * j" using less.prems(3) by simp
  have ne: "?r \<noteq> []" using less.prems(2,3) by simp
  note unf = ccm_dec_loop.simps [of aes key nonce cmic enc ?lb ?cnt j X]
  show ?case
  proof (cases "j + 1 = ?cnt")
    case True
    let ?m = "xor_bytes ?r ?C"
    from ccm_last_block [OF less.prems(2) True] have l: "length ?r = ?lb" "j * 16 + ?lb = n" using lr by simp_all
    note b = ccm_last_blk_bounds [of n]
    have m: "map (\<lambda>i. byte_at enc (j * 16 + i) XOR ?C ! i) [0..<?lb] = ?m"
      using stream_block [of ?C ?lb "j * 16" enc] l less.prems(3) b
      by (simp add: length_E drop_take mult.commute)
    have lm: "length ?m = ?lb" using l(1) b by (simp add: length_E)
    have ctr: "ctr_xor (E key) nonce (j + 1) ?r = ?m"
      using one_block(1) [OF ne] l(1) b(2) by (simp del: length_drop)
    have p: "map (\<lambda>i. if i < ?lb then X ! i XOR ?m ! i else X ! i XOR 0) [0..<16] = xor_bytes X (zpad16 ?m)"
      using lm b less.prems(1) by (intro map_nth_upt_eq) (auto simp: zpad16_def nth_append)
    have "?m \<noteq> []" using lm b by (metis less_irrefl list.size(3))
    from one_block(2) [OF this] have cbc: "cbc_mac (E key) X ?m = E key (xor_bytes X (zpad16 ?m))"
      using lm b(2) by (simp del: length_xor_bytes)
    show ?thesis
      using j m p cbc unfolding unf unfolding True [symmetric] ctr
      by (simp add: aes_E [of key] Let_def cong: if_cong)
  next
    case False
    then have "j + 1 < ?cnt" using j by simp
    then have more: "16 * (j + 1) < n" by (rule ccm_more_blocks)
    let ?m = "xor_bytes (take 16 ?r) ?C" and ?d = "drop 16 ?r"
    let ?X = "E key (xor_bytes X (zpad16 ?m))"
    have lm: "length ?m = 16" using lr more by (simp add: length_E)
    have m: "map (\<lambda>i. byte_at enc (j * 16 + i) XOR ?C ! i) [0..<16] = ?m"
      using stream_block [of ?C 16 "j * 16" enc] more less.prems(3)
      by (simp add: length_E drop_take mult.commute min_def del: upt_rec_numeral)
    have ctr: "ctr_xor (E key) nonce (j + 1) ?r = ?m @ ctr_xor (E key) nonce (j + 2) ?d"
      using ctr_xor_block [of "take 16 ?r" ?d "E key" nonce "j + 1"] ne lr more
      by (simp del: drop_drop length_drop drop_eq_Nil)
    have p: "map (\<lambda>i. X ! i XOR ?m ! i) [0..<16] = xor_bytes X (zpad16 ?m)"
      using lm less.prems(1) by (intro map_nth_upt_eq) (auto simp: zpad16_def)
    have cbc: "cbc_mac (E key) X (?m @ w) = cbc_mac (E key) ?X w" for w
      using lm by (intro cbc_mac_block disjI1) (metis list.size(3) zero_neq_numeral)
    from less.hyps [of "j + 1" ?X] more less.prems have
      "ccm_dec_loop aes key nonce cmic enc ?lb ?cnt (j + 1) ?X
         = (let m = ctr_xor (E key) nonce (j + 2) ?d in (None, m, xor_bytes cmic (cbc_mac (E key) ?X m)))"
      by (simp add: length_E add.commute)
    with False j m p ctr cbc show ?thesis
      by (simp add: unf aes_E [of key] Let_def del: upt_rec_numeral drop_drop)
  qed
qed

text \<open>The value of the authentication state after the additional data.\<close>

definition aad_state :: "bytes \<Rightarrow> bytes \<Rightarrow> nat \<Rightarrow> bytes \<Rightarrow> nat \<Rightarrow> bytes" where
  "aad_state key nonce n aad mic_size =
     (let pmsg = ccm_b0 nonce n (length aad) mic_size
      in projr (ccm_aad aes key pmsg (E key pmsg) aad (length aad)))"

lemma aad_loop_total: "\<exists>Y. ccm_aad_loop aes key pmsg X aad i j n = Inr Y \<and> length Y = 16"
proof (induction n arbitrary: pmsg X i j rule: less_induct)
  case (less n)
  show ?case
    by (cases "n > 16")
      (simp_all add: ccm_aad_loop.simps [of aes key pmsg X aad i j n] aes_E [of key] length_E Let_def less.IH)
qed

lemma aad_total:
  assumes "length X = 16"
  shows "\<exists>Y. ccm_aad aes key pmsg X aad n = Inr Y \<and> length Y = 16"
  using assms aad_loop_total by (auto simp: ccm_aad_def Let_def)

lemma aad_state:
  assumes "pmsg = ccm_b0 nonce n (length aad) mic_size"
  shows "ccm_aad aes key pmsg (E key pmsg) aad (length aad) = Inr (aad_state key nonce n aad mic_size)"
    and "length (aad_state key nonce n aad mic_size) = 16"
  using aad_total [OF length_E, of key pmsg key pmsg aad "length aad"] assms
  by (auto simp: aad_state_def Let_def)

lemma encrypt_eq:
  assumes "0 < length m" "length m < 65536" "length aad < 0xff00"
  shows "bt_mesh_ccm_encrypt aes key nonce m (length m) aad (length aad) mic_size
         = Inr (ctr_xor (E key) nonce 1 m
             @ take mic_size (xor_bytes (E key (ccm_ctr_block nonce 0))
                 (cbc_mac (E key) (aad_state key nonce (length m) aad mic_size) m)))"
  using assms enc_loop [OF aad_state(2) [OF refl], of 0 m]
  by (simp add: bt_mesh_ccm_encrypt_def aes_E aad_state(1) ccm_blk_cnt_small Let_def)

lemma decrypt_eq:
  assumes "0 < n" "n < 65536" "length aad < 0xff00" "n + mic_size \<le> length enc"
  shows "bt_mesh_ccm_decrypt aes key nonce enc n aad (length aad) mic_size
         = (let m = ctr_xor (E key) nonce 1 (take n enc);
                mic = xor_bytes (E key (ccm_ctr_block nonce 0))
                        (cbc_mac (E key) (aad_state key nonce n aad mic_size) m)
            in (if take mic_size mic = get_bytes enc n mic_size then None else Some EBADMSG, m))"
proof -
  have "map (\<lambda>i. byte_at enc (n + i)) [0..<mic_size] = get_bytes enc n mic_size"
    using assms(4) by (intro map_nth_upt_eq) (auto simp: nth_get_bytes)
  with assms dec_loop [OF aad_state(2) [OF refl], of 0 n enc] show ?thesis
    by (simp add: bt_mesh_ccm_decrypt_def aes_E aad_state(1) ccm_blk_cnt_small Let_def)
qed

lemma roundtrip:
  assumes "0 < length m" "length m < 65536" "length aad < 0xff00" "mic_size \<le> 16"
    and "bt_mesh_ccm_encrypt aes key nonce m (length m) aad (length aad) mic_size = Inr c"
  shows "length c = length m + mic_size"
    and "bt_mesh_ccm_decrypt aes key nonce c (length m) aad (length aad) mic_size = (None, m)"
proof -
  let ?mic = "xor_bytes (E key (ccm_ctr_block nonce 0))
      (cbc_mac (E key) (aad_state key nonce (length m) aad mic_size) m)"
  have c: "c = ctr_xor (E key) nonce 1 m @ take mic_size ?mic"
    using assms(5) encrypt_eq [OF assms(1-3)] by simp
  have l16: "length ?mic = 16" using length_mac by (simp add: length_E aad_state)
  show len: "length c = length m + mic_size" using c l16 assms(4) by (simp add: ctr_len)
  have "take (length m) c = ctr_xor (E key) nonce 1 m" "get_bytes c (length m) mic_size = take mic_size ?mic"
    using c l16 by (simp_all add: ctr_len get_bytes_def)
  then show "bt_mesh_ccm_decrypt aes key nonce c (length m) aad (length aad) mic_size = (None, m)"
    using decrypt_eq [OF assms(1-3), of mic_size c] len ctr_xor_twice [of "E key" nonce 1 m] length_E
    by (simp add: Let_def)
qed

lemma authentic:
  assumes "length c = n + mic_size" "n < 65536" "length aad < 0xff00"
    and "bt_mesh_ccm_decrypt aes key nonce c n aad (length aad) mic_size = (None, m)"
  shows "length m = n"
    and "bt_mesh_ccm_encrypt aes key nonce m n aad (length aad) mic_size = Inr c"
proof -
  have n: "0 < n" using assms(4) by (auto simp: bt_mesh_ccm_decrypt_def split: if_splits)
  note d = decrypt_eq [OF n assms(2,3), of mic_size c key nonce]
  have m: "m = ctr_xor (E key) nonce 1 (take n c)"
    and mic: "take mic_size (xor_bytes (E key (ccm_ctr_block nonce 0))
        (cbc_mac (E key) (aad_state key nonce n aad mic_size) m)) = drop n c"
    using d assms(1,4) by (auto simp: Let_def get_bytes_def split: if_splits)
  show lm: "length m = n" using m assms(1) by (simp add: ctr_len)
  have "ctr_xor (E key) nonce 1 m = take n c"
    using m ctr_xor_twice [of "E key" nonce 1 "take n c"] length_E by simp
  with encrypt_eq [of m aad key nonce mic_size] lm n mic assms(2,3)
  show "bt_mesh_ccm_encrypt aes key nonce m n aad (length aad) mic_size = Inr c" by simp
qed

lemma decrypt_prefix:
  assumes "0 < n" "n < 65536" "length aad < 0xff00" "n + mic_size \<le> length enc"
  shows "bt_mesh_ccm_decrypt aes key nonce enc n aad (length aad) mic_size
         = bt_mesh_ccm_decrypt aes key nonce (take (n + mic_size) enc) n aad (length aad) mic_size"
  using assms by (simp add: decrypt_eq get_bytes_def drop_take)

lemma decrypt_cases:
  assumes "0 < n" "n < 65536" "length aad < 0xff00" "n + mic_size \<le> length enc"
  obtains m where "bt_mesh_ccm_decrypt aes key nonce enc n aad (length aad) mic_size = (None, m)" "length m = n"
    | m where "bt_mesh_ccm_decrypt aes key nonce enc n aad (length aad) mic_size = (Some EBADMSG, m)" "length m = n"
  using assms decrypt_eq [OF assms, of key nonce] by (auto simp: Let_def ctr_len split: if_splits)

lemma encrypt_spec:
  assumes "0 < length m" "length m < 65536" "length nonce = 13" "aad = [] \<or> 15 \<le> length aad \<and> length aad < 0xff00"
  shows "bt_mesh_ccm_encrypt aes key nonce m (length m) aad (length aad) mic_size
         = Inr (ccm_spec (E key) nonce m aad mic_size)"
proof -
  let ?b = "ccm_b0 nonce (length m) (length aad) mic_size"
  have b: "xor_bytes (replicate 16 0) ?b = ?b"
    using assms(3) by (intro nth_equalityI) (auto simp: ccm_b0_def)
  have "aad_state key nonce (length m) aad mic_size
      = (if aad = [] then E key ?b else cbc_mac (E key) (E key ?b) (sys_put_be16 (of_nat (length aad)) @ aad))"
    using assms(4) aad_long [OF length_E, of aad] by (auto simp: aad_state_def ccm_aad_def Let_def)
  with assms encrypt_eq [of m aad key nonce mic_size] b show ?thesis
    by (auto simp: ccm_spec_def ccm_tag_def Let_def)
qed

end

interpretation port: block_cipher bt_mesh_aes_encrypt "\<lambda>key b. tc_aes_encrypt b (tc_aes128_set_encrypt_key key)"
  by unfold_locales (simp_all add: bt_mesh_aes_encrypt_def bt_encrypt_be_def)

end
