(* ===== verification/Crypto.thy ===== *)
theory Crypto
  imports Net_Buf Ccm
begin

text \<open>
  The mesh security toolbox of \<^verbatim>\<open>bt_mesh/src/crypto.c\<close> and the inline functions of
  \<^verbatim>\<open>bt_mesh/inc/mesh_crypto.h\<close>: key derivation (\<^verbatim>\<open>s1\<close>, \<^verbatim>\<open>k1\<close> to \<^verbatim>\<open>k4\<close>, \<^verbatim>\<open>id128\<close>), the nonces, network
  obfuscation, network and application encryption in place on a \<^verbatim>\<open>net_buf_simple\<close>, the FCS of the
  provisioning bearer, virtual addresses and the beacon authentication value. A C string is the
  list of its characters.
\<close>

section \<open>Key derivation\<close>

definition str_bytes :: "string \<Rightarrow> bytes" where
  "str_bytes s = map of_char s"

text \<open>\<^verbatim>\<open>bt_mesh_s1\<close> is declared \<^verbatim>\<open>bool\<close>, so a failure reaches its callers as the value 1.\<close>

definition bt_mesh_s1 :: "string \<Rightarrow> errno + bytes" where
  "bt_mesh_s1 m =
     (case bt_mesh_aes_cmac_one (replicate 16 0) (str_bytes m) of
        Inl err \<Rightarrow> Inl ERR_ONE
      | Inr salt \<Rightarrow> Inr salt)"

definition bt_mesh_k1 :: "bytes \<Rightarrow> bytes \<Rightarrow> bytes \<Rightarrow> errno + bytes" where
  "bt_mesh_k1 ikm salt info =
     (case bt_mesh_aes_cmac_one salt ikm of
        Inl err \<Rightarrow> Inl err
      | Inr okm \<Rightarrow> bt_mesh_aes_cmac_one okm info)"

definition bt_mesh_k2 :: "bytes \<Rightarrow> bytes \<Rightarrow> errno + u8 \<times> bytes \<times> bytes" where
  "bt_mesh_k2 n p =
     (case bt_mesh_s1 ''smk2'' of Inl err \<Rightarrow> Inl err | Inr salt \<Rightarrow>
     (case bt_mesh_aes_cmac_one salt n of Inl err \<Rightarrow> Inl err | Inr t \<Rightarrow>
     (case bt_mesh_aes_cmac t [[], p, [0x01]] of Inl err \<Rightarrow> Inl err | Inr out \<Rightarrow>
      let net_id = byte_at out 15 AND 0x7f in
     (case bt_mesh_aes_cmac t [out, p, [0x02]] of Inl err \<Rightarrow> Inl err | Inr out \<Rightarrow>
      let enc_key = out in
     (case bt_mesh_aes_cmac t [out, p, [0x03]] of Inl err \<Rightarrow> Inl err | Inr out \<Rightarrow>
      Inr (net_id, enc_key, out))))))"

definition bt_mesh_k3 :: "bytes \<Rightarrow> errno + bytes" where
  "bt_mesh_k3 n =
     (case bt_mesh_s1 ''smk3'' of Inl err \<Rightarrow> Inl err | Inr tmp \<Rightarrow>
     (case bt_mesh_aes_cmac_one tmp n of Inl err \<Rightarrow> Inl err | Inr t \<Rightarrow>
     (case bt_mesh_aes_cmac_one t (str_bytes ''id64'' @ [0x01]) of Inl err \<Rightarrow> Inl err | Inr tmp \<Rightarrow>
      Inr (get_bytes tmp 8 8))))"

definition bt_mesh_k4 :: "bytes \<Rightarrow> errno + u8" where
  "bt_mesh_k4 n =
     (case bt_mesh_s1 ''smk4'' of Inl err \<Rightarrow> Inl err | Inr tmp \<Rightarrow>
     (case bt_mesh_aes_cmac_one tmp n of Inl err \<Rightarrow> Inl err | Inr t \<Rightarrow>
     (case bt_mesh_aes_cmac_one t (str_bytes ''id6'' @ [0x01]) of Inl err \<Rightarrow> Inl err | Inr tmp \<Rightarrow>
      Inr (byte_at tmp 15 AND 0x3f))))"

definition bt_mesh_id128 :: "bytes \<Rightarrow> string \<Rightarrow> errno + bytes" where
  "bt_mesh_id128 n s =
     (case bt_mesh_s1 s of Inl err \<Rightarrow> Inl err | Inr salt \<Rightarrow>
      bt_mesh_k1 n salt (str_bytes ''id128'' @ [0x01]))"

definition bt_mesh_identity_key :: "bytes \<Rightarrow> errno + bytes" where
  "bt_mesh_identity_key net_key = bt_mesh_id128 net_key ''nkik''"

definition bt_mesh_beacon_key :: "bytes \<Rightarrow> errno + bytes" where
  "bt_mesh_beacon_key net_key = bt_mesh_id128 net_key ''nkbk''"

definition bt_mesh_app_id :: "bytes \<Rightarrow> errno + u8" where
  "bt_mesh_app_id app_key = bt_mesh_k4 app_key"

definition bt_mesh_session_key :: "bytes \<Rightarrow> bytes \<Rightarrow> errno + bytes" where
  "bt_mesh_session_key dhkey prov_salt = bt_mesh_k1 dhkey prov_salt (str_bytes ''prsk'')"

definition bt_mesh_prov_nonce :: "bytes \<Rightarrow> bytes \<Rightarrow> errno + bytes" where
  "bt_mesh_prov_nonce dhkey prov_salt =
     (case bt_mesh_k1 dhkey prov_salt (str_bytes ''prsn'') of
        Inl err \<Rightarrow> Inl err
      | Inr tmp \<Rightarrow> Inr (get_bytes tmp 3 13))"

definition bt_mesh_dev_key :: "bytes \<Rightarrow> bytes \<Rightarrow> errno + bytes" where
  "bt_mesh_dev_key dhkey prov_salt = bt_mesh_k1 dhkey prov_salt (str_bytes ''prdk'')"

definition bt_mesh_prov_salt :: "bytes \<Rightarrow> bytes \<Rightarrow> bytes \<Rightarrow> errno + bytes" where
  "bt_mesh_prov_salt conf_salt prov_rand dev_rand =
     bt_mesh_aes_cmac (replicate 16 0) [conf_salt, prov_rand, dev_rand]"

definition bt_mesh_prov_conf_salt :: "bytes \<Rightarrow> errno + bytes" where
  "bt_mesh_prov_conf_salt conf_inputs = bt_mesh_aes_cmac_one (replicate 16 0) conf_inputs"

definition bt_mesh_prov_conf_key :: "bytes \<Rightarrow> bytes \<Rightarrow> errno + bytes" where
  "bt_mesh_prov_conf_key dhkey conf_salt = bt_mesh_k1 dhkey conf_salt (str_bytes ''prck'')"

definition bt_mesh_prov_conf :: "bytes \<Rightarrow> bytes \<Rightarrow> bytes \<Rightarrow> errno + bytes" where
  "bt_mesh_prov_conf conf_key rnd auth = bt_mesh_aes_cmac conf_key [rnd, auth]"

definition bt_mesh_prov_decrypt :: "bytes \<Rightarrow> bytes \<Rightarrow> bytes \<Rightarrow> errno option \<times> bytes" where
  "bt_mesh_prov_decrypt key nonce data = bt_mesh_ccm_decrypt bt_mesh_aes_encrypt key nonce data 25 [] 0 8"

definition bt_mesh_prov_encrypt :: "bytes \<Rightarrow> bytes \<Rightarrow> bytes \<Rightarrow> errno + bytes" where
  "bt_mesh_prov_encrypt key nonce data = bt_mesh_ccm_encrypt bt_mesh_aes_encrypt key nonce data 25 [] 0 8"

definition bt_mesh_virtual_addr :: "bytes \<Rightarrow> errno + u16" where
  "bt_mesh_virtual_addr virtual_label =
     (case bt_mesh_s1 ''vtad'' of Inl err \<Rightarrow> Inl err | Inr salt \<Rightarrow>
     (case bt_mesh_aes_cmac_one salt virtual_label of Inl err \<Rightarrow> Inl err | Inr tmp \<Rightarrow>
      Inr ((sys_get_be16 (drop 14 tmp) AND 0x3fff) OR 0x8000)))"

definition bt_mesh_beacon_auth :: "bytes \<Rightarrow> u8 \<Rightarrow> bytes \<Rightarrow> u32 \<Rightarrow> errno + bytes" where
  "bt_mesh_beacon_auth beacon_key flags net_id iv_index =
     (case bt_mesh_aes_cmac_one beacon_key (flags # take 8 net_id @ sys_put_be32 iv_index) of
        Inl err \<Rightarrow> Inl err
      | Inr tmp \<Rightarrow> Inr (take 8 tmp))"

section \<open>Nonces and obfuscation\<close>

definition create_proxy_nonce :: "bytes \<Rightarrow> u32 \<Rightarrow> bytes" where
  "create_proxy_nonce pdu iv_index =
     [0x03, 0x00, byte_at pdu 2, byte_at pdu 3, byte_at pdu 4, byte_at pdu 5, byte_at pdu 6, 0, 0]
     @ sys_put_be32 iv_index"

definition create_net_nonce :: "bytes \<Rightarrow> u32 \<Rightarrow> bytes" where
  "create_net_nonce pdu iv_index =
     [0x00, byte_at pdu 1, byte_at pdu 2, byte_at pdu 3, byte_at pdu 4, byte_at pdu 5, byte_at pdu 6, 0, 0]
     @ sys_put_be32 iv_index"

definition create_app_nonce :: "bool \<Rightarrow> u8 \<Rightarrow> u16 \<Rightarrow> u16 \<Rightarrow> u32 \<Rightarrow> u32 \<Rightarrow> bytes" where
  "create_app_nonce dev_key aszmic src dst seq_num iv_index =
     (if dev_key then 0x02 else 0x01)
     # sys_put_be32 (seq_num OR push_bit 31 (ucast aszmic))
     @ sys_put_be16 src @ sys_put_be16 dst @ sys_put_be32 iv_index"

definition bt_mesh_net_obfuscate :: "bytes \<Rightarrow> u32 \<Rightarrow> bytes \<Rightarrow> errno + bytes" where
  "bt_mesh_net_obfuscate pdu iv_index privacy_key =
     (let priv_rand = replicate 5 0 @ sys_put_be32 iv_index @ map (\<lambda>i. byte_at pdu (7 + i)) [0..<7] in
      case bt_mesh_aes_encrypt privacy_key priv_rand of
        Inl err \<Rightarrow> Inl err
      | Inr tmp \<Rightarrow> Inr (put_bytes pdu 1 (map (\<lambda>i. byte_at pdu (1 + i) XOR byte_at tmp i) [0..<6])))"

section \<open>Network and application encryption\<close>

definition NET_MIC_LEN :: "bytes \<Rightarrow> nat" where
  "NET_MIC_LEN pdu = (if byte_at pdu 1 AND 0x80 \<noteq> 0 then 8 else 4)"

definition APP_MIC_LEN :: "u8 \<Rightarrow> nat" where
  "APP_MIC_LEN aszmic = (if aszmic \<noteq> 0 then 8 else 4)"

text \<open>
  The memory from the \<^verbatim>\<open>data\<close> pointer on. The length \<^verbatim>\<open>buf->len - 7\<close> is a \<^verbatim>\<open>size_t\<close>: it becomes
  huge for a shorter buffer, a case the fault flag records.
\<close>

definition nb_mem :: "net_buf_simple \<Rightarrow> bytes" where
  "nb_mem b = drop (nb_off b) (nb_buf b)"

definition nb_require :: "bool \<Rightarrow> net_buf_simple \<Rightarrow> net_buf_simple" where
  "nb_require c b = b\<lparr>nb_fault := nb_fault b \<or> \<not> c\<rparr>"

definition net_nonce :: "bool \<Rightarrow> bytes \<Rightarrow> u32 \<Rightarrow> bytes" where
  "net_nonce proxy pdu iv_index =
     (if proxy then create_proxy_nonce pdu iv_index else create_net_nonce pdu iv_index)"

definition bt_mesh_net_encrypt ::
  "bytes \<Rightarrow> net_buf_simple \<Rightarrow> u32 \<Rightarrow> bool \<Rightarrow> errno option \<times> net_buf_simple" where
  "bt_mesh_net_encrypt key buf iv_index proxy =
     (let mic_len = NET_MIC_LEN (nb_mem buf);
          nonce = net_nonce proxy (nb_mem buf) iv_index;
          buf = nb_require (7 \<le> nb_len buf) buf
      in case bt_mesh_ccm_encrypt bt_mesh_aes_encrypt key nonce (drop 7 (nb_data buf)) (nb_len buf - 7) [] 0 mic_len of
           Inl err \<Rightarrow> (Some err, buf)
         | Inr out \<Rightarrow> (None, net_buf_simple_add (nb_put buf 7 out) mic_len))"

definition bt_mesh_net_decrypt ::
  "bytes \<Rightarrow> net_buf_simple \<Rightarrow> u32 \<Rightarrow> bool \<Rightarrow> errno option \<times> net_buf_simple" where
  "bt_mesh_net_decrypt key buf iv_index proxy =
     (let mic_len = NET_MIC_LEN (nb_mem buf);
          nonce = net_nonce proxy (nb_mem buf) iv_index;
          buf = buf\<lparr>nb_len := u16_sub (nb_len buf) mic_len\<rparr>;
          buf = nb_require (7 \<le> nb_len buf) buf;
          (err, out) = bt_mesh_ccm_decrypt bt_mesh_aes_encrypt key nonce (drop 7 (nb_mem buf)) (nb_len buf - 7) [] 0 mic_len
      in (err, nb_put buf 7 out))"

definition bt_mesh_app_encrypt ::
  "bytes \<Rightarrow> bool \<Rightarrow> u8 \<Rightarrow> net_buf_simple \<Rightarrow> bytes option \<Rightarrow> u16 \<Rightarrow> u16 \<Rightarrow> u32 \<Rightarrow> u32
   \<Rightarrow> errno option \<times> net_buf_simple" where
  "bt_mesh_app_encrypt key dev_key aszmic buf ad src dst seq_num iv_index =
     (let nonce = create_app_nonce dev_key aszmic src dst seq_num iv_index in
      case bt_mesh_ccm_encrypt bt_mesh_aes_encrypt key nonce (nb_data buf) (nb_len buf)
             (case ad of None \<Rightarrow> [] | Some l \<Rightarrow> l) (if ad \<noteq> None then 16 else 0) (APP_MIC_LEN aszmic) of
        Inl err \<Rightarrow> (Some err, buf)
      | Inr out \<Rightarrow> (None, net_buf_simple_add (nb_put buf 0 out) (APP_MIC_LEN aszmic)))"

definition bt_mesh_app_decrypt ::
  "bytes \<Rightarrow> bool \<Rightarrow> u8 \<Rightarrow> net_buf_simple \<Rightarrow> net_buf_simple \<Rightarrow> bytes option \<Rightarrow> u16 \<Rightarrow> u16 \<Rightarrow> u32 \<Rightarrow> u32
   \<Rightarrow> errno option \<times> net_buf_simple" where
  "bt_mesh_app_decrypt key dev_key aszmic buf out ad src dst seq_num iv_index =
     (let nonce = create_app_nonce dev_key aszmic src dst seq_num iv_index;
          (err, msg) = bt_mesh_ccm_decrypt bt_mesh_aes_encrypt key nonce (nb_mem buf) (nb_len buf)
             (case ad of None \<Rightarrow> [] | Some l \<Rightarrow> l) (if ad \<noteq> None then 16 else 0) (APP_MIC_LEN aszmic);
          out = nb_put out 0 msg
      in (err, if err = None then net_buf_simple_add out (nb_len buf) else out))"

section \<open>Frame check sequence\<close>

definition crc_table :: bytes where
  "crc_table =
  [0x00, 0x91, 0xe3, 0x72, 0x07, 0x96, 0xe4, 0x75, 0x0e, 0x9f, 0xed, 0x7c, 0x09, 0x98, 0xea, 0x7b,
   0x1c, 0x8d, 0xff, 0x6e, 0x1b, 0x8a, 0xf8, 0x69, 0x12, 0x83, 0xf1, 0x60, 0x15, 0x84, 0xf6, 0x67,
   0x38, 0xa9, 0xdb, 0x4a, 0x3f, 0xae, 0xdc, 0x4d, 0x36, 0xa7, 0xd5, 0x44, 0x31, 0xa0, 0xd2, 0x43,
   0x24, 0xb5, 0xc7, 0x56, 0x23, 0xb2, 0xc0, 0x51, 0x2a, 0xbb, 0xc9, 0x58, 0x2d, 0xbc, 0xce, 0x5f,
   0x70, 0xe1, 0x93, 0x02, 0x77, 0xe6, 0x94, 0x05, 0x7e, 0xef, 0x9d, 0x0c, 0x79, 0xe8, 0x9a, 0x0b,
   0x6c, 0xfd, 0x8f, 0x1e, 0x6b, 0xfa, 0x88, 0x19, 0x62, 0xf3, 0x81, 0x10, 0x65, 0xf4, 0x86, 0x17,
   0x48, 0xd9, 0xab, 0x3a, 0x4f, 0xde, 0xac, 0x3d, 0x46, 0xd7, 0xa5, 0x34, 0x41, 0xd0, 0xa2, 0x33,
   0x54, 0xc5, 0xb7, 0x26, 0x53, 0xc2, 0xb0, 0x21, 0x5a, 0xcb, 0xb9, 0x28, 0x5d, 0xcc, 0xbe, 0x2f,
   0xe0, 0x71, 0x03, 0x92, 0xe7, 0x76, 0x04, 0x95, 0xee, 0x7f, 0x0d, 0x9c, 0xe9, 0x78, 0x0a, 0x9b,
   0xfc, 0x6d, 0x1f, 0x8e, 0xfb, 0x6a, 0x18, 0x89, 0xf2, 0x63, 0x11, 0x80, 0xf5, 0x64, 0x16, 0x87,
   0xd8, 0x49, 0x3b, 0xaa, 0xdf, 0x4e, 0x3c, 0xad, 0xd6, 0x47, 0x35, 0xa4, 0xd1, 0x40, 0x32, 0xa3,
   0xc4, 0x55, 0x27, 0xb6, 0xc3, 0x52, 0x20, 0xb1, 0xca, 0x5b, 0x29, 0xb8, 0xcd, 0x5c, 0x2e, 0xbf,
   0x90, 0x01, 0x73, 0xe2, 0x97, 0x06, 0x74, 0xe5, 0x9e, 0x0f, 0x7d, 0xec, 0x99, 0x08, 0x7a, 0xeb,
   0x8c, 0x1d, 0x6f, 0xfe, 0x8b, 0x1a, 0x68, 0xf9, 0x82, 0x13, 0x61, 0xf0, 0x85, 0x14, 0x66, 0xf7,
   0xa8, 0x39, 0x4b, 0xda, 0xaf, 0x3e, 0x4c, 0xdd, 0xa6, 0x37, 0x45, 0xd4, 0xa1, 0x30, 0x42, 0xd3,
   0xb4, 0x25, 0x57, 0xc6, 0xb3, 0x22, 0x50, 0xc1, 0xba, 0x2b, 0x59, 0xc8, 0xbd, 0x2c, 0x5e, 0xcf]"

definition fcs_loop :: "bytes \<Rightarrow> u8" where
  "fcs_loop data = fold (\<lambda>d fcs. crc_table ! unat (fcs XOR d)) data 0xff"

definition bt_mesh_fcs_calc :: "bytes \<Rightarrow> u8 \<Rightarrow> u8" where
  "bt_mesh_fcs_calc data data_len =
     0xff - fcs_loop (map (byte_at data) [0..<unat data_len])"

definition bt_mesh_fcs_check :: "net_buf_simple \<Rightarrow> u8 \<Rightarrow> bool" where
  "bt_mesh_fcs_check buf received_fcs =
     (crc_table ! unat (fcs_loop (map (nb_byte buf) [0..<nb_len buf]) XOR received_fcs) = 0xcf)"

section \<open>Frame check sequence: lemmas\<close>

lemma crc_table_last: "crc_table ! unat x = 0xcf \<longleftrightarrow> x = 0xff" for x :: u8
proof
  assume h: "crc_table ! unat x = 0xcf"
  have split: "crc_table = take 255 crc_table @ [0xcf]" and fresh: "0xcf \<notin> set (take 255 crc_table)"
    by (simp_all add: crc_table_def)
  have "length (take 255 crc_table) = 255" by (simp add: crc_table_def)
  then have "\<not> unat x < 255"
    using h fresh by (metis nth_append nth_mem split)
  then have "unat x = 255" using unat_u8_less [of x] by linarith
  then show "x = 0xff" by (simp add: word_unat_eq_iff)
next
  assume "x = 0xff" then show "crc_table ! unat x = 0xcf" by (simp add: crc_table_def)
qed

lemma xor_ff: "a XOR b = 0xff \<longleftrightarrow> b = 0xff - (a :: u8)"
proof -
  have ff: "(0xff :: u8) = - 1" by simp
  have "0xff - a = NOT a" unfolding ff by (simp add: not_eq_complement)
  moreover have "a XOR b = 0xff \<longleftrightarrow> b = a XOR 0xff" by (metis xor_cancel_left)
  moreover have "a XOR 0xff = NOT a" unfolding ff by simp
  ultimately show ?thesis by simp
qed

text \<open>
  The receiver accepts a provisioning bearer frame exactly when the received FCS is the one
  the sender computes over the same bytes, for every frame the sender's 8-bit length can express.
\<close>

theorem fcs_check_iff_calc:
  assumes "nb_ok buf" "nb_len buf < 256"
  shows "bt_mesh_fcs_check buf r \<longleftrightarrow> r = bt_mesh_fcs_calc (nb_data buf) (of_nat (nb_len buf))"
proof -
  have "unat (of_nat (nb_len buf) :: u8) = nb_len buf"
    using assms(2) by (simp add: unat_of_nat)
  moreover have "map (nb_byte buf) [0..<nb_len buf] = map (byte_at (nb_data buf)) [0..<nb_len buf]"
    using assms(1) by (simp add: nb_byte_eq)
  ultimately show ?thesis
    unfolding bt_mesh_fcs_check_def bt_mesh_fcs_calc_def crc_table_last xor_ff by metis
qed

theorem fcs_check_iff_calc_witness:
  "bt_mesh_fcs_check (net_buf_simple_add_mem (NET_BUF_SIMPLE 8) [3, 0, 16]) 0xD5
     \<longleftrightarrow> 0xD5 = bt_mesh_fcs_calc (nb_data (net_buf_simple_add_mem (NET_BUF_SIMPLE 8) [3, 0, 16]))
           (of_nat (nb_len (net_buf_simple_add_mem (NET_BUF_SIMPLE 8) [3, 0, 16])))"
  by (rule fcs_check_iff_calc)
    (simp_all add: nb_ok_def net_buf_simple_add_mem_def net_buf_simple_add_def nb_put_def NET_BUF_SIMPLE_def
      net_buf_simple_tailroom_def net_buf_simple_headroom_def)

section \<open>Key derivation: lemmas\<close>

lemma cmac_one_spec:
  "bt_mesh_aes_cmac_one key m = Inr (cmac_spec key m)"
proof -
  have "cmac_split_ok [m]" by (cases m) (simp_all add: cmac_split_ok_def)
  then show ?thesis using cmac_sg_spec [of "[m]"] by (simp add: bt_mesh_aes_cmac_one_def)
qed

lemma s1_total: "bt_mesh_s1 s = Inr (cmac_spec (replicate 16 0) (str_bytes s))"
  by (simp add: bt_mesh_s1_def cmac_one_spec)

lemma k1_total: "bt_mesh_k1 ikm salt info = Inr (cmac_spec (cmac_spec salt ikm) info)"
  by (simp add: bt_mesh_k1_def cmac_one_spec)

text \<open>The derivation function \<open>k2\<close> as the mesh profile states it.\<close>

definition k2_T :: "bytes \<Rightarrow> bytes" where
  "k2_T n = cmac_spec (cmac_spec (replicate 16 0) (str_bytes ''smk2'')) n"

definition k2_T1 :: "bytes \<Rightarrow> bytes \<Rightarrow> bytes" where
  "k2_T1 n p = cmac_spec (k2_T n) (p @ [1])"

definition k2_T2 :: "bytes \<Rightarrow> bytes \<Rightarrow> bytes" where
  "k2_T2 n p = cmac_spec (k2_T n) (k2_T1 n p @ p @ [2])"

definition k2_T3 :: "bytes \<Rightarrow> bytes \<Rightarrow> bytes" where
  "k2_T3 n p = cmac_spec (k2_T n) (k2_T2 n p @ p @ [3])"

lemma k2_total:
  assumes "length p mod 16 \<noteq> 15"
  shows "bt_mesh_k2 n p = Inr (k2_T1 n p ! 15 AND 0x7f, k2_T2 n p, k2_T3 n p)"
proof -
  have first: "cmac_split_ok [[], p, [x]]" for x
    using assms by (auto simp: cmac_split_ok_def Let_def)
  have next16: "cmac_split_ok [out, p, [x]]" if "length out = 16" for x out
  proof -
    have "out \<noteq> []" using that by auto
    then show ?thesis using assms that by (auto simp: cmac_split_ok_def Let_def)
  qed
  have len: "length (k2_T1 n p) = 16" "length (k2_T2 n p) = 16" by (simp_all add: k2_T1_def k2_T2_def)
  have c: "bt_mesh_aes_cmac (k2_T n) [[], p, [1]] = Inr (k2_T1 n p)"
    "bt_mesh_aes_cmac (k2_T n) [k2_T1 n p, p, [2]] = Inr (k2_T2 n p)"
    "bt_mesh_aes_cmac (k2_T n) [k2_T2 n p, p, [3]] = Inr (k2_T3 n p)"
    using cmac_sg_spec [OF _ first [of 1]] cmac_sg_spec [OF _ next16 [OF len(1), of 2]]
      cmac_sg_spec [OF _ next16 [OF len(2), of 3]]
    by (simp_all add: k2_T1_def k2_T2_def k2_T3_def)
  then show ?thesis
    by (simp add: bt_mesh_k2_def s1_total cmac_one_spec k2_T_def [symmetric] len Let_def)
qed

text \<open>
  \<^verbatim>\<open>bt_mesh_k2\<close> never fails and returns the low seven bits of \<open>T1\<close>, \<open>T2\<close> and \<open>T3\<close> of the mesh
  profile, for every \<^verbatim>\<open>P\<close> whose length is not 15 modulo 16.
\<close>

theorem bt_mesh_k2_spec:
  assumes "length p mod 16 \<noteq> 15"
  shows "bt_mesh_k2 n p = Inr (k2_T1 n p ! 15 AND 0x7f, k2_T2 n p, k2_T3 n p)"
  using assms by (rule k2_total)

theorem bt_mesh_k2_spec_witness:
  "bt_mesh_k2 (replicate 16 5) [0] = Inr (k2_T1 (replicate 16 5) [0] ! 15 AND 0x7f,
     k2_T2 (replicate 16 5) [0], k2_T3 (replicate 16 5) [0])"
  by (rule bt_mesh_k2_spec) simp

lemma k3_total: "\<exists>out. bt_mesh_k3 n = Inr out \<and> length out = 8"
  by (simp add: bt_mesh_k3_def s1_total cmac_one_spec)

lemma k4_total: "\<exists>aid. bt_mesh_k4 n = Inr aid \<and> aid AND 0xc0 = 0"
proof -
  have "(x AND 0x3f) AND 0xc0 = (0 :: u8)" for x by (simp add: and.assoc)
  then show ?thesis by (simp add: bt_mesh_k4_def s1_total cmac_one_spec)
qed

lemma id128_total: "\<exists>out. bt_mesh_id128 n s = Inr out \<and> length out = 16"
  by (simp add: bt_mesh_id128_def s1_total k1_total)

text \<open>
  A label UUID always gets a virtual address: \<^verbatim>\<open>bt_mesh_virtual_addr\<close> succeeds with an address
  in 0x8000..0xbfff, so it is never unassigned, unicast or a group address.
\<close>

theorem virtual_addr_range:
  "\<exists>a. bt_mesh_virtual_addr label = Inr a \<and> 0x8000 \<le> a \<and> a \<le> 0xbfff"
proof -
  have "0x8000 \<le> (x AND 0x3fff) OR 0x8000 \<and> (x AND 0x3fff) OR 0x8000 \<le> 0xbfff" for x :: u16
  proof -
    have "(x AND 0x3fff) AND 0x8000 = 0" by (simp add: and.assoc)
    then have "(x AND 0x3fff) OR 0x8000 = (x AND 0x3fff) + 0x8000" by (simp add: disjunctive_add_eq_or)
    moreover have "unat (x AND 0x3fff) \<le> 0x3fff"
      using word_and_le1 [of x "0x3fff"] by (simp add: word_le_nat_alt)
    ultimately show ?thesis by (simp add: word_le_nat_alt unat_word_ariths)
  qed
  then show ?thesis by (auto simp: bt_mesh_virtual_addr_def s1_total cmac_one_spec)
qed

section \<open>Nonces and obfuscation: lemmas\<close>

lemma nonce_lengths [simp, len_simps]:
  "length (create_net_nonce pdu iv) = 13" "length (create_proxy_nonce pdu iv) = 13"
  "length (create_app_nonce dev szmic src dst seq iv) = 13" "length (net_nonce proxy pdu iv) = 13"
  by (simp_all add: create_net_nonce_def create_proxy_nonce_def create_app_nonce_def net_nonce_def)

lemma seq_aszmic_inj:
  fixes s s' :: u32
  assumes "\<not> bit s 31" "\<not> bit s' 31" "a \<le> 1" "a' \<le> 1"
    and "s OR push_bit 31 (ucast (a :: u8)) = s' OR push_bit 31 (ucast a')"
  shows "s = s' \<and> a = a'"
proof -
  have a01: "a = 0 \<or> a = 1" "a' = 0 \<or> a' = 1" using assms(3,4) by (auto simp: word_le_nat_alt word_unat_eq_iff)
  have b: "bit (s OR push_bit 31 (ucast a)) n = bit (s' OR push_bit 31 (ucast a')) n" for n
    using assms(5) by simp
  have low: "bit s n = bit s' n" if "n < 31" for n
    using b [of n] that by (simp add: bit_simps)
  have "bit s n = bit s' n" if "n < 32" for n
    using that low assms(1,2) by (cases "n = 31") auto
  then have "s = s'" by (intro bit_word_eqI) simp
  moreover have "a = a'" using b [of 31] assms(1,2) a01 by (auto simp: bit_simps)
  ultimately show ?thesis by simp
qed



lemma obfuscate_eq:
  "bt_mesh_net_obfuscate pdu iv key
   = Inr (put_bytes pdu 1 (map (\<lambda>i. byte_at pdu (1 + i) XOR
       byte_at (projr (bt_mesh_aes_encrypt key (replicate 5 0 @ sys_put_be32 iv
         @ map (\<lambda>i. byte_at pdu (7 + i)) [0..<7]))) i) [0..<6]))"
  by (simp add: bt_mesh_net_obfuscate_def port.aes_E Let_def)

lemma byte_at_put:
  "pos + length xs \<le> length b \<Longrightarrow>
   byte_at (put_bytes b pos xs) i = (if pos \<le> i \<and> i < pos + length xs then xs ! (i - pos) else byte_at b i)"
  by (auto simp: byte_at_def put_bytes_in nth_append min_def)

lemma obfuscate_twice:
  assumes "7 \<le> length pdu" "bt_mesh_net_obfuscate pdu iv key = Inr pdu'"
  shows "bt_mesh_net_obfuscate pdu' iv key = Inr pdu"
proof -
  define tmp where "tmp = projr (bt_mesh_aes_encrypt key (replicate 5 0 @ sys_put_be32 iv
      @ map (\<lambda>i. byte_at pdu (7 + i)) [0..<7]))"
  have p': "pdu' = put_bytes pdu 1 (map (\<lambda>i. byte_at pdu (1 + i) XOR byte_at tmp i) [0..<6])"
    using assms(2) by (simp add: obfuscate_eq tmp_def)
  have same: "byte_at pdu' (7 + i) = byte_at pdu (7 + i)" for i
    using assms(1) p' by (simp add: byte_at_put)
  then have "bt_mesh_net_obfuscate pdu' iv key
      = Inr (put_bytes pdu' 1 (map (\<lambda>i. byte_at pdu' (1 + i) XOR byte_at tmp i) [0..<6]))"
    by (simp add: obfuscate_eq tmp_def del: upt_rec_numeral)
  also have "map (\<lambda>i. byte_at pdu' (1 + i) XOR byte_at tmp i) [0..<6] = get_bytes pdu 1 6"
  proof (rule map_nth_upt_eq)
    show "length (get_bytes pdu 1 6) = 6" using assms(1) by simp
    fix i :: nat assume i: "i < 6"
    have "byte_at pdu' (1 + i) = byte_at pdu (1 + i) XOR byte_at tmp i"
      unfolding p' using assms(1) i by (subst byte_at_put) (simp_all del: upt_rec_numeral)
    with i assms(1) show "byte_at pdu' (1 + i) XOR byte_at tmp i = get_bytes pdu 1 6 ! i"
      by (simp add: nth_get_bytes)
  qed
  also have "put_bytes pdu' 1 (get_bytes pdu 1 6) = pdu"
    using assms(1) p'
    by (intro nth_equalityI) (auto simp: put_bytes_in nth_append get_bytes_def min_def simp del: upt_rec_numeral)
  finally show ?thesis .
qed

section \<open>Network encryption on the bytes of a PDU\<close>

text \<open>What encryption and decryption of a network PDU do, as functions of its bytes.\<close>

definition net_seal :: "bytes \<Rightarrow> u32 \<Rightarrow> bool \<Rightarrow> bytes \<Rightarrow> bytes" where
  "net_seal key iv proxy d =
     take 7 d @ projr (bt_mesh_ccm_encrypt bt_mesh_aes_encrypt key (net_nonce proxy d iv) (drop 7 d)
                  (length d - 7) [] 0 (NET_MIC_LEN d))"

definition net_open :: "bytes \<Rightarrow> u32 \<Rightarrow> bool \<Rightarrow> bytes \<Rightarrow> bytes option" where
  "net_open key iv proxy d =
     (case bt_mesh_ccm_decrypt bt_mesh_aes_encrypt key (net_nonce proxy d iv) (drop 7 d)
             (length d - NET_MIC_LEN d - 7) [] 0 (NET_MIC_LEN d) of
        (None, m) \<Rightarrow> Some (take 7 d @ m)
      | (Some err, m) \<Rightarrow> None)"

lemma NET_MIC_LEN_range: "NET_MIC_LEN d = 4 \<or> NET_MIC_LEN d = 8" "NET_MIC_LEN d \<le> 8" "0 < NET_MIC_LEN d"
  by (auto simp: NET_MIC_LEN_def)

lemma APP_MIC_LEN_range: "APP_MIC_LEN a = 4 \<or> APP_MIC_LEN a = 8" "APP_MIC_LEN a \<le> 8" "0 < APP_MIC_LEN a"
  by (auto simp: APP_MIC_LEN_def)

lemma net_header_cong:
  assumes "take 7 p = take 7 q" "7 \<le> length p" "7 \<le> length q"
  shows "net_nonce proxy p iv = net_nonce proxy q iv" "NET_MIC_LEN p = NET_MIC_LEN q"
proof -
  have "byte_at p i = byte_at q i" if "i < 7" for i
    using assms that nth_take [OF that, of p] nth_take [OF that, of q] by simp
  then show "net_nonce proxy p iv = net_nonce proxy q iv" "NET_MIC_LEN p = NET_MIC_LEN q"
    by (simp_all add: net_nonce_def create_net_nonce_def create_proxy_nonce_def NET_MIC_LEN_def)
qed

lemma net_seal_ccm:
  assumes "7 < length d" "length d < 65536"
  shows "bt_mesh_ccm_encrypt bt_mesh_aes_encrypt key (net_nonce proxy d iv) (drop 7 d) (length d - 7) [] 0 (NET_MIC_LEN d)
           = Inr (drop 7 (net_seal key iv proxy d))"
    and "length (net_seal key iv proxy d) = length d + NET_MIC_LEN d"
    and "take 7 (net_seal key iv proxy d) = take 7 d"
proof -
  have l: "0 < length (drop 7 d)" "length (drop 7 d) < 65536" "length ([] :: bytes) < 0xff00"
    using assms by auto
  obtain c where c: "bt_mesh_ccm_encrypt bt_mesh_aes_encrypt key (net_nonce proxy d iv) (drop 7 d)
      (length d - 7) [] 0 (NET_MIC_LEN d) = Inr c"
    using port.encrypt_eq [OF l] by simp
  have "length c = length (drop 7 d) + NET_MIC_LEN d"
    by (rule port.roundtrip(1) [OF l]) (use NET_MIC_LEN_range(2) [of d] c in simp_all)
  with c assms show "bt_mesh_ccm_encrypt bt_mesh_aes_encrypt key (net_nonce proxy d iv) (drop 7 d)
      (length d - 7) [] 0 (NET_MIC_LEN d) = Inr (drop 7 (net_seal key iv proxy d))"
    "length (net_seal key iv proxy d) = length d + NET_MIC_LEN d"
    "take 7 (net_seal key iv proxy d) = take 7 d"
    by (simp_all add: net_seal_def)
qed

lemma net_open_seal:
  assumes "7 < length d" "length d < 65536"
  shows "net_open key iv proxy (net_seal key iv proxy d) = Some d"
proof -
  let ?s = "net_seal key iv proxy d"
  note s = net_seal_ccm [OF assms, where key = key and proxy = proxy and iv = iv]
  have h: "net_nonce proxy ?s iv = net_nonce proxy d iv" "NET_MIC_LEN ?s = NET_MIC_LEN d"
    using net_header_cong [OF s(3)] s(2) assms by auto
  have "bt_mesh_ccm_decrypt bt_mesh_aes_encrypt key (net_nonce proxy d iv) (drop 7 ?s) (length (drop 7 d)) []
      (length ([] :: bytes)) (NET_MIC_LEN d) = (None, drop 7 d)"
    by (rule port.roundtrip(2)) (use assms s NET_MIC_LEN_range(2) [of d] in simp_all)
  with h s(2,3) show ?thesis by (simp add: net_open_def)
qed

lemma net_seal_open:
  assumes "net_open key iv proxy s = Some d" "length s < 65536"
  shows "net_seal key iv proxy d = s" "7 < length d" "length s = length d + NET_MIC_LEN d" "take 7 s = take 7 d"
proof -
  let ?n = "length s - NET_MIC_LEN s - 7"
  obtain m where m: "bt_mesh_ccm_decrypt bt_mesh_aes_encrypt key (net_nonce proxy s iv) (drop 7 s)
      ?n [] (length ([] :: bytes)) (NET_MIC_LEN s) = (None, m)" and d: "d = take 7 s @ m"
    using assms(1) by (auto simp: net_open_def split: prod.splits option.splits)
  then have n: "0 < ?n" by (auto simp: bt_mesh_ccm_decrypt_def split: if_splits)
  then have l: "length (drop 7 s) = ?n + NET_MIC_LEN s" by simp
  note a = port.authentic [OF l _ _ m]
  have lm: "length m = ?n" using a(1) assms(2) by simp
  then have t: "take 7 d = take 7 s" "7 < length d" using d n by simp_all
  have h: "net_nonce proxy d iv = net_nonce proxy s iv" "NET_MIC_LEN d = NET_MIC_LEN s"
    using net_header_cong [OF t(1)] t(2) n by auto
  show "7 < length d" "take 7 s = take 7 d" by (simp_all add: t)
  show "length s = length d + NET_MIC_LEN d" using h d lm n by simp
  have "length d - 7 = ?n" "drop 7 d = m" using d lm n by simp_all
  then show "net_seal key iv proxy d = s"
    using a(2) assms(2) h t(1) by (simp add: net_seal_def)
qed

section \<open>The buffer operations implement them\<close>

lemma nb_data_mem: "nb_data b = take (nb_len b) (nb_mem b)"
  by (simp add: nb_data_def nb_mem_def get_bytes_def)

lemma nb_mem_header:
  assumes "nb_ok b" "7 \<le> nb_len b"
  shows "net_nonce proxy (nb_mem b) iv = net_nonce proxy (nb_data b) iv" "NET_MIC_LEN (nb_mem b) = NET_MIC_LEN (nb_data b)"
proof -
  have t: "take 7 (nb_mem b) = take 7 (nb_data b)" "7 \<le> length (nb_mem b)" "7 \<le> length (nb_data b)"
    using assms by (auto simp: nb_data_mem nb_ok_def nb_mem_def)
  from net_header_cong [OF t]
  show "net_nonce proxy (nb_mem b) iv = net_nonce proxy (nb_data b) iv" "NET_MIC_LEN (nb_mem b) = NET_MIC_LEN (nb_data b)" .
qed

lemma nb_require_True [simp]: "c \<Longrightarrow> nb_require c b = b"
  by (simp add: nb_require_def)

lemma nb_put_add:
  assumes "nb_ok b" "i \<le> nb_len b" "i + length xs = nb_len b + n" "n \<le> net_buf_simple_tailroom b"
  shows "nb_ok (net_buf_simple_add (nb_put b i xs) n)"
    and "nb_data (net_buf_simple_add (nb_put b i xs) n) = take i (nb_data b) @ xs"
proof -
  let ?b = "net_buf_simple_add b n"
  have eq: "net_buf_simple_add (nb_put b i xs) n = nb_put ?b i xs"
    by (simp add: net_buf_simple_add_def nb_put_def net_buf_simple_tailroom_def net_buf_simple_headroom_def)
  note ok = nb_ok_add [OF assms(1,4)]
  show "nb_ok (net_buf_simple_add (nb_put b i xs) n)" using ok eq by simp
  have "nb_off ?b + i + length xs \<le> length (nb_buf ?b)"
    using tailroom_le [OF assms(1)] assms(3,4) by (simp add: net_buf_simple_add_def)
  from nb_data_put_end [OF this] ok(2) assms(3)
  show "nb_data (net_buf_simple_add (nb_put b i xs) n) = take i (nb_data b) @ xs"
    using assms(2) eq by (simp add: nb_data_def get_bytes_def net_buf_simple_add_def min_def)
qed

lemma net_encrypt_refines:
  assumes "nb_ok b" "7 < nb_len b" "NET_MIC_LEN (nb_data b) \<le> net_buf_simple_tailroom b"
  obtains b' where "bt_mesh_net_encrypt key b iv proxy = (None, b')" "nb_ok b'"
    "nb_data b' = net_seal key iv proxy (nb_data b)" "nb_off b' = nb_off b" "length (nb_buf b') = length (nb_buf b)"
proof -
  let ?d = "nb_data b" and ?s = "net_seal key iv proxy (nb_data b)"
  have ld: "length ?d = nb_len b" using assms(1) by simp
  have l: "7 < length ?d" "length ?d < 65536" using assms(1,2) by (auto simp: nb_ok_def ld)
  note s = net_seal_ccm [OF l, where key = key and proxy = proxy and iv = iv]
  have h: "net_nonce proxy (nb_mem b) iv = net_nonce proxy ?d iv" "NET_MIC_LEN (nb_mem b) = NET_MIC_LEN ?d"
    using nb_mem_header [OF assms(1)] assms(2) by auto
  let ?b' = "net_buf_simple_add (nb_put b 7 (drop 7 ?s)) (NET_MIC_LEN ?d)"
  have "bt_mesh_net_encrypt key b iv proxy = (None, ?b')"
    using s(1) h assms(2) ld by (simp add: bt_mesh_net_encrypt_def Let_def)
  moreover have "7 + length (drop 7 ?s) = nb_len b + NET_MIC_LEN ?d" using s(2) l(1) ld by simp
  from nb_put_add [OF assms(1) _ this assms(3)] assms(2)
  have "nb_ok ?b'" "nb_data ?b' = take 7 ?d @ drop 7 ?s" by auto
  moreover have "take 7 ?d @ drop 7 ?s = ?s" using s(3) append_take_drop_id [of 7 ?s] by simp
  ultimately show ?thesis using that [of ?b'] by (simp add: net_buf_simple_add_def)
qed

lemma net_decrypt_refines:
  assumes "nb_ok b" "NET_MIC_LEN (nb_data b) + 7 < nb_len b"
  obtains b' where "bt_mesh_net_decrypt key b iv proxy
      = (if net_open key iv proxy (nb_data b) = None then Some EBADMSG else None, b')"
    "nb_ok b'" "nb_len b' = nb_len b - NET_MIC_LEN (nb_data b)"
    "nb_off b' = nb_off b" "length (nb_buf b') = length (nb_buf b)"
    "\<And>d. net_open key iv proxy (nb_data b) = Some d \<Longrightarrow> nb_data b' = d"
proof -
  let ?d = "nb_data b" and ?mic = "NET_MIC_LEN (nb_data b)"
  let ?n = "nb_len b - ?mic - 7"
  have ld: "length ?d = nb_len b" using assms(1) by simp
  have small: "nb_len b < 65536" using assms(1) by (simp add: nb_ok_def)
  have h: "net_nonce proxy (nb_mem b) iv = net_nonce proxy ?d iv" "NET_MIC_LEN (nb_mem b) = ?mic"
    using nb_mem_header [OF assms(1)] assms(2) by auto
  have sub: "u16_sub (nb_len b) ?mic = nb_len b - ?mic" using assms(2) small by simp
  have l: "0 < ?n" "?n < 65536" "length ([] :: bytes) < 0xff00" "?n + ?mic \<le> length (drop 7 (nb_mem b))"
    using assms small by (auto simp: nb_mem_def nb_ok_def)
  have "take (?n + ?mic) (drop 7 (nb_mem b)) = drop 7 ?d"
    using assms(2) by (simp add: nb_data_mem drop_take)
  then have pre: "bt_mesh_ccm_decrypt bt_mesh_aes_encrypt key (net_nonce proxy ?d iv) (drop 7 (nb_mem b)) ?n [] 0 ?mic
      = bt_mesh_ccm_decrypt bt_mesh_aes_encrypt key (net_nonce proxy ?d iv) (drop 7 ?d) ?n [] 0 ?mic"
    using port.decrypt_prefix [OF l] by simp
  obtain e m where em: "bt_mesh_ccm_decrypt bt_mesh_aes_encrypt key (net_nonce proxy ?d iv) (drop 7 ?d) ?n [] 0 ?mic
      = (e, m)" "e = None \<or> e = Some EBADMSG" "length m = ?n"
  proof (cases rule: port.decrypt_cases [OF l, of key "net_nonce proxy ?d iv"])
    case (1 m) with that pre show ?thesis by simp
  next
    case (2 m) with that pre show ?thesis by simp
  qed
  let ?c = "b\<lparr>nb_len := nb_len b - ?mic\<rparr>"
  have c: "nb_mem ?c = nb_mem b" by (simp add: nb_mem_def)
  have "bt_mesh_net_decrypt key b iv proxy = (e, nb_put ?c 7 m)"
  proof -
    have "7 \<le> nb_len b - ?mic" using assms(2) by linarith
    with em(1) pre h sub c show ?thesis by (simp add: bt_mesh_net_decrypt_def Let_def)
  qed
  note run = this
  have opened: "net_open key iv proxy ?d = (if e = None then Some (take 7 ?d @ m) else None)"
    using em(1,2) ld by (auto simp: net_open_def)
  have ok: "nb_ok ?c" using assms by (auto simp: nb_ok_def)
  have data: "nb_data (nb_put ?c 7 m) = take 7 ?d @ m"
  proof -
    have "nb_off b + nb_len b \<le> length (nb_buf b)" using assms(1) by (simp add: nb_ok_def)
    then have "nb_off ?c + 7 + length m \<le> length (nb_buf ?c)" "nb_len ?c = 7 + length m"
      unfolding em(3) using assms(2) by simp_all
    from nb_data_put_end [OF this] have "nb_data (nb_put ?c 7 m) = get_bytes (nb_buf b) (nb_off b) 7 @ m" by simp
    moreover have "get_bytes (nb_buf b) (nb_off b) 7 = take 7 ?d"
      using assms(2) unfolding nb_data_def get_bytes_def by simp
    ultimately show ?thesis by simp
  qed
  show ?thesis
  proof (rule that [of "nb_put ?c 7 m"])
    show "bt_mesh_net_decrypt key b iv proxy
        = (if net_open key iv proxy ?d = None then Some EBADMSG else None, nb_put ?c 7 m)"
      using run opened em(2) by (cases e) simp_all
    show "nb_data (nb_put ?c 7 m) = d" if "net_open key iv proxy ?d = Some d" for d
      using that opened data by (simp split: if_splits)
  qed (use ok in simp_all)
qed

lemma app_encrypt_refines:
  assumes "nb_ok b" "0 < nb_len b" "APP_MIC_LEN a \<le> net_buf_simple_tailroom b" "ad = None \<or> length (the ad) = 16"
  obtains b' c where "bt_mesh_app_encrypt key dev a b ad src dst seq iv = (None, b')" "nb_ok b'"
    "nb_data b' = c" "length c = nb_len b + APP_MIC_LEN a" "nb_off b' = nb_off b" "length (nb_buf b') = length (nb_buf b)"
    "bt_mesh_ccm_decrypt bt_mesh_aes_encrypt key (create_app_nonce dev a src dst seq iv) c (nb_len b)
       (case ad of None \<Rightarrow> [] | Some l \<Rightarrow> l) (if ad \<noteq> None then 16 else 0) (APP_MIC_LEN a) = (None, nb_data b)"
proof -
  let ?d = "nb_data b" and ?nonce = "create_app_nonce dev a src dst seq iv"
  let ?ad = "case ad of None \<Rightarrow> [] | Some l \<Rightarrow> l"
  have ld: "length ?d = nb_len b" using assms(1) by simp
  have lad: "(if ad \<noteq> None then 16 else 0) = length ?ad" using assms(4) by (auto split: option.splits)
  have l: "0 < length ?d" "length ?d < 65536" "length ?ad < 0xff00"
    using assms(1,2,4) by (auto simp: nb_ok_def ld split: option.splits)
  obtain c where c: "bt_mesh_ccm_encrypt bt_mesh_aes_encrypt key ?nonce ?d (length ?d) ?ad (length ?ad) (APP_MIC_LEN a) = Inr c"
    using port.encrypt_eq [OF l] by simp
  have mic: "APP_MIC_LEN a \<le> 16" using APP_MIC_LEN_range(2) [of a] by simp
  note r = port.roundtrip [OF l mic c]
  let ?b' = "net_buf_simple_add (nb_put b 0 c) (APP_MIC_LEN a)"
  have "bt_mesh_app_encrypt key dev a b ad src dst seq iv = (None, ?b')"
    using c ld unfolding bt_mesh_app_encrypt_def lad by (simp add: Let_def)
  moreover have "nb_ok ?b'" "nb_data ?b' = c"
    using nb_put_add [OF assms(1) _ _ assms(3), of 0 c] r(1) ld by simp_all
  ultimately show ?thesis
    using that [of ?b' c] r ld unfolding lad by (simp add: net_buf_simple_add_def)
qed

text \<open>
  C27. Application encryption is undone by decryption: a payload encrypted in place, with its MIC
  removed from the length the way the transport layer does, decrypts into any buffer with room for it
  to exactly the original payload, and no buffer assertion fails.
\<close>

theorem app_encrypt_decrypt:
  assumes "nb_ok b" "0 < nb_len b" "APP_MIC_LEN a \<le> net_buf_simple_tailroom b" "ad = None \<or> length (the ad) = 16"
    and "nb_ok out" "nb_len out = 0" "nb_len b \<le> net_buf_simple_tailroom out"
  shows "case bt_mesh_app_encrypt key dev a b ad src dst seq iv of
      (err, enc) \<Rightarrow> err = None \<and> nb_ok enc \<and>
        (case bt_mesh_app_decrypt key dev a (enc\<lparr>nb_len := nb_len enc - APP_MIC_LEN a\<rparr>) out ad src dst seq iv of
           (err', dec) \<Rightarrow> err' = None \<and> nb_ok dec \<and> nb_data dec = nb_data b)"
proof -
  let ?ad = "case ad of None \<Rightarrow> [] | Some l \<Rightarrow> l"
  from app_encrypt_refines [OF assms(1-4), where key = key and dev = dev and src = src and dst = dst
      and seq = seq and iv = iv]
  obtain e c where e: "bt_mesh_app_encrypt key dev a b ad src dst seq iv = (None, e)" "nb_ok e" "nb_data e = c"
    "length c = nb_len b + APP_MIC_LEN a"
    and dec: "bt_mesh_ccm_decrypt bt_mesh_aes_encrypt key (create_app_nonce dev a src dst seq iv) c (nb_len b)
       ?ad (if ad \<noteq> None then 16 else 0) (APP_MIC_LEN a) = (None, nb_data b)" by blast
  have le: "nb_len e = nb_len b + APP_MIC_LEN a" using e(3,4) length_nb_data [OF e(2)] by simp
  have lad: "(if ad \<noteq> None then 16 else 0) = length ?ad" using assms(4) by (auto split: option.splits)
  have mem: "take (nb_len b + APP_MIC_LEN a) (nb_mem e) = c" using e(3) le by (simp add: nb_data_mem)
  have "bt_mesh_ccm_decrypt bt_mesh_aes_encrypt key (create_app_nonce dev a src dst seq iv) (nb_mem e) (nb_len b)
       ?ad (length ?ad) (APP_MIC_LEN a) = (None, nb_data b)"
    using port.decrypt_prefix [of "nb_len b" ?ad "APP_MIC_LEN a" "nb_mem e"] dec mem lad assms(1,2,4) e(4)
    by (auto simp: nb_ok_def split: option.splits)
  moreover have "nb_mem (e\<lparr>nb_len := nb_len e - APP_MIC_LEN a\<rparr>) = nb_mem e" by (simp add: nb_mem_def)
  ultimately have d: "bt_mesh_app_decrypt key dev a (e\<lparr>nb_len := nb_len e - APP_MIC_LEN a\<rparr>) out ad src dst seq iv
      = (None, net_buf_simple_add (nb_put out 0 (nb_data b)) (nb_len b))"
    unfolding bt_mesh_app_decrypt_def lad using le by (simp add: Let_def)
  from nb_put_add [OF assms(5) _ _ assms(7), of 0 "nb_data b"] assms(1,6)
  show ?thesis using e(1,2) d by simp
qed

theorem app_encrypt_decrypt_witness:
  "fst (bt_mesh_app_encrypt (replicate 16 9) False 0 (net_buf_simple_add_mem (NET_BUF_SIMPLE 20) [0x82, 1, 2])
     None 0x10 0xc000 5 0) = None"
proof -
  let ?b = "net_buf_simple_add_mem (NET_BUF_SIMPLE 20) [0x82, 1, 2]"
  have b: "nb_ok ?b" "nb_len ?b = 3" "net_buf_simple_tailroom ?b = 17"
    by (simp_all add: nb_ok_def net_buf_simple_add_mem_def net_buf_simple_add_def nb_put_def NET_BUF_SIMPLE_def
      net_buf_simple_tailroom_def net_buf_simple_headroom_def)
  have o: "nb_ok (NET_BUF_SIMPLE 30)" "nb_len (NET_BUF_SIMPLE 30) = 0" "net_buf_simple_tailroom (NET_BUF_SIMPLE 30) = 30"
    by (simp_all add: nb_ok_def NET_BUF_SIMPLE_def net_buf_simple_tailroom_def net_buf_simple_headroom_def)
  show ?thesis
    using app_encrypt_decrypt [of ?b 0 None "NET_BUF_SIMPLE 30" "replicate 16 9" False "0x10" "0xc000" 5 0] b o
    by (auto simp: APP_MIC_LEN_def split: prod.splits)
qed

text \<open>
  C22. CCM decryption accepts exactly the ciphertexts encryption produces: for messages below 65536
  bytes, decryption of \<open>c\<close> succeeds with plaintext \<open>m\<close> if and only if encryption of \<open>m\<close> under the same
  key, nonce and additional data yields \<open>c\<close>.
\<close>

theorem ccm_decrypt_iff_encrypt:
  assumes "length c = length m + mic_size" "0 < length m" "length m < 65536" "length aad < 0xff00" "mic_size \<le> 16"
  shows "bt_mesh_ccm_decrypt bt_mesh_aes_encrypt key nonce c (length m) aad (length aad) mic_size = (None, m)
     \<longleftrightarrow> bt_mesh_ccm_encrypt bt_mesh_aes_encrypt key nonce m (length m) aad (length aad) mic_size = Inr c"
  using port.roundtrip(2) [OF assms(2-5)] port.authentic(2) [OF assms(1,3,4)] by blast

theorem ccm_decrypt_iff_encrypt_witness:
  "bt_mesh_ccm_decrypt bt_mesh_aes_encrypt (replicate 16 1) (replicate 13 2) [1, 2, 3, 4, 5, 6] (length [7, 8 :: u8])
     [] (length ([] :: bytes)) 4 = (None, [7, 8])
   \<longleftrightarrow> bt_mesh_ccm_encrypt bt_mesh_aes_encrypt (replicate 16 1) (replicate 13 2) [7, 8] (length [7, 8 :: u8])
     [] (length ([] :: bytes)) 4 = Inr [1, 2, 3, 4, 5, 6]"
  by (rule ccm_decrypt_iff_encrypt) simp_all



end
