(* ===== verification/Mesh_State.thy ===== *)
theory Mesh_State
  imports Net_Buf
begin

text \<open>
  The data model of the stack: the structures of \<^verbatim>\<open>net.h\<close>, \<^verbatim>\<open>adv.h\<close>, \<^verbatim>\<open>transport.c\<close>, \<^verbatim>\<open>proxy.c\<close>,
  \<^verbatim>\<open>access.h\<close> and of the work queue in \<^verbatim>\<open>bt_common/work.c\<close> as records, the static variables of the
  C files as the fields of one record \<open>mesh\<close>, and the small accessors the other theories share.

  Pointers into static tables are indices (a subnet, a transmit context, a client, a buffer of
  the advertising pool). Callbacks handed to the bearer are values of the datatype \<open>send_cb\<close>.
  Effects that leave the modelled part of the system (GATT notifications, application
  callbacks, events for the vendor layer) are appended to the trace \<open>ms_log\<close>. The model follows
  the node build: \<^verbatim>\<open>CONFIG_BT_MESH_GATT_PROXY\<close>, \<^verbatim>\<open>RELAY\<close>, \<^verbatim>\<open>PROV\<close> on; \<^verbatim>\<open>FRIEND\<close>, \<^verbatim>\<open>LOW_POWER\<close>, \<^verbatim>\<open>CFG_CLI\<close>,
  \<^verbatim>\<open>PROVISIONER\<close> and \<^verbatim>\<open>IV_UPDATE_TEST\<close> off.
\<close>

section \<open>Constants and address classes\<close>

definition BT_MESH_ADDR_UNASSIGNED :: u16 where "BT_MESH_ADDR_UNASSIGNED = 0x0000"
definition BT_MESH_ADDR_ALL_NODES :: u16 where "BT_MESH_ADDR_ALL_NODES = 0xffff"
definition BT_MESH_ADDR_PROXIES :: u16 where "BT_MESH_ADDR_PROXIES = 0xfffc"
definition BT_MESH_ADDR_FRIENDS :: u16 where "BT_MESH_ADDR_FRIENDS = 0xfffd"
definition BT_MESH_ADDR_RELAYS :: u16 where "BT_MESH_ADDR_RELAYS = 0xfffe"
definition BT_MESH_KEY_UNUSED :: u16 where "BT_MESH_KEY_UNUSED = 0xffff"
definition BT_MESH_KEY_DEV :: u16 where "BT_MESH_KEY_DEV = 0xfffe"
definition BT_MESH_KEY_PRIMARY :: u16 where "BT_MESH_KEY_PRIMARY = 0x0000"
definition BT_MESH_KEY_ANY :: u16 where "BT_MESH_KEY_ANY = 0xffff"
definition BT_MESH_TTL_DEFAULT :: u8 where "BT_MESH_TTL_DEFAULT = 0xff"

definition BT_MESH_ADDR_IS_UNICAST :: "u16 \<Rightarrow> bool" where
  "BT_MESH_ADDR_IS_UNICAST addr = (addr \<noteq> 0 \<and> addr < 0x8000)"

definition BT_MESH_ADDR_IS_GROUP :: "u16 \<Rightarrow> bool" where
  "BT_MESH_ADDR_IS_GROUP addr = (addr \<ge> 0xc000 \<and> addr \<le> 0xff00)"

definition BT_MESH_ADDR_IS_VIRTUAL :: "u16 \<Rightarrow> bool" where
  "BT_MESH_ADDR_IS_VIRTUAL addr = (addr \<ge> 0x8000 \<and> addr < 0xc000)"

definition BT_MESH_ADDR_IS_RFU :: "u16 \<Rightarrow> bool" where
  "BT_MESH_ADDR_IS_RFU addr = (addr \<ge> 0xff00 \<and> addr \<le> 0xfffb)"

definition BT_MESH_KR_NORMAL :: u8 where "BT_MESH_KR_NORMAL = 0x00"
definition BT_MESH_KR_PHASE_1 :: u8 where "BT_MESH_KR_PHASE_1 = 0x01"
definition BT_MESH_KR_PHASE_2 :: u8 where "BT_MESH_KR_PHASE_2 = 0x02"

definition BT_MESH_IV_UPDATE :: "u8 \<Rightarrow> bool" where
  "BT_MESH_IV_UPDATE flags = (drop_bit 1 flags AND 0x01 \<noteq> 0)"

definition BT_MESH_KEY_REFRESH :: "u8 \<Rightarrow> bool" where
  "BT_MESH_KEY_REFRESH flags = (flags AND 0x01 \<noteq> 0)"

definition BT_MESH_TRANSMIT_COUNT :: "u8 \<Rightarrow> nat" where
  "BT_MESH_TRANSMIT_COUNT transmit = unat (transmit AND 7)"

definition BT_MESH_TRANSMIT_INT :: "u8 \<Rightarrow> nat" where
  "BT_MESH_TRANSMIT_INT transmit = (unat (drop_bit 3 transmit) + 1) * 10"

definition BT_MESH_PUB_TRANSMIT_INT :: "u8 \<Rightarrow> nat" where
  "BT_MESH_PUB_TRANSMIT_INT transmit = (unat (drop_bit 3 transmit) + 1) * 50"

section \<open>Network structures\<close>

record subnet_keys =
  sk_net :: bytes
  sk_nid :: u8
  sk_enc :: bytes
  sk_net_id :: bytes
  sk_identity :: bytes
  sk_privacy :: bytes
  sk_beacon :: bytes

record bt_mesh_subnet =
  sn_beacon_sent :: u32
  sn_beacons_last :: u8
  sn_beacons_cur :: u8
  sn_beacon_cache :: bytes
  sn_net_idx :: u16
  sn_kr_flag :: bool
  sn_kr_phase :: u8
  sn_node_id :: u8
  sn_node_id_start :: u32
  sn_auth :: bytes
  sn_key0 :: subnet_keys
  sn_key1 :: subnet_keys

text \<open>The array \<^verbatim>\<open>keys[2]\<close> indexed by a flag.\<close>

definition sn_keys :: "bt_mesh_subnet \<Rightarrow> bool \<Rightarrow> subnet_keys" where
  "sn_keys sub i = (if i then sn_key1 sub else sn_key0 sub)"

record app_keyv =
  av_id :: u8
  av_val :: bytes

record bt_mesh_app_key =
  ak_net_idx :: u16
  ak_app_idx :: u16
  ak_updated :: bool
  ak_key0 :: app_keyv
  ak_key1 :: app_keyv

record bt_mesh_rpl =
  rp_src :: u16
  rp_old_iv :: bool
  rp_seq :: u32

record bt_mesh_net =
  bm_iv_index :: u32
  bm_seq :: u24
  bm_iv_update :: bool
  bm_ivu_initiator :: bool
  bm_ivu_test :: bool
  bm_pending_update :: bool
  bm_valid :: bool
  bm_last_update :: int
  bm_local_queue :: "nat list"
  bm_dev_key :: bytes
  bm_app_keys :: "bt_mesh_app_key list"
  bm_sub :: "bt_mesh_subnet list"
  bm_rpl :: "bt_mesh_rpl list"

datatype bt_mesh_net_if = NET_IF_ADV | NET_IF_LOCAL | NET_IF_PROXY | NET_IF_PROXY_CFG

record bt_mesh_msg_ctx =
  cx_net_idx :: u16
  cx_app_idx :: u16
  cx_addr :: u16
  cx_recv_ttl :: u8
  cx_send_rel :: bool
  cx_send_ttl :: u8

record bt_mesh_net_rx =
  rx_sub :: nat
  rx_ctx :: bt_mesh_msg_ctx
  rx_seq :: u32
  rx_dst :: u16
  rx_old_iv :: bool
  rx_new_key :: bool
  rx_friend_cred :: bool
  rx_ctl :: bool
  rx_net_if :: bt_mesh_net_if
  rx_local_match :: bool
  rx_friend_match :: bool

record bt_mesh_net_tx =
  tx_sub :: nat
  tx_ctx :: bt_mesh_msg_ctx
  tx_src :: u16
  tx_xmit :: u8
  tx_friend_cred :: bool
  tx_aszmic :: u8
  tx_aid :: u8

section \<open>Composition data\<close>

record bt_mesh_model_op =
  op_opcode :: u32
  op_min_len :: nat
  op_func :: nat

record bt_mesh_model_pub =
  pb_addr :: u16
  pb_key :: u16
  pb_ttl :: u8
  pb_retransmit :: u8
  pb_period :: u8
  pb_period_div :: nat
  pb_cred :: bool
  pb_count :: nat
  pb_period_start :: u32
  pb_msg :: net_buf_simple
  pb_update :: bool

record bt_mesh_model =
  md_id :: u16
  md_company :: u16
  md_pub :: "bt_mesh_model_pub option"
  md_keys :: "u16 list"
  md_groups :: "u16 list"
  md_op :: "bt_mesh_model_op list"

record bt_mesh_elem =
  el_addr :: u16
  el_loc :: u16
  el_models :: "bt_mesh_model list"
  el_vnd_models :: "bt_mesh_model list"

text \<open>A pointer to a model: the element, the vendor flag and the index in its model table.\<close>

type_synonym model_ref = "nat \<times> bool \<times> nat"

section \<open>Buffers, callbacks and work items\<close>

datatype user_cb = Cb_None | Cb_Pub model_ref | Cb_Beacon nat | Cb_Ack_Complete | Cb_Buf_Sent | Cb_App nat

datatype send_cb = Cb_User user_cb | Cb_First_Sent nat | Cb_Seg_Sent nat

datatype adv_type = ADV_PROV | ADV_DATA | ADV_BEACON | ADV_URI

record bt_mesh_adv =
  ad_cb :: send_cb
  ad_type :: adv_type
  ad_busy :: bool
  ad_count :: nat
  ad_adv_int :: nat
  ad_attempts :: u8

record net_buf =
  bf_b :: net_buf_simple
  bf_ref :: u8
  bf_adv :: bt_mesh_adv

datatype work_id = W_Retransmit nat | W_Ack nat | W_Ivu_Complete | W_Local | W_Beacon | W_Pub model_ref
  | W_Send_Beacons nat | W_Hb_Pub | W_Attn model_ref | W_Prov_Retransmit

record k_work =
  wk_pending :: bool
  wk_start_ms :: u32
  wk_timeout :: u32

record seg_tx =
  st_sub :: "nat option"
  st_seg :: "nat option list"
  st_seq_auth :: u64
  st_dst :: u16
  st_seg_n :: nat
  st_new_key :: bool
  st_nack_count :: nat
  st_cb :: user_cb

record seg_rx =
  sr_sub :: nat
  sr_seq_auth :: u64
  sr_seg_n :: nat
  sr_ctl :: bool
  sr_in_use :: bool
  sr_obo :: bool
  sr_hdr :: u8
  sr_ttl :: u8
  sr_src :: u16
  sr_dst :: u16
  sr_block :: u32
  sr_last :: u32
  sr_buf :: net_buf_simple

datatype filter_type = FT_NONE | FT_WHITELIST | FT_BLACKLIST | FT_PROV

record bt_mesh_proxy_client =
  cl_conn :: "nat option"
  cl_filter :: "u16 list"
  cl_filter_type :: filter_type
  cl_msg_type :: u8
  cl_buf :: net_buf_simple

datatype gatt_svc = MESH_GATT_NONE | MESH_GATT_PROV | MESH_GATT_PROXY

record hb_pub =
  hp_dst :: u16
  hp_count :: u16
  hp_period :: u8
  hp_ttl :: u8
  hp_feat :: u16
  hp_net_idx :: u16

text \<open>The last field tells whether the application registered a tracking function.\<close>

record hb_sub =
  hs_expiry :: int
  hs_src :: u16
  hs_dst :: u16
  hs_count :: u16
  hs_min_hops :: u8
  hs_max_hops :: u8
  hs_func :: bool

record bt_mesh_cfg_srv =
  cf_model :: model_ref
  cf_net_transmit :: u8
  cf_relay :: u8
  cf_relay_retransmit :: u8
  cf_beacon :: u8
  cf_gatt_proxy :: u8
  cf_frnd :: u8
  cf_default_ttl :: u8
  cf_hb_pub :: hb_pub
  cf_hb_sub :: hb_sub

record label =
  lb_addr :: u16
  lb_uuid :: bytes

text \<open>
  The provisioning data the application registers; an absent URI or static value is \<^verbatim>\<open>NULL\<close>. The
  application's callbacks \<^verbatim>\<open>link_open\<close>, \<^verbatim>\<open>link_close\<close>, \<^verbatim>\<open>complete\<close> and \<^verbatim>\<open>reset\<close> are events; their fields tell whether
  they are registered.
\<close>

record bt_mesh_prov =
  pv_uuid :: bytes
  pv_uri :: "string option"
  pv_oob_info :: u16
  pv_public_key_type :: u8
  pv_static_val :: "bytes option"
  pv_output_size :: u8
  pv_output_actions :: u16
  pv_input_size :: u8
  pv_input_actions :: u16
  pv_link_open :: bool
  pv_link_close :: bool
  pv_complete :: bool
  pv_reset :: bool

text \<open>
  The provisioning link. The flags are separate fields; the receive buffer is a pointer that is
  either \<^verbatim>\<open>NULL\<close> or \<^verbatim>\<open>&clients[0].buf\<close>, so it is a flag as well.
\<close>

record prov_link =
  lk_remote_pub_key :: bool
  lk_local_pub_key :: bool
  lk_active :: bool
  lk_have_dhkey :: bool
  lk_send_confirm :: bool
  lk_wait_number :: bool
  lk_wait_string :: bool
  lk_conn :: "nat option"
  lk_dhkey :: bytes
  lk_expect :: u8
  lk_conf :: bytes
  lk_rand :: bytes
  lk_auth :: bytes
  lk_conf_salt :: bytes
  lk_conf_key :: bytes
  lk_conf_inputs :: bytes
  lk_prov_salt :: bytes
  lk_id :: u32
  lk_rx_id :: u8
  lk_rx_prev_id :: u8
  lk_rx_seg :: u8
  lk_rx_last_seg :: u8
  lk_rx_fcs :: u8
  lk_rx_buf :: bool
  lk_tx_start :: int
  lk_tx_id :: u8
  lk_tx_buf :: "nat option list"

datatype bt_mesh_prov_bearer_t = BT_MESH_PROV_ADV | BT_MESH_PROV_GATT

text \<open>Heartbeat parameters and events of the vendor layer (\<^verbatim>\<open>genie_event\<close>).\<close>

record mesh_hb_para_t =
  hb_dst :: u16
  hb_count :: u8
  hb_period :: u8
  hb_ttl :: u8
  hb_feat :: u16
  hb_net_idx :: u16

datatype genie_evt = GENIE_EVT_SDK_APPKEY_ADD u8 | GENIE_EVT_SDK_APPKEY_UPDATE u8 | GENIE_EVT_SDK_APPKEY_DEL u8
  | GENIE_EVT_SDK_NETKEY_ADD u8 | GENIE_EVT_SDK_NETKEY_UPDATE u8 | GENIE_EVT_SDK_NETKEY_DEL u8
  | GENIE_EVT_SDK_SUB_ADD | GENIE_EVT_SDK_SUB_DEL | GENIE_EVT_SDK_HB_SET mesh_hb_para_t | GENIE_EVT_SW_RESET
  | GENIE_EVT_SDK_MESH_PROV_START "u32 option" | GENIE_EVT_SDK_MESH_PROV_DATA u16

datatype mesh_ev = Ev_Seq_Update | Ev_Gatt_Notify nat bytes | Ev_App_Start nat nat "errno option"
  | Ev_App_End nat "errno option" | Ev_Hb_Func u8 u16 | Ev_Adv_Update | Ev_Adv_Start adv_type bytes nat nat
  | Ev_Model_Recv model_ref nat bt_mesh_msg_ctx bytes | Ev_Conn_Disconnect nat | Ev_Scan bool
  | Ev_Gatt_Service gatt_svc bool | Ev_Hang | Ev_Conn_Adv_Start bool bytes | Ev_Conn_Adv_Stop | Ev_Genie genie_evt
  | Ev_Prov_Complete u16 u16 | Ev_Prov_Reset | Ev_Link_Open bt_mesh_prov_bearer_t | Ev_Link_Close bt_mesh_prov_bearer_t
  | Ev_Dh_Key_Gen bytes | Ev_Attention model_ref bool | Ev_Null

record mesh =
  ms_net :: bt_mesh_net
  ms_provisioned :: bool
  ms_msg_cache :: "u64 list"
  ms_msg_cache_next :: nat
  ms_dup_cache :: "u32 list"
  ms_dup_cache_next :: nat
  ms_conf :: "bt_mesh_cfg_srv option"
  ms_labels :: "label list"
  ms_comp :: "bt_mesh_elem list"
  ms_comp_ids :: "u16 \<times> u16 \<times> u16"
  ms_sub_list :: "u16 list"
  ms_primary_addr :: u16
  ms_seg_tx :: "seg_tx list"
  ms_seg_rx :: "seg_rx list"
  ms_hb_sub_dst :: u16
  ms_clients :: "bt_mesh_proxy_client list"
  ms_gatt_svc :: gatt_svc
  ms_conn_count :: int
  ms_proxy_adv_enabled :: bool
  ms_prov_fast_adv :: bool
  ms_prov_ccc_val :: u16
  ms_next_idx :: nat
  ms_mtu :: "nat \<Rightarrow> nat"
  ms_notify_rc :: "errno option"
  ms_bufs :: "net_buf list"
  ms_free :: "nat list"
  ms_uninit :: nat
  ms_adv_queue :: "nat list"
  ms_first_half :: bool
  ms_unprov_interval :: nat
  ms_prov :: bt_mesh_prov
  ms_link :: prov_link
  ms_pending_ack :: u8
  ms_p_health_srv :: "model_ref option"
  ms_fast_period_div :: u8
  ms_works :: "work_id \<Rightarrow> k_work"
  ms_now :: nat
  ms_log :: "mesh_ev list"

text \<open>The buffer pool and the tables are sized by \<^verbatim>\<open>mesh_config.h\<close>.\<close>

definition CONFIG_BT_MESH_ADV_BUF_COUNT :: nat where "CONFIG_BT_MESH_ADV_BUF_COUNT = 8"
definition BT_MESH_ADV_DATA_SIZE :: nat where "BT_MESH_ADV_DATA_SIZE = 29"
definition BT_MESH_TX_SEG_COUNT :: nat where "BT_MESH_TX_SEG_COUNT = CONFIG_BT_MESH_ADV_BUF_COUNT - 3"
definition BT_MESH_TX_SDU_MAX :: nat where "BT_MESH_TX_SDU_MAX = BT_MESH_TX_SEG_COUNT * 12"
definition CONFIG_BT_MESH_RX_SDU_MAX :: nat where "CONFIG_BT_MESH_RX_SDU_MAX = 384"

section \<open>Field updates of nested records\<close>

definition upd_net :: "(bt_mesh_net \<Rightarrow> bt_mesh_net) \<Rightarrow> mesh \<Rightarrow> mesh" where
  "upd_net f s = s\<lparr>ms_net := f (ms_net s)\<rparr>"

definition upd_sub :: "nat \<Rightarrow> (bt_mesh_subnet \<Rightarrow> bt_mesh_subnet) \<Rightarrow> mesh \<Rightarrow> mesh" where
  "upd_sub i f s = upd_net (\<lambda>n. n\<lparr>bm_sub := upd_at i f (bm_sub n)\<rparr>) s"

definition get_sub :: "mesh \<Rightarrow> nat \<Rightarrow> bt_mesh_subnet" where
  "get_sub s i = bm_sub (ms_net s) ! i"

definition log_ev :: "mesh_ev \<Rightarrow> mesh \<Rightarrow> mesh" where
  "log_ev e s = s\<lparr>ms_log := ms_log s @ [e]\<rparr>"

section \<open>Configuration getters\<close>

definition bt_mesh_net_transmit_get :: "mesh \<Rightarrow> u8" where
  "bt_mesh_net_transmit_get s = (case ms_conf s of Some conf \<Rightarrow> cf_net_transmit conf | None \<Rightarrow> 0)"

definition bt_mesh_relay_get :: "mesh \<Rightarrow> u8" where
  "bt_mesh_relay_get s = (case ms_conf s of Some conf \<Rightarrow> cf_relay conf | None \<Rightarrow> 0x02)"

definition bt_mesh_friend_get :: "mesh \<Rightarrow> u8" where
  "bt_mesh_friend_get s = (case ms_conf s of Some conf \<Rightarrow> cf_frnd conf | None \<Rightarrow> 0x02)"

definition bt_mesh_relay_retransmit_get :: "mesh \<Rightarrow> u8" where
  "bt_mesh_relay_retransmit_get s = (case ms_conf s of Some conf \<Rightarrow> cf_relay_retransmit conf | None \<Rightarrow> 0)"

definition bt_mesh_beacon_get :: "mesh \<Rightarrow> u8" where
  "bt_mesh_beacon_get s = (case ms_conf s of Some conf \<Rightarrow> cf_beacon conf | None \<Rightarrow> 0x00)"

definition bt_mesh_gatt_proxy_get :: "mesh \<Rightarrow> u8" where
  "bt_mesh_gatt_proxy_get s = (case ms_conf s of Some conf \<Rightarrow> cf_gatt_proxy conf | None \<Rightarrow> 0x02)"

definition bt_mesh_default_ttl_get :: "mesh \<Rightarrow> u8" where
  "bt_mesh_default_ttl_get s = (case ms_conf s of Some conf \<Rightarrow> cf_default_ttl conf | None \<Rightarrow> 7)"

definition bt_mesh_label_uuid_get :: "mesh \<Rightarrow> u16 \<Rightarrow> bytes option" where
  "bt_mesh_label_uuid_get s addr =
     map_option (\<lambda>i. lb_uuid (ms_labels s ! i)) (find_index (\<lambda>l. lb_addr l = addr) (ms_labels s))"

definition bt_mesh_is_provisioned :: "mesh \<Rightarrow> bool" where
  "bt_mesh_is_provisioned s = ms_provisioned s"

definition bt_prov_active :: "mesh \<Rightarrow> bool" where
  "bt_prov_active s = lk_active (ms_link s)"

definition bt_mesh_primary_addr :: "mesh \<Rightarrow> u16" where
  "bt_mesh_primary_addr s = ms_primary_addr s"

section \<open>Time and work items\<close>

definition k_uptime_get_32 :: "mesh \<Rightarrow> u32" where
  "k_uptime_get_32 s = of_nat (ms_now s)"

definition k_uptime_get :: "mesh \<Rightarrow> int" where
  "k_uptime_get s = int (ms_now s)"

definition k_delayed_work_init :: "work_id \<Rightarrow> mesh \<Rightarrow> mesh" where
  "k_delayed_work_init w s = s\<lparr>ms_works := (ms_works s)(w := \<lparr>wk_pending = False, wk_start_ms = 0, wk_timeout = 0\<rparr>)\<rparr>"

definition k_delayed_work_cancel :: "work_id \<Rightarrow> mesh \<Rightarrow> mesh" where
  "k_delayed_work_cancel w s =
     s\<lparr>ms_works := (ms_works s)(w := (ms_works s w)\<lparr>wk_timeout := 0, wk_pending := False\<rparr>)\<rparr>"

definition k_delayed_work_submit :: "work_id \<Rightarrow> nat \<Rightarrow> mesh \<Rightarrow> mesh" where
  "k_delayed_work_submit w delay s =
     (let s = (if wk_pending (ms_works s w) then k_delayed_work_cancel w s else s)
      in s\<lparr>ms_works := (ms_works s)(w := \<lparr>wk_pending = True, wk_start_ms = k_uptime_get_32 s,
             wk_timeout = of_nat delay\<rparr>)\<rparr>)"

definition k_work_submit :: "work_id \<Rightarrow> mesh \<Rightarrow> mesh" where
  "k_work_submit w s = k_delayed_work_submit w 0 s"

definition k_delayed_work_remaining_get :: "work_id \<Rightarrow> mesh \<Rightarrow> nat" where
  "k_delayed_work_remaining_get w s =
     (let work = ms_works s w;
          remain = sint (wk_timeout work - (k_uptime_get_32 s - wk_start_ms work))
      in if remain < 0 then 0 else nat remain)"

section \<open>The state before initialisation\<close>

text \<open>
  The initial values of the static variables, with the table sizes of \<^verbatim>\<open>mesh_config.h\<close>. The
  composition is the application's; it is empty until registered.
\<close>

definition subnet_keys0 :: subnet_keys where
  "subnet_keys0 = \<lparr>sk_net = replicate 16 0, sk_nid = 0, sk_enc = replicate 16 0, sk_net_id = replicate 8 0,
     sk_identity = replicate 16 0, sk_privacy = replicate 16 0, sk_beacon = replicate 16 0\<rparr>"

definition subnet0 :: bt_mesh_subnet where
  "subnet0 = \<lparr>sn_beacon_sent = 0, sn_beacons_last = 0, sn_beacons_cur = 0, sn_beacon_cache = replicate 21 0,
     sn_net_idx = BT_MESH_KEY_UNUSED, sn_kr_flag = False, sn_kr_phase = 0, sn_node_id = 0,
     sn_node_id_start = 0, sn_auth = replicate 8 0, sn_key0 = subnet_keys0, sn_key1 = subnet_keys0\<rparr>"

definition app_key0 :: bt_mesh_app_key where
  "app_key0 = \<lparr>ak_net_idx = BT_MESH_KEY_UNUSED, ak_app_idx = 0, ak_updated = False,
     ak_key0 = \<lparr>av_id = 0, av_val = replicate 16 0\<rparr>, ak_key1 = \<lparr>av_id = 0, av_val = replicate 16 0\<rparr>\<rparr>"

definition bt_mesh_net0 :: bt_mesh_net where
  "bt_mesh_net0 = \<lparr>bm_iv_index = 0, bm_seq = 0, bm_iv_update = False, bm_ivu_initiator = False, bm_ivu_test = False,
     bm_pending_update = False, bm_valid = False, bm_last_update = 0, bm_local_queue = [], bm_dev_key = replicate 16 0,
     bm_app_keys = replicate 1 app_key0, bm_sub = replicate 2 subnet0,
     bm_rpl = replicate 5 \<lparr>rp_src = 0, rp_old_iv = False, rp_seq = 0\<rparr>\<rparr>"

definition hb_pub0 :: hb_pub where
  "hb_pub0 = \<lparr>hp_dst = 0, hp_count = 0, hp_period = 0, hp_ttl = 0, hp_feat = 0, hp_net_idx = 0\<rparr>"

definition hb_sub0 :: hb_sub where
  "hb_sub0 = \<lparr>hs_expiry = 0, hs_src = 0, hs_dst = 0, hs_count = 0, hs_min_hops = 0, hs_max_hops = 0, hs_func = False\<rparr>"

definition seg_tx0 :: seg_tx where
  "seg_tx0 = \<lparr>st_sub = None, st_seg = replicate BT_MESH_TX_SEG_COUNT None, st_seq_auth = 0, st_dst = 0, st_seg_n = 0,
     st_new_key = False, st_nack_count = 0, st_cb = Cb_None\<rparr>"

definition seg_rx0 :: seg_rx where
  "seg_rx0 = \<lparr>sr_sub = 0, sr_seq_auth = 0, sr_seg_n = 0, sr_ctl = False, sr_in_use = False, sr_obo = False,
     sr_hdr = 0, sr_ttl = 0, sr_src = 0, sr_dst = 0, sr_block = 0, sr_last = 0,
     sr_buf = NET_BUF_SIMPLE CONFIG_BT_MESH_RX_SDU_MAX\<rparr>"

definition client0 :: bt_mesh_proxy_client where
  "client0 = \<lparr>cl_conn = None, cl_filter = replicate 3 0, cl_filter_type = FT_NONE, cl_msg_type = 0,
     cl_buf = NET_BUF_SIMPLE 68\<rparr>"

definition net_buf0 :: net_buf where
  "net_buf0 = \<lparr>bf_b = NET_BUF_SIMPLE BT_MESH_ADV_DATA_SIZE, bf_ref = 0,
     bf_adv = \<lparr>ad_cb = Cb_User Cb_None, ad_type = ADV_PROV, ad_busy = False, ad_count = 0, ad_adv_int = 0, ad_attempts = 0\<rparr>\<rparr>"

definition bt_mesh_prov0 :: bt_mesh_prov where
  "bt_mesh_prov0 = \<lparr>pv_uuid = replicate 16 0, pv_uri = None, pv_oob_info = 0, pv_public_key_type = 0, pv_static_val = None,
     pv_output_size = 0, pv_output_actions = 0, pv_input_size = 0, pv_input_actions = 0, pv_link_open = False,
     pv_link_close = False, pv_complete = False, pv_reset = False\<rparr>"

definition prov_link0 :: prov_link where
  "prov_link0 = \<lparr>lk_remote_pub_key = False, lk_local_pub_key = False, lk_active = False, lk_have_dhkey = False,
     lk_send_confirm = False, lk_wait_number = False, lk_wait_string = False, lk_conn = None, lk_dhkey = replicate 32 0,
     lk_expect = 0, lk_conf = replicate 16 0, lk_rand = replicate 16 0, lk_auth = replicate 16 0, lk_conf_salt = replicate 16 0,
     lk_conf_key = replicate 16 0, lk_conf_inputs = replicate 145 0, lk_prov_salt = replicate 16 0, lk_id = 0, lk_rx_id = 0,
     lk_rx_prev_id = 0, lk_rx_seg = 0, lk_rx_last_seg = 0, lk_rx_fcs = 0, lk_rx_buf = False, lk_tx_start = 0, lk_tx_id = 0,
     lk_tx_buf = replicate 3 None\<rparr>"

definition mesh0 :: mesh where
  "mesh0 = \<lparr>ms_net = bt_mesh_net0, ms_provisioned = False, ms_msg_cache = [0, 0], ms_msg_cache_next = 0,
     ms_dup_cache = [0, 0], ms_dup_cache_next = 0, ms_conf = None,
     ms_labels = replicate 2 \<lparr>lb_addr = 0, lb_uuid = replicate 16 0\<rparr>, ms_comp = [],
     ms_comp_ids = (0, 0, 0), ms_sub_list = replicate 8 0, ms_primary_addr = 0,
     ms_seg_tx = replicate 2 seg_tx0, ms_seg_rx = replicate 4 seg_rx0, ms_hb_sub_dst = BT_MESH_ADDR_UNASSIGNED,
     ms_clients = replicate 2 client0, ms_gatt_svc = MESH_GATT_NONE, ms_conn_count = 0,
     ms_proxy_adv_enabled = False, ms_prov_fast_adv = False, ms_prov_ccc_val = 0, ms_next_idx = 0, ms_mtu = (\<lambda>_. 23), ms_notify_rc = None,
     ms_bufs = replicate CONFIG_BT_MESH_ADV_BUF_COUNT net_buf0, ms_free = [], ms_uninit = CONFIG_BT_MESH_ADV_BUF_COUNT,
     ms_adv_queue = [], ms_first_half = False, ms_unprov_interval = 500,
     ms_prov = bt_mesh_prov0, ms_link = prov_link0, ms_pending_ack = 0xff, ms_p_health_srv = None, ms_fast_period_div = 0, ms_works = (\<lambda>_. \<lparr>wk_pending = False, wk_start_ms = 0, wk_timeout = 0\<rparr>), ms_now = 0, ms_log = []\<rparr>"

end
