(* ===== verification/Adv.thy ===== *)
theory Adv
  imports Mesh_State
begin

text \<open>
  The advertising bearer: the buffer pool of \<^verbatim>\<open>bt_common/buf.c\<close> (allocation, reference counts), the
  buffer interface of \<^verbatim>\<open>bt_mesh/src/adv.c\<close>, the completion callbacks the stack registers with it
  (\<^verbatim>\<open>publish_sent\<close> of \<^verbatim>\<open>access.c\<close>, \<^verbatim>\<open>beacon_complete\<close> of \<^verbatim>\<open>beacon.c\<close>, \<^verbatim>\<open>seg_send_start\<close> and \<^verbatim>\<open>seg_sent\<close> of
  \<^verbatim>\<open>transport.c\<close>, \<^verbatim>\<open>ack_complete\<close> and \<^verbatim>\<open>buf_sent\<close> of \<^verbatim>\<open>prov.c\<close>) and one round of the advertising thread. No mesh buffer uses fragments, so
  \<^verbatim>\<open>frags\<close> and \<^verbatim>\<open>flags\<close> are left out, and the LIFO of free buffers never blocks, as the comment in
  \<^verbatim>\<open>net_buf_alloc\<close> says.
\<close>

section \<open>The buffer pool\<close>

definition upd_buf :: "nat \<Rightarrow> (net_buf \<Rightarrow> net_buf) \<Rightarrow> mesh \<Rightarrow> mesh" where
  "upd_buf i f s = s\<lparr>ms_bufs := upd_at i f (ms_bufs s)\<rparr>"

definition get_buf :: "mesh \<Rightarrow> nat \<Rightarrow> net_buf" where
  "get_buf s i = ms_bufs s ! i"

definition net_buf_reset :: "net_buf \<Rightarrow> net_buf" where
  "net_buf_reset b = b\<lparr>bf_b := (bf_b b)\<lparr>nb_len := 0, nb_off := 0\<rparr>\<rparr>"

definition net_buf_alloc :: "mesh \<Rightarrow> nat option \<times> mesh" where
  "net_buf_alloc s =
     (let success = (\<lambda>i s. (Some i, upd_buf i (\<lambda>b. net_buf_reset (b\<lparr>bf_ref := 1\<rparr>)) s)) in
      if ms_uninit s \<noteq> 0 then
        (if ms_uninit s < CONFIG_BT_MESH_ADV_BUF_COUNT \<and> ms_free s \<noteq> []
         then success (hd (ms_free s)) (s\<lparr>ms_free := tl (ms_free s)\<rparr>)
         else success (CONFIG_BT_MESH_ADV_BUF_COUNT - ms_uninit s) (s\<lparr>ms_uninit := ms_uninit s - 1\<rparr>))
      else (case ms_free s of
              [] \<Rightarrow> (None, s)
            | i # free \<Rightarrow> success i (s\<lparr>ms_free := free\<rparr>)))"

definition net_buf_ref :: "nat \<Rightarrow> mesh \<Rightarrow> mesh" where
  "net_buf_ref i s = upd_buf i (\<lambda>b. b\<lparr>bf_ref := bf_ref b + 1\<rparr>) s"

definition net_buf_unref :: "nat \<Rightarrow> mesh \<Rightarrow> mesh" where
  "net_buf_unref i s =
     (let s = upd_buf i (\<lambda>b. b\<lparr>bf_ref := bf_ref b - 1\<rparr>) s
      in if bf_ref (get_buf s i) > 0 then s
         else s\<lparr>ms_free := i # ms_free s\<rparr>)"

definition net_buf_reserve :: "nat \<Rightarrow> nat \<Rightarrow> mesh \<Rightarrow> mesh" where
  "net_buf_reserve i reserve s = upd_buf i (\<lambda>b. b\<lparr>bf_b := (bf_b b)\<lparr>nb_off := reserve\<rparr>\<rparr>) s"

text \<open>A \<^verbatim>\<open>net_buf_simple\<close> operation applied to the data part of a pool buffer.\<close>

definition on_buf :: "nat \<Rightarrow> (net_buf_simple \<Rightarrow> net_buf_simple) \<Rightarrow> mesh \<Rightarrow> mesh" where
  "on_buf i f s = upd_buf i (\<lambda>b. b\<lparr>bf_b := f (bf_b b)\<rparr>) s"

definition buf_b :: "mesh \<Rightarrow> nat \<Rightarrow> net_buf_simple" where
  "buf_b s i = bf_b (get_buf s i)"

section \<open>Completion callbacks\<close>

definition get_model :: "mesh \<Rightarrow> model_ref \<Rightarrow> bt_mesh_model" where
  "get_model s m =
     (let (e, vnd, i) = m; elem = ms_comp s ! e
      in (if vnd then el_vnd_models elem else el_models elem) ! i)"

definition upd_model :: "model_ref \<Rightarrow> (bt_mesh_model \<Rightarrow> bt_mesh_model) \<Rightarrow> mesh \<Rightarrow> mesh" where
  "upd_model m f s =
     (let (e, vnd, i) = m in
      s\<lparr>ms_comp := upd_at e (\<lambda>elem. if vnd then elem\<lparr>el_vnd_models := upd_at i f (el_vnd_models elem)\<rparr>
                                     else elem\<lparr>el_models := upd_at i f (el_models elem)\<rparr>) (ms_comp s)\<rparr>)"

text \<open>
  \<^verbatim>\<open>bt_mesh_model_pub_period_get\<close>; the two-bit step resolution leaves no fifth case. Milliseconds.
\<close>

definition bt_mesh_model_pub_period_get :: "bt_mesh_model \<Rightarrow> nat" where
  "bt_mesh_model_pub_period_get mdl =
     (case md_pub mdl of None \<Rightarrow> 0
      | Some pub \<Rightarrow>
          (let steps = unat (pb_period pub AND 0x3f); r = drop_bit 6 (pb_period pub);
               period = (if r = 0 then steps * 100
                         else if r = 1 then steps * 1000
                         else if r = 2 then steps * 10 * 1000
                         else steps * 10 * 60 * 1000)
           in drop_bit (pb_period_div pub) period))"

definition next_period :: "mesh \<Rightarrow> bt_mesh_model \<Rightarrow> nat" where
  "next_period s mdl =
     (let period = bt_mesh_model_pub_period_get mdl in
      if period = 0 then 0
      else let elapsed = k_uptime_get_32 s - pb_period_start (the (md_pub mdl)) in
        if elapsed > of_nat period then 1 else period - unat elapsed)"

definition publish_sent :: "errno option \<Rightarrow> model_ref \<Rightarrow> mesh \<Rightarrow> mesh" where
  "publish_sent err m s =
     (let mdl = get_model s m; pub = the (md_pub mdl);
          delay = (if pb_count pub \<noteq> 0 then BT_MESH_PUB_TRANSMIT_INT (pb_retransmit pub) else next_period s mdl)
      in if delay \<noteq> 0 then k_delayed_work_submit (W_Pub m) delay s else s)"

definition beacon_complete :: "nat \<Rightarrow> mesh \<Rightarrow> mesh" where
  "beacon_complete i s = upd_sub i (\<lambda>sub. sub\<lparr>sn_beacon_sent := k_uptime_get_32 s\<rparr>) s"

definition XACT_NVAL :: u8 where "XACT_NVAL = 0xff"
definition RETRANSMIT_TIMEOUT :: nat where "RETRANSMIT_TIMEOUT = 500"

definition ack_complete :: "mesh \<Rightarrow> mesh" where
  "ack_complete s = s\<lparr>ms_pending_ack := XACT_NVAL\<rparr>"

definition buf_sent :: "mesh \<Rightarrow> mesh" where
  "buf_sent s =
     (if lk_tx_buf (ms_link s) ! 0 = None then s else k_delayed_work_submit W_Prov_Retransmit RETRANSMIT_TIMEOUT s)"

definition user_cb_start :: "user_cb \<Rightarrow> nat \<Rightarrow> errno option \<Rightarrow> mesh \<Rightarrow> mesh" where
  "user_cb_start cb duration err s =
     (case cb of Cb_Ack_Complete \<Rightarrow> ack_complete s
      | Cb_App n \<Rightarrow> log_ev (Ev_App_Start n duration err) s
      | _ \<Rightarrow> s)"

definition user_cb_end :: "user_cb \<Rightarrow> errno option \<Rightarrow> mesh \<Rightarrow> mesh" where
  "user_cb_end cb err s =
     (case cb of Cb_None \<Rightarrow> s
      | Cb_Ack_Complete \<Rightarrow> s
      | Cb_Buf_Sent \<Rightarrow> buf_sent s
      | Cb_Pub m \<Rightarrow> publish_sent err m s
      | Cb_Beacon i \<Rightarrow> beacon_complete i s
      | Cb_App n \<Rightarrow> log_ev (Ev_App_End n err) s)"

definition SEG_RETRANSMIT_TIMEOUT :: nat where "SEG_RETRANSMIT_TIMEOUT = 400"

definition seg_send_start :: "nat \<Rightarrow> errno option \<Rightarrow> nat \<Rightarrow> mesh \<Rightarrow> mesh" where
  "seg_send_start duration err tx s = user_cb_start (st_cb (ms_seg_tx s ! tx)) duration err s"

definition seg_sent :: "errno option \<Rightarrow> nat \<Rightarrow> mesh \<Rightarrow> mesh" where
  "seg_sent err tx s = k_delayed_work_submit (W_Retransmit tx) SEG_RETRANSMIT_TIMEOUT s"

definition adv_send_start :: "nat \<Rightarrow> errno option \<Rightarrow> send_cb \<Rightarrow> mesh \<Rightarrow> mesh" where
  "adv_send_start duration err cb s =
     (case cb of Cb_User u \<Rightarrow> user_cb_start u duration err s
      | Cb_First_Sent tx \<Rightarrow> seg_send_start duration err tx s
      | Cb_Seg_Sent tx \<Rightarrow> s)"

definition adv_send_end :: "errno option \<Rightarrow> send_cb \<Rightarrow> mesh \<Rightarrow> mesh" where
  "adv_send_end err cb s =
     (case cb of Cb_User u \<Rightarrow> user_cb_end u err s
      | Cb_First_Sent tx \<Rightarrow> seg_sent err tx s
      | Cb_Seg_Sent tx \<Rightarrow> seg_sent err tx s)"

section \<open>The advertising interface\<close>

definition bt_mesh_adv_create :: "adv_type \<Rightarrow> nat \<Rightarrow> nat \<Rightarrow> mesh \<Rightarrow> nat option \<times> mesh" where
  "bt_mesh_adv_create type xmit_count xmit_int s =
     (case net_buf_alloc s of
        (None, s) \<Rightarrow> (None, s)
      | (Some i, s) \<Rightarrow>
          (Some i, upd_buf i (\<lambda>b. b\<lparr>bf_adv := \<lparr>ad_cb = Cb_User Cb_None, ad_type = type, ad_busy = False,
             ad_count = xmit_count mod 8, ad_adv_int = xmit_int mod 65536, ad_attempts = 0\<rparr>\<rparr>) s))"

definition bt_mesh_adv_send :: "nat \<Rightarrow> send_cb \<Rightarrow> mesh \<Rightarrow> mesh" where
  "bt_mesh_adv_send i cb s =
     (let s = upd_buf i (\<lambda>b. b\<lparr>bf_adv := (bf_adv b)\<lparr>ad_cb := cb, ad_busy := True\<rparr>\<rparr>) s;
          s = net_buf_ref i s
      in s\<lparr>ms_adv_queue := ms_adv_queue s @ [i]\<rparr>)"

definition bt_mesh_adv_update :: "mesh \<Rightarrow> mesh" where
  "bt_mesh_adv_update s = log_ev Ev_Adv_Update s"

definition GENIE_DEFAULT_DURATION :: nat where "GENIE_DEFAULT_DURATION = 125"

text \<open>
  \<^verbatim>\<open>adv_send\<close>: the minimum interval and the results of the two HCI commands are the controller's.
  The thread sleeps for \<open>duration\<close> milliseconds between start and stop when the start succeeded.
\<close>

definition adv_send :: "nat \<Rightarrow> nat \<Rightarrow> errno option \<Rightarrow> errno option \<Rightarrow> mesh \<Rightarrow> mesh" where
  "adv_send adv_int_min i start_err stop_err s =
     (let adv = bf_adv (get_buf s i); cb = ad_cb adv;
          adv_int = max adv_int_min (ad_adv_int adv);
          duration = GENIE_DEFAULT_DURATION;
          s = log_ev (Ev_Adv_Start (ad_type adv) (nb_data (buf_b s i)) (adv_int * 8 div 5) (ad_count adv)) s;
          s = net_buf_unref i s;
          s = adv_send_start duration start_err cb s;
          s = (if start_err = None then s\<lparr>ms_now := ms_now s + duration\<rparr> else s)
      in adv_send_end stop_err cb s)"

definition adv_thread_round :: "nat \<Rightarrow> errno option \<Rightarrow> errno option \<Rightarrow> mesh \<Rightarrow> mesh" where
  "adv_thread_round adv_int_min start_err stop_err s =
     (case ms_adv_queue s of
        [] \<Rightarrow> s
      | i # q \<Rightarrow>
          let s = s\<lparr>ms_adv_queue := q\<rparr> in
          if ad_busy (bf_adv (get_buf s i))
          then adv_send adv_int_min i start_err stop_err
                 (upd_buf i (\<lambda>b. b\<lparr>bf_adv := (bf_adv b)\<lparr>ad_busy := False\<rparr>\<rparr>) s)
          else net_buf_unref i s)"

section \<open>Allocated buffers\<close>

text \<open>The invariant of the pool: every buffer keeps its storage and no operation on it has failed.\<close>

definition pool_ok :: "mesh \<Rightarrow> bool" where
  "pool_ok s \<longleftrightarrow>
     length (ms_bufs s) = CONFIG_BT_MESH_ADV_BUF_COUNT \<and> ms_uninit s \<le> CONFIG_BT_MESH_ADV_BUF_COUNT \<and>
     (\<forall>i\<in>set (ms_free s). i < CONFIG_BT_MESH_ADV_BUF_COUNT) \<and>
     (\<forall>b\<in>set (ms_bufs s). length (nb_buf (bf_b b)) = BT_MESH_ADV_DATA_SIZE \<and> \<not> nb_fault (bf_b b))"

lemma mesh0_pool: "pool_ok mesh0"
  by (simp add: pool_ok_def mesh0_def net_buf0_def NET_BUF_SIMPLE_def)

lemma set_upd_at: "x \<in> set (upd_at i f xs) \<Longrightarrow> x \<in> set xs \<or> (i < length xs \<and> x = f (xs ! i))"
  by (auto simp: upd_at_def dest: set_update_subset_insert [THEN subsetD] split: if_splits)

lemma alloc_cases:
  assumes "net_buf_alloc s = (Some i, s')"
  obtains s0 where "s' = upd_buf i (\<lambda>b. net_buf_reset (b\<lparr>bf_ref := 1\<rparr>)) s0"
    "s0 = s\<lparr>ms_free := ms_free s0, ms_uninit := ms_uninit s0\<rparr>" "set (ms_free s0) \<subseteq> set (ms_free s)" "ms_uninit s0 \<le> ms_uninit s"
    "i \<in> set (ms_free s) \<or> i < CONFIG_BT_MESH_ADV_BUF_COUNT"
proof -
  let ?r = "\<lambda>b. net_buf_reset (b\<lparr>bf_ref := 1\<rparr>)"
  consider (free) f where "ms_free s = i # f" "s' = upd_buf i ?r (s\<lparr>ms_free := f\<rparr>)"
    | (uninit) "ms_uninit s \<noteq> 0" "i = CONFIG_BT_MESH_ADV_BUF_COUNT - ms_uninit s" "s' = upd_buf i ?r (s\<lparr>ms_uninit := ms_uninit s - 1\<rparr>)"
  proof (cases "ms_uninit s \<noteq> 0")
    case True
    with assms that show thesis
      by (cases "ms_free s") (auto simp: net_buf_alloc_def Let_def split: if_splits)
  next
    case False
    with assms that(1) show thesis by (auto simp: net_buf_alloc_def Let_def split: list.splits)
  qed
  then show thesis
  proof cases
    case (free f)
    then show thesis by (intro that [of "s\<lparr>ms_free := f\<rparr>"]) auto
  next
    case uninit
    then show thesis by (intro that [of "s\<lparr>ms_uninit := ms_uninit s - 1\<rparr>"]) (auto simp: CONFIG_BT_MESH_ADV_BUF_COUNT_def)
  qed
qed

text \<open>A buffer from the pool is empty, has its full size, and the pool stays well-formed.\<close>

lemma adv_create_ok:
  assumes "bt_mesh_adv_create type xc xi s = (Some i, s')" "pool_ok s"
  shows "i < length (ms_bufs s')" "nb_ok (buf_b s' i)" "nb_data (buf_b s' i) = []" "nb_off (buf_b s' i) = 0"
    "nb_len (buf_b s' i) = 0" "length (nb_buf (buf_b s' i)) = BT_MESH_ADV_DATA_SIZE" "pool_ok s'"
    "ms_net s' = ms_net s" "ms_adv_queue s' = ms_adv_queue s" "ms_conf s' = ms_conf s" "ms_clients s' = ms_clients s"
    "ms_comp s' = ms_comp s" "ms_seg_tx s' = ms_seg_tx s" "ms_works s' = ms_works s" "ms_log s' = ms_log s"
proof -
  let ?adv = "\<lparr>ad_cb = Cb_User Cb_None, ad_type = type, ad_busy = False, ad_count = xc mod 8, ad_adv_int = xi mod 65536, ad_attempts = 0\<rparr>"
  obtain s1 where al: "net_buf_alloc s = (Some i, s1)" and s': "s' = upd_buf i (\<lambda>b. b\<lparr>bf_adv := ?adv\<rparr>) s1"
    using assms(1) by (auto simp: bt_mesh_adv_create_def split: prod.splits option.splits)
  obtain s0 where s1: "s1 = upd_buf i (\<lambda>b. net_buf_reset (b\<lparr>bf_ref := 1\<rparr>)) s0"
    and s0: "s0 = s\<lparr>ms_free := ms_free s0, ms_uninit := ms_uninit s0\<rparr>" "set (ms_free s0) \<subseteq> set (ms_free s)" "ms_uninit s0 \<le> ms_uninit s"
    and i: "i \<in> set (ms_free s) \<or> i < CONFIG_BT_MESH_ADV_BUF_COUNT" by (rule alloc_cases [OF al])
  have b0: "ms_bufs s0 = ms_bufs s" "ms_net s0 = ms_net s" "ms_adv_queue s0 = ms_adv_queue s" "ms_conf s0 = ms_conf s"
    "ms_clients s0 = ms_clients s" "ms_comp s0 = ms_comp s" "ms_seg_tx s0 = ms_seg_tx s" "ms_works s0 = ms_works s"
    "ms_log s0 = ms_log s"
    by (subst s0(1), simp)+
  have il: "i < length (ms_bufs s)" using i assms(2) by (auto simp: pool_ok_def)
  let ?b = "ms_bufs s ! i"
  have ok: "length (nb_buf (bf_b ?b)) = BT_MESH_ADV_DATA_SIZE" "\<not> nb_fault (bf_b ?b)"
    using assms(2) il by (auto simp: pool_ok_def)
  have bufs: "ms_bufs s' = upd_at i (\<lambda>b. (net_buf_reset (b\<lparr>bf_ref := 1\<rparr>))\<lparr>bf_adv := ?adv\<rparr>) (ms_bufs s)"
    using b0(1) il by (simp add: s' s1 upd_buf_def upd_at_def)
  show "i < length (ms_bufs s')" using bufs il by simp
  have bi: "buf_b s' i = (bf_b ?b)\<lparr>nb_len := 0, nb_off := 0\<rparr>"
    using il by (simp add: buf_b_def get_buf_def bufs nth_upd_at net_buf_reset_def)
  show "nb_ok (buf_b s' i)" "nb_data (buf_b s' i) = []" "nb_off (buf_b s' i) = 0"
    "nb_len (buf_b s' i) = 0" "length (nb_buf (buf_b s' i)) = BT_MESH_ADV_DATA_SIZE"
    using ok by (simp_all add: bi nb_ok_def nb_data_def BT_MESH_ADV_DATA_SIZE_def)
  show "pool_ok s'"
    using assms(2) s0(2,3) ok il unfolding pool_ok_def bufs
    by (auto simp: s' s1 upd_buf_def net_buf_reset_def dest!: set_upd_at)
  show "ms_net s' = ms_net s" "ms_adv_queue s' = ms_adv_queue s" "ms_conf s' = ms_conf s" "ms_clients s' = ms_clients s"
    "ms_comp s' = ms_comp s" "ms_seg_tx s' = ms_seg_tx s" "ms_works s' = ms_works s" "ms_log s' = ms_log s"
    using b0 by (simp_all add: s' s1 upd_buf_def)
qed

lemma on_buf_sel [simp]:
  "ms_net (on_buf i f s) = ms_net s" "ms_adv_queue (on_buf i f s) = ms_adv_queue s" "ms_conf (on_buf i f s) = ms_conf s"
  "ms_clients (on_buf i f s) = ms_clients s" "ms_comp (on_buf i f s) = ms_comp s" "ms_gatt_svc (on_buf i f s) = ms_gatt_svc s"
  "ms_log (on_buf i f s) = ms_log s" "ms_works (on_buf i f s) = ms_works s" "ms_seg_tx (on_buf i f s) = ms_seg_tx s"
  "length (ms_bufs (on_buf i f s)) = length (ms_bufs s)"
  by (simp_all add: on_buf_def upd_buf_def)

lemma buf_b_on_buf: "j < length (ms_bufs s) \<Longrightarrow> buf_b (on_buf i f s) j = (if i = j then f (buf_b s j) else buf_b s j)"
  by (simp add: buf_b_def get_buf_def on_buf_def upd_buf_def nth_upd_at)

lemma buf_b_ref [simp]:
  "j < length (ms_bufs s) \<Longrightarrow> buf_b (net_buf_ref i s) j = buf_b s j"
  "j < length (ms_bufs s) \<Longrightarrow> buf_b (net_buf_unref i s) j = buf_b s j"
  "j < length (ms_bufs s) \<Longrightarrow> buf_b (bt_mesh_adv_send i cb s) j = buf_b s j"
  by (simp_all add: buf_b_def get_buf_def net_buf_ref_def net_buf_unref_def bt_mesh_adv_send_def upd_buf_def Let_def nth_upd_at)

lemma unref_sel [simp]:
  "ms_net (net_buf_unref i s) = ms_net s" "ms_adv_queue (net_buf_unref i s) = ms_adv_queue s"
  "ms_net (bt_mesh_adv_send i cb s) = ms_net s" "ms_adv_queue (bt_mesh_adv_send i cb s) = ms_adv_queue s @ [i]"
  "length (ms_bufs (bt_mesh_adv_send i cb s)) = length (ms_bufs s)" "length (ms_bufs (net_buf_unref i s)) = length (ms_bufs s)"
  by (simp_all add: net_buf_ref_def net_buf_unref_def bt_mesh_adv_send_def upd_buf_def Let_def)

end
