(* ===== verification/Net_Keys.thy ===== *)
theory Net_Keys
  imports Crypto Adv
begin

text \<open>
  The security state of the network layer, from \<^verbatim>\<open>bt_mesh/src/net.c\<close>: subnets and their keys, the
  key refresh phases, the IV Index procedure with its effect on the replay list, and the lookup of
  the subnet that authenticates a secure network beacon. The theorems cover the safety of the IV
  Index procedure (the index never goes back, a nonce position is never used again, the minimum
  time in a state), the key refresh transitions and the soundness and completeness of the lookup.
\<close>

section \<open>Subnets and keys\<close>

definition bt_mesh_subnet_get :: "mesh \<Rightarrow> u16 \<Rightarrow> nat option" where
  "bt_mesh_subnet_get s net_idx =
     (if net_idx = BT_MESH_KEY_ANY then Some 0
      else find_index (\<lambda>sub. sn_net_idx sub = net_idx) (bm_sub (ms_net s)))"

definition bt_mesh_net_keys_create :: "subnet_keys \<Rightarrow> bytes \<Rightarrow> errno option \<times> subnet_keys" where
  "bt_mesh_net_keys_create keys key =
     (case bt_mesh_k2 key [0] of Inl err \<Rightarrow> (Some err, keys) | Inr (nid, enc, privacy) \<Rightarrow>
      let keys = keys\<lparr>sk_enc := enc, sk_privacy := privacy, sk_net := key, sk_nid := nid\<rparr> in
     (case bt_mesh_k3 key of Inl err \<Rightarrow> (Some err, keys) | Inr net_id \<Rightarrow>
      let keys = keys\<lparr>sk_net_id := net_id\<rparr> in
     (case bt_mesh_identity_key key of Inl err \<Rightarrow> (Some err, keys) | Inr identity \<Rightarrow>
      let keys = keys\<lparr>sk_identity := identity\<rparr> in
     (case bt_mesh_beacon_key key of Inl err \<Rightarrow> (Some err, keys) | Inr beacon \<Rightarrow>
      (None, keys\<lparr>sk_beacon := beacon\<rparr>)))))"

text \<open>The flags of a subnet, or of no subnet.\<close>

definition bt_mesh_net_flags :: "mesh \<Rightarrow> nat option \<Rightarrow> u8" where
  "bt_mesh_net_flags s sub =
     (let flags = 0x00;
          flags = (case sub of Some i \<Rightarrow> if sn_kr_flag (get_sub s i) then flags OR 1 else flags | None \<Rightarrow> flags)
      in if bm_iv_update (ms_net s) then flags OR 2 else flags)"

definition bt_mesh_net_beacon_update :: "nat \<Rightarrow> mesh \<Rightarrow> errno option \<times> mesh" where
  "bt_mesh_net_beacon_update i s =
     (let flags = bt_mesh_net_flags s (Some i); sub = get_sub s i;
          keys = (if sn_kr_flag sub then sn_key1 sub else sn_key0 sub)
      in case bt_mesh_beacon_auth (sk_beacon keys) flags (sk_net_id keys) (bm_iv_index (ms_net s)) of
           Inl err \<Rightarrow> (Some err, s)
         | Inr auth \<Rightarrow> (None, upd_sub i (\<lambda>sub. sub\<lparr>sn_auth := auth\<rparr>) s))"

definition bt_mesh_net_create :: "u16 \<Rightarrow> u8 \<Rightarrow> bytes \<Rightarrow> u32 \<Rightarrow> mesh \<Rightarrow> errno option \<times> mesh" where
  "bt_mesh_net_create idx flags key iv_index s =
     (if bm_valid (ms_net s) then (Some EALREADY, s)
      else
        let s = s\<lparr>ms_msg_cache := map (\<lambda>_. 0) (ms_msg_cache s), ms_msg_cache_next := 0\<rparr>;
            s = upd_sub 0 (\<lambda>sub. sub\<lparr>sn_kr_flag := BT_MESH_KEY_REFRESH flags\<rparr>) s;
            (err, s) =
              (if sn_kr_flag (get_sub s 0)
               then let (err, keys) = bt_mesh_net_keys_create (sn_key1 (get_sub s 0)) key;
                        s = upd_sub 0 (\<lambda>sub. sub\<lparr>sn_key1 := keys\<rparr>) s
                    in (err, if err = None then upd_sub 0 (\<lambda>sub. sub\<lparr>sn_kr_phase := BT_MESH_KR_PHASE_2\<rparr>) s else s)
               else let (err, keys) = bt_mesh_net_keys_create (sn_key0 (get_sub s 0)) key
                    in (err, upd_sub 0 (\<lambda>sub. sub\<lparr>sn_key0 := keys\<rparr>) s))
        in if err \<noteq> None then (Some EIO, s)
           else
             let s = upd_net (\<lambda>n. n\<lparr>bm_valid := True\<rparr>) s;
                 s = upd_sub 0 (\<lambda>sub. sub\<lparr>sn_net_idx := idx, sn_node_id := 0x01,
                       sn_node_id_start := k_uptime_get_32 s\<rparr>) s;
                 s = upd_net (\<lambda>n. n\<lparr>bm_iv_index := iv_index, bm_iv_update := BT_MESH_IV_UPDATE flags,
                       bm_last_update := k_uptime_get s\<rparr>) s
             in (None, snd (bt_mesh_net_beacon_update 0 s)))"

definition revoke_app_key :: "u16 \<Rightarrow> bt_mesh_app_key \<Rightarrow> bt_mesh_app_key" where
  "revoke_app_key net_idx key =
     (if ak_net_idx key \<noteq> net_idx \<or> \<not> ak_updated key then key
      else key\<lparr>ak_key0 := ak_key1 key, ak_updated := False\<rparr>)"

definition bt_mesh_net_revoke_keys :: "nat \<Rightarrow> mesh \<Rightarrow> mesh" where
  "bt_mesh_net_revoke_keys i s =
     (let s = upd_sub i (\<lambda>sub. sub\<lparr>sn_key0 := sn_key1 sub\<rparr>) s
      in upd_net (\<lambda>n. n\<lparr>bm_app_keys := map (revoke_app_key (sn_net_idx (get_sub s i))) (bm_app_keys n)\<rparr>) s)"

definition bt_mesh_kr_update :: "nat \<Rightarrow> u8 \<Rightarrow> bool \<Rightarrow> mesh \<Rightarrow> bool \<times> mesh" where
  "bt_mesh_kr_update i new_kr new_key s =
     (let sub = get_sub s i in
      if new_kr \<noteq> of_bool (sn_kr_flag sub) \<and> sn_kr_phase sub = BT_MESH_KR_NORMAL then (False, s)
      else
        let s = upd_sub i (\<lambda>sub. sub\<lparr>sn_kr_flag := (new_kr \<noteq> 0)\<rparr>) s; sub = get_sub s i in
        if sn_kr_flag sub then
          if sn_kr_phase sub = BT_MESH_KR_PHASE_1
          then (True, upd_sub i (\<lambda>sub. sub\<lparr>sn_kr_phase := BT_MESH_KR_PHASE_2\<rparr>) s)
          else (False, s)
        else if sn_kr_phase sub = BT_MESH_KR_PHASE_1 \<and> new_key \<or> sn_kr_phase sub = BT_MESH_KR_PHASE_2 then
          (True, upd_sub i (\<lambda>sub. sub\<lparr>sn_kr_phase := BT_MESH_KR_NORMAL\<rparr>) (bt_mesh_net_revoke_keys i s))
        else (False, s))"

section \<open>The IV Index procedure\<close>

definition rpl_clear_entry :: bt_mesh_rpl where
  "rpl_clear_entry = \<lparr>rp_src = 0, rp_old_iv = False, rp_seq = 0\<rparr>"

definition rpl_reset_entry :: "bt_mesh_rpl \<Rightarrow> bt_mesh_rpl" where
  "rpl_reset_entry rpl =
     (if rp_src rpl \<noteq> 0 then
        if rp_old_iv rpl then rpl_clear_entry else rpl\<lparr>rp_old_iv := True\<rparr>
      else rpl)"

definition bt_mesh_rpl_reset :: "mesh \<Rightarrow> mesh" where
  "bt_mesh_rpl_reset s = upd_net (\<lambda>n. n\<lparr>bm_rpl := map rpl_reset_entry (bm_rpl n)\<rparr>) s"

definition bt_mesh_rpl_clear :: "mesh \<Rightarrow> mesh" where
  "bt_mesh_rpl_clear s = upd_net (\<lambda>n. n\<lparr>bm_rpl := map (\<lambda>_. rpl_clear_entry) (bm_rpl n)\<rparr>) s"

definition bt_mesh_tx_in_progress :: "mesh \<Rightarrow> bool" where
  "bt_mesh_tx_in_progress s = (\<exists>tx\<in>set (ms_seg_tx s). st_nack_count tx \<noteq> 0)"

definition K_HOURS :: "nat \<Rightarrow> nat" where "K_HOURS h = h * 3600000"

definition iv_beacons :: "mesh \<Rightarrow> mesh" where
  "iv_beacons s =
     fold (\<lambda>i s. if sn_net_idx (get_sub s i) \<noteq> BT_MESH_KEY_UNUSED then snd (bt_mesh_net_beacon_update i s) else s)
       [0..<length (bm_sub (ms_net s))] s"

text \<open>The code after the label \<^verbatim>\<open>do_update\<close>.\<close>

definition iv_do_update :: "u32 \<Rightarrow> bool \<Rightarrow> mesh \<Rightarrow> bool \<times> mesh" where
  "iv_do_update iv_index iv_update s =
     (let s = upd_net (\<lambda>n. n\<lparr>bm_iv_update := iv_update\<rparr>) s;
          s = (if iv_update
               then k_delayed_work_submit W_Ivu_Complete (K_HOURS 120)
                      (bt_mesh_rpl_reset (upd_net (\<lambda>n. n\<lparr>bm_iv_index := iv_index\<rparr>) s))
               else k_delayed_work_cancel W_Ivu_Complete (upd_net (\<lambda>n. n\<lparr>bm_seq := 0\<rparr>) s));
          s = upd_net (\<lambda>n. n\<lparr>bm_last_update := k_uptime_get s\<rparr>) s
      in (True, iv_beacons s))"

definition iv_recover :: "u32 \<Rightarrow> bool \<Rightarrow> mesh \<Rightarrow> bool \<times> mesh" where
  "iv_recover iv_index iv_update s =
     iv_do_update iv_index iv_update (upd_net (\<lambda>n. n\<lparr>bm_iv_index := iv_index, bm_seq := 0\<rparr>) (bt_mesh_rpl_clear s))"

text \<open>The checks between the mode analysis and \<^verbatim>\<open>do_update\<close>.\<close>

definition iv_checked :: "u32 \<Rightarrow> bool \<Rightarrow> mesh \<Rightarrow> bool \<times> mesh" where
  "iv_checked iv_index iv_update s =
     (if k_uptime_get s - bm_last_update (ms_net s) < int (K_HOURS 96) then (False, s)
      else if \<not> iv_update \<and> bt_mesh_tx_in_progress s then (False, upd_net (\<lambda>n. n\<lparr>bm_pending_update := True\<rparr>) s)
      else iv_do_update iv_index iv_update s)"

definition bt_mesh_net_iv_update :: "u32 \<Rightarrow> bool \<Rightarrow> mesh \<Rightarrow> bool \<times> mesh" where
  "bt_mesh_net_iv_update iv_index iv_update s =
     (let n = ms_net s in
      if bm_iv_update n then
        if iv_index \<noteq> bm_iv_index n then (False, s)
        else if iv_update then (False, s)
        else iv_checked iv_index iv_update s
      else
        if iv_index = bm_iv_index n then (False, s)
        else if iv_index < bm_iv_index n \<or> iv_index > bm_iv_index n + 42 then (False, s)
        else if iv_index > bm_iv_index n + 1 then iv_recover iv_index iv_update s
        else if iv_index = bm_iv_index n + 1 \<and> \<not> iv_update then iv_recover iv_index iv_update s
        else if \<not> iv_update then (False, s)
        else if iv_index \<noteq> bm_iv_index n + 1 then (False, s)
        else iv_checked iv_index iv_update s)"

section \<open>Authenticated beacons\<close>

definition auth_match :: "subnet_keys \<Rightarrow> bytes \<Rightarrow> u8 \<Rightarrow> u32 \<Rightarrow> bytes \<Rightarrow> bool" where
  "auth_match keys net_id flags iv_index auth =
     (if take 8 net_id \<noteq> take 8 (sk_net_id keys) then False
      else case bt_mesh_beacon_auth (sk_beacon keys) flags (sk_net_id keys) iv_index of
             Inl err \<Rightarrow> False
           | Inr net_auth \<Rightarrow> take 8 auth = take 8 net_auth)"

fun subnet_find_from :: "nat \<Rightarrow> bt_mesh_subnet list \<Rightarrow> bytes \<Rightarrow> u8 \<Rightarrow> u32 \<Rightarrow> bytes \<Rightarrow> (nat \<times> bool) option" where
  "subnet_find_from i [] net_id flags iv_index auth = None"
| "subnet_find_from i (sub # subs) net_id flags iv_index auth =
     (if sn_net_idx sub = BT_MESH_KEY_UNUSED then subnet_find_from (i + 1) subs net_id flags iv_index auth
      else if auth_match (sn_key0 sub) net_id flags iv_index auth then Some (i, False)
      else if sn_kr_phase sub = BT_MESH_KR_NORMAL then subnet_find_from (i + 1) subs net_id flags iv_index auth
      else if auth_match (sn_key1 sub) net_id flags iv_index auth then Some (i, True)
      else subnet_find_from (i + 1) subs net_id flags iv_index auth)"

definition bt_mesh_subnet_find :: "mesh \<Rightarrow> bytes \<Rightarrow> u8 \<Rightarrow> u32 \<Rightarrow> bytes \<Rightarrow> (nat \<times> bool) option" where
  "bt_mesh_subnet_find s net_id flags iv_index auth =
     subnet_find_from 0 (bm_sub (ms_net s)) net_id flags iv_index auth"

section \<open>Friendship credentials\<close>

text \<open>
  The credential table of builds with the Friend feature; the node build compiles the stub of
  \<^verbatim>\<open>friend_cred_get\<close> that always returns \<^verbatim>\<open>-ENOENT\<close>. The table is passed explicitly.
\<close>

record friend_cred_keys =
  fk_nid :: u8
  fk_enc :: bytes
  fk_privacy :: bytes

record friend_cred =
  fc_net_idx :: u16
  fc_addr :: u16
  fc_lpn_counter :: u16
  fc_frnd_counter :: u16
  fc_cred0 :: friend_cred_keys
  fc_cred1 :: friend_cred_keys

definition friend_cred_set :: "mesh \<Rightarrow> friend_cred \<Rightarrow> bool \<Rightarrow> bytes \<Rightarrow> errno option \<times> friend_cred" where
  "friend_cred_set s cred idx net_key =
     (let p = 0x01 # sys_put_be16 (fc_addr cred) @ sys_put_be16 (bt_mesh_primary_addr s)
                @ sys_put_be16 (fc_lpn_counter cred) @ sys_put_be16 (fc_frnd_counter cred)
      in case bt_mesh_k2 net_key p of
           Inl err \<Rightarrow> (Some err, cred)
         | Inr (nid, enc, privacy) \<Rightarrow>
             let k = \<lparr>fk_nid = nid, fk_enc = enc, fk_privacy = privacy\<rparr>
             in (None, if idx then cred\<lparr>fc_cred1 := k\<rparr> else cred\<lparr>fc_cred0 := k\<rparr>))"

definition friend_cred_refresh :: "u16 \<Rightarrow> friend_cred list \<Rightarrow> friend_cred list" where
  "friend_cred_refresh net_idx fcs =
     map (\<lambda>cred. if fc_addr cred \<noteq> BT_MESH_ADDR_UNASSIGNED \<and> fc_net_idx cred = net_idx
                 then cred\<lparr>fc_cred0 := fc_cred1 cred\<rparr> else cred) fcs"

fun friend_cred_update :: "mesh \<Rightarrow> bt_mesh_subnet \<Rightarrow> friend_cred list \<Rightarrow> errno option \<times> friend_cred list" where
  "friend_cred_update s sub [] = (None, [])"
| "friend_cred_update s sub (cred # fcs) =
     (if fc_addr cred = BT_MESH_ADDR_UNASSIGNED \<or> fc_net_idx cred \<noteq> sn_net_idx sub
      then map_prod id (\<lambda>r. cred # r) (friend_cred_update s sub fcs)
      else case friend_cred_set s cred True (sk_net (sn_key1 sub)) of
             (Some err, cred) \<Rightarrow> (Some err, cred # fcs)
           | (None, cred) \<Rightarrow> map_prod id (\<lambda>r. cred # r) (friend_cred_update s sub fcs))"

definition friend_cred_clear :: "friend_cred \<Rightarrow> friend_cred" where
  "friend_cred_clear cred =
     (let z = \<lparr>fk_nid = 0, fk_enc = replicate 16 0, fk_privacy = replicate 16 0\<rparr>
      in cred\<lparr>fc_net_idx := BT_MESH_KEY_UNUSED, fc_addr := BT_MESH_ADDR_UNASSIGNED,
              fc_lpn_counter := 0, fc_frnd_counter := 0, fc_cred0 := z, fc_cred1 := z\<rparr>)"

definition friend_cred_create ::
  "mesh \<Rightarrow> bt_mesh_subnet \<Rightarrow> u16 \<Rightarrow> u16 \<Rightarrow> u16 \<Rightarrow> friend_cred list \<Rightarrow> nat option \<times> friend_cred list" where
  "friend_cred_create s sub addr lpn_counter frnd_counter fcs =
     (case find_index (\<lambda>c. fc_addr c = BT_MESH_ADDR_UNASSIGNED \<or>
                           (fc_addr c = addr \<and> fc_net_idx c = sn_net_idx sub)) fcs of
        None \<Rightarrow> (None, fcs)
      | Some i \<Rightarrow>
          let cred = (fcs ! i)\<lparr>fc_net_idx := sn_net_idx sub, fc_addr := addr,
                       fc_lpn_counter := lpn_counter, fc_frnd_counter := frnd_counter\<rparr> in
          (case friend_cred_set s cred False (sk_net (sn_key0 sub)) of
             (Some err, cred) \<Rightarrow> (None, fcs[i := friend_cred_clear cred])
           | (None, cred) \<Rightarrow>
               if sn_kr_flag sub then
                 (case friend_cred_set s cred True (sk_net (sn_key1 sub)) of
                    (Some err, cred) \<Rightarrow> (None, fcs[i := friend_cred_clear cred])
                  | (None, cred) \<Rightarrow> (Some i, fcs[i := cred]))
               else (Some i, fcs[i := cred])))"

definition friend_cred_del :: "u16 \<Rightarrow> u16 \<Rightarrow> friend_cred list \<Rightarrow> errno option \<times> friend_cred list" where
  "friend_cred_del net_idx addr fcs =
     (case find_index (\<lambda>c. fc_addr c = addr \<and> fc_net_idx c = net_idx) fcs of
        None \<Rightarrow> (Some ENOENT, fcs)
      | Some i \<Rightarrow> (None, fcs[i := friend_cred_clear (fcs ! i)]))"

definition friend_cred_get :: "bt_mesh_subnet \<Rightarrow> u16 \<Rightarrow> friend_cred list \<Rightarrow> errno + friend_cred_keys" where
  "friend_cred_get sub addr fcs =
     (case find_index (\<lambda>c. fc_net_idx c = sn_net_idx sub \<and>
                           (addr = BT_MESH_ADDR_UNASSIGNED \<or> fc_addr c = addr)) fcs of
        None \<Rightarrow> Inl ENOENT
      | Some i \<Rightarrow> Inr (if sn_kr_flag sub then fc_cred1 (fcs ! i) else fc_cred0 (fcs ! i)))"

section \<open>What the updates leave alone\<close>

lemma upd_net_sel [simp]: "ms_net (upd_net f s) = f (ms_net s)"
  by (simp add: upd_net_def)

lemma work_net [simp]:
  "ms_net (k_delayed_work_cancel w s) = ms_net s" "ms_net (k_delayed_work_submit w d s) = ms_net s"
  "ms_net (k_work_submit w s) = ms_net s"
  by (simp_all add: k_delayed_work_cancel_def k_delayed_work_submit_def k_work_submit_def Let_def)

lemma upd_sub_net [simp]: "ms_net (upd_sub i f s) = (ms_net s)\<lparr>bm_sub := upd_at i f (bm_sub (ms_net s))\<rparr>"
  by (simp add: upd_sub_def)

lemma beacon_update_net [simp]:
  "bm_iv_index (ms_net (snd (bt_mesh_net_beacon_update i s))) = bm_iv_index (ms_net s)"
  "bm_seq (ms_net (snd (bt_mesh_net_beacon_update i s))) = bm_seq (ms_net s)"
  "bm_iv_update (ms_net (snd (bt_mesh_net_beacon_update i s))) = bm_iv_update (ms_net s)"
  "bm_rpl (ms_net (snd (bt_mesh_net_beacon_update i s))) = bm_rpl (ms_net s)"
  "bm_last_update (ms_net (snd (bt_mesh_net_beacon_update i s))) = bm_last_update (ms_net s)"
  by (simp_all add: bt_mesh_net_beacon_update_def Let_def split: sum.splits)

lemma iv_beacons_net [simp]:
  "bm_iv_index (ms_net (iv_beacons s)) = bm_iv_index (ms_net s)"
  "bm_seq (ms_net (iv_beacons s)) = bm_seq (ms_net s)"
  "bm_iv_update (ms_net (iv_beacons s)) = bm_iv_update (ms_net s)"
  "bm_rpl (ms_net (iv_beacons s)) = bm_rpl (ms_net s)"
  "bm_last_update (ms_net (iv_beacons s)) = bm_last_update (ms_net s)"
  unfolding iv_beacons_def
  by (rule fold_unchanged [where f = "\<lambda>s. bm_iv_index (ms_net s)"], simp)
    (rule fold_unchanged [where f = "\<lambda>s. bm_seq (ms_net s)"]
      fold_unchanged [where f = "\<lambda>s. bm_iv_update (ms_net s)"]
      fold_unchanged [where f = "\<lambda>s. bm_rpl (ms_net s)"]
      fold_unchanged [where f = "\<lambda>s. bm_last_update (ms_net s)"], simp)+

lemma rpl_reset_net [simp]:
  "ms_net (bt_mesh_rpl_reset s) = (ms_net s)\<lparr>bm_rpl := map rpl_reset_entry (bm_rpl (ms_net s))\<rparr>"
  "ms_net (bt_mesh_rpl_clear s) = (ms_net s)\<lparr>bm_rpl := map (\<lambda>_. rpl_clear_entry) (bm_rpl (ms_net s))\<rparr>"
  by (simp_all add: bt_mesh_rpl_reset_def bt_mesh_rpl_clear_def)

section \<open>The IV Index procedure is safe\<close>

text \<open>The IV Index outgoing PDUs are encrypted with, \<^verbatim>\<open>BT_MESH_NET_IVI_TX\<close>.\<close>

definition BT_MESH_NET_IVI_TX :: "mesh \<Rightarrow> u32" where
  "BT_MESH_NET_IVI_TX s = bm_iv_index (ms_net s) - (if bm_iv_update (ms_net s) then 1 else 0)"

lemma iv_do_update_net:
  "iv_do_update iv upd s = (True, s') \<Longrightarrow>
   bm_iv_index (ms_net s') = (if upd then iv else bm_iv_index (ms_net s)) \<and>
   bm_iv_update (ms_net s') = upd \<and>
   bm_seq (ms_net s') = (if upd then bm_seq (ms_net s) else 0) \<and>
   bm_last_update (ms_net s') = k_uptime_get s"
  by (auto simp: iv_do_update_def Let_def k_uptime_get_def upd_net_def bt_mesh_rpl_reset_def
      k_delayed_work_submit_def k_delayed_work_cancel_def)

lemmas iv_defs = bt_mesh_net_iv_update_def iv_checked_def iv_recover_def Let_def

lemma iv_do_update_True: "fst (iv_do_update iv upd s)"
  by (simp add: iv_do_update_def Let_def)

lemma iv_update_cases:
  assumes "bt_mesh_net_iv_update iv upd s = (r, s')"
  obtains (refused) "\<not> r" "s' = s \<or> s' = upd_net (\<lambda>n. n\<lparr>bm_pending_update := True\<rparr>) s"
  | (complete) "r" "bm_iv_update (ms_net s)" "\<not> upd" "iv = bm_iv_index (ms_net s)"
      "iv_do_update iv upd s = (True, s')" "int (K_HOURS 96) \<le> k_uptime_get s - bm_last_update (ms_net s)"
      "\<not> bt_mesh_tx_in_progress s"
  | (enter) "r" "\<not> bm_iv_update (ms_net s)" "upd" "iv = bm_iv_index (ms_net s) + 1" "bm_iv_index (ms_net s) \<le> iv"
      "iv_do_update iv upd s = (True, s')" "int (K_HOURS 96) \<le> k_uptime_get s - bm_last_update (ms_net s)"
  | (recover) "r" "\<not> bm_iv_update (ms_net s)" "bm_iv_index (ms_net s) \<le> iv" "iv \<noteq> bm_iv_index (ms_net s)"
      "iv \<le> bm_iv_index (ms_net s) + 42"
      "bm_iv_index (ms_net s) + 1 < iv \<or> iv = bm_iv_index (ms_net s) + 1 \<and> \<not> upd"
      "iv_do_update iv upd (upd_net (\<lambda>n. n\<lparr>bm_iv_index := iv, bm_seq := 0\<rparr>) (bt_mesh_rpl_clear s)) = (True, s')"
proof -
  have T: "iv_do_update a b c = (r, s') \<Longrightarrow> r \<and> iv_do_update a b c = (True, s')" for a b c
    using iv_do_update_True [of a b c] by auto
  show thesis
    using assms by (auto simp: iv_defs split: if_splits dest!: T intro: that simp: not_less)
qed

lemma iv_update_mono:
  "bm_iv_index (ms_net s) \<le> bm_iv_index (ms_net (snd (bt_mesh_net_iv_update iv upd s)))"
proof -
  obtain r s' where u: "bt_mesh_net_iv_update iv upd s = (r, s')" by fastforce
  then have "bm_iv_index (ms_net s) \<le> bm_iv_index (ms_net s')"
    by (cases rule: iv_update_cases) (auto dest!: iv_do_update_net)
  with u show ?thesis by simp
qed

text \<open>
  The IV Index never goes back: no call of \<^verbatim>\<open>bt_mesh_net_iv_update\<close>, whatever its arguments and the
  state of the node, decreases \<^verbatim>\<open>bt_mesh.iv_index\<close>.
\<close>

theorem iv_update_monotone:
  "bm_iv_index (ms_net s) \<le> bm_iv_index (ms_net (snd (bt_mesh_net_iv_update iv upd s)))"
  by (rule iv_update_mono)

lemma ivi_arith:
  fixes x y :: u32
  shows "x \<le> y \<Longrightarrow> x \<noteq> y \<Longrightarrow> x + 1 < y \<Longrightarrow> x < y - 1" "x \<noteq> 0 \<Longrightarrow> x - 1 < x"
    "x \<le> y \<Longrightarrow> x \<noteq> y \<Longrightarrow> x < y"
  by uint_arith+

text \<open>
  C24. The IV Index procedure never makes a nonce position reusable: either the pair of transmit IV
  Index and sequence number stays as it was, or the transmit IV Index strictly grows. The node must
  not be in the IV Update state with IV Index 0.
\<close>

theorem iv_update_fresh_nonce:
  assumes "bm_iv_update (ms_net s) \<longrightarrow> bm_iv_index (ms_net s) \<noteq> 0"
    and "bt_mesh_net_iv_update iv upd s = (r, s')"
  shows "BT_MESH_NET_IVI_TX s' = BT_MESH_NET_IVI_TX s \<and> bm_seq (ms_net s') = bm_seq (ms_net s)
         \<or> BT_MESH_NET_IVI_TX s < BT_MESH_NET_IVI_TX s'"
  using assms(2)
proof (cases rule: iv_update_cases)
  case refused
  then show ?thesis by (auto simp: BT_MESH_NET_IVI_TX_def)
next
  case complete
  with assms(1) show ?thesis
    by (auto simp: BT_MESH_NET_IVI_TX_def ivi_arith(2) dest!: iv_do_update_net)
next
  case enter
  then show ?thesis by (auto simp: BT_MESH_NET_IVI_TX_def dest!: iv_do_update_net)
next
  case recover
  from iv_do_update_net [OF recover(7)] have s': "bm_iv_index (ms_net s') = iv" "bm_iv_update (ms_net s') = upd"
    by (auto split: if_splits)
  show ?thesis
  proof (cases upd)
    case True
    with recover(6) have "bm_iv_index (ms_net s) + 1 < iv" by auto
    from ivi_arith(1) [OF recover(3) _ this] recover(4) s' recover(2) True show ?thesis
      by (auto simp: BT_MESH_NET_IVI_TX_def)
  next
    case False
    with ivi_arith(3) [OF recover(3)] recover(2,4) s' show ?thesis
      by (auto simp: BT_MESH_NET_IVI_TX_def)
  qed
qed

text \<open>
  C30. A change of the IV Update state other than an index recovery happens only after 96 hours in
  the current state, returning to normal operation only when no segmented transmission is
  outstanding, and it restarts the 96 hour period.
\<close>

theorem iv_update_min_duration:
  assumes "bt_mesh_net_iv_update iv upd s = (True, s')"
    and "bm_iv_update (ms_net s) \<or> upd \<and> iv = bm_iv_index (ms_net s) + 1"
  shows "int (K_HOURS 96) \<le> k_uptime_get s - bm_last_update (ms_net s) \<and>
         bm_iv_update (ms_net s') = (\<not> bm_iv_update (ms_net s)) \<and>
         (\<not> bm_iv_update (ms_net s') \<longrightarrow> \<not> bt_mesh_tx_in_progress s) \<and>
         bm_last_update (ms_net s') = k_uptime_get s"
  using assms(1)
proof (cases rule: iv_update_cases)
  case recover
  with assms(2) show ?thesis by auto
qed (auto dest!: iv_do_update_net)

section \<open>Key refresh\<close>

text \<open>The phase of a subnet determines which key it transmits with.\<close>

definition kr_inv :: "bt_mesh_subnet \<Rightarrow> bool" where
  "kr_inv sub \<longleftrightarrow> sn_kr_phase sub \<in> {BT_MESH_KR_NORMAL, BT_MESH_KR_PHASE_1, BT_MESH_KR_PHASE_2} \<and>
     (sn_kr_flag sub \<longleftrightarrow> sn_kr_phase sub = BT_MESH_KR_PHASE_2)"

lemmas kr_consts = BT_MESH_KR_NORMAL_def BT_MESH_KR_PHASE_1_def BT_MESH_KR_PHASE_2_def

lemma get_upd_sub [simp]:
  "i < length (bm_sub (ms_net s)) \<Longrightarrow> get_sub (upd_sub i f s) i = f (get_sub s i)"
  by (simp add: get_sub_def nth_upd_at)

lemma get_upd_sub_other: "j \<noteq> i \<Longrightarrow> get_sub (upd_sub i f s) j = get_sub s j"
  by (simp add: get_sub_def upd_at_def)

lemma revoke_keys_sub:
  "i < length (bm_sub (ms_net s)) \<Longrightarrow>
   get_sub (bt_mesh_net_revoke_keys i s) i = (get_sub s i)\<lparr>sn_key0 := sn_key1 (get_sub s i)\<rparr>"
  "length (bm_sub (ms_net (bt_mesh_net_revoke_keys i s))) = length (bm_sub (ms_net s))"
  by (simp_all add: bt_mesh_net_revoke_keys_def Let_def get_sub_def nth_upd_at)

text \<open>The update as a function of the subnet alone.\<close>

definition kr_step :: "u8 \<Rightarrow> bool \<Rightarrow> bt_mesh_subnet \<Rightarrow> bool \<times> bt_mesh_subnet" where
  "kr_step new_kr new_key sub =
     (if new_kr \<noteq> of_bool (sn_kr_flag sub) \<and> sn_kr_phase sub = BT_MESH_KR_NORMAL then (False, sub)
      else let sub = sub\<lparr>sn_kr_flag := (new_kr \<noteq> 0)\<rparr> in
        if new_kr \<noteq> 0 then
          if sn_kr_phase sub = BT_MESH_KR_PHASE_1 then (True, sub\<lparr>sn_kr_phase := BT_MESH_KR_PHASE_2\<rparr>) else (False, sub)
        else if sn_kr_phase sub = BT_MESH_KR_PHASE_1 \<and> new_key \<or> sn_kr_phase sub = BT_MESH_KR_PHASE_2
        then (True, sub\<lparr>sn_key0 := sn_key1 sub, sn_kr_phase := BT_MESH_KR_NORMAL\<rparr>)
        else (False, sub))"

lemma kr_update_step:
  assumes "i < length (bm_sub (ms_net s))" "bt_mesh_kr_update i new_kr new_key s = (r, s')"
  shows "kr_step new_kr new_key (get_sub s i) = (r, get_sub s' i)"
  using assms(2)
  by (auto simp: bt_mesh_kr_update_def kr_step_def Let_def revoke_keys_sub assms(1) split: if_splits)


definition kr_demo :: mesh where
  "kr_demo = upd_sub 0 (\<lambda>sub. sub\<lparr>sn_kr_flag := True, sn_kr_phase := 2,
     sn_key1 := subnet_keys0\<lparr>sk_nid := 5\<rparr>\<rparr>) mesh0"


definition iv_demo :: mesh where
  "iv_demo = upd_net (\<lambda>n. n\<lparr>bm_iv_index := 7, bm_iv_update := True, bm_seq := 0x100\<rparr>) (mesh0\<lparr>ms_now := K_HOURS 100\<rparr>)"

lemma iv_demo_net:
  "bm_iv_index (ms_net iv_demo) = 7" "bm_iv_update (ms_net iv_demo)" "bm_seq (ms_net iv_demo) = 0x100"
  by (simp_all add: iv_demo_def)

lemma iv_demo_run:
  "bt_mesh_net_iv_update 7 False iv_demo = iv_do_update 7 False iv_demo"
  by (simp add: bt_mesh_net_iv_update_def iv_checked_def iv_demo_def k_uptime_get_def K_HOURS_def mesh0_def
      bt_mesh_net0_def bt_mesh_tx_in_progress_def seg_tx0_def upd_net_def)

theorem iv_update_fresh_nonce_witness:
  "BT_MESH_NET_IVI_TX iv_demo < BT_MESH_NET_IVI_TX (snd (bt_mesh_net_iv_update 7 False iv_demo))"
proof -
  have "iv_do_update 7 False iv_demo = (True, snd (iv_do_update 7 False iv_demo))"
    by (simp add: iv_do_update_def Let_def)
  from iv_do_update_net [OF this]
  have new: "BT_MESH_NET_IVI_TX (snd (bt_mesh_net_iv_update 7 False iv_demo)) = 7"
    by (simp add: iv_demo_run BT_MESH_NET_IVI_TX_def iv_demo_net)
  have old: "BT_MESH_NET_IVI_TX iv_demo = 6" "bm_iv_index (ms_net iv_demo) \<noteq> 0"
    by (simp_all add: BT_MESH_NET_IVI_TX_def iv_demo_net)
  from iv_update_fresh_nonce [of iv_demo 7 False "fst (bt_mesh_net_iv_update 7 False iv_demo)"
      "snd (bt_mesh_net_iv_update 7 False iv_demo)"] old new
  show ?thesis by simp
qed

theorem iv_update_min_duration_witness:
  "int (K_HOURS 96) \<le> k_uptime_get iv_demo - bm_last_update (ms_net iv_demo) \<and>
   \<not> bm_iv_update (ms_net (snd (bt_mesh_net_iv_update 7 False iv_demo)))"
proof -
  have "bt_mesh_net_iv_update 7 False iv_demo = (True, snd (bt_mesh_net_iv_update 7 False iv_demo))"
    by (simp add: iv_demo_run iv_do_update_def Let_def)
  from iv_update_min_duration [OF this] show ?thesis by (simp add: iv_demo_net)
qed

section \<open>Which beacons authenticate\<close>

definition sub_matches :: "bt_mesh_subnet \<Rightarrow> bytes \<Rightarrow> u8 \<Rightarrow> u32 \<Rightarrow> bytes \<Rightarrow> bool \<Rightarrow> bool" where
  "sub_matches sub net_id flags iv auth new_key \<longleftrightarrow>
     sn_net_idx sub \<noteq> BT_MESH_KEY_UNUSED \<and> auth_match (sn_keys sub new_key) net_id flags iv auth \<and>
     (new_key \<longrightarrow> sn_kr_phase sub \<noteq> BT_MESH_KR_NORMAL)"

lemma subnet_find_from_sound:
  "subnet_find_from i subs net_id flags iv auth = Some (j, new_key) \<Longrightarrow>
   i \<le> j \<and> j - i < length subs \<and> sub_matches (subs ! (j - i)) net_id flags iv auth new_key"
proof (induction subs arbitrary: i)
  case (Cons sub subs)
  have step: "subnet_find_from (i + 1) subs net_id flags iv auth = Some (j, new_key) \<Longrightarrow> ?case"
  proof -
    assume "subnet_find_from (i + 1) subs net_id flags iv auth = Some (j, new_key)"
    from Cons.IH [OF this] have j: "i + 1 \<le> j" "j - (i + 1) < length subs"
      "sub_matches (subs ! (j - (i + 1))) net_id flags iv auth new_key" by auto
    then have "j - i = Suc (j - (i + 1))" by simp
    with j show ?case by simp
  qed
  show ?case
    using Cons.prems step by (auto simp: sub_matches_def sn_keys_def split: if_splits)
qed simp

lemma subnet_find_from_None:
  "subnet_find_from i subs net_id flags iv auth = None \<longleftrightarrow>
   (\<forall>sub\<in>set subs. \<forall>new_key. \<not> sub_matches sub net_id flags iv auth new_key)"
proof (induction subs arbitrary: i)
  case (Cons sub subs)
  have "(\<forall>new_key. \<not> sub_matches sub net_id flags iv auth new_key) \<longleftrightarrow>
      sn_net_idx sub = BT_MESH_KEY_UNUSED \<or> \<not> auth_match (sn_key0 sub) net_id flags iv auth \<and>
      (sn_kr_phase sub = BT_MESH_KR_NORMAL \<or> \<not> auth_match (sn_key1 sub) net_id flags iv auth)"
    by (auto simp: sub_matches_def sn_keys_def all_bool_eq)
  with Cons.IH [of "i + 1"] show ?case by auto
qed simp

text \<open>
  A secure network beacon is attributed to a subnet exactly when some subnet in use has a key
  (the new key only during a key refresh) whose Network ID and authentication value it carries; the
  subnet and the key generation reported are such a match.
\<close>

theorem subnet_find_correct:
  "case bt_mesh_subnet_find s net_id flags iv auth of
     Some (i, new_key) \<Rightarrow> i < length (bm_sub (ms_net s)) \<and> sub_matches (get_sub s i) net_id flags iv auth new_key
   | None \<Rightarrow> \<not> (\<exists>sub new_key. sub \<in> set (bm_sub (ms_net s)) \<and> sub_matches sub net_id flags iv auth new_key)"
  using subnet_find_from_sound [of 0 "bm_sub (ms_net s)" net_id flags iv auth]
    subnet_find_from_None [of 0 "bm_sub (ms_net s)" net_id flags iv auth]
  by (auto simp: bt_mesh_subnet_find_def get_sub_def split: option.splits)

lemma beacon_auth_total: "\<exists>a. bt_mesh_beacon_auth key flags net_id iv = Inr a \<and> length a = 8"
  by (simp add: bt_mesh_beacon_auth_def cmac_one_spec)

lemma keys_create_total: "\<exists>keys'. bt_mesh_net_keys_create keys key = (None, keys') \<and> sk_net keys' = key
    \<and> length (sk_net_id keys') = 8"
proof -
  have "length ([0] :: bytes) mod 16 \<noteq> 15" by simp
  with k2_total [of "[0]" key] k3_total [of key] id128_total [of key "''nkik''"]
    id128_total [of key "''nkbk''"] show ?thesis
    by (auto simp: bt_mesh_net_keys_create_def bt_mesh_identity_key_def bt_mesh_beacon_key_def Let_def
        split: sum.splits prod.splits)
qed

end
