(* ===== verification/Prov_Link.thy ===== *)
theory Prov_Link
  imports Adv
begin

text \<open>
  The operations on the provisioning link of \<^verbatim>\<open>bt_mesh/src/prov.c\<close> that the GATT proxy calls when a
  connection enables or loses the provisioning service, and the attention timer of
  \<^verbatim>\<open>bt_mesh/src/health_srv.c\<close> they switch off. The rest of the provisioning protocol is in theory \<^verbatim>\<open>Prov\<close>.
  The attention callbacks are the application's: they are the event \<open>Ev_Attention\<close>.
\<close>

definition upd_link :: "(prov_link \<Rightarrow> prov_link) \<Rightarrow> mesh \<Rightarrow> mesh" where
  "upd_link f s = s\<lparr>ms_link := f (ms_link s)\<rparr>"

definition PROV_INVITE :: u8 where "PROV_INVITE = 0x00"

section \<open>The attention timer\<close>

text \<open>A missing model is \<^verbatim>\<open>NULL\<close>: the server of the primary element.\<close>

definition bt_mesh_attention :: "model_ref option \<Rightarrow> u8 \<Rightarrow> mesh \<Rightarrow> mesh" where
  "bt_mesh_attention mdl time s =
     (case (case mdl of None \<Rightarrow> ms_p_health_srv s | Some m \<Rightarrow> Some m) of
        None \<Rightarrow> s
      | Some m \<Rightarrow>
          if time \<noteq> 0
          then k_delayed_work_submit (W_Attn m) (unat time * 1000) (log_ev (Ev_Attention m True) s)
          else log_ev (Ev_Attention m False) (k_delayed_work_cancel (W_Attn m) s))"

definition attention_off_cb :: "model_ref \<Rightarrow> mesh \<Rightarrow> mesh" where
  "attention_off_cb m s = log_ev (Ev_Attention m False) s"

section \<open>Provisioning over GATT\<close>

definition bt_mesh_pb_gatt_open :: "nat \<Rightarrow> mesh \<Rightarrow> errno option \<times> mesh" where
  "bt_mesh_pb_gatt_open conn s =
     (if lk_active (ms_link s) then (Some EBUSY, s)
      else
        let s = upd_link (\<lambda>l. l\<lparr>lk_active := True, lk_conn := Some conn, lk_expect := PROV_INVITE\<rparr>) s
        in (None, if pv_link_open (ms_prov s) then log_ev (Ev_Link_Open BT_MESH_PROV_GATT) s else s))"

text \<open>
  The whole structure is cleared, the receive buffer pointer and the retransmission timer
  included; only the flag for the local public key is kept.
\<close>

definition bt_mesh_pb_gatt_close :: "nat \<Rightarrow> mesh \<Rightarrow> errno option \<times> mesh" where
  "bt_mesh_pb_gatt_close conn s =
     (if lk_conn (ms_link s) \<noteq> Some conn then (Some ENOTCONN, s)
      else
        let s = (if byte_at (lk_conf_inputs (ms_link s)) 0 \<noteq> 0 then bt_mesh_attention None 0 s else s);
            s = (if pv_link_close (ms_prov s) then log_ev (Ev_Link_Close BT_MESH_PROV_GATT) s else s);
            pub_key = lk_local_pub_key (ms_link s);
            s = k_delayed_work_init W_Prov_Retransmit s
        in (None, upd_link (\<lambda>_. prov_link0\<lparr>lk_local_pub_key := pub_key\<rparr>) s))"

end
