(* ===== verification/Proxy_Out.thy ===== *)
theory Proxy_Out
  imports Net_Keys Prov_Link
begin

text \<open>
  The part of \<^verbatim>\<open>bt_mesh/src/proxy.c\<close> that sends: the client table, the address filters, the
  segmentation of Proxy PDUs and the hooks the network layer calls, with \<^verbatim>\<open>bt_mesh_beacon_create\<close> of
  \<^verbatim>\<open>beacon.c\<close> that they need, and the connection and service handlers that only change the client
  table. Receiving from a client is in \<^verbatim>\<open>Proxy_In\<close>. A notification is the event \<open>Ev_Gatt_Notify\<close>;
  its result and the ATT MTU are the host's (\<open>ms_notify_rc\<close>, \<open>ms_mtu\<close>).

  The filters are bounded sets of addresses: the locale \<open>bounded_set\<close> states that contract, and
  the list the C code keeps is an interpretation of it. For the segmentation the theorems say
  which bytes a client sees.
\<close>

section \<open>Clients and filters\<close>

definition get_client :: "mesh \<Rightarrow> nat \<Rightarrow> bt_mesh_proxy_client" where
  "get_client s i = ms_clients s ! i"

definition upd_client :: "nat \<Rightarrow> (bt_mesh_proxy_client \<Rightarrow> bt_mesh_proxy_client) \<Rightarrow> mesh \<Rightarrow> mesh" where
  "upd_client i f s = s\<lparr>ms_clients := upd_at i f (ms_clients s)\<rparr>"

definition find_client :: "mesh \<Rightarrow> nat option \<Rightarrow> nat option" where
  "find_client s conn = find_index (\<lambda>c. cl_conn c = conn) (ms_clients s)"

definition filter_set :: "bt_mesh_proxy_client \<Rightarrow> net_buf_simple \<Rightarrow> errno option \<times> bt_mesh_proxy_client \<times> net_buf_simple" where
  "filter_set client buf =
     (if nb_len buf < 1 then (Some EINVAL, client, buf)
      else let (type, buf) = net_buf_simple_pull_u8 buf in
        if type = 0x00 then
          (None, client\<lparr>cl_filter := map (\<lambda>_. 0) (cl_filter client), cl_filter_type := FT_WHITELIST\<rparr>, buf)
        else if type = 0x01 then
          (None, client\<lparr>cl_filter := map (\<lambda>_. 0) (cl_filter client), cl_filter_type := FT_BLACKLIST\<rparr>, buf)
        else (Some EINVAL, client, buf))"

definition filter_add_list :: "u16 \<Rightarrow> u16 list \<Rightarrow> u16 list" where
  "filter_add_list addr fl =
     (if addr = BT_MESH_ADDR_UNASSIGNED then fl
      else case find_index (\<lambda>a. a = addr) fl of
             Some i \<Rightarrow> fl
           | None \<Rightarrow> (case find_index (\<lambda>a. a = BT_MESH_ADDR_UNASSIGNED) fl of
                        Some i \<Rightarrow> fl[i := addr]
                      | None \<Rightarrow> fl))"

definition filter_add :: "bt_mesh_proxy_client \<Rightarrow> u16 \<Rightarrow> bt_mesh_proxy_client" where
  "filter_add client addr = client\<lparr>cl_filter := filter_add_list addr (cl_filter client)\<rparr>"

definition filter_remove_list :: "u16 \<Rightarrow> u16 list \<Rightarrow> u16 list" where
  "filter_remove_list addr fl =
     (if addr = BT_MESH_ADDR_UNASSIGNED then fl
      else case find_index (\<lambda>a. a = addr) fl of
             Some i \<Rightarrow> fl[i := BT_MESH_ADDR_UNASSIGNED]
           | None \<Rightarrow> fl)"

definition filter_remove :: "bt_mesh_proxy_client \<Rightarrow> u16 \<Rightarrow> bt_mesh_proxy_client" where
  "filter_remove client addr = client\<lparr>cl_filter := filter_remove_list addr (cl_filter client)\<rparr>"

definition client_filter_match :: "bt_mesh_proxy_client \<Rightarrow> u16 \<Rightarrow> bool" where
  "client_filter_match client addr =
     (case cl_filter_type client of
        FT_WHITELIST \<Rightarrow> find_index (\<lambda>a. a = addr) (cl_filter client) \<noteq> None
      | FT_BLACKLIST \<Rightarrow> find_index (\<lambda>a. a = addr) (cl_filter client) = None
      | FT_NONE \<Rightarrow> False
      | FT_PROV \<Rightarrow> False)"

text \<open>The client is the one whose receive buffer holds the PDU.\<close>

definition bt_mesh_proxy_addr_add :: "nat \<Rightarrow> u16 \<Rightarrow> mesh \<Rightarrow> mesh" where
  "bt_mesh_proxy_addr_add c addr s =
     (case cl_filter_type (get_client s c) of
        FT_WHITELIST \<Rightarrow> upd_client c (\<lambda>cl. filter_add cl addr) s
      | FT_BLACKLIST \<Rightarrow> upd_client c (\<lambda>cl. filter_remove cl addr) s
      | FT_NONE \<Rightarrow> s
      | FT_PROV \<Rightarrow> s)"

section \<open>Sending\<close>

definition SAR_COMPLETE :: u8 where "SAR_COMPLETE = 0x00"
definition SAR_FIRST :: u8 where "SAR_FIRST = 0x01"
definition SAR_CONT :: u8 where "SAR_CONT = 0x02"
definition SAR_LAST :: u8 where "SAR_LAST = 0x03"

definition BT_MESH_PROXY_NET_PDU :: u8 where "BT_MESH_PROXY_NET_PDU = 0x00"
definition BT_MESH_PROXY_BEACON :: u8 where "BT_MESH_PROXY_BEACON = 0x01"
definition BT_MESH_PROXY_CONFIG :: u8 where "BT_MESH_PROXY_CONFIG = 0x02"
definition BT_MESH_PROXY_PROV :: u8 where "BT_MESH_PROXY_PROV = 0x03"

definition PDU_HDR :: "u8 \<Rightarrow> u8 \<Rightarrow> u8" where
  "PDU_HDR sar type = push_bit 6 sar OR (type AND 0x3f)"

definition proxy_send :: "nat \<Rightarrow> bytes \<Rightarrow> mesh \<Rightarrow> errno option \<times> mesh" where
  "proxy_send conn data s =
     (case ms_gatt_svc s of
        MESH_GATT_PROXY \<Rightarrow> (ms_notify_rc s, log_ev (Ev_Gatt_Notify conn data) s)
      | MESH_GATT_PROV \<Rightarrow> (ms_notify_rc s, log_ev (Ev_Gatt_Notify conn data) s)
      | MESH_GATT_NONE \<Rightarrow> (None, s))"

text \<open>
  The \<^verbatim>\<open>while\<close> loop of \<^verbatim>\<open>proxy_segment_and_send\<close>. Each round consumes \<^verbatim>\<open>mtu - 1\<close> bytes, so as many
  rounds as bytes are enough when \<^verbatim>\<open>mtu\<close> is at least 2; with a smaller \<^verbatim>\<open>mtu\<close> the C loop does not
  end, which the model records as the event \<open>Ev_Hang\<close>.
\<close>

fun proxy_seg_loop :: "nat \<Rightarrow> nat \<Rightarrow> u8 \<Rightarrow> nat \<Rightarrow> net_buf_simple \<Rightarrow> mesh \<Rightarrow> mesh" where
  "proxy_seg_loop fuel conn type mtu msg s =
     (if nb_len msg = 0 then s
      else if nb_len msg + 1 < mtu then
        let msg = net_buf_simple_push_u8 msg (PDU_HDR SAR_LAST type)
        in snd (proxy_send conn (nb_data msg) s)
      else case fuel of
        0 \<Rightarrow> log_ev Ev_Hang s
      | Suc fuel' \<Rightarrow>
          let msg = net_buf_simple_push_u8 msg (PDU_HDR SAR_CONT type);
              s = snd (proxy_send conn (take mtu (nb_mem msg)) s)
          in proxy_seg_loop fuel' conn type mtu (net_buf_simple_pull msg mtu) s)"

declare proxy_seg_loop.simps [simp del]

definition proxy_segment_and_send :: "nat \<Rightarrow> u8 \<Rightarrow> net_buf_simple \<Rightarrow> mesh \<Rightarrow> errno option \<times> mesh" where
  "proxy_segment_and_send conn type msg s =
     (let mtu = u16_sub (ms_mtu s conn) 3 in
      if mtu > nb_len msg then
        let msg = net_buf_simple_push_u8 msg (PDU_HDR SAR_COMPLETE type)
        in proxy_send conn (nb_data msg) s
      else
        let msg = net_buf_simple_push_u8 msg (PDU_HDR SAR_FIRST type);
            s = snd (proxy_send conn (take mtu (nb_mem msg)) s);
            msg = net_buf_simple_pull msg mtu
        in (None, proxy_seg_loop (nb_len msg) conn type mtu msg s))"

definition bt_mesh_proxy_send :: "nat \<Rightarrow> u8 \<Rightarrow> net_buf_simple \<Rightarrow> mesh \<Rightarrow> errno option \<times> mesh" where
  "bt_mesh_proxy_send conn type msg s =
     (case find_client s (Some conn) of
        None \<Rightarrow> (Some ENOTCONN, s)
      | Some c \<Rightarrow>
          if (cl_filter_type (get_client s c) = FT_PROV) \<noteq> (type = BT_MESH_PROXY_PROV) then (Some EINVAL, s)
          else proxy_segment_and_send conn type msg s)"

definition proxy_relay_one :: "net_buf_simple \<Rightarrow> u16 \<Rightarrow> nat \<Rightarrow> bool \<times> mesh \<Rightarrow> bool \<times> mesh" where
  "proxy_relay_one buf dst i rs =
     (let (relayed, s) = rs; client = get_client s i in
      case cl_conn client of
        None \<Rightarrow> (relayed, s)
      | Some conn \<Rightarrow>
          if \<not> client_filter_match client dst then (relayed, s)
          else
            let msg = net_buf_simple_add_mem (net_buf_simple_init (NET_BUF_SIMPLE 32) 1) (nb_data buf)
            in (True, snd (bt_mesh_proxy_send conn BT_MESH_PROXY_NET_PDU msg s)))"

definition bt_mesh_proxy_relay :: "net_buf_simple \<Rightarrow> u16 \<Rightarrow> mesh \<Rightarrow> bool \<times> mesh" where
  "bt_mesh_proxy_relay buf dst s = fold (proxy_relay_one buf dst) [0..<length (ms_clients s)] (False, s)"

definition BEACON_TYPE_UNPROVISIONED :: u8 where "BEACON_TYPE_UNPROVISIONED = 0x00"
definition BEACON_TYPE_SECURE :: u8 where "BEACON_TYPE_SECURE = 0x01"

definition bt_mesh_beacon_create :: "mesh \<Rightarrow> nat \<Rightarrow> net_buf_simple \<Rightarrow> net_buf_simple" where
  "bt_mesh_beacon_create s i buf =
     (let flags = bt_mesh_net_flags s (Some i); sub = get_sub s i;
          buf = net_buf_simple_add_u8 buf BEACON_TYPE_SECURE;
          keys = (if sn_kr_flag sub then sn_key1 sub else sn_key0 sub);
          buf = net_buf_simple_add_u8 buf flags;
          buf = net_buf_simple_add_mem buf (take 8 (sk_net_id keys));
          buf = net_buf_simple_add_be32 buf (bm_iv_index (ms_net s))
      in net_buf_simple_add_mem buf (take 8 (sn_auth sub)))"

definition proxy_beacon_send :: "nat \<Rightarrow> nat \<Rightarrow> mesh \<Rightarrow> errno option \<times> mesh" where
  "proxy_beacon_send conn i s =
     (let buf = net_buf_simple_init (NET_BUF_SIMPLE 23) 1;
          buf = bt_mesh_beacon_create s i buf
      in proxy_segment_and_send conn BT_MESH_PROXY_BEACON buf s)"

text \<open>The work item of a client; its connection pointer is taken as set when the item runs.\<close>

definition proxy_send_beacons :: "nat \<Rightarrow> mesh \<Rightarrow> mesh" where
  "proxy_send_beacons c s =
     fold (\<lambda>i s. if sn_net_idx (get_sub s i) \<noteq> BT_MESH_KEY_UNUSED
                 then (case cl_conn (get_client s c) of None \<Rightarrow> s | Some conn \<Rightarrow> snd (proxy_beacon_send conn i s))
                 else s) [0..<length (bm_sub (ms_net s))] s"

definition proxy_beacon_clients :: "nat \<Rightarrow> mesh \<Rightarrow> mesh" where
  "proxy_beacon_clients i s =
     fold (\<lambda>c s. case cl_conn (get_client s c) of None \<Rightarrow> s | Some conn \<Rightarrow> snd (proxy_beacon_send conn i s))
       [0..<length (ms_clients s)] s"

definition bt_mesh_proxy_beacon_send :: "nat option \<Rightarrow> mesh \<Rightarrow> mesh" where
  "bt_mesh_proxy_beacon_send sub s =
     (case sub of
        None \<Rightarrow> fold (\<lambda>i s. if sn_net_idx (get_sub s i) \<noteq> BT_MESH_KEY_UNUSED then proxy_beacon_clients i s else s)
                  [0..<length (bm_sub (ms_net s))] s
      | Some i \<Rightarrow> proxy_beacon_clients i s)"

section \<open>Node identity\<close>

definition bt_mesh_proxy_identity_start :: "nat \<Rightarrow> mesh \<Rightarrow> mesh" where
  "bt_mesh_proxy_identity_start i s =
     (upd_sub i (\<lambda>sub. sub\<lparr>sn_node_id := 0x01, sn_node_id_start := k_uptime_get_32 s\<rparr>) s)\<lparr>ms_next_idx := i\<rparr>"

definition bt_mesh_proxy_identity_stop :: "nat \<Rightarrow> mesh \<Rightarrow> mesh" where
  "bt_mesh_proxy_identity_stop i s = upd_sub i (\<lambda>sub. sub\<lparr>sn_node_id := 0x00, sn_node_id_start := 0\<rparr>) s"

definition bt_mesh_proxy_identity_enable :: "mesh \<Rightarrow> errno option \<times> mesh" where
  "bt_mesh_proxy_identity_enable s =
     (if \<not> bt_mesh_is_provisioned s then (Some EAGAIN, s)
      else
        let (n, s) = fold (\<lambda>i (n, s).
              if sn_net_idx (get_sub s i) = BT_MESH_KEY_UNUSED then (n, s)
              else if sn_node_id (get_sub s i) = 0x02 then (n, s)
              else (n + 1, bt_mesh_proxy_identity_start i s)) [0..<length (bm_sub (ms_net s))] (0 :: nat, s)
        in (None, if n \<noteq> 0 then bt_mesh_adv_update s else s))"

section \<open>Connections and services\<close>

definition proxy_connected :: "nat \<Rightarrow> mesh \<Rightarrow> mesh" where
  "proxy_connected conn s =
     (let s = s\<lparr>ms_conn_count := ms_conn_count s + 1, ms_proxy_adv_enabled := False\<rparr>;
          s = (if ms_conn_count s < int (length (ms_clients s)) then bt_mesh_adv_update s else s)
      in case find_index (\<lambda>c. cl_conn c = None) (ms_clients s) of
           None \<Rightarrow> s
         | Some i \<Rightarrow> upd_client i (\<lambda>client. client\<lparr>cl_conn := Some conn, cl_filter_type := FT_NONE,
                        cl_filter := map (\<lambda>_. 0) (cl_filter client),
                        cl_buf := net_buf_simple_init (cl_buf client) 0\<rparr>) s)"

definition proxy_disconnected :: "nat \<Rightarrow> mesh \<Rightarrow> mesh" where
  "proxy_disconnected conn s =
     (let s = s\<lparr>ms_conn_count := ms_conn_count s - 1\<rparr>;
          s = (case find_client s (Some conn) of
                 None \<Rightarrow> s
               | Some i \<Rightarrow>
                   let s = (if cl_filter_type (get_client s i) = FT_PROV then snd (bt_mesh_pb_gatt_close conn s) else s)
                   in upd_client i (\<lambda>client. client\<lparr>cl_conn := None\<rparr>) s)
      in bt_mesh_adv_update s)"

text \<open>
  The two CCC handlers: a wrong length is an ATT error, written \<open>EINVAL\<close>; the assertion that a
  connection has a client is the result \<open>UNDEF\<close>.
\<close>

definition prov_ccc_write :: "nat \<Rightarrow> bytes \<Rightarrow> mesh \<Rightarrow> (errno + nat) \<times> mesh" where
  "prov_ccc_write conn buf s =
     (if length buf \<noteq> 2 then (Inl EINVAL, s)
      else
        let s = s\<lparr>ms_prov_ccc_val := sys_get_le16 buf\<rparr> in
        if ms_prov_ccc_val s \<noteq> 0x0001 then (Inr (length buf), s)
        else case find_client s (Some conn) of
             None \<Rightarrow> (Inl UNDEF, s)
           | Some c \<Rightarrow>
               (Inr (length buf),
                if cl_filter_type (get_client s c) = FT_NONE
                then snd (bt_mesh_pb_gatt_open conn (upd_client c (\<lambda>cl. cl\<lparr>cl_filter_type := FT_PROV\<rparr>) s))
                else s))"

definition proxy_ccc_write :: "nat \<Rightarrow> bytes \<Rightarrow> mesh \<Rightarrow> (errno + nat) \<times> mesh" where
  "proxy_ccc_write conn buf s =
     (if length buf \<noteq> 2 then (Inl EINVAL, s)
      else if sys_get_le16 buf \<noteq> 0x0001 then (Inr (length buf), s)
      else case find_client s (Some conn) of
             None \<Rightarrow> (Inl UNDEF, s)
           | Some c \<Rightarrow>
               (Inr (length buf),
                if cl_filter_type (get_client s c) = FT_NONE
                then k_work_submit (W_Send_Beacons c) (upd_client c (\<lambda>cl. cl\<lparr>cl_filter_type := FT_WHITELIST\<rparr>) s)
                else s))"

definition bt_mesh_proxy_prov_enable :: "mesh \<Rightarrow> mesh" where
  "bt_mesh_proxy_prov_enable s =
     (let s = log_ev (Ev_Gatt_Service MESH_GATT_PROV True) s
      in s\<lparr>ms_gatt_svc := MESH_GATT_PROV, ms_prov_fast_adv := True,
           ms_clients := map (\<lambda>c. if cl_conn c \<noteq> None then c\<lparr>cl_filter_type := FT_PROV\<rparr> else c) (ms_clients s)\<rparr>)"

definition bt_mesh_proxy_prov_disable :: "mesh \<Rightarrow> mesh" where
  "bt_mesh_proxy_prov_disable s =
     (let s = (log_ev (Ev_Gatt_Service MESH_GATT_PROV False) s)\<lparr>ms_gatt_svc := MESH_GATT_NONE\<rparr>
      in fold (\<lambda>i s. case cl_conn (get_client s i) of
                Some conn \<Rightarrow>
                  if cl_filter_type (get_client s i) = FT_PROV
                  then upd_client i (\<lambda>c. c\<lparr>cl_filter_type := FT_NONE\<rparr>) (snd (bt_mesh_pb_gatt_close conn s))
                  else s
              | None \<Rightarrow> s) [0..<length (ms_clients s)] s)"

definition bt_mesh_proxy_gatt_enable :: "mesh \<Rightarrow> mesh" where
  "bt_mesh_proxy_gatt_enable s =
     (let s = log_ev (Ev_Gatt_Service MESH_GATT_PROXY True) s
      in s\<lparr>ms_gatt_svc := MESH_GATT_PROXY,
           ms_clients := map (\<lambda>c. if cl_conn c \<noteq> None then c\<lparr>cl_filter_type := FT_WHITELIST\<rparr> else c) (ms_clients s)\<rparr>)"

definition bt_mesh_proxy_gatt_disconnect :: "mesh \<Rightarrow> mesh" where
  "bt_mesh_proxy_gatt_disconnect s =
     fold (\<lambda>i s. case cl_conn (get_client s i) of
                Some conn \<Rightarrow>
                  if cl_filter_type (get_client s i) = FT_WHITELIST \<or> cl_filter_type (get_client s i) = FT_BLACKLIST
                  then log_ev (Ev_Conn_Disconnect conn) (upd_client i (\<lambda>c. c\<lparr>cl_filter_type := FT_NONE\<rparr>) s)
                  else s
              | None \<Rightarrow> s) [0..<length (ms_clients s)] s"

definition bt_mesh_proxy_gatt_disable :: "mesh \<Rightarrow> mesh" where
  "bt_mesh_proxy_gatt_disable s =
     (log_ev (Ev_Gatt_Service MESH_GATT_PROXY False) (bt_mesh_proxy_gatt_disconnect s))\<lparr>ms_gatt_svc := MESH_GATT_NONE\<rparr>"

section \<open>The filters are bounded sets of addresses\<close>

text \<open>
  The contract of a table that holds a bounded set: what insertion and deletion do to the set it
  represents. An element that is not \<open>ok\<close> is refused; an insertion into a full table is dropped.
\<close>

locale bounded_set =
  fixes ins :: "'a \<Rightarrow> 'c \<Rightarrow> 'c"
    and del :: "'a \<Rightarrow> 'c \<Rightarrow> 'c"
    and elems :: "'c \<Rightarrow> 'a set"
    and cap :: "'c \<Rightarrow> nat"
    and inv :: "'c \<Rightarrow> bool"
    and ok :: "'a \<Rightarrow> bool"
  assumes inv_ins: "inv c \<Longrightarrow> inv (ins a c)"
    and inv_del: "inv c \<Longrightarrow> inv (del a c)"
    and cap_ins: "cap (ins a c) = cap c"
    and cap_del: "cap (del a c) = cap c"
    and bound: "inv c \<Longrightarrow> finite (elems c) \<and> card (elems c) \<le> cap c"
    and elems_ok: "inv c \<Longrightarrow> a \<in> elems c \<Longrightarrow> ok a"
    and elems_ins: "inv c \<Longrightarrow> ok a \<Longrightarrow> card (elems c) < cap c \<Longrightarrow> elems (ins a c) = insert a (elems c)"
    and ins_known: "inv c \<Longrightarrow> a \<in> elems c \<Longrightarrow> elems (ins a c) = elems c"
    and ins_full: "inv c \<Longrightarrow> card (elems c) = cap c \<Longrightarrow> elems (ins a c) = elems c"
    and ins_refused: "\<not> ok a \<Longrightarrow> ins a c = c"
    and elems_del: "inv c \<Longrightarrow> elems (del a c) = elems c - {a}"
begin

lemma inv_fold: "inv c \<Longrightarrow> inv (fold ins as c)" "inv c \<Longrightarrow> inv (fold del as c)"
  by (induction as arbitrary: c) (simp_all add: inv_ins inv_del)

lemma fold_del: "inv c \<Longrightarrow> elems (fold del as c) = elems c - set as"
  by (induction as arbitrary: c) (auto simp: inv_del elems_del)

lemma elems_ins_room:
  assumes "inv c" "card (insert a (elems c)) \<le> cap c" "ok a"
  shows "elems (ins a c) = insert a (elems c)"
proof (cases "a \<in> elems c")
  case True
  with ins_known [OF assms(1)] show ?thesis by auto
next
  case False
  with assms(2) bound [OF assms(1)] have "card (elems c) < cap c" by simp
  with elems_ins [OF assms(1,3)] show ?thesis by simp
qed

text \<open>Adding a list of elements that fit gives their union with the old set.\<close>

lemma fold_ins:
  "inv c \<Longrightarrow> card (elems c \<union> {a \<in> set as. ok a}) \<le> cap c \<Longrightarrow>
   elems (fold ins as c) = elems c \<union> {a \<in> set as. ok a}"
proof (induction as arbitrary: c)
  case (Cons a as)
  show ?case
  proof (cases "ok a")
    case False
    moreover have "{x \<in> set (a # as). ok x} = {x \<in> set as. ok x}" using False by auto
    ultimately show ?thesis using Cons.IH [OF Cons.prems(1)] Cons.prems(2) by (simp add: ins_refused)
  next
    case True
    let ?R = "{x \<in> set as. ok x}"
    have u: "elems c \<union> {x \<in> set (a # as). ok x} = insert a (elems c) \<union> ?R" using True by auto
    have fin: "finite (insert a (elems c) \<union> ?R)" using bound [OF Cons.prems(1)] by simp
    have "card (insert a (elems c)) \<le> card (insert a (elems c) \<union> ?R)" by (rule card_mono [OF fin]) auto
    also have "\<dots> \<le> cap c" using Cons.prems(2) u by simp
    finally have e: "elems (ins a c) = insert a (elems c)"
      using elems_ins_room [OF Cons.prems(1)] True by blast
    have "elems (fold ins as (ins a c)) = elems (ins a c) \<union> ?R"
      by (rule Cons.IH [OF inv_ins [OF Cons.prems(1)]]) (use Cons.prems(2) u in \<open>simp add: e cap_ins\<close>)
    then show ?thesis using e u by auto
  qed
qed auto

end

definition filter_elems :: "u16 list \<Rightarrow> u16 set" where
  "filter_elems fl = set fl - {BT_MESH_ADDR_UNASSIGNED}"

definition filter_inv :: "u16 list \<Rightarrow> bool" where
  "filter_inv fl \<longleftrightarrow> distinct (filter (\<lambda>a. a \<noteq> BT_MESH_ADDR_UNASSIGNED) fl)"

lemma filter_card: "filter_inv fl \<Longrightarrow> card (filter_elems fl) = length (filter (\<lambda>a. a \<noteq> BT_MESH_ADDR_UNASSIGNED) fl)"
  by (subst distinct_card [symmetric]) (auto simp: filter_inv_def filter_elems_def intro: arg_cong [where f = card])

lemma filter_slot:
  assumes "find_index P fl = Some i"
  obtains xs x ys where "fl = xs @ x # ys" "P x" "\<And>v. fl[i := v] = xs @ v # ys"
  using find_index_Some [OF assms] id_take_nth_drop [of i fl] upd_conv_take_nth_drop [of i fl] that by blast

lemma filter_free:
  assumes "card (filter_elems fl) < length fl" "filter_inv fl"
  obtains i where "find_index (\<lambda>a. a = BT_MESH_ADDR_UNASSIGNED) fl = Some i"
proof (cases "find_index (\<lambda>a. a = BT_MESH_ADDR_UNASSIGNED) fl")
  case None
  then have "filter (\<lambda>a. a \<noteq> BT_MESH_ADDR_UNASSIGNED) fl = fl" by (auto simp: find_index_None filter_id_conv)
  with assms show ?thesis by (simp add: filter_card)
qed

lemma filter_add_cases:
  obtains (known) "filter_add_list addr fl = fl"
      "addr = BT_MESH_ADDR_UNASSIGNED \<or> addr \<in> set fl \<or> BT_MESH_ADDR_UNASSIGNED \<notin> set fl"
  | (slot) xs ys where "addr \<noteq> BT_MESH_ADDR_UNASSIGNED" "addr \<notin> set fl"
      "fl = xs @ BT_MESH_ADDR_UNASSIGNED # ys" "filter_add_list addr fl = xs @ addr # ys"
proof (cases "addr = BT_MESH_ADDR_UNASSIGNED \<or> addr \<in> set fl \<or> BT_MESH_ADDR_UNASSIGNED \<notin> set fl")
  case True
  then have "addr = BT_MESH_ADDR_UNASSIGNED \<or> find_index (\<lambda>a. a = addr) fl \<noteq> None
      \<or> find_index (\<lambda>a. a = BT_MESH_ADDR_UNASSIGNED) fl = None" by (auto simp: find_index_None)
  then have "filter_add_list addr fl = fl" by (auto simp: filter_add_list_def split: option.splits)
  with known True show thesis by blast
next
  case False
  then have n: "find_index (\<lambda>a. a = addr) fl = None" by (auto simp: find_index_None)
  from False obtain i where i: "find_index (\<lambda>a. a = BT_MESH_ADDR_UNASSIGNED) fl = Some i"
    using find_index_None [of "\<lambda>a. a = BT_MESH_ADDR_UNASSIGNED" fl] by (cases "find_index (\<lambda>a. a = BT_MESH_ADDR_UNASSIGNED) fl") auto
  from filter_slot [OF i] obtain xs x ys where
    "fl = xs @ x # ys" "x = BT_MESH_ADDR_UNASSIGNED" "\<And>v. fl[i := v] = xs @ v # ys" by blast
  with slot [of xs ys] False n i show thesis by (auto simp: filter_add_list_def)
qed

lemma filter_remove_cases:
  obtains (none) "filter_remove_list addr fl = fl" "addr = BT_MESH_ADDR_UNASSIGNED \<or> addr \<notin> set fl"
  | (slot) xs ys where "addr \<noteq> BT_MESH_ADDR_UNASSIGNED" "fl = xs @ addr # ys"
      "filter_remove_list addr fl = xs @ BT_MESH_ADDR_UNASSIGNED # ys"
proof (cases "addr = BT_MESH_ADDR_UNASSIGNED \<or> addr \<notin> set fl")
  case True
  then have "addr = BT_MESH_ADDR_UNASSIGNED \<or> find_index (\<lambda>a. a = addr) fl = None" by (auto simp: find_index_None)
  then have "filter_remove_list addr fl = fl" by (auto simp: filter_remove_list_def)
  with none True show thesis by blast
next
  case False
  then obtain i where i: "find_index (\<lambda>a. a = addr) fl = Some i"
    using find_index_None [of "\<lambda>a. a = addr" fl] by (cases "find_index (\<lambda>a. a = addr) fl") auto
  from filter_slot [OF i] obtain xs x ys where
    "fl = xs @ x # ys" "x = addr" "\<And>v. fl[i := v] = xs @ v # ys" by blast
  with slot [of xs ys] False i show thesis by (auto simp: filter_remove_list_def)
qed

interpretation flt: bounded_set filter_add_list filter_remove_list filter_elems length filter_inv
  "\<lambda>a. a \<noteq> BT_MESH_ADDR_UNASSIGNED"
proof unfold_locales
  fix c :: "u16 list" and a :: u16
  let ?z = "BT_MESH_ADDR_UNASSIGNED"
  show "filter_inv c \<Longrightarrow> filter_inv (filter_add_list a c)"
    by (cases rule: filter_add_cases [of a c]) (auto simp: filter_inv_def)
  show "filter_inv c \<Longrightarrow> filter_inv (filter_remove_list a c)"
    by (cases rule: filter_remove_cases [of a c]) (auto simp: filter_inv_def)
  show "length (filter_add_list a c) = length c" by (cases rule: filter_add_cases [of a c]) auto
  show "length (filter_remove_list a c) = length c" by (cases rule: filter_remove_cases [of a c]) auto
  show "filter_inv c \<Longrightarrow> finite (filter_elems c) \<and> card (filter_elems c) \<le> length c"
    by (simp add: filter_card filter_elems_def [of c, THEN arg_cong [where f = finite]])
  show "filter_inv c \<Longrightarrow> a \<in> filter_elems c \<Longrightarrow> a \<noteq> ?z" by (simp add: filter_elems_def)
  show "filter_elems (filter_add_list a c) = insert a (filter_elems c)"
    if i: "filter_inv c" and nz: "a \<noteq> ?z" and room: "card (filter_elems c) < length c"
  proof (cases rule: filter_add_cases [of a c])
    case known
    moreover obtain i where "find_index (\<lambda>a. a = ?z) c = Some i" using filter_free [OF room i] by blast
    then have "i < length c" "c ! i = ?z" by (auto dest: find_index_Some)
    then have "?z \<in> set c" using nth_mem by metis
    ultimately show ?thesis using nz by (auto simp: filter_elems_def)
  qed (auto simp: filter_elems_def)
  show "filter_inv c \<Longrightarrow> a \<in> filter_elems c \<Longrightarrow> filter_elems (filter_add_list a c) = filter_elems c"
    by (cases rule: filter_add_cases [of a c]) (auto simp: filter_elems_def)
  show "filter_elems (filter_add_list a c) = filter_elems c" if i: "filter_inv c" and full: "card (filter_elems c) = length c"
  proof (cases rule: filter_add_cases [of a c])
    case (slot xs ys)
    have "length (filter (\<lambda>a. a \<noteq> ?z) c) = length c" using full filter_card [OF i] by simp
    with slot(3) show ?thesis using length_filter_le [of "\<lambda>a. a \<noteq> ?z" xs] length_filter_le [of "\<lambda>a. a \<noteq> ?z" ys]
      by simp
  qed simp
  show "\<not> a \<noteq> ?z \<Longrightarrow> filter_add_list a c = c" by (simp add: filter_add_list_def)
  show "filter_inv c \<Longrightarrow> filter_elems (filter_remove_list a c) = filter_elems c - {a}"
    by (cases rule: filter_remove_cases [of a c]) (auto simp: filter_elems_def filter_inv_def)
qed

section \<open>What a client sees of a message\<close>

text \<open>The notifications a message becomes, as a function of its bytes.\<close>

function proxy_rest :: "nat \<Rightarrow> u8 \<Rightarrow> bytes \<Rightarrow> bytes list" where
  "proxy_rest mtu type d =
     (if d = [] then []
      else if length d + 1 < mtu then [PDU_HDR SAR_LAST type # d]
      else if mtu < 2 then []
      else (PDU_HDR SAR_CONT type # take (mtu - 1) d) # proxy_rest mtu type (drop (mtu - 1) d))"
  by auto
termination by (relation "measure (\<lambda>(mtu, type, d). length d)") auto

declare proxy_rest.simps [simp del]

definition proxy_pieces :: "nat \<Rightarrow> u8 \<Rightarrow> bytes \<Rightarrow> bytes list" where
  "proxy_pieces mtu type d =
     (if length d < mtu then [PDU_HDR SAR_COMPLETE type # d]
      else (PDU_HDR SAR_FIRST type # take (mtu - 1) d) # proxy_rest mtu type (drop (mtu - 1) d))"

lemma proxy_rest_payload:
  "2 \<le> mtu \<Longrightarrow> concat (map tl (proxy_rest mtu type d)) = d \<and> (\<forall>p\<in>set (proxy_rest mtu type d). length p \<le> mtu)"
proof (induction mtu type d rule: proxy_rest.induct)
  case (1 mtu type d)
  then show ?case by (subst (1 2) proxy_rest.simps) auto
qed

lemma proxy_pieces_payload:
  assumes "2 \<le> mtu"
  shows "concat (map tl (proxy_pieces mtu type d)) = d" "\<forall>p\<in>set (proxy_pieces mtu type d). length p \<le> mtu"
  using proxy_rest_payload [OF assms, of type "drop (mtu - 1) d"] assms by (auto simp: proxy_pieces_def)

lemma proxy_send_log:
  "ms_gatt_svc s \<noteq> MESH_GATT_NONE \<Longrightarrow> proxy_send conn d s = (ms_notify_rc s, log_ev (Ev_Gatt_Notify conn d) s)"
  by (cases "ms_gatt_svc s") (simp_all add: proxy_send_def)

lemma log_ev_svc [simp]: "ms_gatt_svc (log_ev e s) = ms_gatt_svc s"
  by (simp add: log_ev_def)

lemma nb_mem_take:
  assumes "nb_ok b" "n \<le> nb_len b"
  shows "take n (nb_mem b) = take n (nb_data b)"
  using assms by (simp add: nb_data_mem min_def)

lemma log_ev_append: "log_ev e s = s\<lparr>ms_log := ms_log s @ [e]\<rparr>"
  by (simp add: log_ev_def)

lemma seg_push_pull:
  assumes ok: "nb_ok msg" "1 \<le> net_buf_simple_headroom msg" and mtu: "2 \<le> mtu" "mtu \<le> nb_len msg + 1"
  shows "take mtu (nb_mem (net_buf_simple_push_u8 msg h)) = h # take (mtu - 1) (nb_data msg)"
    and "nb_ok (net_buf_simple_pull (net_buf_simple_push_u8 msg h) mtu)"
    and "nb_data (net_buf_simple_pull (net_buf_simple_push_u8 msg h) mtu) = drop (mtu - 1) (nb_data msg)"
    and "nb_len (net_buf_simple_pull (net_buf_simple_push_u8 msg h) mtu) = nb_len msg - (mtu - 1)"
    and "1 \<le> net_buf_simple_headroom (net_buf_simple_pull (net_buf_simple_push_u8 msg h) mtu)"
proof -
  let ?m = "net_buf_simple_push_u8 msg h"
  have p: "nb_ok ?m" "nb_data ?m = h # nb_data msg"
    using push_mem_data [of msg "[h]"] ok by (simp_all add: push_as_mem)
  then have l: "nb_len ?m = nb_len msg + 1" using length_nb_data [OF p(1)] ok by simp
  obtain k where k: "mtu = Suc k" using mtu by (cases mtu) auto
  show "take mtu (nb_mem ?m) = h # take (mtu - 1) (nb_data msg)"
    using nb_mem_take [OF p(1), of mtu] p l mtu k by simp
  show "nb_ok (net_buf_simple_pull ?m mtu)" "nb_data (net_buf_simple_pull ?m mtu) = drop (mtu - 1) (nb_data msg)"
    "nb_len (net_buf_simple_pull ?m mtu) = nb_len msg - (mtu - 1)"
    using pull_data [OF p(1), of mtu] p l mtu k by simp_all
  show "1 \<le> net_buf_simple_headroom (net_buf_simple_pull ?m mtu)"
    using mtu by (simp add: net_buf_simple_pull_def net_buf_simple_headroom_def)
qed

lemma proxy_seg_loop_eq:
  assumes "nb_ok msg" "1 \<le> net_buf_simple_headroom msg" "2 \<le> mtu" "nb_len msg \<le> fuel" "ms_gatt_svc s \<noteq> MESH_GATT_NONE"
  shows "proxy_seg_loop fuel conn type mtu msg s =
    s\<lparr>ms_log := ms_log s @ map (Ev_Gatt_Notify conn) (proxy_rest mtu type (nb_data msg))\<rparr>"
  using assms
proof (induction fuel arbitrary: msg s)
  case 0
  then have "length (nb_data msg) = 0" by simp
  then have "nb_data msg = []" by simp
  with 0 show ?case by (simp add: proxy_seg_loop.simps [of 0 conn type mtu msg s] proxy_rest.simps [of mtu type "[]"])
next
  case (Suc fuel)
  have l: "length (nb_data msg) = nb_len msg" using Suc.prems by simp
  consider "nb_len msg = 0" | "nb_len msg \<noteq> 0" "nb_len msg + 1 < mtu" | "nb_len msg \<noteq> 0" "\<not> nb_len msg + 1 < mtu" by blast
  then show ?case
  proof cases
    case 1
    with l show ?thesis
      by (simp add: proxy_seg_loop.simps [of "Suc fuel" conn type mtu msg s] proxy_rest.simps [of mtu type "[]"])
  next
    case 2
    with l have "nb_data msg \<noteq> []" by auto
    then show ?thesis
      using 2 l Suc.prems push_mem_data(2) [of msg "[PDU_HDR SAR_LAST type]"]
      by (simp add: proxy_seg_loop.simps [of "Suc fuel" conn type mtu msg s] proxy_rest.simps [of mtu type "nb_data msg"]
          proxy_send_log push_as_mem log_ev_append)
  next
    case 3
    with l have ne: "nb_data msg \<noteq> []" by auto
    let ?m = "net_buf_simple_pull (net_buf_simple_push_u8 msg (PDU_HDR SAR_CONT type)) mtu"
    let ?s = "log_ev (Ev_Gatt_Notify conn (PDU_HDR SAR_CONT type # take (mtu - 1) (nb_data msg))) s"
    have mtu: "mtu \<le> nb_len msg + 1" using 3 by simp
    note pp = seg_push_pull [OF Suc.prems(1-3) mtu]
    have "proxy_seg_loop (Suc fuel) conn type mtu msg s = proxy_seg_loop fuel conn type mtu ?m ?s"
      using 3 Suc.prems(5) pp(1) by (simp add: proxy_seg_loop.simps [of "Suc fuel" conn type mtu msg s] proxy_send_log)
    also have "\<dots> = ?s\<lparr>ms_log := ms_log ?s @ map (Ev_Gatt_Notify conn) (proxy_rest mtu type (nb_data ?m))\<rparr>"
      by (rule Suc.IH) (use Suc.prems pp mtu in auto)
    finally show ?thesis
      using 3 ne l Suc.prems(3) pp(3) by (simp add: log_ev_append proxy_rest.simps [of mtu type "nb_data msg"])
  qed
qed

lemma proxy_segment_eq:
  assumes "nb_ok msg" "1 \<le> net_buf_simple_headroom msg" "5 \<le> ms_mtu s conn" "ms_mtu s conn < 65536"
    "ms_gatt_svc s \<noteq> MESH_GATT_NONE"
  shows "snd (proxy_segment_and_send conn type msg s) =
    s\<lparr>ms_log := ms_log s @ map (Ev_Gatt_Notify conn) (proxy_pieces (ms_mtu s conn - 3) type (nb_data msg))\<rparr>"
proof -
  let ?mtu = "ms_mtu s conn - 3"
  have u: "u16_sub (ms_mtu s conn) 3 = ?mtu" using assms by simp
  have l: "length (nb_data msg) = nb_len msg" using assms by simp
  show ?thesis
  proof (cases "?mtu > nb_len msg")
    case True
    then show ?thesis
      using l assms push_mem_data(2) [of msg "[PDU_HDR SAR_COMPLETE type]"] u
      by (simp add: proxy_segment_and_send_def proxy_pieces_def proxy_send_log push_as_mem log_ev_append)
  next
    case False
    let ?m = "net_buf_simple_pull (net_buf_simple_push_u8 msg (PDU_HDR SAR_FIRST type)) ?mtu"
    let ?s = "log_ev (Ev_Gatt_Notify conn (PDU_HDR SAR_FIRST type # take (?mtu - 1) (nb_data msg))) s"
    have mtu: "2 \<le> ?mtu" "?mtu \<le> nb_len msg + 1" using False assms by simp_all
    note pp = seg_push_pull [OF assms(1,2) mtu]
    have "snd (proxy_segment_and_send conn type msg s) = proxy_seg_loop (nb_len ?m) conn type ?mtu ?m ?s"
      using False pp(1) assms(5) u by (simp add: proxy_segment_and_send_def Let_def proxy_send_log)
    also have "\<dots> = ?s\<lparr>ms_log := ms_log ?s @ map (Ev_Gatt_Notify conn) (proxy_rest ?mtu type (nb_data ?m))\<rparr>"
      by (rule proxy_seg_loop_eq) (use assms pp mtu in auto)
    finally show ?thesis using False l pp(3) by (simp add: log_ev_append proxy_pieces_def)
  qed
qed

section \<open>Sending to clients only adds to the trace\<close>

definition only_log :: "mesh \<Rightarrow> mesh \<Rightarrow> bool" where
  "only_log s s' \<longleftrightarrow> (\<exists>l. s' = s\<lparr>ms_log := l\<rparr>)"

lemma only_log_refl [simp]: "only_log s s"
  unfolding only_log_def by (rule exI [of _ "ms_log s"]) simp

lemma only_log_trans: "only_log s t \<Longrightarrow> only_log t u \<Longrightarrow> only_log s u"
  by (auto simp: only_log_def)

lemma only_log_ev [simp]: "only_log s (log_ev e s)"
  by (auto simp: only_log_def log_ev_def)

lemma only_log_fold: "(\<And>x s. only_log s (f x s)) \<Longrightarrow> only_log s (fold f xs s)"
  by (induction xs arbitrary: s) (auto intro: only_log_trans)

lemma only_log_proxy_send: "only_log s (snd (proxy_send conn d s))"
  by (simp add: proxy_send_def split: gatt_svc.splits)

lemma only_log_seg_loop: "only_log s (proxy_seg_loop fuel conn type mtu msg s)"
proof (induction fuel arbitrary: msg s)
  case 0
  then show ?case by (subst proxy_seg_loop.simps) (simp add: only_log_proxy_send)
next
  case (Suc fuel)
  have "only_log s (proxy_seg_loop fuel conn type mtu m (snd (proxy_send conn d s)))" for m d
    by (rule only_log_trans [OF only_log_proxy_send Suc])
  then show ?case by (subst proxy_seg_loop.simps) (simp add: Let_def only_log_proxy_send)
qed

lemma only_log_segment: "only_log s (snd (proxy_segment_and_send conn type msg s))"
  by (auto simp: proxy_segment_and_send_def Let_def only_log_proxy_send intro: only_log_trans [OF _ only_log_seg_loop])

lemma only_log_relay: "only_log s (snd (bt_mesh_proxy_relay buf dst s))"
proof -
  have one: "only_log s (snd (proxy_relay_one buf dst i (r, s)))" for i r s
    by (auto simp: proxy_relay_one_def bt_mesh_proxy_send_def Let_def only_log_segment split: option.splits)
  have "only_log s (snd (fold (proxy_relay_one buf dst) is (r, s)))" for "is" r s
  proof (induction "is" arbitrary: r s)
    case (Cons i "is")
    obtain r' s' where "proxy_relay_one buf dst i (r, s) = (r', s')" by fastforce
    with Cons [of s' r'] one [of s i r] show ?case by (auto intro: only_log_trans)
  qed simp
  then show ?thesis by (simp add: bt_mesh_proxy_relay_def)
qed

lemma only_log_beacon_send: "only_log s (bt_mesh_proxy_beacon_send sub s)"
proof -
  have "only_log s (proxy_beacon_clients i s)" for i s unfolding proxy_beacon_clients_def
    by (rule only_log_fold) (auto simp: proxy_beacon_send_def Let_def only_log_segment split: option.splits)
  then show ?thesis by (auto simp: bt_mesh_proxy_beacon_send_def split: option.splits intro: only_log_fold)
qed

lemma only_log_sel:
  assumes "only_log s s'"
  shows "ms_net s' = ms_net s" "ms_bufs s' = ms_bufs s" "ms_adv_queue s' = ms_adv_queue s" "ms_conf s' = ms_conf s"
    "ms_comp s' = ms_comp s" "ms_works s' = ms_works s" "ms_seg_tx s' = ms_seg_tx s" "ms_free s' = ms_free s" "ms_now s' = ms_now s"
    "ms_uninit s' = ms_uninit s" "ms_clients s' = ms_clients s"
  using assms by (auto simp: only_log_def)

section \<open>Relaying to the clients\<close>

text \<open>No connection occupies two entries of the client table.\<close>

definition clients_ok :: "mesh \<Rightarrow> bool" where
  "clients_ok s \<longleftrightarrow> distinct (filter (\<lambda>c. c \<noteq> None) (map cl_conn (ms_clients s)))"

definition relay_to :: "u16 \<Rightarrow> bt_mesh_proxy_client \<Rightarrow> bool" where
  "relay_to dst c \<longleftrightarrow> cl_conn c \<noteq> None \<and> client_filter_match c dst"

definition relay_events :: "mesh \<Rightarrow> bytes \<Rightarrow> u16 \<Rightarrow> bt_mesh_proxy_client \<Rightarrow> mesh_ev list" where
  "relay_events s d dst c =
     (if relay_to dst c
      then map (Ev_Gatt_Notify (the (cl_conn c))) (proxy_pieces (ms_mtu s (the (cl_conn c)) - 3) BT_MESH_PROXY_NET_PDU d)
      else [])"

lemma distinct_filter_index:
  "distinct (filter P xs) \<Longrightarrow> i < j \<Longrightarrow> j < length xs \<Longrightarrow> xs ! i = xs ! j \<Longrightarrow> \<not> P (xs ! j)"
proof (induction xs arbitrary: i j)
  case (Cons x xs)
  then obtain j' where j: "j = Suc j'" "j' < length xs" by (cases j) auto
  show ?case
  proof (cases i)
    case 0
    with Cons.prems j have "P x \<longrightarrow> x \<notin> set xs" "x = xs ! j'" by (auto split: if_splits)
    with j show ?thesis using nth_mem [OF j(2)] by auto
  next
    case (Suc i')
    with Cons j show ?thesis by (auto split: if_splits)
  qed
qed simp

lemma find_client_self:
  assumes "clients_ok s" "i < length (ms_clients s)" "cl_conn (get_client s i) = Some conn"
  shows "find_client s (Some conn) = Some i"
proof (cases "find_client s (Some conn)")
  case None
  with assms show ?thesis using nth_mem [OF assms(2)] by (auto simp: find_client_def find_index_None get_client_def)
next
  case (Some j)
  then have j: "j < length (ms_clients s)" "cl_conn (ms_clients s ! j) = Some conn" "\<forall>k<j. cl_conn (ms_clients s ! k) \<noteq> Some conn"
    using find_index_Some [of "\<lambda>c. cl_conn c = Some conn" "ms_clients s" j] by (auto simp: find_client_def)
  have "\<not> j < i"
    using distinct_filter_index [of "\<lambda>c. c \<noteq> None" "map cl_conn (ms_clients s)" j i] assms j
    by (auto simp: clients_ok_def get_client_def)
  with j assms have "j = i" by (auto simp: get_client_def linorder_not_less le_eq_less_or_eq)
  with Some show ?thesis by simp
qed

lemma relay_msg:
  assumes "nb_ok buf" "nb_len buf \<le> 31"
  shows "nb_ok (net_buf_simple_add_mem (net_buf_simple_init (NET_BUF_SIMPLE 32) 1) (nb_data buf))"
    and "nb_data (net_buf_simple_add_mem (net_buf_simple_init (NET_BUF_SIMPLE 32) 1) (nb_data buf)) = nb_data buf"
    and "net_buf_simple_headroom (net_buf_simple_add_mem (net_buf_simple_init (NET_BUF_SIMPLE 32) 1) (nb_data buf)) = 1"
proof -
  let ?b = "net_buf_simple_init (NET_BUF_SIMPLE 32) 1"
  have i: "nb_ok ?b" "nb_data ?b = []" "net_buf_simple_tailroom ?b = 31"
    using init_data [OF NET_BUF_SIMPLE_ok, of 32 1] by simp_all
  with add_mem_data [OF i(1), of "nb_data buf"] assms
  show "nb_ok (net_buf_simple_add_mem ?b (nb_data buf))" "nb_data (net_buf_simple_add_mem ?b (nb_data buf)) = nb_data buf"
    by simp_all
  show "net_buf_simple_headroom (net_buf_simple_add_mem ?b (nb_data buf)) = 1"
    by (simp add: net_buf_simple_headroom_def net_buf_simple_add_mem_def net_buf_simple_add_def net_buf_simple_init_def)
qed

lemma relay_one:
  assumes "clients_ok s" "i < length (ms_clients s)" "nb_ok buf" "nb_len buf \<le> 31" "ms_gatt_svc s \<noteq> MESH_GATT_NONE"
    and "\<And>conn. 5 \<le> ms_mtu s conn \<and> ms_mtu s conn < 65536"
  shows "proxy_relay_one buf dst i (r, s) = (r \<or> relay_to dst (ms_clients s ! i),
    s\<lparr>ms_log := ms_log s @ relay_events s (nb_data buf) dst (ms_clients s ! i)\<rparr>)"
proof (cases "relay_to dst (ms_clients s ! i)")
  case False
  then show ?thesis
    by (auto simp: proxy_relay_one_def relay_to_def relay_events_def get_client_def Let_def split: option.splits)
next
  case True
  then obtain conn where c: "cl_conn (get_client s i) = Some conn" by (auto simp: relay_to_def get_client_def)
  let ?m = "net_buf_simple_add_mem (net_buf_simple_init (NET_BUF_SIMPLE 32) 1) (nb_data buf)"
  have "cl_filter_type (get_client s i) \<noteq> FT_PROV"
    using True by (auto simp: relay_to_def client_filter_match_def get_client_def)
  then have "bt_mesh_proxy_send conn BT_MESH_PROXY_NET_PDU ?m s = proxy_segment_and_send conn BT_MESH_PROXY_NET_PDU ?m s"
    using find_client_self [OF assms(1,2) c] by (simp add: bt_mesh_proxy_send_def BT_MESH_PROXY_NET_PDU_def BT_MESH_PROXY_PROV_def)
  with proxy_segment_eq [of ?m s conn BT_MESH_PROXY_NET_PDU] relay_msg [OF assms(3,4)] assms(5) assms(6) [of conn] True c
  show ?thesis by (simp add: proxy_relay_one_def relay_to_def relay_events_def get_client_def)
qed

text \<open>
  C25. Relaying a network PDU to the GATT bearer notifies exactly the connected clients whose filter
  accepts the destination, in table order and each with all bytes of the PDU in Proxy PDUs that
  fit its MTU; nothing else changes, and the result says whether there was such a client.
\<close>

theorem proxy_relay_exact:
  assumes "clients_ok s" "nb_ok buf" "nb_len buf \<le> 31" "ms_gatt_svc s \<noteq> MESH_GATT_NONE"
    and "\<And>conn. 5 \<le> ms_mtu s conn \<and> ms_mtu s conn < 65536"
  shows "bt_mesh_proxy_relay buf dst s = (\<exists>c\<in>set (ms_clients s). relay_to dst c,
    s\<lparr>ms_log := ms_log s @ concat (map (relay_events s (nb_data buf) dst) (ms_clients s))\<rparr>)"
proof -
  let ?ev = "relay_events s (nb_data buf) dst"
  have "fold (proxy_relay_one buf dst) [0..<k] (False, s) = (\<exists>c\<in>set (take k (ms_clients s)). relay_to dst c,
      s\<lparr>ms_log := ms_log s @ concat (map ?ev (take k (ms_clients s)))\<rparr>)" if "k \<le> length (ms_clients s)" for k
    using that
  proof (induction k)
    case (Suc k)
    let ?s = "s\<lparr>ms_log := ms_log s @ concat (map ?ev (take k (ms_clients s)))\<rparr>"
    have "relay_events ?s (nb_data buf) dst = ?ev" by (rule ext) (simp add: relay_events_def)
    moreover have "clients_ok ?s" using assms(1) by (simp add: clients_ok_def)
    ultimately show ?case
      using Suc relay_one [of ?s k buf] assms by (simp add: take_Suc_conv_app_nth disj_commute)
  qed simp
  from this [of "length (ms_clients s)"] show ?thesis by (simp add: bt_mesh_proxy_relay_def)
qed

definition relay_demo :: mesh where
  "relay_demo = mesh0\<lparr>ms_gatt_svc := MESH_GATT_PROXY,
     ms_clients := [client0\<lparr>cl_conn := Some 1, cl_filter := [5, 0, 0], cl_filter_type := FT_WHITELIST\<rparr>,
                    client0\<lparr>cl_conn := Some 2, cl_filter_type := FT_WHITELIST\<rparr>]\<rparr>"

theorem proxy_relay_exact_witness:
  "ms_log (snd (bt_mesh_proxy_relay (net_buf_simple_add_u8 (NET_BUF_SIMPLE 29) 7) 5 relay_demo)) = [Ev_Gatt_Notify 1 [0, 7]]"
proof -
  let ?b = "net_buf_simple_add_u8 (NET_BUF_SIMPLE 29) 7"
  have b: "nb_ok ?b" "nb_data ?b = [7]" "nb_len ?b \<le> 31"
    using add_mem_data [OF NET_BUF_SIMPLE_ok, of 29 "[7]"]
    by (simp_all add: add_as_mem net_buf_simple_tailroom_def net_buf_simple_headroom_def net_buf_simple_add_mem_def
        net_buf_simple_add_def)
  have "clients_ok relay_demo" by (simp add: relay_demo_def clients_ok_def)
  moreover have "ms_gatt_svc relay_demo \<noteq> MESH_GATT_NONE" "\<And>conn. 5 \<le> ms_mtu relay_demo conn \<and> ms_mtu relay_demo conn < 65536"
    by (simp_all add: relay_demo_def mesh0_def)
  ultimately show ?thesis
    by (subst proxy_relay_exact [OF _ b(1,3)]) (simp_all add: b(2) relay_demo_def mesh0_def relay_events_def relay_to_def
        client_filter_match_def proxy_pieces_def PDU_HDR_def SAR_COMPLETE_def BT_MESH_PROXY_NET_PDU_def client0_def
        numeral_3_eq_3)
qed

end
