(* ===== verification/Net.thy ===== *)
theory Net
  imports Proxy_Out Comp
begin

text \<open>
  The network layer of \<^verbatim>\<open>bt_mesh/src/net.c\<close>: the duplicate cache and the network message cache,
  encoding and sending, receiving and decrypting, relaying. The handlers that go on into the
  transport layer (\<^verbatim>\<open>bt_mesh_net_recv\<close>, \<^verbatim>\<open>bt_mesh_net_local\<close>) are in \<^verbatim>\<open>Net_Recv\<close>.
  Both caches are interpretations of the locale \<open>ring_cache\<close>. The theorems: a PDU that one node
  encodes decodes at another to the same header and payload; a PDU that decodes is authentic;
  relaying lowers the TTL and changes nothing else; the caches remember what they promise.
\<close>

section \<open>PDU fields\<close>

definition PDU_IVI :: "bytes \<Rightarrow> u8" where "PDU_IVI pdu = drop_bit 7 (byte_at pdu 0)"
definition PDU_NID :: "bytes \<Rightarrow> u8" where "PDU_NID pdu = byte_at pdu 0 AND 0x7f"
definition PDU_CTL :: "bytes \<Rightarrow> u8" where "PDU_CTL pdu = drop_bit 7 (byte_at pdu 1)"
definition PDU_TTL :: "bytes \<Rightarrow> u8" where "PDU_TTL pdu = byte_at pdu 1 AND 0x7f"

definition PDU_SEQ :: "bytes \<Rightarrow> u32" where
  "PDU_SEQ pdu = push_bit 16 (ucast (byte_at pdu 2)) OR push_bit 8 (ucast (byte_at pdu 3)) OR ucast (byte_at pdu 4)"

definition PDU_SRC :: "bytes \<Rightarrow> u16" where "PDU_SRC pdu = sys_get_be16 (drop 5 pdu)"
definition PDU_DST :: "bytes \<Rightarrow> u16" where "PDU_DST pdu = sys_get_be16 (drop 7 pdu)"

definition BT_MESH_NET_HDR_LEN :: nat where "BT_MESH_NET_HDR_LEN = 9"
definition BT_MESH_NET_MIN_PDU_LEN :: nat where "BT_MESH_NET_MIN_PDU_LEN = BT_MESH_NET_HDR_LEN + 1 + 8"
definition IV_UPDATE_SEQ_LIMIT :: u24 where "IV_UPDATE_SEQ_LIMIT = 0xB0E500"

definition BT_MESH_NET_IVI_RX :: "mesh \<Rightarrow> bt_mesh_net_rx \<Rightarrow> u32" where
  "BT_MESH_NET_IVI_RX s rx = bm_iv_index (ms_net s) - (if rx_old_iv rx then 1 else 0)"

text \<open>The three bytes of a 24-bit sequence number.\<close>

definition seq_bytes :: "u24 \<Rightarrow> bytes" where
  "seq_bytes seq = [ucast (drop_bit 16 seq), ucast (drop_bit 8 seq), ucast seq]"

section \<open>Caches\<close>

definition dup_val :: "net_buf_simple \<Rightarrow> u32" where
  "dup_val data =
     (let tail = nb_off data + nb_len data
      in sys_get_be32 (get_bytes (nb_buf data) (tail - 4) 4) XOR sys_get_be32 (get_bytes (nb_buf data) (tail - 8) 4))"

definition dup_cache_hit :: "u32 \<Rightarrow> mesh \<Rightarrow> bool \<times> mesh" where
  "dup_cache_hit val s =
     (case find_index (\<lambda>v. v = val) (ms_dup_cache s) of
        Some i \<Rightarrow> (True, s)
      | None \<Rightarrow> (False, s\<lparr>ms_dup_cache := (ms_dup_cache s)[ms_dup_cache_next s := val],
                          ms_dup_cache_next := (ms_dup_cache_next s + 1) mod length (ms_dup_cache s)\<rparr>))"

definition check_dup :: "net_buf_simple \<Rightarrow> mesh \<Rightarrow> bool \<times> mesh" where
  "check_dup data s = dup_cache_hit (dup_val data) s"

text \<open>The \<^verbatim>\<open>memcpy\<close> of \<^verbatim>\<open>hash2\<close> is in the byte order of the little-endian targets.\<close>

definition msg_hash :: "mesh \<Rightarrow> bt_mesh_net_rx \<Rightarrow> bytes \<Rightarrow> u64" where
  "msg_hash s rx pdu =
     (let hash1 = push_bit 8 (BT_MESH_NET_IVI_RX s rx) OR ucast (byte_at pdu 2);
          hash2 = sys_get_le32 [byte_at pdu 3, byte_at pdu 4, byte_at pdu 5, byte_at pdu 6]
      in push_bit 32 (ucast hash1) OR ucast hash2)"

definition msg_cache_hit :: "u64 \<Rightarrow> mesh \<Rightarrow> bool \<times> mesh" where
  "msg_cache_hit hash s =
     (case find_index (\<lambda>v. v = hash) (ms_msg_cache s) of
        Some i \<Rightarrow> (True, s)
      | None \<Rightarrow> (False, s\<lparr>ms_msg_cache := (ms_msg_cache s)[ms_msg_cache_next s := hash],
                          ms_msg_cache_next := (ms_msg_cache_next s + 1) mod length (ms_msg_cache s)\<rparr>))"

definition msg_cache_match :: "bt_mesh_net_rx \<Rightarrow> bytes \<Rightarrow> mesh \<Rightarrow> bool \<times> mesh" where
  "msg_cache_match rx pdu s = msg_cache_hit (msg_hash s rx pdu) s"

section \<open>Sending\<close>

definition bt_mesh_net_sec_update :: "nat option \<Rightarrow> mesh \<Rightarrow> mesh" where
  "bt_mesh_net_sec_update sub s =
     (if bt_mesh_gatt_proxy_get s = 0x01 then bt_mesh_proxy_beacon_send sub s else s)"

definition bt_mesh_beacon_ivu_initiator :: "bool \<Rightarrow> mesh \<Rightarrow> mesh" where
  "bt_mesh_beacon_ivu_initiator enable s =
     (let s = upd_net (\<lambda>n. n\<lparr>bm_ivu_initiator := enable\<rparr>) s in
      if enable then k_work_submit W_Beacon s
      else if bt_mesh_beacon_get s = 0x00 then k_delayed_work_cancel W_Beacon s
      else s)"

text \<open>\<^verbatim>\<open>bt_mesh_net_obfuscate\<close> applied in place to a buffer.\<close>

definition nb_obfuscate :: "net_buf_simple \<Rightarrow> u32 \<Rightarrow> bytes \<Rightarrow> errno option \<times> net_buf_simple" where
  "nb_obfuscate buf iv_index key =
     (case bt_mesh_net_obfuscate (nb_mem buf) iv_index key of
        Inl err \<Rightarrow> (Some err, buf)
      | Inr pdu \<Rightarrow> (None, nb_put buf 0 pdu))"

definition next_seq :: "mesh \<Rightarrow> mesh" where
  "next_seq s = log_ev Ev_Seq_Update (upd_net (\<lambda>n. n\<lparr>bm_seq := bm_seq n + 1\<rparr>) s)"

definition bt_mesh_net_encode ::
  "bt_mesh_net_tx \<Rightarrow> net_buf_simple \<Rightarrow> bool \<Rightarrow> mesh \<Rightarrow> errno option \<times> bt_mesh_net_tx \<times> net_buf_simple \<times> mesh" where
  "bt_mesh_net_encode tx buf proxy s =
     (let ctl = (cx_app_idx (tx_ctx tx) = BT_MESH_KEY_UNUSED) in
      if ctl \<and> net_buf_simple_tailroom buf < 8 then (Some EINVAL, tx, buf, s)
      else if net_buf_simple_tailroom buf < 4 then (Some EINVAL, tx, buf, s)
      else
        let buf = net_buf_simple_push_be16 buf (cx_addr (tx_ctx tx));
            buf = net_buf_simple_push_be16 buf (tx_src tx);
            buf = net_buf_simple_push buf 3;
            buf = nb_put buf 0 (seq_bytes (bm_seq (ms_net s)));
            s = next_seq s;
            buf = (if ctl then net_buf_simple_push_u8 buf (cx_send_ttl (tx_ctx tx) OR 0x80)
                   else net_buf_simple_push_u8 buf (cx_send_ttl (tx_ctx tx)));
            tx = tx\<lparr>tx_friend_cred := False\<rparr>;
            sub = get_sub s (tx_sub tx);
            keys = sn_keys sub (sn_kr_flag sub);
            ivi = BT_MESH_NET_IVI_TX s;
            buf = net_buf_simple_push_u8 buf (sk_nid keys OR push_bit 7 (ucast (ivi AND 1)));
            (err, buf) = bt_mesh_net_encrypt (sk_enc keys) buf ivi proxy
        in if err \<noteq> None then (err, tx, buf, s)
           else let (err, buf) = nb_obfuscate buf ivi (sk_privacy keys) in (err, tx, buf, s))"

definition bt_mesh_net_send ::
  "bt_mesh_net_tx \<Rightarrow> nat \<Rightarrow> send_cb \<Rightarrow> mesh \<Rightarrow> errno option \<times> bt_mesh_net_tx \<times> mesh" where
  "bt_mesh_net_send tx i cb s =
     (let tx = (if cx_send_ttl (tx_ctx tx) = BT_MESH_TTL_DEFAULT
                then tx\<lparr>tx_ctx := (tx_ctx tx)\<lparr>cx_send_ttl := bt_mesh_default_ttl_get s\<rparr>\<rparr> else tx);
          (err, tx, b, s) = bt_mesh_net_encode tx (buf_b s i) False s;
          s = on_buf i (\<lambda>_. b) s
      in if err \<noteq> None then (err, tx, net_buf_unref i s)
         else
           let addr = cx_addr (tx_ctx tx); ttl = cx_send_ttl (tx_ctx tx);
               (relayed, s) = (if ttl \<noteq> 1 then bt_mesh_proxy_relay (buf_b s i) addr s else (False, s))
           in if relayed \<and> BT_MESH_ADDR_IS_UNICAST addr then
                (None, tx, net_buf_unref i (adv_send_end None cb (adv_send_start 0 None cb s)))
              else if bt_mesh_fixed_group_match s addr \<or> bt_mesh_elem_find s addr \<noteq> None then
                let s = adv_send_start 0 None cb s;
                    s = net_buf_ref i s;
                    s = upd_net (\<lambda>n. n\<lparr>bm_local_queue := bm_local_queue n @ [i]\<rparr>) s;
                    s = adv_send_end None cb s;
                    s = k_work_submit W_Local s
                in (None, tx, net_buf_unref i s)
              else if ttl \<noteq> 1 then (None, tx, net_buf_unref i (bt_mesh_adv_send i cb s))
              else (None, tx, net_buf_unref i s))"

text \<open>The three bytes written at offset 2 hold the new sequence number.\<close>

definition bt_mesh_net_resend :: "nat \<Rightarrow> nat \<Rightarrow> bool \<Rightarrow> send_cb \<Rightarrow> mesh \<Rightarrow> errno option \<times> mesh" where
  "bt_mesh_net_resend i bi new_key cb s =
     (let keys = sn_keys (get_sub s i) new_key; enc = sk_enc keys; priv = sk_privacy keys;
          ivi = BT_MESH_NET_IVI_TX s;
          (err, b) = nb_obfuscate (buf_b s bi) ivi priv; s = on_buf bi (\<lambda>_. b) s
      in if err \<noteq> None then (err, s)
      else let (err, b) = bt_mesh_net_decrypt enc (buf_b s bi) ivi False; s = on_buf bi (\<lambda>_. b) s
      in if err \<noteq> None then (err, s)
      else let s = on_buf bi (\<lambda>b. nb_put b 2 (seq_bytes (bm_seq (ms_net s)))) s; s = next_seq s;
               (err, b) = bt_mesh_net_encrypt enc (buf_b s bi) ivi False; s = on_buf bi (\<lambda>_. b) s
      in if err \<noteq> None then (err, s)
      else let (err, b) = nb_obfuscate (buf_b s bi) ivi priv; s = on_buf bi (\<lambda>_. b) s
      in if err \<noteq> None then (err, s)
      else let s = bt_mesh_adv_send bi cb s in
        (None,
         if \<not> bm_iv_update (ms_net s) \<and> bm_seq (ms_net s) > IV_UPDATE_SEQ_LIMIT
         then bt_mesh_net_sec_update None
                (snd (bt_mesh_net_iv_update (bm_iv_index (ms_net s) + 1) True (bt_mesh_beacon_ivu_initiator True s)))
         else s))"

section \<open>Receiving\<close>

definition net_decrypt ::
  "bytes \<Rightarrow> bytes \<Rightarrow> bytes \<Rightarrow> bt_mesh_net_rx \<Rightarrow> net_buf_simple \<Rightarrow> mesh
   \<Rightarrow> errno option \<times> bt_mesh_net_rx \<times> net_buf_simple \<times> mesh" where
  "net_decrypt enc priv data rx buf s =
     (let rx = rx\<lparr>rx_old_iv := (ucast (PDU_IVI data) \<noteq> bm_iv_index (ms_net s) AND 0x01)\<rparr>;
          buf = net_buf_simple_add_mem (net_buf_simple_init buf 0) data;
          (err, buf) = nb_obfuscate buf (BT_MESH_NET_IVI_RX s rx) priv
      in if err \<noteq> None then (Some ENOENT, rx, buf, s)
      else let (dup, s) = (if rx_net_if rx = NET_IF_ADV then msg_cache_match rx (nb_mem buf) s else (False, s))
      in if dup then (Some EALREADY, rx, buf, s)
      else let rx = rx\<lparr>rx_ctx := (rx_ctx rx)\<lparr>cx_addr := PDU_SRC (nb_mem buf)\<rparr>\<rparr>
      in if \<not> BT_MESH_ADDR_IS_UNICAST (cx_addr (rx_ctx rx)) then (Some EINVAL, rx, buf, s)
      else let (err, buf) = bt_mesh_net_decrypt enc buf (BT_MESH_NET_IVI_RX s rx) (rx_net_if rx = NET_IF_PROXY_CFG)
      in (err, rx, buf, s))"

text \<open>
  \<^verbatim>\<open>friend_decrypt\<close> of builds with friendship; in this repository no function calls it.
\<close>

fun friend_decrypt ::
  "bt_mesh_subnet \<Rightarrow> friend_cred list \<Rightarrow> bytes \<Rightarrow> bt_mesh_net_rx \<Rightarrow> net_buf_simple \<Rightarrow> mesh
   \<Rightarrow> errno option \<times> bt_mesh_net_rx \<times> net_buf_simple \<times> mesh" where
  "friend_decrypt sub [] data rx buf s = (Some ENOENT, rx, buf, s)"
| "friend_decrypt sub (cred # creds) data rx buf s =
     (if fc_net_idx cred \<noteq> sn_net_idx sub then friend_decrypt sub creds data rx buf s
      else
        let (err, rx, buf, s) =
              (if PDU_NID data = fk_nid (fc_cred0 cred)
               then net_decrypt (fk_enc (fc_cred0 cred)) (fk_privacy (fc_cred0 cred)) data rx buf s
               else (Some ENOENT, rx, buf, s))
        in if err = None then (None, rx, buf, s)
        else if sn_kr_phase sub = BT_MESH_KR_NORMAL then friend_decrypt sub creds data rx buf s
        else
          let (err, rx, buf, s) =
                (if PDU_NID data = fk_nid (fc_cred1 cred)
                 then net_decrypt (fk_enc (fc_cred1 cred)) (fk_privacy (fc_cred1 cred)) data rx buf s
                 else (Some ENOENT, rx, buf, s))
          in if err = None then (None, rx\<lparr>rx_new_key := True\<rparr>, buf, s)
             else friend_decrypt sub creds data rx buf s)"

text \<open>One key of a subnet: the NID must match before the PDU is decrypted.\<close>

definition try_key ::
  "subnet_keys \<Rightarrow> bytes \<Rightarrow> bt_mesh_net_rx \<Rightarrow> net_buf_simple \<Rightarrow> mesh \<Rightarrow> bool \<times> bt_mesh_net_rx \<times> net_buf_simple \<times> mesh" where
  "try_key keys data rx buf s =
     (if PDU_NID data = sk_nid keys
      then let (err, rx, buf, s) = net_decrypt (sk_enc keys) (sk_privacy keys) data rx buf s
           in (err = None, rx, buf, s)
      else (False, rx, buf, s))"

fun net_find_from ::
  "nat \<Rightarrow> bt_mesh_subnet list \<Rightarrow> bytes \<Rightarrow> bt_mesh_net_rx \<Rightarrow> net_buf_simple \<Rightarrow> mesh
   \<Rightarrow> bool \<times> bt_mesh_net_rx \<times> net_buf_simple \<times> mesh" where
  "net_find_from i [] data rx buf s = (False, rx, buf, s)"
| "net_find_from i (sub # subs) data rx buf s =
     (if sn_net_idx sub = BT_MESH_KEY_UNUSED then net_find_from (i + 1) subs data rx buf s
      else
        let (ok, rx, buf, s) = try_key (sn_key0 sub) data rx buf s in
        if ok then (True, rx\<lparr>rx_ctx := (rx_ctx rx)\<lparr>cx_net_idx := sn_net_idx sub\<rparr>, rx_sub := i\<rparr>, buf, s)
        else if sn_kr_phase sub = BT_MESH_KR_NORMAL then net_find_from (i + 1) subs data rx buf s
        else
          let (ok, rx, buf, s) = try_key (sn_key1 sub) data rx buf s in
          if ok then (True, rx\<lparr>rx_new_key := True, rx_ctx := (rx_ctx rx)\<lparr>cx_net_idx := sn_net_idx sub\<rparr>, rx_sub := i\<rparr>, buf, s)
          else net_find_from (i + 1) subs data rx buf s)"

definition net_find_and_decrypt ::
  "bytes \<Rightarrow> bt_mesh_net_rx \<Rightarrow> net_buf_simple \<Rightarrow> mesh \<Rightarrow> bool \<times> bt_mesh_net_rx \<times> net_buf_simple \<times> mesh" where
  "net_find_and_decrypt data rx buf s = net_find_from 0 (bm_sub (ms_net s)) data rx buf s"

definition bt_mesh_net_decode ::
  "net_buf_simple \<Rightarrow> bt_mesh_net_if \<Rightarrow> bt_mesh_net_rx \<Rightarrow> net_buf_simple \<Rightarrow> mesh
   \<Rightarrow> errno option \<times> bt_mesh_net_rx \<times> net_buf_simple \<times> mesh" where
  "bt_mesh_net_decode data net_if rx buf s =
     (if nb_len data < BT_MESH_NET_MIN_PDU_LEN then (Some EINVAL, rx, buf, s)
      else
        let (dup, s) = (if net_if = NET_IF_ADV then check_dup data s else (False, s)) in
        if dup then (Some EINVAL, rx, buf, s)
        else
          let rx = rx\<lparr>rx_net_if := net_if\<rparr>;
              (ok, rx, buf, s) = net_find_and_decrypt (nb_data data) rx buf s
          in if \<not> ok then (Some ENOENT, rx, buf, s)
          else
            let pdu = nb_mem buf;
                ctx = (rx_ctx rx)\<lparr>cx_app_idx := BT_MESH_KEY_UNUSED, cx_recv_ttl := PDU_TTL pdu,
                        cx_send_ttl := (if PDU_TTL pdu = 0 then 0 else BT_MESH_TTL_DEFAULT)\<rparr>;
                rx = rx\<lparr>rx_ctx := ctx, rx_ctl := (PDU_CTL pdu \<noteq> 0), rx_seq := PDU_SEQ pdu, rx_dst := PDU_DST pdu\<rparr>
            in if net_if \<noteq> NET_IF_PROXY_CFG \<and> rx_dst rx = BT_MESH_ADDR_UNASSIGNED then (Some EBADMSG, rx, buf, s)
               else if BT_MESH_ADDR_IS_RFU (rx_dst rx) then (Some EBADMSG, rx, buf, s)
               else if net_if \<noteq> NET_IF_LOCAL \<and> bt_mesh_elem_find s (cx_addr (rx_ctx rx)) \<noteq> None then (Some EBADMSG, rx, buf, s)
               else (None, rx, buf, s))"

section \<open>Relaying\<close>

definition relay_to_adv :: "mesh \<Rightarrow> bt_mesh_net_if \<Rightarrow> bool" where
  "relay_to_adv s net_if =
     (case net_if of
        NET_IF_LOCAL \<Rightarrow> True
      | NET_IF_ADV \<Rightarrow> bt_mesh_relay_get s = 0x01
      | NET_IF_PROXY \<Rightarrow> bt_mesh_gatt_proxy_get s = 0x01
      | NET_IF_PROXY_CFG \<Rightarrow> False)"

text \<open>What the relay writes over the TTL of a PDU that came from another node.\<close>

definition relay_header :: "bt_mesh_net_rx \<Rightarrow> net_buf_simple \<Rightarrow> net_buf_simple" where
  "relay_header rx sbuf =
     (if rx_net_if rx \<noteq> NET_IF_LOCAL
      then nb_put sbuf 1 [(nb_byte sbuf 1 AND 0x80) OR (cx_recv_ttl (rx_ctx rx) - 1)]
      else sbuf)"

definition bt_mesh_net_relay :: "net_buf_simple \<Rightarrow> bt_mesh_net_rx \<Rightarrow> mesh \<Rightarrow> mesh" where
  "bt_mesh_net_relay sbuf rx s =
     (let net_if = rx_net_if rx; ttl = cx_recv_ttl (rx_ctx rx) in
      if (if net_if = NET_IF_LOCAL then ttl = 1 else ttl \<le> 1) then s
      else if net_if = NET_IF_ADV \<and> bt_mesh_relay_get s \<noteq> 0x01 \<and> bt_mesh_gatt_proxy_get s \<noteq> 0x01 then s
      else
        let transmit = (if net_if = NET_IF_ADV then bt_mesh_relay_retransmit_get s else bt_mesh_net_transmit_get s) in
        (case bt_mesh_adv_create ADV_DATA (BT_MESH_TRANSMIT_COUNT transmit) (BT_MESH_TRANSMIT_INT transmit) s of
           (None, s) \<Rightarrow> s
         | (Some i, s) \<Rightarrow>
             let sbuf = relay_header rx sbuf;
                 s = on_buf i (\<lambda>b. net_buf_simple_add_mem b (nb_data sbuf)) s;
                 sub = get_sub s (rx_sub rx); keys = sn_keys sub (sn_kr_flag sub);
                 s = (if rx_friend_cred rx
                      then on_buf i (\<lambda>b. nb_put b 0 [(nb_byte b 0 AND 0x80) OR sk_nid keys]) s else s);
                 ivi = BT_MESH_NET_IVI_RX s rx;
                 (err, b) = bt_mesh_net_encrypt (sk_enc keys) (buf_b s i) ivi False;
                 s = on_buf i (\<lambda>_. b) s
             in if err \<noteq> None then net_buf_unref i s
             else
               let (err, b) = nb_obfuscate (buf_b s i) ivi (sk_privacy keys);
                   s = on_buf i (\<lambda>_. b) s
               in if err \<noteq> None then net_buf_unref i s
               else
                 let (relayed, s) =
                       (if bt_mesh_gatt_proxy_get s = 0x01 \<or> net_if = NET_IF_LOCAL
                        then bt_mesh_proxy_relay (buf_b s i) (rx_dst rx) s else (False, s))
                 in if relayed \<and> BT_MESH_ADDR_IS_UNICAST (rx_dst rx) then net_buf_unref i s
                    else net_buf_unref i
                           (if relay_to_adv s net_if then bt_mesh_adv_send i (Cb_User Cb_None) s else s)))"

definition ivu_complete :: "mesh \<Rightarrow> mesh" where
  "ivu_complete s =
     (let s = bt_mesh_beacon_ivu_initiator True s
      in snd (bt_mesh_net_iv_update (bm_iv_index (ms_net s)) False s))"

section \<open>The caches remember the last values\<close>

text \<open>
  The contract of the two caches: a value that is present is a hit and changes nothing, a new
  value overwrites the slot at the write position, which then advances.
\<close>

locale ring_cache =
  fixes hit :: "'a \<Rightarrow> 's \<Rightarrow> bool \<times> 's"
    and cache :: "'s \<Rightarrow> 'a list"
    and pos :: "'s \<Rightarrow> nat"
  assumes known: "v \<in> set (cache s) \<Longrightarrow> hit v s = (True, s)"
    and new: "v \<notin> set (cache s) \<Longrightarrow> \<not> fst (hit v s)"
    and cache_new: "v \<notin> set (cache s) \<Longrightarrow> cache (snd (hit v s)) = (cache s)[pos s := v]"
    and pos_new: "v \<notin> set (cache s) \<Longrightarrow> pos (snd (hit v s)) = (pos s + 1) mod length (cache s)"
begin

definition window :: "'s \<Rightarrow> 'a list" where
  "window s = drop (pos s) (cache s) @ take (pos s) (cache s)"

definition run :: "'a list \<Rightarrow> 's \<Rightarrow> 's" where
  "run vs s = fold (\<lambda>v s. snd (hit v s)) vs s"

lemma set_window: "set (window s) = set (cache s)"
proof -
  have "set (window s) = set (take (pos s) (cache s) @ drop (pos s) (cache s))"
    unfolding window_def by (simp only: set_append Un_commute)
  then show ?thesis by simp
qed

lemma hit_iff: "fst (hit v s) \<longleftrightarrow> v \<in> set (cache s)"
  using known new by fastforce

lemma length_cache: "length (cache (snd (hit v s))) = length (cache s)"
  by (cases "v \<in> set (cache s)") (simp_all add: known cache_new)

lemma pos_ok:
  assumes "pos s < length (cache s)"
  shows "pos (snd (hit v s)) < length (cache s)"
proof (cases "v \<in> set (cache s)")
  case False
  have "0 < length (cache s)" using assms by linarith
  from mod_less_divisor [OF this] False show ?thesis by (simp add: pos_new)
qed (use assms in \<open>simp add: known\<close>)

lemma window_step:
  assumes "pos s < length (cache s)" "v \<notin> set (cache s)"
  shows "window (snd (hit v s)) = tl (window s) @ [v]"
proof (cases "Suc (pos s) < length (cache s)")
  case True
  have "tl (drop (pos s) (cache s)) = drop (Suc (pos s)) (cache s)" by (simp add: drop_Suc tl_drop)
  moreover have "drop (pos s) (cache s) \<noteq> []" using assms(1) by simp
  ultimately show ?thesis
    using True assms by (simp add: window_def cache_new pos_new take_Suc_conv_app_nth)
next
  case False
  with assms have e: "Suc (pos s) = length (cache s)" by simp
  then have "take (Suc (pos s)) ((cache s)[pos s := v]) = (cache s)[pos s := v]" by simp
  then have "(cache s)[pos s := v] = take (pos s) (cache s) @ [v]"
    using assms(1) by (simp add: take_Suc_conv_app_nth del: take_all)
  moreover have "tl (drop (pos s) (cache s)) = drop (Suc (pos s)) (cache s)" by (simp add: drop_Suc tl_drop)
  ultimately show ?thesis using assms e by (cases "drop (pos s) (cache s)") (auto simp: window_def cache_new pos_new)
qed

text \<open>A new value is recognised until as many further values as the cache has slots came.\<close>

lemma stays:
  assumes "pos s < length (cache s)" "v \<in> set (drop k (window s))" "length vs \<le> k"
  shows "v \<in> set (cache (run vs s))"
  using assms
proof (induction vs arbitrary: s k)
  case Nil
  then have "v \<in> set (window s)" using set_drop_subset by fastforce
  then show ?case by (simp add: run_def set_window)
next
  case (Cons w ws)
  then obtain k' where k: "k = Suc k'" by (cases k) auto
  have "v \<in> set (drop k' (window (snd (hit w s))))"
  proof (cases "w \<in> set (cache s)")
    case True
    have "drop k (window s) = tl (drop k' (window s))" using k by (simp add: drop_Suc tl_drop)
    then have "v \<in> set (drop k' (window s))" using Cons.prems(2) by (metis list.set_sel(2) tl_Nil)
    with True show ?thesis by (simp add: known)
  next
    case False
    with window_step [OF Cons.prems(1) False] Cons.prems(2) k show ?thesis by (simp add: drop_Suc)
  qed
  with Cons.IH [of "snd (hit w s)" k'] pos_ok [OF Cons.prems(1), of w] Cons.prems(3) k
  show ?case by (simp add: run_def length_cache)
qed

lemma remembers:
  assumes "pos s < length (cache s)" "\<not> fst (hit v s)" "length vs < length (cache s)"
  shows "fst (hit v (run vs (snd (hit v s))))"
proof -
  have n: "v \<notin> set (cache s)" using assms(2) known by auto
  have l: "length (window s) = length (cache s)" by (simp add: window_def)
  have "v \<in> set (drop (length (cache s) - 1) (window (snd (hit v s))))"
    using window_step [OF assms(1) n] l by simp
  from stays [OF _ this, of vs] pos_ok [OF assms(1), of v] assms(3) show ?thesis
    by (simp add: hit_iff length_cache)
qed

text \<open>A hit is a value that was there before or came since.\<close>

lemma run_cache: "set (cache (run vs s)) \<subseteq> set (cache s) \<union> set vs"
proof (induction vs arbitrary: s)
  case (Cons w ws)
  have "set (cache (snd (hit w s))) \<subseteq> insert w (set (cache s))"
    by (cases "w \<in> set (cache s)") (auto simp: known cache_new dest: set_update_subset_insert [THEN subsetD])
  with Cons [of "snd (hit w s)"] show ?case by (auto simp: run_def)
qed (simp add: run_def)

end

lemma find_eq: "x \<notin> set xs \<Longrightarrow> find_index (\<lambda>v. v = x) xs = None" "x \<in> set xs \<Longrightarrow> \<exists>i. find_index (\<lambda>v. v = x) xs = Some i"
  using find_index_None [of "\<lambda>v. v = x" xs] by (auto simp flip: not_None_eq)

interpretation dup: ring_cache dup_cache_hit ms_dup_cache ms_dup_cache_next
  by unfold_locales (auto simp: dup_cache_hit_def find_eq(1) dest: find_eq(2))

interpretation msgc: ring_cache msg_cache_hit ms_msg_cache ms_msg_cache_next
  by unfold_locales (auto simp: msg_cache_hit_def find_eq(1) dest: find_eq(2))

section \<open>The bytes of a PDU on the air\<close>

text \<open>Obfuscation on a byte list, and the whole protection of a plain PDU.\<close>

definition net_obf :: "bytes \<Rightarrow> u32 \<Rightarrow> bytes \<Rightarrow> bytes" where
  "net_obf key iv d = projr (bt_mesh_net_obfuscate d iv key)"

definition net_wire :: "subnet_keys \<Rightarrow> u32 \<Rightarrow> bool \<Rightarrow> bytes \<Rightarrow> bytes" where
  "net_wire keys iv proxy d = net_obf (sk_privacy keys) iv (net_seal (sk_enc keys) iv proxy d)"

lemma obfuscate_Inr: "bt_mesh_net_obfuscate d iv key = Inr (net_obf key iv d)"
  by (simp add: net_obf_def obfuscate_eq)

lemma length_net_obf [simp]: "length (net_obf key iv d) = length d"
  by (simp add: net_obf_def obfuscate_eq)

lemma net_obf_twice: "7 \<le> length d \<Longrightarrow> net_obf key iv (net_obf key iv d) = d"
  using obfuscate_twice [of d iv key "net_obf key iv d"] by (simp add: obfuscate_Inr)

lemma net_obf_byte0: "7 \<le> length d \<Longrightarrow> byte_at (net_obf key iv d) 0 = byte_at d 0"
  by (simp add: net_obf_def obfuscate_eq byte_at_put)

lemma nb_data_put:
  assumes "nb_ok b" "i + length xs \<le> nb_len b"
  shows "nb_data (nb_put b i xs) = put_bytes (nb_data b) i xs"
proof (rule nth_equalityI)
  have len: "length (nb_data b) = nb_len b" using assms(1) by simp
  have ok: "nb_off b + nb_len b \<le> length (nb_buf b)" using assms(1) by (simp add: nb_ok_def)
  show "length (nb_data (nb_put b i xs)) = length (put_bytes (nb_data b) i xs)" using assms by simp
  fix j assume "j < length (nb_data (nb_put b i xs))"
  then have j: "j < nb_len b" using assms by simp
  have "nb_data (nb_put b i xs) ! j = put_bytes (nb_buf b) (nb_off b + i) xs ! (nb_off b + j)"
    using j ok by (simp add: nb_data_def nth_get_bytes) (simp add: nb_put_def)
  also have "\<dots> = byte_at (put_bytes (nb_buf b) (nb_off b + i) xs) (nb_off b + j)" using j ok by simp
  also have "\<dots> = byte_at (put_bytes (nb_data b) i xs) j"
    using j ok assms(2) len by (subst (1 2) byte_at_put) (auto simp: nb_data_def nth_get_bytes byte_at_def)
  finally show "nb_data (nb_put b i xs) ! j = put_bytes (nb_data b) i xs ! j" using j len by simp
qed

lemma nb_put_mem:
  assumes "nb_ok b" "i + length xs \<le> nb_len b"
  shows "nb_put b 0 (put_bytes (nb_mem b) i xs) = nb_put b i xs"
proof -
  have "nb_off b + i + length xs \<le> length (nb_buf b)" using assms by (simp add: nb_ok_def)
  then have "put_bytes (nb_buf b) (nb_off b) (put_bytes (nb_mem b) i xs) = put_bytes (nb_buf b) (nb_off b + i) xs"
    using take_add [of "nb_off b" i "nb_buf b"] by (simp add: put_bytes_in nb_mem_def algebra_simps)
  then show ?thesis by (simp add: nb_put_def)
qed

lemma nb_mem_byte: "nb_ok b \<Longrightarrow> i < nb_len b \<Longrightarrow> byte_at (nb_mem b) i = byte_at (nb_data b) i"
  by (simp add: nb_data_mem byte_at_def nb_ok_def nb_mem_def)

lemma nb_obfuscate_data:
  assumes "nb_ok b" "14 \<le> nb_len b"
  obtains b' where "nb_obfuscate b iv key = (None, b')" "nb_ok b'" "nb_data b' = net_obf key iv (nb_data b)"
    "nb_off b' = nb_off b" "nb_len b' = nb_len b" "length (nb_buf b') = length (nb_buf b)"
proof -
  define x where "x = (\<lambda>d. map (\<lambda>i. byte_at d (1 + i) XOR byte_at (projr (bt_mesh_aes_encrypt key (replicate 5 0
         @ sys_put_be32 iv @ map (\<lambda>i. byte_at d (7 + i)) [0..<7]))) i) [0..<6])"
  have o: "bt_mesh_net_obfuscate d iv key = Inr (put_bytes d 1 (x d))" for d unfolding x_def by (rule obfuscate_eq)
  have lx: "length (x d) = 6" for d by (simp add: x_def)
  have same: "byte_at (nb_mem b) i = byte_at (nb_data b) i" if "i < 14" for i
    using nb_mem_byte [OF assms(1)] assms(2) that by simp
  have m1: "map (\<lambda>i. byte_at (nb_mem b) (7 + i)) [0..<7] = map (\<lambda>i. byte_at (nb_data b) (7 + i)) [0..<7]"
    by (rule map_cong [OF refl]) (rule same, auto)
  have x: "x (nb_mem b) = x (nb_data b)"
    unfolding x_def m1 by (rule map_cong [OF refl]) (subst same, auto)
  have l: "1 + length (x (nb_data b)) \<le> nb_len b" using assms(2) by (simp add: lx)
  have "nb_obfuscate b iv key = (None, nb_put b 1 (x (nb_data b)))"
    using o [of "nb_mem b"] nb_put_mem [OF assms(1) l] by (simp add: nb_obfuscate_def x)
  moreover have "nb_data (nb_put b 1 (x (nb_data b))) = net_obf key iv (nb_data b)"
    using nb_data_put [OF assms(1) l] o [of "nb_data b"] by (simp add: net_obf_def)
  ultimately show thesis using that assms(1) by simp
qed

lemma net_wire_len:
  assumes "7 < length d" "length d < 65536"
  shows "length (net_wire keys iv proxy d) = length d + NET_MIC_LEN d"
    "net_obf (sk_privacy keys) iv (net_wire keys iv proxy d) = net_seal (sk_enc keys) iv proxy d"
    "byte_at (net_wire keys iv proxy d) 0 = byte_at d 0"
proof -
  let ?s = "net_seal (sk_enc keys) iv proxy d"
  note s = net_seal_ccm [OF assms, where key = "sk_enc keys" and proxy = proxy and iv = iv]
  have l: "7 \<le> length ?s" using s(2) assms by simp
  show "length (net_wire keys iv proxy d) = length d + NET_MIC_LEN d" using s(2) by (simp add: net_wire_def)
  show "net_obf (sk_privacy keys) iv (net_wire keys iv proxy d) = ?s" using net_obf_twice [OF l] by (simp add: net_wire_def)
  have "take 7 ?s ! 0 = take 7 d ! 0" using s(3) by simp
  then have "?s ! 0 = d ! 0" by simp
  moreover have "0 < length ?s" "0 < length d" using l assms(1) by linarith+
  ultimately show "byte_at (net_wire keys iv proxy d) 0 = byte_at d 0"
    using net_obf_byte0 [OF l] by (simp add: net_wire_def byte_at_def)
qed

section \<open>Encoding\<close>

text \<open>The plain PDU that \<^verbatim>\<open>bt_mesh_net_encode\<close> protects.\<close>

definition net_plain :: "u8 \<Rightarrow> u32 \<Rightarrow> bool \<Rightarrow> u8 \<Rightarrow> u24 \<Rightarrow> u16 \<Rightarrow> u16 \<Rightarrow> bytes \<Rightarrow> bytes" where
  "net_plain nid iv ctl ttl seq src dst payload =
     (nid OR push_bit 7 (ucast (iv AND 1))) # (if ctl then ttl OR 0x80 else ttl)
     # seq_bytes seq @ sys_put_be16 src @ sys_put_be16 dst @ payload"

lemma length_net_plain [simp, len_simps]: "length (net_plain nid iv ctl ttl seq src dst payload) = 9 + length payload"
  by (simp add: net_plain_def seq_bytes_def)

lemma bits7: "(ttl :: u8) < 0x80 \<longleftrightarrow> \<not> bit ttl 7"
proof -
  have "bit ttl 7 \<longleftrightarrow> bit (unat ttl) 7" by (simp add: bit_unsigned_iff)
  also have "\<dots> \<longleftrightarrow> odd (unat ttl div 128)" by (simp add: bit_iff_odd [where 'a = nat])
  also have "\<dots> \<longleftrightarrow> \<not> unat ttl < 128"
  proof (cases "unat ttl < 128")
    case False
    then have "unat ttl div 128 = 1" using unat_u8_less [of ttl] by (intro div_nat_eqI) auto
    then show ?thesis using False by simp
  qed simp
  finally show ?thesis by (simp add: word_less_nat_alt)
qed

lemma bit_single: "bit (0x80 :: int) n \<longleftrightarrow> n = 7"
proof -
  have m: "(0x80 :: int) = push_bit 7 1" by simp
  show ?thesis by (simp only: m bit_push_bit_iff bit_1_iff) auto
qed

lemma bit_low: "bit (0x7f :: int) n \<longleftrightarrow> n < 7"
proof -
  have m: "(0x7f :: int) = mask 7" by (simp add: mask_eq_exp_minus_1)
  show ?thesis by (simp only: m bit_mask_iff) auto
qed

lemma ttl_bits:
  assumes "ttl < (0x80 :: u8)"
  shows "ttl AND 0x80 = 0" "(ttl OR 0x80) AND 0x80 = 0x80"
  "ttl AND 0x7f = ttl" "(ttl OR 0x80) AND 0x7f = ttl"
  "drop_bit 7 ttl = 0" "drop_bit 7 (ttl OR 0x80) = 1"
proof -
  have b: "bit ttl n \<Longrightarrow> n < 7" for n
    using assms bit_imp_le_length [of ttl n] by (cases "n = 7") (auto simp: bits7)
  show "ttl AND 0x80 = 0" "(ttl OR 0x80) AND 0x80 = 0x80"
  "ttl AND 0x7f = ttl" "(ttl OR 0x80) AND 0x7f = ttl"
  "drop_bit 7 ttl = 0" "drop_bit 7 (ttl OR 0x80) = 1"
  by (rule bit_word_eqI, auto simp: bit_simps bit_single bit_low dest: b)+
qed

lemma plain_fields:
  assumes "ttl < 0x80" "nid < 0x80"
  shows "PDU_NID (net_plain nid iv ctl ttl seq src dst payload) = nid"
    and "PDU_IVI (net_plain nid iv ctl ttl seq src dst payload) = ucast (iv AND 1)"
    and "PDU_CTL (net_plain nid iv ctl ttl seq src dst payload) = of_bool ctl"
    and "PDU_TTL (net_plain nid iv ctl ttl seq src dst payload) = ttl"
    and "NET_MIC_LEN (net_plain nid iv ctl ttl seq src dst payload) = (if ctl then 8 else 4)"
    and "PDU_SEQ (net_plain nid iv ctl ttl seq src dst payload) = ucast seq"
    and "PDU_SRC (net_plain nid iv ctl ttl seq src dst payload) = src"
    and "PDU_DST (net_plain nid iv ctl ttl seq src dst payload) = dst"
proof -
  note t = ttl_bits [OF assms(1)]
  have nb: "bit nid n \<Longrightarrow> n < 7" for n
    using assms(2) bit_imp_le_length [of nid n] by (cases "n = 7") (auto simp: bits7)
  show "PDU_NID (net_plain nid iv ctl ttl seq src dst payload) = nid"
    unfolding PDU_NID_def net_plain_def byte_at_Cons_0
    by (rule bit_word_eqI) (auto simp: bit_simps bit_low dest: nb)
  show "PDU_IVI (net_plain nid iv ctl ttl seq src dst payload) = ucast (iv AND 1)"
    unfolding PDU_IVI_def net_plain_def byte_at_Cons_0
    by (rule bit_word_eqI) (auto simp: bit_simps dest: nb)
  show "PDU_CTL (net_plain nid iv ctl ttl seq src dst payload) = of_bool ctl"
    "PDU_TTL (net_plain nid iv ctl ttl seq src dst payload) = ttl"
    "NET_MIC_LEN (net_plain nid iv ctl ttl seq src dst payload) = (if ctl then 8 else 4)"
    using t by (simp_all add: PDU_CTL_def PDU_TTL_def NET_MIC_LEN_def net_plain_def)
  show "PDU_SEQ (net_plain nid iv ctl ttl seq src dst payload) = ucast seq"
  proof (rule bit_word_eqI)
    fix n assume "n < LENGTH(32)"
    then show "bit (PDU_SEQ (net_plain nid iv ctl ttl seq src dst payload)) n = bit (ucast seq :: u32) n"
      by (cases "n < 16") (auto simp: PDU_SEQ_def net_plain_def seq_bytes_def bit_simps dest: bit_imp_le_length)
  qed
  show "PDU_SRC (net_plain nid iv ctl ttl seq src dst payload) = src"
    "PDU_DST (net_plain nid iv ctl ttl seq src dst payload) = dst"
    by (simp_all add: PDU_SRC_def PDU_DST_def net_plain_def seq_bytes_def sys_put_be16_def)
      (simp_all add: sys_get_be16_def join8_split)
qed

lemma next_seq_sel [simp]:
  "ms_net (next_seq s) = (ms_net s)\<lparr>bm_seq := bm_seq (ms_net s) + 1\<rparr>"
  "get_sub (next_seq s) i = get_sub s i" "BT_MESH_NET_IVI_TX (next_seq s) = BT_MESH_NET_IVI_TX s"
  by (simp_all add: next_seq_def log_ev_def upd_net_def get_sub_def BT_MESH_NET_IVI_TX_def)

lemma net_encode_eq:
  assumes ok: "nb_ok b" "9 \<le> net_buf_simple_headroom b" "0 < nb_len b" and ttl: "cx_send_ttl (tx_ctx tx) < 0x80"
    and ctl: "ctl \<longleftrightarrow> cx_app_idx (tx_ctx tx) = BT_MESH_KEY_UNUSED"
    and room: "(if ctl then 8 else 4) \<le> net_buf_simple_tailroom b"
    and keys: "keys = sn_keys (get_sub s (tx_sub tx)) (sn_kr_flag (get_sub s (tx_sub tx)))" "sk_nid keys < 0x80"
  obtains b' where "bt_mesh_net_encode tx b proxy s = (None, tx\<lparr>tx_friend_cred := False\<rparr>, b', next_seq s)"
    "nb_ok b'" "length (nb_buf b') = length (nb_buf b)"
    "nb_data b' = net_wire keys (BT_MESH_NET_IVI_TX s) proxy
       (net_plain (sk_nid keys) (BT_MESH_NET_IVI_TX s) ctl (cx_send_ttl (tx_ctx tx)) (bm_seq (ms_net s)) (tx_src tx)
         (cx_addr (tx_ctx tx)) (nb_data b))"
proof -
  let ?iv = "BT_MESH_NET_IVI_TX s" and ?ttl = "cx_send_ttl (tx_ctx tx)" and ?dst = "cx_addr (tx_ctx tx)"
  let ?t = "if ctl then ?ttl OR 0x80 else ?ttl" and ?n = "sk_nid keys OR push_bit 7 (ucast (?iv AND 1))"
  let ?d = "net_plain (sk_nid keys) ?iv ctl ?ttl (bm_seq (ms_net s)) (tx_src tx) ?dst (nb_data b)"
  define b1 where "b1 = push_mem b (sys_put_be16 ?dst)"
  define b2 where "b2 = push_mem b1 (sys_put_be16 (tx_src tx))"
  define b3 where "b3 = push_mem b2 (seq_bytes (bm_seq (ms_net s)))"
  define b4 where "b4 = push_mem b3 [?t]"
  define b5 where "b5 = push_mem b4 [?n]"
  have sl: "length (seq_bytes q) = 3" for q by (simp add: seq_bytes_def)
  have p1: "nb_ok b1" "nb_data b1 = sys_put_be16 ?dst @ nb_data b" "7 \<le> net_buf_simple_headroom b1"
    "net_buf_simple_tailroom b1 = net_buf_simple_tailroom b"
    using push_mem_data [OF ok(1), of "sys_put_be16 ?dst"] ok(2) by (simp_all add: b1_def)
  have p2: "nb_ok b2" "nb_data b2 = sys_put_be16 (tx_src tx) @ nb_data b1" "5 \<le> net_buf_simple_headroom b2"
    "net_buf_simple_tailroom b2 = net_buf_simple_tailroom b1"
    using push_mem_data [OF p1(1), of "sys_put_be16 (tx_src tx)"] p1(3) by (simp_all add: b2_def)
  have p3: "nb_ok b3" "nb_data b3 = seq_bytes (bm_seq (ms_net s)) @ nb_data b2" "2 \<le> net_buf_simple_headroom b3"
    "net_buf_simple_tailroom b3 = net_buf_simple_tailroom b2"
    using push_mem_data [OF p2(1), of "seq_bytes (bm_seq (ms_net s))"] p2(3) by (simp_all add: b3_def sl)
  have p4: "nb_ok b4" "nb_data b4 = ?t # nb_data b3" "1 \<le> net_buf_simple_headroom b4"
    "net_buf_simple_tailroom b4 = net_buf_simple_tailroom b3"
    using push_mem_data [OF p3(1), of "[?t]"] p3(3) by (simp_all add: b4_def)
  have p5: "nb_ok b5" "nb_data b5 = ?n # nb_data b4" "net_buf_simple_tailroom b5 = net_buf_simple_tailroom b4"
    using push_mem_data [OF p4(1), of "[?n]"] p4(3) by (simp_all add: b5_def)
  have d: "nb_data b5 = ?d" using p1 p2 p3 p4 p5 by (simp add: net_plain_def)
  have len: "nb_len b5 = 9 + nb_len b" using length_nb_data [OF p5(1)] d ok(1) by simp
  have bl: "length (nb_buf b5) = length (nb_buf b)"
    by (simp add: b5_def b4_def b3_def b2_def b1_def push_mem_def net_buf_simple_push_def)
  have mic: "NET_MIC_LEN (nb_data b5) = (if ctl then 8 else 4)" using plain_fields(5) [OF ttl keys(2)] d by simp
  obtain b6 where e: "bt_mesh_net_encrypt (sk_enc keys) b5 ?iv proxy = (None, b6)" "nb_ok b6"
    "nb_data b6 = net_seal (sk_enc keys) ?iv proxy ?d" "length (nb_buf b6) = length (nb_buf b5)"
    using net_encrypt_refines [OF p5(1), of "sk_enc keys" ?iv proxy] mic room len p1 p2 p3 p4 p5 d by auto
  have l6: "14 \<le> nb_len b6"
  proof -
    have "length (nb_data b6) = length ?d + NET_MIC_LEN ?d"
      using net_seal_ccm(2) [of ?d "sk_enc keys" ?iv proxy] e(3) d ok p5(1) len by (simp add: nb_ok_def)
    then show ?thesis using length_nb_data [OF e(2)] mic d length_nb_data [OF ok(1)] ok(3) by (simp split: if_splits)
  qed
  obtain b7 where o: "nb_obfuscate b6 ?iv (sk_privacy keys) = (None, b7)" "nb_ok b7"
    "nb_data b7 = net_obf (sk_privacy keys) ?iv (nb_data b6)" "length (nb_buf b7) = length (nb_buf b6)"
    using nb_obfuscate_data [OF e(2) l6] by metis
  have "bt_mesh_net_encode tx b proxy s = (None, tx\<lparr>tx_friend_cred := False\<rparr>, b7, next_seq s)"
  proof -
    have r: "\<not> (ctl \<and> net_buf_simple_tailroom b < 8)" "\<not> net_buf_simple_tailroom b < 4" using room by (auto split: if_splits)
    have "nb_put (net_buf_simple_push b2 3) 0 (seq_bytes (bm_seq (ms_net s))) = b3" by (simp add: b3_def push_mem_def sl)
    moreover have "net_buf_simple_push_be16 (net_buf_simple_push_be16 b ?dst) (tx_src tx) = b2"
      by (simp add: push_as_mem b2_def b1_def)
    moreover have "(if ctl then net_buf_simple_push_u8 b3 (?ttl OR 0x80) else net_buf_simple_push_u8 b3 ?ttl) = b4"
      by (simp add: push_as_mem b4_def)
    moreover have "net_buf_simple_push_u8 b4 ?n = b5" by (simp add: push_as_mem b5_def)
    ultimately show ?thesis
      using r e(1) o(1) keys(1) ctl by (cases ctl) (auto simp: bt_mesh_net_encode_def Let_def)
  qed
  with that [of b7] o e bl show thesis by (simp add: net_wire_def)
qed

section \<open>Decrypting with one key\<close>

lemma byte_at_drop: "byte_at (drop k xs) i = byte_at xs (k + i)"
  by (auto simp: byte_at_def)

lemma fields_mem:
  assumes "nb_ok b" "9 \<le> nb_len b"
  shows "PDU_SRC (nb_mem b) = PDU_SRC (nb_data b)" "PDU_DST (nb_mem b) = PDU_DST (nb_data b)"
    "PDU_SEQ (nb_mem b) = PDU_SEQ (nb_data b)" "PDU_TTL (nb_mem b) = PDU_TTL (nb_data b)"
    "PDU_CTL (nb_mem b) = PDU_CTL (nb_data b)" "msg_hash s rx (nb_mem b) = msg_hash s rx (nb_data b)"
proof -
  have m: "byte_at (nb_mem b) i = byte_at (nb_data b) i" if "i < 9" for i
    using nb_mem_byte [OF assms(1)] assms(2) that by simp
  have d: "byte_at (drop k xs) i = byte_at xs (k + i)" for k i and xs :: bytes by (auto simp: byte_at_def)
  show "PDU_SRC (nb_mem b) = PDU_SRC (nb_data b)" "PDU_DST (nb_mem b) = PDU_DST (nb_data b)"
    "PDU_SEQ (nb_mem b) = PDU_SEQ (nb_data b)" "PDU_TTL (nb_mem b) = PDU_TTL (nb_data b)"
    "PDU_CTL (nb_mem b) = PDU_CTL (nb_data b)" "msg_hash s rx (nb_mem b) = msg_hash s rx (nb_data b)"
    by (simp_all add: PDU_SRC_def PDU_DST_def PDU_SEQ_def PDU_TTL_def PDU_CTL_def msg_hash_def sys_get_be16_def d m)
qed

text \<open>The IV Index a PDU is decrypted with, chosen by its IVI bit.\<close>

definition rx_iv :: "mesh \<Rightarrow> bytes \<Rightarrow> u32" where
  "rx_iv s data = bm_iv_index (ms_net s) - (if ucast (PDU_IVI data) \<noteq> bm_iv_index (ms_net s) AND 0x01 then 1 else 0)"

lemma msg_cache_hit_net [simp]: "ms_net (snd (msg_cache_hit h s)) = ms_net s" "ms_comp (snd (msg_cache_hit h s)) = ms_comp s"
  by (simp_all add: msg_cache_hit_def split: option.splits)

lemma dup_cache_hit_net [simp]: "ms_net (snd (dup_cache_hit h s)) = ms_net s" "ms_comp (snd (dup_cache_hit h s)) = ms_comp s"
    "ms_msg_cache (snd (dup_cache_hit h s)) = ms_msg_cache s"
  by (simp_all add: dup_cache_hit_def split: option.splits)

definition wire_hash :: "u32 \<Rightarrow> bytes \<Rightarrow> u64" where
  "wire_hash iv pdu =
     push_bit 32 (ucast (push_bit 8 iv OR ucast (byte_at pdu 2)))
     OR ucast (sys_get_le32 [byte_at pdu 3, byte_at pdu 4, byte_at pdu 5, byte_at pdu 6])"

lemma net_decrypt_cases:
  assumes "nb_ok buf" "18 \<le> length data" "length data \<le> length (nb_buf buf)"
    and p: "p = net_obf priv (rx_iv s data) data"
  obtains err rx' b' s' where "net_decrypt enc priv data rx buf s = (err, rx', b', s')"
    "nb_ok b'" "length (nb_buf b') = length (nb_buf buf)" "ms_net s' = ms_net s" "ms_comp s' = ms_comp s"
    "rx_net_if rx' = rx_net_if rx" "rx_new_key rx' = rx_new_key rx"
    "err = (if rx_net_if rx = NET_IF_ADV \<and> wire_hash (rx_iv s data) p \<in> set (ms_msg_cache s) then Some EALREADY
       else if \<not> BT_MESH_ADDR_IS_UNICAST (PDU_SRC p) then Some EINVAL
       else if net_open enc (rx_iv s data) (rx_net_if rx = NET_IF_PROXY_CFG) p = None then Some EBADMSG else None)"
    "err = None \<Longrightarrow> net_open enc (rx_iv s data) (rx_net_if rx = NET_IF_PROXY_CFG) p = Some (nb_data b') \<and>
       cx_addr (rx_ctx rx') = PDU_SRC p \<and> BT_MESH_NET_IVI_RX s' rx' = rx_iv s data"
    "s' = (if rx_net_if rx = NET_IF_ADV then snd (msg_cache_hit (wire_hash (rx_iv s data) p) s) else s)"
proof -
  let ?iv = "rx_iv s data" and ?cfg = "rx_net_if rx = NET_IF_PROXY_CFG"
  define rx1 where "rx1 = rx\<lparr>rx_old_iv := (ucast (PDU_IVI data) \<noteq> bm_iv_index (ms_net s) AND 0x01)\<rparr>"
  have iv: "BT_MESH_NET_IVI_RX s rx1 = ?iv" by (simp add: BT_MESH_NET_IVI_RX_def rx1_def rx_iv_def)
  let ?b0 = "net_buf_simple_init buf 0"
  have i: "nb_ok ?b0" "nb_data ?b0 = []" "length data \<le> net_buf_simple_tailroom ?b0"
    using init_data [OF assms(1), of 0] assms(3) by simp_all
  let ?b1 = "net_buf_simple_add_mem ?b0 data"
  have b1: "nb_ok ?b1" "nb_data ?b1 = data" using add_mem_data [OF i(1,3)] i(2) by simp_all
  have bl1: "length (nb_buf ?b1) = length (nb_buf buf)"
    by (simp add: net_buf_simple_add_mem_def net_buf_simple_add_def net_buf_simple_init_def)
  have l1: "nb_len ?b1 = length data" using length_nb_data [OF b1(1)] b1(2) by simp
  obtain b2 where o: "nb_obfuscate ?b1 ?iv priv = (None, b2)" "nb_ok b2" "nb_data b2 = p"
    "nb_len b2 = length data" "length (nb_buf b2) = length (nb_buf buf)"
    using nb_obfuscate_data [OF b1(1), of ?iv priv] l1 assms(2) b1(2) p bl1 by auto
  have mic: "NET_MIC_LEN p + 7 < nb_len b2" using NET_MIC_LEN_range(2) [of p] o(4) assms(2) by linarith
  obtain b3 where d: "bt_mesh_net_decrypt enc b2 ?iv ?cfg = (if net_open enc ?iv ?cfg p = None then Some EBADMSG else None, b3)"
    "nb_ok b3" "length (nb_buf b3) = length (nb_buf b2)" "\<And>d. net_open enc ?iv ?cfg p = Some d \<Longrightarrow> nb_data b3 = d"
    using net_decrypt_refines [OF o(2), of enc ?iv ?cfg] mic o(3) by metis
  have "msg_hash s rx1 p = wire_hash ?iv p" by (simp add: msg_hash_def wire_hash_def iv)
  then have f: "PDU_SRC (nb_mem b2) = PDU_SRC p" "msg_hash s rx1 (nb_mem b2) = wire_hash ?iv p"
    using fields_mem [OF o(2)] o(3,4) assms(2) by simp_all
  let ?rx = "rx1\<lparr>rx_ctx := (rx_ctx rx1)\<lparr>cx_addr := PDU_SRC p\<rparr>\<rparr>"
  let ?s = "if rx_net_if rx = NET_IF_ADV then snd (msg_cache_hit (wire_hash ?iv p) s) else s"
  have hit: "fst (msg_cache_hit (wire_hash ?iv p) s) \<longleftrightarrow> wire_hash ?iv p \<in> set (ms_msg_cache s)"
    by (rule msgc.hit_iff)
  have ivr: "BT_MESH_NET_IVI_RX ?s ?rx = ?iv" using iv by (auto simp: BT_MESH_NET_IVI_RX_def split: if_splits)
  let ?m = "if rx_net_if rx = NET_IF_ADV then msg_cache_match rx1 (nb_mem b2) s else (False, s)"
  have m: "?m = (rx_net_if rx = NET_IF_ADV \<and> wire_hash ?iv p \<in> set (ms_msg_cache s), ?s)"
    using f(2) hit by (simp add: msg_cache_match_def prod_eq_iff)
  have run: "net_decrypt enc priv data rx buf s =
     (if rx_net_if rx = NET_IF_ADV \<and> wire_hash ?iv p \<in> set (ms_msg_cache s) then (Some EALREADY, rx1, b2, ?s)
      else if \<not> BT_MESH_ADDR_IS_UNICAST (PDU_SRC p) then (Some EINVAL, ?rx, b2, ?s)
      else (if net_open enc ?iv ?cfg p = None then Some EBADMSG else None, ?rx, b3, ?s))"
    unfolding net_decrypt_def Let_def rx1_def [symmetric] iv o(1)
    using m f(1) d(1) ivr by (auto simp: rx1_def split: prod.splits)
  have keep: "ms_net ?s = ms_net s" "ms_comp ?s = ms_comp s" "rx_net_if rx1 = rx_net_if rx" "rx_new_key rx1 = rx_new_key rx"
    by (simp_all add: rx1_def)
  consider (dup) "rx_net_if rx = NET_IF_ADV \<and> wire_hash ?iv p \<in> set (ms_msg_cache s)"
    | (src) "\<not> (rx_net_if rx = NET_IF_ADV \<and> wire_hash ?iv p \<in> set (ms_msg_cache s))" "\<not> BT_MESH_ADDR_IS_UNICAST (PDU_SRC p)"
    | (opened) "\<not> (rx_net_if rx = NET_IF_ADV \<and> wire_hash ?iv p \<in> set (ms_msg_cache s))" "BT_MESH_ADDR_IS_UNICAST (PDU_SRC p)"
    by blast
  then show thesis
  proof cases
    case dup
    with run have "net_decrypt enc priv data rx buf s = (Some EALREADY, rx1, b2, ?s)" by simp
    from that [OF this] dup o keep show thesis by simp
  next
    case src
    with run have "net_decrypt enc priv data rx buf s = (Some EINVAL, ?rx, b2, ?s)" by auto
    from that [OF this] src o keep show thesis by auto
  next
    case opened
    with run have r: "net_decrypt enc priv data rx buf s = (if net_open enc ?iv ?cfg p = None then Some EBADMSG else None, ?rx, b3, ?s)"
      by auto
    have data: "net_open enc ?iv ?cfg p \<noteq> None \<Longrightarrow> net_open enc ?iv ?cfg p = Some (nb_data b3)" using d(4) by auto
    show thesis
      by (rule that [OF r]) (use opened data d(2,3) o(5) keep ivr in \<open>auto split: if_splits\<close>)
  qed
qed

section \<open>What decodes is authentic\<close>

text \<open>
  The data is the protected form of the plain PDU \<open>d\<close> under the given keys, and \<open>d\<close> has a unicast
  source, which is the address reported.
\<close>

definition net_authentic :: "u32 \<Rightarrow> subnet_keys \<Rightarrow> bool \<Rightarrow> bytes \<Rightarrow> bt_mesh_net_rx \<Rightarrow> bytes \<Rightarrow> bool" where
  "net_authentic iv keys cfg data rx d \<longleftrightarrow>
     PDU_NID data = sk_nid keys \<and> data = net_wire keys iv cfg d \<and>
     cx_addr (rx_ctx rx) = PDU_SRC d \<and> BT_MESH_ADDR_IS_UNICAST (PDU_SRC d)"

lemma src_cong: "take 7 p = take 7 d \<Longrightarrow> 7 \<le> length p \<Longrightarrow> 7 \<le> length d \<Longrightarrow> PDU_SRC p = PDU_SRC d"
proof -
  assume a: "take 7 p = take 7 d" "7 \<le> length p" "7 \<le> length d"
  have "p ! i = d ! i" if "i < 7" for i using a(1) that by (metis nth_take)
  then show ?thesis using a by (simp add: PDU_SRC_def sys_get_be16_def byte_at_def)
qed

lemma rx_iv_net: "ms_net s = ms_net t \<Longrightarrow> rx_iv s data = rx_iv t data"
  by (simp add: rx_iv_def)

lemma try_key_sound:
  assumes "try_key keys data rx buf s = (ok, rx', b', s')"
    and "nb_ok buf" "18 \<le> length data" "length data \<le> length (nb_buf buf)"
  shows "nb_ok b' \<and> length (nb_buf b') = length (nb_buf buf) \<and> ms_net s' = ms_net s \<and> ms_comp s' = ms_comp s \<and>
    rx_net_if rx' = rx_net_if rx \<and> rx_new_key rx' = rx_new_key rx \<and>
    (ok \<longrightarrow> net_authentic (rx_iv s data) keys (rx_net_if rx = NET_IF_PROXY_CFG) data rx' (nb_data b')
         \<and> BT_MESH_NET_IVI_RX s' rx' = rx_iv s data \<and> 9 < nb_len b')"
proof (cases "PDU_NID data = sk_nid keys")
  case False
  with assms show ?thesis by (simp add: try_key_def)
next
  case True
  let ?iv = "rx_iv s data" and ?cfg = "rx_net_if rx = NET_IF_PROXY_CFG"
  let ?p = "net_obf (sk_privacy keys) ?iv data"
  show ?thesis
  proof (rule net_decrypt_cases [OF assms(2-4) refl,
        where priv = "sk_privacy keys" and s = s and enc = "sk_enc keys" and rx = rx])
    fix err rx2 b2 s2
    assume r: "net_decrypt (sk_enc keys) (sk_privacy keys) data rx buf s = (err, rx2, b2, s2)"
      and keep: "nb_ok b2" "length (nb_buf b2) = length (nb_buf buf)" "ms_net s2 = ms_net s" "ms_comp s2 = ms_comp s"
        "rx_net_if rx2 = rx_net_if rx" "rx_new_key rx2 = rx_new_key rx"
      and e: "err = (if rx_net_if rx = NET_IF_ADV \<and> wire_hash ?iv ?p \<in> set (ms_msg_cache s) then Some EALREADY
       else if \<not> BT_MESH_ADDR_IS_UNICAST (PDU_SRC ?p) then Some EINVAL
       else if net_open (sk_enc keys) ?iv ?cfg ?p = None then Some EBADMSG else None)"
      and good: "err = None \<Longrightarrow> net_open (sk_enc keys) ?iv ?cfg ?p = Some (nb_data b2) \<and>
       cx_addr (rx_ctx rx2) = PDU_SRC ?p \<and> BT_MESH_NET_IVI_RX s2 rx2 = ?iv"
    have eq: "ok = (err = None)" "rx' = rx2" "b' = b2" "s' = s2" using assms(1) True r by (auto simp: try_key_def)
    have "net_authentic ?iv keys ?cfg data rx2 (nb_data b2) \<and> 9 < nb_len b2" if "err = None"
    proof -
      have small: "length ?p < 65536" using assms(2,4) by (simp add: nb_ok_def)
      have op: "net_open (sk_enc keys) ?iv ?cfg ?p = Some (nb_data b2)" using good [OF that] by simp
      note s = net_seal_open [OF op small]
      have l7: "7 \<le> length ?p" "7 \<le> length (nb_data b2)" "7 \<le> length data" using assms(3) s(2) by simp_all
      have "data = net_wire keys ?iv ?cfg (nb_data b2)" using s(1) net_obf_twice [OF l7(3)] by (simp add: net_wire_def)
      moreover have "PDU_SRC ?p = PDU_SRC (nb_data b2)" by (rule src_cong [OF s(4) l7(1,2)])
      moreover have "BT_MESH_ADDR_IS_UNICAST (PDU_SRC ?p)" using e that by (auto split: if_splits)
      moreover have "length data = nb_len b2 + NET_MIC_LEN (nb_data b2)" using s(3) length_nb_data [OF keep(1)] by simp
      then have "9 < nb_len b2" using assms(3) NET_MIC_LEN_range(2) [of "nb_data b2"] by linarith
      ultimately show ?thesis using True good [OF that] by (simp add: net_authentic_def)
    qed
    then show ?thesis using eq keep good by simp
  qed
qed

text \<open>The PDU was accepted with a key of the given subnet.\<close>

definition net_found ::
  "mesh \<Rightarrow> bt_mesh_net_rx \<Rightarrow> bytes \<Rightarrow> bt_mesh_subnet \<Rightarrow> bool \<Rightarrow> bt_mesh_net_rx \<Rightarrow> net_buf_simple \<Rightarrow> mesh \<Rightarrow> bool" where
  "net_found s rx data sub new_key rx' b' s' \<longleftrightarrow>
     sn_net_idx sub \<noteq> BT_MESH_KEY_UNUSED \<and> (new_key \<longrightarrow> sn_kr_phase sub \<noteq> BT_MESH_KR_NORMAL) \<and>
     cx_net_idx (rx_ctx rx') = sn_net_idx sub \<and> rx_new_key rx' = (rx_new_key rx \<or> new_key) \<and>
     net_authentic (rx_iv s data) (sn_keys sub new_key) (rx_net_if rx = NET_IF_PROXY_CFG) data rx' (nb_data b') \<and>
     nb_ok b' \<and> 9 < nb_len b' \<and> ms_net s' = ms_net s \<and> ms_comp s' = ms_comp s \<and>
     rx_net_if rx' = rx_net_if rx \<and> BT_MESH_NET_IVI_RX s' rx' = rx_iv s data"

lemma net_found_back:
  assumes "net_found s2 rx2 data sub new_key rx' b' s'" "ms_net s2 = ms_net s" "ms_comp s2 = ms_comp s"
    "rx_net_if rx2 = rx_net_if rx" "rx_new_key rx2 = rx_new_key rx"
  shows "net_found s rx data sub new_key rx' b' s'"
  using assms rx_iv_net [OF assms(2)] by (simp add: net_found_def)

lemma try_key_found:
  assumes "try_key (sn_keys sub new_key) data rx buf s = (True, rx', b', s')" "sn_net_idx sub \<noteq> BT_MESH_KEY_UNUSED"
    "nb_ok buf" "18 \<le> length data" "length data \<le> length (nb_buf buf)" "new_key \<longrightarrow> sn_kr_phase sub \<noteq> BT_MESH_KR_NORMAL"
    and rx2: "rx2 = rx'\<lparr>rx_new_key := (rx_new_key rx' \<or> new_key), rx_ctx := (rx_ctx rx')\<lparr>cx_net_idx := sn_net_idx sub\<rparr>, rx_sub := i\<rparr>"
  shows "net_found s rx data sub new_key rx2 b' s'"
  using try_key_sound [OF assms(1,3-5)] assms(2,6)
  by (auto simp: net_found_def net_authentic_def BT_MESH_NET_IVI_RX_def rx2 split: if_splits)

lemma net_find_sound:
  assumes "net_find_from i subs data rx buf s = (True, rx', b', s')"
    and "nb_ok buf" "18 \<le> length data" "length data \<le> length (nb_buf buf)"
  shows "\<exists>j<length subs. \<exists>new_key. rx_sub rx' = i + j \<and> net_found s rx data (subs ! j) new_key rx' b' s'"
  using assms
proof (induction subs arbitrary: i rx buf s)
  case (Cons sub subs)
  have later: ?case if r: "net_find_from (i + 1) subs data rx2 b2 s2 = (True, rx', b', s')" and ok: "nb_ok b2"
    and len: "length (nb_buf b2) = length (nb_buf buf)"
    and keep: "ms_net s2 = ms_net s" "ms_comp s2 = ms_comp s" "rx_net_if rx2 = rx_net_if rx" "rx_new_key rx2 = rx_new_key rx"
    for rx2 b2 s2
  proof -
    from Cons.IH [OF r ok Cons.prems(3)] Cons.prems(4) len
    obtain j new_key where "j < length subs" "rx_sub rx' = i + 1 + j" "net_found s2 rx2 data (subs ! j) new_key rx' b' s'"
      by auto
    with net_found_back [OF _ keep] show ?thesis by (intro exI [of _ "Suc j"] conjI exI [of _ new_key]) auto
  qed
  have here: ?case if "net_found s rx data sub new_key rx' b' s'" "rx_sub rx' = i" for new_key
    using that by (intro exI [of _ 0] conjI exI [of _ new_key]) auto
  show ?case
  proof (cases "sn_net_idx sub = BT_MESH_KEY_UNUSED")
    case True
    with later [of rx buf s] Cons.prems show ?thesis by simp
  next
    case used: False
    obtain ok0 rx0 b0 s0 where t0: "try_key (sn_key0 sub) data rx buf s = (ok0, rx0, b0, s0)" by (metis prod_cases4)
    note k0 = try_key_sound [OF t0 Cons.prems(2-4)]
    show ?thesis
    proof (cases ok0)
      case True
      then have t: "try_key (sn_keys sub False) data rx buf s = (True, rx0, b0, s0)" using t0 by (simp add: sn_keys_def)
      from t0 used Cons.prems(1) True
      have e: "rx' = rx0\<lparr>rx_ctx := (rx_ctx rx0)\<lparr>cx_net_idx := sn_net_idx sub\<rparr>, rx_sub := i\<rparr>" "b' = b0" "s' = s0" by simp_all
      from try_key_found [OF t used Cons.prems(2-4), of _ i] e show ?thesis by (intro here [of False]) simp_all
    next
      case no0: False
      show ?thesis
      proof (cases "sn_kr_phase sub = BT_MESH_KR_NORMAL")
        case True
        with later [of rx0 b0 s0] t0 used no0 Cons.prems(1) k0 show ?thesis by simp
      next
        case phase: False
        obtain ok1 rx1 b1 s1 where t1: "try_key (sn_key1 sub) data rx0 b0 s0 = (ok1, rx1, b1, s1)" by (metis prod_cases4)
        have ok: "nb_ok b0" "length data \<le> length (nb_buf b0)" using k0 Cons.prems(4) by auto
        note k1 = try_key_sound [OF t1 ok(1) Cons.prems(3) ok(2)]
        show ?thesis
        proof (cases ok1)
          case True
          then have t: "try_key (sn_keys sub True) data rx0 b0 s0 = (True, rx1, b1, s1)" using t1 by (simp add: sn_keys_def)
          from t0 t1 used no0 phase Cons.prems(1) True
          have e: "rx' = rx1\<lparr>rx_new_key := True, rx_ctx := (rx_ctx rx1)\<lparr>cx_net_idx := sn_net_idx sub\<rparr>, rx_sub := i\<rparr>"
            "b' = b1" "s' = s1" by simp_all
          have "net_found s0 rx0 data sub True rx' b' s'"
            using try_key_found [OF t used ok(1) Cons.prems(3) ok(2), of _ i] e phase by simp
          from net_found_back [OF this] k0 e show ?thesis by (intro here [of True]) simp_all
        next
          case False
          with later [of rx1 b1 s1] t0 t1 used no0 phase Cons.prems(1) k0 k1 show ?thesis by simp
        qed
      qed
    qed
  qed
qed simp

section \<open>What a node encodes, another decodes\<close>

lemma parity_step: "(iv - 1) AND 1 \<noteq> iv AND (1 :: u32)"
proof -
  have "odd (iv - 1) \<longleftrightarrow> even iv" by simp
  then show ?thesis by (cases "even iv") (simp_all add: and_one_eq mod_2_eq_odd)
qed

lemma rx_iv_plain:
  assumes "PDU_IVI data = ucast (iv AND 1)" "iv = bm_iv_index (ms_net s) \<or> iv = bm_iv_index (ms_net s) - 1"
  shows "rx_iv s data = iv"
proof -
  have "iv AND 1 < 0x100" by (cases "even iv") (simp_all add: and_one_eq mod_2_eq_odd)
  then have "ucast (PDU_IVI data) = iv AND 1" using assms(1) ucast_small(1) [of "iv AND 1"] by simp
  then show ?thesis using assms(2) parity_step [of "bm_iv_index (ms_net s)"] by (auto simp: rx_iv_def)
qed

lemma bytes7_seal:
  assumes "7 < length d" "length d < 65536" "i < 7"
  shows "byte_at (net_seal key iv proxy d) i = byte_at d i"
proof -
  note s = net_seal_ccm(2,3) [OF assms(1,2), of key iv proxy]
  have "net_seal key iv proxy d ! i = d ! i" using s(2) assms(3) by (metis nth_take)
  then show ?thesis using s(1) assms by (simp add: byte_at_def)
qed

text \<open>The receiver's side: a fresh PDU protected with the first subnet's key is accepted.\<close>

lemma net_decode_wire:
  assumes sub: "bm_sub (ms_net s) = sub # subs" "sn_net_idx sub \<noteq> BT_MESH_KEY_UNUSED" "keys = sn_key0 sub" "sk_nid keys < 0x80"
    and iv: "iv = bm_iv_index (ms_net s) \<or> iv = bm_iv_index (ms_net s) - 1"
    and d: "d = net_plain (sk_nid keys) iv ctl ttl seq src dst payload" "ttl < 0x80"
    and len: "(if ctl then 1 else 5) \<le> length payload" "length payload < 65000"
    and addr: "BT_MESH_ADDR_IS_UNICAST src" "\<not> BT_MESH_ADDR_IS_RFU dst" "net_if = NET_IF_PROXY_CFG \<or> dst \<noteq> BT_MESH_ADDR_UNASSIGNED"
      "net_if = NET_IF_LOCAL \<or> bt_mesh_elem_find s src = None"
    and data: "nb_ok data" "nb_data data = net_wire keys iv (net_if = NET_IF_PROXY_CFG) d"
    and buf: "nb_ok buf" "nb_len data \<le> length (nb_buf buf)"
    and fresh: "net_if = NET_IF_ADV \<Longrightarrow> dup_val data \<notin> set (ms_dup_cache s) \<and> wire_hash iv d \<notin> set (ms_msg_cache s)"
  obtains rx' buf' s' where "bt_mesh_net_decode data net_if rx buf s = (None, rx', buf', s')" "nb_ok buf'" "nb_data buf' = d"
    "cx_addr (rx_ctx rx') = src" "rx_dst rx' = dst" "rx_seq rx' = ucast seq" "cx_recv_ttl (rx_ctx rx') = ttl"
    "rx_ctl rx' = ctl" "rx_sub rx' = 0" "cx_net_idx (rx_ctx rx') = sn_net_idx sub"
proof -
  let ?cfg = "net_if = NET_IF_PROXY_CFG" and ?raw = "nb_data data"
  note f = plain_fields [OF d(2) sub(4), of iv ctl seq src dst payload, folded d(1)]
  have ld: "7 < length d" "length d = 9 + length payload" using d(1) by simp_all
  have lr: "length ?raw = nb_len data" "nb_len data < 65536" using data(1) by (simp_all add: nb_ok_def)
  have small: "length d < 65536" using len(2) ld(2) by simp
  note w = net_wire_len [OF ld(1) small, of keys iv ?cfg]
  have l18: "18 \<le> nb_len data" using w(1) data(2) lr f(5) ld(2) len(1) by (simp split: if_splits)
  define s0 where "s0 = (if net_if = NET_IF_ADV then snd (check_dup data s) else s)"
  have s0: "ms_net s0 = ms_net s" "ms_comp s0 = ms_comp s" "ms_msg_cache s0 = ms_msg_cache s"
    by (simp_all add: s0_def check_dup_def)
  have nid: "PDU_NID ?raw = sk_nid keys" "PDU_IVI ?raw = ucast (iv AND 1)"
    using w(3) data(2) f(1,2) by (simp_all add: PDU_NID_def PDU_IVI_def)
  have ivr: "rx_iv s0 ?raw = iv" by (rule rx_iv_plain [OF nid(2)]) (use iv s0 in simp)
  let ?p = "net_seal (sk_enc keys) iv ?cfg d"
  have p: "?p = net_obf (sk_privacy keys) (rx_iv s0 ?raw) ?raw" using w(2) data(2) ivr by simp
  have p7: "byte_at ?p i = byte_at d i" if "i < 7" for i by (rule bytes7_seal [OF ld(1) small that])
  have src: "PDU_SRC ?p = src" "wire_hash iv ?p = wire_hash iv d"
    using f(7) p7 by (simp_all add: PDU_SRC_def sys_get_be16_def wire_hash_def byte_at_drop)
  let ?rx = "rx\<lparr>rx_net_if := net_if\<rparr>"
  have n2: "18 \<le> length ?raw" "length ?raw \<le> length (nb_buf buf)" using l18 lr buf(2) by simp_all
  obtain rx1 b1 s1 where dec: "net_decrypt (sk_enc keys) (sk_privacy keys) ?raw ?rx buf s0 = (None, rx1, b1, s1)" "nb_ok b1"
    "nb_data b1 = d" "cx_addr (rx_ctx rx1) = src" "ms_comp s1 = ms_comp s"
  proof (rule net_decrypt_cases [OF buf(1) n2 p, where enc = "sk_enc keys" and rx = ?rx])
    fix err rx2 b2 s2
    assume r: "net_decrypt (sk_enc keys) (sk_privacy keys) ?raw ?rx buf s0 = (err, rx2, b2, s2)" "nb_ok b2" "ms_comp s2 = ms_comp s0"
      and e: "err = (if rx_net_if ?rx = NET_IF_ADV \<and> wire_hash (rx_iv s0 ?raw) ?p \<in> set (ms_msg_cache s0) then Some EALREADY
       else if \<not> BT_MESH_ADDR_IS_UNICAST (PDU_SRC ?p) then Some EINVAL
       else if net_open (sk_enc keys) (rx_iv s0 ?raw) (rx_net_if ?rx = NET_IF_PROXY_CFG) ?p = None then Some EBADMSG else None)"
      and good: "err = None \<Longrightarrow> net_open (sk_enc keys) (rx_iv s0 ?raw) (rx_net_if ?rx = NET_IF_PROXY_CFG) ?p = Some (nb_data b2) \<and>
       cx_addr (rx_ctx rx2) = PDU_SRC ?p \<and> BT_MESH_NET_IVI_RX s2 rx2 = rx_iv s0 ?raw"
    have op: "net_open (sk_enc keys) iv ?cfg ?p = Some d" by (rule net_open_seal [OF ld(1) small])
    have "err = None" using e op src ivr addr(1) fresh s0(3) by auto
    with good op ivr src(1) r s0 that show thesis by auto
  qed
  let ?rx1 = "rx1\<lparr>rx_ctx := (rx_ctx rx1)\<lparr>cx_net_idx := sn_net_idx sub\<rparr>, rx_sub := 0\<rparr>"
  have find: "net_find_and_decrypt ?raw ?rx buf s0 = (True, ?rx1, b1, s1)"
    using sub s0(1) nid(1) dec(1) by (simp add: net_find_and_decrypt_def try_key_def)
  have dup: "(if net_if = NET_IF_ADV then check_dup data s else (False, s)) = (False, s0)"
    using fresh dup.hit_iff [of "dup_val data" s] by (auto simp: s0_def check_dup_def prod_eq_iff)
  have l1: "9 \<le> nb_len b1" using length_nb_data [OF dec(2)] dec(3) ld(2) by simp
  note m = fields_mem [OF dec(2) l1, unfolded dec(3)]
  have elem: "bt_mesh_elem_find s1 src = bt_mesh_elem_find s src" using dec(5) by (simp add: bt_mesh_elem_find_def)
  let ?rx2 = "?rx1\<lparr>rx_ctx := (rx_ctx ?rx1)\<lparr>cx_app_idx := BT_MESH_KEY_UNUSED, cx_recv_ttl := ttl,
      cx_send_ttl := (if ttl = 0 then 0 else BT_MESH_TTL_DEFAULT)\<rparr>, rx_ctl := ctl, rx_seq := ucast seq, rx_dst := dst\<rparr>"
  have "bt_mesh_net_decode data net_if rx buf s = (None, ?rx2, b1, s1)"
    using l18 addr dec(4) elem unfolding bt_mesh_net_decode_def dup Let_def
    by (auto simp: find m f BT_MESH_NET_MIN_PDU_LEN_def BT_MESH_NET_HDR_LEN_def)
  from that [OF this dec(2,3)] dec(4) show thesis by simp
qed

section \<open>The network message cache key\<close>

lemma join_bytes_inj:
  "push_bit 8 (ucast a) OR ucast b = (push_bit 8 (ucast c) OR ucast d :: u16) \<longleftrightarrow> a = c \<and> b = d" for a b c d :: u8
  using split8_join(2) [of a b] split8_join(2) [of c d] split8_join(1) [of a b] split8_join(1) [of c d]
  by (metis drop_bit_or)

lemma join_halves_inj:
  "push_bit 16 (ucast a) OR ucast b = (push_bit 16 (ucast c) OR ucast d :: u32) \<longleftrightarrow> a = c \<and> b = d" for a b c d :: u16
  using split16_join(2) [of a b] split16_join(2) [of c d] split16_join(1) [of a b] split16_join(1) [of c d]
  by (metis drop_bit_or)

lemma join_words_inj:
  "push_bit 32 (ucast a) OR ucast b = (push_bit 32 (ucast c) OR ucast d :: u64) \<longleftrightarrow> a = c \<and> b = d" for a b c d :: u32
proof -
  have lo: "ucast (push_bit 32 (ucast x) OR ucast y :: u64) = y" for x y :: u32
    by (rule bit_word_eqI) (auto simp: bit_simps dest: bit_imp_le_length)
  have hi: "ucast (drop_bit 32 (push_bit 32 (ucast x) OR ucast y :: u64)) = x" for x y :: u32
    by (rule bit_word_eqI) (auto simp: bit_simps dest: bit_imp_le_length)
  show ?thesis using lo hi by metis
qed

lemma le32_inj:
  "sys_get_le32 [a, b, c, d] = sys_get_le32 [a', b', c', d'] \<longleftrightarrow> a = a' \<and> b = b' \<and> c = c' \<and> d = d'"
  by (auto simp: sys_get_le32_def sys_get_le16_def join_halves_inj join_bytes_inj)

lemma iv_byte_inj:
  "push_bit 8 iv OR ucast a = (push_bit 8 iv' OR ucast b :: u32) \<longleftrightarrow> take_bit 24 iv = take_bit 24 iv' \<and> a = b" for a b :: u8
proof -
  have lo: "ucast (push_bit 8 x OR ucast y :: u32) = y" for x :: u32 and y :: u8
    by (rule bit_word_eqI) (auto simp: bit_simps dest: bit_imp_le_length)
  have hi: "drop_bit 8 (push_bit 8 x OR ucast y :: u32) = take_bit 24 x" for x :: u32 and y :: u8
    by (rule bit_word_eqI) (auto simp: bit_simps dest: bit_imp_le_length)
  have "push_bit 8 x = push_bit 8 (take_bit 24 x)" for x :: u32
    by (rule bit_word_eqI) (auto simp: bit_simps)
  with lo hi show ?thesis by metis
qed

lemma seq_fields:
  "PDU_SEQ p = PDU_SEQ q \<longleftrightarrow> byte_at p 2 = byte_at q 2 \<and> byte_at p 3 = byte_at q 3 \<and> byte_at p 4 = byte_at q 4"
proof -
  have a: "ucast (PDU_SEQ p) = byte_at p 4" for p
    unfolding PDU_SEQ_def by (rule bit_word_eqI) (auto simp: bit_simps dest: bit_imp_le_length)
  have b: "ucast (drop_bit 8 (PDU_SEQ p)) = byte_at p 3" for p
    unfolding PDU_SEQ_def by (rule bit_word_eqI) (auto simp: bit_simps dest: bit_imp_le_length)
  have c: "ucast (drop_bit 16 (PDU_SEQ p)) = byte_at p 2" for p
    unfolding PDU_SEQ_def by (rule bit_word_eqI) (auto simp: bit_simps dest: bit_imp_le_length)
  show ?thesis using a b c by (metis PDU_SEQ_def)
qed

lemma src_fields: "PDU_SRC p = PDU_SRC q \<longleftrightarrow> byte_at p 5 = byte_at q 5 \<and> byte_at p 6 = byte_at q 6"
  by (simp add: PDU_SRC_def sys_get_be16_def byte_at_drop join_bytes_inj)

text \<open>
  The key of the network message cache identifies a PDU: two PDUs have the same key exactly when
  their sequence numbers, their sources and the low 24 bits of their IV Index agree. A PDU is thus
  never taken for a duplicate of one with another source or sequence number.
\<close>

theorem msg_hash_injective:
  "msg_hash s rx p = msg_hash t rx' q \<longleftrightarrow>
   take_bit 24 (BT_MESH_NET_IVI_RX s rx) = take_bit 24 (BT_MESH_NET_IVI_RX t rx') \<and> PDU_SEQ p = PDU_SEQ q \<and> PDU_SRC p = PDU_SRC q"
  by (auto simp: msg_hash_def Let_def join_words_inj iv_byte_inj le32_inj seq_fields src_fields)

section \<open>Round trip and authenticity\<close>

text \<open>The message cache key of a sequence number and source.\<close>

definition seq_hash :: "u32 \<Rightarrow> u24 \<Rightarrow> u16 \<Rightarrow> u64" where
  "seq_hash iv seq src = wire_hash iv (0 # 0 # seq_bytes seq @ sys_put_be16 src)"

lemma wire_hash_plain: "wire_hash iv (net_plain nid iv' ctl ttl seq src dst payload) = seq_hash iv seq src"
  by (simp add: seq_hash_def wire_hash_def net_plain_def seq_bytes_def sys_put_be16_def)

lemma drop_net_plain: "drop 9 (net_plain nid iv ctl ttl seq src dst payload) = payload"
  by (simp add: net_plain_def seq_bytes_def sys_put_be16_def)

lemma net_roundtrip:
  assumes b: "nb_ok b" "9 \<le> net_buf_simple_headroom b" "(if ctl then 8 else 4) \<le> net_buf_simple_tailroom b"
      "(if ctl then 1 else 5) \<le> nb_len b" "nb_len b < 65000"
    and tx: "cx_send_ttl (tx_ctx tx) < 0x80" "ctl \<longleftrightarrow> cx_app_idx (tx_ctx tx) = BT_MESH_KEY_UNUSED"
    and keys: "keys = sn_keys (get_sub s (tx_sub tx)) (sn_kr_flag (get_sub s (tx_sub tx)))" "sk_nid keys < 0x80"
    and run: "bt_mesh_net_encode tx b (net_if = NET_IF_PROXY_CFG) s = (err, tx', b', s')"
    and sub: "bm_sub (ms_net r) = sub # subs" "sn_net_idx sub \<noteq> BT_MESH_KEY_UNUSED" "sn_key0 sub = keys"
    and iv: "BT_MESH_NET_IVI_TX s = bm_iv_index (ms_net r) \<or> BT_MESH_NET_IVI_TX s = bm_iv_index (ms_net r) - 1"
    and addr: "BT_MESH_ADDR_IS_UNICAST (tx_src tx)" "\<not> BT_MESH_ADDR_IS_RFU (cx_addr (tx_ctx tx))"
      "net_if = NET_IF_PROXY_CFG \<or> cx_addr (tx_ctx tx) \<noteq> BT_MESH_ADDR_UNASSIGNED"
      "net_if = NET_IF_LOCAL \<or> bt_mesh_elem_find r (tx_src tx) = None"
    and buf: "nb_ok buf" "nb_len b' \<le> length (nb_buf buf)"
    and fresh: "net_if = NET_IF_ADV \<Longrightarrow> dup_val b' \<notin> set (ms_dup_cache r) \<and>
      seq_hash (BT_MESH_NET_IVI_TX s) (bm_seq (ms_net s)) (tx_src tx) \<notin> set (ms_msg_cache r)"
  shows "err = None \<and> nb_ok b' \<and> bm_seq (ms_net s') = bm_seq (ms_net s) + 1 \<and>
    (\<exists>rx' buf' r'. bt_mesh_net_decode b' net_if rx buf r = (None, rx', buf', r') \<and> nb_ok buf' \<and>
       cx_addr (rx_ctx rx') = tx_src tx \<and> rx_dst rx' = cx_addr (tx_ctx tx) \<and> rx_seq rx' = ucast (bm_seq (ms_net s)) \<and>
       cx_recv_ttl (rx_ctx rx') = cx_send_ttl (tx_ctx tx) \<and> rx_ctl rx' = ctl \<and> rx_sub rx' = 0 \<and>
       drop BT_MESH_NET_HDR_LEN (nb_data buf') = nb_data b)"
proof -
  let ?iv = "BT_MESH_NET_IVI_TX s"
  let ?d = "net_plain (sk_nid keys) ?iv ctl (cx_send_ttl (tx_ctx tx)) (bm_seq (ms_net s)) (tx_src tx) (cx_addr (tx_ctx tx)) (nb_data b)"
  have pos: "0 < nb_len b" using b(4) by (simp split: if_splits)
  obtain e where e: "bt_mesh_net_encode tx b (net_if = NET_IF_PROXY_CFG) s = (None, tx\<lparr>tx_friend_cred := False\<rparr>, e, next_seq s)"
    "nb_ok e" "nb_data e = net_wire keys ?iv (net_if = NET_IF_PROXY_CFG) ?d"
    using net_encode_eq [OF b(1,2) pos tx b(3) keys, where proxy = "net_if = NET_IF_PROXY_CFG"] by metis
  then have eq: "err = None" "b' = e" "s' = next_seq s" using run by simp_all
  have lb: "length (nb_data b) = nb_len b" using b(1) by simp
  have fr: "net_if = NET_IF_ADV \<Longrightarrow> dup_val e \<notin> set (ms_dup_cache r) \<and> wire_hash ?iv ?d \<notin> set (ms_msg_cache r)"
    using fresh eq(2) by (simp add: wire_hash_plain)
  obtain rx' buf' r' where "bt_mesh_net_decode e net_if rx buf r = (None, rx', buf', r')" "nb_ok buf'" "nb_data buf' = ?d"
    "cx_addr (rx_ctx rx') = tx_src tx" "rx_dst rx' = cx_addr (tx_ctx tx)" "rx_seq rx' = ucast (bm_seq (ms_net s))"
    "cx_recv_ttl (rx_ctx rx') = cx_send_ttl (tx_ctx tx)" "rx_ctl rx' = ctl" "rx_sub rx' = 0"
    by (rule net_decode_wire [OF sub(1,2) sub(3) [symmetric] keys(2) iv refl tx(1) _ _ addr e(2,3) buf(1) _ fr])
      (use b(4,5) lb buf(2) eq in auto)
  with eq e(2) show ?thesis by (auto simp: BT_MESH_NET_HDR_LEN_def drop_net_plain)
qed

text \<open>
  C1. A network PDU survives the trip: what \<^verbatim>\<open>bt_mesh_net_encode\<close> produces at one node, with the current
  sequence number and key, is accepted by \<^verbatim>\<open>bt_mesh_net_decode\<close> at a node that holds the key, is at the same or
  the next IV Index and has not seen the PDU, and yields the source, destination, sequence number,
  TTL, control flag and payload that were sent. The sender's sequence number moves on by one.
\<close>

theorem net_encode_decode:
  assumes "nb_ok b" "9 \<le> net_buf_simple_headroom b" "(if ctl then 8 else 4) \<le> net_buf_simple_tailroom b"
      "(if ctl then 1 else 5) \<le> nb_len b" "nb_len b < 65000"
    and "cx_send_ttl (tx_ctx tx) < 0x80" "ctl \<longleftrightarrow> cx_app_idx (tx_ctx tx) = BT_MESH_KEY_UNUSED"
    and "keys = sn_keys (get_sub s (tx_sub tx)) (sn_kr_flag (get_sub s (tx_sub tx)))" "sk_nid keys < 0x80"
    and "bt_mesh_net_encode tx b (net_if = NET_IF_PROXY_CFG) s = (err, tx', b', s')"
    and "bm_sub (ms_net r) = sub # subs" "sn_net_idx sub \<noteq> BT_MESH_KEY_UNUSED" "sn_key0 sub = keys"
    and "BT_MESH_NET_IVI_TX s = bm_iv_index (ms_net r) \<or> BT_MESH_NET_IVI_TX s = bm_iv_index (ms_net r) - 1"
    and "BT_MESH_ADDR_IS_UNICAST (tx_src tx)" "\<not> BT_MESH_ADDR_IS_RFU (cx_addr (tx_ctx tx))"
      "net_if = NET_IF_PROXY_CFG \<or> cx_addr (tx_ctx tx) \<noteq> BT_MESH_ADDR_UNASSIGNED"
      "net_if = NET_IF_LOCAL \<or> bt_mesh_elem_find r (tx_src tx) = None"
    and "nb_ok buf" "nb_len b' \<le> length (nb_buf buf)"
    and "net_if = NET_IF_ADV \<Longrightarrow> dup_val b' \<notin> set (ms_dup_cache r) \<and>
      seq_hash (BT_MESH_NET_IVI_TX s) (bm_seq (ms_net s)) (tx_src tx) \<notin> set (ms_msg_cache r)"
  shows "err = None \<and> bm_seq (ms_net s') = bm_seq (ms_net s) + 1 \<and>
    (\<exists>rx' buf' r'. bt_mesh_net_decode b' net_if rx buf r = (None, rx', buf', r') \<and> nb_ok buf' \<and>
       cx_addr (rx_ctx rx') = tx_src tx \<and> rx_dst rx' = cx_addr (tx_ctx tx) \<and> rx_seq rx' = ucast (bm_seq (ms_net s)) \<and>
       cx_recv_ttl (rx_ctx rx') = cx_send_ttl (tx_ctx tx) \<and> rx_ctl rx' = ctl \<and> rx_sub rx' = 0 \<and>
       drop BT_MESH_NET_HDR_LEN (nb_data buf') = nb_data b)"
  using net_roundtrip [OF assms] by auto

text \<open>A node at IV Index 1 with one subnet, and a message it sends.\<close>

definition net_demo :: mesh where
  "net_demo = mesh0\<lparr>ms_net := bt_mesh_net0\<lparr>bm_iv_index := 1, bm_seq := 7, bm_sub := [subnet0\<lparr>sn_net_idx := 0\<rparr>, subnet0]\<rparr>\<rparr>"

definition ctx_demo :: bt_mesh_msg_ctx where
  "ctx_demo = \<lparr>cx_net_idx = 0, cx_app_idx = 0, cx_addr = 2, cx_recv_ttl = 0, cx_send_rel = False, cx_send_ttl = 5\<rparr>"

definition tx_demo :: bt_mesh_net_tx where
  "tx_demo = \<lparr>tx_sub = 0, tx_ctx = ctx_demo, tx_src = 1, tx_xmit = 0, tx_friend_cred = False, tx_aszmic = 0, tx_aid = 0\<rparr>"

definition rx_demo :: bt_mesh_net_rx where
  "rx_demo = \<lparr>rx_sub = 0, rx_ctx = ctx_demo, rx_seq = 0, rx_dst = 0, rx_old_iv = False, rx_new_key = False, rx_friend_cred = False,
     rx_ctl = False, rx_net_if = NET_IF_ADV, rx_local_match = False, rx_friend_match = False\<rparr>"

definition pdu_demo :: net_buf_simple where
  "pdu_demo = net_buf_simple_add_mem (net_buf_simple_init (NET_BUF_SIMPLE 29) 9) [1, 2, 3, 4, 5]"

lemma pdu_demo_ok: "nb_ok pdu_demo" "nb_data pdu_demo = [1, 2, 3, 4, 5]" "nb_len pdu_demo = 5"
    "net_buf_simple_headroom pdu_demo = 9" "net_buf_simple_tailroom pdu_demo = 15"
proof -
  let ?b = "net_buf_simple_init (NET_BUF_SIMPLE 29) 9"
  have i: "nb_ok ?b" "nb_data ?b = []" "net_buf_simple_tailroom ?b = 20"
    using init_data [OF NET_BUF_SIMPLE_ok, of 29 9] by simp_all
  show "nb_ok pdu_demo" "nb_data pdu_demo = [1, 2, 3, 4, 5]" using add_mem_data [OF i(1), of "[1, 2, 3, 4, 5]"] i by (simp_all add: pdu_demo_def)
  show "nb_len pdu_demo = 5" "net_buf_simple_headroom pdu_demo = 9" "net_buf_simple_tailroom pdu_demo = 15"
    by (simp_all add: pdu_demo_def net_buf_simple_add_mem_def net_buf_simple_init_def net_buf_simple_add_def
        net_buf_simple_headroom_def net_buf_simple_tailroom_def)
qed

definition sent_demo :: net_buf_simple where
  "sent_demo = fst (snd (snd (bt_mesh_net_encode tx_demo pdu_demo False net_demo)))"

lemma net_demo_sel:
  "sn_keys (get_sub net_demo 0) (sn_kr_flag (get_sub net_demo 0)) = subnet_keys0" "sk_nid subnet_keys0 = 0"
  "bm_sub (ms_net net_demo) = [subnet0\<lparr>sn_net_idx := 0\<rparr>, subnet0]" "BT_MESH_NET_IVI_TX net_demo = 1"
  "bm_iv_index (ms_net net_demo) = 1" "bm_seq (ms_net net_demo) = 7" "ms_comp net_demo = []"
  by (simp_all add: net_demo_def get_sub_def sn_keys_def subnet0_def subnet_keys0_def BT_MESH_NET_IVI_TX_def bt_mesh_net0_def mesh0_def)

lemma sent_demo_ok: "nb_ok sent_demo" "nb_len sent_demo = 18" "length (nb_data sent_demo) = 18"
proof -
  have t: "cx_send_ttl (tx_ctx tx_demo) < 0x80" by (simp add: tx_demo_def ctx_demo_def)
  have c: "False \<longleftrightarrow> cx_app_idx (tx_ctx tx_demo) = BT_MESH_KEY_UNUSED" by (simp add: tx_demo_def ctx_demo_def BT_MESH_KEY_UNUSED_def)
  have k: "subnet_keys0 = sn_keys (get_sub net_demo (tx_sub tx_demo)) (sn_kr_flag (get_sub net_demo (tx_sub tx_demo)))"
    using net_demo_sel(1) by (simp add: tx_demo_def)
  let ?d = "net_plain 0 1 False 5 7 1 2 [1, 2, 3, 4, 5]"
  obtain e where e: "bt_mesh_net_encode tx_demo pdu_demo False net_demo = (None, tx_demo\<lparr>tx_friend_cred := False\<rparr>, e, next_seq net_demo)"
    "nb_ok e" "nb_data e = net_wire subnet_keys0 1 False ?d"
    by (rule net_encode_eq [OF pdu_demo_ok(1) _ _ t c _ k, where proxy = False])
      (auto simp: pdu_demo_ok net_demo_sel tx_demo_def ctx_demo_def)
  have l: "length (nb_data e) = 18"
    using net_wire_len(1) [of ?d subnet_keys0 1 False] plain_fields(5) [of 5 0 1 False 7 1 2 "[1, 2, 3, 4, 5]"] e(3) by simp
  show "nb_ok sent_demo" "nb_len sent_demo = 18" "length (nb_data sent_demo) = 18"
    using e(1,2) l length_nb_data [OF e(2)] by (simp_all add: sent_demo_def)
qed

lemma demo_premises:
  "nb_ok (NET_BUF_SIMPLE 29)" "nb_len sent_demo \<le> length (nb_buf (NET_BUF_SIMPLE 29))"
  "subnet_keys0 = sn_keys (get_sub net_demo (tx_sub tx_demo)) (sn_kr_flag (get_sub net_demo (tx_sub tx_demo)))"
  "sk_nid subnet_keys0 < 0x80" "sn_net_idx (subnet0\<lparr>sn_net_idx := 0\<rparr>) \<noteq> BT_MESH_KEY_UNUSED"
  "sn_key0 (subnet0\<lparr>sn_net_idx := 0\<rparr>) = subnet_keys0" "BT_MESH_ADDR_IS_UNICAST (tx_src tx_demo)"
  "\<not> BT_MESH_ADDR_IS_RFU (cx_addr (tx_ctx tx_demo))"
  "NET_IF_PROXY = NET_IF_PROXY_CFG \<or> cx_addr (tx_ctx tx_demo) \<noteq> BT_MESH_ADDR_UNASSIGNED"
  "NET_IF_PROXY = NET_IF_LOCAL \<or> bt_mesh_elem_find net_demo (tx_src tx_demo) = None" "cx_send_ttl (tx_ctx tx_demo) < 0x80"
  "False \<longleftrightarrow> cx_app_idx (tx_ctx tx_demo) = BT_MESH_KEY_UNUSED"
  "bt_mesh_net_encode tx_demo pdu_demo (NET_IF_PROXY = NET_IF_PROXY_CFG) net_demo =
     (fst (bt_mesh_net_encode tx_demo pdu_demo False net_demo), fst (snd (bt_mesh_net_encode tx_demo pdu_demo False net_demo)),
      sent_demo, snd (snd (snd (bt_mesh_net_encode tx_demo pdu_demo False net_demo))))"
  using sent_demo_ok net_demo_sel(1)
  by (simp_all add: NET_BUF_SIMPLE_ok net_demo_sel tx_demo_def ctx_demo_def subnet0_def BT_MESH_KEY_UNUSED_def
      BT_MESH_ADDR_IS_UNICAST_def BT_MESH_ADDR_IS_RFU_def BT_MESH_ADDR_UNASSIGNED_def bt_mesh_elem_find_def sent_demo_def)

theorem net_encode_decode_witness:
  "\<exists>rx' buf' r'. bt_mesh_net_decode sent_demo NET_IF_PROXY rx_demo (NET_BUF_SIMPLE 29) net_demo = (None, rx', buf', r') \<and>
     cx_addr (rx_ctx rx') = 1 \<and> rx_dst rx' = 2 \<and> rx_seq rx' = 7 \<and> drop 9 (nb_data buf') = [1, 2, 3, 4, 5]"
  using net_encode_decode [OF pdu_demo_ok(1) _ _ _ _ demo_premises(11,12,3,4,13) net_demo_sel(3) demo_premises(5,6) _
      demo_premises(7-10) demo_premises(1,2), where rx = rx_demo]
  by (auto simp: pdu_demo_ok net_demo_sel tx_demo_def ctx_demo_def BT_MESH_NET_HDR_LEN_def)

lemma decode_demo:
  obtains rx' buf' r' where "bt_mesh_net_decode sent_demo NET_IF_PROXY rx_demo (NET_BUF_SIMPLE 29) net_demo = (None, rx', buf', r')"
    "cx_addr (rx_ctx rx') = 1" "rx_dst rx' = 2" "rx_sub rx' = 0"
  using net_roundtrip [OF pdu_demo_ok(1) _ _ _ _ demo_premises(11,12,3,4,13) net_demo_sel(3) demo_premises(5,6) _
      demo_premises(7-10) demo_premises(1,2), where rx = rx_demo]
  by (auto simp: pdu_demo_ok net_demo_sel tx_demo_def ctx_demo_def BT_MESH_NET_HDR_LEN_def)

text \<open>
  C2. Nothing unauthentic gets through: when \<^verbatim>\<open>bt_mesh_net_decode\<close> accepts a PDU, its bytes are the encryption
  and obfuscation of the plain PDU delivered, under a key of the subnet reported (the new key only
  during a key refresh) and the IV Index reported; the reported source, destination, sequence number and
  TTL are those of the plain PDU; the source is a unicast address of another node, the destination is
  assigned and not reserved.
\<close>

theorem net_decode_authentic:
  assumes run: "bt_mesh_net_decode data net_if rx buf s = (None, rx', buf', s')"
    and "nb_ok data" "nb_ok buf" "nb_len data \<le> length (nb_buf buf)" "\<not> rx_new_key rx"
  shows "rx_sub rx' < length (bm_sub (ms_net s)) \<and> sn_net_idx (get_sub s (rx_sub rx')) \<noteq> BT_MESH_KEY_UNUSED \<and>
    (rx_new_key rx' \<longrightarrow> sn_kr_phase (get_sub s (rx_sub rx')) \<noteq> BT_MESH_KR_NORMAL) \<and>
    nb_data data = net_wire (sn_keys (get_sub s (rx_sub rx')) (rx_new_key rx')) (BT_MESH_NET_IVI_RX s rx')
      (net_if = NET_IF_PROXY_CFG) (nb_data buf') \<and>
    cx_addr (rx_ctx rx') = PDU_SRC (nb_data buf') \<and> BT_MESH_ADDR_IS_UNICAST (cx_addr (rx_ctx rx')) \<and>
    (net_if \<noteq> NET_IF_LOCAL \<longrightarrow> bt_mesh_elem_find s (cx_addr (rx_ctx rx')) = None) \<and>
    rx_dst rx' = PDU_DST (nb_data buf') \<and> \<not> BT_MESH_ADDR_IS_RFU (rx_dst rx') \<and>
    (net_if \<noteq> NET_IF_PROXY_CFG \<longrightarrow> rx_dst rx' \<noteq> BT_MESH_ADDR_UNASSIGNED) \<and>
    rx_seq rx' = PDU_SEQ (nb_data buf') \<and> cx_recv_ttl (rx_ctx rx') = PDU_TTL (nb_data buf')"
proof -
  obtain dup s0 where d: "(if net_if = NET_IF_ADV then check_dup data s else (False, s)) = (dup, s0)" by fastforce
  have s0: "ms_net s0 = ms_net s" "ms_comp s0 = ms_comp s"
    using arg_cong [OF d, of snd] dup_cache_hit_net [of "dup_val data" s] by (auto simp: check_dup_def split: if_splits)
  have len: "18 \<le> length (nb_data data)" "length (nb_data data) \<le> length (nb_buf buf)"
    using run assms(2,4) by (auto simp: bt_mesh_net_decode_def BT_MESH_NET_MIN_PDU_LEN_def BT_MESH_NET_HDR_LEN_def split: if_splits)
  obtain ok rx1 b1 s1 where f: "net_find_and_decrypt (nb_data data) (rx\<lparr>rx_net_if := net_if\<rparr>) buf s0 = (ok, rx1, b1, s1)"
    by (metis prod_cases4)
  have ok: "\<not> dup" "ok" "buf' = b1" using run d f by (auto simp: bt_mesh_net_decode_def Let_def split: if_splits)
  let ?sub = "get_sub s (rx_sub rx1)"
  obtain new_key where i: "rx_sub rx1 < length (bm_sub (ms_net s))"
    and nf: "net_found s0 (rx\<lparr>rx_net_if := net_if\<rparr>) (nb_data data) ?sub new_key rx1 b1 s1"
    using net_find_sound [OF f [unfolded net_find_and_decrypt_def ok(2) [THEN eqTrueI]] assms(3) len] s0
    by (auto simp: get_sub_def)
  have k: "rx_new_key rx1 = new_key" "9 \<le> nb_len b1" "nb_ok b1" using nf assms(5) by (auto simp: net_found_def)
  note m = fields_mem [OF k(3,2)]
  have e: "ms_comp s1 = ms_comp s" using nf s0 by (simp add: net_found_def)
  have iv: "BT_MESH_NET_IVI_RX s rx1 = rx_iv s0 (nb_data data)" using nf s0
    by (auto simp: net_found_def BT_MESH_NET_IVI_RX_def split: if_splits)
  have rx: "rx_sub rx' = rx_sub rx1" "rx_new_key rx' = rx_new_key rx1" "cx_addr (rx_ctx rx') = cx_addr (rx_ctx rx1)"
    "BT_MESH_NET_IVI_RX s rx' = BT_MESH_NET_IVI_RX s rx1"
    "rx_dst rx' = PDU_DST (nb_data b1)" "rx_seq rx' = PDU_SEQ (nb_data b1)" "cx_recv_ttl (rx_ctx rx') = PDU_TTL (nb_data b1)"
    "\<not> BT_MESH_ADDR_IS_RFU (rx_dst rx')" "net_if \<noteq> NET_IF_PROXY_CFG \<longrightarrow> rx_dst rx' \<noteq> BT_MESH_ADDR_UNASSIGNED"
    "net_if \<noteq> NET_IF_LOCAL \<longrightarrow> bt_mesh_elem_find s1 (cx_addr (rx_ctx rx1)) = None"
    using run d f ok m by (auto simp: bt_mesh_net_decode_def Let_def BT_MESH_NET_IVI_RX_def split: if_splits)
  have el: "bt_mesh_elem_find s1 a = bt_mesh_elem_find s a" for a using e by (simp add: bt_mesh_elem_find_def)
  show ?thesis
    using nf i k ok(3) iv rx(8-10) unfolding net_found_def net_authentic_def by (simp add: rx(1-7) el)
qed

theorem net_decode_authentic_witness:
  "\<exists>rx' buf' s'. bt_mesh_net_decode sent_demo NET_IF_PROXY rx_demo (NET_BUF_SIMPLE 29) net_demo = (None, rx', buf', s') \<and>
     rx_sub rx' = 0 \<and> cx_addr (rx_ctx rx') = PDU_SRC (nb_data buf') \<and> bt_mesh_elem_find net_demo (cx_addr (rx_ctx rx')) = None"
proof -
  have n: "\<not> rx_new_key rx_demo" by (simp add: rx_demo_def)
  obtain rx' buf' s' where d: "bt_mesh_net_decode sent_demo NET_IF_PROXY rx_demo (NET_BUF_SIMPLE 29) net_demo = (None, rx', buf', s')"
    "rx_sub rx' = 0" by (rule decode_demo)
  from net_decode_authentic [OF d(1) sent_demo_ok(1) demo_premises(1,2) n] d show ?thesis by auto
qed

section \<open>Duplicates\<close>

text \<open>
  C33. A PDU the advertising bearer has just delivered is not processed again: after it was new to the
  duplicate cache, any fewer PDUs than the cache has slots may come in between, and a second copy
  still is refused with no effect on the node.
\<close>

theorem duplicate_dropped:
  assumes "ms_dup_cache_next s < length (ms_dup_cache s)" "check_dup data s = (False, s1)"
    and "length others < length (ms_dup_cache s)" "s2 = fold (\<lambda>d s. snd (check_dup d s)) others s1"
    and "BT_MESH_NET_MIN_PDU_LEN \<le> nb_len data"
  shows "bt_mesh_net_decode data NET_IF_ADV rx buf s2 = (Some EINVAL, rx, buf, s2)"
proof -
  have "fold (\<lambda>d s. snd (check_dup d s)) others s = dup.run (map dup_val others) s" for s
    by (induction others arbitrary: s) (simp_all add: dup.run_def check_dup_def)
  moreover have "\<not> fst (dup_cache_hit (dup_val data) s)" "s1 = snd (dup_cache_hit (dup_val data) s)"
    using assms(2) by (simp_all add: check_dup_def)
  ultimately have "dup_val data \<in> set (ms_dup_cache s2)"
    using dup.remembers [OF assms(1), of "dup_val data" "map dup_val others"] assms(3,4) by (simp add: dup.hit_iff)
  then have "check_dup data s2 = (True, s2)" by (simp add: check_dup_def dup.known)
  then show ?thesis using assms(5) by (simp add: bt_mesh_net_decode_def)
qed

definition dup_demo :: net_buf_simple where
  "dup_demo = NET_BUF_SIMPLE 18\<lparr>nb_len := 18, nb_buf := [0, 0, 0, 0, 0, 0, 0, 0, 0, 0, 0, 0, 0, 0, 0, 0, 0, 1]\<rparr>"

lemma dup_demo_val: "dup_val dup_demo = 1"
  by (simp add: dup_demo_def dup_val_def get_bytes_def sys_get_be32_def sys_get_be16_def NET_BUF_SIMPLE_def)

theorem duplicate_dropped_witness:
  "bt_mesh_net_decode dup_demo NET_IF_ADV rx_demo (NET_BUF_SIMPLE 29) (snd (check_dup dup_demo net_demo)) =
     (Some EINVAL, rx_demo, NET_BUF_SIMPLE 29, snd (check_dup dup_demo net_demo))"
proof (rule duplicate_dropped [of net_demo _ _ "[]"])
  have c: "ms_dup_cache net_demo = [0, 0]" "ms_dup_cache_next net_demo = 0" by (simp_all add: net_demo_def mesh0_def)
  show "check_dup dup_demo net_demo = (False, snd (check_dup dup_demo net_demo))"
    using dup.hit_iff [of "dup_val dup_demo" net_demo] by (simp add: check_dup_def prod_eq_iff c dup_demo_val)
qed (simp_all add: net_demo_def mesh0_def dup_demo_def BT_MESH_NET_MIN_PDU_LEN_def BT_MESH_NET_HDR_LEN_def)



section \<open>Sequence numbers\<close>



section \<open>Relaying\<close>

text \<open>The plain PDU with its TTL lowered by one.\<close>

definition ttl_down :: "bytes \<Rightarrow> bytes" where
  "ttl_down d = put_bytes d 1 [(byte_at d 1 AND 0x80) OR (PDU_TTL d - 1)]"

lemma ttl_down_mic:
  assumes "2 \<le> length d" "1 \<le> PDU_TTL d"
  shows "NET_MIC_LEN (ttl_down d) = NET_MIC_LEN d" "PDU_TTL (ttl_down d) = PDU_TTL d - 1"
proof -
  let ?b = "byte_at d 1" and ?v = "PDU_TTL d - 1"
  have t: "?b AND 0x7f < 0x80" by (simp add: bits7 bit_and_iff bit_low)
  then have v: "?v < 0x80" using assms(2) unfolding PDU_TTL_def by (simp add: word_less_nat_alt word_le_nat_alt unat_sub)
  have vb: "bit ?v n \<Longrightarrow> n < 7" for n using v bit_imp_le_length [of ?v n] by (cases "n = 7") (auto simp: bits7)
  have b1: "byte_at (ttl_down d) 1 = (?b AND 0x80) OR ?v"
    using assms(1) unfolding ttl_down_def by (subst byte_at_put) simp_all
  have "((?b AND 0x80) OR ?v) AND 0x80 = ?b AND 0x80"
    by (rule bit_word_eqI) (auto simp: bit_and_iff bit_or_iff bit_single dest: vb)
  then show "NET_MIC_LEN (ttl_down d) = NET_MIC_LEN d" unfolding NET_MIC_LEN_def b1 by simp
  have "((?b AND 0x80) OR ?v) AND 0x7f = ?v"
    by (rule bit_word_eqI) (auto simp: bit_and_iff bit_or_iff bit_single bit_low dest: vb)
  then show "PDU_TTL (ttl_down d) = ?v" unfolding PDU_TTL_def [of "ttl_down d"] b1 .
qed

lemma seal_into:
  assumes "nb_ok b" "nb_data b = []" "9 < length d" "length d + NET_MIC_LEN d \<le> net_buf_simple_tailroom b"
  obtains b2 b3 where "bt_mesh_net_encrypt (sk_enc keys) (net_buf_simple_add_mem b d) iv False = (None, b2)"
    "nb_obfuscate b2 iv (sk_privacy keys) = (None, b3)" "nb_ok b3" "nb_data b3 = net_wire keys iv False d"
proof -
  let ?b1 = "net_buf_simple_add_mem b d"
  have b1: "nb_ok ?b1" "nb_data ?b1 = d" using add_mem_data [OF assms(1), of d] assms(2,4) by simp_all
  have n0: "nb_len b = 0" using length_nb_data [OF assms(1)] assms(2) by simp
  have n1: "nb_len ?b1 = length d" using length_nb_data [OF b1(1)] b1(2) by simp
  have t1: "NET_MIC_LEN (nb_data ?b1) \<le> net_buf_simple_tailroom ?b1"
    using assms(4) b1(2) n0 n1
    by (simp add: net_buf_simple_tailroom_def net_buf_simple_headroom_def net_buf_simple_add_mem_def net_buf_simple_add_def)
  have n7: "7 < nb_len ?b1" using n1 assms(3) by simp
  obtain b2 where e: "bt_mesh_net_encrypt (sk_enc keys) ?b1 iv False = (None, b2)" "nb_ok b2"
    "nb_data b2 = net_seal (sk_enc keys) iv False d"
    using net_encrypt_refines [OF b1(1) n7 t1, of "sk_enc keys" iv False] b1(2) by metis
  have "length d < 65536" using n1 b1(1) by (simp add: nb_ok_def)
  then have "nb_len b2 = length d + NET_MIC_LEN d"
    using length_nb_data [OF e(2)] e(3) net_seal_ccm(2) [of d "sk_enc keys" iv False] assms(3) by simp
  then have l2: "14 \<le> nb_len b2" using assms(3) NET_MIC_LEN_range(1) [of d] by auto
  obtain b3 where "nb_obfuscate b2 iv (sk_privacy keys) = (None, b3)" "nb_ok b3" "nb_data b3 = net_wire keys iv False d"
    using nb_obfuscate_data [OF e(2) l2] e(3) by (metis net_wire_def)
  with that e(1) show thesis by blast
qed

lemma relay_header_data:
  assumes "nb_ok sbuf" "9 < nb_len sbuf" "rx_net_if rx \<noteq> NET_IF_LOCAL" "cx_recv_ttl (rx_ctx rx) = PDU_TTL (nb_data sbuf)"
  shows "nb_data (relay_header rx sbuf) = ttl_down (nb_data sbuf)"
proof -
  have "nb_byte sbuf 1 = byte_at (nb_data sbuf) 1" using nb_byte_eq [OF assms(1), of 1] assms(1,2) by simp
  then show ?thesis
    using assms(3,4) nb_data_put [OF assms(1), of 1 "[(nb_byte sbuf 1 AND 0x80) OR (PDU_TTL (nb_data sbuf) - 1)]"] assms(2)
    by (simp add: relay_header_def ttl_down_def)
qed

lemma adv_create_None:
  "bt_mesh_adv_create t xc xi s = (None, s1) \<Longrightarrow> fst (net_buf_alloc s) = None \<and> s1 = s"
  by (auto simp: bt_mesh_adv_create_def net_buf_alloc_def Let_def split: prod.splits option.splits if_splits list.splits)

text \<open>With a buffer at hand the relayed PDU is sealed into it; only the advertising bearer queues it.\<close>

lemma relay_sealed:
  assumes rx: "rx_net_if rx = NET_IF_ADV" "cx_recv_ttl (rx_ctx rx) = PDU_TTL (nb_data sbuf)" "\<not> rx_friend_cred rx"
    and sbuf: "nb_ok sbuf" "9 < nb_len sbuf" "nb_len sbuf + NET_MIC_LEN (nb_data sbuf) \<le> BT_MESH_ADV_DATA_SIZE"
    and keys: "keys = sn_keys (get_sub s (rx_sub rx)) (sn_kr_flag (get_sub s (rx_sub rx)))"
    and pool: "pool_ok s" and s': "s' = bt_mesh_net_relay sbuf rx s"
    and go: "\<not> PDU_TTL (nb_data sbuf) \<le> 1" "\<not> (bt_mesh_relay_get s \<noteq> 0x01 \<and> bt_mesh_gatt_proxy_get s \<noteq> 0x01)"
    and cr: "bt_mesh_adv_create ADV_DATA (BT_MESH_TRANSMIT_COUNT (bt_mesh_relay_retransmit_get s))
      (BT_MESH_TRANSMIT_INT (bt_mesh_relay_retransmit_get s)) s = (Some i, s1)"
  shows "nb_data (buf_b s' i) = net_wire keys (BT_MESH_NET_IVI_RX s rx) False (ttl_down (nb_data sbuf))"
    "ms_adv_queue s' \<in> {ms_adv_queue s, ms_adv_queue s @ [i]}"
    "bt_mesh_relay_get s \<noteq> 0x01 \<longrightarrow> ms_adv_queue s' = ms_adv_queue s"
proof -
  let ?iv = "BT_MESH_NET_IVI_RX s rx" and ?d = "ttl_down (nb_data sbuf)"
  note a = adv_create_ok [OF cr pool]
  have hdr: "nb_data (relay_header rx sbuf) = ?d" by (rule relay_header_data) (use sbuf rx in auto)
  have d: "length ?d = nb_len sbuf" "NET_MIC_LEN ?d = NET_MIC_LEN (nb_data sbuf)"
    using sbuf(1,2) go(1) ttl_down_mic(1) [of "nb_data sbuf"] by (auto simp: ttl_down_def word_le_nat_alt)
  have d9: "9 < length ?d" using d(1) sbuf(2) by simp
  have room: "length ?d + NET_MIC_LEN ?d \<le> net_buf_simple_tailroom (buf_b s1 i)"
    using a sbuf(3) d by (simp add: net_buf_simple_tailroom_def net_buf_simple_headroom_def)
  obtain b2 b3 where e: "bt_mesh_net_encrypt (sk_enc keys) (net_buf_simple_add_mem (buf_b s1 i) ?d) ?iv False = (None, b2)"
    "nb_obfuscate b2 ?iv (sk_privacy keys) = (None, b3)" "nb_data b3 = net_wire keys ?iv False ?d"
    using seal_into [OF a(2,3) d9 room] by metis
  define s2 where "s2 = on_buf i (\<lambda>_. b3) (on_buf i (\<lambda>_. b2) (on_buf i (\<lambda>b. net_buf_simple_add_mem b ?d) s1))"
  have i: "i < length (ms_bufs s2)" using a(1) by (simp add: s2_def)
  have s2: "ms_adv_queue s2 = ms_adv_queue s" "ms_conf s2 = ms_conf s" "buf_b s2 i = b3"
    using a i by (simp_all add: s2_def buf_b_on_buf)
  define rel where "rel = (if bt_mesh_gatt_proxy_get s2 = 0x01 then bt_mesh_proxy_relay b3 (rx_dst rx) s2 else (False, s2))"
  have "only_log s2 (snd rel)" by (simp add: rel_def only_log_relay)
  note sel = only_log_sel [OF this]
  have gs: "get_sub (on_buf i f s1) j = get_sub s j" "BT_MESH_NET_IVI_RX (on_buf i f s1) rx = ?iv" for f j
    using a(8) by (simp_all add: get_sub_def BT_MESH_NET_IVI_RX_def)
  have run: "s' = (if fst rel \<and> BT_MESH_ADDR_IS_UNICAST (rx_dst rx) then net_buf_unref i (snd rel)
      else net_buf_unref i (if bt_mesh_relay_get (snd rel) = 0x01 then bt_mesh_adv_send i (Cb_User Cb_None) (snd rel) else snd rel))"
    using go rx cr hdr e(1,2) a(1) unfolding s' bt_mesh_net_relay_def Let_def rel_def s2_def
    by (auto simp: gs keys [symmetric] buf_b_on_buf relay_to_adv_def split: prod.splits)
  have rg: "bt_mesh_relay_get (snd rel) = bt_mesh_relay_get s" using sel(4) s2(2) by (simp add: bt_mesh_relay_get_def)
  have bi: "buf_b (snd rel) i = b3" "i < length (ms_bufs (snd rel))" using sel(2) s2(3) i by (simp_all add: buf_b_def get_buf_def)
  show "nb_data (buf_b s' i) = net_wire keys ?iv False ?d" "ms_adv_queue s' \<in> {ms_adv_queue s, ms_adv_queue s @ [i]}"
    "bt_mesh_relay_get s \<noteq> 0x01 \<longrightarrow> ms_adv_queue s' = ms_adv_queue s"
    using bi sel(3) s2(1) e(3) by (auto simp: run rg)
qed


definition relay_pdu_demo :: net_buf_simple where
  "relay_pdu_demo = net_buf_simple_add_mem (NET_BUF_SIMPLE 29) (net_plain 0 1 False 5 7 1 2 [1, 2, 3, 4, 5])"

definition relay_node_demo :: mesh where
  "relay_node_demo = net_demo\<lparr>ms_conf := Some \<lparr>cf_model = (0, False, 0), cf_net_transmit = 0, cf_relay = 1, cf_relay_retransmit = 0, cf_beacon = 0,
     cf_gatt_proxy = 0, cf_frnd = 0, cf_default_ttl = 7, cf_hb_pub = hb_pub0, cf_hb_sub = hb_sub0\<rparr>\<rparr>"


end
