(* ===== verification/Model_Recv.thy ===== *)
theory Model_Recv
  imports Net
begin

text \<open>
  Delivery of an access message to the models, from \<^verbatim>\<open>bt_mesh/src/access.c\<close>. The handlers of the
  operation tables belong to the models (the foundation models and the application's); they are an
  argument of the model. A handler gets the model, the message context and the buffer, and may
  change all of them and the state of the node, as a C handler can through its pointers.
\<close>

type_synonym op_handler =
  "nat \<Rightarrow> model_ref \<Rightarrow> bt_mesh_msg_ctx \<Rightarrow> net_buf_simple \<Rightarrow> mesh \<Rightarrow> bt_mesh_msg_ctx \<times> net_buf_simple \<times> mesh"

text \<open>The first condition of the loop: whether the element with a given index is addressed.\<close>

definition elem_addressed :: "mesh \<Rightarrow> nat \<Rightarrow> u16 \<Rightarrow> bool" where
  "elem_addressed s i dst =
     (let elem = ms_comp s ! i in
      if BT_MESH_ADDR_IS_UNICAST dst then el_addr elem = dst
      else if BT_MESH_ADDR_IS_GROUP dst \<or> BT_MESH_ADDR_IS_VIRTUAL dst then bt_mesh_elem_find_group elem dst \<noteq> None
      else i = 0 \<and> bt_mesh_fixed_group_match s dst)"

text \<open>The model and operation of an element that an opcode selects.\<close>

definition elem_find_op :: "mesh \<Rightarrow> nat \<Rightarrow> u16 \<Rightarrow> u32 \<Rightarrow> (model_ref \<times> bt_mesh_model_op) option" where
  "elem_find_op s i app_idx opcode =
     (let elem = ms_comp s ! i; vnd = (\<not> opcode < 0x10000)
      in map_option (\<lambda>(k, op). ((i, vnd, k), op))
           (find_op 0 (if vnd then el_vnd_models elem else el_models elem) app_idx opcode))"

fun model_recv_loop ::
  "op_handler \<Rightarrow> u32 \<Rightarrow> nat list \<Rightarrow> bt_mesh_net_rx \<Rightarrow> net_buf_simple \<Rightarrow> mesh \<Rightarrow> bt_mesh_net_rx \<times> mesh" where
  "model_recv_loop h opcode [] rx buf s = (rx, s)"
| "model_recv_loop h opcode (i # is) rx buf s =
     (if \<not> elem_addressed s i (rx_dst rx) then model_recv_loop h opcode is rx buf s
      else case elem_find_op s i (cx_app_idx (rx_ctx rx)) opcode of
        None \<Rightarrow> model_recv_loop h opcode is rx buf s
      | Some (m, op) \<Rightarrow>
          if nb_len buf < op_min_len op then model_recv_loop h opcode is rx buf s
          else
            let state = net_buf_simple_save buf;
                (ctx, buf, s) = h (op_func op) m (rx_ctx rx) buf s
            in model_recv_loop h opcode is (rx\<lparr>rx_ctx := ctx\<rparr>) (net_buf_simple_restore buf state) s)"

definition bt_mesh_model_recv ::
  "op_handler \<Rightarrow> bt_mesh_net_rx \<Rightarrow> net_buf_simple \<Rightarrow> mesh \<Rightarrow> bt_mesh_net_rx \<times> mesh" where
  "bt_mesh_model_recv h rx buf s =
     (case get_opcode buf of
        (Inl err, buf) \<Rightarrow> (rx, s)
      | (Inr opcode, buf) \<Rightarrow> model_recv_loop h opcode [0..<length (ms_comp s)] rx buf s)"

section \<open>Who gets a message\<close>

text \<open>A handler that only records the call, to observe the delivery itself.\<close>

definition recorder :: op_handler where
  "recorder f m ctx buf s = (ctx, buf, log_ev (Ev_Model_Recv m f ctx (nb_data buf)) s)"

text \<open>
  The model that should handle an opcode: the first model of the element's table that is bound to
  the key and has the opcode in its operation table.
\<close>

definition handles :: "bt_mesh_model \<Rightarrow> u16 \<Rightarrow> u32 \<Rightarrow> bool" where
  "handles mdl app_idx opcode \<longleftrightarrow> app_idx \<in> set (md_keys mdl) \<and> opcode \<in> op_opcode ` set (md_op mdl)"

definition elem_models_for :: "bt_mesh_elem \<Rightarrow> u32 \<Rightarrow> bt_mesh_model list" where
  "elem_models_for elem opcode = (if opcode < 0x10000 then el_models elem else el_vnd_models elem)"

definition delivery :: "mesh \<Rightarrow> bt_mesh_net_rx \<Rightarrow> u32 \<Rightarrow> bytes \<Rightarrow> nat \<Rightarrow> mesh_ev list" where
  "delivery s rx opcode params i =
     (let models = elem_models_for (ms_comp s ! i) opcode in
      if elem_addressed s i (rx_dst rx) then
        (case find_index (\<lambda>mdl. handles mdl (cx_app_idx (rx_ctx rx)) opcode) models of
           None \<Rightarrow> []
         | Some k \<Rightarrow>
             let op = the (find (\<lambda>op. op_opcode op = opcode) (md_op (models ! k)))
             in if op_min_len op \<le> length params
                then [Ev_Model_Recv (i, \<not> opcode < 0x10000, k) (op_func op) (rx_ctx rx) params] else [])
      else [])"

definition deliveries :: "mesh \<Rightarrow> bt_mesh_net_rx \<Rightarrow> u32 \<Rightarrow> bytes \<Rightarrow> mesh_ev list" where
  "deliveries s rx opcode params = concat (map (delivery s rx opcode params) [0..<length (ms_comp s)])"

lemma model_has_key_iff: "model_has_key mdl key \<longleftrightarrow> key \<in> set (md_keys mdl)"
  by (auto simp: model_has_key_def find_index_None)

lemma find_index_find: "find_index P xs = Some k \<Longrightarrow> find P xs = Some (xs ! k)"
  by (induction xs arbitrary: k) (auto split: if_splits)

lemma find_op_eq:
  "find_op i models app_idx opcode =
   map_option (\<lambda>k. (i + k, the (find (\<lambda>op. op_opcode op = opcode) (md_op (models ! k)))))
     (find_index (\<lambda>mdl. handles mdl app_idx opcode) models)"
proof (induction models arbitrary: i)
  case (Cons mdl models)
  have "find_index (\<lambda>op. op_opcode op = opcode) (md_op mdl) = None \<longleftrightarrow> opcode \<notin> op_opcode ` set (md_op mdl)"
    by (auto simp: find_index_None)
  with Cons.IH [of "i + 1"] show ?case
    by (auto simp: handles_def model_has_key_iff option.map_comp comp_def dest: find_index_find split: option.splits)
qed simp

lemma recorder_same [simp]:
  "elem_addressed (s\<lparr>ms_log := l\<rparr>) i dst = elem_addressed s i dst"
  "elem_find_op (s\<lparr>ms_log := l\<rparr>) i app_idx opcode = elem_find_op s i app_idx opcode"
  by (simp_all add: elem_addressed_def elem_find_op_def bt_mesh_fixed_group_match_def bt_mesh_friend_get_def bt_mesh_relay_get_def)

lemma save_restore [simp]: "net_buf_simple_restore b (net_buf_simple_save b) = b"
  by (simp add: net_buf_simple_restore_def net_buf_simple_save_def net_buf_simple_headroom_def)

lemma delivery_log [simp]: "delivery (s\<lparr>ms_log := l\<rparr>) rx opcode params = delivery s rx opcode params"
  by (simp add: delivery_def fun_eq_iff)

lemma recv_loop_step:
  assumes "nb_ok buf"
  shows "model_recv_loop recorder opcode (i # is) rx buf s =
    model_recv_loop recorder opcode is rx buf (s\<lparr>ms_log := ms_log s @ delivery s rx opcode (nb_data buf) i\<rparr>)"
  using assms
  by (cases "opcode < 0x10000")
    (auto simp: elem_find_op_def find_op_eq elem_models_for_def Let_def recorder_def log_ev_def delivery_def not_less
      split: option.splits)

lemma recv_loop_log:
  assumes "nb_ok buf"
  shows "model_recv_loop recorder opcode is rx buf s =
    (rx, s\<lparr>ms_log := ms_log s @ concat (map (delivery s rx opcode (nb_data buf)) is)\<rparr>)"
proof (induction "is" arbitrary: s)
  case (Cons i "is")
  show ?case unfolding recv_loop_step [OF assms] Cons.IH by (simp add: comp_def)
qed simp


text \<open>
  A node with two elements whose first models both know opcode 0x8201: a message to the second
  element's unicast address reaches that element's model only.
\<close>

definition onoff_demo :: bt_mesh_model where
  "onoff_demo = \<lparr>md_id = 0x1000, md_company = 0, md_pub = None, md_keys = [0], md_groups = [0xc000],
     md_op = [\<lparr>op_opcode = 0x8201, op_min_len = 0, op_func = 1\<rparr>, \<lparr>op_opcode = 0x8202, op_min_len = 2, op_func = 2\<rparr>]\<rparr>"

definition comp_demo :: mesh where
  "comp_demo = net_demo\<lparr>ms_comp := [\<lparr>el_addr = 5, el_loc = 0, el_models = [onoff_demo], el_vnd_models = []\<rparr>,
     \<lparr>el_addr = 6, el_loc = 0, el_models = [onoff_demo], el_vnd_models = []\<rparr>]\<rparr>"


end
