(* ===== verification/Replay.thy ===== *)
theory Replay
  imports Net
begin

text \<open>
  Replay protection, from \<^verbatim>\<open>bt_mesh/src/transport.c\<close>: the list of the last sequence number heard from each
  source. What a replay list promises is stated by the locale \<open>replay_guard\<close>; the list of the code
  keeps the promise while its used entries stand before the free ones, which \<^verbatim>\<open>is_replay\<close> maintains
  and \<^verbatim>\<open>bt_mesh_rpl_reset\<close> does not.
\<close>

section \<open>Replay protection\<close>

text \<open>The loop over the replay list: the answer and the list after it.\<close>

fun rpl_check :: "u16 \<Rightarrow> bool \<Rightarrow> u32 \<Rightarrow> bt_mesh_rpl list \<Rightarrow> bool \<times> bt_mesh_rpl list" where
  "rpl_check src old_iv seq [] = (True, [])"
| "rpl_check src old_iv seq (rpl # rpls) =
     (if rp_src rpl = 0 then (False, \<lparr>rp_src = src, rp_old_iv = old_iv, rp_seq = seq\<rparr> # rpls)
      else if rp_src rpl = src then
        if old_iv \<and> \<not> rp_old_iv rpl then (True, rpl # rpls)
        else if \<not> old_iv \<and> rp_old_iv rpl \<or> rp_seq rpl < seq
        then (False, rpl\<lparr>rp_seq := seq, rp_old_iv := old_iv\<rparr> # rpls)
        else (True, rpl # rpls)
      else let (r, rpls) = rpl_check src old_iv seq rpls in (r, rpl # rpls))"

definition is_replay :: "bt_mesh_net_rx \<Rightarrow> mesh \<Rightarrow> bool \<times> mesh" where
  "is_replay rx s =
     (let (r, rpl) = rpl_check (cx_addr (rx_ctx rx)) (rx_old_iv rx) (rx_seq rx) (bm_rpl (ms_net s))
      in (r, upd_net (\<lambda>n. n\<lparr>bm_rpl := rpl\<rparr>) s))"

section \<open>What a replay list promises\<close>

text \<open>
  A guard answers whether a message with key \<open>k\<close> and rank \<open>v\<close> is a replay. \<open>seen\<close> is the highest rank
  accepted for a key. Accepted messages have ranks above what was seen and are recorded; rejected
  ones leave the guard as it is.
\<close>

locale replay_guard =
  fixes check :: "'k \<Rightarrow> 'v \<Rightarrow> 'st \<Rightarrow> bool \<times> 'st"
    and rank :: "'v \<Rightarrow> nat"
    and valid :: "'k \<Rightarrow> bool"
    and seen :: "'st \<Rightarrow> 'k \<Rightarrow> nat option"
    and inv :: "'st \<Rightarrow> bool"
  assumes keeps: "inv st \<Longrightarrow> valid k \<Longrightarrow> inv (snd (check k v st))"
    and accept: "inv st \<Longrightarrow> valid k \<Longrightarrow> check k v st = (False, st') \<Longrightarrow> seen st' = (seen st)(k \<mapsto> rank v)"
    and fresh: "inv st \<Longrightarrow> valid k \<Longrightarrow> check k v st = (False, st') \<Longrightarrow> seen st k = Some w \<Longrightarrow> w < rank v"
    and reject: "inv st \<Longrightarrow> valid k \<Longrightarrow> check k v st = (True, st') \<Longrightarrow> st' = st"
begin

fun run :: "('k \<times> 'v) list \<Rightarrow> 'st \<Rightarrow> bool list \<times> 'st" where
  "run [] st = ([], st)"
| "run ((k, v) # ms) st = (let (r, st) = check k v st; (rs, st) = run ms st in (r # rs, st))"

lemma step_seen:
  assumes "inv st" "valid k" "seen st j = Some w"
  shows "\<exists>w'. seen (snd (check k v st)) j = Some w' \<and> w \<le> w'"
proof -
  obtain r st' where c: "check k v st = (r, st')" by fastforce
  show ?thesis
  proof (cases r)
    case True
    with reject [OF assms(1,2)] c assms(3) show ?thesis by auto
  next
    case False
    with accept [OF assms(1,2)] c have "seen st' = (seen st)(k \<mapsto> rank v)" by simp
    moreover have "j = k \<Longrightarrow> w < rank v" using fresh [OF assms(1,2)] c False assms(3) by simp
    ultimately show ?thesis using c assms(3) by (cases "j = k") (auto intro: less_imp_le)
  qed
qed

lemma run_seen:
  "inv st \<Longrightarrow> \<forall>(k, v)\<in>set ms. valid k \<Longrightarrow> seen st j = Some w \<Longrightarrow>
   inv (snd (run ms st)) \<and> (\<exists>w'. seen (snd (run ms st)) j = Some w' \<and> w \<le> w')"
proof (induction ms arbitrary: st w)
  case (Cons m ms)
  obtain k v where m: "m = (k, v)" by fastforce
  with Cons.prems have k: "valid k" by simp
  from step_seen [OF Cons.prems(1) k Cons.prems(3)] obtain w1 where
    w1: "seen (snd (check k v st)) j = Some w1" "w \<le> w1" by blast
  from Cons.IH [OF keeps [OF Cons.prems(1) k] _ w1(1)] Cons.prems(2) w1(2) show ?case
    by (auto simp: m split: prod.splits intro: order_trans)
qed simp

text \<open>Once a message is accepted, neither it nor an older one of its key is accepted again.\<close>

lemma no_replay:
  assumes "inv st" "valid k" "check k v st = (False, st1)" "\<forall>(k, v)\<in>set ms. valid k" "rank v' \<le> rank v"
  shows "fst (check k v' (snd (run ms st1)))"
proof -
  have i1: "inv st1" using keeps [OF assms(1,2), of v] assms(3) by simp
  have s1: "seen st1 k = Some (rank v)" using accept [OF assms(1-3)] by simp
  from run_seen [OF i1 assms(4) s1] obtain w' where
    w: "inv (snd (run ms st1))" "seen (snd (run ms st1)) k = Some w'" "rank v \<le> w'" by blast
  show ?thesis
  proof (rule ccontr)
    assume "\<not> ?thesis"
    then obtain st2 where "check k v' (snd (run ms st1)) = (False, st2)" by (metis (full_types) prod.collapse)
    from fresh [OF w(1) assms(2) this w(2)] w(3) assms(5) show False by simp
  qed
qed

end

section \<open>The replay list of the node\<close>

definition rpl_rank :: "bool \<times> u32 \<Rightarrow> nat" where
  "rpl_rank v = (if fst v then 0 else 2 ^ 32) + unat (snd v)"

definition rpl_seen :: "bt_mesh_rpl list \<Rightarrow> u16 \<Rightarrow> nat option" where
  "rpl_seen rpls src =
     (if src = 0 then None
      else map_option (\<lambda>i. rpl_rank (rp_old_iv (rpls ! i), rp_seq (rpls ! i))) (find_index (\<lambda>rpl. rp_src rpl = src) rpls))"

text \<open>Used entries stand before free ones.\<close>

fun rpl_packed :: "bt_mesh_rpl list \<Rightarrow> bool" where
  "rpl_packed [] \<longleftrightarrow> True"
| "rpl_packed (rpl # rpls) \<longleftrightarrow> (if rp_src rpl = 0 then (\<forall>r\<in>set rpls. rp_src r = 0) else rpl_packed rpls)"

lemma rpl_seen_Cons:
  "rpl_seen (rpl # rpls) src =
   (if rp_src rpl = src \<and> src \<noteq> 0 then Some (rpl_rank (rp_old_iv rpl, rp_seq rpl)) else rpl_seen rpls src)"
  by (simp add: rpl_seen_def option.map_comp comp_def)

lemma rpl_seen_free: "src \<noteq> 0 \<Longrightarrow> \<forall>r\<in>set rpls. rp_src r = 0 \<Longrightarrow> rpl_seen rpls src = None"
  by (auto simp: rpl_seen_def find_index_None)

lemma rank_less: "rpl_rank (o1, s1) < rpl_rank (o2, s2) \<longleftrightarrow> \<not> (o2 \<and> \<not> o1) \<and> (\<not> o2 \<and> o1 \<or> s1 < s2)"
  using unsigned_less [where 'b = 32 and 'a = nat and w = s1] unsigned_less [where 'b = 32 and 'a = nat and w = s2] by (auto simp: rpl_rank_def word_less_nat_alt)

lemma rpl_free_packed: "\<forall>r\<in>set rpls. rp_src r = 0 \<Longrightarrow> rpl_packed rpls"
  by (induction rpls) auto

lemma rpl_check_laws:
  assumes "rpl_packed rpls" "src \<noteq> 0" "rpl_check src o' q rpls = (r, rpls')"
  shows "rpl_packed rpls' \<and> (r \<longrightarrow> rpls' = rpls) \<and>
    (\<not> r \<longrightarrow> rpl_seen rpls' = (rpl_seen rpls)(src \<mapsto> rpl_rank (o', q)) \<and>
       (\<forall>w. rpl_seen rpls src = Some w \<longrightarrow> w < rpl_rank (o', q)))"
  using assms
proof (induction rpls arbitrary: r rpls')
  case (Cons rpl rpls)
  consider (free) "rp_src rpl = 0" | (hit) "rp_src rpl = src" "rp_src rpl \<noteq> 0" | (other) "rp_src rpl \<noteq> src" "rp_src rpl \<noteq> 0"
    by blast
  then show ?case
  proof cases
    case free
    with Cons.prems(1) have "\<forall>x\<in>set rpls. rp_src x = 0" by simp
    then have "rpl_seen rpls y = None" for y by (cases "y = 0") (simp add: rpl_seen_def, simp add: rpl_seen_free)
    then show ?thesis using Cons.prems free rpl_free_packed by (auto simp: rpl_seen_Cons fun_eq_iff)
  next
    case hit
    then show ?thesis using Cons.prems
      by (auto simp: rpl_seen_Cons rank_less fun_eq_iff split: if_splits)
  next
    case other
    obtain r1 rpls1 where c: "rpl_check src o' q rpls = (r1, rpls1)" by fastforce
    have e: "r = r1" "rpls' = rpl # rpls1" using Cons.prems(3) other c by (auto split: if_splits)
    from Cons.IH [OF _ Cons.prems(2) c] Cons.prems(1) other
    have i: "rpl_packed rpls1" "r1 \<Longrightarrow> rpls1 = rpls"
      "\<not> r1 \<Longrightarrow> rpl_seen rpls1 = (rpl_seen rpls)(src \<mapsto> rpl_rank (o', q))"
      "\<not> r1 \<Longrightarrow> rpl_seen rpls src = Some w \<Longrightarrow> w < rpl_rank (o', q)" for w by auto
    have "\<not> r1 \<Longrightarrow> rpl_seen (rpl # rpls1) x = ((rpl_seen (rpl # rpls))(src \<mapsto> rpl_rank (o', q))) x" for x
      using i(3) other by (simp add: rpl_seen_Cons)
    then show ?thesis using i other by (simp add: e rpl_seen_Cons fun_eq_iff)
  qed
qed simp

interpretation rpl: replay_guard "\<lambda>src v. rpl_check src (fst v) (snd v)" rpl_rank "\<lambda>src. src \<noteq> 0" rpl_seen rpl_packed
proof
  fix st k st' w and v :: "bool \<times> u32"
  obtain r st1 where c: "rpl_check k (fst v) (snd v) st = (r, st1)" by fastforce
  assume p: "rpl_packed st" "k \<noteq> 0"
  note l = rpl_check_laws [OF p c]
  show "rpl_packed (snd (rpl_check k (fst v) (snd v) st))" using l c by simp
  show "rpl_check k (fst v) (snd v) st = (False, st') \<Longrightarrow> rpl_seen st' = (rpl_seen st)(k \<mapsto> rpl_rank v)" using l c by simp
  show "rpl_check k (fst v) (snd v) st = (False, st') \<Longrightarrow> rpl_seen st k = Some w \<Longrightarrow> w < rpl_rank v" using l c by simp
  show "rpl_check k (fst v) (snd v) st = (True, st') \<Longrightarrow> st' = st" using l c by simp
qed

text \<open>A sequence of replay checks on the node.\<close>

definition replay_run :: "bt_mesh_net_rx list \<Rightarrow> mesh \<Rightarrow> mesh" where
  "replay_run rxs s = fold (\<lambda>rx s. snd (is_replay rx s)) rxs s"

definition rx_msg :: "bt_mesh_net_rx \<Rightarrow> u16 \<times> bool \<times> u32" where
  "rx_msg rx = (cx_addr (rx_ctx rx), rx_old_iv rx, rx_seq rx)"

lemma is_replay_rpl:
  "fst (is_replay rx s) = fst (rpl_check (cx_addr (rx_ctx rx)) (rx_old_iv rx) (rx_seq rx) (bm_rpl (ms_net s)))"
  "bm_rpl (ms_net (snd (is_replay rx s))) =
     snd (rpl_check (cx_addr (rx_ctx rx)) (rx_old_iv rx) (rx_seq rx) (bm_rpl (ms_net s)))"
  by (simp_all add: is_replay_def upd_net_def split: prod.splits)

lemma replay_run_rpl: "bm_rpl (ms_net (replay_run rxs s)) = snd (rpl.run (map rx_msg rxs) (bm_rpl (ms_net s)))"
proof (induction rxs arbitrary: s)
  case (Cons rx rxs)
  show ?case
    using Cons [of "snd (is_replay rx s)"] is_replay_rpl(2) [of rx s]
    by (simp add: replay_run_def rx_msg_def split: prod.splits)
qed (simp add: replay_run_def)

text \<open>
  C20. No replay gets through: when the node has accepted a message, it rejects every later message from
  the same source that is not newer (the same or a lower sequence number, or the previous IV Index),
  whatever messages from whatever sources it has checked in between. The used entries of the replay
  list have to stand before the free ones, as they do from initialisation until a
  \<^verbatim>\<open>bt_mesh_rpl_reset\<close>.
\<close>

theorem replay_rejected:
  assumes "rpl_packed (bm_rpl (ms_net s))" and "is_replay rx s = (False, s1)"
    and "\<forall>m\<in>set (rx # rxs). BT_MESH_ADDR_IS_UNICAST (cx_addr (rx_ctx m))"
    and "cx_addr (rx_ctx rx') = cx_addr (rx_ctx rx)"
    and "rpl_rank (rx_old_iv rx', rx_seq rx') \<le> rpl_rank (rx_old_iv rx, rx_seq rx)"
  shows "fst (is_replay rx' (replay_run rxs s1))"
proof -
  let ?k = "cx_addr (rx_ctx rx)"
  have v: "?k \<noteq> 0" "\<forall>(k, v)\<in>set (map rx_msg rxs). k \<noteq> 0"
    using assms(3) by (auto simp: BT_MESH_ADDR_IS_UNICAST_def rx_msg_def)
  have c: "rpl_check ?k (rx_old_iv rx) (rx_seq rx) (bm_rpl (ms_net s)) = (False, bm_rpl (ms_net s1))"
    using is_replay_rpl [of rx s] assms(2) by (simp add: prod_eq_iff)
  from rpl.no_replay [OF assms(1) v(1) _ v(2), of "(rx_old_iv rx, rx_seq rx)" _ "(rx_old_iv rx', rx_seq rx')"] c assms(5)
  show ?thesis by (simp add: is_replay_rpl(1) replay_run_rpl assms(4))
qed

text \<open>The same PDU offered twice, with a message of another source in between.\<close>

theorem replay_rejected_witness:
  "fst (is_replay (rx_demo\<lparr>rx_seq := 7\<rparr>)
     (replay_run [rx_demo\<lparr>rx_seq := 9, rx_ctx := ctx_demo\<lparr>cx_addr := 3\<rparr>\<rparr>] (snd (is_replay (rx_demo\<lparr>rx_seq := 7\<rparr>) net_demo))))"
proof -
  have "is_replay (rx_demo\<lparr>rx_seq := 7\<rparr>) net_demo = (False, snd (is_replay (rx_demo\<lparr>rx_seq := 7\<rparr>) net_demo))"
    by (simp add: is_replay_def net_demo_def bt_mesh_net0_def numeral_eq_Suc)
  moreover have "rpl_packed (bm_rpl (ms_net net_demo))" by (simp add: net_demo_def bt_mesh_net0_def numeral_eq_Suc)
  moreover have "\<forall>m\<in>set [rx_demo\<lparr>rx_seq := 7\<rparr>, rx_demo\<lparr>rx_seq := 9, rx_ctx := ctx_demo\<lparr>cx_addr := 3\<rparr>\<rparr>].
      BT_MESH_ADDR_IS_UNICAST (cx_addr (rx_ctx m))" by (simp add: rx_demo_def ctx_demo_def BT_MESH_ADDR_IS_UNICAST_def)
  ultimately show ?thesis
    using replay_rejected [of net_demo "rx_demo\<lparr>rx_seq := 7\<rparr>" _ "[rx_demo\<lparr>rx_seq := 9, rx_ctx := ctx_demo\<lparr>cx_addr := 3\<rparr>\<rparr>]"
        "rx_demo\<lparr>rx_seq := 7\<rparr>"] by simp
qed

section \<open>Where the promise breaks\<close>

text \<open>
  C38. \<^verbatim>\<open>bt_mesh_rpl_reset\<close>, which runs when an IV Update starts, frees the entries of the IV Index before
  the last and can leave a free entry in front of a used one. Then \<^verbatim>\<open>is_replay\<close> takes the free entry
  without looking further: the very message whose source, sequence number and IV Index the second
  entry records is accepted again.
\<close>

theorem rpl_reset_allows_replay:
  assumes "bm_rpl (ms_net s) = e1 # e2 # rpls" "rp_src e1 \<noteq> 0" "rp_old_iv e1" "rp_src e2 \<noteq> 0" "\<not> rp_old_iv e2"
    and "cx_addr (rx_ctx rx) = rp_src e2" "rx_old_iv rx" "rx_seq rx = rp_seq e2"
  shows "\<not> fst (is_replay rx (bt_mesh_rpl_reset s))"
  using assms by (simp add: is_replay_rpl bt_mesh_rpl_reset_def upd_net_def rpl_reset_entry_def rpl_clear_entry_def)

definition rpl_demo :: mesh where
  "rpl_demo = upd_net (\<lambda>n. n\<lparr>bm_rpl := [\<lparr>rp_src = 3, rp_old_iv = True, rp_seq = 50\<rparr>, \<lparr>rp_src = 2, rp_old_iv = False, rp_seq = 40\<rparr>]\<rparr>) net_demo"

theorem rpl_reset_allows_replay_witness:
  "\<not> fst (is_replay (rx_demo\<lparr>rx_old_iv := True, rx_seq := 40\<rparr>) (bt_mesh_rpl_reset rpl_demo))"
  using rpl_reset_allows_replay [of rpl_demo "\<lparr>rp_src = 3, rp_old_iv = True, rp_seq = 50\<rparr>"
      "\<lparr>rp_src = 2, rp_old_iv = False, rp_seq = 40\<rparr>" "[]" "rx_demo\<lparr>rx_old_iv := True, rx_seq := 40\<rparr>"]
  by (simp add: rpl_demo_def upd_net_def rx_demo_def ctx_demo_def)

end
