(* ===== verification/Transport.thy ===== *)
theory Transport
  imports Model_Recv Replay
begin

text \<open>
  The transport layer, \<^verbatim>\<open>bt_mesh/src/transport.c\<close>: segmentation with retransmission and
  acknowledgement, reassembly, transport control messages (replay protection is in \<^verbatim>\<open>Replay\<close>). A transmission context
  is its index in \<^verbatim>\<open>seg_tx\<close>, a reception context its index in \<^verbatim>\<open>seg_rx\<close>. The out-parameters \<^verbatim>\<open>seq_auth\<close> and
  \<^verbatim>\<open>pdu_type\<close> of the receive functions serve only the Friend queue, which the node build leaves out, so
  they are not returned. \<^verbatim>\<open>bt_mesh_lpn_established\<close> is the stub that returns false.
\<close>

section \<open>Headers\<close>

definition AID_MASK :: u8 where "AID_MASK = 0x3f"
definition SEG :: "u8 \<Rightarrow> u8" where "SEG hdr = drop_bit 7 hdr"
definition AKF :: "u8 \<Rightarrow> u8" where "AKF hdr = drop_bit 6 hdr AND 0x01"
definition AID :: "u8 \<Rightarrow> u8" where "AID hdr = hdr AND AID_MASK"

text \<open>\<^verbatim>\<open>ASZMIC\<close> reads the second byte of a segment.\<close>

definition ASZMIC :: "u8 \<Rightarrow> u8" where "ASZMIC hdr1 = drop_bit 7 hdr1 AND 1"

definition UNSEG_HDR :: "u8 \<Rightarrow> u8 \<Rightarrow> u8" where "UNSEG_HDR akf aid = push_bit 6 akf OR (aid AND AID_MASK)"
definition SEG_HDR :: "u8 \<Rightarrow> u8 \<Rightarrow> u8" where "SEG_HDR akf aid = UNSEG_HDR akf aid OR 0x80"

definition BLOCK_COMPLETE :: "nat \<Rightarrow> u32" where
  "BLOCK_COMPLETE seg_n = ucast (push_bit (seg_n + 1) (1 :: u64) - 1)"

definition SEQ_AUTH :: "u32 \<Rightarrow> u32 \<Rightarrow> u64" where
  "SEQ_AUTH iv_index seq = push_bit 24 (ucast iv_index) OR ucast seq"

definition SEG_RETRANSMIT_ATTEMPTS :: u8 where "SEG_RETRANSMIT_ATTEMPTS = 1"
definition TRANS_CTL_OP :: "u8 \<Rightarrow> u8" where "TRANS_CTL_OP hdr = hdr AND 0x7f"
definition TRANS_CTL_HDR :: "u8 \<Rightarrow> u8 \<Rightarrow> u8" where "TRANS_CTL_HDR op seg = (op AND 0x7f) OR push_bit 7 seg"
definition TRANS_CTL_OP_ACK :: u8 where "TRANS_CTL_OP_ACK = 0x00"
definition TRANS_CTL_OP_HEARTBEAT :: u8 where "TRANS_CTL_OP_HEARTBEAT = 0x0a"
definition MESH_BIT :: "u8 \<Rightarrow> u32" where "MESH_BIT n = push_bit (unat n) 1"

section \<open>Contexts\<close>

definition get_tx :: "mesh \<Rightarrow> nat \<Rightarrow> seg_tx" where "get_tx s i = ms_seg_tx s ! i"

definition upd_tx :: "nat \<Rightarrow> (seg_tx \<Rightarrow> seg_tx) \<Rightarrow> mesh \<Rightarrow> mesh" where
  "upd_tx i f s = s\<lparr>ms_seg_tx := upd_at i f (ms_seg_tx s)\<rparr>"

definition get_rx :: "mesh \<Rightarrow> nat \<Rightarrow> seg_rx" where "get_rx s i = ms_seg_rx s ! i"

definition upd_rx :: "nat \<Rightarrow> (seg_rx \<Rightarrow> seg_rx) \<Rightarrow> mesh \<Rightarrow> mesh" where
  "upd_rx i f s = s\<lparr>ms_seg_rx := upd_at i f (ms_seg_rx s)\<rparr>"

definition bt_mesh_set_hb_sub_dst :: "u16 \<Rightarrow> mesh \<Rightarrow> mesh" where
  "bt_mesh_set_hb_sub_dst addr s = s\<lparr>ms_hb_sub_dst := addr\<rparr>"

section \<open>Sending\<close>

definition send_unseg ::
  "bt_mesh_net_tx \<Rightarrow> net_buf_simple \<Rightarrow> user_cb \<Rightarrow> mesh \<Rightarrow> errno option \<times> bt_mesh_net_tx \<times> mesh" where
  "send_unseg tx sdu cb s =
     (case bt_mesh_adv_create ADV_DATA (BT_MESH_TRANSMIT_COUNT (tx_xmit tx)) (BT_MESH_TRANSMIT_INT (tx_xmit tx)) s of
        (None, s) \<Rightarrow> (Some ENOBUFS, tx, s)
      | (Some b, s) \<Rightarrow>
          let s = net_buf_reserve b BT_MESH_NET_HDR_LEN s;
              s = (if cx_app_idx (tx_ctx tx) = BT_MESH_KEY_DEV
                   then on_buf b (\<lambda>buf. net_buf_simple_add_u8 buf (UNSEG_HDR 0 0)) s
                   else on_buf b (\<lambda>buf. net_buf_simple_add_u8 buf (UNSEG_HDR 1 (tx_aid tx))) s);
              s = on_buf b (\<lambda>buf. net_buf_simple_add_mem buf (nb_data sdu)) s
          in bt_mesh_net_send tx b (Cb_User cb) s)"

definition seg_unref :: "nat \<Rightarrow> nat \<Rightarrow> mesh \<Rightarrow> mesh" where
  "seg_unref i k s =
     (case st_seg (get_tx s i) ! k of
        None \<Rightarrow> s
      | Some b \<Rightarrow> upd_tx i (\<lambda>tx. tx\<lparr>st_seg := (st_seg tx)[k := None]\<rparr>) (net_buf_unref b s))"

definition seg_tx_reset :: "nat \<Rightarrow> mesh \<Rightarrow> mesh" where
  "seg_tx_reset i s =
     (let s = k_delayed_work_cancel (W_Retransmit i) s;
          s = upd_tx i (\<lambda>tx. tx\<lparr>st_cb := Cb_None, st_seq_auth := 0, st_sub := None, st_dst := BT_MESH_ADDR_UNASSIGNED\<rparr>) s
      in if st_nack_count (get_tx s i) = 0 then s
      else
        let s = fold (seg_unref i) [0..<st_seg_n (get_tx s i) + 1] s;
            s = upd_tx i (\<lambda>tx. tx\<lparr>st_nack_count := 0\<rparr>) s
        in if bm_pending_update (ms_net s) then
             let s = upd_net (\<lambda>n. n\<lparr>bm_pending_update := False\<rparr>) s;
                 (change, s) = bt_mesh_net_iv_update (bm_iv_index (ms_net s)) False s
             in if change then bt_mesh_net_sec_update None s else s
           else s)"

definition seg_tx_complete :: "nat \<Rightarrow> errno option \<Rightarrow> mesh \<Rightarrow> mesh" where
  "seg_tx_complete i err s = seg_tx_reset i (user_cb_end (st_cb (get_tx s i)) err s)"

fun send_unacked_loop :: "nat \<Rightarrow> nat list \<Rightarrow> mesh \<Rightarrow> mesh" where
  "send_unacked_loop i [] s = s"
| "send_unacked_loop i (k # ks) s =
     (case st_seg (get_tx s i) ! k of
        None \<Rightarrow> send_unacked_loop i ks s
      | Some b \<Rightarrow>
          if ad_busy (bf_adv (get_buf s b)) then send_unacked_loop i ks s
          else
            let attempts = ad_attempts (bf_adv (get_buf s b));
                s = upd_buf b (\<lambda>buf. buf\<lparr>bf_adv := (bf_adv buf)\<lparr>ad_attempts := attempts - 1\<rparr>\<rparr>) s
            in if attempts = 0 then seg_tx_complete i (Some ETIMEDOUT) s
            else
              let (err, s) = bt_mesh_net_resend (the (st_sub (get_tx s i))) b (st_new_key (get_tx s i)) (Cb_Seg_Sent i) s
              in if err \<noteq> None then seg_tx_complete i (Some EIO) s
                 else send_unacked_loop i ks s)"

definition seg_tx_send_unacked :: "nat \<Rightarrow> mesh \<Rightarrow> mesh" where
  "seg_tx_send_unacked i s = send_unacked_loop i [0..<st_seg_n (get_tx s i) + 1] s"

definition seg_retransmit :: "nat \<Rightarrow> mesh \<Rightarrow> mesh" where
  "seg_retransmit i s = seg_tx_send_unacked i s"

text \<open>The four header bytes of a segment.\<close>

definition seg_header :: "u8 \<Rightarrow> u8 \<Rightarrow> u16 \<Rightarrow> u8 \<Rightarrow> u8 \<Rightarrow> bytes" where
  "seg_header seg_hdr aszmic seq_zero seg_o seg_n =
     [seg_hdr, push_bit 7 aszmic OR ucast (drop_bit 6 seq_zero),
      push_bit 2 (ucast (seq_zero AND 0x3f)) OR drop_bit 3 seg_o, push_bit 5 (seg_o AND 0x07) OR seg_n]"

text \<open>One round of the segment loop: the segment is built in its buffer, before it is sent.\<close>

definition seg_fill :: "nat \<Rightarrow> bytes \<Rightarrow> bytes \<Rightarrow> mesh \<Rightarrow> mesh" where
  "seg_fill b hdr chunk s =
     (let s = upd_buf b (\<lambda>buf. buf\<lparr>bf_adv := (bf_adv buf)\<lparr>ad_attempts := SEG_RETRANSMIT_ATTEMPTS\<rparr>\<rparr>) s;
          s = net_buf_reserve b BT_MESH_NET_HDR_LEN s;
          s = on_buf b (\<lambda>buf. net_buf_simple_add_u8 buf (hdr ! 0)) s;
          s = on_buf b (\<lambda>buf. net_buf_simple_add_u8 buf (hdr ! 1)) s;
          s = on_buf b (\<lambda>buf. net_buf_simple_add_u8 buf (hdr ! 2)) s;
          s = on_buf b (\<lambda>buf. net_buf_simple_add_u8 buf (hdr ! 3)) s
      in on_buf b (\<lambda>buf. net_buf_simple_add_mem buf chunk) s)"

text \<open>Every round takes something off the SDU, which bounds the loop.\<close>

definition sdu_left :: "net_buf_simple \<Rightarrow> nat" where
  "sdu_left sdu = (if nb_len sdu < 65536 then nb_len sdu else 65536)"

lemma sdu_left_pull: "nb_len sdu \<noteq> 0 \<Longrightarrow> sdu_left (net_buf_simple_pull sdu (min (nb_len sdu) 12)) < sdu_left sdu"
proof -
  assume n: "nb_len sdu \<noteq> 0"
  have "u16_sub (nb_len sdu) (min (nb_len sdu) 12) < 65536" by (simp add: u16_sub_def)
  moreover have "nb_len sdu < 65536 \<Longrightarrow> u16_sub (nb_len sdu) (min (nb_len sdu) 12) < nb_len sdu"
    using n by (subst u16_sub_small) auto
  ultimately show ?thesis by (auto simp: sdu_left_def net_buf_simple_pull_def)
qed

function send_seg_loop ::
  "nat \<Rightarrow> u8 \<Rightarrow> u16 \<Rightarrow> u8 \<Rightarrow> bt_mesh_net_tx \<Rightarrow> net_buf_simple \<Rightarrow> mesh \<Rightarrow> errno option \<times> bt_mesh_net_tx \<times> net_buf_simple \<times> mesh"
where
  "send_seg_loop i seg_hdr seq_zero seg_o net_tx sdu s =
     (if nb_len sdu = 0 then (None, net_tx, sdu, s)
      else case bt_mesh_adv_create ADV_DATA (BT_MESH_TRANSMIT_COUNT (tx_xmit net_tx)) (BT_MESH_TRANSMIT_INT (tx_xmit net_tx)) s of
        (None, s) \<Rightarrow> (Some ENOBUFS, net_tx, sdu, seg_tx_reset i s)
      | (Some b, s) \<Rightarrow>
          let len = min (nb_len sdu) 12;
              hdr = seg_header seg_hdr (tx_aszmic net_tx) seq_zero seg_o (of_nat (st_seg_n (get_tx s i)));
              s = seg_fill b hdr (take len (nb_mem sdu)) s;
              sdu = net_buf_simple_pull sdu len;
              s = upd_tx i (\<lambda>tx. tx\<lparr>st_seg := (st_seg tx)[unat seg_o := Some b]\<rparr>) (net_buf_ref b s);
              (err, net_tx, s) = bt_mesh_net_send net_tx b (if seg_o \<noteq> 0 then Cb_Seg_Sent i else Cb_First_Sent i) s
          in if err \<noteq> None then (err, net_tx, sdu, seg_tx_reset i s)
             else send_seg_loop i seg_hdr seq_zero (seg_o + 1) net_tx sdu s)"
  by pat_completeness auto
termination
  by (relation "measure (\<lambda>(i, seg_hdr, seq_zero, seg_o, net_tx, sdu, s). sdu_left sdu)") (auto intro: sdu_left_pull)

declare send_seg_loop.simps [simp del]

definition send_seg ::
  "bt_mesh_net_tx \<Rightarrow> net_buf_simple \<Rightarrow> user_cb \<Rightarrow> mesh \<Rightarrow> errno option \<times> bt_mesh_net_tx \<times> net_buf_simple \<times> mesh" where
  "send_seg net_tx sdu cb s =
     (if nb_len sdu < 1 then (Some EINVAL, net_tx, sdu, s)
      else if nb_len sdu > BT_MESH_TX_SDU_MAX then (Some EMSGSIZE, net_tx, sdu, s)
      else case find_index (\<lambda>tx. st_nack_count tx = 0) (ms_seg_tx s) of
        None \<Rightarrow> (Some EBUSY, net_tx, sdu, s)
      | Some i \<Rightarrow>
          let seg_hdr = (if cx_app_idx (tx_ctx net_tx) = BT_MESH_KEY_DEV then SEG_HDR 0 0 else SEG_HDR 1 (tx_aid net_tx));
              seg_n = (nb_len sdu - 1) div 12 mod 32;
              seq_auth = SEQ_AUTH (BT_MESH_NET_IVI_TX s) (ucast (bm_seq (ms_net s)));
              s = upd_tx i (\<lambda>tx. tx\<lparr>st_dst := cx_addr (tx_ctx net_tx), st_seg_n := seg_n, st_nack_count := seg_n + 1,
                    st_seq_auth := seq_auth, st_sub := Some (tx_sub net_tx),
                    st_new_key := sn_kr_flag (get_sub s (tx_sub net_tx)), st_cb := cb\<rparr>) s
          in send_seg_loop i seg_hdr (ucast (seq_auth AND 0x1fff)) 0 net_tx sdu s)"

definition bt_mesh_app_key_find :: "mesh \<Rightarrow> u16 \<Rightarrow> nat option" where
  "bt_mesh_app_key_find s app_idx =
     find_index (\<lambda>key. ak_net_idx key \<noteq> BT_MESH_KEY_UNUSED \<and> ak_app_idx key = app_idx) (bm_app_keys (ms_net s))"

text \<open>The key and its identifier that a message is sent with.\<close>

definition trans_tx_key :: "mesh \<Rightarrow> bt_mesh_net_tx \<Rightarrow> (bytes \<times> u8) option" where
  "trans_tx_key s tx =
     (if cx_app_idx (tx_ctx tx) = BT_MESH_KEY_DEV then Some (bm_dev_key (ms_net s), 0)
      else case bt_mesh_app_key_find s (cx_app_idx (tx_ctx tx)) of
        None \<Rightarrow> None
      | Some k \<Rightarrow>
          let app_key = bm_app_keys (ms_net s) ! k;
              keys = (if sn_kr_phase (get_sub s (tx_sub tx)) = BT_MESH_KR_PHASE_2 \<and> ak_updated app_key
                      then ak_key1 app_key else ak_key0 app_key)
          in Some (av_val keys, av_id keys))"

definition bt_mesh_trans_send ::
  "bt_mesh_net_tx \<Rightarrow> net_buf_simple \<Rightarrow> user_cb \<Rightarrow> mesh \<Rightarrow> errno option \<times> bt_mesh_net_tx \<times> net_buf_simple \<times> mesh" where
  "bt_mesh_trans_send tx msg cb s =
     (if net_buf_simple_tailroom msg < 4 then (Some EINVAL, tx, msg, s)
      else
        let tx = (if nb_len msg > 11 then tx\<lparr>tx_ctx := (tx_ctx tx)\<lparr>cx_send_rel := True\<rparr>\<rparr> else tx) in
        case trans_tx_key s tx of
          None \<Rightarrow> (Some EINVAL, tx, msg, s)
        | Some (key, aid) \<Rightarrow>
            let tx = tx\<lparr>tx_aid := aid,
                  tx_aszmic := (if \<not> cx_send_rel (tx_ctx tx) \<or> net_buf_simple_tailroom msg < 8 then 0 else 1)\<rparr>;
                addr = cx_addr (tx_ctx tx);
                ad = (if BT_MESH_ADDR_IS_VIRTUAL addr then bt_mesh_label_uuid_get s addr else None);
                (err, msg) = bt_mesh_app_encrypt key (cx_app_idx (tx_ctx tx) = BT_MESH_KEY_DEV) (tx_aszmic tx) msg ad
                  (tx_src tx) addr (ucast (bm_seq (ms_net s))) (BT_MESH_NET_IVI_TX s)
            in if err \<noteq> None then (err, tx, msg, s)
               else if cx_send_rel (tx_ctx tx) then send_seg tx msg cb s
               else let (err, tx, s) = send_unseg tx msg cb s in (err, tx, msg, s))"

definition bt_mesh_trans_resend ::
  "bt_mesh_net_tx \<Rightarrow> net_buf_simple \<Rightarrow> user_cb \<Rightarrow> mesh \<Rightarrow> errno option \<times> bt_mesh_net_tx \<times> net_buf_simple \<times> mesh" where
  "bt_mesh_trans_resend tx msg cb s =
     (let state = net_buf_simple_save msg;
          (err, tx, msg, s) =
            (if cx_send_rel (tx_ctx tx) \<or> nb_len msg > 15 then send_seg tx msg cb s
             else let (err, tx, s) = send_unseg tx msg cb s in (err, tx, msg, s))
      in (err, tx, net_buf_simple_restore msg state, s))"

section \<open>Receiving access messages\<close>

fun sdu_try_keys ::
  "op_handler \<Rightarrow> u8 \<Rightarrow> u8 \<Rightarrow> net_buf_simple \<Rightarrow> bytes option \<Rightarrow> nat list \<Rightarrow> bt_mesh_net_rx \<Rightarrow> net_buf_simple \<Rightarrow> mesh
   \<Rightarrow> errno option \<times> bt_mesh_net_rx \<times> mesh" where
  "sdu_try_keys h hdr aszmic buf ad [] rx sdu s = (Some EINVAL, rx, s)"
| "sdu_try_keys h hdr aszmic buf ad (i # is) rx sdu s =
     (let key = bm_app_keys (ms_net s) ! i;
          keys = (if rx_new_key rx \<and> ak_updated key then ak_key1 key else ak_key0 key)
      in if ak_net_idx key \<noteq> sn_net_idx (get_sub s (rx_sub rx)) then sdu_try_keys h hdr aszmic buf ad is rx sdu s
      else if AID hdr \<noteq> av_id keys then sdu_try_keys h hdr aszmic buf ad is rx sdu s
      else
        let (err, sdu) = bt_mesh_app_decrypt (av_val keys) False aszmic buf (net_buf_simple_init sdu 0) ad
              (cx_addr (rx_ctx rx)) (rx_dst rx) (rx_seq rx) (BT_MESH_NET_IVI_RX s rx)
        in if err \<noteq> None then sdu_try_keys h hdr aszmic buf ad is rx sdu s
        else
          let rx = rx\<lparr>rx_ctx := (rx_ctx rx)\<lparr>cx_app_idx := ak_app_idx key\<rparr>\<rparr>;
              (rx, s) = bt_mesh_model_recv h rx sdu s
          in (None, rx, s))"

definition sdu_recv ::
  "op_handler \<Rightarrow> bt_mesh_net_rx \<Rightarrow> u8 \<Rightarrow> u8 \<Rightarrow> net_buf_simple \<Rightarrow> mesh
   \<Rightarrow> errno option \<times> bt_mesh_net_rx \<times> net_buf_simple \<times> mesh" where
  "sdu_recv h rx hdr aszmic buf s =
     (let sdu = NET_BUF_SIMPLE (CONFIG_BT_MESH_RX_SDU_MAX - 4) in
      if nb_len buf < 1 + APP_MIC_LEN aszmic then (Some EINVAL, rx, buf, s)
      else
        let ad = (if BT_MESH_ADDR_IS_VIRTUAL (rx_dst rx) then bt_mesh_label_uuid_get s (rx_dst rx) else None);
            buf = buf\<lparr>nb_len := nb_len buf - APP_MIC_LEN aszmic\<rparr>
        in if AKF hdr = 0 then
          let (err, sdu) = bt_mesh_app_decrypt (bm_dev_key (ms_net s)) True aszmic buf (net_buf_simple_init sdu 0) ad
                (cx_addr (rx_ctx rx)) (rx_dst rx) (rx_seq rx) (BT_MESH_NET_IVI_RX s rx)
          in if err \<noteq> None then (Some EINVAL, rx, buf, s)
             else
               let rx = rx\<lparr>rx_ctx := (rx_ctx rx)\<lparr>cx_app_idx := BT_MESH_KEY_DEV\<rparr>\<rparr>;
                   (rx, s) = bt_mesh_model_recv h rx sdu s
               in (None, rx, buf, s)
        else
          let (err, rx, s) = sdu_try_keys h hdr aszmic buf ad [0..<length (bm_app_keys (ms_net s))] rx sdu s
          in (err, rx, buf, s))"

section \<open>Acknowledgements and control messages\<close>

fun seg_tx_lookup_from :: "nat list \<Rightarrow> u16 \<Rightarrow> bool \<Rightarrow> u16 \<Rightarrow> mesh \<Rightarrow> nat option \<times> mesh" where
  "seg_tx_lookup_from [] seq_zero obo addr s = (None, s)"
| "seg_tx_lookup_from (i # is) seq_zero obo addr s =
     (let tx = get_tx s i in
      if st_seq_auth tx AND 0x1fff \<noteq> ucast seq_zero then seg_tx_lookup_from is seq_zero obo addr s
      else if st_dst tx = addr then (Some i, s)
      else if obo \<and> st_nack_count tx = st_seg_n tx + 1 then (Some i, upd_tx i (\<lambda>tx. tx\<lparr>st_dst := addr\<rparr>) s)
      else seg_tx_lookup_from is seq_zero obo addr s)"

definition seg_tx_lookup :: "u16 \<Rightarrow> bool \<Rightarrow> u16 \<Rightarrow> mesh \<Rightarrow> nat option \<times> mesh" where
  "seg_tx_lookup seq_zero obo addr s = seg_tx_lookup_from [0..<length (ms_seg_tx s)] seq_zero obo addr s"

definition find_msb_set :: "u32 \<Rightarrow> nat" where
  "find_msb_set data =
     (if data = 0 then 0
      else case find_index (\<lambda>count. data AND drop_bit count 0x80000000 \<noteq> 0) [0..<32] of
        Some count \<Rightarrow> 32 - count | None \<Rightarrow> 0)"

definition find_lsb_set :: "u32 \<Rightarrow> nat" where
  "find_lsb_set data =
     (if data = 0 then 0
      else case find_index (\<lambda>count. data AND push_bit count 1 \<noteq> 0) [0..<32] of
        Some count \<Rightarrow> count + 1 | None \<Rightarrow> 0)"

text \<open>
  The loop of \<^verbatim>\<open>trans_ack\<close> takes the lowest set bit of the block acknowledgement until none is left,
  so it visits the set bits in ascending order.
\<close>

definition ack_segs :: "nat \<Rightarrow> u32 \<Rightarrow> mesh \<Rightarrow> mesh" where
  "ack_segs i ack s =
     fold (\<lambda>k s. case st_seg (get_tx s i) ! k of
             None \<Rightarrow> s
           | Some b \<Rightarrow> upd_tx i (\<lambda>tx. tx\<lparr>st_seg := (st_seg tx)[k := None], st_nack_count := st_nack_count tx - 1\<rparr>)
                         (net_buf_unref b s))
       (filter (bit ack) [0..<32]) s"

definition trans_ack ::
  "bt_mesh_net_rx \<Rightarrow> u8 \<Rightarrow> net_buf_simple \<Rightarrow> mesh \<Rightarrow> errno option \<times> net_buf_simple \<times> mesh" where
  "trans_ack rx hdr buf s =
     (if nb_len buf < 6 then (Some EINVAL, buf, s)
      else
        let (seq_zero, buf) = net_buf_simple_pull_be16 buf;
            obo = (drop_bit 15 seq_zero \<noteq> 0);
            seq_zero = drop_bit 2 seq_zero AND 0x1fff;
            (ack, buf) = net_buf_simple_pull_be32 buf
        in case seg_tx_lookup seq_zero obo (cx_addr (rx_ctx rx)) s of
          (None, s) \<Rightarrow> (Some EINVAL, buf, s)
        | (Some i, s) \<Rightarrow>
            if ack = 0 then (None, buf, seg_tx_complete i (Some ECANCELED) s)
            else if find_msb_set ack - 1 > st_seg_n (get_tx s i) then (Some EINVAL, buf, s)
            else
              let s = k_delayed_work_cancel (W_Retransmit i) s;
                  s = ack_segs i ack s
              in (None, buf, if st_nack_count (get_tx s i) \<noteq> 0 then seg_tx_send_unacked i s else seg_tx_complete i None s))"

text \<open>The heartbeat subscription of the configuration server (\<^verbatim>\<open>cfg_srv.c\<close>).\<close>

definition bt_mesh_heartbeat :: "u16 \<Rightarrow> u16 \<Rightarrow> u8 \<Rightarrow> u16 \<Rightarrow> mesh \<Rightarrow> mesh" where
  "bt_mesh_heartbeat src dst hops feat s =
     (case ms_conf s of
        None \<Rightarrow> s
      | Some cfg \<Rightarrow>
          let sub = cf_hb_sub cfg in
          if src \<noteq> hs_src sub \<or> dst \<noteq> hs_dst sub then s
          else if k_uptime_get s > hs_expiry sub then s
          else
            let sub = sub\<lparr>hs_min_hops := min (hs_min_hops sub) hops, hs_max_hops := max (hs_max_hops sub) hops,
                  hs_count := (if hs_count sub < 0xffff then hs_count sub + 1 else hs_count sub)\<rparr>;
                s = s\<lparr>ms_conf := Some (cfg\<lparr>cf_hb_sub := sub\<rparr>)\<rparr>
            in if hs_func sub then log_ev (Ev_Hb_Func hops feat) s else s)"

definition trans_heartbeat :: "bt_mesh_net_rx \<Rightarrow> net_buf_simple \<Rightarrow> mesh \<Rightarrow> errno option \<times> net_buf_simple \<times> mesh" where
  "trans_heartbeat rx buf s =
     (if nb_len buf < 3 then (Some EINVAL, buf, s)
      else if rx_dst rx \<noteq> ms_hb_sub_dst s then (None, buf, s)
      else
        let (init_ttl, buf) = net_buf_simple_pull_u8 buf;
            init_ttl = init_ttl AND 0x7f;
            (feat, buf) = net_buf_simple_pull_be16 buf;
            hops = init_ttl - cx_recv_ttl (rx_ctx rx) + 1
        in (None, buf, bt_mesh_heartbeat (cx_addr (rx_ctx rx)) (rx_dst rx) hops feat s))"

definition ctl_recv ::
  "bt_mesh_net_rx \<Rightarrow> u8 \<Rightarrow> net_buf_simple \<Rightarrow> mesh \<Rightarrow> errno option \<times> net_buf_simple \<times> mesh" where
  "ctl_recv rx hdr buf s =
     (let ctl_op = TRANS_CTL_OP hdr in
      if ctl_op = TRANS_CTL_OP_ACK then trans_ack rx hdr buf s
      else if ctl_op = TRANS_CTL_OP_HEARTBEAT then trans_heartbeat rx buf s
      else if \<not> rx_local_match rx then (None, buf, s)
      else (Some ENOENT, buf, s))"

definition trans_unseg ::
  "op_handler \<Rightarrow> net_buf_simple \<Rightarrow> bt_mesh_net_rx \<Rightarrow> mesh \<Rightarrow> errno option \<times> bt_mesh_net_rx \<times> net_buf_simple \<times> mesh" where
  "trans_unseg h buf rx s =
     (if nb_len buf < 1 then (Some EINVAL, rx, buf, s)
      else
        let (replay, s) = (if rx_local_match rx then is_replay rx s else (False, s)) in
        if replay then (Some EINVAL, rx, buf, s)
        else
          let (hdr, buf) = net_buf_simple_pull_u8 buf in
          if rx_ctl rx then let (err, buf, s) = ctl_recv rx hdr buf s in (err, rx, buf, s)
          else if \<not> rx_local_match rx \<and> \<not> rx_friend_match rx then (None, rx, buf, s)
          else sdu_recv h rx hdr 0 buf s)"

definition popcount :: "u32 \<Rightarrow> nat" where "popcount w = length (filter (bit w) [0..<32])"

definition ack_timeout :: "seg_rx \<Rightarrow> nat" where
  "ack_timeout rx =
     (let to = int (150 + 50 * unat (sr_ttl rx));
          to = to + (int (sr_seg_n rx + 1) - int (popcount (sr_block rx))) * 100
      in nat (max to 400))"

definition bt_mesh_ctl_send ::
  "bt_mesh_net_tx \<Rightarrow> u8 \<Rightarrow> bytes \<Rightarrow> user_cb \<Rightarrow> mesh \<Rightarrow> errno option \<times> bt_mesh_net_tx \<times> mesh" where
  "bt_mesh_ctl_send tx ctl_op data cb s =
     (case bt_mesh_adv_create ADV_DATA (BT_MESH_TRANSMIT_COUNT (tx_xmit tx)) (BT_MESH_TRANSMIT_INT (tx_xmit tx)) s of
        (None, s) \<Rightarrow> (Some ENOBUFS, tx, s)
      | (Some b, s) \<Rightarrow>
          let s = net_buf_reserve b BT_MESH_NET_HDR_LEN s;
              s = on_buf b (\<lambda>buf. net_buf_simple_add_u8 buf (TRANS_CTL_HDR ctl_op 0)) s;
              s = on_buf b (\<lambda>buf. net_buf_simple_add_mem buf data) s
          in bt_mesh_net_send tx b (Cb_User cb) s)"

definition send_ack :: "nat \<Rightarrow> u16 \<Rightarrow> u16 \<Rightarrow> u8 \<Rightarrow> u64 \<Rightarrow> u32 \<Rightarrow> bool \<Rightarrow> mesh \<Rightarrow> errno option \<times> mesh" where
  "send_ack sub src dst ttl seq_auth block obo s =
     (let ctx = \<lparr>cx_net_idx = sn_net_idx (get_sub s sub), cx_app_idx = BT_MESH_KEY_UNUSED, cx_addr = dst, cx_recv_ttl = 0,
                 cx_send_rel = False, cx_send_ttl = ttl\<rparr>;
          tx = \<lparr>tx_sub = sub, tx_ctx = ctx, tx_src = (if obo then bt_mesh_primary_addr s else src),
                tx_xmit = bt_mesh_net_transmit_get s, tx_friend_cred = False, tx_aszmic = 0, tx_aid = 0\<rparr>;
          seq_zero = ucast (seq_auth AND 0x1fff) :: u16
      in if \<not> BT_MESH_ADDR_IS_UNICAST src then (None, s)
         else
           let buf = sys_put_be16 ((push_bit 2 seq_zero AND 0x7ffc) OR (if obo then 0x8000 else 0)) @ sys_put_be32 block;
               (err, tx, s) = bt_mesh_ctl_send tx TRANS_CTL_OP_ACK buf Cb_None s
           in (err, s))"

section \<open>Reassembly\<close>

definition seg_rx_reset :: "nat \<Rightarrow> mesh \<Rightarrow> mesh" where
  "seg_rx_reset i s = upd_rx i (\<lambda>rx. rx\<lparr>sr_in_use := False\<rparr>) (k_delayed_work_cancel (W_Ack i) s)"

definition seg_ack :: "nat \<Rightarrow> mesh \<Rightarrow> mesh" where
  "seg_ack i s =
     (let rx = get_rx s i in
      if k_uptime_get_32 s - sr_last rx > 60 * 1000 then
        seg_rx_reset i (snd (send_ack (sr_sub rx) (sr_dst rx) (sr_src rx) (sr_ttl rx) (sr_seq_auth rx) 0 (sr_obo rx) s))
      else
        let s = snd (send_ack (sr_sub rx) (sr_dst rx) (sr_src rx) (sr_ttl rx) (sr_seq_auth rx) (sr_block rx) (sr_obo rx) s)
        in k_delayed_work_submit (W_Ack i) (ack_timeout (get_rx s i)) s)"

definition seg_len :: "bool \<Rightarrow> nat" where "seg_len ctl = (if ctl then 8 else 12)"

definition sdu_len_is_ok :: "bool \<Rightarrow> nat \<Rightarrow> bool" where
  "sdu_len_is_ok ctl seg_n \<longleftrightarrow> seg_n * seg_len ctl + 1 \<le> CONFIG_BT_MESH_RX_SDU_MAX"

fun seg_rx_find_from :: "nat list \<Rightarrow> bt_mesh_net_rx \<Rightarrow> u64 \<Rightarrow> mesh \<Rightarrow> nat option \<times> mesh" where
  "seg_rx_find_from [] net_rx seq_auth s = (None, s)"
| "seg_rx_find_from (i # is) net_rx seq_auth s =
     (let rx = get_rx s i in
      if sr_src rx \<noteq> cx_addr (rx_ctx net_rx) \<or> sr_dst rx \<noteq> rx_dst net_rx then seg_rx_find_from is net_rx seq_auth s
      else if sr_seq_auth rx = seq_auth then (Some i, s)
      else if sr_in_use rx then (None, seg_rx_reset i s)
      else seg_rx_find_from is net_rx seq_auth s)"

definition seg_rx_find :: "bt_mesh_net_rx \<Rightarrow> u64 \<Rightarrow> mesh \<Rightarrow> nat option \<times> mesh" where
  "seg_rx_find net_rx seq_auth s = seg_rx_find_from [0..<length (ms_seg_rx s)] net_rx seq_auth s"

definition seg_rx_is_valid :: "seg_rx \<Rightarrow> bt_mesh_net_rx \<Rightarrow> u8 \<Rightarrow> nat \<Rightarrow> bool" where
  "seg_rx_is_valid rx net_rx hdr seg_n =
     (if sr_hdr rx \<noteq> hdr \<or> sr_seg_n rx \<noteq> seg_n then False
      else if sr_src rx \<noteq> cx_addr (rx_ctx net_rx) \<or> sr_dst rx \<noteq> rx_dst net_rx then False
      else if sr_ctl rx \<noteq> rx_ctl net_rx then False
      else True)"

definition seg_rx_alloc :: "bt_mesh_net_rx \<Rightarrow> u8 \<Rightarrow> u64 \<Rightarrow> nat \<Rightarrow> mesh \<Rightarrow> nat option \<times> mesh" where
  "seg_rx_alloc net_rx hdr seq_auth seg_n s =
     (case find_index (\<lambda>rx. \<not> sr_in_use rx) (ms_seg_rx s) of
        None \<Rightarrow> (None, s)
      | Some i \<Rightarrow>
          (Some i, upd_rx i (\<lambda>rx. rx\<lparr>sr_in_use := True, sr_buf := net_buf_simple_init (sr_buf rx) 0, sr_sub := rx_sub net_rx,
             sr_ctl := rx_ctl net_rx, sr_seq_auth := seq_auth, sr_seg_n := seg_n, sr_hdr := hdr,
             sr_ttl := cx_send_ttl (rx_ctx net_rx), sr_src := cx_addr (rx_ctx net_rx), sr_dst := rx_dst net_rx, sr_block := 0\<rparr>) s))"

text \<open>
  The write of a segment into \<^verbatim>\<open>buf_data\<close>; a \<^verbatim>\<open>memcpy\<close> past its end would be a buffer fault.
\<close>

definition rx_put :: "net_buf_simple \<Rightarrow> nat \<Rightarrow> bytes \<Rightarrow> net_buf_simple" where
  "rx_put b pos xs = b\<lparr>nb_buf := put_bytes (nb_buf b) pos xs,
     nb_fault := nb_fault b \<or> length (nb_buf b) < pos + length xs\<rparr>"

text \<open>The end of \<^verbatim>\<open>trans_seg\<close>, when all segments have arrived.\<close>

definition seg_complete ::
  "op_handler \<Rightarrow> nat \<Rightarrow> u8 \<Rightarrow> u8 \<Rightarrow> u64 \<Rightarrow> u8 \<Rightarrow> bt_mesh_net_rx \<Rightarrow> mesh \<Rightarrow> errno option \<times> bt_mesh_net_rx \<times> mesh" where
  "seg_complete h i hdr aszmic seq_auth seg_o net_rx s =
     (let (replay, s) = (if rx_local_match net_rx then is_replay net_rx s else (False, s)) in
      if replay then (Some EINVAL, net_rx, upd_rx i (\<lambda>rx. rx\<lparr>sr_block := sr_block rx AND NOT (MESH_BIT seg_o)\<rparr>) s)
      else
        let net_rx = (if \<not> rx_friend_match net_rx
                      then net_rx\<lparr>rx_seq := ucast (sr_seq_auth (get_rx s i) AND 0xffffff)\<rparr> else net_rx);
            s = k_delayed_work_cancel (W_Ack i) s;
            s = snd (send_ack (rx_sub net_rx) (rx_dst net_rx) (cx_addr (rx_ctx net_rx)) (cx_send_ttl (rx_ctx net_rx)) seq_auth
                  (sr_block (get_rx s i)) (sr_obo (get_rx s i)) s);
            (err, net_rx, buf, s) =
              (if rx_ctl net_rx
               then let (err, buf, s) = ctl_recv net_rx hdr (sr_buf (get_rx s i)) s in (err, net_rx, buf, s)
               else sdu_recv h net_rx hdr aszmic (sr_buf (get_rx s i)) s);
            s = upd_rx i (\<lambda>rx. rx\<lparr>sr_buf := buf\<rparr>) s
        in (err, net_rx, seg_rx_reset i s))"

text \<open>\<^verbatim>\<open>trans_seg\<close> from the label \<^verbatim>\<open>found_rx\<close>.\<close>

definition seg_found ::
  "op_handler \<Rightarrow> nat \<Rightarrow> u8 \<Rightarrow> u8 \<Rightarrow> u64 \<Rightarrow> u8 \<Rightarrow> nat \<Rightarrow> net_buf_simple \<Rightarrow> bt_mesh_net_rx \<Rightarrow> mesh
   \<Rightarrow> errno option \<times> bt_mesh_net_rx \<times> mesh" where
  "seg_found h i hdr aszmic seq_auth seg_o seg_n buf net_rx s =
     (let rx = get_rx s i; ctl = sr_ctl rx; last = (unat seg_o = seg_n); len = seg_n * seg_len ctl + nb_len buf in
      if MESH_BIT seg_o AND sr_block rx \<noteq> 0 then (Some EALREADY, net_rx, s)
      else
        let s = (if last then upd_rx i (\<lambda>rx. rx\<lparr>sr_buf := (sr_buf rx)\<lparr>nb_len := len\<rparr>\<rparr>) s else s) in
        if last \<and> len > CONFIG_BT_MESH_RX_SDU_MAX then
          let s = snd (send_ack (rx_sub net_rx) (rx_dst net_rx) (cx_addr (rx_ctx net_rx)) (cx_send_ttl (rx_ctx net_rx))
                seq_auth 0 (sr_obo rx) s)
          in (Some EMSGSIZE, net_rx, seg_rx_reset i s)
        else if \<not> last \<and> nb_len buf \<noteq> seg_len ctl then (Some EINVAL, net_rx, s)
        else
          let s = upd_rx i (\<lambda>rx. rx\<lparr>sr_last := k_uptime_get_32 s\<rparr>) s;
              s = (if k_delayed_work_remaining_get (W_Ack i) s = 0
                   then k_delayed_work_submit (W_Ack i) (ack_timeout (get_rx s i)) s else s);
              s = upd_rx i (\<lambda>rx. rx\<lparr>sr_buf := rx_put (sr_buf rx) (unat seg_o * seg_len ctl) (nb_data buf),
                    sr_block := sr_block rx OR MESH_BIT seg_o\<rparr>) s
          in if sr_block (get_rx s i) \<noteq> BLOCK_COMPLETE seg_n then (None, net_rx, s)
             else seg_complete h i hdr aszmic seq_auth seg_o net_rx s)"

text \<open>The fields of the segment header after its first byte: SeqZero, SegO and SegN.\<close>

definition seg_fields :: "u16 \<Rightarrow> u8 \<Rightarrow> u16 \<times> u8 \<times> u8" where
  "seg_fields w b = (drop_bit 2 w AND 0x1fff, push_bit 3 (ucast (w AND 0x03)) OR drop_bit 5 b, b AND 0x1f)"

definition trans_seg ::
  "op_handler \<Rightarrow> net_buf_simple \<Rightarrow> bt_mesh_net_rx \<Rightarrow> mesh \<Rightarrow> errno option \<times> bt_mesh_net_rx \<times> net_buf_simple \<times> mesh" where
  "trans_seg h buf net_rx s =
     (let hdr = nb_byte buf 0; aszmic = ASZMIC (nb_byte buf 1) in
      if nb_len buf < 5 then (Some EINVAL, net_rx, buf, s)
      else
        let buf = net_buf_simple_pull buf 1;
            (w, buf) = net_buf_simple_pull_be16 buf;
            (b, buf) = net_buf_simple_pull_u8 buf;
            (seq_zero, seg_o, n) = seg_fields w b;
            seg_n = unat n
        in if seg_o > n then (Some EINVAL, net_rx, buf, s)
        else
          let seq_auth = SEQ_AUTH (BT_MESH_NET_IVI_RX s net_rx) ((rx_seq net_rx AND 0xffffe000) OR ucast seq_zero);
              ack = (\<lambda>block obo s. snd (send_ack (rx_sub net_rx) (rx_dst net_rx) (cx_addr (rx_ctx net_rx))
                      (cx_send_ttl (rx_ctx net_rx)) seq_auth block obo s))
          in case seg_rx_find net_rx seq_auth s of
            (Some i, s) \<Rightarrow>
              let rx = get_rx s i in
              if \<not> seg_rx_is_valid rx net_rx hdr seg_n then (Some EINVAL, net_rx, buf, s)
              else if sr_in_use rx then
                let (err, net_rx, s) = seg_found h i hdr aszmic seq_auth seg_o seg_n buf net_rx s in (err, net_rx, buf, s)
              else if sr_block rx = BLOCK_COMPLETE (sr_seg_n rx) then
                (Some EALREADY, net_rx, buf, ack (sr_block rx) (sr_obo rx) s)
              else (Some EINVAL, net_rx, buf, s)
          | (None, s) \<Rightarrow>
              if \<not> sdu_len_is_ok (rx_ctl net_rx) seg_n then
                (Some EMSGSIZE, net_rx, buf, ack 0 (rx_friend_match net_rx) s)
              else case seg_rx_alloc net_rx hdr seq_auth seg_n s of
                (None, s) \<Rightarrow> (Some ENOMEM, net_rx, buf, s)
              | (Some i, s) \<Rightarrow>
                  let s = upd_rx i (\<lambda>rx. rx\<lparr>sr_obo := rx_friend_match net_rx\<rparr>) s;
                      (err, net_rx, s) = seg_found h i hdr aszmic seq_auth seg_o seg_n buf net_rx s
                  in (err, net_rx, buf, s))"

definition bt_mesh_trans_recv ::
  "op_handler \<Rightarrow> net_buf_simple \<Rightarrow> bt_mesh_net_rx \<Rightarrow> mesh \<Rightarrow> errno option \<times> bt_mesh_net_rx \<times> net_buf_simple \<times> mesh" where
  "bt_mesh_trans_recv h buf rx s =
     (let rx = rx\<lparr>rx_friend_match := False\<rparr>;
          buf = net_buf_simple_pull buf BT_MESH_NET_HDR_LEN;
          state = net_buf_simple_save buf
      in if SEG (nb_byte buf 0) \<noteq> 0 \<and> \<not> rx_local_match rx \<and> \<not> rx_friend_match rx then (None, rx, buf, s)
         else
           let (err, rx, buf, s) = (if SEG (nb_byte buf 0) \<noteq> 0 then trans_seg h buf rx s else trans_unseg h buf rx s)
           in (err, rx, net_buf_simple_restore buf state, s))"

section \<open>Reset and initialisation\<close>

definition bt_mesh_rx_reset :: "mesh \<Rightarrow> mesh" where
  "bt_mesh_rx_reset s =
     fold (\<lambda>i s. upd_rx i (\<lambda>rx. rx\<lparr>sr_src := BT_MESH_ADDR_UNASSIGNED, sr_dst := BT_MESH_ADDR_UNASSIGNED\<rparr>) (seg_rx_reset i s))
       [0..<length (ms_seg_rx s)] s"

definition bt_mesh_tx_reset :: "mesh \<Rightarrow> mesh" where
  "bt_mesh_tx_reset s = fold seg_tx_reset [0..<length (ms_seg_tx s)] s"

definition bt_mesh_trans_init :: "mesh \<Rightarrow> mesh" where
  "bt_mesh_trans_init s =
     (let s = fold (\<lambda>i. k_delayed_work_init (W_Retransmit i)) [0..<length (ms_seg_tx s)] s
      in fold (\<lambda>i. k_delayed_work_init (W_Ack i)) [0..<length (ms_seg_rx s)] s)"

end
