(* ===== verification/Access.thy ===== *)
theory Access
  imports Transport
begin

text \<open>
  The sending side of \<^verbatim>\<open>bt_mesh/src/access.c\<close>: sending and publishing model messages, with the publication
  retransmissions. The \<^verbatim>\<open>update\<close> callback a model registers for its periodic publication is an argument of
  \<^verbatim>\<open>mod_publish\<close>. A model is a reference into the composition; \<^verbatim>\<open>model->elem\<close> is its element.
\<close>

section \<open>Operations\<close>

definition BT_MESH_PUB_TRANSMIT_COUNT :: "u8 \<Rightarrow> nat" where
  "BT_MESH_PUB_TRANSMIT_COUNT transmit = BT_MESH_TRANSMIT_COUNT transmit"

text \<open>The element a model belongs to, and an update of its publication state.\<close>

definition model_elem :: "mesh \<Rightarrow> model_ref \<Rightarrow> bt_mesh_elem" where
  "model_elem s m = ms_comp s ! fst m"

definition upd_pub :: "model_ref \<Rightarrow> (bt_mesh_model_pub \<Rightarrow> bt_mesh_model_pub) \<Rightarrow> mesh \<Rightarrow> mesh" where
  "upd_pub m f s = upd_model m (\<lambda>mdl. mdl\<lparr>md_pub := map_option f (md_pub mdl)\<rparr>) s"

definition publish_retransmit :: "model_ref \<Rightarrow> mesh \<Rightarrow> errno option \<times> mesh" where
  "publish_retransmit m s =
     (let pub = the (md_pub (get_model s m)) in
      case bt_mesh_app_key_find s (pb_key pub) of
        None \<Rightarrow> (Some EADDRNOTAVAIL, s)
      | Some k \<Rightarrow>
          let key = bm_app_keys (ms_net s) ! k in
          case bt_mesh_subnet_get s (ak_net_idx key) of
            None \<Rightarrow> (Some EINVAL, s)
          | Some sub \<Rightarrow>
              let ctx = \<lparr>cx_net_idx = ak_net_idx key, cx_app_idx = ak_app_idx key, cx_addr = pb_addr pub, cx_recv_ttl = 0,
                         cx_send_rel = False, cx_send_ttl = pb_ttl pub\<rparr>;
                  tx = \<lparr>tx_sub = sub, tx_ctx = ctx, tx_src = el_addr (model_elem s m), tx_xmit = bt_mesh_net_transmit_get s,
                        tx_friend_cred = pb_cred pub, tx_aszmic = 0, tx_aid = 0\<rparr>;
                  sdu = net_buf_simple_add_mem (net_buf_simple_init (NET_BUF_SIMPLE BT_MESH_TX_SDU_MAX) 0) (nb_data (pb_msg pub));
                  s = upd_pub m (\<lambda>p. p\<lparr>pb_count := (pb_count p + 7) mod 8\<rparr>) s;
                  (err, tx, sdu, s) = bt_mesh_trans_send tx sdu (Cb_Pub m) s
              in (err, s))"

definition model_send ::
  "model_ref \<Rightarrow> bt_mesh_net_tx \<Rightarrow> bool \<Rightarrow> net_buf_simple \<Rightarrow> user_cb \<Rightarrow> mesh
   \<Rightarrow> errno option \<times> bt_mesh_net_tx \<times> net_buf_simple \<times> mesh" where
  "model_send m tx implicit_bind msg cb s =
     (if \<not> bt_mesh_is_provisioned s then (Some EAGAIN, tx, msg, s)
      else if net_buf_simple_tailroom msg < 4 then (Some EINVAL, tx, msg, s)
      else if nb_len msg > BT_MESH_TX_SDU_MAX - 4 then (Some EMSGSIZE, tx, msg, s)
      else if \<not> implicit_bind \<and> \<not> model_has_key (get_model s m) (cx_app_idx (tx_ctx tx)) then (Some EINVAL, tx, msg, s)
      else bt_mesh_trans_send tx msg cb s)"

definition bt_mesh_model_send ::
  "model_ref \<Rightarrow> bt_mesh_msg_ctx \<Rightarrow> net_buf_simple \<Rightarrow> user_cb \<Rightarrow> mesh
   \<Rightarrow> errno option \<times> bt_mesh_msg_ctx \<times> net_buf_simple \<times> mesh" where
  "bt_mesh_model_send m ctx msg cb s =
     (case bt_mesh_subnet_get s (cx_net_idx ctx) of
        None \<Rightarrow> (Some EINVAL, ctx, msg, s)
      | Some sub \<Rightarrow>
          let tx = \<lparr>tx_sub = sub, tx_ctx = ctx, tx_src = el_addr (model_elem s m), tx_xmit = bt_mesh_net_transmit_get s,
                    tx_friend_cred = False, tx_aszmic = 0, tx_aid = 0\<rparr>;
              (err, tx, msg, s) = model_send m tx False msg cb s
          in (err, tx_ctx tx, msg, s))"

definition bt_mesh_model_publish :: "model_ref \<Rightarrow> mesh \<Rightarrow> errno option \<times> mesh" where
  "bt_mesh_model_publish m s =
     (case md_pub (get_model s m) of
        None \<Rightarrow> (Some ENOTSUP, s)
      | Some pub \<Rightarrow>
          if pb_addr pub = BT_MESH_ADDR_UNASSIGNED then (Some EADDRNOTAVAIL, s)
          else case bt_mesh_app_key_find s (pb_key pub) of
            None \<Rightarrow> (Some EADDRNOTAVAIL, s)
          | Some k \<Rightarrow>
              if nb_len (pb_msg pub) + 4 > BT_MESH_TX_SDU_MAX then (Some EMSGSIZE, s)
              else
                let key = bm_app_keys (ms_net s) ! k;
                    s = (if pb_count pub \<noteq> 0 then k_delayed_work_cancel (W_Pub m) s else s);
                    sdu = net_buf_simple_add_mem (net_buf_simple_init (NET_BUF_SIMPLE BT_MESH_TX_SDU_MAX) 0) (nb_data (pb_msg pub));
                    ctx = \<lparr>cx_net_idx = ak_net_idx key, cx_app_idx = ak_app_idx key, cx_addr = pb_addr pub, cx_recv_ttl = 0,
                           cx_send_rel = False, cx_send_ttl = pb_ttl pub\<rparr>
                in case bt_mesh_subnet_get s (cx_net_idx ctx) of
                  None \<Rightarrow> (Some EINVAL, s)
                | Some sub \<Rightarrow>
                    let tx = \<lparr>tx_sub = sub, tx_ctx = ctx, tx_src = el_addr (model_elem s m), tx_xmit = bt_mesh_net_transmit_get s,
                              tx_friend_cred = pb_cred pub, tx_aszmic = 0, tx_aid = 0\<rparr>;
                        s = upd_pub m (\<lambda>p. p\<lparr>pb_count := BT_MESH_PUB_TRANSMIT_COUNT (pb_retransmit p)\<rparr>) s;
                        (err, tx, sdu, s) = model_send m tx True sdu (Cb_Pub m) s
                    in if err \<noteq> None then (err, upd_pub m (\<lambda>p. p\<lparr>pb_count := 0\<rparr>) s) else (None, s))"

definition mod_publish :: "(model_ref \<Rightarrow> mesh \<Rightarrow> errno option \<times> mesh) \<Rightarrow> model_ref \<Rightarrow> mesh \<Rightarrow> mesh" where
  "mod_publish update m s =
     (let pub = the (md_pub (get_model s m)); period_ms = bt_mesh_model_pub_period_get (get_model s m) in
      if pb_count pub \<noteq> 0 then
        let (err, s) = publish_retransmit m s in
        if err \<noteq> None then
          let s = upd_pub m (\<lambda>p. p\<lparr>pb_count := 0\<rparr>) s
          in if period_ms \<noteq> 0 then k_delayed_work_submit (W_Pub m) period_ms s else s
        else s
      else if period_ms = 0 then s
      else
        let s = upd_pub m (\<lambda>p. p\<lparr>pb_period_start := k_uptime_get_32 s\<rparr>) s;
            (err, s) = update m s
        in if err \<noteq> None then s
        else
          let (err, s) = bt_mesh_model_publish m s
          in if pb_count (the (md_pub (get_model s m))) \<noteq> 0 then k_delayed_work_cancel (W_Pub m) s else s)"

end
