(* ===== verification/Beacon.thy ===== *)
theory Beacon
  imports Net
begin

text \<open>
  Secure network beacons and unprovisioned device beacons, from \<^verbatim>\<open>bt_mesh/src/beacon.c\<close>. The beacon
  that carries the state of a subnet is built by \<^verbatim>\<open>bt_mesh_beacon_create\<close> (theory \<^verbatim>\<open>Proxy_Out\<close>, where
  the GATT proxy uses it too). The theorems: a beacon no key of the node authenticates changes
  nothing; no beacon turns the IV Index back; a node's beacon is recognised by a node that holds the
  same key.
\<close>

section \<open>The beacon cache\<close>

definition cache_check :: "bytes \<Rightarrow> mesh \<Rightarrow> nat option" where
  "cache_check data s =
     find_index (\<lambda>sub. sn_net_idx sub \<noteq> BT_MESH_KEY_UNUSED \<and> sn_beacon_cache sub = data) (bm_sub (ms_net s))"

definition cache_add :: "bytes \<Rightarrow> nat \<Rightarrow> mesh \<Rightarrow> mesh" where
  "cache_add data i s = upd_sub i (\<lambda>sub. sub\<lparr>sn_beacon_cache := data\<rparr>) s"

section \<open>Sending\<close>

definition bt_mesh_beacon_create_with_flag :: "mesh \<Rightarrow> nat \<Rightarrow> net_buf_simple \<Rightarrow> u8 \<Rightarrow> u8 \<Rightarrow> net_buf_simple" where
  "bt_mesh_beacon_create_with_flag s i buf kr_flag iv_flag =
     (let sub = get_sub s i;
          buf = net_buf_simple_add_u8 buf BEACON_TYPE_SECURE;
          keys = (if sn_kr_flag sub then sn_key1 sub else sn_key0 sub);
          flags = 0;
          flags = (if kr_flag \<noteq> 0 then flags OR 1 else flags);
          flags = (if iv_flag \<noteq> 0 then flags OR 2 else flags);
          buf = net_buf_simple_add_u8 buf flags;
          buf = net_buf_simple_add_mem buf (take 8 (sk_net_id keys));
          buf = net_buf_simple_add_be32 buf (bm_iv_index (ms_net s))
      in net_buf_simple_add_mem buf (take 8 (sn_auth sub)))"

definition BEACON_THRESHOLD :: "bt_mesh_subnet \<Rightarrow> nat" where
  "BEACON_THRESHOLD sub = 10 * (unat (sn_beacons_last sub) + 1) * 1000 - 5000"

text \<open>
  The loop of \<^verbatim>\<open>secure_beacon_send\<close> and \<^verbatim>\<open>sbeacon_send_with_flag\<close>, which differ only in the beacon they
  build; it stops at the first subnet for which no buffer is free.
\<close>

fun beacon_send_loop ::
  "(mesh \<Rightarrow> nat \<Rightarrow> net_buf_simple \<Rightarrow> net_buf_simple) \<Rightarrow> u32 \<Rightarrow> nat list \<Rightarrow> mesh \<Rightarrow> errno option \<times> mesh" where
  "beacon_send_loop create now [] s = (None, s)"
| "beacon_send_loop create now (i # is) s =
     (let sub = get_sub s i; time_diff = now - sn_beacon_sent sub in
      if sn_net_idx sub = BT_MESH_KEY_UNUSED then beacon_send_loop create now is s
      else if unat time_diff < 600 * 1000 \<and> unat time_diff < BEACON_THRESHOLD sub then beacon_send_loop create now is s
      else (case bt_mesh_adv_create ADV_BEACON 3 20 s of
              (None, s) \<Rightarrow> (Some ENOBUFS, s)
            | (Some b, s) \<Rightarrow>
                let s = on_buf b (create s i) s;
                    s = bt_mesh_adv_send b (Cb_User (Cb_Beacon i)) s
                in beacon_send_loop create now is (net_buf_unref b s)))"

definition secure_beacon_send :: "mesh \<Rightarrow> errno option \<times> mesh" where
  "secure_beacon_send s =
     beacon_send_loop bt_mesh_beacon_create (k_uptime_get_32 s) [0..<length (bm_sub (ms_net s))] s"

definition sbeacon_send_with_flag :: "u8 \<Rightarrow> u8 \<Rightarrow> mesh \<Rightarrow> errno option \<times> mesh" where
  "sbeacon_send_with_flag kr_flag iv_flag s =
     beacon_send_loop (\<lambda>s i buf. bt_mesh_beacon_create_with_flag s i buf kr_flag iv_flag) (k_uptime_get_32 s)
       [0..<length (bm_sub (ms_net s))] s"

definition secure_beacon_send_with_flag :: "u8 \<Rightarrow> u8 \<Rightarrow> mesh \<Rightarrow> errno option \<times> mesh" where
  "secure_beacon_send_with_flag kr_flag iv_flag s = sbeacon_send_with_flag kr_flag iv_flag s"

definition BT_MESH_PROV_OOB_URI :: u16 where "BT_MESH_PROV_OOB_URI = 2"

definition unprovisioned_beacon_send :: "mesh \<Rightarrow> errno option \<times> mesh" where
  "unprovisioned_beacon_send s =
     (case bt_mesh_adv_create ADV_BEACON 4 20 s of
        (None, s) \<Rightarrow> (Some ENOBUFS, s)
      | (Some b, s) \<Rightarrow>
          let prov = ms_prov s;
              s = on_buf b (\<lambda>buf. net_buf_simple_add_u8 buf BEACON_TYPE_UNPROVISIONED) s;
              s = on_buf b (\<lambda>buf. net_buf_simple_add_mem buf (take 16 (pv_uuid prov))) s;
              (oob_info, uri_hash) =
                (case pv_uri prov of
                   None \<Rightarrow> (pv_oob_info prov, replicate 16 0)
                 | Some uri \<Rightarrow> (case bt_mesh_s1 uri of
                     Inr h \<Rightarrow> (pv_oob_info prov OR BT_MESH_PROV_OOB_URI, h)
                   | Inl err \<Rightarrow> (pv_oob_info prov, replicate 16 0)));
              s = on_buf b (\<lambda>buf. net_buf_simple_add_be16 buf oob_info) s;
              s = on_buf b (\<lambda>buf. net_buf_simple_add_mem buf (take 4 uri_hash)) s;
              s = net_buf_unref b (bt_mesh_adv_send b (Cb_User Cb_None) s)
          in (case pv_uri prov of
                None \<Rightarrow> (None, s)
              | Some uri \<Rightarrow>
                  (case bt_mesh_adv_create ADV_URI 4 20 s of
                     (None, s) \<Rightarrow> (Some ENOBUFS, s)
                   | (Some b, s) \<Rightarrow>
                       let s = (if net_buf_simple_tailroom (buf_b s b) < length uri then s
                                else bt_mesh_adv_send b (Cb_User Cb_None)
                                       (on_buf b (\<lambda>buf. net_buf_simple_add_mem buf (str_bytes uri)) s))
                       in (None, net_buf_unref b s))))"

definition update_beacon_observation :: "mesh \<Rightarrow> mesh" where
  "update_beacon_observation s =
     (let s = s\<lparr>ms_first_half := \<not> ms_first_half s\<rparr> in
      if ms_first_half s then s
      else upd_net (\<lambda>n. n\<lparr>bm_sub := map (\<lambda>sub. if sn_net_idx sub = BT_MESH_KEY_UNUSED then sub
             else sub\<lparr>sn_beacons_last := sn_beacons_cur sub, sn_beacons_cur := 0\<rparr>) (bm_sub n)\<rparr>) s)"

text \<open>The handler of the beacon timer. Whether a provisioning link is active is up to \<^verbatim>\<open>prov.c\<close>.\<close>

definition beacon_send :: "mesh \<Rightarrow> mesh" where
  "beacon_send s =
     (if bt_prov_active s then k_delayed_work_submit W_Beacon (ms_unprov_interval s) s
      else if bt_mesh_is_provisioned s then
        let s = update_beacon_observation s;
            s = snd (secure_beacon_send s)
        in if bt_mesh_beacon_get s = 0x01 \<or> bm_ivu_initiator (ms_net s)
           then k_delayed_work_submit W_Beacon (10 * 1000) s else s
      else
        let s = snd (unprovisioned_beacon_send s)
        in k_delayed_work_submit W_Beacon (ms_unprov_interval s) s)"

section \<open>Receiving\<close>

definition beacon_update_stats :: "nat \<Rightarrow> mesh \<Rightarrow> mesh" where
  "beacon_update_stats i s =
     (if bt_mesh_beacon_get s = 0x01 \<and> sn_beacons_cur (get_sub s i) < 0xff
      then upd_sub i (\<lambda>sub. sub\<lparr>sn_beacons_cur := sn_beacons_cur sub + 1\<rparr>) s else s)"

text \<open>The part of \<^verbatim>\<open>secure_beacon_recv\<close> after the subnet is found.\<close>

definition secure_beacon_apply :: "nat \<Rightarrow> bool \<Rightarrow> u8 \<Rightarrow> u32 \<Rightarrow> mesh \<Rightarrow> mesh" where
  "secure_beacon_apply i new_key flags iv_index s =
     (let s = (if bm_ivu_initiator (ms_net s) \<and> bm_iv_update (ms_net s) = BT_MESH_IV_UPDATE flags
               then bt_mesh_beacon_ivu_initiator False s else s);
          (iv_change, s) = bt_mesh_net_iv_update iv_index (BT_MESH_IV_UPDATE flags) s;
          (kr_change, s) = bt_mesh_kr_update i (if BT_MESH_KEY_REFRESH flags then 1 else 0) new_key s;
          s = (if kr_change then snd (bt_mesh_net_beacon_update i s) else s)
      in if iv_change then bt_mesh_net_sec_update None s
         else if kr_change then bt_mesh_net_sec_update (Some i) s
         else s)"

definition secure_beacon_recv :: "net_buf_simple \<Rightarrow> mesh \<Rightarrow> mesh" where
  "secure_beacon_recv buf s =
     (if nb_len buf < 21 then s
      else
        let data = take 21 (nb_mem buf) in
        case cache_check data s of
          Some i \<Rightarrow> beacon_update_stats i s
        | None \<Rightarrow>
            let (flags, buf) = net_buf_simple_pull_u8 buf;
                net_id = take 8 (nb_mem buf);
                buf = net_buf_simple_pull buf 8;
                (iv_index, buf) = net_buf_simple_pull_be32 buf;
                auth = take 8 (nb_mem buf)
            in case bt_mesh_subnet_find s net_id flags iv_index auth of
                 None \<Rightarrow> s
               | Some (i, new_key) \<Rightarrow>
                   if sn_kr_phase (get_sub s i) = BT_MESH_KR_PHASE_2 \<and> \<not> new_key then s
                   else
                     let s = cache_add data i s in
                     if bt_mesh_subnet_get s BT_MESH_KEY_PRIMARY \<noteq> None \<and> sn_net_idx (get_sub s i) \<noteq> BT_MESH_KEY_PRIMARY
                     then beacon_update_stats i s
                     else beacon_update_stats i (secure_beacon_apply i new_key flags iv_index s))"

definition bt_mesh_beacon_recv :: "net_buf_simple \<Rightarrow> mesh \<Rightarrow> mesh" where
  "bt_mesh_beacon_recv buf s =
     (if nb_len buf < 1 then s
      else let (type, buf) = net_buf_simple_pull_u8 buf in
        if type = BEACON_TYPE_SECURE then secure_beacon_recv buf s else s)"

section \<open>Enabling\<close>

definition bt_mesh_beacon_enable :: "mesh \<Rightarrow> mesh" where
  "bt_mesh_beacon_enable s =
     (if \<not> bt_mesh_is_provisioned s then k_work_submit W_Beacon s
      else
        let s = fold (\<lambda>i s. if sn_net_idx (get_sub s i) = BT_MESH_KEY_UNUSED then s
                  else snd (bt_mesh_net_beacon_update i
                         (upd_sub i (\<lambda>sub. sub\<lparr>sn_beacons_last := 0, sn_beacons_cur := 0\<rparr>) s)))
                  [0..<length (bm_sub (ms_net s))] s
        in k_work_submit W_Beacon s)"

definition bt_mesh_beacon_disable :: "mesh \<Rightarrow> mesh" where
  "bt_mesh_beacon_disable s = (if \<not> bm_ivu_initiator (ms_net s) then k_delayed_work_cancel W_Beacon s else s)"

section \<open>What a beacon can change\<close>

text \<open>The fields of a secure network beacon, after the type byte.\<close>

definition bcn_flags :: "bytes \<Rightarrow> u8" where "bcn_flags d = byte_at d 1"
definition bcn_net_id :: "bytes \<Rightarrow> bytes" where "bcn_net_id d = take 8 (drop 2 d)"
definition bcn_iv :: "bytes \<Rightarrow> u32" where "bcn_iv d = sys_get_be32 (take 4 (drop 10 d))"
definition bcn_auth :: "bytes \<Rightarrow> bytes" where "bcn_auth d = take 8 (drop 14 d)"

text \<open>The security state: the IV Index and sequence number, the replay list and all keys.\<close>

definition sec_state where
  "sec_state s = (bm_iv_index (ms_net s), bm_iv_update (ms_net s), bm_seq (ms_net s), bm_rpl (ms_net s), bm_app_keys (ms_net s),
     map (\<lambda>sub. (sn_net_idx sub, sn_kr_flag sub, sn_kr_phase sub, sn_key0 sub, sn_key1 sub)) (bm_sub (ms_net s)))"

lemma sec_state_upd_sub:
  assumes "\<And>sub. sn_net_idx (f sub) = sn_net_idx sub \<and> sn_kr_flag (f sub) = sn_kr_flag sub \<and> sn_kr_phase (f sub) = sn_kr_phase sub
    \<and> sn_key0 (f sub) = sn_key0 sub \<and> sn_key1 (f sub) = sn_key1 sub"
  shows "sec_state (upd_sub i f s) = sec_state s"
proof -
  let ?g = "\<lambda>sub. (sn_net_idx sub, sn_kr_flag sub, sn_kr_phase sub, sn_key0 sub, sn_key1 sub)"
  have "map ?g (upd_at i f (bm_sub (ms_net s))) = map ?g (bm_sub (ms_net s))"
    by (rule nth_equalityI) (auto simp: nth_upd_at assms)
  then show ?thesis by (simp add: sec_state_def)
qed

lemma sec_state_stats [simp]: "sec_state (beacon_update_stats i s) = sec_state s"
  by (simp add: beacon_update_stats_def sec_state_upd_sub)

lemma sec_state_cache [simp]: "sec_state (cache_add data i s) = sec_state s"
  by (simp add: cache_add_def sec_state_upd_sub)

lemma pull_be32_data:
  assumes "nb_ok b" "4 \<le> nb_len b"
  shows "net_buf_simple_pull_be32 b = (sys_get_be32 (take 4 (nb_data b)), net_buf_simple_pull b 4)"
proof -
  have "[nb_byte b 0, nb_byte b 1, nb_byte b 2, nb_byte b 3] = take 4 (nb_data b)"
    using assms length_nb_data [OF assms(1)]
    by (intro nth_equalityI) (auto simp: nb_byte_eq less_Suc_eq numeral_eq_Suc)
  then show ?thesis by (simp add: net_buf_simple_pull_be32_def)
qed

lemma beacon_recv_eq:
  assumes "nb_ok buf" "22 \<le> nb_len buf" and d: "d = nb_data buf"
  shows "bt_mesh_beacon_recv buf s =
    (if byte_at d 0 \<noteq> BEACON_TYPE_SECURE then s
     else case cache_check (take 21 (drop 1 d)) s of
       Some i \<Rightarrow> beacon_update_stats i s
     | None \<Rightarrow> (case bt_mesh_subnet_find s (bcn_net_id d) (bcn_flags d) (bcn_iv d) (bcn_auth d) of
           None \<Rightarrow> s
         | Some (i, new_key) \<Rightarrow>
             if sn_kr_phase (get_sub s i) = BT_MESH_KR_PHASE_2 \<and> \<not> new_key then s
             else let t = cache_add (take 21 (drop 1 d)) i s in
               if bt_mesh_subnet_get t BT_MESH_KEY_PRIMARY \<noteq> None \<and> sn_net_idx (get_sub t i) \<noteq> BT_MESH_KEY_PRIMARY
               then beacon_update_stats i t
               else beacon_update_stats i (secure_beacon_apply i new_key (bcn_flags d) (bcn_iv d) t)))"
proof -
  have ld: "length d = nb_len buf" using assms by simp
  obtain a p where ap: "nb_data buf = a # p" using ld d assms(2) by (cases "nb_data buf") auto
  note u1 = pull_u8_Cons [OF assms(1) ap]
  let ?b1 = "net_buf_simple_pull buf 1"
  have l1: "nb_len ?b1 = nb_len buf - 1" using length_nb_data [OF u1(2)] u1(3) ap ld d by simp
  obtain f q where fq: "nb_data ?b1 = f # q" using l1 assms(2) length_nb_data [OF u1(2)] by (cases "nb_data ?b1") auto
  note u2 = pull_u8_Cons [OF u1(2) fq]
  let ?b2 = "net_buf_simple_pull ?b1 1"
  have l2: "nb_len ?b2 = nb_len buf - 2" using length_nb_data [OF u2(2)] u2(3) fq l1 length_nb_data [OF u1(2)] by simp
  have dq: "d = a # f # q" using d ap u1(3) fq by simp
  have l28: "8 \<le> nb_len ?b2" using l2 assms(2) by simp
  note u3 = pull_data [OF u2(2) l28]
  let ?b3 = "net_buf_simple_pull ?b2 8"
  have l34: "4 \<le> nb_len ?b3" using u3(3) l2 assms(2) by simp
  note u4 = pull_be32_data [OF u3(1) l34]
  note u5 = pull_data [OF u3(1) l34]
  let ?b4 = "net_buf_simple_pull ?b3 4"
  have l48: "8 \<le> nb_len ?b4" using u5(3) u3(3) l2 assms(2) by simp
  have l121: "21 \<le> nb_len ?b1" using l1 assms(2) by simp
  have m: "take 21 (nb_mem ?b1) = take 21 (drop 1 d)" "take 8 (nb_mem ?b2) = bcn_net_id d" "take 8 (nb_mem ?b4) = bcn_auth d"
    "sys_get_be32 (take 4 (nb_data ?b3)) = bcn_iv d" "f = bcn_flags d" "byte_at d 0 = a"
    using nb_mem_take [OF u1(2) l121] nb_mem_take [OF u2(2) l28] nb_mem_take [OF u5(1) l48] u1(3) u2(3) u3(2) u5(2) dq fq ap
    by (simp_all add: bcn_net_id_def bcn_auth_def bcn_iv_def bcn_flags_def)
  have "\<not> nb_len ?b1 < 21" "\<not> nb_len buf < 1" using l121 assms(2) by simp_all
  then show ?thesis
    unfolding bt_mesh_beacon_recv_def secure_beacon_recv_def Let_def u1(1) u2(1) u4 prod.case m
    by (simp add: Let_def)
qed

lemma beacon_recv_short:
  assumes "nb_ok buf" "nb_len buf < 22"
  shows "bt_mesh_beacon_recv buf s = s"
proof (cases "nb_len buf < 1")
  case False
  have "nb_len (net_buf_simple_pull buf 1) < 21" using pull_data(3) [OF assms(1), of 1] assms(2) False by simp
  then show ?thesis by (simp add: bt_mesh_beacon_recv_def secure_beacon_recv_def net_buf_simple_pull_u8_def Let_def)
qed (simp add: bt_mesh_beacon_recv_def)

lemma subnet_find_Some:
  assumes "bt_mesh_subnet_find s net_id flags iv auth = Some (i, new_key)"
  shows "i < length (bm_sub (ms_net s))" "sub_matches (get_sub s i) net_id flags iv auth new_key"
  using subnet_find_from_sound [OF assms [unfolded bt_mesh_subnet_find_def]] by (auto simp: get_sub_def)

text \<open>
  C23. No unauthenticated beacon touches the security state: when processing a received beacon changes the
  IV Index, the IV Update flag, the sequence number, the replay list or any key or key refresh phase,
  then the beacon's Network ID and authentication value are those of a key of a subnet in use, and of
  its new key if the subnet is in phase 2 of a key refresh.
\<close>

theorem beacon_needs_authentication:
  assumes "nb_ok buf" "d = nb_data buf" "sec_state (bt_mesh_beacon_recv buf s) \<noteq> sec_state s"
  shows "\<exists>i new_key. i < length (bm_sub (ms_net s)) \<and>
    sub_matches (get_sub s i) (bcn_net_id d) (bcn_flags d) (bcn_iv d) (bcn_auth d) new_key \<and>
    (sn_kr_phase (get_sub s i) = BT_MESH_KR_PHASE_2 \<longrightarrow> new_key)"
proof (cases "nb_len buf < 22")
  case True
  with assms beacon_recv_short show ?thesis by simp
next
  case False
  then have l: "22 \<le> nb_len buf" by simp
  let ?r = "bt_mesh_subnet_find s (bcn_net_id d) (bcn_flags d) (bcn_iv d) (bcn_auth d)"
  have "?r \<noteq> None" "\<forall>i new_key. ?r = Some (i, new_key) \<longrightarrow> \<not> (sn_kr_phase (get_sub s i) = BT_MESH_KR_PHASE_2 \<and> \<not> new_key)"
    using assms(3) unfolding beacon_recv_eq [OF assms(1) l assms(2)] by (auto split: if_splits option.splits)
  then obtain i new_key where r: "?r = Some (i, new_key)" "sn_kr_phase (get_sub s i) = BT_MESH_KR_PHASE_2 \<longrightarrow> new_key"
    by auto
  show ?thesis using subnet_find_Some [OF r(1)] r(2) by blast
qed

section \<open>Beacons never turn the IV Index back\<close>

lemma kr_update_net: "bm_iv_index (ms_net (snd (bt_mesh_kr_update i k n s))) = bm_iv_index (ms_net s)"
  by (simp add: bt_mesh_kr_update_def bt_mesh_net_revoke_keys_def Let_def)

lemma sec_update_net [simp]: "ms_net (bt_mesh_net_sec_update sub s) = ms_net s"
  using only_log_sel(1) [OF only_log_beacon_send] by (simp add: bt_mesh_net_sec_update_def)

lemma ivu_initiator_net:
  "bm_iv_index (ms_net (bt_mesh_beacon_ivu_initiator e s)) = bm_iv_index (ms_net s)"
  "bm_sub (ms_net (bt_mesh_beacon_ivu_initiator e s)) = bm_sub (ms_net s)"
  by (simp_all add: bt_mesh_beacon_ivu_initiator_def Let_def)

lemma stats_iv: "bm_iv_index (ms_net (beacon_update_stats i s)) = bm_iv_index (ms_net s)"
  "bm_iv_index (ms_net (cache_add data i s)) = bm_iv_index (ms_net s)"
  by (simp_all add: beacon_update_stats_def cache_add_def)

lemma beacon_apply_iv_eq:
  "bm_iv_index (ms_net (secure_beacon_apply i new_key flags iv s)) =
   bm_iv_index (ms_net (snd (bt_mesh_net_iv_update iv (BT_MESH_IV_UPDATE flags)
     (if bm_ivu_initiator (ms_net s) \<and> bm_iv_update (ms_net s) = BT_MESH_IV_UPDATE flags
      then bt_mesh_beacon_ivu_initiator False s else s))))"
proof -
  define s1 where "s1 = (if bm_ivu_initiator (ms_net s) \<and> bm_iv_update (ms_net s) = BT_MESH_IV_UPDATE flags
      then bt_mesh_beacon_ivu_initiator False s else s)"
  obtain c2 s2 where s2: "bt_mesh_net_iv_update iv (BT_MESH_IV_UPDATE flags) s1 = (c2, s2)" by fastforce
  obtain c3 s3 where s3: "bt_mesh_kr_update i (if BT_MESH_KEY_REFRESH flags then 1 else 0) new_key s2 = (c3, s3)" by fastforce
  have "bm_iv_index (ms_net s3) = bm_iv_index (ms_net s2)"
    using kr_update_net [of i "if BT_MESH_KEY_REFRESH flags then 1 else 0" new_key s2] s3 by simp
  then show ?thesis
    unfolding secure_beacon_apply_def s1_def [symmetric] Let_def s2 s3 prod.case
    by (simp add: bt_mesh_net_beacon_update_def Let_def split: sum.splits)
qed

lemma beacon_apply_iv: "bm_iv_index (ms_net s) \<le> bm_iv_index (ms_net (secure_beacon_apply i new_key flags iv s))"
  unfolding beacon_apply_iv_eq
  by (rule order_trans [OF eq_refl iv_update_mono]) (simp add: ivu_initiator_net)

text \<open>
  C31. Whatever beacon arrives, authentic or not, well-formed or not, the IV Index of the node does not
  decrease.
\<close>

theorem beacon_iv_monotone:
  "bm_iv_index (ms_net s) \<le> bm_iv_index (ms_net (bt_mesh_beacon_recv buf s))"
proof -
  have "bm_iv_index (ms_net s) \<le> bm_iv_index (ms_net (beacon_update_stats i (secure_beacon_apply i k f v (cache_add c i s))))"
    for i k f v c using beacon_apply_iv [of "cache_add c i s" i k f v] by (simp add: stats_iv)
  then show ?thesis
    by (auto simp: bt_mesh_beacon_recv_def secure_beacon_recv_def Let_def stats_iv split: prod.splits option.splits if_splits)
qed

section \<open>A node's beacon is recognised by its peers\<close>

lemma beacon_create_data:
  assumes "nb_ok b" "nb_data b = []" "22 \<le> net_buf_simple_tailroom b"
    and keys: "keys = sn_keys (get_sub s i) (sn_kr_flag (get_sub s i))" "length (sk_net_id keys) = 8" "length (sn_auth (get_sub s i)) = 8"
  shows "nb_data (bt_mesh_beacon_create s i b) = BEACON_TYPE_SECURE # bt_mesh_net_flags s (Some i) # sk_net_id keys
      @ sys_put_be32 (bm_iv_index (ms_net s)) @ sn_auth (get_sub s i)" (is ?A)
    and "nb_ok (bt_mesh_beacon_create s i b)" (is ?B)
proof -
  have k: "(if sn_kr_flag (get_sub s i) then sn_key1 (get_sub s i) else sn_key0 (get_sub s i)) = keys"
    using keys(1) by (simp add: sn_keys_def)
  have step: "nb_ok (net_buf_simple_add_mem c xs) \<and> nb_data (net_buf_simple_add_mem c xs) = nb_data c @ xs \<and>
      n - length xs \<le> net_buf_simple_tailroom (net_buf_simple_add_mem c xs)"
    if "nb_ok c" "n \<le> net_buf_simple_tailroom c" "length xs \<le> n" for c xs n
    using add_mem_data [OF that(1), of xs] that(2,3) nb_ok_add(2) [OF that(1), of "length xs"]
    by (simp add: net_buf_simple_tailroom_def net_buf_simple_headroom_def net_buf_simple_add_mem_def net_buf_simple_add_def)
  define b1 where "b1 = net_buf_simple_add_mem b [BEACON_TYPE_SECURE]"
  define b2 where "b2 = net_buf_simple_add_mem b1 [bt_mesh_net_flags s (Some i)]"
  define b3 where "b3 = net_buf_simple_add_mem b2 (sk_net_id keys)"
  define b4 where "b4 = net_buf_simple_add_mem b3 (sys_put_be32 (bm_iv_index (ms_net s)))"
  have c: "bt_mesh_beacon_create s i b = net_buf_simple_add_mem b4 (sn_auth (get_sub s i))"
    unfolding bt_mesh_beacon_create_def Let_def k b4_def b3_def b2_def b1_def add_as_mem using keys(2,3) by simp
  have s1: "nb_ok b1" "nb_data b1 = [BEACON_TYPE_SECURE]" "21 \<le> net_buf_simple_tailroom b1"
    using step [OF assms(1,3), of "[BEACON_TYPE_SECURE]"] assms(2) by (simp_all add: b1_def)
  have s2: "nb_ok b2" "nb_data b2 = nb_data b1 @ [bt_mesh_net_flags s (Some i)]" "20 \<le> net_buf_simple_tailroom b2"
    using step [OF s1(1,3), of "[bt_mesh_net_flags s (Some i)]"] by (simp_all add: b2_def)
  have s3: "nb_ok b3" "nb_data b3 = nb_data b2 @ sk_net_id keys" "12 \<le> net_buf_simple_tailroom b3"
    using step [OF s2(1,3), of "sk_net_id keys"] keys(2) by (simp_all add: b3_def)
  have s4: "nb_ok b4" "nb_data b4 = nb_data b3 @ sys_put_be32 (bm_iv_index (ms_net s))" "8 \<le> net_buf_simple_tailroom b4"
    using step [OF s3(1,3), of "sys_put_be32 (bm_iv_index (ms_net s))"] by (simp_all add: b4_def)
  show ?A ?B using step [OF s4(1,3), of "sn_auth (get_sub s i)"] keys(3) s1 s2 s3 s4 by (simp_all add: c)
qed

lemma bcn_fields:
  assumes "d = t # f # n @ sys_put_be32 iv @ a" "length n = 8" "length a = 8"
  shows "bcn_flags d = f" "bcn_net_id d = n" "bcn_iv d = iv" "bcn_auth d = a"
  using assms by (simp_all add: bcn_flags_def bcn_net_id_def bcn_iv_def bcn_auth_def)

lemma beacon_update_auth:
  assumes "keys = sn_keys (get_sub s i) (sn_kr_flag (get_sub s i))"
  obtains a where "bt_mesh_beacon_auth (sk_beacon keys) (bt_mesh_net_flags s (Some i)) (sk_net_id keys) (bm_iv_index (ms_net s)) = Inr a"
    "length a = 8" "bt_mesh_net_beacon_update i s = (None, upd_sub i (\<lambda>sub. sub\<lparr>sn_auth := a\<rparr>) s)"
proof -
  obtain a where a: "bt_mesh_beacon_auth (sk_beacon keys) (bt_mesh_net_flags s (Some i)) (sk_net_id keys) (bm_iv_index (ms_net s)) = Inr a"
    "length a = 8"
    using beacon_auth_total by blast
  have "(if sn_kr_flag (get_sub s i) then sn_key1 (get_sub s i) else sn_key0 (get_sub s i)) = keys"
    using assms by (simp add: sn_keys_def)
  then have "bt_mesh_net_beacon_update i s = (None, upd_sub i (\<lambda>sub. sub\<lparr>sn_auth := a\<rparr>) s)"
    by (simp add: bt_mesh_net_beacon_update_def Let_def a del: if_split)
  with a show thesis by (rule that)
qed

text \<open>
  C32. After \<^verbatim>\<open>bt_mesh_net_beacon_update\<close>, the beacon a node builds for a subnet carries the node's flags and
  IV Index, and every node that has a subnet in use with the same beacon key and Network ID (as its
  new key, during a key refresh) attributes the beacon to a subnet.
\<close>

theorem beacon_roundtrip:
  assumes upd: "bt_mesh_net_beacon_update i s = (e, s')" and i: "i < length (bm_sub (ms_net s))"
    and buf: "nb_ok b" "nb_data b = []" "22 \<le> net_buf_simple_tailroom b"
    and keys: "keys = sn_keys (get_sub s i) (sn_kr_flag (get_sub s i))" "length (sk_net_id keys) = 8"
    and peer: "sub \<in> set (bm_sub (ms_net r))" "sn_net_idx sub \<noteq> BT_MESH_KEY_UNUSED"
      "sk_beacon (sn_keys sub new_key) = sk_beacon keys" "sk_net_id (sn_keys sub new_key) = sk_net_id keys"
      "new_key \<longrightarrow> sn_kr_phase sub \<noteq> BT_MESH_KR_NORMAL"
    and d: "d = nb_data (bt_mesh_beacon_create s' i b)"
  shows "e = None \<and> bcn_flags d = bt_mesh_net_flags s (Some i) \<and> bcn_iv d = bm_iv_index (ms_net s) \<and>
    bt_mesh_subnet_find r (bcn_net_id d) (bcn_flags d) (bcn_iv d) (bcn_auth d) \<noteq> None"
proof -
  obtain a where a: "bt_mesh_beacon_auth (sk_beacon keys) (bt_mesh_net_flags s (Some i)) (sk_net_id keys) (bm_iv_index (ms_net s)) = Inr a"
    "length a = 8" and u: "e = None" "s' = upd_sub i (\<lambda>sub. sub\<lparr>sn_auth := a\<rparr>) s"
    using beacon_update_auth [OF keys(1)] upd by (metis prod.inject)
  have g: "get_sub s' i = (get_sub s i)\<lparr>sn_auth := a\<rparr>" "bm_iv_index (ms_net s') = bm_iv_index (ms_net s)"
    "bt_mesh_net_flags s' (Some i) = bt_mesh_net_flags s (Some i)"
    using i by (simp_all add: bt_mesh_net_flags_def u(2))
  have k: "keys = sn_keys (get_sub s' i) (sn_kr_flag (get_sub s' i))" "length (sn_auth (get_sub s' i)) = 8"
    using keys(1) a(2) by (simp_all add: sn_keys_def g)
  note f = bcn_fields [OF d [unfolded beacon_create_data(1) [OF buf k(1) keys(2) k(2)]] keys(2) k(2)]
  have "sub_matches sub (bcn_net_id d) (bcn_flags d) (bcn_iv d) (bcn_auth d) new_key"
    using peer a by (simp add: sub_matches_def auth_match_def f g)
  then have "bt_mesh_subnet_find r (bcn_net_id d) (bcn_flags d) (bcn_iv d) (bcn_auth d) \<noteq> None"
    using peer(1) by (auto simp: bt_mesh_subnet_find_def subnet_find_from_None)
  with u(1) f g show ?thesis by simp
qed

text \<open>Two nodes of one subnet with all-zero keys; the sender updates its beacon and the peer finds the subnet.\<close>

theorem beacon_roundtrip_witness:
  "\<exists>d. d = nb_data (bt_mesh_beacon_create (snd (bt_mesh_net_beacon_update 0 net_demo)) 0 (NET_BUF_SIMPLE 29)) \<and>
     bcn_flags d = 0 \<and> bcn_iv d = 1 \<and>
     bt_mesh_subnet_find net_demo (bcn_net_id d) (bcn_flags d) (bcn_iv d) (bcn_auth d) \<noteq> None"
proof -
  define d where "d = nb_data (bt_mesh_beacon_create (snd (bt_mesh_net_beacon_update 0 net_demo)) 0 (NET_BUF_SIMPLE 29))"
  have sub: "get_sub net_demo 0 = subnet0\<lparr>sn_net_idx := 0\<rparr>" "bm_iv_index (ms_net net_demo) = 1"
    "bt_mesh_net_flags net_demo (Some 0) = 0"
    by (simp_all add: net_demo_def get_sub_def bt_mesh_net_flags_def subnet0_def bt_mesh_net0_def)
  have h: "0 < length (bm_sub (ms_net net_demo))" "subnet0\<lparr>sn_net_idx := 0\<rparr> \<in> set (bm_sub (ms_net net_demo))"
    by (simp_all add: net_demo_def)
  have b: "nb_ok (NET_BUF_SIMPLE 29)" "nb_data (NET_BUF_SIMPLE 29) = []" "22 \<le> net_buf_simple_tailroom (NET_BUF_SIMPLE 29)"
    by (simp_all add: NET_BUF_SIMPLE_def nb_ok_def nb_data_def net_buf_simple_tailroom_def net_buf_simple_headroom_def)
  have k: "subnet_keys0 = sn_keys (get_sub net_demo 0) (sn_kr_flag (get_sub net_demo 0))" "length (sk_net_id subnet_keys0) = 8"
    by (simp_all add: sub sn_keys_def subnet0_def) (simp add: subnet_keys0_def)
  have p: "sn_net_idx (subnet0\<lparr>sn_net_idx := 0\<rparr>) \<noteq> BT_MESH_KEY_UNUSED" "sn_keys (subnet0\<lparr>sn_net_idx := 0\<rparr>) False = subnet_keys0"
    by (simp_all add: BT_MESH_KEY_UNUSED_def sn_keys_def) (simp add: subnet0_def)
  have "bcn_flags d = 0 \<and> bcn_iv d = 1 \<and> bt_mesh_subnet_find net_demo (bcn_net_id d) (bcn_flags d) (bcn_iv d) (bcn_auth d) \<noteq> None"
    using beacon_roundtrip [OF prod.collapse [symmetric] h(1) b k h(2) p(1) _ _ _ d_def, of False] p(2) sub
    by (metis (full_types))
  with d_def show ?thesis by blast
qed

text \<open>
  A beacon for the all-zero key that announces IV Index 2 to a node at IV Index 1: the node recovers
  the index.
\<close>

definition bcn_auth_demo :: bytes where
  "bcn_auth_demo = projr (bt_mesh_beacon_auth (replicate 16 0) 0 (replicate 8 0) 2)"

definition bcn_buf_demo :: net_buf_simple where
  "bcn_buf_demo = \<lparr>nb_buf = 1 # 0 # replicate 8 0 @ sys_put_be32 2 @ bcn_auth_demo, nb_off = 0, nb_len = 22, nb_fault = False\<rparr>"

lemma bcn_auth_demo: "bt_mesh_beacon_auth (replicate 16 0) 0 (replicate 8 0) 2 = Inr bcn_auth_demo" "length bcn_auth_demo = 8"
  using beacon_auth_total [of "replicate 16 0" 0 "replicate 8 0" 2] by (auto simp: bcn_auth_demo_def)

lemma bcn_buf_demo_data: "nb_ok bcn_buf_demo" "nb_data bcn_buf_demo = 1 # 0 # replicate 8 0 @ sys_put_be32 2 @ bcn_auth_demo"
  by (simp_all add: nb_ok_def nb_data_def get_bytes_def bcn_buf_demo_def bcn_auth_demo)

lemma bcn_demo_recovers: "bm_iv_index (ms_net (bt_mesh_beacon_recv bcn_buf_demo net_demo)) = 2"
proof -
  let ?d = "nb_data bcn_buf_demo"
  note f = bcn_fields [OF bcn_buf_demo_data(2), simplified, OF bcn_auth_demo(2)]
  have "replicate 21 0 ! 12 \<noteq> (take 21 (drop 1 ?d)) ! 12"
    by (simp add: bcn_buf_demo_data sys_put_be32_def sys_put_be16_def nth_append)
  then have "replicate 21 0 \<noteq> take 21 (drop 1 ?d)" by (rule contrapos_nn) simp
  then have c: "cache_check (take 21 (drop 1 ?d)) net_demo = None"
    by (simp add: cache_check_def net_demo_def subnet0_def BT_MESH_KEY_UNUSED_def find_index_None)
  have m: "bt_mesh_subnet_find net_demo (bcn_net_id ?d) (bcn_flags ?d) (bcn_iv ?d) (bcn_auth ?d) = Some (0, False)"
    by (simp add: f bt_mesh_subnet_find_def net_demo_def auth_match_def subnet0_def subnet_keys0_def BT_MESH_KEY_UNUSED_def
        bcn_auth_demo)
  have t: "sn_net_idx (get_sub (cache_add c 0 net_demo) 0) = BT_MESH_KEY_PRIMARY" for c
    by (simp add: cache_add_def net_demo_def get_sub_def BT_MESH_KEY_PRIMARY_def upd_at_def)
  have u: "\<not> bm_ivu_initiator (ms_net (cache_add c 0 net_demo))" "bt_mesh_net_iv_update 2 False (cache_add c 0 net_demo) =
      iv_recover 2 False (cache_add c 0 net_demo)" for c
    by (simp_all add: cache_add_def bt_mesh_net_iv_update_def net_demo_def bt_mesh_net0_def)
  have "iv_do_update 2 False x = (True, snd (iv_do_update 2 False x))" for x by (simp add: iv_do_update_def Let_def)
  then have "bm_iv_index (ms_net (snd (iv_recover 2 False x))) = 2" for x
    unfolding iv_recover_def using iv_do_update_net by simp
  then have x: "bm_iv_index (ms_net (secure_beacon_apply 0 False 0 2 (cache_add cc 0 net_demo))) = 2" for cc
    by (simp add: beacon_apply_iv_eq u BT_MESH_IV_UPDATE_def)
  have "sn_kr_phase (get_sub net_demo 0) \<noteq> BT_MESH_KR_PHASE_2"
    by (simp add: net_demo_def get_sub_def subnet0_def BT_MESH_KR_PHASE_2_def)
  moreover have "22 \<le> nb_len bcn_buf_demo" "byte_at ?d 0 = BEACON_TYPE_SECURE"
    by (simp add: bcn_buf_demo_def) (simp add: bcn_buf_demo_data BEACON_TYPE_SECURE_def)
  ultimately show ?thesis
    unfolding beacon_recv_eq [OF bcn_buf_demo_data(1) \<open>22 \<le> nb_len bcn_buf_demo\<close> refl] c m
    by (simp add: t f stats_iv x Let_def)
qed

theorem beacon_needs_authentication_witness:
  "sec_state (bt_mesh_beacon_recv bcn_buf_demo net_demo) \<noteq> sec_state net_demo \<and>
   (\<exists>i new_key. i < 2 \<and> sub_matches (get_sub net_demo i) (replicate 8 0) 0 2 bcn_auth_demo new_key)"
proof -
  note f = bcn_fields [OF bcn_buf_demo_data(2), simplified, OF bcn_auth_demo(2)]
  have "bm_iv_index (ms_net net_demo) = 1" "length (bm_sub (ms_net net_demo)) = 2" by (simp_all add: net_demo_def)
  then have "sec_state (bt_mesh_beacon_recv bcn_buf_demo net_demo) \<noteq> sec_state net_demo"
    using bcn_demo_recovers by (auto simp: sec_state_def)
  with beacon_needs_authentication [OF bcn_buf_demo_data(1) refl this] f \<open>length (bm_sub (ms_net net_demo)) = 2\<close>
  show ?thesis by auto
qed

end
