(* ===== verification/Cfg_Keys.thy ===== *)
theory Cfg_Keys
  imports Access Beacon
begin

text \<open>
  The Configuration Server, \<^verbatim>\<open>bt_mesh/src/cfg_srv.c\<close>, first part: network keys, application keys, the
  binding of application keys to models, the key refresh phase. A handler takes the server's
  model, the message context and the parameters, and returns the context (which sending updates),
  the parameters and the state. \<^verbatim>\<open>model->user_data\<close> is the configuration structure \<open>ms_conf\<close>. Events for the
  vendor layer are \<open>Ev_Genie\<close>; the list \<^verbatim>\<open>g_sub_list\<close> that \<^verbatim>\<open>genie_sub_list_init\<close> loads from flash is an argument.
\<close>

section \<open>Status codes and opcodes\<close>

definition STATUS_SUCCESS :: u8 where "STATUS_SUCCESS = 0x00"
definition STATUS_INVALID_ADDRESS :: u8 where "STATUS_INVALID_ADDRESS = 0x01"
definition STATUS_INVALID_MODEL :: u8 where "STATUS_INVALID_MODEL = 0x02"
definition STATUS_INVALID_APPKEY :: u8 where "STATUS_INVALID_APPKEY = 0x03"
definition STATUS_INVALID_NETKEY :: u8 where "STATUS_INVALID_NETKEY = 0x04"
definition STATUS_INSUFF_RESOURCES :: u8 where "STATUS_INSUFF_RESOURCES = 0x05"
definition STATUS_IDX_ALREADY_STORED :: u8 where "STATUS_IDX_ALREADY_STORED = 0x06"
definition STATUS_NVAL_PUB_PARAM :: u8 where "STATUS_NVAL_PUB_PARAM = 0x07"
definition STATUS_STORAGE_FAIL :: u8 where "STATUS_STORAGE_FAIL = 0x09"
definition STATUS_FEAT_NOT_SUPP :: u8 where "STATUS_FEAT_NOT_SUPP = 0x0a"
definition STATUS_CANNOT_UPDATE :: u8 where "STATUS_CANNOT_UPDATE = 0x0b"
definition STATUS_CANNOT_REMOVE :: u8 where "STATUS_CANNOT_REMOVE = 0x0c"
definition STATUS_CANNOT_BIND :: u8 where "STATUS_CANNOT_BIND = 0x0d"
definition STATUS_CANNOT_SET :: u8 where "STATUS_CANNOT_SET = 0x0f"
definition STATUS_UNSPECIFIED :: u8 where "STATUS_UNSPECIFIED = 0x10"
definition STATUS_INVALID_BINDING :: u8 where "STATUS_INVALID_BINDING = 0x11"

definition OP_APP_KEY_LIST :: u32 where "OP_APP_KEY_LIST = 0x8002"
definition OP_APP_KEY_STATUS :: u32 where "OP_APP_KEY_STATUS = 0x8003"
definition OP_KRP_STATUS :: u32 where "OP_KRP_STATUS = 0x8017"
definition OP_MOD_APP_STATUS :: u32 where "OP_MOD_APP_STATUS = 0x803e"
definition OP_NET_KEY_LIST :: u32 where "OP_NET_KEY_LIST = 0x8043"
definition OP_NET_KEY_STATUS :: u32 where "OP_NET_KEY_STATUS = 0x8044"
definition OP_SIG_MOD_APP_LIST :: u32 where "OP_SIG_MOD_APP_LIST = 0x804c"
definition OP_VND_MOD_APP_LIST :: u32 where "OP_VND_MOD_APP_LIST = 0x804e"
definition BT_MESH_KR_PHASE_3 :: u8 where "BT_MESH_KR_PHASE_3 = 0x03"
definition IDX_LEN :: "nat \<Rightarrow> nat" where "IDX_LEN num = num div 2 * 3 + num mod 2 * 2"

section \<open>Helpers\<close>

type_synonym cfg_result = "bt_mesh_msg_ctx \<times> net_buf_simple \<times> mesh"

text \<open>The \<open>n\<close> bytes at \<^verbatim>\<open>buf->data\<close>, and the answer to a request, whose result the code only logs.\<close>

definition nb_at :: "nat \<Rightarrow> net_buf_simple \<Rightarrow> bytes" where
  "nb_at n buf = map (nb_byte buf) [0..<n]"

definition respond :: "model_ref \<Rightarrow> bt_mesh_msg_ctx \<Rightarrow> net_buf_simple \<Rightarrow> net_buf_simple \<Rightarrow> mesh \<Rightarrow> cfg_result" where
  "respond m ctx msg buf s = (let (err, ctx, msg, s) = bt_mesh_model_send m ctx msg Cb_None s in (ctx, buf, s))"

definition key_idx_pack :: "net_buf_simple \<Rightarrow> u16 \<Rightarrow> u16 \<Rightarrow> net_buf_simple" where
  "key_idx_pack buf idx1 idx2 =
     net_buf_simple_add_u8 (net_buf_simple_add_le16 buf (idx1 OR push_bit 12 (idx2 AND 0x00f))) (ucast (drop_bit 4 idx2))"

definition key_idx_unpack :: "net_buf_simple \<Rightarrow> u16 \<times> u16 \<times> net_buf_simple" where
  "key_idx_unpack buf =
     (sys_get_le16 [nb_byte buf 0, nb_byte buf 1] AND 0xfff, drop_bit 4 (sys_get_le16 [nb_byte buf 1, nb_byte buf 2]),
      net_buf_simple_pull buf 3)"

text \<open>The pairing of indices in the key lists; \<open>prev\<close> is the index that waits for a partner.\<close>

fun idx_list :: "u16 list \<Rightarrow> u16 \<Rightarrow> net_buf_simple \<Rightarrow> net_buf_simple" where
  "idx_list [] prev msg = (if prev \<noteq> BT_MESH_KEY_UNUSED then net_buf_simple_add_le16 msg prev else msg)"
| "idx_list (i # is) prev msg =
     (if prev = BT_MESH_KEY_UNUSED then idx_list is i msg
      else idx_list is BT_MESH_KEY_UNUSED (key_idx_pack msg prev i))"

text \<open>\<^verbatim>\<open>get_model\<close> of the server: the model a message names, and whether it is a vendor model.\<close>

definition cfg_get_model :: "mesh \<Rightarrow> nat \<Rightarrow> net_buf_simple \<Rightarrow> model_ref option \<times> bool \<times> net_buf_simple" where
  "cfg_get_model s e buf =
     (if nb_len buf < 4 then
        let (id, buf) = net_buf_simple_pull_le16 buf
        in (map_option (\<lambda>i. (e, False, i)) (bt_mesh_model_find (ms_comp s ! e) id), False, buf)
      else
        let (company, buf) = net_buf_simple_pull_le16 buf; (id, buf) = net_buf_simple_pull_le16 buf
        in (map_option (\<lambda>i. (e, True, i)) (bt_mesh_model_find_vnd (ms_comp s ! e) company id), True, buf))"

text \<open>
  The common start of the model handlers: the element, then the model, or the status to report.
\<close>

definition cfg_find_model :: "mesh \<Rightarrow> u16 \<Rightarrow> net_buf_simple \<Rightarrow> (u8 + nat \<times> model_ref) \<times> bool \<times> net_buf_simple" where
  "cfg_find_model s elem_addr buf =
     (case bt_mesh_elem_find s elem_addr of
        None \<Rightarrow> (Inl STATUS_INVALID_ADDRESS, nb_len buf = 4, buf)
      | Some e \<Rightarrow>
          (case cfg_get_model s e buf of
             (None, vnd, buf) \<Rightarrow> (Inl STATUS_INVALID_MODEL, vnd, buf)
           | (Some m, vnd, buf) \<Rightarrow> (Inr (e, m), vnd, buf)))"

section \<open>Publication and bindings of a model\<close>

definition app_key_is_valid :: "mesh \<Rightarrow> u16 \<Rightarrow> bool" where
  "app_key_is_valid s app_idx =
     (find_index (\<lambda>key. ak_net_idx key \<noteq> BT_MESH_KEY_UNUSED \<and> ak_app_idx key = app_idx) (bm_app_keys (ms_net s)) \<noteq> None)"

definition mod_pub_set' :: "model_ref \<Rightarrow> u16 \<Rightarrow> u16 \<Rightarrow> bool \<Rightarrow> u8 \<Rightarrow> u8 \<Rightarrow> u8 \<Rightarrow> mesh \<Rightarrow> u8 \<times> mesh" where
  "mod_pub_set' m pub_addr app_idx cred_flag ttl period retransmit s =
     (case md_pub (get_model s m) of
        None \<Rightarrow> (STATUS_NVAL_PUB_PARAM, s)
      | Some pub \<Rightarrow>
          if cred_flag then (STATUS_FEAT_NOT_SUPP, s)
          else if \<not> pb_update pub \<and> period \<noteq> 0 then (STATUS_NVAL_PUB_PARAM, s)
          else if pub_addr = BT_MESH_ADDR_UNASSIGNED then
            let s = upd_pub m (\<lambda>p. p\<lparr>pb_addr := BT_MESH_ADDR_UNASSIGNED, pb_key := 0, pb_cred := False, pb_ttl := 0,
                      pb_period := 0, pb_retransmit := 0, pb_count := 0\<rparr>) s
            in (STATUS_SUCCESS, if pb_update pub then k_delayed_work_cancel (W_Pub m) s else s)
          else if bt_mesh_app_key_find s app_idx = None then (STATUS_INVALID_APPKEY, s)
          else
            let s = upd_pub m (\<lambda>p. p\<lparr>pb_addr := pub_addr, pb_key := app_idx, pb_cred := cred_flag, pb_ttl := ttl,
                      pb_period := period, pb_retransmit := retransmit\<rparr>) s;
                period_ms = bt_mesh_model_pub_period_get (get_model s m)
            in (STATUS_SUCCESS,
                if \<not> pb_update pub then s
                else if period_ms \<noteq> 0 then k_delayed_work_submit (W_Pub m) period_ms s
                else k_delayed_work_cancel (W_Pub m) s))"

definition mod_bind :: "model_ref \<Rightarrow> u16 \<Rightarrow> mesh \<Rightarrow> u8 \<times> mesh" where
  "mod_bind m key_idx s =
     (if \<not> app_key_is_valid s key_idx then (STATUS_INVALID_APPKEY, s)
      else if find_index (\<lambda>k. k = key_idx) (md_keys (get_model s m)) \<noteq> None then (STATUS_SUCCESS, s)
      else case find_index (\<lambda>k. k = BT_MESH_KEY_UNUSED) (md_keys (get_model s m)) of
        None \<Rightarrow> (STATUS_INSUFF_RESOURCES, s)
      | Some i \<Rightarrow> (STATUS_SUCCESS, upd_model m (\<lambda>mdl. mdl\<lparr>md_keys := (md_keys mdl)[i := key_idx]\<rparr>) s))"

definition mod_unbind :: "model_ref \<Rightarrow> u16 \<Rightarrow> mesh \<Rightarrow> u8 \<times> mesh" where
  "mod_unbind m key_idx s =
     (if \<not> app_key_is_valid s key_idx then (STATUS_INVALID_APPKEY, s)
      else case find_index (\<lambda>k. k = key_idx) (md_keys (get_model s m)) of
        None \<Rightarrow> (STATUS_CANNOT_BIND, s)
      | Some i \<Rightarrow>
          let s = upd_model m (\<lambda>mdl. mdl\<lparr>md_keys := (md_keys mdl)[i := BT_MESH_KEY_UNUSED]\<rparr>) s
          in (STATUS_SUCCESS,
              case md_pub (get_model s m) of
                None \<Rightarrow> s
              | Some pub \<Rightarrow> if pb_key pub = key_idx then snd (mod_pub_set' m BT_MESH_ADDR_UNASSIGNED 0 False 0 0 0 s) else s))"

section \<open>Application keys\<close>

definition app_key_alloc :: "mesh \<Rightarrow> nat option" where
  "app_key_alloc s = find_index (\<lambda>key. ak_net_idx key = BT_MESH_KEY_UNUSED) (bm_app_keys (ms_net s))"

definition upd_app_key :: "nat \<Rightarrow> (bt_mesh_app_key \<Rightarrow> bt_mesh_app_key) \<Rightarrow> mesh \<Rightarrow> mesh" where
  "upd_app_key k f s = upd_net (\<lambda>n. n\<lparr>bm_app_keys := upd_at k f (bm_app_keys n)\<rparr>) s"

text \<open>The end of \<^verbatim>\<open>app_key_set\<close>: the key is stored in the slot \<open>k\<close>, as the new key when \<open>update\<close> holds.\<close>

definition app_key_store :: "nat \<Rightarrow> u16 \<Rightarrow> u16 \<Rightarrow> bytes \<Rightarrow> bool \<Rightarrow> mesh \<Rightarrow> u8 \<times> mesh" where
  "app_key_store k net_idx app_idx val update s =
     (case bt_mesh_app_id val of
        Inl err \<Rightarrow> (STATUS_STORAGE_FAIL, if update then upd_app_key k (\<lambda>key. key\<lparr>ak_updated := False\<rparr>) s else s)
      | Inr aid \<Rightarrow>
          (STATUS_SUCCESS,
           upd_app_key k (\<lambda>key. let key = key\<lparr>ak_net_idx := net_idx, ak_app_idx := app_idx\<rparr>; kv = \<lparr>av_id = aid, av_val = val\<rparr>
              in if update then key\<lparr>ak_key1 := kv\<rparr> else key\<lparr>ak_key0 := kv\<rparr>) s))"

definition app_key_set :: "u16 \<Rightarrow> u16 \<Rightarrow> bytes \<Rightarrow> bool \<Rightarrow> mesh \<Rightarrow> u8 \<times> mesh" where
  "app_key_set net_idx app_idx val update s =
     (case bt_mesh_subnet_get s net_idx of
        None \<Rightarrow> (STATUS_INVALID_NETKEY, s)
      | Some sub \<Rightarrow>
          if update then
            (case bt_mesh_app_key_find s app_idx of
               None \<Rightarrow> (STATUS_INVALID_APPKEY, s)
             | Some k \<Rightarrow>
                 let key = bm_app_keys (ms_net s) ! k in
                 if ak_net_idx key \<noteq> net_idx then (STATUS_INVALID_BINDING, s)
                 else if sn_kr_phase (get_sub s sub) \<noteq> BT_MESH_KR_PHASE_1 then (STATUS_CANNOT_UPDATE, s)
                 else if ak_updated key then (if av_val (ak_key1 key) \<noteq> val then (STATUS_CANNOT_UPDATE, s) else (STATUS_SUCCESS, s))
                 else app_key_store k net_idx app_idx val True (upd_app_key k (\<lambda>key. key\<lparr>ak_updated := True\<rparr>) s))
          else
            (case bt_mesh_app_key_find s app_idx of
               Some k \<Rightarrow>
                 let key = bm_app_keys (ms_net s) ! k in
                 if ak_net_idx key = net_idx \<and> av_val (ak_key0 key) = val then (STATUS_SUCCESS, s)
                 else if ak_net_idx key = net_idx then (STATUS_IDX_ALREADY_STORED, s)
                 else (STATUS_INVALID_NETKEY, s)
             | None \<Rightarrow>
                 (case app_key_alloc s of
                    None \<Rightarrow> (STATUS_INSUFF_RESOURCES, s)
                  | Some k \<Rightarrow> app_key_store k net_idx app_idx val False s)))"

text \<open>
  \<^verbatim>\<open>genie_mesh_setup\<close> binds application key 0 to every model of the node and gives every model the
  subscriptions of \<^verbatim>\<open>g_sub_list\<close>.
\<close>

definition setup_model :: "model_ref \<Rightarrow> mesh \<Rightarrow> mesh" where
  "setup_model m s = upd_model m (\<lambda>mdl. mdl\<lparr>md_groups := ms_sub_list s\<rparr>) (snd (mod_bind m 0 s))"

definition setup_elem :: "nat \<Rightarrow> mesh \<Rightarrow> mesh" where
  "setup_elem e s =
     (let elem = ms_comp s ! e;
          s = fold (\<lambda>j s. case bt_mesh_model_find elem (md_id (el_models elem ! j)) of
                     None \<Rightarrow> s | Some i \<Rightarrow> setup_model (e, False, i) s) [0..<length (el_models elem)] s
      in fold (\<lambda>j s. case bt_mesh_model_find_vnd elem (md_company (el_vnd_models elem ! j)) (md_id (el_vnd_models elem ! j)) of
                     None \<Rightarrow> s | Some i \<Rightarrow> setup_model (e, True, i) s) [0..<length (el_vnd_models elem)] s)"

fun mesh_setup_loop :: "nat list \<Rightarrow> mesh \<Rightarrow> mesh" where
  "mesh_setup_loop [] s = s"
| "mesh_setup_loop (i # is) s =
     (case bt_mesh_elem_find s (bt_mesh_primary_addr s + of_nat i) of
        None \<Rightarrow> s
      | Some e \<Rightarrow> mesh_setup_loop is (setup_elem e s))"

definition genie_mesh_setup :: "mesh \<Rightarrow> mesh" where
  "genie_mesh_setup s = mesh_setup_loop [0..<unat (bt_mesh_elem_count s)] s"

definition genie_appkey_register :: "u16 list \<Rightarrow> u16 \<Rightarrow> u16 \<Rightarrow> bytes \<Rightarrow> bool \<Rightarrow> mesh \<Rightarrow> mesh" where
  "genie_appkey_register sub_list net_idx app_idx val update s =
     genie_mesh_setup ((snd (app_key_set net_idx app_idx val update s))\<lparr>ms_sub_list := sub_list\<rparr>)"

definition app_key_status :: "u8 \<Rightarrow> u16 \<Rightarrow> u16 \<Rightarrow> net_buf_simple" where
  "app_key_status status net_idx app_idx =
     key_idx_pack (net_buf_simple_add_u8 (bt_mesh_model_msg_init (NET_BUF_SIMPLE (2 + 4 + 4)) OP_APP_KEY_STATUS) status) net_idx app_idx"

definition app_key_add :: "u16 list \<Rightarrow> model_ref \<Rightarrow> bt_mesh_msg_ctx \<Rightarrow> net_buf_simple \<Rightarrow> mesh \<Rightarrow> cfg_result" where
  "app_key_add sub_list m ctx buf s =
     (let (net_idx, app_idx, buf) = key_idx_unpack buf;
          (status, s) = app_key_set net_idx app_idx (nb_at 16 buf) False s;
          (ctx, buf, s) = respond m ctx (app_key_status status net_idx app_idx) buf s;
          s = genie_mesh_setup (s\<lparr>ms_sub_list := sub_list\<rparr>)
      in (ctx, buf, log_ev (Ev_Genie (GENIE_EVT_SDK_APPKEY_ADD status)) s))"

definition app_key_update :: "model_ref \<Rightarrow> bt_mesh_msg_ctx \<Rightarrow> net_buf_simple \<Rightarrow> mesh \<Rightarrow> cfg_result" where
  "app_key_update m ctx buf s =
     (let (net_idx, app_idx, buf) = key_idx_unpack buf;
          (status, s) = app_key_set net_idx app_idx (nb_at 16 buf) True s;
          (ctx, buf, s) = respond m ctx (app_key_status status net_idx app_idx) buf s
      in (ctx, buf, log_ev (Ev_Genie (GENIE_EVT_SDK_APPKEY_UPDATE status)) s))"

definition app_key_del' :: "nat \<Rightarrow> mesh \<Rightarrow> mesh" where
  "app_key_del' k s =
     (let app_idx = ak_app_idx (bm_app_keys (ms_net s) ! k);
          s = bt_mesh_model_foreach (\<lambda>m s. snd (mod_unbind m app_idx s)) s;
          zero = \<lparr>av_id = 0, av_val = replicate 16 0\<rparr>
      in upd_app_key k (\<lambda>key. key\<lparr>ak_net_idx := BT_MESH_KEY_UNUSED, ak_key0 := zero, ak_key1 := zero\<rparr>) s)"

definition app_key_del :: "model_ref \<Rightarrow> bt_mesh_msg_ctx \<Rightarrow> net_buf_simple \<Rightarrow> mesh \<Rightarrow> cfg_result" where
  "app_key_del m ctx buf s =
     (let (net_idx, app_idx, buf) = key_idx_unpack buf;
          (status, s) =
            (if bt_mesh_subnet_get s net_idx = None then (STATUS_INVALID_NETKEY, s)
             else case bt_mesh_app_key_find s app_idx of
               None \<Rightarrow> (STATUS_SUCCESS, s)
             | Some k \<Rightarrow>
                 if ak_net_idx (bm_app_keys (ms_net s) ! k) \<noteq> net_idx then (STATUS_INVALID_BINDING, s)
                 else (STATUS_SUCCESS, log_ev (Ev_Genie (GENIE_EVT_SDK_APPKEY_DEL STATUS_SUCCESS)) (app_key_del' k s)))
      in respond m ctx (app_key_status status net_idx app_idx) buf s)"

definition app_key_get :: "model_ref \<Rightarrow> bt_mesh_msg_ctx \<Rightarrow> net_buf_simple \<Rightarrow> mesh \<Rightarrow> cfg_result" where
  "app_key_get m ctx buf s =
     (let (get_idx, buf) = net_buf_simple_pull_le16 buf in
      if get_idx > 0xfff then (ctx, buf, s)
      else
        let msg = bt_mesh_model_msg_init (NET_BUF_SIMPLE (2 + 3 + 4 + IDX_LEN (length (bm_app_keys (ms_net s))))) OP_APP_KEY_LIST;
            status = (if bt_mesh_subnet_get s get_idx = None then STATUS_INVALID_NETKEY else STATUS_SUCCESS);
            msg = net_buf_simple_add_le16 (net_buf_simple_add_u8 msg status) get_idx;
            msg = (if status \<noteq> STATUS_SUCCESS then msg
                   else idx_list (map ak_app_idx (filter (\<lambda>key. ak_net_idx key = get_idx) (bm_app_keys (ms_net s)))) BT_MESH_KEY_UNUSED msg)
        in respond m ctx msg buf s)"

section \<open>Network keys\<close>

definition send_net_key_status :: "model_ref \<Rightarrow> bt_mesh_msg_ctx \<Rightarrow> u16 \<Rightarrow> u8 \<Rightarrow> net_buf_simple \<Rightarrow> mesh \<Rightarrow> cfg_result" where
  "send_net_key_status m ctx idx status buf s =
     respond m ctx (net_buf_simple_add_le16 (net_buf_simple_add_u8
       (bt_mesh_model_msg_init (NET_BUF_SIMPLE (2 + 3 + 4)) OP_NET_KEY_STATUS) status) idx) buf s"

definition net_key_add :: "model_ref \<Rightarrow> bt_mesh_msg_ctx \<Rightarrow> net_buf_simple \<Rightarrow> mesh \<Rightarrow> cfg_result" where
  "net_key_add m ctx buf s =
     (let (idx, buf) = net_buf_simple_pull_le16 buf in
      if idx > 0xfff then (ctx, buf, s)
      else case (case bt_mesh_subnet_get s idx of
                   Some i \<Rightarrow> Some i
                 | None \<Rightarrow> find_index (\<lambda>sub. sn_net_idx sub = BT_MESH_KEY_UNUSED) (bm_sub (ms_net s))) of
        None \<Rightarrow> send_net_key_status m ctx idx STATUS_INSUFF_RESOURCES buf s
      | Some i \<Rightarrow>
          if sn_net_idx (get_sub s i) = idx then
            let status = (if nb_at 16 buf \<noteq> sk_net (sn_key0 (get_sub s i)) then STATUS_IDX_ALREADY_STORED else STATUS_SUCCESS)
            in send_net_key_status m ctx idx status buf (log_ev (Ev_Genie (GENIE_EVT_SDK_NETKEY_ADD status)) s)
          else
            let (err, keys) = bt_mesh_net_keys_create (sn_key0 (get_sub s i)) (nb_at 16 buf);
                s = upd_sub i (\<lambda>sub. sub\<lparr>sn_key0 := keys\<rparr>) s
            in if err \<noteq> None then send_net_key_status m ctx idx STATUS_UNSPECIFIED buf s
            else
              let s = upd_sub i (\<lambda>sub. sub\<lparr>sn_net_idx := idx\<rparr>) s;
                  s = snd (bt_mesh_net_beacon_update i s);
                  s = upd_sub i (\<lambda>sub. sub\<lparr>sn_node_id := 0x00\<rparr>) s;
                  s = bt_mesh_adv_update (bt_mesh_proxy_beacon_send (Some i) s)
              in send_net_key_status m ctx idx STATUS_SUCCESS buf s)"

text \<open>\<^verbatim>\<open>net_key_update\<close> reports success on every path that answers, whatever the status.\<close>

definition net_key_update :: "model_ref \<Rightarrow> bt_mesh_msg_ctx \<Rightarrow> net_buf_simple \<Rightarrow> mesh \<Rightarrow> cfg_result" where
  "net_key_update m ctx buf s =
     (let (idx, buf) = net_buf_simple_pull_le16 buf in
      if idx > 0xfff then (ctx, buf, s)
      else case bt_mesh_subnet_get s idx of
        None \<Rightarrow> send_net_key_status m ctx idx STATUS_SUCCESS buf s
      | Some i \<Rightarrow>
          let sub = get_sub s i; phase = sn_kr_phase sub in
          if phase = BT_MESH_KR_NORMAL \<and> nb_at 16 buf = sk_net (sn_key0 sub) then (ctx, buf, s)
          else if phase = BT_MESH_KR_PHASE_1 \<or> phase = BT_MESH_KR_PHASE_2 \<or> phase = BT_MESH_KR_PHASE_3
          then send_net_key_status m ctx idx STATUS_SUCCESS buf s
          else
            let (err, keys) = bt_mesh_net_keys_create (sn_key1 sub) (nb_at 16 buf);
                s = upd_sub i (\<lambda>sub. sub\<lparr>sn_key1 := keys\<rparr>) s
            in if err \<noteq> None then send_net_key_status m ctx idx STATUS_SUCCESS buf s
            else
              let s = upd_sub i (\<lambda>sub. sub\<lparr>sn_kr_phase := BT_MESH_KR_PHASE_1\<rparr>) s;
                  s = log_ev (Ev_Genie (GENIE_EVT_SDK_NETKEY_UPDATE STATUS_SUCCESS)) s;
                  s = snd (bt_mesh_net_beacon_update i s)
              in send_net_key_status m ctx idx STATUS_SUCCESS buf s)"

definition upd_conf :: "(bt_mesh_cfg_srv \<Rightarrow> bt_mesh_cfg_srv) \<Rightarrow> mesh \<Rightarrow> mesh" where
  "upd_conf f s = s\<lparr>ms_conf := map_option f (ms_conf s)\<rparr>"

definition hb_pub_disable :: "mesh \<Rightarrow> mesh" where
  "hb_pub_disable s =
     k_delayed_work_cancel W_Hb_Pub
       (upd_conf (\<lambda>cfg. cfg\<lparr>cf_hb_pub := (cf_hb_pub cfg)\<lparr>hp_dst := BT_MESH_ADDR_UNASSIGNED, hp_count := 0, hp_ttl := 0, hp_period := 0\<rparr>\<rparr>) s)"

text \<open>\<^verbatim>\<open>memset(sub, 0, sizeof(*sub))\<close> followed by the unused index.\<close>

definition sub_clear :: "bt_mesh_subnet \<Rightarrow> bt_mesh_subnet" where
  "sub_clear sub = subnet0"

definition net_key_del :: "model_ref \<Rightarrow> bt_mesh_msg_ctx \<Rightarrow> net_buf_simple \<Rightarrow> mesh \<Rightarrow> cfg_result" where
  "net_key_del m ctx buf s =
     (let (del_idx, buf) = net_buf_simple_pull_le16 buf in
      if del_idx > 0xfff then (ctx, buf, s)
      else case bt_mesh_subnet_get s del_idx of
        None \<Rightarrow> send_net_key_status m ctx del_idx STATUS_SUCCESS buf s
      | Some i \<Rightarrow>
          if cx_net_idx ctx = del_idx then send_net_key_status m ctx del_idx STATUS_CANNOT_REMOVE buf s
          else
            let s = (case ms_conf s of
                       Some cfg \<Rightarrow> if hp_net_idx (cf_hb_pub cfg) = del_idx then hb_pub_disable s else s
                     | None \<Rightarrow> s);
                s = fold (\<lambda>k s. if ak_net_idx (bm_app_keys (ms_net s) ! k) = del_idx then app_key_del' k s else s)
                      [0..<length (bm_app_keys (ms_net s))] s;
                s = upd_sub i sub_clear s;
                s = log_ev (Ev_Genie (GENIE_EVT_SDK_NETKEY_DEL STATUS_SUCCESS)) s
            in send_net_key_status m ctx del_idx STATUS_SUCCESS buf s)"

definition net_key_get :: "model_ref \<Rightarrow> bt_mesh_msg_ctx \<Rightarrow> net_buf_simple \<Rightarrow> mesh \<Rightarrow> cfg_result" where
  "net_key_get m ctx buf s =
     (let msg = bt_mesh_model_msg_init (NET_BUF_SIMPLE (2 + 4 + IDX_LEN (length (bm_sub (ms_net s))))) OP_NET_KEY_LIST;
          msg = idx_list (filter (\<lambda>i. i \<noteq> BT_MESH_KEY_UNUSED) (map sn_net_idx (bm_sub (ms_net s)))) BT_MESH_KEY_UNUSED msg
      in respond m ctx msg buf s)"

section \<open>Bindings\<close>

definition create_mod_app_status :: "net_buf_simple \<Rightarrow> bool \<Rightarrow> u16 \<Rightarrow> u16 \<Rightarrow> u8 \<Rightarrow> bytes \<Rightarrow> net_buf_simple" where
  "create_mod_app_status msg vnd elem_addr app_idx status mod_id =
     (let msg = bt_mesh_model_msg_init msg OP_MOD_APP_STATUS;
          msg = net_buf_simple_add_u8 msg status;
          msg = net_buf_simple_add_le16 msg elem_addr;
          msg = net_buf_simple_add_le16 msg app_idx
      in net_buf_simple_add_mem msg (take (if vnd then 4 else 2) mod_id))"

definition mod_app_bind :: "model_ref \<Rightarrow> bt_mesh_msg_ctx \<Rightarrow> net_buf_simple \<Rightarrow> mesh \<Rightarrow> cfg_result" where
  "mod_app_bind m ctx buf s =
     (let (elem_addr, buf) = net_buf_simple_pull_le16 buf;
          (key_app_idx, buf) = net_buf_simple_pull_le16 buf;
          mod_id = nb_at 4 buf;
          (found, vnd, buf) = cfg_find_model s elem_addr buf;
          (status, s) =
            (case found of
               Inl status \<Rightarrow> (status, s)
             | Inr (e, mdl) \<Rightarrow> if m = mdl then (STATUS_CANNOT_BIND, s) else mod_bind mdl key_app_idx s)
      in respond m ctx (create_mod_app_status (NET_BUF_SIMPLE (2 + 9 + 4)) vnd elem_addr key_app_idx status mod_id) buf s)"

definition mod_app_unbind :: "model_ref \<Rightarrow> bt_mesh_msg_ctx \<Rightarrow> net_buf_simple \<Rightarrow> mesh \<Rightarrow> cfg_result" where
  "mod_app_unbind m ctx buf s =
     (let (elem_addr, buf) = net_buf_simple_pull_le16 buf;
          (key_app_idx, buf) = net_buf_simple_pull_le16 buf;
          mod_id = nb_at 4 buf;
          (found, vnd, buf) = cfg_find_model s elem_addr buf;
          (status, s) = (case found of Inl status \<Rightarrow> (status, s) | Inr (e, mdl) \<Rightarrow> mod_unbind mdl key_app_idx s)
      in respond m ctx (create_mod_app_status (NET_BUF_SIMPLE (2 + 9 + 4)) vnd elem_addr key_app_idx status mod_id) buf s)"

definition mod_app_get :: "model_ref \<Rightarrow> bt_mesh_msg_ctx \<Rightarrow> net_buf_simple \<Rightarrow> mesh \<Rightarrow> cfg_result" where
  "mod_app_get m ctx buf s =
     (let (elem_addr, buf) = net_buf_simple_pull_le16 buf;
          mod_id = nb_at 4 buf;
          (found, vnd, buf) = cfg_find_model s elem_addr buf;
          msg = bt_mesh_model_msg_init (NET_BUF_SIMPLE (2 + 9 + 4 + 4)) (if vnd then OP_VND_MOD_APP_LIST else OP_SIG_MOD_APP_LIST);
          msg = net_buf_simple_add_u8 msg (case found of Inl status \<Rightarrow> status | Inr _ \<Rightarrow> STATUS_SUCCESS);
          msg = net_buf_simple_add_le16 msg elem_addr;
          msg = net_buf_simple_add_mem msg (take (if vnd then 4 else 2) mod_id);
          msg = (case found of
                   Inl status \<Rightarrow> msg
                 | Inr (e, mdl) \<Rightarrow>
                     fold (\<lambda>k msg. net_buf_simple_add_le16 msg k) (filter (\<lambda>k. k \<noteq> BT_MESH_KEY_UNUSED) (md_keys (get_model s mdl))) msg)
      in respond m ctx msg buf s)"

section \<open>Key refresh phase\<close>

definition send_krp_status :: "model_ref \<Rightarrow> bt_mesh_msg_ctx \<Rightarrow> u16 \<Rightarrow> u8 \<Rightarrow> u8 \<Rightarrow> net_buf_simple \<Rightarrow> mesh \<Rightarrow> cfg_result" where
  "send_krp_status m ctx idx phase status buf s =
     respond m ctx (net_buf_simple_add_u8 (net_buf_simple_add_le16 (net_buf_simple_add_u8
       (bt_mesh_model_msg_init (NET_BUF_SIMPLE (2 + 4 + 4)) OP_KRP_STATUS) status) idx) phase) buf s"

definition krp_get :: "model_ref \<Rightarrow> bt_mesh_msg_ctx \<Rightarrow> net_buf_simple \<Rightarrow> mesh \<Rightarrow> cfg_result" where
  "krp_get m ctx buf s =
     (let (idx, buf) = net_buf_simple_pull_le16 buf in
      if idx > 0xfff then (ctx, buf, s)
      else case bt_mesh_subnet_get s idx of
        None \<Rightarrow> send_krp_status m ctx idx 0x00 STATUS_INVALID_NETKEY buf s
      | Some i \<Rightarrow> send_krp_status m ctx idx (sn_kr_phase (get_sub s i)) STATUS_SUCCESS buf s)"

definition krp_set :: "model_ref \<Rightarrow> bt_mesh_msg_ctx \<Rightarrow> net_buf_simple \<Rightarrow> mesh \<Rightarrow> cfg_result" where
  "krp_set m ctx buf s =
     (let (idx, buf) = net_buf_simple_pull_le16 buf;
          (phase, buf) = net_buf_simple_pull_u8 buf
      in if idx > 0xfff then (ctx, buf, s)
      else case bt_mesh_subnet_get s idx of
        None \<Rightarrow> send_krp_status m ctx idx 0x00 STATUS_INVALID_NETKEY buf s
      | Some i \<Rightarrow>
          let kr_phase = sn_kr_phase (get_sub s i) in
          if phase < BT_MESH_KR_PHASE_2 \<or> phase > BT_MESH_KR_PHASE_3 \<or> kr_phase = BT_MESH_KR_NORMAL \<and> phase = BT_MESH_KR_PHASE_2
          then (ctx, buf, s)
          else
            let s = (if kr_phase = BT_MESH_KR_PHASE_1 \<and> phase = BT_MESH_KR_PHASE_2
                     then snd (bt_mesh_net_beacon_update i
                            (upd_sub i (\<lambda>sub. sub\<lparr>sn_kr_phase := BT_MESH_KR_PHASE_2, sn_kr_flag := True\<rparr>) s))
                     else if (kr_phase = BT_MESH_KR_PHASE_1 \<or> kr_phase = BT_MESH_KR_PHASE_2) \<and> phase = BT_MESH_KR_PHASE_3
                     then snd (bt_mesh_net_beacon_update i
                            (upd_sub i (\<lambda>sub. sub\<lparr>sn_kr_phase := BT_MESH_KR_NORMAL, sn_kr_flag := False\<rparr>) (bt_mesh_net_revoke_keys i s)))
                     else s)
            in send_krp_status m ctx idx (sn_kr_phase (get_sub s i)) STATUS_SUCCESS buf s)"

end
