(* ===== verification/Cfg_Model.thy ===== *)
theory Cfg_Model
  imports Cfg_Keys
begin

text \<open>
  The Configuration Server, second part: publication and subscriptions of the models, label UUIDs.
  The build has \<^verbatim>\<open>CONFIG_ALI_SIMPLE_MODLE\<close> set, as the applications of the repository do: adding or deleting a
  subscription changes the list \<^verbatim>\<open>g_sub_list\<close> of the node and copies it to all models of the element.
\<close>

definition OP_MOD_PUB_STATUS :: u32 where "OP_MOD_PUB_STATUS = 0x8019"
definition OP_MOD_SUB_STATUS :: u32 where "OP_MOD_SUB_STATUS = 0x801f"
definition OP_MOD_SUB_LIST :: u32 where "OP_MOD_SUB_LIST = 0x802a"
definition OP_MOD_SUB_LIST_VND :: u32 where "OP_MOD_SUB_LIST_VND = 0x802c"
definition BT_MESH_TTL_MAX :: u8 where "BT_MESH_TTL_MAX = 0x7f"

section \<open>Publication\<close>

definition send_mod_pub_status ::
  "model_ref \<Rightarrow> bt_mesh_msg_ctx \<Rightarrow> u16 \<Rightarrow> u16 \<Rightarrow> bool \<Rightarrow> model_ref option \<Rightarrow> u8 \<Rightarrow> bytes \<Rightarrow> net_buf_simple \<Rightarrow> mesh \<Rightarrow> cfg_result" where
  "send_mod_pub_status cfg_mod ctx elem_addr pub_addr vnd mdl status mod_id buf s =
     (let msg = bt_mesh_model_msg_init (NET_BUF_SIMPLE (2 + 14 + 4)) OP_MOD_PUB_STATUS;
          msg = net_buf_simple_add_u8 msg status;
          msg = net_buf_simple_add_le16 msg elem_addr;
          msg = (if status \<noteq> STATUS_SUCCESS then net_buf_simple_add_mem msg (replicate 7 0)
                 else
                   let pub = the (md_pub (get_model s (the mdl)));
                       msg = net_buf_simple_add_le16 msg pub_addr;
                       msg = net_buf_simple_add_le16 msg (pb_key pub OR push_bit 12 (of_bool (pb_cred pub)));
                       msg = net_buf_simple_add_u8 msg (pb_ttl pub);
                       msg = net_buf_simple_add_u8 msg (pb_period pub)
                   in net_buf_simple_add_u8 msg (pb_retransmit pub));
          msg = net_buf_simple_add_mem msg (take (if vnd then 4 else 2) mod_id)
      in respond cfg_mod ctx msg buf s)"

definition mod_pub_get :: "model_ref \<Rightarrow> bt_mesh_msg_ctx \<Rightarrow> net_buf_simple \<Rightarrow> mesh \<Rightarrow> cfg_result" where
  "mod_pub_get m ctx buf s =
     (let (elem_addr, buf) = net_buf_simple_pull_le16 buf;
          mod_id = nb_at 4 buf;
          (found, vnd, buf) = cfg_find_model s elem_addr buf
      in case found of
           Inl status \<Rightarrow> send_mod_pub_status m ctx elem_addr 0 vnd None status mod_id buf s
         | Inr (e, mdl) \<Rightarrow>
             (case md_pub (get_model s mdl) of
                None \<Rightarrow> send_mod_pub_status m ctx elem_addr 0 vnd (Some mdl) STATUS_NVAL_PUB_PARAM mod_id buf s
              | Some pub \<Rightarrow> send_mod_pub_status m ctx elem_addr (pb_addr pub) vnd (Some mdl) STATUS_SUCCESS mod_id buf s))"

definition mod_pub_set :: "model_ref \<Rightarrow> bt_mesh_msg_ctx \<Rightarrow> net_buf_simple \<Rightarrow> mesh \<Rightarrow> cfg_result" where
  "mod_pub_set m ctx buf s =
     (let (elem_addr, buf) = net_buf_simple_pull_le16 buf;
          (pub_addr, buf) = net_buf_simple_pull_le16 buf;
          (pub_app_idx, buf) = net_buf_simple_pull_le16 buf;
          cred_flag = (drop_bit 12 pub_app_idx AND 1 \<noteq> 0);
          pub_app_idx = pub_app_idx AND 0xfff;
          (pub_ttl, buf) = net_buf_simple_pull_u8 buf
      in if pub_ttl > BT_MESH_TTL_MAX \<and> pub_ttl \<noteq> BT_MESH_TTL_DEFAULT then (ctx, buf, s)
      else
        let (pub_period, buf) = net_buf_simple_pull_u8 buf;
            (retransmit, buf) = net_buf_simple_pull_u8 buf;
            mod_id = nb_at 4 buf;
            (found, vnd, buf) = cfg_find_model s elem_addr buf
        in case found of
             Inl status \<Rightarrow> send_mod_pub_status m ctx elem_addr pub_addr vnd None status mod_id buf s
           | Inr (e, mdl) \<Rightarrow>
               let (status, s) = mod_pub_set' mdl pub_addr pub_app_idx cred_flag pub_ttl pub_period retransmit s
               in send_mod_pub_status m ctx elem_addr pub_addr vnd (Some mdl) status mod_id buf s)"

section \<open>Label UUIDs\<close>

text \<open>
  \<^verbatim>\<open>va_find\<close> returns the address of a known label; the free slot it reports is the last one it passed.
\<close>

fun va_find_from :: "nat \<Rightarrow> label list \<Rightarrow> bytes \<Rightarrow> nat option \<Rightarrow> u16 \<times> nat option" where
  "va_find_from i [] label_uuid free_slot = (BT_MESH_ADDR_UNASSIGNED, free_slot)"
| "va_find_from i (l # ls) label_uuid free_slot =
     (if \<not> BT_MESH_ADDR_IS_VIRTUAL (lb_addr l) then va_find_from (i + 1) ls label_uuid (Some i)
      else if lb_uuid l = label_uuid then (lb_addr l, free_slot)
      else va_find_from (i + 1) ls label_uuid free_slot)"

definition va_find :: "mesh \<Rightarrow> bytes \<Rightarrow> u16 \<times> nat option" where
  "va_find s label_uuid = va_find_from 0 (ms_labels s) label_uuid None"

text \<open>
  The test \<^verbatim>\<open>bt_mesh_virtual_addr(...) < 0\<close> does not see the code 1 of a failed \<^verbatim>\<open>bt_mesh_s1\<close>; the address then
  keeps its value.
\<close>

definition va_add :: "bytes \<Rightarrow> mesh \<Rightarrow> u8 \<times> u16 \<times> mesh" where
  "va_add label_uuid s =
     (let (addr, free_slot) = va_find s label_uuid in
      if addr \<noteq> BT_MESH_ADDR_UNASSIGNED then (STATUS_SUCCESS, addr, s)
      else case free_slot of
        None \<Rightarrow> (STATUS_INSUFF_RESOURCES, addr, s)
      | Some i \<Rightarrow>
          (case bt_mesh_virtual_addr label_uuid of
             Inl err \<Rightarrow>
               if err = ERR_ONE
               then (STATUS_SUCCESS, addr, s\<lparr>ms_labels := (ms_labels s)[i := \<lparr>lb_addr = addr, lb_uuid = label_uuid\<rparr>]\<rparr>)
               else (STATUS_UNSPECIFIED, addr, s)
           | Inr addr \<Rightarrow> (STATUS_SUCCESS, addr, s\<lparr>ms_labels := (ms_labels s)[i := \<lparr>lb_addr = addr, lb_uuid = label_uuid\<rparr>]\<rparr>)))"

definition mod_pub_va_set :: "model_ref \<Rightarrow> bt_mesh_msg_ctx \<Rightarrow> net_buf_simple \<Rightarrow> mesh \<Rightarrow> cfg_result" where
  "mod_pub_va_set m ctx buf s =
     (let (elem_addr, buf) = net_buf_simple_pull_le16 buf;
          label_uuid = nb_at 16 buf;
          buf = net_buf_simple_pull buf 16;
          (pub_app_idx, buf) = net_buf_simple_pull_le16 buf;
          cred_flag = (drop_bit 12 pub_app_idx AND 1 \<noteq> 0);
          pub_app_idx = pub_app_idx AND 0xfff;
          (pub_ttl, buf) = net_buf_simple_pull_u8 buf
      in if pub_ttl > BT_MESH_TTL_MAX \<and> pub_ttl \<noteq> BT_MESH_TTL_DEFAULT then (ctx, buf, s)
      else
        let (pub_period, buf) = net_buf_simple_pull_u8 buf;
            (retransmit, buf) = net_buf_simple_pull_u8 buf;
            mod_id = nb_at 4 buf;
            (found, vnd, buf) = cfg_find_model s elem_addr buf
        in case found of
             Inl status \<Rightarrow> send_mod_pub_status m ctx elem_addr 0 vnd None status mod_id buf s
           | Inr (e, mdl) \<Rightarrow>
               let (status, pub_addr, s) = va_add label_uuid s;
                   (status, s) =
                     (if status = STATUS_SUCCESS
                      then mod_pub_set' mdl pub_addr pub_app_idx cred_flag pub_ttl pub_period retransmit s else (status, s))
               in send_mod_pub_status m ctx elem_addr pub_addr vnd (Some mdl) status mod_id buf s)"

section \<open>Subscriptions\<close>

definition send_mod_sub_status ::
  "model_ref \<Rightarrow> bt_mesh_msg_ctx \<Rightarrow> u8 \<Rightarrow> u16 \<Rightarrow> u16 \<Rightarrow> bytes \<Rightarrow> bool \<Rightarrow> net_buf_simple \<Rightarrow> mesh \<Rightarrow> cfg_result" where
  "send_mod_sub_status m ctx status elem_addr sub_addr mod_id vnd buf s =
     (let msg = bt_mesh_model_msg_init (NET_BUF_SIMPLE (2 + 9 + 4)) OP_MOD_SUB_STATUS;
          msg = net_buf_simple_add_u8 msg status;
          msg = net_buf_simple_add_le16 msg elem_addr;
          msg = net_buf_simple_add_le16 msg sub_addr;
          msg = net_buf_simple_add_mem msg (take (if vnd then 4 else 2) mod_id)
      in respond m ctx msg buf s)"

definition set_groups :: "model_ref \<Rightarrow> u16 list \<Rightarrow> mesh \<Rightarrow> mesh" where
  "set_groups m groups s = upd_model m (\<lambda>mdl. mdl\<lparr>md_groups := groups\<rparr>) s"

definition elem_sub_bind :: "nat \<Rightarrow> mesh \<Rightarrow> mesh" where
  "elem_sub_bind e s =
     (let elem = ms_comp s ! e;
          s = fold (\<lambda>j s. case bt_mesh_model_find elem (md_id (el_models elem ! j)) of
                     None \<Rightarrow> s | Some i \<Rightarrow> set_groups (e, False, i) (ms_sub_list s) s) [0..<length (el_models elem)] s
      in fold (\<lambda>j s. case bt_mesh_model_find_vnd elem (md_company (el_vnd_models elem ! j)) (md_id (el_vnd_models elem ! j)) of
                     None \<Rightarrow> s | Some i \<Rightarrow> set_groups (e, True, i) (ms_sub_list s) s) [0..<length (el_vnd_models elem)] s)"

text \<open>A change of one entry of \<^verbatim>\<open>g_sub_list\<close>, copied to the element when such an entry exists.\<close>

definition sub_list_replace :: "nat \<Rightarrow> u16 \<Rightarrow> u16 \<Rightarrow> mesh \<Rightarrow> bool \<times> mesh" where
  "sub_list_replace e old new s =
     (case find_index (\<lambda>a. a = old) (ms_sub_list s) of
        None \<Rightarrow> (False, s)
      | Some i \<Rightarrow> (True, elem_sub_bind e (s\<lparr>ms_sub_list := (ms_sub_list s)[i := new]\<rparr>)))"

definition mod_sub_add :: "model_ref \<Rightarrow> bt_mesh_msg_ctx \<Rightarrow> net_buf_simple \<Rightarrow> mesh \<Rightarrow> cfg_result" where
  "mod_sub_add m ctx buf s =
     (let (elem_addr, buf) = net_buf_simple_pull_le16 buf;
          (sub_addr, buf) = net_buf_simple_pull_le16 buf;
          mod_id = nb_at 4 buf;
          (found, vnd, buf) = cfg_find_model s elem_addr buf;
          (status, s) =
            (case found of
               Inl status \<Rightarrow> (status, s)
             | Inr (e, mdl) \<Rightarrow>
                 if \<not> BT_MESH_ADDR_IS_GROUP sub_addr then (STATUS_INVALID_ADDRESS, s)
                 else if bt_mesh_model_find_group (get_model s mdl) sub_addr \<noteq> None then (STATUS_SUCCESS, s)
                 else let (ok, s) = sub_list_replace e BT_MESH_ADDR_UNASSIGNED sub_addr s
                      in (if ok then STATUS_SUCCESS else STATUS_INSUFF_RESOURCES, s));
          (ctx, buf, s) = send_mod_sub_status m ctx status elem_addr sub_addr mod_id vnd buf s
      in (ctx, buf, if status = STATUS_SUCCESS then log_ev (Ev_Genie GENIE_EVT_SDK_SUB_ADD) s else s))"

definition mod_sub_del :: "model_ref \<Rightarrow> bt_mesh_msg_ctx \<Rightarrow> net_buf_simple \<Rightarrow> mesh \<Rightarrow> cfg_result" where
  "mod_sub_del m ctx buf s =
     (let (elem_addr, buf) = net_buf_simple_pull_le16 buf;
          (sub_addr, buf) = net_buf_simple_pull_le16 buf;
          mod_id = nb_at 4 buf;
          (found, vnd, buf) = cfg_find_model s elem_addr buf;
          (status, s) =
            (case found of
               Inl status \<Rightarrow> (status, s)
             | Inr (e, mdl) \<Rightarrow>
                 if \<not> BT_MESH_ADDR_IS_GROUP sub_addr then (STATUS_INVALID_ADDRESS, s)
                 else (STATUS_SUCCESS, snd (sub_list_replace e sub_addr BT_MESH_ADDR_UNASSIGNED s)));
          (ctx, buf, s) = send_mod_sub_status m ctx status elem_addr sub_addr mod_id vnd buf s
      in (ctx, buf, if status = STATUS_SUCCESS then log_ev (Ev_Genie GENIE_EVT_SDK_SUB_DEL) s else s))"

definition clear_groups :: "model_ref \<Rightarrow> mesh \<Rightarrow> mesh" where
  "clear_groups m s = upd_model m (\<lambda>mdl. mdl\<lparr>md_groups := map (\<lambda>_. 0) (md_groups mdl)\<rparr>) s"

definition mod_sub_overwrite :: "model_ref \<Rightarrow> bt_mesh_msg_ctx \<Rightarrow> net_buf_simple \<Rightarrow> mesh \<Rightarrow> cfg_result" where
  "mod_sub_overwrite m ctx buf s =
     (let (elem_addr, buf) = net_buf_simple_pull_le16 buf;
          (sub_addr, buf) = net_buf_simple_pull_le16 buf;
          mod_id = nb_at 4 buf;
          (found, vnd, buf) = cfg_find_model s elem_addr buf;
          (status, s) =
            (case found of
               Inl status \<Rightarrow> (status, s)
             | Inr (e, mdl) \<Rightarrow>
                 if \<not> BT_MESH_ADDR_IS_GROUP sub_addr then (STATUS_INVALID_ADDRESS, s)
                 else
                   let s = clear_groups mdl s in
                   if md_groups (get_model s mdl) \<noteq> []
                   then (STATUS_SUCCESS, upd_model mdl (\<lambda>mo. mo\<lparr>md_groups := (md_groups mo)[0 := sub_addr]\<rparr>) s)
                   else (STATUS_INSUFF_RESOURCES, s))
      in send_mod_sub_status m ctx status elem_addr sub_addr mod_id vnd buf s)"

definition mod_sub_del_all :: "model_ref \<Rightarrow> bt_mesh_msg_ctx \<Rightarrow> net_buf_simple \<Rightarrow> mesh \<Rightarrow> cfg_result" where
  "mod_sub_del_all m ctx buf s =
     (let (elem_addr, buf) = net_buf_simple_pull_le16 buf;
          mod_id = nb_at 4 buf;
          (found, vnd, buf) = cfg_find_model s elem_addr buf;
          (status, s) = (case found of Inl status \<Rightarrow> (status, s) | Inr (e, mdl) \<Rightarrow> (STATUS_SUCCESS, clear_groups mdl s))
      in send_mod_sub_status m ctx status elem_addr BT_MESH_ADDR_UNASSIGNED mod_id vnd buf s)"

definition add_groups :: "bt_mesh_model \<Rightarrow> net_buf_simple \<Rightarrow> net_buf_simple" where
  "add_groups mdl msg =
     fold (\<lambda>a msg. net_buf_simple_add_le16 msg a) (filter (\<lambda>a. a \<noteq> BT_MESH_ADDR_UNASSIGNED) (md_groups mdl)) msg"

definition mod_sub_get :: "model_ref \<Rightarrow> bt_mesh_msg_ctx \<Rightarrow> net_buf_simple \<Rightarrow> mesh \<Rightarrow> cfg_result" where
  "mod_sub_get m ctx buf s =
     (let (addr, buf) = net_buf_simple_pull_le16 buf;
          (id, buf) = net_buf_simple_pull_le16 buf;
          msg = bt_mesh_model_msg_init (NET_BUF_SIMPLE (2 + 5 + 4 + 8 * 2)) OP_MOD_SUB_LIST;
          head = (\<lambda>status. net_buf_simple_add_le16 (net_buf_simple_add_le16 (net_buf_simple_add_u8 msg status) addr) id);
          msg = (case bt_mesh_elem_find s addr of
                   None \<Rightarrow> head STATUS_INVALID_ADDRESS
                 | Some e \<Rightarrow>
                     (case bt_mesh_model_find (ms_comp s ! e) id of
                        None \<Rightarrow> head STATUS_INVALID_MODEL
                      | Some i \<Rightarrow> add_groups (get_model s (e, False, i)) (head STATUS_SUCCESS)))
      in respond m ctx msg buf s)"

definition mod_sub_get_vnd :: "model_ref \<Rightarrow> bt_mesh_msg_ctx \<Rightarrow> net_buf_simple \<Rightarrow> mesh \<Rightarrow> cfg_result" where
  "mod_sub_get_vnd m ctx buf s =
     (let (addr, buf) = net_buf_simple_pull_le16 buf;
          (company, buf) = net_buf_simple_pull_le16 buf;
          (id, buf) = net_buf_simple_pull_le16 buf;
          msg = bt_mesh_model_msg_init (NET_BUF_SIMPLE (2 + 7 + 4 + 8 * 2)) OP_MOD_SUB_LIST_VND;
          head = (\<lambda>status. net_buf_simple_add_le16 (net_buf_simple_add_le16 (net_buf_simple_add_le16
                    (net_buf_simple_add_u8 msg status) addr) company) id);
          msg = (case bt_mesh_elem_find s addr of
                   None \<Rightarrow> head STATUS_INVALID_ADDRESS
                 | Some e \<Rightarrow>
                     (case bt_mesh_model_find_vnd (ms_comp s ! e) company id of
                        None \<Rightarrow> head STATUS_INVALID_MODEL
                      | Some i \<Rightarrow> add_groups (get_model s (e, True, i)) (head STATUS_SUCCESS)))
      in respond m ctx msg buf s)"

definition mod_sub_va_add :: "model_ref \<Rightarrow> bt_mesh_msg_ctx \<Rightarrow> net_buf_simple \<Rightarrow> mesh \<Rightarrow> cfg_result" where
  "mod_sub_va_add m ctx buf s =
     (let (elem_addr, buf) = net_buf_simple_pull_le16 buf;
          label_uuid = nb_at 16 buf;
          buf = net_buf_simple_pull buf 16;
          mod_id = nb_at 4 buf;
          (found, vnd, buf) = cfg_find_model s elem_addr buf;
          (status, sub_addr, s) =
            (case found of
               Inl status \<Rightarrow> (status, BT_MESH_ADDR_UNASSIGNED, s)
             | Inr (e, mdl) \<Rightarrow>
                 let (status, sub_addr, s) = va_add label_uuid s in
                 if status \<noteq> STATUS_SUCCESS then (status, sub_addr, s)
                 else if bt_mesh_model_find_group (get_model s mdl) sub_addr \<noteq> None then (STATUS_SUCCESS, sub_addr, s)
                 else case find_index (\<lambda>a. a = BT_MESH_ADDR_UNASSIGNED) (md_groups (get_model s mdl)) of
                   None \<Rightarrow> (STATUS_INSUFF_RESOURCES, sub_addr, s)
                 | Some i \<Rightarrow> (STATUS_SUCCESS, sub_addr, upd_model mdl (\<lambda>mo. mo\<lparr>md_groups := (md_groups mo)[i := sub_addr]\<rparr>) s))
      in send_mod_sub_status m ctx status elem_addr sub_addr mod_id vnd buf s)"

definition mod_sub_va_del :: "model_ref \<Rightarrow> bt_mesh_msg_ctx \<Rightarrow> net_buf_simple \<Rightarrow> mesh \<Rightarrow> cfg_result" where
  "mod_sub_va_del m ctx buf s =
     (let (elem_addr, buf) = net_buf_simple_pull_le16 buf;
          label_uuid = nb_at 16 buf;
          buf = net_buf_simple_pull buf 16;
          mod_id = nb_at 4 buf;
          (found, vnd, buf) = cfg_find_model s elem_addr buf;
          (status, sub_addr, s) =
            (case found of
               Inl status \<Rightarrow> (status, BT_MESH_ADDR_UNASSIGNED, s)
             | Inr (e, mdl) \<Rightarrow>
                 let (sub_addr, free) = va_find s label_uuid in
                 if sub_addr = BT_MESH_ADDR_UNASSIGNED then (STATUS_CANNOT_REMOVE, sub_addr, s)
                 else case bt_mesh_model_find_group (get_model s mdl) sub_addr of
                   None \<Rightarrow> (STATUS_CANNOT_REMOVE, sub_addr, s)
                 | Some i \<Rightarrow>
                     (STATUS_SUCCESS, sub_addr, upd_model mdl (\<lambda>mo. mo\<lparr>md_groups := (md_groups mo)[i := BT_MESH_ADDR_UNASSIGNED]\<rparr>) s))
      in send_mod_sub_status m ctx status elem_addr sub_addr mod_id vnd buf s)"

definition mod_sub_va_overwrite :: "model_ref \<Rightarrow> bt_mesh_msg_ctx \<Rightarrow> net_buf_simple \<Rightarrow> mesh \<Rightarrow> cfg_result" where
  "mod_sub_va_overwrite m ctx buf s =
     (let (elem_addr, buf) = net_buf_simple_pull_le16 buf;
          label_uuid = nb_at 16 buf;
          buf = net_buf_simple_pull buf 16;
          mod_id = nb_at 4 buf;
          (found, vnd, buf) = cfg_find_model s elem_addr buf;
          (status, sub_addr, s) =
            (case found of
               Inl status \<Rightarrow> (status, BT_MESH_ADDR_UNASSIGNED, s)
             | Inr (e, mdl) \<Rightarrow>
                 let s = clear_groups mdl s in
                 if md_groups (get_model s mdl) = [] then (STATUS_INSUFF_RESOURCES, BT_MESH_ADDR_UNASSIGNED, s)
                 else
                   let (status, sub_addr, s) = va_add label_uuid s
                   in (status, sub_addr,
                       if status = STATUS_SUCCESS then upd_model mdl (\<lambda>mo. mo\<lparr>md_groups := (md_groups mo)[0 := sub_addr]\<rparr>) s else s))
      in send_mod_sub_status m ctx status elem_addr sub_addr mod_id vnd buf s)"

end
