(* ===== verification/Net_Recv.thy ===== *)
theory Net_Recv
  imports Transport
begin

text \<open>
  The receiving end of \<^verbatim>\<open>bt_mesh/src/net.c\<close>: \<^verbatim>\<open>bt_mesh_net_recv\<close>, which decodes a network PDU, hands it to
  the transport layer and relays it, the queue of messages a node sends to itself, and the
  initialisation. The handlers of the models are an argument, as in \<^verbatim>\<open>Model_Recv\<close>. For PDUs from a GATT client
  the argument \<open>client\<close> is the client whose buffer holds the PDU (the \<^verbatim>\<open>CONTAINER_OF\<close> of
  \<^verbatim>\<open>bt_mesh_proxy_addr_add\<close>). The length check that two boards compile in is a parameter.
\<close>

definition rx0 :: bt_mesh_net_rx where
  "rx0 = \<lparr>rx_sub = 0, rx_ctx = \<lparr>cx_net_idx = 0, cx_app_idx = 0, cx_addr = 0, cx_recv_ttl = 0, cx_send_rel = False, cx_send_ttl = 0\<rparr>,
     rx_seq = 0, rx_dst = 0, rx_old_iv = False, rx_new_key = False, rx_friend_cred = False, rx_ctl = False, rx_net_if = NET_IF_ADV,
     rx_local_match = False, rx_friend_match = False\<rparr>"

text \<open>After decoding: the handover to the transport layer and the relay.\<close>

definition net_recv_decoded :: "op_handler \<Rightarrow> nat \<Rightarrow> bt_mesh_net_if \<Rightarrow> bt_mesh_net_rx \<Rightarrow> net_buf_simple \<Rightarrow> mesh \<Rightarrow> mesh" where
  "net_recv_decoded h client net_if rx buf s =
     (let state = net_buf_simple_save buf;
          s = (if net_if = NET_IF_PROXY then bt_mesh_proxy_addr_add client (cx_addr (rx_ctx rx)) s else s);
          rx = rx\<lparr>rx_local_match := (bt_mesh_fixed_group_match s (rx_dst rx) \<or> bt_mesh_elem_find s (rx_dst rx) \<noteq> None)\<rparr>;
          (err, rx, buf, s) = bt_mesh_trans_recv h buf rx s
      in if \<not> BT_MESH_ADDR_IS_UNICAST (rx_dst rx) \<or> \<not> rx_local_match rx \<and> \<not> rx_friend_match rx
         then bt_mesh_net_relay (net_buf_simple_restore buf state) rx s else s)"

definition bt_mesh_net_recv :: "op_handler \<Rightarrow> bool \<Rightarrow> net_buf_simple \<Rightarrow> nat \<Rightarrow> bt_mesh_net_if \<Rightarrow> mesh \<Rightarrow> mesh" where
  "bt_mesh_net_recv h len_check data client net_if s =
     (if len_check \<and> nb_len data > 29 then s
      else if \<not> bt_mesh_is_provisioned s then s
      else
        let (err, rx, buf, s) = bt_mesh_net_decode data net_if rx0 (NET_BUF_SIMPLE 29) s
        in if err \<noteq> None then s else net_recv_decoded h client net_if rx buf s)"

text \<open>
  The loop over the local queue. A handler can send to its own node again and so extend the queue,
  so the loop need not end; then the value is \<open>None\<close>.
\<close>

partial_function (option) bt_mesh_net_local :: "op_handler \<Rightarrow> bool \<Rightarrow> mesh \<Rightarrow> mesh option" where
  "bt_mesh_net_local h len_check s =
     (case bm_local_queue (ms_net s) of
        [] \<Rightarrow> Some s
      | b # q \<Rightarrow>
          bt_mesh_net_local h len_check
            (net_buf_unref b (bt_mesh_net_recv h len_check (buf_b s b) 0 NET_IF_LOCAL (upd_net (\<lambda>n. n\<lparr>bm_local_queue := q\<rparr>) s))))"

definition bt_mesh_net_init :: "mesh \<Rightarrow> mesh" where
  "bt_mesh_net_init s = k_delayed_work_init W_Local (k_delayed_work_init W_Ivu_Complete s)"

end
