(* ===== verification/Proxy_In.thy ===== *)
theory Proxy_In
  imports Net_Recv Beacon
begin

text \<open>
  Receiving from GATT clients, \<^verbatim>\<open>bt_mesh/src/proxy.c\<close>: the reassembly of Proxy PDUs, their dispatch to the
  network layer, the beacons and provisioning, and the proxy configuration messages; and the
  advertising scanner of \<^verbatim>\<open>adv.c\<close>. The provisioning bearers \<^verbatim>\<open>bt_mesh_pb_gatt_recv\<close> and
  \<^verbatim>\<open>bt_mesh_pb_adv_recv\<close> are arguments, which theory \<^verbatim>\<open>Prov\<close> provides. \<^verbatim>\<open>proxy_cfg\<close> decodes into a structure on the stack that the code does not
  initialise, so its contents are an argument. The ultra provisioning extension is compiled out.
\<close>

section \<open>Proxy configuration\<close>

definition CFG_FILTER_SET :: u8 where "CFG_FILTER_SET = 0x00"
definition CFG_FILTER_ADD :: u8 where "CFG_FILTER_ADD = 0x01"
definition CFG_FILTER_REMOVE :: u8 where "CFG_FILTER_REMOVE = 0x02"
definition CFG_FILTER_STATUS :: u8 where "CFG_FILTER_STATUS = 0x03"
definition PDU_TYPE :: "bytes \<Rightarrow> u8" where "PDU_TYPE data = byte_at data 0 AND 0x3f"
definition PDU_SAR :: "bytes \<Rightarrow> u8" where "PDU_SAR data = drop_bit 6 (byte_at data 0)"

definition send_filter_status :: "nat \<Rightarrow> bt_mesh_net_rx \<Rightarrow> net_buf_simple \<Rightarrow> mesh \<Rightarrow> mesh" where
  "send_filter_status c rx buf s =
     (let client = get_client s c;
          tx = \<lparr>tx_sub = rx_sub rx, tx_ctx = (rx_ctx rx)\<lparr>cx_addr := BT_MESH_ADDR_UNASSIGNED\<rparr>, tx_src = bt_mesh_primary_addr s,
                tx_xmit = 0, tx_friend_cred = False, tx_aszmic = 0, tx_aid = 0\<rparr>;
          buf = net_buf_simple_init buf 10;
          buf = net_buf_simple_add_u8 buf CFG_FILTER_STATUS;
          buf = net_buf_simple_add_u8 buf (if cl_filter_type client = FT_WHITELIST then 0x00 else 0x01);
          filter_size = length (filter (\<lambda>a. a \<noteq> BT_MESH_ADDR_UNASSIGNED) (cl_filter client));
          buf = net_buf_simple_add_be16 buf (of_nat filter_size);
          (err, tx, buf, s) = bt_mesh_net_encode tx buf True s
      in if err \<noteq> None then s
         else snd (proxy_segment_and_send (the (cl_conn client)) BT_MESH_PROXY_CONFIG buf s))"

text \<open>The loops over the addresses of an add or remove message.\<close>

function filter_addrs :: "(bt_mesh_proxy_client \<Rightarrow> u16 \<Rightarrow> bt_mesh_proxy_client) \<Rightarrow> net_buf_simple \<Rightarrow> bt_mesh_proxy_client
    \<Rightarrow> bt_mesh_proxy_client \<times> net_buf_simple" where
  "filter_addrs f buf client =
     (if nb_len buf < 2 then (client, buf)
      else let (addr, buf) = net_buf_simple_pull_be16 buf in filter_addrs f buf (f client addr))"
  by pat_completeness auto
termination
  by (relation "measure (\<lambda>(f, buf, client). nb_len buf)")
    (auto simp: net_buf_simple_pull_be16_def net_buf_simple_pull_def intro: u16_sub_less)

declare filter_addrs.simps [simp del]

definition proxy_cfg :: "bool \<Rightarrow> bt_mesh_net_rx \<Rightarrow> nat \<Rightarrow> mesh \<Rightarrow> mesh" where
  "proxy_cfg len_check rx c s =
     (if len_check \<and> nb_len (cl_buf (get_client s c)) > 29 then s
      else
        let (err, rx, buf, s) = bt_mesh_net_decode (cl_buf (get_client s c)) NET_IF_PROXY_CFG rx (NET_BUF_SIMPLE 29) s
        in if err \<noteq> None then s
        else
          let buf = net_buf_simple_pull buf BT_MESH_NET_HDR_LEN in
          if nb_len buf < 1 then s
          else
            let (opcode, buf) = net_buf_simple_pull_u8 buf in
            if opcode = CFG_FILTER_SET then
              let (err, client, buf) = filter_set (get_client s c) buf
              in send_filter_status c rx buf (upd_client c (\<lambda>_. client) s)
            else if opcode = CFG_FILTER_ADD then
              let (client, buf) = filter_addrs filter_add buf (get_client s c)
              in send_filter_status c rx buf (upd_client c (\<lambda>_. client) s)
            else if opcode = CFG_FILTER_REMOVE then
              let (client, buf) = filter_addrs filter_remove buf (get_client s c)
              in send_filter_status c rx buf (upd_client c (\<lambda>_. client) s)
            else s)"

section \<open>Proxy PDUs\<close>

type_synonym gatt_recv = "nat \<Rightarrow> net_buf_simple \<Rightarrow> mesh \<Rightarrow> mesh"
type_synonym adv_recv = "net_buf_simple \<Rightarrow> mesh \<Rightarrow> mesh"

definition proxy_complete_pdu :: "gatt_recv \<Rightarrow> op_handler \<Rightarrow> bool \<Rightarrow> bt_mesh_net_rx \<Rightarrow> nat \<Rightarrow> mesh \<Rightarrow> mesh" where
  "proxy_complete_pdu pb_gatt_recv h len_check rx c s =
     (let client = get_client s c; type = cl_msg_type client;
          s = (if type = BT_MESH_PROXY_NET_PDU then bt_mesh_net_recv h len_check (cl_buf client) c NET_IF_PROXY s
               else if type = BT_MESH_PROXY_BEACON then bt_mesh_beacon_recv (cl_buf client) s
               else if type = BT_MESH_PROXY_CONFIG then proxy_cfg len_check rx c s
               else if type = BT_MESH_PROXY_PROV then pb_gatt_recv (the (cl_conn client)) (cl_buf client) s
               else s)
      in upd_client c (\<lambda>cl. cl\<lparr>cl_buf := net_buf_simple_init (cl_buf cl) 0\<rparr>) s)"

definition client_append :: "nat \<Rightarrow> bytes \<Rightarrow> mesh \<Rightarrow> mesh" where
  "client_append c data s = upd_client c (\<lambda>cl. cl\<lparr>cl_buf := net_buf_simple_add_mem (cl_buf cl) (tl data)\<rparr>) s"

definition proxy_recv :: "gatt_recv \<Rightarrow> op_handler \<Rightarrow> bool \<Rightarrow> bt_mesh_net_rx \<Rightarrow> nat \<Rightarrow> bool \<Rightarrow> bytes \<Rightarrow> mesh \<Rightarrow> (errno + nat) \<times> mesh" where
  "proxy_recv pb_gatt_recv h len_check rx conn attr_is_prov data s =
     (case find_client s (Some conn) of
        None \<Rightarrow> (Inl ENOTCONN, s)
      | Some c \<Rightarrow>
          let client = get_client s c; sar = PDU_SAR data in
          if length data < 1 then (Inl EINVAL, s)
          else if attr_is_prov \<noteq> (PDU_TYPE data = BT_MESH_PROXY_PROV) then (Inl EINVAL, s)
          else if length data - 1 > net_buf_simple_tailroom (cl_buf client) then (Inl EINVAL, s)
          else if sar = SAR_COMPLETE then
            (if nb_len (cl_buf client) \<noteq> 0 then (Inl EINVAL, s)
             else
               let s = upd_client c (\<lambda>cl. cl\<lparr>cl_msg_type := PDU_TYPE data\<rparr>) s;
                   s = client_append c data s
               in (Inr (length data), proxy_complete_pdu pb_gatt_recv h len_check rx c s))
          else if sar = SAR_FIRST then
            (if nb_len (cl_buf client) \<noteq> 0 then (Inl EINVAL, s)
             else
               let s = upd_client c (\<lambda>cl. cl\<lparr>cl_msg_type := PDU_TYPE data\<rparr>) s
               in (Inr (length data), client_append c data s))
          else if sar = SAR_CONT then
            (if nb_len (cl_buf client) = 0 then (Inl EINVAL, s)
             else if cl_msg_type client \<noteq> PDU_TYPE data then (Inl EINVAL, s)
             else (Inr (length data), client_append c data s))
          else
            (if nb_len (cl_buf client) = 0 then (Inl EINVAL, s)
             else if cl_msg_type client \<noteq> PDU_TYPE data then (Inl EINVAL, s)
             else (Inr (length data), proxy_complete_pdu pb_gatt_recv h len_check rx c (client_append c data s))))"

definition bt_mesh_proxy_get_buf :: "mesh \<Rightarrow> net_buf_simple \<times> mesh" where
  "bt_mesh_proxy_get_buf s =
     (let s = upd_client 0 (\<lambda>cl. cl\<lparr>cl_buf := net_buf_simple_init (cl_buf cl) 0\<rparr>) s in (cl_buf (get_client s 0), s))"

section \<open>The scanner\<close>

definition BT_LE_ADV_IND :: u8 where "BT_LE_ADV_IND = 0x00"
definition BT_LE_ADV_NONCONN_IND :: u8 where "BT_LE_ADV_NONCONN_IND = 0x03"
definition BT_MESH_DATA_MESH_PROV :: u8 where "BT_MESH_DATA_MESH_PROV = 0x29"
definition BT_MESH_DATA_MESH_MESSAGE :: u8 where "BT_MESH_DATA_MESH_MESSAGE = 0x2a"
definition BT_MESH_DATA_MESH_BEACON :: u8 where "BT_MESH_DATA_MESH_BEACON = 0x2b"

text \<open>One AD structure, with the buffer cut to its data.\<close>

definition scan_ad :: "adv_recv \<Rightarrow> op_handler \<Rightarrow> bool \<Rightarrow> u8 \<Rightarrow> u8 \<Rightarrow> net_buf_simple \<Rightarrow> mesh \<Rightarrow> mesh" where
  "scan_ad pb_adv_recv h len_check adv_type type buf s =
     (if adv_type \<noteq> BT_LE_ADV_NONCONN_IND then s
      else if type = BT_MESH_DATA_MESH_MESSAGE then bt_mesh_net_recv h len_check buf 0 NET_IF_ADV s
      else if type = BT_MESH_DATA_MESH_PROV then pb_adv_recv buf s
      else if type = BT_MESH_DATA_MESH_BEACON then bt_mesh_beacon_recv buf s
      else s)"

function scan_loop :: "adv_recv \<Rightarrow> op_handler \<Rightarrow> bool \<Rightarrow> u8 \<Rightarrow> net_buf_simple \<Rightarrow> mesh \<Rightarrow> mesh" where
  "scan_loop pb_adv_recv h len_check adv_type buf s =
     (if nb_len buf \<le> 1 then s
      else
        let (len, buf) = net_buf_simple_pull_u8 buf in
        if len = 0 then s
        else if unat len > nb_len buf \<or> nb_len buf < 1 then s
        else
          let state = net_buf_simple_save buf;
              (type, ad) = net_buf_simple_pull_u8 buf;
              ad = ad\<lparr>nb_len := unat len - 1\<rparr>;
              s = scan_ad pb_adv_recv h len_check adv_type type ad s;
              buf = net_buf_simple_restore ad state
          in scan_loop pb_adv_recv h len_check adv_type (net_buf_simple_pull buf (unat len)) s)"
  by pat_completeness auto
termination
proof (relation "measure (\<lambda>(r, h, len_check, adv_type, buf, s). nb_len buf)", goal_cases)
  case (2 r h len_check adv_type buf s x len b1 state y type ad ad1 s1 b2)
  then have "nb_len b2 = u16_sub (nb_len buf) 1" "unat len \<le> nb_len b2" "1 < nb_len buf"
    by (auto simp: net_buf_simple_pull_u8_def net_buf_simple_pull_def net_buf_simple_save_def net_buf_simple_restore_def)
  moreover have "unat len < 65536" using unat_u8_less [of len] by (rule less_trans) simp
  ultimately show ?case
    using u16_sub_le [of "unat len" "nb_len b2"] u16_sub_less [of 1 "nb_len buf"] by (simp add: net_buf_simple_pull_def)
qed simp

declare scan_loop.simps [simp del]

definition bt_mesh_scan_cb :: "adv_recv \<Rightarrow> op_handler \<Rightarrow> bool \<Rightarrow> u8 \<Rightarrow> net_buf_simple \<Rightarrow> mesh \<Rightarrow> mesh" where
  "bt_mesh_scan_cb pb_adv_recv h len_check adv_type buf s =
     (if adv_type \<noteq> BT_LE_ADV_NONCONN_IND \<and> adv_type \<noteq> BT_LE_ADV_IND then s
      else scan_loop pb_adv_recv h len_check adv_type buf s)"

end
