(* ===== verification/Cfg_Srv.thy ===== *)
theory Cfg_Srv
  imports Cfg_Model Proxy_In
begin

text \<open>
  The Configuration Server, third part: composition data, the feature states, node identity, heartbeat
  publication and subscription, node reset, the table of operations and the server's own state.
  The reset flag of the vendor layer (\<^verbatim>\<open>genie_reset_get_flag\<close>), the function that resets the stack
  (\<^verbatim>\<open>bt_mesh_reset\<close> of \<^verbatim>\<open>main.c\<close>) and the stored subscription list are parameters of the operation table.
\<close>

definition OP_DEV_COMP_DATA_STATUS :: u32 where "OP_DEV_COMP_DATA_STATUS = 0x02"
definition OP_HEARTBEAT_PUB_STATUS :: u32 where "OP_HEARTBEAT_PUB_STATUS = 0x06"
definition OP_BEACON_STATUS :: u32 where "OP_BEACON_STATUS = 0x800b"
definition OP_DEFAULT_TTL_STATUS :: u32 where "OP_DEFAULT_TTL_STATUS = 0x800e"
definition OP_FRIEND_STATUS :: u32 where "OP_FRIEND_STATUS = 0x8011"
definition OP_GATT_PROXY_STATUS :: u32 where "OP_GATT_PROXY_STATUS = 0x8014"
definition OP_NET_TRANSMIT_STATUS :: u32 where "OP_NET_TRANSMIT_STATUS = 0x8025"
definition OP_RELAY_STATUS :: u32 where "OP_RELAY_STATUS = 0x8028"
definition OP_LPN_TIMEOUT_STATUS :: u32 where "OP_LPN_TIMEOUT_STATUS = 0x802e"
definition OP_HEARTBEAT_SUB_STATUS :: u32 where "OP_HEARTBEAT_SUB_STATUS = 0x803c"
definition OP_NODE_IDENTITY_STATUS :: u32 where "OP_NODE_IDENTITY_STATUS = 0x8048"
definition OP_NODE_RESET_STATUS :: u32 where "OP_NODE_RESET_STATUS = 0x804a"
definition BT_MESH_FEAT_RELAY :: u16 where "BT_MESH_FEAT_RELAY = 1"
definition BT_MESH_FEAT_PROXY :: u16 where "BT_MESH_FEAT_PROXY = 2"
definition BT_MESH_FEAT_FRIEND :: u16 where "BT_MESH_FEAT_FRIEND = 4"
definition CONFIG_BT_MESH_CRPL :: u16 where "CONFIG_BT_MESH_CRPL = 5"

text \<open>The configuration before the server is initialised, and \<^verbatim>\<open>model->user_data\<close>.\<close>

definition cfg_srv :: bt_mesh_cfg_srv where
  "cfg_srv = \<lparr>cf_model = (0, False, 0), cf_net_transmit = 5 OR push_bit 3 1, cf_relay = 0x01, cf_relay_retransmit = 5 OR push_bit 3 1,
     cf_beacon = 0x01, cf_gatt_proxy = 0x01, cf_frnd = 0x02, cf_default_ttl = 7, cf_hb_pub = hb_pub0, cf_hb_sub = hb_sub0\<rparr>"

definition user_data :: "mesh \<Rightarrow> bt_mesh_cfg_srv" where
  "user_data s = (case ms_conf s of Some cfg \<Rightarrow> cfg | None \<Rightarrow> cfg_srv)"

definition set_conf :: "(bt_mesh_cfg_srv \<Rightarrow> bt_mesh_cfg_srv) \<Rightarrow> mesh \<Rightarrow> mesh" where
  "set_conf f s = s\<lparr>ms_conf := Some (f (user_data s))\<rparr>"

section \<open>Composition data\<close>

definition comp_add_elem :: "net_buf_simple \<Rightarrow> bt_mesh_elem \<Rightarrow> errno option \<times> net_buf_simple" where
  "comp_add_elem buf elem =
     (if net_buf_simple_tailroom buf < 4 + length (el_models elem) * 2 + length (el_vnd_models elem) * 2 then (Some E2BIG, buf)
      else
        let buf = net_buf_simple_add_le16 buf (el_loc elem);
            buf = net_buf_simple_add_u8 buf (of_nat (length (el_models elem)));
            buf = net_buf_simple_add_u8 buf (of_nat (length (el_vnd_models elem)));
            buf = fold (\<lambda>mdl buf. net_buf_simple_add_le16 buf (md_id mdl)) (el_models elem) buf;
            buf = fold (\<lambda>mdl buf. net_buf_simple_add_le16 (net_buf_simple_add_le16 buf (md_company mdl)) (md_id mdl)) (el_vnd_models elem) buf
        in (None, buf))"

fun comp_add_elems :: "bt_mesh_elem list \<Rightarrow> net_buf_simple \<Rightarrow> errno option \<times> net_buf_simple" where
  "comp_add_elems [] buf = (None, buf)"
| "comp_add_elems (elem # elems) buf =
     (case comp_add_elem buf elem of
        (Some err, buf) \<Rightarrow> (Some err, buf)
      | (None, buf) \<Rightarrow> comp_add_elems elems buf)"

definition comp_get_page_0 :: "mesh \<Rightarrow> net_buf_simple \<Rightarrow> errno option \<times> net_buf_simple" where
  "comp_get_page_0 s buf =
     (let (cid, pid, vid) = ms_comp_ids s;
          feat = BT_MESH_FEAT_RELAY OR BT_MESH_FEAT_PROXY;
          buf = net_buf_simple_add_le16 buf cid;
          buf = net_buf_simple_add_le16 buf pid;
          buf = net_buf_simple_add_le16 buf vid;
          buf = net_buf_simple_add_le16 buf CONFIG_BT_MESH_CRPL;
          buf = net_buf_simple_add_le16 buf feat
      in comp_add_elems (ms_comp s) buf)"

definition dev_comp_data_get :: "model_ref \<Rightarrow> bt_mesh_msg_ctx \<Rightarrow> net_buf_simple \<Rightarrow> mesh \<Rightarrow> cfg_result" where
  "dev_comp_data_get m ctx buf s =
     (let (page, buf) = net_buf_simple_pull_u8 buf;
          sdu = bt_mesh_model_msg_init (NET_BUF_SIMPLE BT_MESH_TX_SDU_MAX) OP_DEV_COMP_DATA_STATUS;
          sdu = net_buf_simple_add_u8 sdu 0;
          (err, sdu) = comp_get_page_0 s sdu
      in if err \<noteq> None then (ctx, buf, s) else respond m ctx sdu buf s)"

section \<open>Heartbeats\<close>

definition hb_send :: "model_ref \<Rightarrow> mesh \<Rightarrow> mesh" where
  "hb_send m s =
     (let pub = cf_hb_pub (user_data s);
          ctx = \<lparr>cx_net_idx = hp_net_idx pub, cx_app_idx = BT_MESH_KEY_UNUSED, cx_addr = hp_dst pub, cx_recv_ttl = 0,
                 cx_send_rel = False, cx_send_ttl = hp_ttl pub\<rparr>;
          tx = \<lparr>tx_sub = the (bt_mesh_subnet_get s (hp_net_idx pub)), tx_ctx = ctx, tx_src = el_addr (model_elem s m),
                tx_xmit = bt_mesh_net_transmit_get s, tx_friend_cred = False, tx_aszmic = 0, tx_aid = 0\<rparr>;
          feat = (if bt_mesh_relay_get s = 0x01 then BT_MESH_FEAT_RELAY else 0);
          feat = (if bt_mesh_gatt_proxy_get s = 0x01 then feat OR BT_MESH_FEAT_PROXY else feat);
          feat = (if bt_mesh_friend_get s = 0x01 then feat OR BT_MESH_FEAT_FRIEND else feat);
          (err, tx, s) = bt_mesh_ctl_send tx TRANS_CTL_OP_HEARTBEAT (hp_ttl pub # sys_put_be16 feat) Cb_None s
      in s)"

text \<open>The number of significant bits, \<^verbatim>\<open>32 - __builtin_clz(val)\<close>.\<close>

fun bits :: "nat \<Rightarrow> nat" where
  "bits n = (if n = 0 then 0 else Suc (bits (n div 2)))"

declare bits.simps [simp del]

definition hb_log :: "u16 \<Rightarrow> u8" where
  "hb_log val = (if val = 0 then 0x00 else if val = 0xffff then 0xff else of_nat (bits (unat val)))"

definition hb_pub_count_log :: "u16 \<Rightarrow> u8" where
  "hb_pub_count_log val =
     (if val = 0 then 0x00 else if val = 0x01 then 0x01 else if val = 0xffff then 0xff else of_nat (bits (unat (val - 1)) + 1))"

definition hb_pwr2 :: "u8 \<Rightarrow> u8 \<Rightarrow> u16" where
  "hb_pwr2 val sub = (if val = 0 then 0x0000 else if val = 0xff \<or> val = 0x11 then 0xffff else push_bit (unat val - unat sub) 1)"

definition hb_pub_send_status :: "model_ref \<Rightarrow> bt_mesh_msg_ctx \<Rightarrow> u8 \<Rightarrow> net_buf_simple \<Rightarrow> mesh \<Rightarrow> cfg_result" where
  "hb_pub_send_status m ctx status buf s =
     (let pub = cf_hb_pub (user_data s);
          msg = bt_mesh_model_msg_init (NET_BUF_SIMPLE (1 + 10 + 4)) OP_HEARTBEAT_PUB_STATUS;
          msg = net_buf_simple_add_u8 msg status;
          msg = net_buf_simple_add_le16 msg (hp_dst pub);
          msg = net_buf_simple_add_u8 msg (hb_pub_count_log (hp_count pub));
          msg = net_buf_simple_add_u8 msg (hp_period pub);
          msg = net_buf_simple_add_u8 msg (hp_ttl pub);
          msg = net_buf_simple_add_le16 msg (hp_feat pub);
          msg = net_buf_simple_add_le16 msg (hp_net_idx pub)
      in respond m ctx msg buf s)"

definition heartbeat_pub_get :: "model_ref \<Rightarrow> bt_mesh_msg_ctx \<Rightarrow> net_buf_simple \<Rightarrow> mesh \<Rightarrow> cfg_result" where
  "heartbeat_pub_get m ctx buf s = hb_pub_send_status m ctx STATUS_SUCCESS buf s"

definition genie_heartbeat_set :: "mesh_hb_para_t \<Rightarrow> mesh \<Rightarrow> u8 \<times> mesh" where
  "genie_heartbeat_set para s =
     (if BT_MESH_ADDR_IS_VIRTUAL (hb_dst para) then (STATUS_INVALID_ADDRESS, s)
      else if hb_count para > 0x11 \<and> hb_count para \<noteq> 0xff then (STATUS_CANNOT_SET, s)
      else if hb_period para > 0x10 then (STATUS_CANNOT_SET, s)
      else if hb_ttl para > BT_MESH_TTL_MAX \<and> hb_ttl para \<noteq> BT_MESH_TTL_DEFAULT then (STATUS_CANNOT_SET, s)
      else if hb_net_idx para > 0xfff then (STATUS_CANNOT_SET, s)
      else if bt_mesh_subnet_get s (hb_net_idx para) = None then (STATUS_INVALID_NETKEY, s)
      else
        let s = set_conf (\<lambda>cfg. cfg\<lparr>cf_hb_pub := (cf_hb_pub cfg)\<lparr>hp_dst := hb_dst para, hp_period := hb_period para,
                  hp_feat := hb_feat para, hp_net_idx := hb_net_idx para\<rparr>\<rparr>) s
        in (STATUS_SUCCESS,
            if hb_dst para = BT_MESH_ADDR_UNASSIGNED then hb_pub_disable s
            else
              let s = set_conf (\<lambda>cfg. cfg\<lparr>cf_hb_pub := (cf_hb_pub cfg)\<lparr>hp_count := hb_pwr2 (hb_count para) 1, hp_ttl := hb_ttl para\<rparr>\<rparr>) s
              in if hb_period para \<noteq> 0 \<and> hb_count para \<noteq> 0 then k_work_submit W_Hb_Pub s else k_delayed_work_cancel W_Hb_Pub s))"

definition heartbeat_pub_set :: "model_ref \<Rightarrow> bt_mesh_msg_ctx \<Rightarrow> net_buf_simple \<Rightarrow> mesh \<Rightarrow> cfg_result" where
  "heartbeat_pub_set m ctx buf s =
     (let para = \<lparr>hb_dst = sys_get_le16 [nb_byte buf 0, nb_byte buf 1], hb_count = nb_byte buf 2, hb_period = nb_byte buf 3,
                  hb_ttl = nb_byte buf 4, hb_feat = sys_get_le16 [nb_byte buf 5, nb_byte buf 6],
                  hb_net_idx = sys_get_le16 [nb_byte buf 7, nb_byte buf 8]\<rparr>;
          (status, s) = genie_heartbeat_set para s;
          (ctx, buf, s) = hb_pub_send_status m ctx status buf s
      in (ctx, buf, if hb_count para = 0xff then log_ev (Ev_Genie (GENIE_EVT_SDK_HB_SET para)) s else s))"

definition hb_sub_send_status :: "model_ref \<Rightarrow> bt_mesh_msg_ctx \<Rightarrow> u8 \<Rightarrow> net_buf_simple \<Rightarrow> mesh \<Rightarrow> cfg_result" where
  "hb_sub_send_status m ctx status buf s =
     (let sub = cf_hb_sub (user_data s); uptime = k_uptime_get s;
          period = (if uptime > hs_expiry sub then 0 else of_int ((hs_expiry sub - uptime) div 1000)) :: u16;
          msg = bt_mesh_model_msg_init (NET_BUF_SIMPLE (2 + 9 + 4)) OP_HEARTBEAT_SUB_STATUS;
          msg = net_buf_simple_add_u8 msg status;
          msg = net_buf_simple_add_le16 msg (hs_src sub);
          msg = net_buf_simple_add_le16 msg (hs_dst sub);
          msg = net_buf_simple_add_u8 msg (hb_log period);
          msg = net_buf_simple_add_u8 msg (hb_log (hs_count sub));
          msg = net_buf_simple_add_u8 msg (hs_min_hops sub);
          msg = net_buf_simple_add_u8 msg (hs_max_hops sub)
      in respond m ctx msg buf s)"

definition heartbeat_sub_get :: "model_ref \<Rightarrow> bt_mesh_msg_ctx \<Rightarrow> net_buf_simple \<Rightarrow> mesh \<Rightarrow> cfg_result" where
  "heartbeat_sub_get m ctx buf s = hb_sub_send_status m ctx STATUS_SUCCESS buf s"

definition heartbeat_sub_set :: "model_ref \<Rightarrow> bt_mesh_msg_ctx \<Rightarrow> net_buf_simple \<Rightarrow> mesh \<Rightarrow> cfg_result" where
  "heartbeat_sub_set m ctx buf s =
     (let (sub_src, buf) = net_buf_simple_pull_le16 buf;
          (sub_dst, buf) = net_buf_simple_pull_le16 buf;
          (sub_period, buf) = net_buf_simple_pull_u8 buf
      in if sub_src \<noteq> BT_MESH_ADDR_UNASSIGNED \<and> \<not> BT_MESH_ADDR_IS_UNICAST sub_src then (ctx, buf, s)
      else if BT_MESH_ADDR_IS_VIRTUAL sub_dst \<or> BT_MESH_ADDR_IS_RFU sub_dst \<or>
         BT_MESH_ADDR_IS_UNICAST sub_dst \<and> sub_dst \<noteq> bt_mesh_primary_addr s then (ctx, buf, s)
      else if sub_period > 0x11 then (ctx, buf, s)
      else
        let sub = cf_hb_sub (user_data s);
            (sub, period_ms) =
              (if sub_src = BT_MESH_ADDR_UNASSIGNED \<or> sub_dst = BT_MESH_ADDR_UNASSIGNED \<or> sub_period = 0x00
               then (if hs_src sub \<noteq> sub_src \<or> hs_dst sub \<noteq> sub_dst
                     then sub\<lparr>hs_src := BT_MESH_ADDR_UNASSIGNED, hs_dst := BT_MESH_ADDR_UNASSIGNED\<rparr> else sub, 0)
               else (sub\<lparr>hs_src := sub_src, hs_dst := sub_dst, hs_min_hops := BT_MESH_TTL_MAX, hs_max_hops := 0, hs_count := 0\<rparr>,
                     int (unat (hb_pwr2 sub_period 1)) * 1000));
            s = bt_mesh_set_hb_sub_dst (hs_dst sub) s;
            s = set_conf (\<lambda>cfg. cfg\<lparr>cf_hb_sub := sub\<lparr>hs_expiry := (if period_ms \<noteq> 0 then k_uptime_get s + period_ms else 0)\<rparr>\<rparr>) s
        in hb_sub_send_status m ctx STATUS_SUCCESS buf s)"

text \<open>\<^verbatim>\<open>period_ms\<close> has 16 bits.\<close>

definition hb_publish :: "mesh \<Rightarrow> mesh" where
  "hb_publish s =
     (let cfg = user_data s in
      if bt_mesh_subnet_get s (hp_net_idx (cf_hb_pub cfg)) = None
      then set_conf (\<lambda>cfg. cfg\<lparr>cf_hb_pub := (cf_hb_pub cfg)\<lparr>hp_dst := BT_MESH_ADDR_UNASSIGNED\<rparr>\<rparr>) s
      else
        let s = hb_send (cf_model cfg) s in
        if hp_count (cf_hb_pub (user_data s)) = 0 then s
        else
          let s = (if hp_count (cf_hb_pub (user_data s)) \<noteq> 0xffff
                   then set_conf (\<lambda>cfg. cfg\<lparr>cf_hb_pub := (cf_hb_pub cfg)\<lparr>hp_count := hp_count (cf_hb_pub cfg) - 1\<rparr>\<rparr>) s else s);
              period_ms = of_nat (unat (hb_pwr2 (hp_period (cf_hb_pub (user_data s))) 1) * 1000) :: u16
          in if period_ms \<noteq> 0 then k_delayed_work_submit W_Hb_Pub (unat period_ms) s else s)"

section \<open>Feature states\<close>

text \<open>The answers that consist of one or two bytes.\<close>

definition status_msg :: "u32 \<Rightarrow> bytes \<Rightarrow> net_buf_simple" where
  "status_msg op bs = fold (\<lambda>b msg. net_buf_simple_add_u8 msg b) bs (bt_mesh_model_msg_init (NET_BUF_SIMPLE (2 + length bs + 4)) op)"

definition beacon_get :: "model_ref \<Rightarrow> bt_mesh_msg_ctx \<Rightarrow> net_buf_simple \<Rightarrow> mesh \<Rightarrow> cfg_result" where
  "beacon_get m ctx buf s = respond m ctx (status_msg OP_BEACON_STATUS [bt_mesh_beacon_get s]) buf s"

definition beacon_set :: "model_ref \<Rightarrow> bt_mesh_msg_ctx \<Rightarrow> net_buf_simple \<Rightarrow> mesh \<Rightarrow> cfg_result" where
  "beacon_set m ctx buf s =
     (let v = nb_byte buf 0 in
      if v = 0x00 \<or> v = 0x01 then
        let s = (if v \<noteq> cf_beacon (user_data s)
                 then let s = set_conf (\<lambda>cfg. cfg\<lparr>cf_beacon := v\<rparr>) s
                      in if v \<noteq> 0 then bt_mesh_beacon_enable s else bt_mesh_beacon_disable s
                 else s)
        in respond m ctx (status_msg OP_BEACON_STATUS [bt_mesh_beacon_get s]) buf s
      else (ctx, buf, s))"

definition default_ttl_get :: "model_ref \<Rightarrow> bt_mesh_msg_ctx \<Rightarrow> net_buf_simple \<Rightarrow> mesh \<Rightarrow> cfg_result" where
  "default_ttl_get m ctx buf s = respond m ctx (status_msg OP_DEFAULT_TTL_STATUS [bt_mesh_default_ttl_get s]) buf s"

definition default_ttl_set :: "model_ref \<Rightarrow> bt_mesh_msg_ctx \<Rightarrow> net_buf_simple \<Rightarrow> mesh \<Rightarrow> cfg_result" where
  "default_ttl_set m ctx buf s =
     (let v = nb_byte buf 0 in
      if v \<le> BT_MESH_TTL_MAX \<and> v \<noteq> 0x01 then
        let s = set_conf (\<lambda>cfg. cfg\<lparr>cf_default_ttl := v\<rparr>) s
        in respond m ctx (status_msg OP_DEFAULT_TTL_STATUS [bt_mesh_default_ttl_get s]) buf s
      else (ctx, buf, s))"

definition send_gatt_proxy_status :: "model_ref \<Rightarrow> bt_mesh_msg_ctx \<Rightarrow> net_buf_simple \<Rightarrow> mesh \<Rightarrow> cfg_result" where
  "send_gatt_proxy_status m ctx buf s = respond m ctx (status_msg OP_GATT_PROXY_STATUS [bt_mesh_gatt_proxy_get s]) buf s"

definition gatt_proxy_get :: "model_ref \<Rightarrow> bt_mesh_msg_ctx \<Rightarrow> net_buf_simple \<Rightarrow> mesh \<Rightarrow> cfg_result" where
  "gatt_proxy_get m ctx buf s = send_gatt_proxy_status m ctx buf s"

definition gatt_proxy_set :: "model_ref \<Rightarrow> bt_mesh_msg_ctx \<Rightarrow> net_buf_simple \<Rightarrow> mesh \<Rightarrow> cfg_result" where
  "gatt_proxy_set m ctx buf s =
     (let v = nb_byte buf 0 in
      if v \<noteq> 0x00 \<and> v \<noteq> 0x01 then (ctx, buf, s)
      else if bt_mesh_gatt_proxy_get s = 0x02 \<or> cf_gatt_proxy (user_data s) = v then send_gatt_proxy_status m ctx buf s
      else
        let s = set_conf (\<lambda>cfg. cfg\<lparr>cf_gatt_proxy := v\<rparr>) s;
            s = (if v = 0x00 then
                   bt_mesh_proxy_gatt_disconnect
                     (fold (\<lambda>i s. if sn_net_idx (get_sub s i) \<noteq> BT_MESH_KEY_UNUSED then bt_mesh_proxy_identity_stop i s else s)
                        [0..<length (bm_sub (ms_net s))] s)
                 else s);
            s = bt_mesh_adv_update s;
            pub = cf_hb_pub (user_data s);
            s = (if hp_feat pub AND BT_MESH_FEAT_PROXY \<noteq> 0 \<and> bt_mesh_subnet_get s (hp_net_idx pub) \<noteq> None then hb_send m s else s)
        in send_gatt_proxy_status m ctx buf s)"

definition net_transmit_get :: "model_ref \<Rightarrow> bt_mesh_msg_ctx \<Rightarrow> net_buf_simple \<Rightarrow> mesh \<Rightarrow> cfg_result" where
  "net_transmit_get m ctx buf s = respond m ctx (status_msg OP_NET_TRANSMIT_STATUS [bt_mesh_net_transmit_get s]) buf s"

definition net_transmit_set :: "model_ref \<Rightarrow> bt_mesh_msg_ctx \<Rightarrow> net_buf_simple \<Rightarrow> mesh \<Rightarrow> cfg_result" where
  "net_transmit_set m ctx buf s =
     (let s = set_conf (\<lambda>cfg. cfg\<lparr>cf_net_transmit := nb_byte buf 0\<rparr>) s
      in respond m ctx (status_msg OP_NET_TRANSMIT_STATUS [bt_mesh_net_transmit_get s]) buf s)"

definition relay_get :: "model_ref \<Rightarrow> bt_mesh_msg_ctx \<Rightarrow> net_buf_simple \<Rightarrow> mesh \<Rightarrow> cfg_result" where
  "relay_get m ctx buf s =
     respond m ctx (status_msg OP_RELAY_STATUS [bt_mesh_relay_get s, bt_mesh_relay_retransmit_get s]) buf s"

definition relay_set :: "model_ref \<Rightarrow> bt_mesh_msg_ctx \<Rightarrow> net_buf_simple \<Rightarrow> mesh \<Rightarrow> cfg_result" where
  "relay_set m ctx buf s =
     (let v = nb_byte buf 0 in
      if v = 0x00 \<or> v = 0x01 then
        let cfg = user_data s;
            change = (cf_relay cfg \<noteq> 0x02 \<and> cf_relay cfg \<noteq> v);
            s = (if cf_relay cfg \<noteq> 0x02 then set_conf (\<lambda>cfg. cfg\<lparr>cf_relay := v, cf_relay_retransmit := nb_byte buf 1\<rparr>) s else s);
            pub = cf_hb_pub (user_data s);
            s = (if hp_feat pub AND BT_MESH_FEAT_RELAY \<noteq> 0 \<and> bt_mesh_subnet_get s (hp_net_idx pub) \<noteq> None \<and> change
                 then hb_send m s else s)
        in respond m ctx (status_msg OP_RELAY_STATUS [bt_mesh_relay_get s, bt_mesh_relay_retransmit_get s]) buf s
      else (ctx, buf, s))"

definition send_friend_status :: "model_ref \<Rightarrow> bt_mesh_msg_ctx \<Rightarrow> net_buf_simple \<Rightarrow> mesh \<Rightarrow> cfg_result" where
  "send_friend_status m ctx buf s = respond m ctx (status_msg OP_FRIEND_STATUS [cf_frnd (user_data s)]) buf s"

definition friend_get :: "model_ref \<Rightarrow> bt_mesh_msg_ctx \<Rightarrow> net_buf_simple \<Rightarrow> mesh \<Rightarrow> cfg_result" where
  "friend_get m ctx buf s = send_friend_status m ctx buf s"

definition friend_set :: "model_ref \<Rightarrow> bt_mesh_msg_ctx \<Rightarrow> net_buf_simple \<Rightarrow> mesh \<Rightarrow> cfg_result" where
  "friend_set m ctx buf s =
     (let v = nb_byte buf 0; cfg = user_data s; pub = cf_hb_pub cfg in
      if v \<noteq> 0x00 \<and> v \<noteq> 0x01 then (ctx, buf, s)
      else
        let s = (if cf_frnd cfg \<noteq> v \<and> hp_feat pub AND BT_MESH_FEAT_FRIEND \<noteq> 0 \<and> bt_mesh_subnet_get s (hp_net_idx pub) \<noteq> None
                 then hb_send m s else s)
        in send_friend_status m ctx buf s)"

definition lpn_timeout_get :: "model_ref \<Rightarrow> bt_mesh_msg_ctx \<Rightarrow> net_buf_simple \<Rightarrow> mesh \<Rightarrow> cfg_result" where
  "lpn_timeout_get m ctx buf s =
     (let (lpn_addr, buf) = net_buf_simple_pull_le16 buf in
      if \<not> BT_MESH_ADDR_IS_UNICAST lpn_addr then (ctx, buf, s)
      else
        let msg = bt_mesh_model_msg_init (NET_BUF_SIMPLE (2 + 5 + 4)) OP_LPN_TIMEOUT_STATUS;
            msg = net_buf_simple_add_le16 msg lpn_addr;
            msg = net_buf_simple_add_u8 (net_buf_simple_add_u8 (net_buf_simple_add_u8 msg 0) 0) 0
        in respond m ctx msg buf s)"

section \<open>Node identity and reset\<close>

definition node_identity_msg :: "u8 \<Rightarrow> u16 \<Rightarrow> u8 \<Rightarrow> net_buf_simple" where
  "node_identity_msg status idx node_id =
     net_buf_simple_add_u8 (net_buf_simple_add_le16 (net_buf_simple_add_u8
       (bt_mesh_model_msg_init (NET_BUF_SIMPLE (2 + 4 + 4)) OP_NODE_IDENTITY_STATUS) status) idx) node_id"

definition node_identity_get :: "model_ref \<Rightarrow> bt_mesh_msg_ctx \<Rightarrow> net_buf_simple \<Rightarrow> mesh \<Rightarrow> cfg_result" where
  "node_identity_get m ctx buf s =
     (let (idx, buf) = net_buf_simple_pull_le16 buf in
      if idx > 0xfff then (ctx, buf, s)
      else
        let msg = (case bt_mesh_subnet_get s idx of
                     None \<Rightarrow> node_identity_msg STATUS_INVALID_NETKEY idx 0x00
                   | Some i \<Rightarrow> node_identity_msg STATUS_SUCCESS idx (sn_node_id (get_sub s i)))
        in respond m ctx msg buf s)"

definition node_identity_set :: "model_ref \<Rightarrow> bt_mesh_msg_ctx \<Rightarrow> net_buf_simple \<Rightarrow> mesh \<Rightarrow> cfg_result" where
  "node_identity_set m ctx buf s =
     (let (idx, buf) = net_buf_simple_pull_le16 buf in
      if idx > 0xfff then (ctx, buf, s)
      else
        let (node_id, buf) = net_buf_simple_pull_u8 buf in
        if node_id \<noteq> 0x00 \<and> node_id \<noteq> 0x01 then (ctx, buf, s)
        else case bt_mesh_subnet_get s idx of
          None \<Rightarrow> respond m ctx (node_identity_msg STATUS_INVALID_NETKEY idx node_id) buf s
        | Some i \<Rightarrow>
            let s = (if bt_mesh_gatt_proxy_get s = 0x01
                     then bt_mesh_adv_update (if node_id \<noteq> 0 then bt_mesh_proxy_identity_start i s else bt_mesh_proxy_identity_stop i s)
                     else s)
            in respond m ctx (node_identity_msg STATUS_SUCCESS idx (sn_node_id (get_sub s i))) buf s)"

definition node_reset :: "bool \<Rightarrow> (mesh \<Rightarrow> mesh) \<Rightarrow> model_ref \<Rightarrow> bt_mesh_msg_ctx \<Rightarrow> net_buf_simple \<Rightarrow> mesh \<Rightarrow> cfg_result" where
  "node_reset reset_flag bt_mesh_reset m ctx buf s =
     (let (ctx, buf, s) = respond m ctx (bt_mesh_model_msg_init (NET_BUF_SIMPLE (2 + 0 + 4)) OP_NODE_RESET_STATUS) buf s
      in if reset_flag then (ctx, buf, s)
         else (ctx, buf, log_ev (Ev_Genie GENIE_EVT_SW_RESET) (bt_mesh_reset s)))"

section \<open>The table of operations\<close>

text \<open>
  \<^verbatim>\<open>bt_mesh_cfg_srv_op\<close>: opcode, minimal length, function. The function pointer of an entry of the
  composition is the position in this table.
\<close>

definition bt_mesh_cfg_srv_op ::
  "u16 list \<Rightarrow> bool \<Rightarrow> (mesh \<Rightarrow> mesh) \<Rightarrow> (u32 \<times> nat \<times> (model_ref \<Rightarrow> bt_mesh_msg_ctx \<Rightarrow> net_buf_simple \<Rightarrow> mesh \<Rightarrow> cfg_result)) list" where
  "bt_mesh_cfg_srv_op sub_list reset_flag bt_mesh_reset =
    [(0x8008, 1, dev_comp_data_get), (0x00, 19, app_key_add sub_list), (0x01, 19, app_key_update), (0x8000, 3, app_key_del),
     (0x8001, 2, app_key_get), (0x8009, 0, beacon_get), (0x800a, 1, beacon_set), (0x800c, 0, default_ttl_get),
     (0x800d, 1, default_ttl_set), (0x8012, 0, gatt_proxy_get), (0x8013, 1, gatt_proxy_set), (0x8023, 0, net_transmit_get),
     (0x8024, 1, net_transmit_set), (0x8026, 0, relay_get), (0x8027, 2, relay_set), (0x8018, 4, mod_pub_get), (0x03, 11, mod_pub_set),
     (0x801a, 24, mod_pub_va_set), (0x801b, 6, mod_sub_add), (0x8020, 20, mod_sub_va_add), (0x801c, 6, mod_sub_del),
     (0x8021, 20, mod_sub_va_del), (0x801e, 6, mod_sub_overwrite), (0x8022, 20, mod_sub_va_overwrite), (0x801d, 4, mod_sub_del_all),
     (0x8029, 4, mod_sub_get), (0x802b, 6, mod_sub_get_vnd), (0x8040, 18, net_key_add), (0x8045, 18, net_key_update),
     (0x8041, 2, net_key_del), (0x8042, 0, net_key_get), (0x8046, 2, node_identity_get), (0x8047, 3, node_identity_set),
     (0x803d, 6, mod_app_bind), (0x803f, 6, mod_app_unbind), (0x804b, 4, mod_app_get), (0x804d, 6, mod_app_get),
     (0x8049, 0, node_reset reset_flag bt_mesh_reset), (0x800f, 0, friend_get), (0x8010, 1, friend_set), (0x802d, 2, lpn_timeout_get),
     (0x8015, 2, krp_get), (0x8016, 3, krp_set), (0x8038, 0, heartbeat_pub_get), (0x8039, 9, heartbeat_pub_set),
     (0x803a, 0, heartbeat_sub_get), (0x803b, 5, heartbeat_sub_set)]"

section \<open>Initialisation and reset of the server\<close>

definition conf_is_valid :: "bt_mesh_cfg_srv \<Rightarrow> bool" where
  "conf_is_valid cfg =
     (if cf_relay cfg > 0x02 then False else if cf_beacon cfg > 0x01 then False
      else if cf_default_ttl cfg > BT_MESH_TTL_MAX then False else True)"

definition bt_mesh_cfg_srv_init :: "model_ref \<Rightarrow> mesh \<Rightarrow> errno option \<times> mesh" where
  "bt_mesh_cfg_srv_init m s =
     (let cfg = user_data s in
      if \<not> conf_is_valid cfg then (Some EINVAL, s)
      else
        let s = upd_model m (\<lambda>mdl. mdl\<lparr>md_keys := (md_keys mdl)[0 := BT_MESH_KEY_DEV]\<rparr>) s;
            s = k_delayed_work_init W_Hb_Pub s
        in (None, s\<lparr>ms_conf := Some (cfg\<lparr>cf_frnd := 0x02, cf_hb_sub := (cf_hb_sub cfg)\<lparr>hs_expiry := 0\<rparr>, cf_model := m\<rparr>)\<rparr>))"

definition bt_mesh_cfg_reset :: "mesh \<Rightarrow> mesh" where
  "bt_mesh_cfg_reset s =
     (case ms_conf s of
        None \<Rightarrow> s
      | Some cfg \<Rightarrow>
          let s = bt_mesh_set_hb_sub_dst BT_MESH_ADDR_UNASSIGNED s;
              s = upd_conf (\<lambda>cfg. cfg\<lparr>cf_hb_sub := (cf_hb_sub cfg)\<lparr>hs_src := BT_MESH_ADDR_UNASSIGNED,
                    hs_dst := BT_MESH_ADDR_UNASSIGNED, hs_expiry := 0\<rparr>\<rparr>) s;
              s = hb_pub_disable s;
              s = fold (\<lambda>k s. if ak_net_idx (bm_app_keys (ms_net s) ! k) \<noteq> BT_MESH_KEY_UNUSED then app_key_del' k s else s)
                    [0..<length (bm_app_keys (ms_net s))] s;
              s = upd_net (\<lambda>n. n\<lparr>bm_sub := map sub_clear (bm_sub n)\<rparr>) s
          in s\<lparr>ms_labels := map (\<lambda>l. \<lparr>lb_addr = 0, lb_uuid = replicate 16 0\<rparr>) (ms_labels s)\<rparr>)"

end
