(* ===== verification/Health_Srv.thy ===== *)
theory Health_Srv
  imports Cfg_Keys
begin

text \<open>
  The Health Server, \<^verbatim>\<open>bt_mesh/src/health_srv.c\<close>: fault messages, the attention timer, the fast period
  divisor, publication of the current faults. The callbacks an application registers
  (\<^verbatim>\<open>struct bt_mesh_health_srv_cb\<close>) are a record of optional functions, an argument of the handlers; the fault
  functions get the room for faults and return the test, the company and the faults.
\<close>

definition HEALTH_TEST_STANDARD :: u8 where "HEALTH_TEST_STANDARD = 0x00"
definition OP_HEALTH_CURRENT_STATUS :: u32 where "OP_HEALTH_CURRENT_STATUS = 0x04"
definition OP_HEALTH_FAULT_STATUS :: u32 where "OP_HEALTH_FAULT_STATUS = 0x05"
definition OP_ATTENTION_STATUS :: u32 where "OP_ATTENTION_STATUS = 0x8007"
definition OP_HEALTH_PERIOD_STATUS :: u32 where "OP_HEALTH_PERIOD_STATUS = 0x8037"
definition BT_MESH_MODEL_ID_HEALTH_SRV :: u16 where "BT_MESH_MODEL_ID_HEALTH_SRV = 0x0002"

record bt_mesh_health_srv_cb =
  fault_get_cur :: "(model_ref \<Rightarrow> nat \<Rightarrow> mesh \<Rightarrow> errno + u8 \<times> u16 \<times> bytes) option"
  fault_get_reg :: "(model_ref \<Rightarrow> u16 \<Rightarrow> nat \<Rightarrow> mesh \<Rightarrow> errno + u8 \<times> bytes) option"
  fault_clear :: "(model_ref \<Rightarrow> u16 \<Rightarrow> mesh \<Rightarrow> mesh) option"
  fault_test :: "(model_ref \<Rightarrow> u8 \<Rightarrow> u16 \<Rightarrow> mesh \<Rightarrow> errno option \<times> mesh) option"

text \<open>The callbacks of \<^verbatim>\<open>health_srv\<close>, the server of this repository: only the attention functions.\<close>

definition health_srv_cb :: bt_mesh_health_srv_cb where
  "health_srv_cb = \<lparr>fault_get_cur = None, fault_get_reg = None, fault_clear = None, fault_test = None\<rparr>"

section \<open>Faults\<close>

definition health_get_registered ::
  "bt_mesh_health_srv_cb \<Rightarrow> model_ref \<Rightarrow> u16 \<Rightarrow> net_buf_simple \<Rightarrow> mesh \<Rightarrow> net_buf_simple" where
  "health_get_registered cb m company_id msg s =
     (let msg = bt_mesh_model_msg_init msg OP_HEALTH_FAULT_STATUS;
          room = (net_buf_simple_tailroom msg - 1 - 2 - 4) mod 256;
          (test_id, faults) =
            (case fault_get_reg cb of
               None \<Rightarrow> (HEALTH_TEST_STANDARD, [])
             | Some get \<Rightarrow> (case get m company_id room s of Inl err \<Rightarrow> (HEALTH_TEST_STANDARD, []) | Inr r \<Rightarrow> r))
      in net_buf_simple_add_mem (net_buf_simple_add_le16 (net_buf_simple_add_u8 msg test_id) company_id) faults)"

definition health_get_current ::
  "bt_mesh_health_srv_cb \<Rightarrow> model_ref \<Rightarrow> net_buf_simple \<Rightarrow> mesh \<Rightarrow> nat \<times> net_buf_simple" where
  "health_get_current cb m msg s =
     (let msg = bt_mesh_model_msg_init msg OP_HEALTH_CURRENT_STATUS;
          room = (net_buf_simple_tailroom msg - 1 - 2) mod 256;
          std = (HEALTH_TEST_STANDARD, fst (ms_comp_ids s), []);
          (test_id, company_id, faults) =
            (case fault_get_cur cb of
               None \<Rightarrow> std
             | Some get \<Rightarrow> (case get m room s of Inl err \<Rightarrow> std | Inr r \<Rightarrow> r))
      in (length faults,
          net_buf_simple_add_mem (net_buf_simple_add_le16 (net_buf_simple_add_u8 msg test_id) company_id) faults))"

definition health_fault_get ::
  "bt_mesh_health_srv_cb \<Rightarrow> model_ref \<Rightarrow> bt_mesh_msg_ctx \<Rightarrow> net_buf_simple \<Rightarrow> mesh \<Rightarrow> cfg_result" where
  "health_fault_get cb m ctx buf s =
     (let (company_id, buf) = net_buf_simple_pull_le16 buf
      in respond m ctx (health_get_registered cb m company_id (NET_BUF_SIMPLE BT_MESH_TX_SDU_MAX) s) buf s)"

definition health_fault_clear_unrel ::
  "bt_mesh_health_srv_cb \<Rightarrow> model_ref \<Rightarrow> bt_mesh_msg_ctx \<Rightarrow> net_buf_simple \<Rightarrow> mesh \<Rightarrow> cfg_result" where
  "health_fault_clear_unrel cb m ctx buf s =
     (let (company_id, buf) = net_buf_simple_pull_le16 buf
      in (ctx, buf, case fault_clear cb of None \<Rightarrow> s | Some f \<Rightarrow> f m company_id s))"

definition health_fault_clear ::
  "bt_mesh_health_srv_cb \<Rightarrow> model_ref \<Rightarrow> bt_mesh_msg_ctx \<Rightarrow> net_buf_simple \<Rightarrow> mesh \<Rightarrow> cfg_result" where
  "health_fault_clear cb m ctx buf s =
     (let (company_id, buf) = net_buf_simple_pull_le16 buf;
          s = (case fault_clear cb of None \<Rightarrow> s | Some f \<Rightarrow> f m company_id s)
      in respond m ctx (health_get_registered cb m company_id (NET_BUF_SIMPLE BT_MESH_TX_SDU_MAX) s) buf s)"

definition health_fault_test_unrel ::
  "bt_mesh_health_srv_cb \<Rightarrow> model_ref \<Rightarrow> bt_mesh_msg_ctx \<Rightarrow> net_buf_simple \<Rightarrow> mesh \<Rightarrow> cfg_result" where
  "health_fault_test_unrel cb m ctx buf s =
     (let (test_id, buf) = net_buf_simple_pull_u8 buf; (company_id, buf) = net_buf_simple_pull_le16 buf
      in (ctx, buf, case fault_test cb of None \<Rightarrow> s | Some f \<Rightarrow> snd (f m test_id company_id s)))"

definition health_fault_test ::
  "bt_mesh_health_srv_cb \<Rightarrow> model_ref \<Rightarrow> bt_mesh_msg_ctx \<Rightarrow> net_buf_simple \<Rightarrow> mesh \<Rightarrow> cfg_result" where
  "health_fault_test cb m ctx buf s =
     (let (test_id, buf) = net_buf_simple_pull_u8 buf; (company_id, buf) = net_buf_simple_pull_le16 buf;
          (err, s) = (case fault_test cb of None \<Rightarrow> (None, s) | Some f \<Rightarrow> f m test_id company_id s)
      in if err \<noteq> None then (ctx, buf, s)
         else respond m ctx (health_get_registered cb m company_id (NET_BUF_SIMPLE BT_MESH_TX_SDU_MAX) s) buf s)"

section \<open>Attention\<close>

definition send_attention_status :: "model_ref \<Rightarrow> bt_mesh_msg_ctx \<Rightarrow> net_buf_simple \<Rightarrow> mesh \<Rightarrow> cfg_result" where
  "send_attention_status m ctx buf s =
     (let time = of_nat (k_delayed_work_remaining_get (W_Attn m) s div 1000)
      in respond m ctx (net_buf_simple_add_u8 (bt_mesh_model_msg_init (NET_BUF_SIMPLE (2 + 1 + 4)) OP_ATTENTION_STATUS) time) buf s)"

definition attention_get :: "model_ref \<Rightarrow> bt_mesh_msg_ctx \<Rightarrow> net_buf_simple \<Rightarrow> mesh \<Rightarrow> cfg_result" where
  "attention_get m ctx buf s = send_attention_status m ctx buf s"

definition attention_set_unrel :: "model_ref \<Rightarrow> bt_mesh_msg_ctx \<Rightarrow> net_buf_simple \<Rightarrow> mesh \<Rightarrow> cfg_result" where
  "attention_set_unrel m ctx buf s =
     (let (time, buf) = net_buf_simple_pull_u8 buf in (ctx, buf, bt_mesh_attention (Some m) time s))"

definition attention_set :: "model_ref \<Rightarrow> bt_mesh_msg_ctx \<Rightarrow> net_buf_simple \<Rightarrow> mesh \<Rightarrow> cfg_result" where
  "attention_set m ctx buf s =
     (let (ctx, buf, s) = attention_set_unrel m ctx buf s in send_attention_status m ctx buf s)"

section \<open>Fast period divisor\<close>

definition send_health_period_status :: "model_ref \<Rightarrow> bt_mesh_msg_ctx \<Rightarrow> net_buf_simple \<Rightarrow> mesh \<Rightarrow> cfg_result" where
  "send_health_period_status m ctx buf s =
     respond m ctx (net_buf_simple_add_u8 (bt_mesh_model_msg_init (NET_BUF_SIMPLE (2 + 1 + 4)) OP_HEALTH_PERIOD_STATUS)
       (of_nat (pb_period_div (the (md_pub (get_model s m)))))) buf s"

definition health_period_get :: "model_ref \<Rightarrow> bt_mesh_msg_ctx \<Rightarrow> net_buf_simple \<Rightarrow> mesh \<Rightarrow> cfg_result" where
  "health_period_get m ctx buf s = send_health_period_status m ctx buf s"

definition health_period_set_unrel :: "model_ref \<Rightarrow> bt_mesh_msg_ctx \<Rightarrow> net_buf_simple \<Rightarrow> mesh \<Rightarrow> cfg_result" where
  "health_period_set_unrel m ctx buf s =
     (let (period, buf) = net_buf_simple_pull_u8 buf in
      if period > 15 then (ctx, buf, s)
      else (ctx, buf, (upd_pub m (\<lambda>p. p\<lparr>pb_period_div := unat period\<rparr>) s)\<lparr>ms_fast_period_div := period\<rparr>))"

definition health_period_set :: "model_ref \<Rightarrow> bt_mesh_msg_ctx \<Rightarrow> net_buf_simple \<Rightarrow> mesh \<Rightarrow> cfg_result" where
  "health_period_set m ctx buf s =
     (let (ctx, buf, s) = health_period_set_unrel m ctx buf s in send_health_period_status m ctx buf s)"

definition bt_mesh_health_srv_op ::
  "bt_mesh_health_srv_cb \<Rightarrow> (u32 \<times> nat \<times> (model_ref \<Rightarrow> bt_mesh_msg_ctx \<Rightarrow> net_buf_simple \<Rightarrow> mesh \<Rightarrow> cfg_result)) list" where
  "bt_mesh_health_srv_op cb =
    [(0x8031, 2, health_fault_get cb), (0x802f, 2, health_fault_clear cb), (0x8030, 2, health_fault_clear_unrel cb),
     (0x8032, 3, health_fault_test cb), (0x8033, 3, health_fault_test_unrel cb), (0x8034, 0, health_period_get),
     (0x8035, 1, health_period_set), (0x8036, 1, health_period_set_unrel), (0x8004, 0, attention_get),
     (0x8005, 1, attention_set), (0x8006, 1, attention_set_unrel)]"

section \<open>Publication and initialisation\<close>

definition health_pub_update :: "bt_mesh_health_srv_cb \<Rightarrow> model_ref \<Rightarrow> mesh \<Rightarrow> errno option \<times> mesh" where
  "health_pub_update cb m s =
     (let (count, msg) = health_get_current cb m (pb_msg (the (md_pub (get_model s m)))) s
      in (None, upd_pub m (\<lambda>p. p\<lparr>pb_msg := msg,
            pb_period_div := (if count \<noteq> 0 then unat (ms_fast_period_div s) mod 16 else 0)\<rparr>) s))"

definition bt_mesh_fault_update :: "nat \<Rightarrow> mesh \<Rightarrow> errno option \<times> mesh" where
  "bt_mesh_fault_update e s =
     (case bt_mesh_model_find (ms_comp s ! e) BT_MESH_MODEL_ID_HEALTH_SRV of
        None \<Rightarrow> (Some EINVAL, s)
      | Some i \<Rightarrow> bt_mesh_model_publish (e, False, i) s)"

text \<open>Whether the model has a server structure is an argument (\<^verbatim>\<open>model->user_data\<close>).\<close>

definition bt_mesh_health_srv_init :: "bool \<Rightarrow> model_ref \<Rightarrow> bool \<Rightarrow> mesh \<Rightarrow> errno option \<times> mesh" where
  "bt_mesh_health_srv_init has_srv m primary s =
     (if \<not> has_srv then (if \<not> primary then (None, s) else (Some EINVAL, s))
      else if md_pub (get_model s m) = None then (Some EINVAL, s)
      else
        let s = upd_pub m (\<lambda>p. p\<lparr>pb_update := True\<rparr>) s;
            s = k_delayed_work_init (W_Attn m) s
        in (None, if primary then s\<lparr>ms_p_health_srv := Some m\<rparr> else s))"

end
