(* ===== verification/Proxy_Adv.thy ===== *)
theory Proxy_Adv
  imports Proxy_Out
begin

text \<open>
  The connectable advertising of \<^verbatim>\<open>bt_mesh/src/proxy.c\<close>: with the node identity while it runs, with the
  network identity otherwise, in turn for the subnets. The random number, the name of the device
  (in the scan response, which is left out) and the result of the HCI command are the platform's:
  \<open>rand\<close> and \<open>rc\<close>. Advertising appears as \<open>Ev_Conn_Adv_Start\<close> with the service data. Times are milliseconds,
  \<open>- 1\<close> is \<^verbatim>\<open>K_FOREVER\<close>.
\<close>

definition ID_TYPE_NET :: u8 where "ID_TYPE_NET = 0x00"
definition ID_TYPE_NODE :: u8 where "ID_TYPE_NODE = 0x01"
definition NODE_ID_TIMEOUT :: nat where "NODE_ID_TIMEOUT = 60 * 1000"
definition CONFIG_BT_MAX_CONN :: int where "CONFIG_BT_MAX_CONN = 2"

section \<open>Operations\<close>

definition node_id_adv :: "errno + bytes \<Rightarrow> errno option \<Rightarrow> nat \<Rightarrow> mesh \<Rightarrow> errno option \<times> mesh" where
  "node_id_adv rand rc i s =
     (case rand of
        Inl err \<Rightarrow> (Some err, s)
      | Inr r \<Rightarrow>
          let sub = get_sub s i;
              tmp = replicate 6 0 @ take 8 r @ sys_put_be16 (bt_mesh_primary_addr s)
          in case bt_mesh_aes_encrypt (sk_identity (sn_keys sub (sn_kr_flag sub))) tmp of
               Inl err \<Rightarrow> (Some err, s)
             | Inr tmp \<Rightarrow>
                 let s = log_ev (Ev_Conn_Adv_Start True ([0x28, 0x18, ID_TYPE_NODE] @ take 8 (drop 8 tmp) @ take 8 r)) s
                 in if rc \<noteq> None then (rc, s) else (None, s\<lparr>ms_proxy_adv_enabled := True\<rparr>))"

definition net_id_adv :: "errno option \<Rightarrow> nat \<Rightarrow> mesh \<Rightarrow> errno option \<times> mesh" where
  "net_id_adv rc i s =
     (let sub = get_sub s i;
          s = log_ev (Ev_Conn_Adv_Start True ([0x28, 0x18, ID_TYPE_NET] @ take 8 (sk_net_id (sn_keys sub (sn_kr_flag sub))))) s
      in if rc \<noteq> None then (rc, s) else (None, s\<lparr>ms_proxy_adv_enabled := True\<rparr>))"

definition advertise_subnet :: "mesh \<Rightarrow> nat \<Rightarrow> bool" where
  "advertise_subnet s i =
     (if sn_net_idx (get_sub s i) = BT_MESH_KEY_UNUSED then False
      else sn_node_id (get_sub s i) = 0x01 \<or> bt_mesh_gatt_proxy_get s = 0x01)"

definition next_sub :: "mesh \<Rightarrow> nat option \<times> mesh" where
  "next_sub s =
     (let n = length (bm_sub (ms_net s)) in
      case find_index (\<lambda>i. advertise_subnet s ((i + ms_next_idx s) mod n)) [0..<n] of
        None \<Rightarrow> (None, s)
      | Some i \<Rightarrow> (Some ((i + ms_next_idx s) mod n), s\<lparr>ms_next_idx := (ms_next_idx s + 1) mod n\<rparr>))"

definition sub_count :: "mesh \<Rightarrow> nat" where
  "sub_count s = length (filter (advertise_subnet s) [0..<length (bm_sub (ms_net s))])"

text \<open>The limit that makes the advertising rotate when several subnets are advertised.\<close>

definition adv_slice :: "mesh \<Rightarrow> int \<Rightarrow> int" where
  "adv_slice s remaining =
     (if sub_count s > 1 then
        let max_timeout = int (max (NODE_ID_TIMEOUT div max (sub_count s) 6) 1000)
        in if remaining > max_timeout \<or> remaining < 0 then max_timeout else remaining
      else remaining)"

text \<open>The part of \<^verbatim>\<open>gatt_proxy_advertise\<close> for a subnet whose node identity is running.\<close>

definition node_id_turn :: "errno + bytes \<Rightarrow> errno option \<Rightarrow> nat \<Rightarrow> mesh \<Rightarrow> int \<times> mesh" where
  "node_id_turn rand rc i s =
     (if sn_node_id (get_sub s i) = 0x01 then
        let active = k_uptime_get_32 s - sn_node_id_start (get_sub s i) in
        if active < of_nat NODE_ID_TIMEOUT
        then (int NODE_ID_TIMEOUT - uint active, snd (node_id_adv rand rc i s))
        else (- 1, bt_mesh_proxy_identity_stop i s)
      else (- 1, s))"

section \<open>Termination\<close>

text \<open>
  \<^verbatim>\<open>gatt_proxy_advertise\<close> calls itself with the next subnet when the identity of the current one has
  stopped and the proxy feature is off. Every second call at the latest stops one more identity.
\<close>

definition running :: "mesh \<Rightarrow> nat" where
  "running s = length (filter (\<lambda>sub. sn_node_id sub = 0x01) (bm_sub (ms_net s)))"

definition adv_measure :: "nat option \<Rightarrow> mesh \<Rightarrow> nat" where
  "adv_measure sub s = 2 * running s + (case sub of None \<Rightarrow> 0 | Some i \<Rightarrow> if sn_node_id (get_sub s i) = 0x01 then 0 else 1)"

lemma node_id_adv_net: "ms_net (snd (node_id_adv rand rc i s)) = ms_net s"
  by (simp add: node_id_adv_def Let_def log_ev_def split: sum.splits)

lemma next_sub_running:
  assumes "next_sub s = (Some j, s')" "bt_mesh_gatt_proxy_get s \<noteq> 0x01"
  shows "sn_node_id (get_sub s' j) = 0x01" "running s' = running s"
proof -
  let ?n = "length (bm_sub (ms_net s))"
  obtain i where i: "find_index (\<lambda>i. advertise_subnet s ((i + ms_next_idx s) mod ?n)) [0..<?n] = Some i"
    and j: "j = (i + ms_next_idx s) mod ?n" and s': "s' = s\<lparr>ms_next_idx := (ms_next_idx s + 1) mod ?n\<rparr>"
    using assms(1) by (auto simp: next_sub_def Let_def split: option.splits)
  have "advertise_subnet s j" using find_index_holds [OF i] find_index_bound [OF i] j by simp
  then show "sn_node_id (get_sub s' j) = 0x01" using assms(2) by (simp add: advertise_subnet_def s' get_sub_def split: if_splits)
  show "running s' = running s" by (simp add: running_def s')
qed

lemma next_sub_none: "next_sub s = (None, s') \<Longrightarrow> s' = s"
  by (auto simp: next_sub_def Let_def split: option.splits)

lemma filter_upd_less:
  "i < length xs \<Longrightarrow> P (xs ! i) \<Longrightarrow> \<not> P y \<Longrightarrow> length (filter P (xs[i := y])) < length (filter P xs)"
proof (induction xs arbitrary: i)
  case (Cons x xs)
  then show ?case by (cases i) auto
qed simp

lemma identity_stop_less:
  assumes "sn_node_id (get_sub s i) = 0x01" "sn_node_id (get_sub (bt_mesh_proxy_identity_stop i s) i) = 0x00"
  shows "running (bt_mesh_proxy_identity_stop i s) < running s"
proof -
  have "i < length (bm_sub (ms_net s))"
  proof (rule ccontr)
    assume "\<not> i < length (bm_sub (ms_net s))"
    then have "bm_sub (ms_net (bt_mesh_proxy_identity_stop i s)) = bm_sub (ms_net s)"
      by (simp add: bt_mesh_proxy_identity_stop_def upd_sub_def upd_net_def upd_at_def)
    with assms show False by (simp add: get_sub_def)
  qed
  then show ?thesis
    using assms(1) filter_upd_less [of i "bm_sub (ms_net s)" "\<lambda>sub. sn_node_id sub = 0x01"]
    by (simp add: running_def get_sub_def bt_mesh_proxy_identity_stop_def upd_sub_def upd_net_def upd_at_def)
qed

lemma turn_measure:
  assumes "node_id_turn rand rc i s = (r, s1)" "sn_node_id (get_sub s1 i) = 0x00" "bt_mesh_gatt_proxy_get s1 \<noteq> 0x01"
    and "next_sub s1 = (sub, s2)"
  shows "adv_measure sub s2 < adv_measure (Some i) s"
proof -
  have "adv_measure sub s2 \<le> 2 * running s1"
  proof (cases sub)
    case None
    then show ?thesis using next_sub_none [of s1 s2] assms(4) by (simp add: adv_measure_def)
  next
    case (Some j)
    then show ?thesis using next_sub_running [of s1 j s2] assms(3,4) by (simp add: adv_measure_def)
  qed
  moreover have "2 * running s1 < adv_measure (Some i) s"
  proof (cases "sn_node_id (get_sub s i) = 0x01")
    case True
    have "s1 = bt_mesh_proxy_identity_stop i s"
    proof (rule ccontr)
      assume "s1 \<noteq> bt_mesh_proxy_identity_stop i s"
      then have "ms_net s1 = ms_net s" using assms(1) True node_id_adv_net by (auto simp: node_id_turn_def Let_def split: if_splits)
      with True assms(2) show False by (simp add: get_sub_def)
    qed
    with identity_stop_less [OF True] assms(2) show ?thesis using True by (simp add: adv_measure_def)
  next
    case False
    then have "s1 = s" using assms(1) by (simp add: node_id_turn_def)
    then show ?thesis using False by (simp add: adv_measure_def)
  qed
  ultimately show ?thesis by simp
qed

function gatt_proxy_advertise :: "errno + bytes \<Rightarrow> errno option \<Rightarrow> nat option \<Rightarrow> mesh \<Rightarrow> int \<times> mesh" where
  "gatt_proxy_advertise rand rc sub s =
     (if ms_conn_count s = CONFIG_BT_MAX_CONN then (- 1, s)
      else case sub of
        None \<Rightarrow> (- 1, s)
      | Some i \<Rightarrow>
          let (remaining, s) = node_id_turn rand rc i s in
          if sn_node_id (get_sub s i) = 0x00 \<and> bt_mesh_gatt_proxy_get s \<noteq> 0x01
          then let (sub, s) = next_sub s in gatt_proxy_advertise rand rc sub s
          else
            let s = (if sn_node_id (get_sub s i) = 0x00 then snd (net_id_adv rc i s) else s)
            in (adv_slice s remaining, s))"
  by pat_completeness auto
termination
  by (relation "measure (\<lambda>(rand, rc, sub, s). adv_measure sub s)") (auto intro: turn_measure dest!: sym [of _ "next_sub _"] sym [of _ "node_id_turn _ _ _ _"])

declare gatt_proxy_advertise.simps [simp del]

definition bt_mesh_proxy_adv_start :: "errno + bytes \<Rightarrow> errno option \<Rightarrow> bytes \<Rightarrow> mesh \<Rightarrow> int \<times> mesh" where
  "bt_mesh_proxy_adv_start rand rc prov_svc_data s =
     (if ms_gatt_svc s = MESH_GATT_NONE then (- 1, s)
      else
        let fast = ms_prov_fast_adv s;
            prov = \<not> bt_mesh_is_provisioned s \<and> \<not> bt_prov_active s;
            s = (if prov then log_ev (Ev_Conn_Adv_Start fast prov_svc_data) s else s);
            s = (if prov \<and> rc = None then s\<lparr>ms_proxy_adv_enabled := True\<rparr> else s)
        in if prov \<and> rc = None \<and> fast then (60 * 1000, s\<lparr>ms_prov_fast_adv := False\<rparr>)
           else if bt_mesh_is_provisioned s then let (sub, s) = next_sub s in gatt_proxy_advertise rand rc sub s
           else (if bt_prov_active s then 10 * 1000 else 30 * 1000, s))"

definition bt_mesh_proxy_adv_stop :: "errno option \<Rightarrow> mesh \<Rightarrow> mesh" where
  "bt_mesh_proxy_adv_stop rc s =
     (if \<not> ms_proxy_adv_enabled s then s
      else let s = log_ev Ev_Conn_Adv_Stop s in if rc \<noteq> None then s else s\<lparr>ms_proxy_adv_enabled := False\<rparr>)"

text \<open>The service data of an unprovisioned device, which \<^verbatim>\<open>bt_mesh_proxy_init\<close> fills in.\<close>

definition bt_mesh_proxy_init :: "mesh \<Rightarrow> bytes" where
  "bt_mesh_proxy_init s = [0x27, 0x18] @ take 16 (pv_uuid (ms_prov s)) @ sys_put_be16 (pv_oob_info (ms_prov s))"

end
