(* ===== verification/Prov.thy ===== *)
theory Prov
  imports Main_Mesh
begin

text \<open>
  The provisioning protocol of a node, \<^verbatim>\<open>bt_mesh/src/prov.c\<close>, over both bearers. The link structure is
  \<open>ms_link\<close>; its receive buffer is \<^verbatim>\<open>clients[0].buf\<close>, which the GATT proxy shares. Dereferencing the buffer
  pointer when it is \<^verbatim>\<open>NULL\<close> is the event \<open>Ev_Null\<close>; a copy that leaves the buffer sets the fault flag
  of the buffer. What the platform provides is the record \<open>prov_env\<close>: the authentication value of the vendor
  layer (\<^verbatim>\<open>genie_tri_tuple_get_auth\<close>, the \<^verbatim>\<open>GENIE_OLD_AUTH\<close> build), the local public key, the random number
  and the result of starting the computation of the Diffie-Hellman key, which itself arrives later
  through \<^verbatim>\<open>prov_dh_key_cb\<close>. The ultra provisioning extension is compiled out.
\<close>

section \<open>Constants\<close>

definition AUTH_METHOD_NO_OOB :: u8 where "AUTH_METHOD_NO_OOB = 0x00"
definition AUTH_METHOD_STATIC :: u8 where "AUTH_METHOD_STATIC = 0x01"
definition PROV_ERR_NVAL_PDU :: u8 where "PROV_ERR_NVAL_PDU = 0x01"
definition PROV_ERR_NVAL_FMT :: u8 where "PROV_ERR_NVAL_FMT = 0x02"
definition PROV_ERR_UNEXP_PDU :: u8 where "PROV_ERR_UNEXP_PDU = 0x03"
definition PROV_ERR_CFM_FAILED :: u8 where "PROV_ERR_CFM_FAILED = 0x04"
definition PROV_ERR_RESOURCES :: u8 where "PROV_ERR_RESOURCES = 0x05"
definition PROV_ERR_DECRYPT :: u8 where "PROV_ERR_DECRYPT = 0x06"
definition PROV_ERR_UNEXP_ERR :: u8 where "PROV_ERR_UNEXP_ERR = 0x07"
definition PROV_CAPABILITIES :: u8 where "PROV_CAPABILITIES = 0x01"
definition PROV_START :: u8 where "PROV_START = 0x02"
definition PROV_PUB_KEY :: u8 where "PROV_PUB_KEY = 0x03"
definition PROV_INPUT_COMPLETE :: u8 where "PROV_INPUT_COMPLETE = 0x04"
definition PROV_CONFIRM :: u8 where "PROV_CONFIRM = 0x05"
definition PROV_RANDOM :: u8 where "PROV_RANDOM = 0x06"
definition PROV_DATA :: u8 where "PROV_DATA = 0x07"
definition PROV_COMPLETE :: u8 where "PROV_COMPLETE = 0x08"
definition PROV_FAILED :: u8 where "PROV_FAILED = 0x09"
definition PROV_ALG_P256 :: u8 where "PROV_ALG_P256 = 0x00"
definition GPCF :: "u8 \<Rightarrow> u8" where "GPCF gpc = gpc AND 0x03"
definition GPC_START :: "u8 \<Rightarrow> u8" where "GPC_START last_seg = push_bit 2 last_seg OR 0x00"
definition GPC_ACK :: u8 where "GPC_ACK = 0x01"
definition GPC_CONT :: "u8 \<Rightarrow> u8" where "GPC_CONT seg_id = push_bit 2 seg_id OR 0x02"
definition GPC_CTL :: "u8 \<Rightarrow> u8" where "GPC_CTL op = push_bit 2 op OR 0x03"
definition START_PAYLOAD_MAX :: nat where "START_PAYLOAD_MAX = 20"
definition CONT_PAYLOAD_MAX :: nat where "CONT_PAYLOAD_MAX = 23"
definition START_LAST_SEG :: "u8 \<Rightarrow> u8" where "START_LAST_SEG gpc = drop_bit 2 gpc"
definition CONT_SEG_INDEX :: "u8 \<Rightarrow> u8" where "CONT_SEG_INDEX gpc = drop_bit 2 gpc"
definition BEARER_CTL :: "u8 \<Rightarrow> u8" where "BEARER_CTL gpc = drop_bit 2 gpc"
definition LINK_OPEN :: u8 where "LINK_OPEN = 0x00"
definition LINK_ACK :: u8 where "LINK_ACK = 0x01"
definition LINK_CLOSE :: u8 where "LINK_CLOSE = 0x02"
definition CLOSE_REASON_FAILED :: u8 where "CLOSE_REASON_FAILED = 0x02"
definition TRANSACTION_TIMEOUT :: int where "TRANSACTION_TIMEOUT = 30 * 1000"
definition PROV_BUF_HEADROOM :: nat where "PROV_BUF_HEADROOM = 5"
definition PROV_BUF :: "nat \<Rightarrow> net_buf_simple" where "PROV_BUF len = NET_BUF_SIMPLE (PROV_BUF_HEADROOM + len)"
definition PROV_XMIT_COUNT :: nat where "PROV_XMIT_COUNT = 0"
definition PROV_XMIT_INT :: nat where "PROV_XMIT_INT = 20"

record prov_env =
  pe_auth :: bytes
  pe_pub_key :: "bytes option"
  pe_rand :: "errno + bytes"
  pe_dh_gen :: "errno option"

record prov_rx =
  pr_link_id :: u32
  pr_xact_id :: u8
  pr_gpc :: u8

section \<open>The advertising bearer: sending\<close>

definition free_segments :: "mesh \<Rightarrow> mesh" where
  "free_segments s =
     snd (fold (\<lambda>i (stop, s).
            case lk_tx_buf (ms_link s) ! i of
              None \<Rightarrow> (True, s)
            | Some b \<Rightarrow>
                if stop then (stop, s)
                else
                  let s = upd_link (\<lambda>l. l\<lparr>lk_tx_buf := (lk_tx_buf l)[i := None]\<rparr>) s;
                      s = upd_buf b (\<lambda>buf. buf\<lparr>bf_adv := (bf_adv buf)\<lparr>ad_busy := False\<rparr>\<rparr>) s
                  in (False, net_buf_unref b s)) [0..<3] (False, s))"

definition prov_clear_tx :: "mesh \<Rightarrow> mesh" where
  "prov_clear_tx s = free_segments (k_delayed_work_cancel W_Prov_Retransmit s)"

text \<open>
  The structure is cleared before the attention flag is read, so the last test of \<^verbatim>\<open>reset_link\<close> always fails.
\<close>

definition reset_link :: "prov_env \<Rightarrow> mesh \<Rightarrow> mesh" where
  "reset_link env s =
     (let s = prov_clear_tx s;
          s = (if pv_link_close (ms_prov s) then log_ev (Ev_Link_Close BT_MESH_PROV_ADV) s else s);
          s = upd_link (\<lambda>_. prov_link0\<lparr>lk_rx_prev_id := XACT_NVAL, lk_local_pub_key := (pe_pub_key env \<noteq> None)\<rparr>) s;
          s = snd (bt_mesh_proxy_get_buf s);
          s = upd_link (\<lambda>l. l\<lparr>lk_rx_buf := True\<rparr>) s
      in if byte_at (lk_conf_inputs (ms_link s)) 0 \<noteq> 0 then bt_mesh_attention None 0 s else s)"

definition bt_mesh_prov_reset_link :: "prov_env \<Rightarrow> mesh \<Rightarrow> mesh" where
  "bt_mesh_prov_reset_link env s = (if lk_active (ms_link s) then reset_link env s else s)"

definition adv_buf_create :: "mesh \<Rightarrow> nat option \<times> mesh" where
  "adv_buf_create s = bt_mesh_adv_create ADV_PROV PROV_XMIT_COUNT PROV_XMIT_INT s"

definition gen_prov_ack_send :: "u8 \<Rightarrow> mesh \<Rightarrow> mesh" where
  "gen_prov_ack_send xact_id s =
     (if ms_pending_ack s = xact_id then s
      else case adv_buf_create s of
        (None, s) \<Rightarrow> s
      | (Some b, s) \<Rightarrow>
          let (s, complete) =
                (if ms_pending_ack s = XACT_NVAL then (s\<lparr>ms_pending_ack := xact_id\<rparr>, Cb_Ack_Complete) else (s, Cb_None));
              s = on_buf b (\<lambda>buf. net_buf_simple_add_be32 buf (lk_id (ms_link s))) s;
              s = on_buf b (\<lambda>buf. net_buf_simple_add_u8 buf xact_id) s;
              s = on_buf b (\<lambda>buf. net_buf_simple_add_u8 buf GPC_ACK) s
          in net_buf_unref b (bt_mesh_adv_send b (Cb_User complete) s))"

text \<open>
  The loop over the pending buffers of \<^verbatim>\<open>send_reliable\<close> and \<^verbatim>\<open>prov_retransmit\<close>: it stops at the first
  free entry; the last buffer has the callback. The retransmission skips buffers that are still queued.
\<close>

fun send_bufs :: "bool \<Rightarrow> nat list \<Rightarrow> mesh \<Rightarrow> mesh" where
  "send_bufs skip_busy [] s = s"
| "send_bufs skip_busy (i # is) s =
     (case lk_tx_buf (ms_link s) ! i of
        None \<Rightarrow> s
      | Some b \<Rightarrow>
          if skip_busy \<and> ad_busy (bf_adv (get_buf s b)) then send_bufs skip_busy is s
          else
            let cb = (if i + 1 < 3 \<and> lk_tx_buf (ms_link s) ! (i + 1) \<noteq> None then Cb_None else Cb_Buf_Sent)
            in send_bufs skip_busy is (bt_mesh_adv_send b (Cb_User cb) s))"

definition send_reliable :: "mesh \<Rightarrow> mesh" where
  "send_reliable s = send_bufs False [0..<3] (upd_link (\<lambda>l. l\<lparr>lk_tx_start := k_uptime_get s\<rparr>) s)"

definition bearer_ctl_send :: "u8 \<Rightarrow> bytes \<Rightarrow> mesh \<Rightarrow> errno option \<times> mesh" where
  "bearer_ctl_send op data s =
     (let s = prov_clear_tx s in
      case adv_buf_create s of
        (None, s) \<Rightarrow> (Some ENOBUFS, s)
      | (Some b, s) \<Rightarrow>
          let s = on_buf b (\<lambda>buf. net_buf_simple_add_be32 buf (lk_id (ms_link s))) s;
              s = on_buf b (\<lambda>buf. net_buf_simple_add_u8 buf 0x00) s;
              s = on_buf b (\<lambda>buf. net_buf_simple_add_u8 buf (GPC_CTL op)) s;
              s = on_buf b (\<lambda>buf. net_buf_simple_add_mem buf data) s;
              s = upd_link (\<lambda>l. l\<lparr>lk_tx_buf := (lk_tx_buf l)[0 := Some b]\<rparr>) s
          in (None, send_reliable s))"

definition last_seg :: "u8 \<Rightarrow> u8" where
  "last_seg len = (if unat len \<le> START_PAYLOAD_MAX then 0 else 1 + of_nat ((unat len - START_PAYLOAD_MAX) div CONT_PAYLOAD_MAX))"

definition next_transaction_id :: "mesh \<Rightarrow> u8 \<times> mesh" where
  "next_transaction_id s =
     (let l = ms_link s;
          i = (if lk_tx_id l \<noteq> 0 \<and> lk_tx_id l \<noteq> 0xff then lk_tx_id l + 1 else 0x80)
      in (i, upd_link (\<lambda>l. l\<lparr>lk_tx_id := i\<rparr>) s))"

function prov_cont_loop :: "nat \<Rightarrow> u8 \<Rightarrow> net_buf_simple \<Rightarrow> mesh \<Rightarrow> errno option \<times> mesh" where
  "prov_cont_loop seg_id xact_id msg s =
     (if nb_len msg = 0 then (None, s)
      else if seg_id \<ge> 3 then (Some E2BIG, free_segments s)
      else case adv_buf_create s of
        (None, s) \<Rightarrow> (Some ENOBUFS, free_segments s)
      | (Some b, s) \<Rightarrow>
          let s = upd_link (\<lambda>l. l\<lparr>lk_tx_buf := (lk_tx_buf l)[seg_id := Some b]\<rparr>) s;
              seg_len = min (nb_len msg) CONT_PAYLOAD_MAX;
              s = on_buf b (\<lambda>buf. net_buf_simple_add_be32 buf (lk_id (ms_link s))) s;
              s = on_buf b (\<lambda>buf. net_buf_simple_add_u8 buf xact_id) s;
              s = on_buf b (\<lambda>buf. net_buf_simple_add_u8 buf (GPC_CONT (of_nat seg_id))) s;
              s = on_buf b (\<lambda>buf. net_buf_simple_add_mem buf (take seg_len (nb_data msg))) s
          in prov_cont_loop (seg_id + 1) xact_id (net_buf_simple_pull msg seg_len) s)"
  by pat_completeness auto
termination by (relation "measure (\<lambda>(seg_id, _). 3 - seg_id)") auto

declare prov_cont_loop.simps [simp del]

definition prov_send_adv :: "net_buf_simple \<Rightarrow> mesh \<Rightarrow> errno option \<times> mesh" where
  "prov_send_adv msg s =
     (let s = prov_clear_tx s in
      case adv_buf_create s of
        (None, s) \<Rightarrow> (Some ENOBUFS, s)
      | (Some b, s) \<Rightarrow>
          let (xact_id, s) = next_transaction_id s;
              s = on_buf b (\<lambda>buf. net_buf_simple_add_be32 buf (lk_id (ms_link s))) s;
              s = on_buf b (\<lambda>buf. net_buf_simple_add_u8 buf xact_id) s;
              s = on_buf b (\<lambda>buf. net_buf_simple_add_u8 buf (GPC_START (last_seg (of_nat (nb_len msg))))) s;
              s = on_buf b (\<lambda>buf. net_buf_simple_add_be16 buf (of_nat (nb_len msg))) s;
              s = on_buf b (\<lambda>buf. net_buf_simple_add_u8 buf (bt_mesh_fcs_calc (nb_data msg) (of_nat (nb_len msg)))) s;
              s = upd_link (\<lambda>l. l\<lparr>lk_tx_buf := (lk_tx_buf l)[0 := Some b]\<rparr>) s;
              seg_len = min (nb_len msg) START_PAYLOAD_MAX;
              s = on_buf b (\<lambda>buf. net_buf_simple_add_mem buf (take seg_len (nb_data msg))) s;
              (err, s) = prov_cont_loop 1 xact_id (net_buf_simple_pull msg seg_len) s
          in if err \<noteq> None then (err, s) else (None, send_reliable s))"

section \<open>Sending on either bearer\<close>

definition prov_send_gatt :: "net_buf_simple \<Rightarrow> mesh \<Rightarrow> errno option \<times> mesh" where
  "prov_send_gatt msg s =
     (case lk_conn (ms_link s) of
        None \<Rightarrow> (Some ENOTCONN, s)
      | Some conn \<Rightarrow> bt_mesh_proxy_send conn BT_MESH_PROXY_PROV msg s)"

definition prov_send :: "net_buf_simple \<Rightarrow> mesh \<Rightarrow> errno option \<times> mesh" where
  "prov_send buf s = (if lk_conn (ms_link s) \<noteq> None then prov_send_gatt buf s else prov_send_adv buf s)"

definition prov_buf_init :: "net_buf_simple \<Rightarrow> u8 \<Rightarrow> net_buf_simple" where
  "prov_buf_init buf type = net_buf_simple_add_u8 (net_buf_simple_init buf PROV_BUF_HEADROOM) type"

definition prov_send_fail_msg :: "u8 \<Rightarrow> mesh \<Rightarrow> mesh" where
  "prov_send_fail_msg err s = snd (prov_send (net_buf_simple_add_u8 (prov_buf_init (PROV_BUF 2) PROV_FAILED) err) s)"

definition close_link :: "u8 \<Rightarrow> u8 \<Rightarrow> mesh \<Rightarrow> mesh" where
  "close_link err reason s =
     (case lk_conn (ms_link s) of
        Some conn \<Rightarrow> snd (bt_mesh_pb_gatt_close conn s)
      | None \<Rightarrow>
          let s = (if err \<noteq> 0 then prov_send_fail_msg err s else s);
              s = upd_link (\<lambda>l. l\<lparr>lk_rx_seg := 0\<rparr>) s;
              s = snd (bearer_ctl_send LINK_CLOSE [reason] s);
              s = upd_link (\<lambda>l. l\<lparr>lk_active := False\<rparr>) s
          in if byte_at (lk_conf_inputs (ms_link s)) 0 \<noteq> 0 then bt_mesh_attention None 0 s else s)"

section \<open>The handlers of provisioning PDUs\<close>

text \<open>An update of the confirmation inputs at a position.\<close>

definition put_inputs :: "nat \<Rightarrow> bytes \<Rightarrow> mesh \<Rightarrow> mesh" where
  "put_inputs pos bs s = upd_link (\<lambda>l. l\<lparr>lk_conf_inputs := put_bytes (lk_conf_inputs l) pos bs\<rparr>) s"

definition prov_invite :: "bytes \<Rightarrow> mesh \<Rightarrow> mesh" where
  "prov_invite data s =
     (let prov = ms_prov s;
          s = (if byte_at data 0 \<noteq> 0 then bt_mesh_attention None (byte_at data 0) s else s);
          s = put_inputs 0 [byte_at data 0] s;
          buf = prov_buf_init (PROV_BUF 12) PROV_CAPABILITIES;
          buf = net_buf_simple_add_u8 buf (bt_mesh_elem_count s);
          buf = net_buf_simple_add_be16 buf 1;
          buf = net_buf_simple_add_u8 buf (pv_public_key_type prov);
          buf = net_buf_simple_add_u8 buf (if pv_static_val prov \<noteq> None then 1 else 0x00);
          buf = net_buf_simple_add_u8 buf (pv_output_size prov);
          buf = net_buf_simple_add_be16 buf (pv_output_actions prov);
          buf = net_buf_simple_add_u8 buf (pv_input_size prov);
          buf = net_buf_simple_add_be16 buf (pv_input_actions prov);
          s = put_inputs 1 (map (nb_byte buf) [1..<12]) s;
          (err, s) = prov_send buf s
      in if err \<noteq> None then close_link PROV_ERR_RESOURCES CLOSE_REASON_FAILED s
         else
           let s = upd_link (\<lambda>l. l\<lparr>lk_expect := PROV_START\<rparr>) s
           in if lk_conn (ms_link s) \<noteq> None then log_ev (Ev_Genie (GENIE_EVT_SDK_MESH_PROV_START None)) s else s)"

definition prov_auth :: "u8 \<Rightarrow> u8 \<Rightarrow> u8 \<Rightarrow> mesh \<Rightarrow> errno option \<times> mesh" where
  "prov_auth method action sz s =
     (if method = AUTH_METHOD_STATIC then
        if action \<noteq> 0 \<or> sz \<noteq> 0 then (Some EINVAL, s)
        else
          let v = (case pv_static_val (ms_prov s) of None \<Rightarrow> [] | Some v \<Rightarrow> v)
          in (None, upd_link (\<lambda>l. l\<lparr>lk_auth := replicate (16 - length v) 0 @ take 16 v\<rparr>) s)
      else if method = AUTH_METHOD_NO_OOB then
        if action \<noteq> 0 \<or> sz \<noteq> 0 then (Some EINVAL, s)
        else (None, upd_link (\<lambda>l. l\<lparr>lk_auth := replicate 16 0\<rparr>) s)
      else (Some EINVAL, s))"

definition prov_start :: "bytes \<Rightarrow> mesh \<Rightarrow> mesh" where
  "prov_start data s =
     (if byte_at data 0 \<noteq> PROV_ALG_P256 \<or> byte_at data 1 \<noteq> pv_public_key_type (ms_prov s)
      then upd_link (\<lambda>l. l\<lparr>lk_expect := PROV_FAILED\<rparr>) (prov_send_fail_msg PROV_ERR_NVAL_FMT s)
      else
        let s = put_inputs 12 (map (byte_at data) [0..<5]) s;
            s = upd_link (\<lambda>l. l\<lparr>lk_expect := PROV_PUB_KEY\<rparr>) s;
            (err, s) = prov_auth (byte_at data 2) (byte_at data 3) (byte_at data 4) s
        in if err \<noteq> None then prov_send_fail_msg PROV_ERR_NVAL_FMT s else s)"

text \<open>The two steps that fill the salt and the key are kept when a later step fails.\<close>

definition send_confirm :: "prov_env \<Rightarrow> mesh \<Rightarrow> mesh" where
  "send_confirm env s =
     (case bt_mesh_prov_conf_salt (lk_conf_inputs (ms_link s)) of
        Inl err \<Rightarrow> close_link PROV_ERR_UNEXP_ERR CLOSE_REASON_FAILED s
      | Inr salt \<Rightarrow>
          let s = upd_link (\<lambda>l. l\<lparr>lk_conf_salt := salt\<rparr>) s in
          case bt_mesh_prov_conf_key (lk_dhkey (ms_link s)) (lk_conf_salt (ms_link s)) of
            Inl err \<Rightarrow> close_link PROV_ERR_UNEXP_ERR CLOSE_REASON_FAILED s
          | Inr key \<Rightarrow>
              let s = upd_link (\<lambda>l. l\<lparr>lk_conf_key := key\<rparr>) s in
              case pe_rand env of
                Inl err \<Rightarrow> close_link PROV_ERR_UNEXP_ERR CLOSE_REASON_FAILED s
              | Inr rnd \<Rightarrow>
                  let s = upd_link (\<lambda>l. l\<lparr>lk_rand := rnd, lk_auth := pe_auth env\<rparr>) s in
                  case bt_mesh_prov_conf (lk_conf_key (ms_link s)) (lk_rand (ms_link s)) (lk_auth (ms_link s)) of
                    Inl err \<Rightarrow> close_link PROV_ERR_UNEXP_ERR CLOSE_REASON_FAILED s
                  | Inr conf \<Rightarrow>
                      let (err, s) = prov_send (net_buf_simple_add_mem (prov_buf_init (PROV_BUF 17) PROV_CONFIRM) conf) s
                      in if err \<noteq> None then close_link PROV_ERR_RESOURCES CLOSE_REASON_FAILED s
                         else upd_link (\<lambda>l. l\<lparr>lk_expect := PROV_RANDOM\<rparr>) s)"

definition send_input_complete :: "mesh \<Rightarrow> mesh" where
  "send_input_complete s = snd (prov_send (prov_buf_init (PROV_BUF 1) PROV_INPUT_COMPLETE) s)"

text \<open>The common end of the two input functions.\<close>

definition input_done :: "prov_env \<Rightarrow> mesh \<Rightarrow> mesh" where
  "input_done env s =
     (let s = send_input_complete s in
      if \<not> lk_have_dhkey (ms_link s) then s
      else if lk_send_confirm (ms_link s) then send_confirm env (upd_link (\<lambda>l. l\<lparr>lk_send_confirm := False\<rparr>) s)
      else s)"

definition bt_mesh_input_number :: "prov_env \<Rightarrow> u32 \<Rightarrow> mesh \<Rightarrow> errno option \<times> mesh" where
  "bt_mesh_input_number env num s =
     (if \<not> lk_wait_number (ms_link s) then (Some EINVAL, s)
      else (None, input_done env
              (upd_link (\<lambda>l. l\<lparr>lk_wait_number := False, lk_auth := put_bytes (lk_auth l) 12 (sys_put_be32 num)\<rparr>) s)))"

definition bt_mesh_input_string :: "prov_env \<Rightarrow> bytes \<Rightarrow> mesh \<Rightarrow> errno option \<times> mesh" where
  "bt_mesh_input_string env str s =
     (if \<not> lk_wait_string (ms_link s) then (Some EINVAL, s)
      else
        let n = unat (pv_input_size (ms_prov s)); cs = take n (takeWhile (\<lambda>c. c \<noteq> 0) str)
        in (None, input_done env
              (upd_link (\<lambda>l. l\<lparr>lk_wait_string := False, lk_auth := put_bytes (lk_auth l) 0 (cs @ replicate (n - length cs) 0)\<rparr>) s)))"

definition prov_dh_key_cb :: "prov_env \<Rightarrow> bytes option \<Rightarrow> mesh \<Rightarrow> mesh" where
  "prov_dh_key_cb env key s =
     (case key of
        None \<Rightarrow> close_link PROV_ERR_UNEXP_ERR CLOSE_REASON_FAILED s
      | Some k \<Rightarrow>
          let s = upd_link (\<lambda>l. l\<lparr>lk_dhkey := rev (take 32 k), lk_have_dhkey := True\<rparr>) s in
          if lk_wait_number (ms_link s) \<or> lk_wait_string (ms_link s) then s
          else if lk_send_confirm (ms_link s) then send_confirm env (upd_link (\<lambda>l. l\<lparr>lk_send_confirm := False\<rparr>) s)
          else s)"

text \<open>A key of 64 bytes with both halves reversed.\<close>

definition swap_halves :: "bytes \<Rightarrow> bytes" where
  "swap_halves k = rev (take 32 k) @ rev (take 32 (drop 32 k))"

definition send_pub_key :: "prov_env \<Rightarrow> mesh \<Rightarrow> mesh" where
  "send_pub_key env s =
     (case pe_pub_key env of
        None \<Rightarrow> close_link PROV_ERR_RESOURCES CLOSE_REASON_FAILED s
      | Some key \<Rightarrow>
          let buf = net_buf_simple_add_mem (prov_buf_init (PROV_BUF 65) PROV_PUB_KEY) (swap_halves key);
              s = put_inputs 81 (map (nb_byte buf) [1..<65]) s;
              s = snd (prov_send buf s);
              s = log_ev (Ev_Dh_Key_Gen (swap_halves (get_bytes (lk_conf_inputs (ms_link s)) 17 64))) s
          in if pe_dh_gen env \<noteq> None then close_link PROV_ERR_UNEXP_ERR CLOSE_REASON_FAILED s
             else upd_link (\<lambda>l. l\<lparr>lk_expect := PROV_CONFIRM\<rparr>) s)"

definition prov_pub_key :: "prov_env \<Rightarrow> bytes \<Rightarrow> mesh \<Rightarrow> mesh" where
  "prov_pub_key env data s =
     (let s = put_inputs 17 (map (byte_at data) [0..<64]) s in
      if \<not> lk_local_pub_key (ms_link s) then upd_link (\<lambda>l. l\<lparr>lk_remote_pub_key := True\<rparr>) (prov_clear_tx s)
      else send_pub_key env s)"

definition pub_key_ready :: "prov_env \<Rightarrow> bytes option \<Rightarrow> mesh \<Rightarrow> mesh" where
  "pub_key_ready env pkey s =
     (case pkey of
        None \<Rightarrow> s
      | Some _ \<Rightarrow>
          let s = upd_link (\<lambda>l. l\<lparr>lk_local_pub_key := True\<rparr>) s in
          if lk_remote_pub_key (ms_link s) then send_pub_key env (upd_link (\<lambda>l. l\<lparr>lk_remote_pub_key := False\<rparr>) s)
          else s)"

definition prov_confirm :: "prov_env \<Rightarrow> bytes \<Rightarrow> mesh \<Rightarrow> mesh" where
  "prov_confirm env data s =
     (let s = upd_link (\<lambda>l. l\<lparr>lk_conf := map (byte_at data) [0..<16]\<rparr>) s in
      if \<not> lk_have_dhkey (ms_link s) then upd_link (\<lambda>l. l\<lparr>lk_send_confirm := True\<rparr>) (prov_clear_tx s)
      else send_confirm env s)"

definition prov_random :: "prov_env \<Rightarrow> bytes \<Rightarrow> mesh \<Rightarrow> mesh" where
  "prov_random env data s =
     (let s = upd_link (\<lambda>l. l\<lparr>lk_auth := pe_auth env\<rparr>) s; rnd = map (byte_at data) [0..<16] in
      case bt_mesh_prov_conf (lk_conf_key (ms_link s)) rnd (lk_auth (ms_link s)) of
        Inl err \<Rightarrow> close_link PROV_ERR_UNEXP_ERR CLOSE_REASON_FAILED s
      | Inr conf_verify \<Rightarrow>
          if conf_verify \<noteq> lk_conf (ms_link s)
          then upd_link (\<lambda>l. l\<lparr>lk_expect := PROV_FAILED\<rparr>) (prov_send_fail_msg PROV_ERR_CFM_FAILED s)
          else
            let (err, s) = prov_send (net_buf_simple_add_mem (prov_buf_init (PROV_BUF 16) PROV_RANDOM) (lk_rand (ms_link s))) s
            in if err \<noteq> None then close_link PROV_ERR_RESOURCES CLOSE_REASON_FAILED s
            else case bt_mesh_prov_salt (lk_conf_salt (ms_link s)) rnd (lk_rand (ms_link s)) of
              Inl err \<Rightarrow> close_link PROV_ERR_UNEXP_ERR CLOSE_REASON_FAILED s
            | Inr salt \<Rightarrow> upd_link (\<lambda>l. l\<lparr>lk_prov_salt := salt, lk_expect := PROV_DATA\<rparr>) s)"

definition prov_data :: "bytes \<Rightarrow> mesh \<Rightarrow> mesh" where
  "prov_data data s =
     (let dhkey = lk_dhkey (ms_link s); salt = lk_prov_salt (ms_link s) in
      case bt_mesh_session_key dhkey salt of
        Inl err \<Rightarrow> close_link PROV_ERR_UNEXP_ERR CLOSE_REASON_FAILED s
      | Inr session_key \<Rightarrow>
          case bt_mesh_prov_nonce dhkey salt of
            Inl err \<Rightarrow> close_link PROV_ERR_UNEXP_ERR CLOSE_REASON_FAILED s
          | Inr nonce \<Rightarrow>
              (case bt_mesh_prov_decrypt session_key nonce data of
                 (Some err, pdu) \<Rightarrow> upd_link (\<lambda>l. l\<lparr>lk_expect := PROV_FAILED\<rparr>) (prov_send_fail_msg PROV_ERR_DECRYPT s)
               | (None, pdu) \<Rightarrow>
                   case bt_mesh_dev_key dhkey salt of
                     Inl err \<Rightarrow> close_link PROV_ERR_UNEXP_ERR CLOSE_REASON_FAILED s
                   | Inr dev_key \<Rightarrow>
                       let net_idx = sys_get_be16 (get_bytes pdu 16 2);
                           flags = byte_at pdu 18;
                           iv_index = sys_get_be32 (get_bytes pdu 19 4);
                           addr = sys_get_be16 (get_bytes pdu 23 2);
                           s = log_ev (Ev_Genie (GENIE_EVT_SDK_MESH_PROV_DATA addr)) s;
                           s = snd (prov_send (prov_buf_init (PROV_BUF 1) PROV_COMPLETE) s);
                           s = upd_link (\<lambda>l. l\<lparr>lk_expect := 0\<rparr>) s
                       in snd (bt_mesh_provision (take 16 pdu) net_idx flags iv_index 0 addr dev_key s)))"

text \<open>
  \<^verbatim>\<open>prov_handlers\<close>: capabilities, input complete, complete and failed only write to the log.
\<close>

definition prov_handlers :: "prov_env \<Rightarrow> ((bytes \<Rightarrow> mesh \<Rightarrow> mesh) \<times> nat) list" where
  "prov_handlers env =
     [(prov_invite, 1), (\<lambda>data s. s, 11), (prov_start, 5), (prov_pub_key env, 64), (\<lambda>data s. s, 0), (prov_confirm env, 16),
      (prov_random env, 16), (prov_data, 33), (\<lambda>data s. s, 0), (\<lambda>data s. s, 1)]"

section \<open>The advertising bearer: receiving\<close>

definition prov_retransmit :: "prov_env \<Rightarrow> mesh \<Rightarrow> mesh" where
  "prov_retransmit env s =
     (if \<not> lk_active (ms_link s) then s
      else if k_uptime_get s - lk_tx_start (ms_link s) > TRANSACTION_TIMEOUT then reset_link env s
      else send_bufs True [0..<3] s)"

text \<open>The receive buffer, an update of it and a copy into it at a position.\<close>

definition link_buf :: "mesh \<Rightarrow> net_buf_simple" where
  "link_buf s = cl_buf (get_client s 0)"

definition upd_link_buf :: "(net_buf_simple \<Rightarrow> net_buf_simple) \<Rightarrow> mesh \<Rightarrow> mesh" where
  "upd_link_buf f s = upd_client 0 (\<lambda>cl. cl\<lparr>cl_buf := f (cl_buf cl)\<rparr>) s"

definition raw_copy :: "int \<Rightarrow> bytes \<Rightarrow> net_buf_simple \<Rightarrow> net_buf_simple" where
  "raw_copy pos bs b =
     (let p = int (nb_off b) + pos in
      if p < 0 \<or> p + int (length bs) > int (length (nb_buf b)) then b\<lparr>nb_fault := True\<rparr>
      else nb_put b (nat pos) bs)"

definition link_open :: "prov_rx \<Rightarrow> net_buf_simple \<Rightarrow> mesh \<Rightarrow> mesh" where
  "link_open rx buf s =
     (if nb_len buf < 16 then s
      else if lk_active (ms_link s) then s
      else if map (nb_byte buf) [0..<16] \<noteq> take 16 (pv_uuid (ms_prov s)) then s
      else
        let s = (if pv_link_open (ms_prov s) then log_ev (Ev_Link_Open BT_MESH_PROV_ADV) s else s);
            s = upd_link (\<lambda>l. l\<lparr>lk_id := pr_link_id rx, lk_active := True\<rparr>) s
        in if \<not> lk_rx_buf (ms_link s) then log_ev Ev_Null s
           else
             let s = upd_link_buf (\<lambda>b. net_buf_simple_init b 0) s;
                 s = snd (bearer_ctl_send LINK_ACK [] s);
                 s = log_ev (Ev_Genie (GENIE_EVT_SDK_MESH_PROV_START (Some (pr_link_id rx)))) s
             in upd_link (\<lambda>l. l\<lparr>lk_expect := PROV_INVITE\<rparr>) s)"

definition link_close :: "prov_env \<Rightarrow> mesh \<Rightarrow> mesh" where
  "link_close env s = reset_link env s"

definition gen_prov_ctl :: "prov_env \<Rightarrow> prov_rx \<Rightarrow> net_buf_simple \<Rightarrow> mesh \<Rightarrow> mesh" where
  "gen_prov_ctl env rx buf s =
     (let op = BEARER_CTL (pr_gpc rx) in
      if op = LINK_OPEN then link_open rx buf s
      else if op = LINK_ACK then s
      else if op = LINK_CLOSE then (if \<not> lk_active (ms_link s) then s else link_close env s)
      else s)"

definition prov_msg_recv :: "prov_env \<Rightarrow> mesh \<Rightarrow> mesh" where
  "prov_msg_recv env s =
     (let type = nb_byte (link_buf s) 0 in
      if \<not> bt_mesh_fcs_check (link_buf s) (lk_rx_fcs (ms_link s)) then s
      else
        let s = gen_prov_ack_send (lk_rx_id (ms_link s)) s;
            s = upd_link (\<lambda>l. l\<lparr>lk_rx_prev_id := lk_rx_id l, lk_rx_id := 0\<rparr>) s
        in if type \<noteq> PROV_FAILED \<and> type \<noteq> lk_expect (ms_link s)
           then upd_link (\<lambda>l. l\<lparr>lk_expect := PROV_FAILED\<rparr>) (prov_send_fail_msg PROV_ERR_UNEXP_PDU s)
           else if unat type \<ge> length (prov_handlers env) then close_link PROV_ERR_NVAL_PDU CLOSE_REASON_FAILED s
           else
             let (func, len) = prov_handlers env ! unat type in
             if 1 + len \<noteq> nb_len (link_buf s) then close_link PROV_ERR_NVAL_FMT CLOSE_REASON_FAILED s
             else func (map (nb_byte (link_buf s)) [1..<1 + len]) s)"

definition XACT_SEG_DATA :: "u8 \<Rightarrow> int" where
  "XACT_SEG_DATA seg = 20 + (int (unat seg) - 1) * 23"

definition XACT_SEG_RECV :: "u8 \<Rightarrow> mesh \<Rightarrow> mesh" where
  "XACT_SEG_RECV seg s = upd_link (\<lambda>l. l\<lparr>lk_rx_seg := lk_rx_seg l AND NOT (push_bit (unat seg) 1)\<rparr>) s"

definition gen_prov_cont :: "prov_env \<Rightarrow> prov_rx \<Rightarrow> net_buf_simple \<Rightarrow> mesh \<Rightarrow> mesh" where
  "gen_prov_cont env rx buf s =
     (let seg = CONT_SEG_INDEX (pr_gpc rx); l = ms_link s in
      if lk_rx_seg l = 0 \<and> lk_rx_prev_id l = pr_xact_id rx then gen_prov_ack_send (pr_xact_id rx) s
      else if pr_xact_id rx \<noteq> lk_rx_id l then s
      else if seg > lk_rx_last_seg l then close_link PROV_ERR_NVAL_FMT CLOSE_REASON_FAILED s
      else if seg = lk_rx_last_seg l \<and> \<not> lk_rx_buf l then log_ev Ev_Null s
      else if seg = lk_rx_last_seg l \<and>
              int (nb_len buf) \<noteq> (int (nb_len (link_buf s)) - 20 - 23 * (int (unat (lk_rx_last_seg l)) - 1)) mod 256
           then close_link PROV_ERR_NVAL_FMT CLOSE_REASON_FAILED s
      else if lk_rx_seg l AND push_bit (unat seg) 1 = 0 then s
      else if \<not> lk_rx_buf l then log_ev Ev_Null s
      else
        let s = upd_link_buf (raw_copy (XACT_SEG_DATA seg) (nb_data buf)) s;
            s = XACT_SEG_RECV seg s
        in if lk_rx_seg (ms_link s) = 0 then prov_msg_recv env s else s)"

definition gen_prov_ack :: "prov_rx \<Rightarrow> mesh \<Rightarrow> mesh" where
  "gen_prov_ack rx s =
     (if lk_tx_buf (ms_link s) ! 0 = None then s
      else if pr_xact_id rx = lk_tx_id (ms_link s) then prov_clear_tx s
      else s)"

text \<open>
  The bit field is a byte: for eight or more segments it is \<^verbatim>\<open>0xff\<close> (also where the shift of the code
  leaves the width of \<^verbatim>\<open>int\<close>, which yields zero on the Arm cores the stack runs on).
\<close>

definition gen_prov_start :: "prov_env \<Rightarrow> prov_rx \<Rightarrow> net_buf_simple \<Rightarrow> mesh \<Rightarrow> mesh" where
  "gen_prov_start env rx buf s =
     (if lk_rx_seg (ms_link s) \<noteq> 0 then s
      else if lk_rx_prev_id (ms_link s) = pr_xact_id rx then gen_prov_ack_send (pr_xact_id rx) s
      else if \<not> lk_rx_buf (ms_link s) then log_ev Ev_Null s
      else
        let (len, buf) = net_buf_simple_pull_be16 buf;
            s = upd_link_buf (\<lambda>b. b\<lparr>nb_len := unat len\<rparr>) s;
            (fcs, buf) = net_buf_simple_pull_u8 buf;
            s = upd_link (\<lambda>l. l\<lparr>lk_rx_id := pr_xact_id rx, lk_rx_fcs := fcs\<rparr>) s;
            last = START_LAST_SEG (pr_gpc rx)
        in if nb_len (link_buf s) < 1 then close_link PROV_ERR_NVAL_FMT CLOSE_REASON_FAILED s
           else if nb_len (link_buf s) > length (nb_buf (link_buf s)) then close_link PROV_ERR_NVAL_FMT CLOSE_REASON_FAILED s
           else if last > 0 \<and> nb_len (link_buf s) \<le> 20 then close_link PROV_ERR_NVAL_FMT CLOSE_REASON_FAILED s
           else
             let s = upd_link (\<lambda>l. l\<lparr>lk_rx_seg := of_nat (2 ^ (unat last + 1) - 1), lk_rx_last_seg := last\<rparr>) s;
                 s = upd_link_buf (raw_copy 0 (nb_data buf)) s;
                 s = XACT_SEG_RECV 0 s
             in if lk_rx_seg (ms_link s) = 0 then prov_msg_recv env s else s)"

text \<open>\<^verbatim>\<open>gen_prov\<close>: the function, whether a link is required, and the minimal length.\<close>

definition gen_prov :: "prov_env \<Rightarrow> ((prov_rx \<Rightarrow> net_buf_simple \<Rightarrow> mesh \<Rightarrow> mesh) \<times> bool \<times> nat) list" where
  "gen_prov env =
     [(gen_prov_start env, True, 3), (\<lambda>rx buf. gen_prov_ack rx, True, 0), (gen_prov_cont env, True, 0), (gen_prov_ctl env, False, 0)]"

definition gen_prov_recv :: "prov_env \<Rightarrow> prov_rx \<Rightarrow> net_buf_simple \<Rightarrow> mesh \<Rightarrow> mesh" where
  "gen_prov_recv env rx buf s =
     (let (func, require_link, min_len) = gen_prov env ! unat (GPCF (pr_gpc rx)) in
      if nb_len buf < min_len then s
      else if \<not> lk_active (ms_link s) \<and> require_link then s
      else func rx buf s)"

definition bt_mesh_pb_adv_recv :: "prov_env \<Rightarrow> net_buf_simple \<Rightarrow> mesh \<Rightarrow> mesh" where
  "bt_mesh_pb_adv_recv env buf s =
     (if \<not> bt_prov_active s \<and> bt_mesh_is_provisioned s then s
      else if nb_len buf < 6 then s
      else
        let (link_id, buf) = net_buf_simple_pull_be32 buf;
            (xact_id, buf) = net_buf_simple_pull_u8 buf;
            (gpc, buf) = net_buf_simple_pull_u8 buf
        in if lk_active (ms_link s) \<and> lk_id (ms_link s) \<noteq> link_id then s
           else gen_prov_recv env \<lparr>pr_link_id = link_id, pr_xact_id = xact_id, pr_gpc = gpc\<rparr> buf s)"

section \<open>Provisioning over GATT: receiving\<close>

definition bt_mesh_pb_gatt_recv :: "prov_env \<Rightarrow> nat \<Rightarrow> net_buf_simple \<Rightarrow> mesh \<Rightarrow> errno option \<times> mesh" where
  "bt_mesh_pb_gatt_recv env conn buf s =
     (if lk_conn (ms_link s) \<noteq> Some conn then (Some ENOTCONN, s)
      else if nb_len buf < 1 then (Some EINVAL, s)
      else
        let (type, buf) = net_buf_simple_pull_u8 buf in
        if type \<noteq> PROV_FAILED \<and> type \<noteq> lk_expect (ms_link s) then (Some EINVAL, s)
        else if unat type \<ge> length (prov_handlers env) then (Some EINVAL, s)
        else
          let (func, len) = prov_handlers env ! unat type in
          if len \<noteq> nb_len buf then (Some EINVAL, s)
          else (None, func (map (nb_byte buf) [0..<len]) s))"

end
