(* ===== verification/Prov_Auth.thy ===== *)
theory Prov_Auth
  imports Prov
begin

text \<open>
  The provisioning protocol as a state machine. The steps are the entry points of \<^verbatim>\<open>prov.c\<close> (PDUs of both
  bearers, the platform's key callbacks, user input, the retransmission timer, connections) and
  everything else the stack does, which leaves the link alone. The main invariant: a node that expects
  provisioning data has checked the confirmation value of its peer against the authentication value. So
  a node is provisioned only by a peer that knew this value before it saw the node's random number.
\<close>

section \<open>The view of the link the protocol depends on\<close>

text \<open>\<open>pview\<close> blanks the fields of the bearers, the buffers and the confirmation inputs.\<close>

definition lview :: "prov_link \<Rightarrow> prov_link" where
  "lview l = prov_link0\<lparr>lk_have_dhkey := lk_have_dhkey l, lk_send_confirm := lk_send_confirm l, lk_wait_number := lk_wait_number l,
     lk_wait_string := lk_wait_string l, lk_dhkey := lk_dhkey l, lk_expect := lk_expect l, lk_conf := lk_conf l, lk_rand := lk_rand l,
     lk_conf_salt := lk_conf_salt l, lk_conf_key := lk_conf_key l, lk_prov_salt := lk_prov_salt l\<rparr>"

definition pview :: "mesh \<Rightarrow> prov_link \<times> bool" where
  "pview s = (lview (ms_link s), ms_provisioned s)"

named_theorems prov_frame

lemma lview_sel [simp]:
  "lk_have_dhkey (lview l) = lk_have_dhkey l" "lk_send_confirm (lview l) = lk_send_confirm l"
  "lk_wait_number (lview l) = lk_wait_number l" "lk_wait_string (lview l) = lk_wait_string l" "lk_dhkey (lview l) = lk_dhkey l"
  "lk_expect (lview l) = lk_expect l" "lk_conf (lview l) = lk_conf l" "lk_rand (lview l) = lk_rand l"
  "lk_conf_salt (lview l) = lk_conf_salt l" "lk_conf_key (lview l) = lk_conf_key l" "lk_prov_salt (lview l) = lk_prov_salt l"
  by (simp_all add: lview_def)

lemma pview_fields [prov_frame]:
  "pview (log_ev e s) = pview s" "pview (upd_buf i f s) = pview s" "pview (on_buf i g s) = pview s" "pview (net_buf_ref i s) = pview s"
  "pview (net_buf_unref i s) = pview s" "pview (bt_mesh_adv_send i cb s) = pview s" "pview (k_delayed_work_cancel w s) = pview s"
  "pview (k_delayed_work_submit w d s) = pview s" "pview (k_delayed_work_init w s) = pview s" "pview (upd_client c h s) = pview s"
  "pview (s\<lparr>ms_pending_ack := n\<rparr>) = pview s" "pview (bt_mesh_adv_update s) = pview s"
  by (simp_all add: pview_def log_ev_def upd_buf_def on_buf_def net_buf_ref_def net_buf_unref_def bt_mesh_adv_send_def
      k_delayed_work_cancel_def k_delayed_work_submit_def k_delayed_work_init_def upd_client_def bt_mesh_adv_update_def Let_def)

lemma pview_upd_link [prov_frame]: "(\<And>l. lview (f l) = lview l) \<Longrightarrow> pview (upd_link f s) = pview s"
  by (simp add: pview_def upd_link_def)

lemma pview_alloc: "net_buf_alloc s = (r, s') \<Longrightarrow> pview s' = pview s"
  by (auto simp: net_buf_alloc_def pview_def upd_buf_def Let_def split: if_splits list.splits)

lemma pview_adv_create: "adv_buf_create s = (r, s') \<Longrightarrow> pview s' = pview s"
  by (auto simp: adv_buf_create_def bt_mesh_adv_create_def prov_frame dest: pview_alloc split: prod.splits option.splits)

section \<open>Sending keeps the view\<close>

lemma pview_fold: "(\<And>i s. i \<in> set is \<Longrightarrow> pview (f i s) = pview s) \<Longrightarrow> pview (fold f is s) = pview s"
  by (induction "is" arbitrary: s) simp_all

lemma pview_free_segments [prov_frame]: "pview (free_segments s) = pview s"
proof -
  let ?f = "\<lambda>i (stop, s). case lk_tx_buf (ms_link s) ! i of None \<Rightarrow> (True, s)
    | Some b \<Rightarrow> if stop then (stop, s)
      else let s = upd_link (\<lambda>l. l\<lparr>lk_tx_buf := (lk_tx_buf l)[i := None]\<rparr>) s;
               s = upd_buf b (\<lambda>buf. buf\<lparr>bf_adv := (bf_adv buf)\<lparr>ad_busy := False\<rparr>\<rparr>) s in (False, net_buf_unref b s)"
  have step: "pview (snd (?f i r)) = pview (snd r)" for i r
    by (cases r) (simp add: Let_def prov_frame lview_def split: option.splits)
  have "pview (snd (fold ?f is r)) = pview (snd r)" for "is" r
    by (induction "is" arbitrary: r) (simp_all only: fold_simps o_apply step)
  from this [of "[0..<3]" "(False, s)"] show ?thesis by (simp only: free_segments_def snd_conv)
qed

lemma pview_clear_tx [prov_frame]: "pview (prov_clear_tx s) = pview s"
  by (simp add: prov_clear_tx_def prov_frame)

lemma pview_send_bufs [prov_frame]: "pview (send_bufs b is s) = pview s"
  by (induction b "is" s rule: send_bufs.induct) (auto simp: prov_frame Let_def split: option.splits)

lemma pview_send_reliable [prov_frame]: "pview (send_reliable s) = pview s"
  by (simp add: send_reliable_def prov_frame lview_def)

lemma pview_ctl_send [prov_frame]: "pview (snd (bearer_ctl_send op data s)) = pview s"
  by (auto simp: bearer_ctl_send_def Let_def prov_frame lview_def dest!: pview_adv_create split: prod.splits option.splits)

lemma pview_cont_loop: "pview (snd (prov_cont_loop n x msg s)) = pview s"
proof (induction n x msg s rule: prov_cont_loop.induct)
  case (1 n x msg s)
  show ?case
  proof (cases "nb_len msg = 0 \<or> n \<ge> 3")
    case True
    then show ?thesis by (subst prov_cont_loop.simps) (auto simp: prov_frame)
  next
    case False
    obtain r s1 where c: "adv_buf_create s = (r, s1)" by (metis surj_pair)
    show ?thesis
    proof (cases r)
      case None
      then show ?thesis using False c by (subst prov_cont_loop.simps) (simp add: prov_frame pview_adv_create [OF c])
    next
      case (Some b)
      then show ?thesis
        using False c 1 [OF _ _ c [symmetric] Some refl refl refl refl refl refl]
        by (subst prov_cont_loop.simps) (simp add: Let_def prov_frame lview_def pview_adv_create [OF c])
    qed
  qed
qed

lemma pview_send_adv: "pview (snd (prov_send_adv msg s)) = pview s"
  by (auto simp: prov_send_adv_def next_transaction_id_def Let_def prov_frame lview_def dest!: pview_adv_create
        arg_cong [of "prov_cont_loop _ _ _ _" _ "\<lambda>r. pview (snd r)"] simp: pview_cont_loop split: prod.splits option.splits)

lemma pview_only_log: "only_log s s' \<Longrightarrow> pview s' = pview s"
  by (auto simp: only_log_def pview_def)

lemma pview_proxy_send: "pview (snd (bt_mesh_proxy_send conn type msg s)) = pview s"
  by (auto simp: bt_mesh_proxy_send_def intro: pview_only_log [OF only_log_segment] split: option.splits)

lemma pview_send [prov_frame]: "pview (snd (prov_send msg s)) = pview s"
  by (auto simp: prov_send_def prov_send_gatt_def pview_send_adv pview_proxy_send split: option.splits)

lemma pview_send': "prov_send msg s = (err, s') \<Longrightarrow> pview s' = pview s"
  using pview_send [of msg s] by simp

lemma pview_messages [prov_frame]:
  "pview (prov_send_fail_msg err s) = pview s" "pview (send_input_complete s) = pview s"
  "pview (gen_prov_ack_send x s) = pview s" "pview (bt_mesh_attention m t s) = pview s" "pview (put_inputs pos bs s) = pview s"
  by (auto simp: prov_send_fail_msg_def send_input_complete_def gen_prov_ack_send_def bt_mesh_attention_def put_inputs_def Let_def
      prov_frame lview_def dest!: pview_adv_create split: prod.splits option.splits)

section \<open>Closing and resetting the link\<close>

text \<open>A cleared link.\<close>

lemma lview0 [simp]: "lview prov_link0 = prov_link0" "lview (prov_link0\<lparr>lk_local_pub_key := b\<rparr>) = prov_link0"
  "lview (prov_link0\<lparr>lk_rx_prev_id := x, lk_local_pub_key := b\<rparr>) = prov_link0"
  by (simp_all add: lview_def prov_link0_def)

definition cleared :: "mesh \<Rightarrow> mesh \<Rightarrow> bool" where
  "cleared s s' \<longleftrightarrow> pview s' = pview s \<or> pview s' = (prov_link0, ms_provisioned s)"

lemma cleared_refl [simp]: "pview s' = pview s \<Longrightarrow> cleared s s'"
  by (simp add: cleared_def)

lemma cleared_trans: "cleared s t \<Longrightarrow> cleared t u \<Longrightarrow> cleared s u"
  by (auto simp: cleared_def pview_def)

lemma pview_set_link: "pview (upd_link (\<lambda>_. l) s) = (lview l, ms_provisioned s)"
  by (simp add: pview_def upd_link_def)

lemma prov_keep: "pview s' = pview s \<Longrightarrow> ms_provisioned s' = ms_provisioned s"
  by (simp add: pview_def)

lemma cleared_gatt_close: "cleared s (snd (bt_mesh_pb_gatt_close conn s))"
proof (cases "lk_conn (ms_link s) = Some conn")
  case True
  let ?a = "if byte_at (lk_conf_inputs (ms_link s)) 0 \<noteq> 0 then bt_mesh_attention None 0 s else s"
  let ?b = "if pv_link_close (ms_prov ?a) then log_ev (Ev_Link_Close BT_MESH_PROV_GATT) ?a else ?a"
  have "pview (k_delayed_work_init W_Prov_Retransmit ?b) = pview s" by (simp add: prov_frame)
  from prov_keep [OF this] True show ?thesis by (simp add: bt_mesh_pb_gatt_close_def Let_def cleared_def pview_set_link)
qed (simp add: bt_mesh_pb_gatt_close_def)

lemma cleared_close_link: "cleared s (close_link err reason s)"
proof (cases "lk_conn (ms_link s)")
  case None
  then show ?thesis by (simp add: close_link_def Let_def prov_frame lview_def)
next
  case (Some conn)
  then show ?thesis by (simp add: close_link_def cleared_gatt_close)
qed

lemma pview_reset_link: "pview (reset_link env s) = (prov_link0, ms_provisioned s)"
proof -
  let ?a = "prov_clear_tx s"
  let ?b = "if pv_link_close (ms_prov ?a) then log_ev (Ev_Link_Close BT_MESH_PROV_ADV) ?a else ?a"
  have b: "ms_provisioned ?b = ms_provisioned s" by (rule prov_keep) (simp add: prov_frame)
  show ?thesis
    by (simp add: reset_link_def Let_def bt_mesh_proxy_get_buf_def prov_frame pview_set_link b lview_def [of "_ \<lparr>lk_rx_buf := _\<rparr>"] flip: lview_def)
qed

section \<open>The invariant\<close>

text \<open>
  The peer's confirmation value was computed from the authentication value and a random number that the
  peer has disclosed, and the session salt comes from both random numbers.
\<close>

definition authenticated :: "bytes \<Rightarrow> prov_link \<Rightarrow> bool" where
  "authenticated auth l \<longleftrightarrow>
     (\<exists>rnd. length rnd = 16 \<and> bt_mesh_prov_conf (lk_conf_key l) rnd auth = Inr (lk_conf l) \<and>
        bt_mesh_prov_salt (lk_conf_salt l) rnd (lk_rand l) = Inr (lk_prov_salt l))"

definition auth_inv :: "bytes \<Rightarrow> prov_link \<Rightarrow> bool" where
  "auth_inv auth l \<longleftrightarrow>
     \<not> lk_wait_number l \<and> \<not> lk_wait_string l \<and> (lk_have_dhkey l \<longrightarrow> \<not> lk_send_confirm l) \<and>
     (lk_expect l = PROV_RANDOM \<or> lk_expect l = PROV_DATA \<longrightarrow> lk_have_dhkey l) \<and>
     (lk_expect l = PROV_DATA \<longrightarrow> authenticated auth l)"

lemma authenticated_lview [simp]: "authenticated auth (lview l) = authenticated auth l"
  by (simp add: authenticated_def)

lemma auth_inv_lview [simp]: "auth_inv auth (lview l) = auth_inv auth l"
  by (simp add: auth_inv_def)

lemma auth_inv_view: "lview l = lview l' \<Longrightarrow> auth_inv auth l = auth_inv auth l'"
  using auth_inv_lview [of auth l] auth_inv_lview [of auth l'] by simp

lemmas prov_codes = PROV_INVITE_def PROV_CAPABILITIES_def PROV_START_def PROV_PUB_KEY_def PROV_INPUT_COMPLETE_def PROV_CONFIRM_def
  PROV_RANDOM_def PROV_DATA_def PROV_COMPLETE_def PROV_FAILED_def

lemma auth_inv0 [simp]: "auth_inv auth prov_link0"
  by (simp add: auth_inv_def prov_link0_def prov_codes)

lemma auth_inv_cleared: "lview l = prov_link0 \<Longrightarrow> auth_inv auth l"
  using auth_inv_lview [of auth l] by simp

text \<open>A step that keeps the invariant and does not provision the node.\<close>

definition good :: "bytes \<Rightarrow> mesh \<Rightarrow> mesh \<Rightarrow> bool" where
  "good auth s s' \<longleftrightarrow>
     (auth_inv auth (ms_link s) \<longrightarrow> auth_inv auth (ms_link s') \<and> (ms_provisioned s' \<longrightarrow> ms_provisioned s))"

lemma good_trans: "good auth s t \<Longrightarrow> good auth t u \<Longrightarrow> good auth s u"
  by (auto simp: good_def)

lemma pview_inv: "pview s' = pview s \<Longrightarrow> auth_inv auth (ms_link s') = auth_inv auth (ms_link s)"
  by (rule auth_inv_view) (simp add: pview_def)

lemma good_frame [simp]: "pview s' = pview s \<Longrightarrow> good auth s s'"
  using pview_inv [of s' s auth] prov_keep [of s' s] by (simp add: good_def)

lemma good_cleared: "cleared s s' \<Longrightarrow> good auth s s'"
  unfolding cleared_def
proof (elim disjE)
  assume "pview s' = (prov_link0, ms_provisioned s)"
  then have "lview (ms_link s') = prov_link0" "ms_provisioned s' = ms_provisioned s" by (simp_all add: pview_def)
  then show ?thesis by (simp add: good_def auth_inv_cleared)
qed simp

lemmas good_close = good_cleared [OF cleared_close_link]

lemma good_expect: "e \<noteq> PROV_RANDOM \<Longrightarrow> e \<noteq> PROV_DATA \<Longrightarrow> good auth s (upd_link (\<lambda>l. l\<lparr>lk_expect := e\<rparr>) s)"
  by (simp add: good_def upd_link_def auth_inv_def)

lemma good_after: "pview t = pview s \<Longrightarrow> good auth t u \<Longrightarrow> good auth s u"
  by (rule good_trans [OF good_frame])

lemma good_then: "good auth s t \<Longrightarrow> pview u = pview t \<Longrightarrow> good auth s u"
  by (rule good_trans [OF _ good_frame])

section \<open>The handlers\<close>

lemma case_send:
  "(\<And>err t. pview t = pview s \<Longrightarrow> good auth s0 (f err t)) \<Longrightarrow> good auth s0 (case prov_send msg s of (err, t) \<Rightarrow> f err t)"
  by (cases "prov_send msg s") (simp add: pview_send')

lemma good_invite: "good auth s (prov_invite data s)"
proof -
  have ok: "good auth s (if err \<noteq> None then close_link PROV_ERR_RESOURCES CLOSE_REASON_FAILED t
      else let s = upd_link (\<lambda>l. l\<lparr>lk_expect := PROV_START\<rparr>) t
           in if lk_conn (ms_link s) \<noteq> None then log_ev (Ev_Genie (GENIE_EVT_SDK_MESH_PROV_START None)) s else s)"
    if "pview t = pview s" for err t
    using good_after [OF that good_close] good_then [OF good_after [OF that good_expect [of PROV_START]]]
    by (simp add: Let_def prov_codes prov_frame)
  show ?thesis
    unfolding prov_invite_def Let_def
    by (rule case_send, rule ok [unfolded Let_def], erule trans) (simp only: prov_frame split: if_split, simp)
qed

lemma pview_auth_field [prov_frame]: "pview (upd_link (\<lambda>l. l\<lparr>lk_auth := a\<rparr>) s) = pview s"
  by (simp add: prov_frame lview_def)

lemma pview_prov_auth: "prov_auth m a z s = (err, s') \<Longrightarrow> pview s' = pview s"
  by (auto simp: prov_auth_def Let_def prov_frame split: if_splits)

lemma good_start: "good auth s (prov_start data s)"
proof (cases "byte_at data 0 \<noteq> PROV_ALG_P256 \<or> byte_at data 1 \<noteq> pv_public_key_type (ms_prov s)")
  case True
  then show ?thesis
    unfolding prov_start_def by (simp add: good_after [OF _ good_expect] prov_frame prov_codes)
next
  case False
  let ?s1 = "put_inputs 12 (map (byte_at data) [0..<5]) s"
  let ?s2 = "upd_link (\<lambda>l. l\<lparr>lk_expect := PROV_PUB_KEY\<rparr>) ?s1"
  obtain err s3 where a: "prov_auth (byte_at data 2) (byte_at data 3) (byte_at data 4) ?s2 = (err, s3)" by (metis surj_pair)
  have g: "good auth s ?s2" by (rule good_after [OF _ good_expect]) (simp_all add: prov_frame prov_codes)
  have "prov_start data s = (if err \<noteq> None then prov_send_fail_msg PROV_ERR_NVAL_FMT s3 else s3)"
    using False a by (simp add: prov_start_def Let_def)
  moreover have "pview (if err \<noteq> None then prov_send_fail_msg PROV_ERR_NVAL_FMT s3 else s3) = pview ?s2"
    using pview_prov_auth [OF a] by (simp add: prov_frame)
  ultimately show ?thesis using good_trans [OF g good_frame] by simp
qed

text \<open>\<^verbatim>\<open>send_confirm\<close> needs the Diffie-Hellman key and must not run while provisioning data is expected.\<close>

definition may_confirm :: "mesh \<Rightarrow> bool" where
  "may_confirm s \<longleftrightarrow> lk_have_dhkey (ms_link s) \<and> lk_expect (ms_link s) \<noteq> PROV_DATA"

lemma may_confirm_frame: "pview t = pview s \<Longrightarrow> may_confirm t = may_confirm s"
  using lview_sel [of "ms_link s"] lview_sel [of "ms_link t"] by (simp add: may_confirm_def pview_def)

definition conf_ok :: "bytes \<Rightarrow> mesh \<Rightarrow> mesh \<Rightarrow> bool" where
  "conf_ok auth s t \<longleftrightarrow> good auth s t \<and> may_confirm t"

lemma conf_close: "conf_ok auth s t \<Longrightarrow> good auth s (close_link err reason t)"
  by (auto simp: conf_ok_def intro: good_trans good_close)

lemma conf_link:
  assumes "conf_ok auth s t" "\<And>l. lk_expect (f l) = lk_expect l" "\<And>l. lk_have_dhkey (f l) = lk_have_dhkey l"
    "\<And>l. lk_send_confirm (f l) = lk_send_confirm l" "\<And>l. lk_wait_number (f l) = lk_wait_number l" "\<And>l. lk_wait_string (f l) = lk_wait_string l"
  shows "conf_ok auth s (upd_link f t)"
proof -
  have "good auth t (upd_link f t)" "may_confirm (upd_link f t)"
    using assms by (auto simp: conf_ok_def good_def upd_link_def auth_inv_def may_confirm_def)
  with assms(1) show ?thesis by (auto simp: conf_ok_def intro: good_trans)
qed

lemma conf_sent:
  assumes "conf_ok auth s t" "pview u = pview t"
  shows "good auth s (if err \<noteq> None then close_link PROV_ERR_RESOURCES CLOSE_REASON_FAILED u
    else upd_link (\<lambda>l. l\<lparr>lk_expect := PROV_RANDOM\<rparr>) u)"
proof -
  have u: "conf_ok auth s u" using assms may_confirm_frame [OF assms(2)] by (auto simp: conf_ok_def intro: good_then)
  then have "good auth u (upd_link (\<lambda>l. l\<lparr>lk_expect := PROV_RANDOM\<rparr>) u)"
    by (auto simp: conf_ok_def good_def upd_link_def auth_inv_def may_confirm_def prov_codes)
  with u show ?thesis by (auto simp: conf_ok_def intro: good_trans good_close)
qed

lemma case_sum_good:
  "(\<And>e. x = Inl e \<Longrightarrow> good auth s (a e)) \<Longrightarrow> (\<And>b. x = Inr b \<Longrightarrow> good auth s (c b)) \<Longrightarrow> good auth s (case x of Inl e \<Rightarrow> a e | Inr b \<Rightarrow> c b)"
  by (cases x) simp_all

lemma good_send_confirm:
  assumes "may_confirm s"
  shows "good auth s (send_confirm env s)"
proof -
  have 0: "conf_ok auth s s" using assms by (simp add: conf_ok_def)
  have 1: "conf_ok auth s (upd_link (\<lambda>l. l\<lparr>lk_conf_salt := salt\<rparr>) s)" for salt by (rule conf_link [OF 0]) simp_all
  have 2: "conf_ok auth s (upd_link (\<lambda>l. l\<lparr>lk_conf_key := key\<rparr>) (upd_link (\<lambda>l. l\<lparr>lk_conf_salt := salt\<rparr>) s))" for salt key
    by (rule conf_link [OF 1]) simp_all
  have 3: "conf_ok auth s (upd_link (\<lambda>l. l\<lparr>lk_rand := rnd, lk_auth := pe_auth env\<rparr>)
      (upd_link (\<lambda>l. l\<lparr>lk_conf_key := key\<rparr>) (upd_link (\<lambda>l. l\<lparr>lk_conf_salt := salt\<rparr>) s)))" for salt key rnd
    by (rule conf_link [OF 2]) simp_all
  show ?thesis
    unfolding send_confirm_def Let_def
    by (intro case_sum_good conf_close [OF 0] conf_close [OF 1] conf_close [OF 2] conf_close [OF 3] case_send conf_sent [OF 3])
qed

lemma good_confirm:
  assumes "lk_expect (ms_link s) = PROV_CONFIRM"
  shows "good auth s (prov_confirm env data s)"
proof -
  let ?s1 = "upd_link (\<lambda>l. l\<lparr>lk_conf := map (byte_at data) [0..<16]\<rparr>) s"
  have g1: "good auth s ?s1" using assms by (simp add: good_def upd_link_def auth_inv_def prov_codes)
  show ?thesis
  proof (cases "lk_have_dhkey (ms_link ?s1)")
    case True
    then have "may_confirm ?s1" using assms by (simp add: may_confirm_def upd_link_def prov_codes)
    with True g1 show ?thesis by (simp add: prov_confirm_def Let_def good_trans good_send_confirm)
  next
    case False
    let ?s2 = "prov_clear_tx ?s1"
    have p: "pview ?s2 = pview ?s1" by (simp add: prov_frame)
    have "lview (ms_link ?s2) = lview (ms_link ?s1)" using p by (simp add: pview_def)
    then have l: "lk_have_dhkey (ms_link ?s2) = lk_have_dhkey (ms_link ?s1)" "lk_expect (ms_link ?s2) = lk_expect (ms_link ?s1)"
      by (metis lview_sel(1), metis lview_sel(6))
    have "good auth ?s2 (upd_link (\<lambda>l. l\<lparr>lk_send_confirm := True\<rparr>) ?s2)"
      using False l assms by (simp add: good_def auth_inv_def prov_codes) (simp add: upd_link_def prov_codes)
    with False good_trans [OF good_then [OF g1 p]] show ?thesis by (simp add: prov_confirm_def Let_def)
  qed
qed

lemma good_fail: "good auth s (upd_link (\<lambda>l. l\<lparr>lk_expect := PROV_FAILED\<rparr>) (prov_send_fail_msg e s))"
  by (rule good_after [OF _ good_expect]) (simp_all add: prov_frame prov_codes)

lemma good_random:
  assumes "lk_expect (ms_link s) = PROV_RANDOM" "pe_auth env = auth"
  shows "good auth s (prov_random env data s)"
proof -
  let ?s1 = "upd_link (\<lambda>l. l\<lparr>lk_auth := pe_auth env\<rparr>) s" and ?rnd = "map (byte_at data) [0..<16]"
  have p1: "pview ?s1 = pview s" by (simp add: prov_frame)
  have ok: "good auth s (upd_link (\<lambda>l. l\<lparr>lk_prov_salt := salt, lk_expect := PROV_DATA\<rparr>) t)"
    if c: "bt_mesh_prov_conf (lk_conf_key (ms_link ?s1)) ?rnd (lk_auth (ms_link ?s1)) = Inr (lk_conf (ms_link ?s1))"
      and t: "pview t = pview ?s1" and salt: "bt_mesh_prov_salt (lk_conf_salt (ms_link t)) ?rnd (lk_rand (ms_link t)) = Inr salt" for salt t
  proof -
    have v: "lview (ms_link t) = lview (ms_link s)" using t p1 by (simp add: pview_def)
    have l: "lk_conf_key (ms_link t) = lk_conf_key (ms_link s)" "lk_conf (ms_link t) = lk_conf (ms_link s)"
      "lk_have_dhkey (ms_link t) = lk_have_dhkey (ms_link s)" "lk_send_confirm (ms_link t) = lk_send_confirm (ms_link s)"
      "lk_wait_number (ms_link t) = lk_wait_number (ms_link s)" "lk_wait_string (ms_link t) = lk_wait_string (ms_link s)"
      using lview_sel [of "ms_link t"] lview_sel [of "ms_link s"] v by simp_all
    have "authenticated auth (ms_link (upd_link (\<lambda>l. l\<lparr>lk_prov_salt := salt, lk_expect := PROV_DATA\<rparr>) t))"
      unfolding authenticated_def using c salt l assms(2) by (intro exI [of _ ?rnd]) (simp add: upd_link_def)
    with l assms(1) prov_keep [OF t] prov_keep [OF p1] show ?thesis
      by (auto simp: good_def auth_inv_def) (auto simp: upd_link_def prov_codes)
  qed
  have cl: "good auth s (close_link e r t)" if "pview t = pview ?s1" for e r t
    using good_after [OF _ good_close] that p1 by simp
  show ?thesis
    unfolding prov_random_def Let_def
    by (intro case_sum_good cl refl) (auto intro!: case_send case_sum_good cl ok good_after [OF p1 good_fail])
qed

lemma good_dh_key: "good auth s (prov_dh_key_cb env key s)"
proof (cases key)
  case (Some k)
  let ?s1 = "upd_link (\<lambda>l. l\<lparr>lk_dhkey := rev (take 32 k), lk_have_dhkey := True\<rparr>) s"
  show ?thesis
  proof (cases "auth_inv auth (ms_link s)")
    case True
    then have w: "\<not> lk_wait_number (ms_link ?s1)" "\<not> lk_wait_string (ms_link ?s1)" by (auto simp: auth_inv_def upd_link_def)
    let ?s2 = "upd_link (\<lambda>l. l\<lparr>lk_send_confirm := False\<rparr>) ?s1"
    have i2: "auth_inv auth (ms_link ?s2)" "ms_provisioned ?s2 = ms_provisioned s"
      using True by (auto simp: auth_inv_def upd_link_def authenticated_def)
    show ?thesis
    proof (cases "lk_send_confirm (ms_link ?s1)")
      case c: True
      then have "may_confirm ?s2" using True by (auto simp: auth_inv_def may_confirm_def upd_link_def)
      from good_send_confirm [OF this, of auth env] i2 show ?thesis using Some w c by (simp add: prov_dh_key_cb_def Let_def good_def)
    next
      case False
      then have "?s2 = ?s1" by (simp add: upd_link_def)
      with i2 False w Some show ?thesis by (simp add: prov_dh_key_cb_def Let_def good_def)
    qed
  next
    case False
    then show ?thesis by (simp add: good_def)
  qed
qed (simp add: prov_dh_key_cb_def good_close)

lemma pview_flags [prov_frame]:
  "pview (upd_link (\<lambda>l. l\<lparr>lk_local_pub_key := b\<rparr>) s) = pview s" "pview (upd_link (\<lambda>l. l\<lparr>lk_remote_pub_key := b\<rparr>) s) = pview s"
  by (simp_all add: prov_frame lview_def)

lemma good_send_pub_key: "good auth s (send_pub_key env s)"
proof (cases "pe_pub_key env")
  case None
  then show ?thesis by (simp add: send_pub_key_def good_close)
next
  case (Some key)
  let ?buf = "net_buf_simple_add_mem (prov_buf_init (PROV_BUF 65) PROV_PUB_KEY) (swap_halves key)"
  let ?s1 = "snd (prov_send ?buf (put_inputs 81 (map (nb_byte ?buf) [1..<65]) s))"
  let ?s2 = "log_ev (Ev_Dh_Key_Gen (swap_halves (get_bytes (lk_conf_inputs (ms_link ?s1)) 17 64))) ?s1"
  have p: "pview ?s2 = pview s" by (simp only: prov_frame)
  have "send_pub_key env s = (if pe_dh_gen env \<noteq> None then close_link PROV_ERR_UNEXP_ERR CLOSE_REASON_FAILED ?s2
      else upd_link (\<lambda>l. l\<lparr>lk_expect := PROV_CONFIRM\<rparr>) ?s2)"
    unfolding send_pub_key_def Let_def Some option.case ..
  then show ?thesis using good_after [OF p good_close] good_after [OF p good_expect [of PROV_CONFIRM]] by (simp add: prov_codes)
qed

lemma good_pub_key: "good auth s (prov_pub_key env data s)"
proof -
  let ?s1 = "put_inputs 17 (map (byte_at data) [0..<64]) s"
  have p: "pview ?s1 = pview s" by (simp only: prov_frame)
  have q: "pview (upd_link (\<lambda>l. l\<lparr>lk_remote_pub_key := True\<rparr>) (prov_clear_tx ?s1)) = pview s" by (simp only: prov_frame)
  show ?thesis unfolding prov_pub_key_def Let_def using good_after [OF p good_send_pub_key] good_frame [OF q] by simp
qed

lemma good_key_ready: "good auth s (pub_key_ready env pkey s)"
proof -
  let ?s1 = "upd_link (\<lambda>l. l\<lparr>lk_local_pub_key := True\<rparr>) s"
  have p: "pview ?s1 = pview s" "pview (upd_link (\<lambda>l. l\<lparr>lk_remote_pub_key := False\<rparr>) ?s1) = pview s" by (simp_all only: prov_frame)
  show ?thesis
    using good_after [OF p(2) good_send_pub_key] good_frame [OF p(1)] by (simp add: pub_key_ready_def Let_def split: option.splits)
qed

lemma good_input: "good auth s (snd (bt_mesh_input_number env num s))" "good auth s (snd (bt_mesh_input_string env str s))"
  by (auto simp: good_def auth_inv_def bt_mesh_input_number_def bt_mesh_input_string_def Let_def)

section \<open>The provisioning data\<close>

text \<open>What the rest of the stack sees of the installation of the provisioning data.\<close>

definition nview where
  "nview s = (ms_link s, ms_provisioned s, ms_primary_addr s, bm_dev_key (ms_net s), bm_iv_index (ms_net s))"

lemma nview_upd_sub: "nview (upd_sub i f s) = nview s"
  by (simp add: nview_def upd_sub_def upd_net_def)

lemma nview_beacon_update: "nview (snd (bt_mesh_net_beacon_update i s)) = nview s"
  by (auto simp: bt_mesh_net_beacon_update_def Let_def nview_upd_sub split: sum.splits)

lemma nview_fold: "(\<And>i s. nview (f i s) = nview s) \<Longrightarrow> nview (fold f is s) = nview s"
  by (induction "is" arbitrary: s) simp_all

lemma nview_work: "nview (k_delayed_work_cancel w s) = nview s" "nview (k_work_submit w s) = nview s" "nview (log_ev e s) = nview s"
  by (simp_all add: nview_def k_delayed_work_cancel_def k_work_submit_def k_delayed_work_submit_def log_ev_def Let_def)

lemma nview_setup:
  "nview (bt_mesh_setup seq addr s) = (ms_link s, True, addr, bm_dev_key (ms_net s), bm_iv_index (ms_net s))"
proof -
  let ?s1 = "(bt_mesh_comp_provision addr (upd_net (\<lambda>n. n\<lparr>bm_seq := ucast seq\<rparr>) s))\<lparr>ms_provisioned := True\<rparr>"
  have e: "nview (bt_mesh_beacon_enable t) = nview t" "nview (bt_mesh_beacon_disable t) = nview t" for t
    by (auto simp: bt_mesh_beacon_enable_def bt_mesh_beacon_disable_def Let_def nview_work
        intro!: nview_fold simp: nview_beacon_update nview_upd_sub)
  have g: "nview (bt_mesh_proxy_gatt_enable t) = nview t" "nview (bt_mesh_adv_update t) = nview t" "nview (bt_mesh_scan_enable t) = nview t" for t
    by (simp_all add: bt_mesh_proxy_gatt_enable_def bt_mesh_adv_update_def bt_mesh_scan_enable_def nview_work) (simp_all add: nview_def log_ev_def)
  have "nview (bt_mesh_setup seq addr s) = nview ?s1" by (simp add: bt_mesh_setup_def Let_def e g)
  also have "\<dots> = (ms_link s, True, addr, bm_dev_key (ms_net s), bm_iv_index (ms_net s))"
    by (simp add: nview_def bt_mesh_comp_provision_def upd_net_def)
  finally show ?thesis .
qed

lemma nview_net_create:
  assumes "bt_mesh_net_create idx flags key iv s = (err, s')"
  shows "ms_link s' = ms_link s" "ms_provisioned s' = ms_provisioned s" "err = None \<Longrightarrow> bm_iv_index (ms_net s') = iv"
proof -
  have link: "ms_link (snd (bt_mesh_net_beacon_update i t)) = ms_link t" "ms_provisioned (snd (bt_mesh_net_beacon_update i t)) = ms_provisioned t"
    "bm_iv_index (ms_net (snd (bt_mesh_net_beacon_update i t))) = bm_iv_index (ms_net t)" for i t
    using nview_beacon_update [of i t] by (simp_all add: nview_def)
  show "ms_link s' = ms_link s" "ms_provisioned s' = ms_provisioned s" "err = None \<Longrightarrow> bm_iv_index (ms_net s') = iv"
    using assms by (auto simp: bt_mesh_net_create_def Let_def link split: if_splits prod.splits; simp add: upd_sub_def upd_net_def)+
qed

lemma cleared_prov_disable: "cleared s (bt_mesh_proxy_prov_disable s)"
proof -
  let ?f = "\<lambda>i s. case cl_conn (get_client s i) of
      Some conn \<Rightarrow> if cl_filter_type (get_client s i) = FT_PROV
        then upd_client i (\<lambda>c. c\<lparr>cl_filter_type := FT_NONE\<rparr>) (snd (bt_mesh_pb_gatt_close conn s)) else s
    | None \<Rightarrow> s"
  have step: "cleared t (?f i t)" for i t
    by (auto intro!: cleared_trans [OF cleared_gatt_close cleared_refl] simp: prov_frame split: option.splits)
  have "cleared t (fold ?f is t)" for "is" t
    by (induction "is" arbitrary: t) (auto intro: cleared_trans [OF step])
  moreover have "pview ((log_ev e s)\<lparr>ms_gatt_svc := g\<rparr>) = pview s" for e g by (simp add: pview_def log_ev_def)
  ultimately show ?thesis
    unfolding bt_mesh_proxy_prov_disable_def Let_def by (rule cleared_trans [OF cleared_refl, rotated])
qed

lemma provision_result:
  assumes "bt_mesh_provision nk idx flags iv seq addr dk s = (err, s')"
  shows "err \<noteq> None \<Longrightarrow> cleared s s'"
    and "err = None \<Longrightarrow> (lview (ms_link s') = lview (ms_link s) \<or> lview (ms_link s') = prov_link0) \<and>
      bm_dev_key (ms_net s') = take 16 dk \<and> ms_primary_addr s' = addr \<and> bm_iv_index (ms_net s') = iv"
proof -
  let ?s1 = "bt_mesh_proxy_prov_disable s"
  obtain e s2 where nc: "bt_mesh_net_create idx flags nk iv ?s1 = (e, s2)" by (metis surj_pair)
  note n = nview_net_create [OF nc]
  have c2: "cleared s s2" using cleared_prov_disable [of s] n(1,2) by (simp add: cleared_def pview_def)
  { assume "err \<noteq> None"
    then have "s' = bt_mesh_proxy_prov_enable s2" using assms nc by (auto simp: bt_mesh_provision_def Let_def split: if_splits)
    then have "pview s' = pview s2" by (simp add: bt_mesh_proxy_prov_enable_def Let_def pview_def log_ev_def)
    with c2 show "cleared s s'" by (simp add: cleared_def) }
  { assume "err = None"
    let ?s3 = "upd_net (\<lambda>n. n\<lparr>bm_dev_key := take 16 dk\<rparr>) s2"
    have e: "e = None" and s': "s' = bt_mesh_prov_complete idx addr (bt_mesh_setup seq addr ?s3)"
      using \<open>err = None\<close> assms nc by (auto simp: bt_mesh_provision_def Let_def split: if_splits)
    have "nview s' = (ms_link s2, True, addr, take 16 dk, iv)"
      using n(3) [OF e] by (simp add: s' bt_mesh_prov_complete_def nview_work nview_setup) (simp add: upd_net_def)
    then show "(lview (ms_link s') = lview (ms_link s) \<or> lview (ms_link s') = prov_link0) \<and>
      bm_dev_key (ms_net s') = take 16 dk \<and> ms_primary_addr s' = addr \<and> bm_iv_index (ms_net s') = iv"
      using c2 by (auto simp: nview_def cleared_def pview_def) }
qed

text \<open>The effect of accepted provisioning data: it decrypts under the session key, and the node takes its values.\<close>

definition accepted :: "bytes \<Rightarrow> mesh \<Rightarrow> mesh \<Rightarrow> bool" where
  "accepted auth s s' \<longleftrightarrow> authenticated auth (ms_link s) \<and>
     (let dh = lk_dhkey (ms_link s); salt = lk_prov_salt (ms_link s) in
      \<exists>key nonce data pdu dev_key.
        bt_mesh_session_key dh salt = Inr key \<and> bt_mesh_prov_nonce dh salt = Inr nonce \<and>
        bt_mesh_prov_decrypt key nonce data = (None, pdu) \<and> bt_mesh_dev_key dh salt = Inr dev_key \<and>
        bm_dev_key (ms_net s') = take 16 dev_key \<and> ms_primary_addr s' = sys_get_be16 (get_bytes pdu 23 2) \<and>
        bm_iv_index (ms_net s') = sys_get_be32 (get_bytes pdu 19 4))"

definition fine :: "bytes \<Rightarrow> mesh \<Rightarrow> mesh \<Rightarrow> bool" where
  "fine auth s s' \<longleftrightarrow>
     (auth_inv auth (ms_link s) \<longrightarrow>
        auth_inv auth (ms_link s') \<and> (ms_provisioned s' \<longrightarrow> ms_provisioned s \<or> accepted auth s s'))"

lemma good_fine: "good auth s s' \<Longrightarrow> fine auth s s'"
  by (simp add: good_def fine_def)

lemma accepted_frame: "pview t = pview s \<Longrightarrow> accepted auth t u = accepted auth s u"
  using lview_sel [of "ms_link s"] lview_sel [of "ms_link t"] authenticated_lview [of auth "ms_link s"] authenticated_lview [of auth "ms_link t"]
  by (simp add: accepted_def pview_def Let_def)

lemma fine_after: "pview t = pview s \<Longrightarrow> fine auth t u \<Longrightarrow> fine auth s u"
  using pview_inv [of t s auth] prov_keep [of t s] accepted_frame [of t s auth u] by (simp add: fine_def)

lemma fine_data:
  assumes "lk_expect (ms_link s) = PROV_DATA"
  shows "fine auth s (prov_data data s)"
proof -
  let ?dh = "lk_dhkey (ms_link s)" and ?salt = "lk_prov_salt (ms_link s)"
  have fin: "fine auth s (snd (bt_mesh_provision (take 16 pdu) (sys_get_be16 (get_bytes pdu 16 2)) (byte_at pdu 18)
      (sys_get_be32 (get_bytes pdu 19 4)) 0 (sys_get_be16 (get_bytes pdu 23 2)) dev_key (upd_link (\<lambda>l. l\<lparr>lk_expect := 0\<rparr>) t)))"
    if k: "bt_mesh_session_key ?dh ?salt = Inr key" and n: "bt_mesh_prov_nonce ?dh ?salt = Inr nonce"
      and d: "bt_mesh_prov_decrypt key nonce data = (None, pdu)" and dk: "bt_mesh_dev_key ?dh ?salt = Inr dev_key"
      and t: "pview t = pview s" for key nonce pdu dev_key t
  proof -
    let ?u = "upd_link (\<lambda>l. l\<lparr>lk_expect := 0\<rparr>) t"
    obtain err v where p: "bt_mesh_provision (take 16 pdu) (sys_get_be16 (get_bytes pdu 16 2)) (byte_at pdu 18)
      (sys_get_be32 (get_bytes pdu 19 4)) 0 (sys_get_be16 (get_bytes pdu 23 2)) dev_key ?u = (err, v)" by (metis surj_pair)
    have gu: "good auth s ?u" by (rule good_after [OF t good_expect]) (simp_all add: prov_codes)
    show ?thesis
    proof (cases "err = None")
      case False
      then show ?thesis using good_fine [OF good_trans [OF gu good_cleared]] provision_result(1) [OF p] p by simp
    next
      case True
      note r = provision_result(2) [OF p True]
      have "auth_inv auth (ms_link s) \<Longrightarrow> auth_inv auth (ms_link v)"
        using gu r auth_inv_view [of "ms_link v" "ms_link ?u" auth] auth_inv_cleared [of "ms_link v" auth] by (auto simp: good_def)
      moreover have "auth_inv auth (ms_link s) \<Longrightarrow> accepted auth s v"
        unfolding accepted_def Let_def using assms k n d dk r by (auto simp: auth_inv_def)
      ultimately show ?thesis using p by (simp add: fine_def)
    qed
  qed
  have cl: "fine auth s (close_link e r s)" for e r by (rule good_fine [OF good_close])
  have "fine auth s (prov_data data s)" if nk: "bt_mesh_session_key ?dh ?salt = Inr key" "bt_mesh_prov_nonce ?dh ?salt = Inr nonce" for key nonce
    using fin [OF nk] cl good_fine [OF good_fail, of auth s]
    by (auto simp: prov_data_def nk Let_def prov_frame split: prod.splits option.splits sum.splits)
  then show ?thesis using cl by (auto simp: prov_data_def Let_def split: sum.splits)
qed

section \<open>Receiving\<close>

lemma handlers_len [simp]: "length (prov_handlers env) = 10"
  by (simp add: prov_handlers_def)

lemma fine_handler:
  assumes "type = PROV_FAILED \<or> type = lk_expect (ms_link s)" "unat type < 10" "pe_auth env = auth"
  shows "fine auth s (fst (prov_handlers env ! unat type) data s)"
proof -
  have n: "unat type \<in> {0, 1, 2, 3, 4, 5, 6, 7, 8, 9}" using assms(2) by auto
  have t: "unat type = k \<Longrightarrow> type = of_nat k" for k
    by (drule arg_cong [of _ _ "of_nat :: nat \<Rightarrow> u8"]) simp
  have e: "lk_expect (ms_link s) = type" if "unat type \<noteq> 9" using assms(1) that by (auto simp: PROV_FAILED_def)
  have "fine auth s (prov_confirm env data s)" if "unat type = 5"
    using good_fine [OF good_confirm, of s auth env data] e t [OF that] that by (simp add: prov_codes)
  moreover have "fine auth s (prov_random env data s)" if "unat type = 6"
    using good_fine [OF good_random, of s env auth data] e t [OF that] that assms(3) by (simp add: prov_codes)
  moreover have "fine auth s (prov_data data s)" if "unat type = 7"
    using fine_data [of s auth data] e t [OF that] that by (simp add: prov_codes)
  ultimately show ?thesis
    using n good_fine [OF good_invite] good_fine [OF good_start] good_fine [OF good_pub_key] good_fine [OF good_frame, of s s auth]
    by (auto simp: prov_handlers_def)
qed

lemma pview_rx [prov_frame]:
  "pview (upd_link (\<lambda>l. l\<lparr>lk_rx_prev_id := lk_rx_id l, lk_rx_id := 0\<rparr>) s) = pview s"
  "pview (upd_link (\<lambda>l. l\<lparr>lk_rx_id := x, lk_rx_fcs := y\<rparr>) s) = pview s"
  "pview (upd_link (\<lambda>l. l\<lparr>lk_rx_seg := m, lk_rx_last_seg := n\<rparr>) s) = pview s"
  "pview (upd_link (\<lambda>l. l\<lparr>lk_id := i, lk_active := b\<rparr>) s) = pview s"
  "pview (XACT_SEG_RECV seg s) = pview s" "pview (upd_link_buf g s) = pview s"
  by (simp_all add: prov_frame lview_def XACT_SEG_RECV_def upd_link_buf_def)

lemma pview_expect: "pview t = pview s \<Longrightarrow> lk_expect (ms_link t) = lk_expect (ms_link s)"
  using lview_sel(6) [of "ms_link s"] lview_sel(6) [of "ms_link t"] by (simp add: pview_def)

lemma fine_if: "(b \<Longrightarrow> fine auth s t) \<Longrightarrow> (\<not> b \<Longrightarrow> fine auth s u) \<Longrightarrow> fine auth s (if b then t else u)"
  by simp

lemma fine_msg_recv:
  assumes "pe_auth env = auth"
  shows "fine auth s (prov_msg_recv env s)"
proof -
  let ?type = "nb_byte (link_buf s) 0"
  let ?t = "upd_link (\<lambda>l. l\<lparr>lk_rx_prev_id := lk_rx_id l, lk_rx_id := 0\<rparr>) (gen_prov_ack_send (lk_rx_id (ms_link s)) s)"
  have p: "pview ?t = pview s" by (simp add: prov_frame)
  have h: "fine auth ?t (fst (prov_handlers env ! unat ?type) data ?t)"
    if "?type = PROV_FAILED \<or> ?type = lk_expect (ms_link ?t)" "unat ?type < 10" for data
    by (rule fine_handler [OF that assms])
  have main: "fine auth s (if ?type \<noteq> PROV_FAILED \<and> ?type \<noteq> lk_expect (ms_link ?t)
           then upd_link (\<lambda>l. l\<lparr>lk_expect := PROV_FAILED\<rparr>) (prov_send_fail_msg PROV_ERR_UNEXP_PDU ?t)
           else if unat ?type \<ge> length (prov_handlers env) then close_link PROV_ERR_NVAL_PDU CLOSE_REASON_FAILED ?t
           else case prov_handlers env ! unat ?type of (func, len) \<Rightarrow>
             if 1 + len \<noteq> nb_len (link_buf ?t) then close_link PROV_ERR_NVAL_FMT CLOSE_REASON_FAILED ?t
             else func (map (nb_byte (link_buf ?t)) [1..<1 + len]) ?t)"
    using h good_fine [OF good_fail, of auth ?t] good_fine [OF good_close, of auth ?t] by (auto intro: fine_after [OF p] split: prod.splits)
  show ?thesis unfolding prov_msg_recv_def Let_def by (rule fine_if [OF _ main]) (simp add: good_fine)
qed

lemma fine_frame: "pview t = pview s \<Longrightarrow> fine auth s t"
  by (rule good_fine [OF good_frame])

lemma fine_close: "pview t = pview s \<Longrightarrow> fine auth s (close_link e r t)"
  by (rule fine_after [OF _ good_fine [OF good_close]])

lemma fine_msg_recv': "pe_auth env = auth \<Longrightarrow> pview t = pview s \<Longrightarrow> fine auth s (prov_msg_recv env t)"
  by (rule fine_after [OF _ fine_msg_recv])

lemma fine_cont: "pe_auth env = auth \<Longrightarrow> fine auth s (gen_prov_cont env rx buf s)"
  unfolding gen_prov_cont_def Let_def by (intro fine_if fine_close fine_frame fine_msg_recv') (simp_all add: prov_frame)

lemma fine_gen_start: "pe_auth env = auth \<Longrightarrow> fine auth s (gen_prov_start env rx buf s)"
  unfolding gen_prov_start_def Let_def net_buf_simple_pull_be16_def net_buf_simple_pull_u8_def prod.case
  by (intro fine_if fine_close fine_frame fine_msg_recv') (simp_all add: prov_frame)

lemma fine_gen_ack: "fine auth s (gen_prov_ack rx s)"
  by (simp add: gen_prov_ack_def fine_frame prov_frame)

lemma good_reset: "good auth s (reset_link env s)"
  by (rule good_cleared) (simp add: cleared_def pview_reset_link)

lemma good_link_open: "good auth s (link_open rx buf s)"
proof -
  have g: "good auth s (upd_link (\<lambda>l. l\<lparr>lk_expect := PROV_INVITE\<rparr>) t)" if "pview t = pview s" for t
    by (rule good_after [OF that good_expect]) (simp_all add: prov_codes)
  show ?thesis unfolding link_open_def Let_def by (auto simp: prov_frame intro!: g)
qed

lemma fine_gen_ctl: "fine auth s (gen_prov_ctl env rx buf s)"
  by (auto simp: gen_prov_ctl_def Let_def link_close_def intro!: good_fine good_link_open good_reset)

lemma fine_gen_recv:
  assumes "pe_auth env = auth"
  shows "fine auth s (gen_prov_recv env rx buf s)"
proof -
  have "unat (GPCF (pr_gpc rx)) \<in> {0, 1, 2, 3}"
    using word_and_le1 [of "pr_gpc rx" "0x03 :: u8"] by (auto simp: GPCF_def word_le_nat_alt)
  then show ?thesis
    using fine_cont [OF assms, of s rx buf] fine_gen_start [OF assms, of s rx buf] fine_gen_ack [of auth s rx]
      fine_gen_ctl [of auth s env rx buf] fine_frame [of s s auth]
    by (auto simp: gen_prov_recv_def gen_prov_def)
qed

lemma fine_adv_recv: "pe_auth env = auth \<Longrightarrow> fine auth s (bt_mesh_pb_adv_recv env buf s)"
  unfolding bt_mesh_pb_adv_recv_def net_buf_simple_pull_be32_def net_buf_simple_pull_u8_def Let_def prod.case
  by (intro fine_if fine_gen_recv fine_frame) simp_all

lemma fine_gatt_recv:
  assumes "pe_auth env = auth"
  shows "fine auth s (snd (bt_mesh_pb_gatt_recv env conn buf s))"
proof -
  have h: "fine auth s (fst (prov_handlers env ! unat type) data s)"
    if "type = PROV_FAILED \<or> type = lk_expect (ms_link s)" "unat type < 10" for type data
    by (rule fine_handler [OF that assms])
  show ?thesis
    using h [of "nb_byte buf 0"] fine_frame [of s s auth]
    by (auto simp: bt_mesh_pb_gatt_recv_def net_buf_simple_pull_u8_def Let_def split: prod.splits)
qed

lemma good_gatt_open: "good auth s (snd (bt_mesh_pb_gatt_open conn s))"
proof -
  let ?f = "\<lambda>l. l\<lparr>lk_active := True, lk_conn := Some conn, lk_expect := PROV_INVITE\<rparr>"
  have "good auth s (upd_link ?f s)" by (auto simp: good_def upd_link_def auth_inv_def authenticated_def prov_codes)
  then show ?thesis by (auto simp: bt_mesh_pb_gatt_open_def Let_def prov_frame intro: good_then)
qed

section \<open>The state machine\<close>

text \<open>
  The authentication value stays the same; keys, random numbers and results may differ in every step. The last
  rule is everything else: it leaves the link alone and does not provision the node.
\<close>

inductive prov_step :: "bytes \<Rightarrow> mesh \<Rightarrow> mesh \<Rightarrow> bool" for auth :: bytes where
  adv_pdu: "pe_auth env = auth \<Longrightarrow> prov_step auth s (bt_mesh_pb_adv_recv env buf s)"
| gatt_pdu: "pe_auth env = auth \<Longrightarrow> prov_step auth s (snd (bt_mesh_pb_gatt_recv env conn buf s))"
| gatt_open: "prov_step auth s (snd (bt_mesh_pb_gatt_open conn s))"
| gatt_close: "prov_step auth s (snd (bt_mesh_pb_gatt_close conn s))"
| dh_key: "prov_step auth s (prov_dh_key_cb env key s)"
| local_key: "prov_step auth s (pub_key_ready env pkey s)"
| number: "prov_step auth s (snd (bt_mesh_input_number env num s))"
| string: "prov_step auth s (snd (bt_mesh_input_string env str s))"
| retransmit: "prov_step auth s (prov_retransmit env s)"
| reset: "prov_step auth s (bt_mesh_prov_reset_link env s)"
| other: "ms_link s' = ms_link s \<Longrightarrow> (ms_provisioned s' \<longrightarrow> ms_provisioned s) \<Longrightarrow> prov_step auth s s'"

inductive prov_run :: "bytes \<Rightarrow> mesh \<Rightarrow> mesh \<Rightarrow> bool" for auth :: bytes where
  start: "prov_run auth s s"
| step: "prov_run auth s t \<Longrightarrow> prov_step auth t u \<Longrightarrow> prov_run auth s u"

lemma fine_step: "prov_step auth s s' \<Longrightarrow> fine auth s s'"
proof (induction rule: prov_step.induct)
  case (retransmit s env)
  then show ?case by (simp add: prov_retransmit_def good_fine good_reset prov_frame)
next
  case (reset s env)
  then show ?case by (simp add: bt_mesh_prov_reset_link_def good_fine good_reset)
next
  case (other s' s)
  then show ?case by (simp add: fine_def)
qed (simp_all add: fine_adv_recv fine_gatt_recv good_fine good_gatt_open good_cleared [OF cleared_gatt_close] good_dh_key good_key_ready good_input)

lemma run_inv: "prov_run auth s t \<Longrightarrow> auth_inv auth (ms_link s) \<Longrightarrow> auth_inv auth (ms_link t)"
  by (induction rule: prov_run.induct) (auto dest: fine_step simp: fine_def)

text \<open>The link after \<^verbatim>\<open>bt_mesh_prov_init\<close>.\<close>

definition link_idle :: "mesh \<Rightarrow> bool" where
  "link_idle s \<longleftrightarrow> lview (ms_link s) = prov_link0"

end
