(* ===== verification/Prov_Honest.thy ===== *)
theory Prov_Honest
  imports Prov_Auth
begin

text \<open>
  A provisioner that follows the mesh profile succeeds: the exchange over a GATT connection, with the
  values the profile prescribes for the provisioner (written with the reference CMAC and CCM, not with the
  functions of the stack), ends with a provisioned node that has exactly the transmitted data.
\<close>

section \<open>What the profile prescribes\<close>

text \<open>
  The confirmation inputs of an exchange: the invitation, the capabilities, the start parameters and both
  public keys; and the values derived from them, the Diffie-Hellman secret and the random numbers.
\<close>

definition spec_conf_salt :: "bytes \<Rightarrow> bytes" where
  "spec_conf_salt inputs = cmac_spec (replicate 16 0) inputs"

definition spec_k1 :: "bytes \<Rightarrow> bytes \<Rightarrow> string \<Rightarrow> bytes" where
  "spec_k1 n salt p = cmac_spec (cmac_spec salt n) (str_bytes p)"

definition spec_conf :: "bytes \<Rightarrow> bytes \<Rightarrow> bytes \<Rightarrow> bytes \<Rightarrow> bytes" where
  "spec_conf dh inputs rnd auth = cmac_spec (spec_k1 dh (spec_conf_salt inputs) ''prck'') (rnd @ auth)"

definition spec_prov_salt :: "bytes \<Rightarrow> bytes \<Rightarrow> bytes \<Rightarrow> bytes" where
  "spec_prov_salt inputs rnd rnd_dev = cmac_spec (replicate 16 0) (spec_conf_salt inputs @ rnd @ rnd_dev)"

definition spec_data :: "bytes \<Rightarrow> bytes \<Rightarrow> bytes \<Rightarrow> bytes" where
  "spec_data dh salt pdu =
     ccm_spec (\<lambda>b. tc_aes_encrypt b (tc_aes128_set_encrypt_key (spec_k1 dh salt ''prsk''))) (drop 3 (spec_k1 dh salt ''prsn'')) pdu [] 8"

lemma spec_values:
  "bt_mesh_prov_conf_salt inputs = Inr (spec_conf_salt inputs)"
  "bt_mesh_prov_conf_key dh salt = Inr (spec_k1 dh salt ''prck'')"
  "bt_mesh_session_key dh salt = Inr (spec_k1 dh salt ''prsk'')"
  "bt_mesh_prov_nonce dh salt = Inr (drop 3 (spec_k1 dh salt ''prsn''))"
  "bt_mesh_dev_key dh salt = Inr (spec_k1 dh salt ''prdk'')"
  "length (spec_k1 dh salt p) = 16"
  by (simp_all add: bt_mesh_prov_conf_salt_def bt_mesh_prov_conf_key_def bt_mesh_session_key_def bt_mesh_prov_nonce_def
      bt_mesh_dev_key_def cmac_one_spec k1_total spec_conf_salt_def spec_k1_def get_bytes_def)

lemma spec_conf_code: "length rnd = 16 \<Longrightarrow> bt_mesh_prov_conf key rnd auth = Inr (cmac_spec key (rnd @ auth))"
proof -
  assume l: "length rnd = 16"
  then have "rnd \<noteq> []" by auto
  with l have "cmac_split_ok [rnd, auth]" by (simp add: cmac_split_ok_def)
  from cmac_sg_spec [OF _ this, of key] show ?thesis by (simp add: bt_mesh_prov_conf_def)
qed

lemma spec_salt_code:
  assumes "length csalt = 16" "length rnd = 16"
  shows "bt_mesh_prov_salt csalt rnd rnd_dev = Inr (cmac_spec (replicate 16 0) (csalt @ rnd @ rnd_dev))"
proof -
  have "csalt \<noteq> []" "rnd \<noteq> []" using assms by auto
  with assms have "cmac_split_ok [csalt, rnd, rnd_dev]" by (simp add: cmac_split_ok_def)
  from cmac_sg_spec [OF _ this, of "replicate 16 0"] show ?thesis by (simp add: bt_mesh_prov_salt_def)
qed

lemma spec_data_code:
  assumes "length pdu = 25" "length (spec_k1 dh salt ''prsn'') = 16"
  shows "bt_mesh_prov_decrypt (spec_k1 dh salt ''prsk'') (drop 3 (spec_k1 dh salt ''prsn'')) (spec_data dh salt pdu) = (None, pdu)"
    "length (spec_data dh salt pdu) = 33"
proof -
  let ?k = "spec_k1 dh salt ''prsk''" and ?n = "drop 3 (spec_k1 dh salt ''prsn'')"
  have e: "bt_mesh_ccm_encrypt bt_mesh_aes_encrypt ?k ?n pdu (length pdu) [] (length ([] :: bytes)) 8 = Inr (spec_data dh salt pdu)"
    unfolding spec_data_def using assms by (intro port.encrypt_spec) auto
  have l: "0 < length pdu" "length pdu < 65536" using assms(1) by auto
  have c: "length ([] :: bytes) < 0xff00" "(8 :: nat) \<le> 16" by simp_all
  note r = port.roundtrip [OF l c, of ?k ?n]
  show "bt_mesh_prov_decrypt ?k ?n (spec_data dh salt pdu) = (None, pdu)"
    using r(2) [of "spec_data dh salt pdu"] e assms(1) by (simp add: bt_mesh_prov_decrypt_def)
  show "length (spec_data dh salt pdu) = 33"
    using r(1) [of "spec_data dh salt pdu"] e assms(1) by simp
qed

section \<open>The link changes, and nothing else but timers and the trace\<close>

definition link_upto :: "mesh \<Rightarrow> prov_link \<Rightarrow> mesh \<Rightarrow> bool" where
  "link_upto s l s' \<longleftrightarrow> ms_link s' = l \<and> s'\<lparr>ms_link := ms_link s, ms_works := ms_works s, ms_log := ms_log s\<rparr> = s"

lemma upto_link: "link_upto s l s' \<Longrightarrow> ms_link s' = l"
  by (simp add: link_upto_def)

lemma upto_sel:
  assumes "link_upto s l s'"
  shows "ms_clients s' = ms_clients s" "ms_gatt_svc s' = ms_gatt_svc s" "ms_notify_rc s' = ms_notify_rc s" "ms_prov s' = ms_prov s"
    "ms_comp s' = ms_comp s" "ms_net s' = ms_net s" "ms_provisioned s' = ms_provisioned s"
proof -
  note c = assms [unfolded link_upto_def, THEN conjunct2]
  show "ms_clients s' = ms_clients s" "ms_gatt_svc s' = ms_gatt_svc s" "ms_notify_rc s' = ms_notify_rc s" "ms_prov s' = ms_prov s"
    "ms_comp s' = ms_comp s" "ms_net s' = ms_net s" "ms_provisioned s' = ms_provisioned s"
    using arg_cong [OF c, of ms_clients] arg_cong [OF c, of ms_gatt_svc] arg_cong [OF c, of ms_notify_rc] arg_cong [OF c, of ms_prov]
      arg_cong [OF c, of ms_comp] arg_cong [OF c, of ms_net] arg_cong [OF c, of ms_provisioned] by simp_all
qed

lemma upto_refl: "link_upto s (ms_link s) s"
  by (simp add: link_upto_def)

lemma upto_upd: "link_upto s l t \<Longrightarrow> link_upto s (f l) (upd_link f t)"
  by (simp add: link_upto_def upd_link_def)

lemma upto_log: "link_upto s l t \<Longrightarrow> link_upto s l (log_ev e t)"
  by (simp add: link_upto_def log_ev_def)

lemma upto_only_log: "link_upto s l t \<Longrightarrow> only_log t u \<Longrightarrow> link_upto s l u"
  by (auto simp: link_upto_def only_log_def)

lemma upto_work: "link_upto s l t \<Longrightarrow> link_upto s l (k_delayed_work_submit w d t)"
  by (simp add: link_upto_def k_delayed_work_submit_def k_delayed_work_cancel_def Let_def)

lemma upto_attention: "link_upto s l t \<Longrightarrow> n \<noteq> 0 \<Longrightarrow> link_upto s l (bt_mesh_attention m n t)"
  by (auto simp: bt_mesh_attention_def intro: upto_work upto_log split: option.splits)

lemma upto_inputs: "link_upto s l t \<Longrightarrow> link_upto s (l\<lparr>lk_conf_inputs := put_bytes (lk_conf_inputs l) pos bs\<rparr>) (put_inputs pos bs t)"
  unfolding put_inputs_def using upto_upd [of s l t "\<lambda>l. l\<lparr>lk_conf_inputs := put_bytes (lk_conf_inputs l) pos bs\<rparr>"] by simp

text \<open>A connection that can carry provisioning PDUs.\<close>

definition gatt_link :: "nat \<Rightarrow> mesh \<Rightarrow> bool" where
  "gatt_link conn s \<longleftrightarrow> (case find_client s (Some conn) of None \<Rightarrow> False | Some c \<Rightarrow> cl_filter_type (get_client s c) = FT_PROV) \<and>
     ms_gatt_svc s = MESH_GATT_PROV \<and> ms_notify_rc s = None"

lemma gatt_link_upto: "link_upto s l t \<Longrightarrow> gatt_link conn t = gatt_link conn s"
  by (simp add: gatt_link_def find_client_def get_client_def upto_sel split: option.splits)

lemma send_ok:
  assumes "link_upto s l t" "gatt_link conn s" "lk_conn l = Some conn"
  obtains u where "prov_send msg t = (None, u)" "link_upto s l u"
proof -
  have g: "gatt_link conn t" "lk_conn (ms_link t) = Some conn" using assms gatt_link_upto upto_link by auto
  obtain u where u: "prov_send msg t = (fst (prov_send msg t), u)" by (metis prod.collapse)
  have "fst (prov_send msg t) = None"
    using g by (auto simp: prov_send_def prov_send_gatt_def bt_mesh_proxy_send_def gatt_link_def proxy_segment_and_send_def proxy_send_def Let_def
        BT_MESH_PROXY_PROV_def split: option.splits)
  moreover have "only_log t (snd (prov_send msg t))"
    using g by (auto simp: prov_send_def prov_send_gatt_def bt_mesh_proxy_send_def only_log_segment split: option.splits)
  ultimately show thesis using that [of u] u upto_only_log [OF assms(1)] by (metis snd_conv)
qed

section \<open>The messages of the exchange\<close>

definition capabilities :: "mesh \<Rightarrow> bytes" where
  "capabilities s =
     bt_mesh_elem_count s # sys_put_be16 1 @ [pv_public_key_type (ms_prov s), if pv_static_val (ms_prov s) \<noteq> None then 1 else 0,
       pv_output_size (ms_prov s)] @ sys_put_be16 (pv_output_actions (ms_prov s)) @ [pv_input_size (ms_prov s)]
     @ sys_put_be16 (pv_input_actions (ms_prov s))"

lemma prov_buf_holds: "1 \<le> n \<Longrightarrow> n < 65000 \<Longrightarrow> nb_holds (prov_buf_init (PROV_BUF n) type) [type] (n - 1)"
  unfolding prov_buf_init_def PROV_BUF_def NET_BUF_SIMPLE_def PROV_BUF_HEADROOM_def
  using nb_holds_add(1) [OF nb_holds_init [of 5 "\<lparr>nb_buf = replicate (5 + n) 0, nb_off = 0, nb_len = 0, nb_fault = False\<rparr>"], of type] by simp

lemma length_capabilities [simp]: "length (capabilities s) = 11"
  by (simp add: capabilities_def)

text \<open>A successful transmission in the middle of a handler.\<close>

lemma upto_send:
  assumes "link_upto s l t" "gatt_link conn s" "lk_conn l = Some conn" "\<And>u. link_upto s l u \<Longrightarrow> link_upto s l' (f None u)"
  shows "link_upto s l' (case prov_send msg t of (err, u) \<Rightarrow> f err u)"
  by (rule send_ok [OF assms(1-3), of msg]) (simp add: assms(4))

lemma honest_invite:
  assumes "link_upto s l t" "gatt_link conn s" "lk_conn l = Some conn"
  shows "link_upto s (l\<lparr>lk_conf_inputs := put_bytes (put_bytes (lk_conf_inputs l) 0 [a]) 1 (capabilities s), lk_expect := PROV_START\<rparr>)
    (prov_invite [a] t)"
proof -
  let ?p = "ms_prov s" and ?st = "if pv_static_val (ms_prov s) \<noteq> None then 1 else 0x00"
  let ?buf = "net_buf_simple_add_be16 (net_buf_simple_add_u8 (net_buf_simple_add_be16 (net_buf_simple_add_u8 (net_buf_simple_add_u8
    (net_buf_simple_add_u8 (net_buf_simple_add_be16 (net_buf_simple_add_u8 (prov_buf_init (PROV_BUF 12) PROV_CAPABILITIES)
      (bt_mesh_elem_count s)) 1) (pv_public_key_type ?p)) ?st) (pv_output_size ?p)) (pv_output_actions ?p)) (pv_input_size ?p))
      (pv_input_actions ?p)"
  have 0: "nb_holds (prov_buf_init (PROV_BUF 12) PROV_CAPABILITIES) [PROV_CAPABILITIES] 11" using prov_buf_holds [of 12] by simp
  have "nb_holds ?buf (((((((([PROV_CAPABILITIES] @ [bt_mesh_elem_count s]) @ sys_put_be16 1) @ [pv_public_key_type ?p]) @ [?st])
      @ [pv_output_size ?p]) @ sys_put_be16 (pv_output_actions ?p)) @ [pv_input_size ?p]) @ sys_put_be16 (pv_input_actions ?p))
      (11 - 1 - 2 - 1 - 1 - 1 - 2 - 1 - 2)"
    by (intro nb_holds_add 0) simp_all
  then have "nb_holds ?buf (PROV_CAPABILITIES # capabilities s) 0" by (simp add: capabilities_def)
  from nb_holds_bytes [OF this, of 1 12] have caps: "map (nb_byte ?buf) [1..<12] = capabilities s" by simp
  let ?t1 = "if a \<noteq> 0 then bt_mesh_attention None a t else t"
  have 1: "link_upto s l ?t1" using assms(1) by (simp add: upto_attention)
  note 2 = upto_inputs [OF 1, of 0 "[a]"]
  let ?l3 = "l\<lparr>lk_conf_inputs := put_bytes (put_bytes (lk_conf_inputs l) 0 [a]) 1 (capabilities s)\<rparr>"
  have 3: "link_upto s ?l3 (put_inputs 1 (capabilities s) (put_inputs 0 [a] ?t1))" using upto_inputs [OF 2, of 1 "capabilities s"] by simp
  have ba: "byte_at [a] 0 = a" by simp
  note sel = upto_sel [OF 2] upto_sel [OF assms(1)]
  have ec: "bt_mesh_elem_count (put_inputs 0 [a] ?t1) = bt_mesh_elem_count s" using sel by (simp add: bt_mesh_elem_count_def)
  have fin: "link_upto s (?l3\<lparr>lk_expect := PROV_START\<rparr>) (if None \<noteq> None then close_link PROV_ERR_RESOURCES CLOSE_REASON_FAILED u
      else let v = upd_link (\<lambda>l. l\<lparr>lk_expect := PROV_START\<rparr>) u
           in if lk_conn (ms_link v) \<noteq> None then log_ev (Ev_Genie (GENIE_EVT_SDK_MESH_PROV_START None)) v else v)" if "link_upto s ?l3 u" for u
    using upto_upd [OF that, of "\<lambda>l. l\<lparr>lk_expect := PROV_START\<rparr>"] by (simp add: Let_def upto_log)
  have "link_upto s (?l3\<lparr>lk_expect := PROV_START\<rparr>) (prov_invite [a] t)"
    unfolding prov_invite_def Let_def ba ec sel caps
    by (rule upto_send [OF 3 assms(2)]) (use assms(3) fin in \<open>simp_all add: Let_def\<close>)
  then show ?thesis by simp
qed

lemma honest_start:
  assumes "link_upto s l t" "m = 0 \<or> m = 1"
  obtains au where
    "link_upto s (l\<lparr>lk_conf_inputs := put_bytes (lk_conf_inputs l) 12 [0, pv_public_key_type (ms_prov s), m, 0, 0], lk_expect := PROV_PUB_KEY, lk_auth := au\<rparr>)
      (prov_start [0, pv_public_key_type (ms_prov s), m, 0, 0] t)"
proof -
  let ?d = "[0, pv_public_key_type (ms_prov s), m, 0, 0]"
  let ?t2 = "upd_link (\<lambda>l. l\<lparr>lk_expect := PROV_PUB_KEY\<rparr>) (put_inputs 12 ?d t)"
  note 2 = upto_upd [OF upto_inputs [OF assms(1), of 12 ?d], of "\<lambda>l. l\<lparr>lk_expect := PROV_PUB_KEY\<rparr>"]
  obtain au where a: "prov_auth m 0 0 ?t2 = (None, upd_link (\<lambda>l. l\<lparr>lk_auth := au\<rparr>) ?t2)"
    using assms(2) by (auto simp: prov_auth_def AUTH_METHOD_STATIC_def AUTH_METHOD_NO_OOB_def Let_def)
  have d: "map (byte_at ?d) [0..<5] = ?d" by (simp add: byte_at_def upt_rec)
  have "prov_start ?d t = upd_link (\<lambda>l. l\<lparr>lk_auth := au\<rparr>) ?t2"
    unfolding prov_start_def d using a upto_sel(4) [OF assms(1)] by (simp add: Let_def byte_at_def PROV_ALG_P256_def)
  then show thesis using that [of au] upto_upd [OF 2, of "\<lambda>l. l\<lparr>lk_auth := au\<rparr>"] by simp
qed

lemma bytes_self: "length d = n \<Longrightarrow> map (byte_at d) [0..<n] = d"
  by (intro nth_equalityI) simp_all

lemma length_swap [simp]: "length k = 64 \<Longrightarrow> length (swap_halves k) = 64"
  by (simp add: swap_halves_def)

lemma honest_pub_key:
  assumes "link_upto s l t" "gatt_link conn s" "lk_conn l = Some conn" "lk_local_pub_key l" "length pk_prov = 64"
    and "pe_pub_key env = Some pk" "length pk = 64" "pe_dh_gen env = None"
  shows "link_upto s (l\<lparr>lk_conf_inputs := put_bytes (put_bytes (lk_conf_inputs l) 17 pk_prov) 81 (swap_halves pk), lk_expect := PROV_CONFIRM\<rparr>)
    (prov_pub_key env pk_prov t)"
proof -
  let ?buf = "net_buf_simple_add_mem (prov_buf_init (PROV_BUF 65) PROV_PUB_KEY) (swap_halves pk)"
  have "nb_holds ?buf ([PROV_PUB_KEY] @ swap_halves pk) (64 - length (swap_halves pk))"
    using assms(7) prov_buf_holds [of 65 PROV_PUB_KEY] by (intro nb_holds_add_mem) simp_all
  from nb_holds_bytes [OF this, of 1 65] have b: "map (nb_byte ?buf) [1..<65] = swap_halves pk" using assms(7) by simp
  let ?l1 = "l\<lparr>lk_conf_inputs := put_bytes (lk_conf_inputs l) 17 pk_prov\<rparr>"
  let ?l2 = "l\<lparr>lk_conf_inputs := put_bytes (put_bytes (lk_conf_inputs l) 17 pk_prov) 81 (swap_halves pk)\<rparr>"
  have 1: "link_upto s ?l1 (put_inputs 17 pk_prov t)" by (rule upto_inputs [OF assms(1)])
  have 2: "link_upto s ?l2 (put_inputs 81 (swap_halves pk) (put_inputs 17 pk_prov t))" using upto_inputs [OF 1, of 81 "swap_halves pk"] by simp
  obtain u where u: "prov_send ?buf (put_inputs 81 (swap_halves pk) (put_inputs 17 pk_prov t)) = (None, u)" "link_upto s ?l2 u"
    by (rule send_ok [OF 2 assms(2), of ?buf]) (use assms(3) in simp_all)
  have "prov_pub_key env pk_prov t = upd_link (\<lambda>l. l\<lparr>lk_expect := PROV_CONFIRM\<rparr>)
      (log_ev (Ev_Dh_Key_Gen (swap_halves (get_bytes (lk_conf_inputs (ms_link u)) 17 64))) u)"
    using upto_link [OF 1] assms(4,6,8) u b by (simp add: prov_pub_key_def send_pub_key_def bytes_self [OF assms(5)] Let_def del: One_nat_def)
  then show ?thesis using upto_upd [OF upto_log [OF u(2)], of "\<lambda>l. l\<lparr>lk_expect := PROV_CONFIRM\<rparr>"] by simp
qed

lemma honest_dh_key:
  assumes "link_upto s l t" "\<not> lk_wait_number l" "\<not> lk_wait_string l" "\<not> lk_send_confirm l" "length k = 32"
  shows "link_upto s (l\<lparr>lk_dhkey := rev k, lk_have_dhkey := True\<rparr>) (prov_dh_key_cb env (Some k) t)"
  using upto_upd [OF assms(1), of "\<lambda>l. l\<lparr>lk_dhkey := rev k, lk_have_dhkey := True\<rparr>"] upto_link [OF assms(1)] assms(2-)
  by (simp add: prov_dh_key_cb_def Let_def upd_link_def)

lemma honest_confirm:
  assumes "link_upto s l t" "gatt_link conn s" "lk_conn l = Some conn" "lk_have_dhkey l" "length conf = 16"
    and "pe_rand env = Inr rnd_dev" "length rnd_dev = 16"
  shows "link_upto s (l\<lparr>lk_conf := conf, lk_conf_salt := spec_conf_salt (lk_conf_inputs l),
      lk_conf_key := spec_k1 (lk_dhkey l) (spec_conf_salt (lk_conf_inputs l)) ''prck'', lk_rand := rnd_dev, lk_auth := pe_auth env,
      lk_expect := PROV_RANDOM\<rparr>) (prov_confirm env conf t)"
proof -
  let ?salt = "spec_conf_salt (lk_conf_inputs l)"
  let ?key = "spec_k1 (lk_dhkey l) ?salt ''prck''"
  let ?f1 = "\<lambda>l. l\<lparr>lk_conf := conf\<rparr>" and ?f2 = "\<lambda>l. l\<lparr>lk_conf_salt := ?salt\<rparr>" and ?f3 = "\<lambda>l. l\<lparr>lk_conf_key := ?key\<rparr>"
    and ?f4 = "\<lambda>l. l\<lparr>lk_rand := rnd_dev, lk_auth := pe_auth env\<rparr>"
  note 1 = upto_upd [OF assms(1), of ?f1]
  note 2 = upto_upd [OF 1, of ?f2]
  note 3 = upto_upd [OF 2, of ?f3]
  note 4 = upto_upd [OF 3, of ?f4]
  let ?t4 = "upd_link ?f4 (upd_link ?f3 (upd_link ?f2 (upd_link ?f1 t)))"
  let ?l4 = "?f4 (?f3 (?f2 (?f1 l)))"
  let ?msg = "net_buf_simple_add_mem (prov_buf_init (PROV_BUF 17) PROV_CONFIRM) (cmac_spec ?key (rnd_dev @ pe_auth env))"
  obtain u where u: "prov_send ?msg ?t4 = (None, u)" "link_upto s ?l4 u" by (rule send_ok [OF 4 assms(2)]) (simp_all add: assms(3))
  have "prov_confirm env conf t = upd_link (\<lambda>l. l\<lparr>lk_expect := PROV_RANDOM\<rparr>) u"
    using upto_link [OF 1] upto_link [OF 2] upto_link [OF 3] upto_link [OF 4] assms(4,6) u(1)
    by (simp add: prov_confirm_def send_confirm_def bytes_self [OF assms(5)] Let_def spec_values spec_conf_code [OF assms(7)])
  then show ?thesis using upto_upd [OF u(2), of "\<lambda>l. l\<lparr>lk_expect := PROV_RANDOM\<rparr>"] by simp
qed

lemma honest_random:
  assumes "link_upto s l t" "gatt_link conn s" "lk_conn l = Some conn" "length rnd = 16" "length (lk_conf_salt l) = 16"
    and "lk_conf l = cmac_spec (lk_conf_key l) (rnd @ pe_auth env)"
  shows "link_upto s (l\<lparr>lk_auth := pe_auth env, lk_prov_salt := cmac_spec (replicate 16 0) (lk_conf_salt l @ rnd @ lk_rand l), lk_expect := PROV_DATA\<rparr>)
    (prov_random env rnd t)"
proof -
  note 1 = upto_upd [OF assms(1), of "\<lambda>l. l\<lparr>lk_auth := pe_auth env\<rparr>"]
  let ?t1 = "upd_link (\<lambda>l. l\<lparr>lk_auth := pe_auth env\<rparr>) t" and ?salt = "cmac_spec (replicate 16 0) (lk_conf_salt l @ rnd @ lk_rand l)"
  let ?msg = "net_buf_simple_add_mem (prov_buf_init (PROV_BUF 16) PROV_RANDOM) (lk_rand l)"
  obtain u where u: "prov_send ?msg ?t1 = (None, u)" "link_upto s (l\<lparr>lk_auth := pe_auth env\<rparr>) u" by (rule send_ok [OF 1 assms(2)]) (simp_all add: assms(3))
  have "prov_random env rnd t = upd_link (\<lambda>l. l\<lparr>lk_prov_salt := ?salt, lk_expect := PROV_DATA\<rparr>) u"
    using upto_link [OF 1] upto_link [OF u(2)] u(1) assms(6)
    by (simp add: prov_random_def bytes_self [OF assms(4)] Let_def spec_conf_code [OF assms(4)] spec_salt_code [OF assms(5,4)])
  then show ?thesis using upto_upd [OF u(2), of "\<lambda>l. l\<lparr>lk_prov_salt := ?salt, lk_expect := PROV_DATA\<rparr>"] by simp
qed

section \<open>The installed data\<close>

text \<open>The subnet of the network key, through the set-up of beacons and proxy.\<close>

definition kview where
  "kview s = map (\<lambda>sub. (sn_net_idx sub, sn_kr_flag sub, sn_key0 sub)) (bm_sub (ms_net s))"

lemma kview_upd_sub:
  "(\<And>sub. sn_net_idx (f sub) = sn_net_idx sub \<and> sn_kr_flag (f sub) = sn_kr_flag sub \<and> sn_key0 (f sub) = sn_key0 sub) \<Longrightarrow> kview (upd_sub i f s) = kview s"
  unfolding kview_def upd_sub_def upd_net_def by (intro nth_equalityI) (auto simp: nth_upd_at)

lemma kview_beacon_update: "kview (snd (bt_mesh_net_beacon_update i s)) = kview s"
  by (auto simp: bt_mesh_net_beacon_update_def Let_def kview_upd_sub split: sum.splits)

lemma kview_beacon_enable: "kview (bt_mesh_beacon_enable s) = kview s"
proof -
  have "kview (fold (\<lambda>i s. if sn_net_idx (get_sub s i) = BT_MESH_KEY_UNUSED then s
      else snd (bt_mesh_net_beacon_update i (upd_sub i (\<lambda>sub. sub\<lparr>sn_beacons_last := 0, sn_beacons_cur := 0\<rparr>) s))) is t) = kview t" for "is" t
    by (induction "is" arbitrary: t) (simp_all add: kview_beacon_update kview_upd_sub)
  moreover have "kview (k_work_submit w t) = kview t" for w t
    by (simp add: kview_def k_work_submit_def k_delayed_work_submit_def k_delayed_work_cancel_def Let_def)
  ultimately show ?thesis by (simp add: bt_mesh_beacon_enable_def Let_def)
qed

lemma kview_setup: "kview (bt_mesh_setup seq addr s) = kview s"
proof -
  let ?s1 = "(bt_mesh_comp_provision addr (upd_net (\<lambda>n. n\<lparr>bm_seq := ucast seq\<rparr>) s))\<lparr>ms_provisioned := True\<rparr>"
  have g: "kview (bt_mesh_proxy_gatt_enable t) = kview t" "kview (bt_mesh_adv_update t) = kview t" "kview (bt_mesh_scan_enable t) = kview t"
    "kview (bt_mesh_beacon_disable t) = kview t" for t
    by (simp_all add: kview_def bt_mesh_proxy_gatt_enable_def bt_mesh_adv_update_def bt_mesh_scan_enable_def bt_mesh_beacon_disable_def
        log_ev_def k_delayed_work_cancel_def Let_def)
  have "kview (bt_mesh_setup seq addr s) = kview ?s1" by (simp add: bt_mesh_setup_def Let_def kview_beacon_enable g)
  then show ?thesis by (simp add: kview_def bt_mesh_comp_provision_def upd_net_def)
qed

lemma ms_net_prov_disable: "ms_net (bt_mesh_proxy_prov_disable s) = ms_net s"
proof -
  let ?f = "\<lambda>i s. case cl_conn (get_client s i) of
      Some conn \<Rightarrow> if cl_filter_type (get_client s i) = FT_PROV
        then upd_client i (\<lambda>c. c\<lparr>cl_filter_type := FT_NONE\<rparr>) (snd (bt_mesh_pb_gatt_close conn s)) else s
    | None \<Rightarrow> s"
  have c: "ms_net (snd (bt_mesh_pb_gatt_close conn t)) = ms_net t" for conn t
    by (auto simp: bt_mesh_pb_gatt_close_def Let_def upd_link_def k_delayed_work_init_def bt_mesh_attention_def log_ev_def
        k_delayed_work_cancel_def split: option.splits)
  have "ms_net (?f i t) = ms_net t" for i t by (auto simp: c upd_client_def split: option.splits)
  then have "ms_net (fold ?f is t) = ms_net t" for "is" t by (induction "is" arbitrary: t) auto
  from this [of "[0..<length (ms_clients s)]" "(log_ev (Ev_Gatt_Service MESH_GATT_PROV False) s)\<lparr>ms_gatt_svc := MESH_GATT_NONE\<rparr>"]
  show ?thesis unfolding bt_mesh_proxy_prov_disable_def Let_def by (simp add: log_ev_def)
qed

lemma net_create_ok:
  assumes "\<not> bm_valid (ms_net s)" "bm_sub (ms_net s) \<noteq> []" "\<not> BT_MESH_KEY_REFRESH flags"
  obtains s' keys where "bt_mesh_net_create idx flags key iv s = (None, s')" "kview s' = (idx, False, keys) # tl (kview s)" "sk_net keys = key"
proof -
  obtain sub subs where subs: "bm_sub (ms_net s) = sub # subs" using assms(2) by (cases "bm_sub (ms_net s)") auto
  obtain keys where k: "bt_mesh_net_keys_create (sn_key0 sub) key = (None, keys)" "sk_net keys = key" using keys_create_total by blast
  have "\<exists>s'. bt_mesh_net_create idx flags key iv s = (None, s') \<and> kview s' = (idx, False, keys) # tl (kview s)"
    using assms(1,3) subs k
    by (simp add: bt_mesh_net_create_def Let_def kview_beacon_update upd_sub_def upd_net_def get_sub_def upd_at_def)
       (simp add: kview_def)
  with k(2) that show thesis by blast
qed

lemma provision_ok:
  assumes "\<not> bm_valid (ms_net s)" "bm_sub (ms_net s) \<noteq> []" "\<not> BT_MESH_KEY_REFRESH flags"
    and s'_def: "s' = snd (bt_mesh_provision nk idx flags iv seq addr dk s)"
  shows "ms_provisioned s'" "ms_primary_addr s' = addr" "bm_dev_key (ms_net s') = take 16 dk" "bm_iv_index (ms_net s') = iv"
    and "sn_net_idx (get_sub s' 0) = idx" "sk_net (sn_key0 (get_sub s' 0)) = nk"
proof -
  let ?s1 = "bt_mesh_proxy_prov_disable s"
  have net: "\<not> bm_valid (ms_net ?s1)" "bm_sub (ms_net ?s1) \<noteq> []" using assms(1,2) by (simp_all add: ms_net_prov_disable)
  obtain s2 keys where c: "bt_mesh_net_create idx flags nk iv ?s1 = (None, s2)" "kview s2 = (idx, False, keys) # tl (kview ?s1)" "sk_net keys = nk"
    by (rule net_create_ok [OF net assms(3)])
  let ?s3 = "upd_net (\<lambda>n. n\<lparr>bm_dev_key := take 16 dk\<rparr>) s2"
  have s': "s' = bt_mesh_prov_complete idx addr (bt_mesh_setup seq addr ?s3)"
    using c(1) by (simp add: s'_def bt_mesh_provision_def Let_def)
  have "nview s' = (ms_link s2, True, addr, take 16 dk, iv)"
    using nview_net_create(3) [OF c(1)] by (simp add: s' bt_mesh_prov_complete_def nview_work nview_setup) (simp add: upd_net_def)
  then show "ms_provisioned s'" "ms_primary_addr s' = addr" "bm_dev_key (ms_net s') = take 16 dk" "bm_iv_index (ms_net s') = iv"
    by (simp_all add: nview_def)
  have "kview (log_ev e t) = kview t" "kview ?s3 = kview s2" for e t by (simp_all add: kview_def log_ev_def upd_net_def)
  then have k: "kview s' = (idx, False, keys) # tl (kview ?s1)" by (simp add: s' bt_mesh_prov_complete_def kview_setup c(2))
  then obtain sub subs where "bm_sub (ms_net s') = sub # subs" by (cases "bm_sub (ms_net s')") (auto simp: kview_def)
  with k c(3) show "sn_net_idx (get_sub s' 0) = idx" "sk_net (sn_key0 (get_sub s' 0)) = nk" by (auto simp: kview_def get_sub_def)
qed

section \<open>The exchange\<close>

text \<open>A provisioning PDU as the proxy hands it over, in a buffer of the client's size.\<close>

definition prov_pdu :: "u8 \<Rightarrow> bytes \<Rightarrow> net_buf_simple" where
  "prov_pdu type bs = net_buf_simple_add_mem (net_buf_simple_init (NET_BUF_SIMPLE 68) 0) (type # bs)"

definition deliver :: "prov_env \<Rightarrow> nat \<Rightarrow> u8 \<Rightarrow> bytes \<Rightarrow> mesh \<Rightarrow> mesh" where
  "deliver env conn type bs s = snd (bt_mesh_pb_gatt_recv env conn (prov_pdu type bs) s)"

lemma deliver_handler:
  assumes "lk_conn (ms_link s) = Some conn" "lk_expect (ms_link s) = type" "prov_handlers env ! unat type = (func, length bs)" "unat type < 10"
    and "length bs \<le> 64"
  shows "deliver env conn type bs s = func bs s"
proof -
  let ?b = "prov_pdu type bs"
  have "nb_holds (net_buf_simple_init (NET_BUF_SIMPLE 68) 0) [] 68" using nb_holds_init [of 0 "NET_BUF_SIMPLE 68"] by (simp add: NET_BUF_SIMPLE_def)
  then have "nb_holds ?b ([] @ type # bs) (68 - length (type # bs))" unfolding prov_pdu_def using assms(5) by (intro nb_holds_add_mem) simp_all
  then have h: "nb_ok ?b" "nb_data ?b = type # bs" by (simp_all add: nb_holds_def)
  then have len: "nb_len ?b = Suc (length bs)" using length_nb_data [OF h(1)] by simp
  let ?c = "net_buf_simple_pull ?b 1"
  have c: "nb_ok ?c" "nb_len ?c = length bs" "nb_data ?c = bs" using h pull_data [of ?b 1] len by simp_all
  have "map (nb_byte ?c) [0..<length bs] = bs" using c by (intro nth_equalityI) (simp_all add: nb_byte_eq)
  moreover have "nb_byte ?b 0 = type" using nb_byte_eq [OF h(1), of 0] h(2) len by simp
  moreover have "length (prov_handlers env) = 10" by (simp add: prov_handlers_def)
  ultimately show ?thesis
    using assms(1-4) c(2) len by (simp add: deliver_def bt_mesh_pb_gatt_recv_def net_buf_simple_pull_u8_def Let_def)
qed

text \<open>The messages up to the shared secret, and up to the disclosure of the random numbers.\<close>

definition share_secret :: "prov_env \<Rightarrow> nat \<Rightarrow> u8 \<Rightarrow> bytes \<Rightarrow> bytes \<Rightarrow> bytes \<Rightarrow> mesh \<Rightarrow> mesh" where
  "share_secret env conn att start pk_prov dhle s =
     (let s = snd (bt_mesh_pb_gatt_open conn s);
          s = deliver env conn PROV_INVITE [att] s;
          s = deliver env conn PROV_START start s;
          s = deliver env conn PROV_PUB_KEY pk_prov s
      in prov_dh_key_cb env (Some dhle) s)"

definition authenticate :: "prov_env \<Rightarrow> nat \<Rightarrow> u8 \<Rightarrow> bytes \<Rightarrow> bytes \<Rightarrow> bytes \<Rightarrow> bytes \<Rightarrow> bytes \<Rightarrow> mesh \<Rightarrow> mesh" where
  "authenticate env conn att start pk_prov dhle conf rnd s =
     (let s = share_secret env conn att start pk_prov dhle s;
          s = deliver env conn PROV_CONFIRM conf s
      in deliver env conn PROV_RANDOM rnd s)"

text \<open>An unprovisioned node with a connection for provisioning, before the link is opened.\<close>

definition awaiting :: "nat \<Rightarrow> mesh \<Rightarrow> bool" where
  "awaiting conn s \<longleftrightarrow> gatt_link conn s \<and> \<not> bm_valid (ms_net s) \<and> bm_sub (ms_net s) \<noteq> [] \<and>
     (let l = ms_link s in \<not> lk_active l \<and> lk_local_pub_key l \<and> \<not> lk_wait_number l \<and> \<not> lk_wait_string l \<and> \<not> lk_send_confirm l \<and>
        length (lk_conf_inputs l) = 145)"

lemma put_all:
  assumes "length x = 145" "length caps = 11" "length st = 5" "length pk1 = 64" "length pk2 = 64"
  shows "put_bytes (put_bytes (put_bytes (put_bytes (put_bytes x 0 [a]) 1 caps) 12 st) 17 pk1) 81 pk2 = a # caps @ st @ pk1 @ pk2"
proof -
  have 1: "put_bytes x 0 [a] = a # drop 1 x" using assms by (simp add: put_bytes_in)
  have 2: "put_bytes (a # drop 1 x) 1 caps = (a # caps) @ drop 12 x" using assms by (simp add: put_bytes_in)
  have 3: "put_bytes ((a # caps) @ drop 12 x) 12 st = (a # caps @ st) @ drop 17 x" using assms by (simp add: put_bytes_in)
  have 4: "put_bytes ((a # caps @ st) @ drop 17 x) 17 pk1 = (a # caps @ st @ pk1) @ drop 81 x" using assms by (simp add: put_bytes_in)
  have 5: "put_bytes ((a # caps @ st @ pk1) @ drop 81 x) 81 pk2 = a # caps @ st @ pk1 @ pk2" using assms by (simp add: put_bytes_in)
  show ?thesis by (simp only: 1 2 3 4 5)
qed

lemma deliver_upto:
  assumes "link_upto s l t" "lk_conn l = Some conn" "lk_expect l = type" "prov_handlers env ! unat type = (func, length bs)" "unat type < 10"
    and "length bs \<le> 64" "link_upto s l' (func bs t)"
  shows "link_upto s l' (deliver env conn type bs t)"
  using deliver_handler [of t conn type env func bs] upto_link [OF assms(1)] assms(2-) by simp

lemma handler_table:
  "prov_handlers env ! unat PROV_INVITE = (prov_invite, 1)" "prov_handlers env ! unat PROV_START = (prov_start, 5)"
  "prov_handlers env ! unat PROV_PUB_KEY = (prov_pub_key env, 64)" "prov_handlers env ! unat PROV_CONFIRM = (prov_confirm env, 16)"
  "prov_handlers env ! unat PROV_RANDOM = (prov_random env, 16)" "prov_handlers env ! unat PROV_DATA = (prov_data, 33)"
  "unat PROV_INVITE < 10" "unat PROV_START < 10" "unat PROV_PUB_KEY < 10" "unat PROV_CONFIRM < 10" "unat PROV_RANDOM < 10" "unat PROV_DATA < 10"
  by (simp_all add: prov_handlers_def PROV_INVITE_def PROV_START_def PROV_PUB_KEY_def PROV_CONFIRM_def PROV_RANDOM_def PROV_DATA_def)

lemma share_secret_ok:
  assumes "awaiting conn s" and m: "m = 0 \<or> m = 1"
    and env: "pe_pub_key env = Some pk" "length pk = 64" "pe_dh_gen env = None" and len: "length pk_prov = 64" "length dhle = 32"
    and start: "start = [0, pv_public_key_type (ms_prov s), m, 0, 0]"
    and inputs: "inputs = att # capabilities s @ start @ pk_prov @ swap_halves pk"
  obtains l where "link_upto s l (share_secret env conn att start pk_prov dhle s)" "lk_conn l = Some conn" "lk_expect l = PROV_CONFIRM"
    "lk_have_dhkey l" "lk_dhkey l = rev dhle" "lk_conf_inputs l = inputs"
proof -
  note aw = assms(1) [unfolded awaiting_def Let_def]
  have g: "gatt_link conn s" using aw by simp
  let ?l = "ms_link s" and ?p = "put_bytes"
  define l0 where "l0 = ?l\<lparr>lk_active := True, lk_conn := Some conn, lk_expect := PROV_INVITE\<rparr>"
  define s1 where "s1 = snd (bt_mesh_pb_gatt_open conn s)"
  have 1: "link_upto s l0 s1"
    using aw upto_upd [OF upto_refl [of s], of "\<lambda>l. l\<lparr>lk_active := True, lk_conn := Some conn, lk_expect := PROV_INVITE\<rparr>"]
    by (simp add: bt_mesh_pb_gatt_open_def Let_def l0_def s1_def upto_log)
  have c1: "lk_conn l0 = Some conn" "lk_expect l0 = PROV_INVITE" by (simp_all add: l0_def)
  define l2 where "l2 = l0\<lparr>lk_conf_inputs := ?p (?p (lk_conf_inputs l0) 0 [att]) 1 (capabilities s), lk_expect := PROV_START\<rparr>"
  define s2 where "s2 = deliver env conn PROV_INVITE [att] s1"
  have 2: "link_upto s l2 s2" unfolding s2_def l2_def
    by (rule deliver_upto [where func = prov_invite and bs = "[att]", OF 1 c1 _ _ _ honest_invite [OF 1 g c1(1)]]) (simp_all add: handler_table)
  have c2: "lk_conn l2 = Some conn" "lk_expect l2 = PROV_START" by (simp_all add: l2_def l0_def)
  obtain au where a: "link_upto s (l2\<lparr>lk_conf_inputs := ?p (lk_conf_inputs l2) 12 start, lk_expect := PROV_PUB_KEY, lk_auth := au\<rparr>) (prov_start start s2)"
    unfolding start by (rule honest_start [OF 2 m])
  define l3 where "l3 = l2\<lparr>lk_conf_inputs := ?p (lk_conf_inputs l2) 12 start, lk_expect := PROV_PUB_KEY, lk_auth := au\<rparr>"
  define s3 where "s3 = deliver env conn PROV_START start s2"
  have 3: "link_upto s l3 s3" unfolding s3_def l3_def
    by (rule deliver_upto [where func = prov_start and bs = start, OF 2 c2 _ _ _ a]) (simp_all add: handler_table start)
  have c3: "lk_conn l3 = Some conn" "lk_expect l3 = PROV_PUB_KEY" "lk_local_pub_key l3" using aw by (simp_all add: l3_def l2_def l0_def)
  define l4 where "l4 = l3\<lparr>lk_conf_inputs := ?p (?p (lk_conf_inputs l3) 17 pk_prov) 81 (swap_halves pk), lk_expect := PROV_CONFIRM\<rparr>"
  define s4 where "s4 = deliver env conn PROV_PUB_KEY pk_prov s3"
  have 4: "link_upto s l4 s4" unfolding s4_def l4_def
    by (rule deliver_upto [where func = "prov_pub_key env" and bs = pk_prov, OF 3 c3(1,2) _ _ _ honest_pub_key [OF 3 g c3(1,3) len(1) env]]) (simp_all add: handler_table len)
  define l5 where "l5 = l4\<lparr>lk_dhkey := rev dhle, lk_have_dhkey := True\<rparr>"
  have "link_upto s l5 (prov_dh_key_cb env (Some dhle) s4)" unfolding l5_def
    by (rule honest_dh_key [OF 4]) (use aw len(2) in \<open>simp_all add: l4_def l3_def l2_def l0_def\<close>)
  moreover have "length start = 5" by (simp add: start)
  then have "lk_conf_inputs l5 = inputs"
    using put_all [OF _ length_capabilities _ len(1) length_swap [OF env(2)], of "lk_conf_inputs ?l" start att s] aw
    by (simp add: l5_def l4_def l3_def l2_def l0_def inputs)
  ultimately show thesis
    by (intro that [of l5]) (simp_all add: share_secret_def Let_def s4_def s3_def s2_def s1_def, simp_all add: l5_def l4_def l3_def l2_def l0_def)
qed

lemma authenticate_ok:
  assumes "awaiting conn s" and m: "m = 0 \<or> m = 1"
    and env: "pe_pub_key env = Some pk" "length pk = 64" "pe_dh_gen env = None" "pe_rand env = Inr rnd_dev" "length rnd_dev = 16"
    and len: "length pk_prov = 64" "length dhle = 32" "length rnd = 16"
    and start: "start = [0, pv_public_key_type (ms_prov s), m, 0, 0]"
    and inputs: "inputs = att # capabilities s @ start @ pk_prov @ swap_halves pk"
    and conf: "conf = spec_conf (rev dhle) inputs rnd (pe_auth env)"
  obtains l where "link_upto s l (authenticate env conn att start pk_prov dhle conf rnd s)" "lk_conn l = Some conn" "lk_expect l = PROV_DATA"
    "lk_dhkey l = rev dhle" "lk_prov_salt l = spec_prov_salt inputs rnd rnd_dev"
proof -
  have g: "gatt_link conn s" using assms(1) by (simp add: awaiting_def)
  define s5 where "s5 = share_secret env conn att start pk_prov dhle s"
  obtain l5 where 5: "link_upto s l5 s5" and c5: "lk_conn l5 = Some conn" "lk_expect l5 = PROV_CONFIRM"
      "lk_have_dhkey l5" "lk_dhkey l5 = rev dhle" "lk_conf_inputs l5 = inputs"
    unfolding s5_def by (rule share_secret_ok [OF assms(1) m env(1-3) len(1,2) start inputs])
  define l6 where "l6 = l5\<lparr>lk_conf := conf, lk_conf_salt := spec_conf_salt inputs,
      lk_conf_key := spec_k1 (rev dhle) (spec_conf_salt inputs) ''prck'', lk_rand := rnd_dev, lk_auth := pe_auth env, lk_expect := PROV_RANDOM\<rparr>"
  define s6 where "s6 = deliver env conn PROV_CONFIRM conf s5"
  have lc: "length conf = 16" by (simp add: conf spec_conf_def)
  have h6: "link_upto s l6 (prov_confirm env conf s5)"
    using honest_confirm [OF 5 g c5(1,3) lc env(4,5)] by (simp add: c5(4,5) l6_def)
  have 6: "link_upto s l6 s6" unfolding s6_def
    by (rule deliver_upto [where func = "prov_confirm env" and bs = conf, OF 5 c5(1,2) _ _ _ h6]) (simp_all add: handler_table lc)
  have c6: "lk_conn l6 = Some conn" "lk_expect l6 = PROV_RANDOM" "length (lk_conf_salt l6) = 16"
      "lk_conf l6 = cmac_spec (lk_conf_key l6) (rnd @ pe_auth env)"
    using c5 by (simp_all add: l6_def conf spec_conf_def spec_conf_salt_def)
  let ?l7 = "l6\<lparr>lk_auth := pe_auth env, lk_prov_salt := cmac_spec (replicate 16 0) (lk_conf_salt l6 @ rnd @ lk_rand l6), lk_expect := PROV_DATA\<rparr>"
  have "link_upto s ?l7 (deliver env conn PROV_RANDOM rnd s6)"
    by (rule deliver_upto [where func = "prov_random env" and bs = rnd, OF 6 c6(1,2) _ _ _ honest_random [OF 6 g c6(1) len(3) c6(3,4)]]) (simp_all add: handler_table len(3))
  moreover have "deliver env conn PROV_RANDOM rnd s6 = authenticate env conn att start pk_prov dhle conf rnd s"
    by (simp add: authenticate_def Let_def s6_def s5_def)
  moreover have "lk_conn ?l7 = Some conn" "lk_dhkey ?l7 = rev dhle" "lk_prov_salt ?l7 = spec_prov_salt inputs rnd rnd_dev"
    using c5 by (simp_all add: l6_def spec_prov_salt_def)
  ultimately show thesis using that [of ?l7] by simp
qed

text \<open>The provisioning data of the profile.\<close>

definition prov_data_pdu :: "bytes \<Rightarrow> u16 \<Rightarrow> u8 \<Rightarrow> u32 \<Rightarrow> u16 \<Rightarrow> bytes" where
  "prov_data_pdu net_key idx flags iv addr = net_key @ sys_put_be16 idx @ [flags] @ sys_put_be32 iv @ sys_put_be16 addr"

lemma prov_data_fields:
  assumes "length nk = 16"
  shows "length (prov_data_pdu nk idx flags iv addr) = 25" "take 16 (prov_data_pdu nk idx flags iv addr) = nk"
    "sys_get_be16 (get_bytes (prov_data_pdu nk idx flags iv addr) 16 2) = idx" "byte_at (prov_data_pdu nk idx flags iv addr) 18 = flags"
    "sys_get_be32 (get_bytes (prov_data_pdu nk idx flags iv addr) 19 4) = iv" "sys_get_be16 (get_bytes (prov_data_pdu nk idx flags iv addr) 23 2) = addr"
  using assms by (simp_all add: prov_data_pdu_def get_bytes_def byte_at_def nth_append)

lemma data_accepted:
  assumes "link_upto s l t" "gatt_link conn s" "\<not> bm_valid (ms_net s)" "bm_sub (ms_net s) \<noteq> []" "\<not> BT_MESH_KEY_REFRESH flags"
    and l: "lk_conn l = Some conn" "lk_expect l = PROV_DATA" "lk_dhkey l = dh" "lk_prov_salt l = salt" and nk: "length nk = 16"
    and s': "s' = deliver env conn PROV_DATA (spec_data dh salt (prov_data_pdu nk idx flags iv addr)) t"
  shows "ms_provisioned s' \<and> ms_primary_addr s' = addr \<and> bm_iv_index (ms_net s') = iv \<and> bm_dev_key (ms_net s') = spec_k1 dh salt ''prdk'' \<and>
    sn_net_idx (get_sub s' 0) = idx \<and> sk_net (sn_key0 (get_sub s' 0)) = nk"
proof -
  let ?pdu = "prov_data_pdu nk idx flags iv addr"
  let ?d = "spec_data dh salt ?pdu"
  note f = prov_data_fields [OF nk, of idx flags iv addr]
  note sd = spec_data_code [OF f(1) spec_values(6), of dh salt]
  note dl = deliver_handler [of t conn PROV_DATA env prov_data ?d]
  have del: "s' = prov_data ?d t" using dl l upto_link [OF assms(1)] by (simp add: s' handler_table sd)
  note 1 = upto_log [OF assms(1), of "Ev_Genie (GENIE_EVT_SDK_MESH_PROV_DATA addr)"]
  let ?t1 = "log_ev (Ev_Genie (GENIE_EVT_SDK_MESH_PROV_DATA addr)) t" and ?m = "prov_buf_init (PROV_BUF 1) PROV_COMPLETE"
  obtain u where u: "prov_send ?m ?t1 = (None, u)" "link_upto s l u" by (rule send_ok [OF 1 assms(2) l(1)])
  let ?u = "upd_link (\<lambda>l. l\<lparr>lk_expect := 0\<rparr>) u"
  have "s' = snd (bt_mesh_provision nk idx flags iv 0 addr (spec_k1 dh salt ''prdk'') ?u)"
    using u(1) upto_link [OF assms(1)] l(3,4) by (simp add: del prov_data_def Let_def spec_values sd f)
  moreover have "ms_net ?u = ms_net s" using upto_sel(6) [OF u(2)] by (simp add: upd_link_def)
  ultimately show ?thesis using provision_ok [of ?u flags s' nk idx iv 0 addr] assms(3-5) by (simp add: spec_values)
qed

text \<open>C5.
  Provisioning completes. A node with a GATT connection for provisioning and an idle link receives the
  messages of a provisioner that follows the profile: an invitation, a start with or without the static
  authentication method, a public key; the Diffie-Hellman secret arrives from the controller; then the
  confirmation value, the random number and the encrypted provisioning data, each computed with the reference
  CMAC and CCM from the public values and the shared secret. Every message is accepted, no error branch is
  taken, and at the end the node is provisioned, has exactly the transmitted network key, key index, IV Index and
  unicast address, and the device key the profile derives from the secret.
\<close>

theorem handshake_completes:
  assumes "awaiting conn s" "m = 0 \<or> m = 1"
    and "pe_pub_key env = Some pk" "length pk = 64" "pe_dh_gen env = None" "pe_rand env = Inr rnd_dev" "length rnd_dev = 16"
    and "length pk_prov = 64" "length dhle = 32" "length rnd = 16" "length nk = 16" "\<not> BT_MESH_KEY_REFRESH flags"
    and "start = [0, pv_public_key_type (ms_prov s), m, 0, 0]"
    and "inputs = att # capabilities s @ start @ pk_prov @ swap_halves pk"
    and "salt = spec_prov_salt inputs rnd rnd_dev"
    and "sa = authenticate env conn att start pk_prov dhle (spec_conf (rev dhle) inputs rnd (pe_auth env)) rnd s"
    and "sb = deliver env conn PROV_DATA (spec_data (rev dhle) salt (prov_data_pdu nk idx flags iv addr)) sa"
  shows "ms_provisioned sa = ms_provisioned s \<and> ms_provisioned sb \<and> ms_primary_addr sb = addr \<and> bm_iv_index (ms_net sb) = iv \<and>
    bm_dev_key (ms_net sb) = spec_k1 (rev dhle) salt ''prdk'' \<and> sn_net_idx (get_sub sb 0) = idx \<and> sk_net (sn_key0 (get_sub sb 0)) = nk"
proof -
  obtain l where l: "link_upto s l sa" "lk_conn l = Some conn" "lk_expect l = PROV_DATA" "lk_dhkey l = rev dhle" "lk_prov_salt l = salt"
    unfolding assms(15,16) by (rule authenticate_ok [OF assms(1-10,13,14) refl])
  have a: "gatt_link conn s" "\<not> bm_valid (ms_net s)" "bm_sub (ms_net s) \<noteq> []" using assms(1) by (simp_all add: awaiting_def)
  show ?thesis using data_accepted [OF l(1) a assms(12) l(2-5) assms(11,17)] upto_sel(7) [OF l(1)] by simp
qed

text \<open>A node with the default configuration, one connection and a key pair.\<close>

definition prov_demo :: mesh where
  "prov_demo = mesh0\<lparr>ms_clients := [client0\<lparr>cl_conn := Some 7, cl_filter_type := FT_PROV\<rparr>, client0], ms_gatt_svc := MESH_GATT_PROV,
     ms_link := prov_link0\<lparr>lk_local_pub_key := True\<rparr>\<rparr>"

definition prov_env_demo :: prov_env where
  "prov_env_demo = \<lparr>pe_auth = replicate 16 9, pe_pub_key = Some (replicate 64 5), pe_rand = Inr (replicate 16 6), pe_dh_gen = None\<rparr>"

definition demo_inputs :: bytes where
  "demo_inputs = 0 # capabilities prov_demo @ [0, 0, 1, 0, 0] @ replicate 64 3 @ swap_halves (replicate 64 5)"

definition demo_data :: bytes where
  "demo_data = spec_data (rev (replicate 32 4)) (spec_prov_salt demo_inputs (replicate 16 2) (replicate 16 6))
     (prov_data_pdu (replicate 16 1) 0 0 5 0x0102)"

definition demo_auth :: mesh where
  "demo_auth = authenticate prov_env_demo 7 0 [0, 0, 1, 0, 0] (replicate 64 3) (replicate 32 4)
     (spec_conf (rev (replicate 32 4)) demo_inputs (replicate 16 2) (replicate 16 9)) (replicate 16 2) prov_demo"

lemma demo_facts:
  "awaiting 7 prov_demo" "pv_public_key_type (ms_prov prov_demo) = 0" "\<not> ms_provisioned prov_demo" "link_idle prov_demo"
  by (simp_all add: awaiting_def prov_demo_def gatt_link_def find_client_def get_client_def mesh0_def bt_mesh_net0_def client0_def prov_link0_def
      bt_mesh_prov0_def link_idle_def lview_def)

lemma demo_env:
  "pe_auth prov_env_demo = replicate 16 9" "pe_pub_key prov_env_demo = Some (replicate 64 5)" "pe_rand prov_env_demo = Inr (replicate 16 6)"
  "pe_dh_gen prov_env_demo = None" "\<not> BT_MESH_KEY_REFRESH 0"
  by (simp_all add: prov_env_demo_def BT_MESH_KEY_REFRESH_def)

lemmas demo_defs = demo_inputs_def demo_auth_def demo_data_def

theorem handshake_completes_witness:
  "\<not> ms_provisioned demo_auth \<and> ms_provisioned (deliver prov_env_demo 7 PROV_DATA demo_data demo_auth) \<and>
   ms_primary_addr (deliver prov_env_demo 7 PROV_DATA demo_data demo_auth) = 0x0102"
proof -
  note h = handshake_completes [where conn = 7 and s = prov_demo and m = 1 and env = prov_env_demo and pk = "replicate 64 5"
      and rnd_dev = "replicate 16 6" and rnd = "replicate 16 2" and dhle = "replicate 32 4" and nk = "replicate 16 1" and flags = 0 and idx = 0
      and iv = 5 and addr = "0x0102" and att = 0 and pk_prov = "replicate 64 3" and start = "[0, 0, 1, 0, 0]" and inputs = demo_inputs
      and sa = demo_auth and sb = "deliver prov_env_demo 7 PROV_DATA demo_data demo_auth"]
  show ?thesis using h demo_facts(3) by (simp add: demo_facts demo_env demo_defs)
qed


lemma run_steps:
  assumes "prov_run auth s t"
  shows "pe_auth env = auth \<Longrightarrow> prov_run auth s (deliver env conn type bs t)" "prov_run auth s (snd (bt_mesh_pb_gatt_open conn t))"
    "prov_run auth s (prov_dh_key_cb env key t)"
  using prov_run.step [OF assms] prov_step.gatt_pdu prov_step.gatt_open prov_step.dh_key by (auto simp: deliver_def)

lemma demo_run: "prov_run (replicate 16 9) prov_demo demo_auth"
  unfolding demo_auth_def authenticate_def share_secret_def Let_def by (intro run_steps demo_env(1) prov_run.start)

lemma demo_provisioned: "\<not> ms_provisioned demo_auth" "ms_provisioned (deliver prov_env_demo 7 PROV_DATA demo_data demo_auth)"
proof -
  have st: "[0, 0, 1, 0, 0] = [0, pv_public_key_type (ms_prov prov_demo), 1, 0, 0]" by (simp add: demo_facts)
  obtain l where l: "link_upto prov_demo l demo_auth" "lk_conn l = Some 7" "lk_expect l = PROV_DATA" "lk_dhkey l = rev (replicate 32 4)"
      "lk_prov_salt l = spec_prov_salt demo_inputs (replicate 16 2) (replicate 16 6)"
    unfolding demo_auth_def
    by (rule authenticate_ok [where dhle = "replicate 32 4" and rnd = "replicate 16 2", OF demo_facts(1) _ demo_env(2) _ demo_env(4,3) _ _ _ _ st demo_inputs_def]) (simp_all add: demo_env)
  show "\<not> ms_provisioned demo_auth" using demo_facts(3) upto_sel(7) [OF l(1)] by simp
  have a: "gatt_link 7 prov_demo" "\<not> bm_valid (ms_net prov_demo)" "bm_sub (ms_net prov_demo) \<noteq> []"
    using demo_facts(1) by (simp_all add: awaiting_def)
  show "ms_provisioned (deliver prov_env_demo 7 PROV_DATA demo_data demo_auth)"
    unfolding demo_data_def using data_accepted [OF l(1) a demo_env(5) l(2-5) _ refl, where nk = "replicate 16 1"] by simp
qed


end
