(* ===== verification/Frame.thy ===== *)
theory Frame
  imports Net
begin

text \<open>
  What sending leaves alone. \<open>core\<close> is a state without the parts that belong to the bearer and the work
  queue (buffers, queues, timers, trace, the pending provisioning acknowledgement) and without the own sequence number; operations of the
  advertising bearer, of the proxy and of \<^verbatim>\<open>bt_mesh_net_send\<close> keep it, for every message whose callback is
  not that of a beacon. Receiving code can thus send acknowledgements without touching its own state.
\<close>

definition core :: "mesh \<Rightarrow> mesh" where
  "core s = s\<lparr>ms_net := (ms_net s)\<lparr>bm_seq := 0, bm_local_queue := []\<rparr>, ms_bufs := [], ms_free := [], ms_uninit := 0,
     ms_adv_queue := [], ms_works := (\<lambda>_. \<lparr>wk_pending = False, wk_start_ms = 0, wk_timeout = 0\<rparr>), ms_log := [], ms_pending_ack := 0\<rparr>"

named_theorems frame

lemma core_sel:
  assumes "core s' = core s"
  shows "ms_seg_rx s' = ms_seg_rx s" "ms_seg_tx s' = ms_seg_tx s" "ms_comp s' = ms_comp s" "ms_conf s' = ms_conf s"
    "ms_labels s' = ms_labels s" "ms_clients s' = ms_clients s" "ms_now s' = ms_now s" "ms_primary_addr s' = ms_primary_addr s"
    "bm_iv_index (ms_net s') = bm_iv_index (ms_net s)" "bm_iv_update (ms_net s') = bm_iv_update (ms_net s)"
    "bm_sub (ms_net s') = bm_sub (ms_net s)" "bm_app_keys (ms_net s') = bm_app_keys (ms_net s)"
    "bm_dev_key (ms_net s') = bm_dev_key (ms_net s)" "bm_rpl (ms_net s') = bm_rpl (ms_net s)"
proof -
  note c = assms [unfolded core_def]
  show "ms_seg_rx s' = ms_seg_rx s" "ms_seg_tx s' = ms_seg_tx s" "ms_comp s' = ms_comp s" "ms_conf s' = ms_conf s"
    "ms_labels s' = ms_labels s" "ms_clients s' = ms_clients s" "ms_now s' = ms_now s" "ms_primary_addr s' = ms_primary_addr s"
    using arg_cong [OF c, of ms_seg_rx] arg_cong [OF c, of ms_seg_tx] arg_cong [OF c, of ms_comp] arg_cong [OF c, of ms_conf]
      arg_cong [OF c, of ms_labels] arg_cong [OF c, of ms_clients] arg_cong [OF c, of ms_now] arg_cong [OF c, of ms_primary_addr]
    by simp_all
  show "bm_iv_index (ms_net s') = bm_iv_index (ms_net s)" "bm_iv_update (ms_net s') = bm_iv_update (ms_net s)"
    "bm_sub (ms_net s') = bm_sub (ms_net s)" "bm_app_keys (ms_net s') = bm_app_keys (ms_net s)"
    "bm_dev_key (ms_net s') = bm_dev_key (ms_net s)" "bm_rpl (ms_net s') = bm_rpl (ms_net s)"
    using arg_cong [OF c, of "\<lambda>s. bm_iv_index (ms_net s)"] arg_cong [OF c, of "\<lambda>s. bm_iv_update (ms_net s)"]
      arg_cong [OF c, of "\<lambda>s. bm_sub (ms_net s)"] arg_cong [OF c, of "\<lambda>s. bm_app_keys (ms_net s)"]
      arg_cong [OF c, of "\<lambda>s. bm_dev_key (ms_net s)"] arg_cong [OF c, of "\<lambda>s. bm_rpl (ms_net s)"]
    by simp_all
qed

section \<open>Timers, trace and buffers\<close>

lemma core_work [frame]:
  "core (k_delayed_work_cancel w s) = core s" "core (k_delayed_work_submit w d s) = core s" "core (k_work_submit w s) = core s"
  by (simp_all add: core_def k_delayed_work_cancel_def k_delayed_work_submit_def k_work_submit_def Let_def)

lemma core_log [frame]: "core (log_ev e s) = core s" "core (next_seq s) = core s"
  by (simp_all add: core_def log_ev_def next_seq_def upd_net_def)

lemma core_buf [frame]:
  "core (upd_buf i f s) = core s" "core (on_buf i g s) = core s" "core (net_buf_ref i s) = core s"
  "core (net_buf_reserve i n s) = core s" "core (bt_mesh_adv_send i cb s) = core s"
  by (simp_all add: core_def upd_buf_def on_buf_def net_buf_ref_def net_buf_reserve_def bt_mesh_adv_send_def Let_def)

lemma core_unref [frame]: "core (net_buf_unref i s) = core s"
  by (simp add: core_def net_buf_unref_def upd_buf_def Let_def)

lemma core_alloc: "net_buf_alloc s = (r, s') \<Longrightarrow> core s' = core s"
  by (auto simp: net_buf_alloc_def core_def upd_buf_def Let_def split: if_splits list.splits)

lemma core_adv_create: "bt_mesh_adv_create type xc xi s = (r, s') \<Longrightarrow> core s' = core s"
  by (auto simp: bt_mesh_adv_create_def frame dest: core_alloc split: prod.splits option.splits)

section \<open>Callbacks\<close>

text \<open>The callback of a beacon records a time in its subnet; every other callback is framed.\<close>

fun cb_framed :: "send_cb \<Rightarrow> bool" where
  "cb_framed (Cb_User (Cb_Beacon i)) = False"
| "cb_framed cb = True"

lemma core_prov_cb [frame]: "core (ack_complete s) = core s" "core (buf_sent s) = core s"
  by (simp_all add: core_def ack_complete_def buf_sent_def k_delayed_work_submit_def k_delayed_work_cancel_def Let_def)

lemma core_user_start [frame]: "core (user_cb_start u d err s) = core s"
  by (simp add: user_cb_start_def frame split: user_cb.splits)

lemma core_adv_start [frame]: "core (adv_send_start d err cb s) = core s"
  by (simp add: adv_send_start_def seg_send_start_def frame split: send_cb.splits)

lemma core_adv_end [frame]: "cb_framed cb \<Longrightarrow> core (adv_send_end err cb s) = core s"
  by (auto simp: adv_send_end_def user_cb_end_def publish_sent_def seg_sent_def Let_def frame split: send_cb.splits user_cb.splits)

section \<open>Sending\<close>

lemma core_only_log: "only_log s s' \<Longrightarrow> core s' = core s"
  by (auto simp: only_log_def core_def)

lemma core_proxy_relay: "bt_mesh_proxy_relay b dst s = (r, s') \<Longrightarrow> core s' = core s"
  using core_only_log [OF only_log_relay [of s b dst]] by simp

lemma core_encode: "bt_mesh_net_encode tx b p s = (err, tx', b', s') \<Longrightarrow> core s' = core s"
  by (auto simp: bt_mesh_net_encode_def Let_def frame split: if_splits prod.splits)

lemma core_local_queue [frame]: "core (upd_net (\<lambda>n. n\<lparr>bm_local_queue := f n\<rparr>) s) = core s"
  by (simp add: core_def upd_net_def)

lemma core_net_send:
  assumes "bt_mesh_net_send tx i cb s = (err, tx', s')" "cb_framed cb"
  shows "core s' = core s"
proof -
  let ?tx = "if cx_send_ttl (tx_ctx tx) = BT_MESH_TTL_DEFAULT
    then tx\<lparr>tx_ctx := (tx_ctx tx)\<lparr>cx_send_ttl := bt_mesh_default_ttl_get s\<rparr>\<rparr> else tx"
  obtain e tx1 b s1 where enc: "bt_mesh_net_encode ?tx (buf_b s i) False s = (e, tx1, b, s1)" by (metis prod_cases4)
  let ?s2 = "on_buf i (\<lambda>_. b) s1"
  obtain r s3 where rel: "(if cx_send_ttl (tx_ctx tx1) \<noteq> 1 then bt_mesh_proxy_relay (buf_b ?s2 i) (cx_addr (tx_ctx tx1)) ?s2 else (False, ?s2)) = (r, s3)"
    by (metis surj_pair)
  have 1: "core ?s2 = core s" using core_encode [OF enc] by (simp add: frame)
  have 2: "core s3 = core s" using rel 1 by (auto dest: core_proxy_relay split: if_splits)
  from assms(1) show ?thesis
    unfolding bt_mesh_net_send_def Let_def enc prod.case rel
    using 1 2 assms(2) by (auto simp: frame split: if_splits)
qed

end
