(* ===== verification/Reassembly.thy ===== *)
theory Reassembly
  imports Transport Frame
begin

text \<open>
  What the reassembly of \<^verbatim>\<open>transport.c\<close> achieves: the header that \<^verbatim>\<open>send_seg\<close> writes is the one \<^verbatim>\<open>trans_seg\<close>
  reads, the receiver recovers the sender's SeqAuth while the sequence number stays in one block of
  8192, and the segments of a message, in whatever order they arrive, are put together to the message.
\<close>

section \<open>Segment headers\<close>

lemma bit_lt:
  fixes x :: "'a::len word"
  assumes "unat x < 2 ^ k" "bit x n"
  shows "n < k"
proof -
  have "bit (unat x) n" using assms(2) bit_imp_le_length [OF assms(2)] by (simp add: bit_unsigned_iff)
  moreover have "take_bit k (unat x) = unat x" using assms(1) by (simp add: take_bit_nat_eq_self)
  ultimately show ?thesis by (metis bit_take_bit_iff)
qed

lemma masks: "(0x3f :: u16) = mask 6" "(0x07 :: u8) = mask 3" "(0x03 :: u16) = mask 2" "(0x1f :: u8) = mask 5" "(0x1fff :: u16) = mask 13"
  "(0x1fff :: u64) = mask 13" "(0xffffe000 :: u32) = NOT (mask 13)" "(0xffffff :: u64) = mask 24"
  by (simp_all add: mask_eq_exp_minus_1)

lemma seg_header_fields:
  assumes "unat seq_zero < 2 ^ 13" "unat seg_o < 2 ^ 5" "unat seg_n < 2 ^ 5" "aszmic = 0 \<or> aszmic = 1"
    and "[a, b, c, d] = seg_header hdr aszmic seq_zero seg_o seg_n"
  shows "a = hdr" "ASZMIC b = aszmic" "seg_fields (sys_get_be16 [b, c]) d = (seq_zero, seg_o, seg_n)"
proof -
  note z = bit_lt [OF assms(1)] bit_lt [OF assms(2)] bit_lt [OF assms(3)]
  have b: "b = push_bit 7 aszmic OR ucast (drop_bit 6 seq_zero)"
    and c: "c = push_bit 2 (ucast (seq_zero AND 0x3f)) OR drop_bit 3 seg_o"
    and d: "d = push_bit 5 (seg_o AND 0x07) OR seg_n" using assms(5) by (simp_all add: seg_header_def)
  show "a = hdr" using assms(5) by (simp add: seg_header_def)
  have az: "bit aszmic n \<Longrightarrow> n = 0" for n using assms(4) by (cases n) (auto simp: bit_1_iff)
  have "bit (ASZMIC b) n \<longleftrightarrow> bit aszmic n" for n
    by (cases n) (auto simp: ASZMIC_def b bit_simps dest: z az)
  then show "ASZMIC b = aszmic" by (rule bit_eqI)
  have "bit (drop_bit 2 (sys_get_be16 [b, c]) AND 0x1fff) n \<longleftrightarrow> bit seq_zero n" if "n < 16" for n
    using that by (auto simp: sys_get_be16_def b c masks bit_simps dest: z az)
  then have 1: "drop_bit 2 (sys_get_be16 [b, c]) AND 0x1fff = seq_zero" by (intro bit_word_eqI) simp
  have "bit (push_bit 3 (ucast (sys_get_be16 [b, c] AND 0x03)) OR drop_bit 5 d) n \<longleftrightarrow> bit seg_o n" if "n < 8" for n
    using that by (auto simp: sys_get_be16_def b c d masks bit_simps dest: z az)
  then have 2: "push_bit 3 (ucast (sys_get_be16 [b, c] AND 0x03)) OR drop_bit 5 d = seg_o" by (intro bit_word_eqI) simp
  have "bit (d AND 0x1f) n \<longleftrightarrow> bit seg_n n" if "n < 8" for n
    using that by (auto simp: d masks bit_simps dest: z)
  then have 3: "d AND 0x1f = seg_n" by (intro bit_word_eqI) simp
  show "seg_fields (sys_get_be16 [b, c]) d = (seq_zero, seg_o, seg_n)" by (simp add: seg_fields_def 1 2 3)
qed


section \<open>SeqAuth\<close>

lemma seq_zero_small: "unat (ucast (q AND 0x1fff :: u64) :: u16) < 2 ^ 13"
proof -
  have "(ucast (q AND 0x1fff) :: u16) = take_bit 13 (ucast q)"
    by (rule bit_word_eqI) (auto simp: masks bit_simps)
  then show ?thesis using take_bit_nat_less_exp [of 13 "unat (ucast q :: u16)"] by (simp add: unsigned_take_bit_eq)
qed

lemma block_eq: "drop_bit 13 (a :: u32) = drop_bit 13 b \<longleftrightarrow> unat a div 8192 = unat b div 8192"
  by (simp add: word_unat_eq_iff unat_shift)

lemma seq_auth_iff:
  assumes "unat first < 2 ^ 24" "unat seq < 2 ^ 24"
  shows "SEQ_AUTH iv ((seq AND 0xffffe000) OR ucast (ucast (SEQ_AUTH iv first AND 0x1fff) :: u16)) = SEQ_AUTH iv first
   \<longleftrightarrow> drop_bit 13 seq = drop_bit 13 first" (is "?a = ?b \<longleftrightarrow> ?c = ?d")
proof -
  note z = bit_lt [OF assms(1)] bit_lt [OF assms(2)]
  have low: "bit ?a n \<longleftrightarrow> bit ?b n" if "n < 13" for n
    using that by (auto simp: SEQ_AUTH_def masks bit_simps)
  have high: "bit ?a n \<longleftrightarrow> bit ?b n" if "24 \<le> n" "n < 64" for n
    using that by (auto simp: SEQ_AUTH_def masks bit_simps dest: z)
  have mid: "(bit ?a n \<longleftrightarrow> bit ?b n) \<longleftrightarrow> (bit seq n \<longleftrightarrow> bit first n)" if "13 \<le> n" "n < 24" for n
    using that by (auto simp: SEQ_AUTH_def masks bit_simps dest: z)
  show ?thesis
  proof
    assume e: "?a = ?b"
    show "?c = ?d"
    proof (rule bit_word_eqI)
      fix n assume n: "n < LENGTH(32)"
      show "bit ?c n = bit ?d n"
      proof (cases "n + 13 < 24")
        case True
        then show ?thesis using mid [of "n + 13"] e by (simp add: bit_simps add.commute)
      next
        case False
        then show ?thesis by (auto simp: bit_simps dest: z)
      qed
    qed
  next
    assume e: "?c = ?d"
    have "bit seq n \<longleftrightarrow> bit first n" if "13 \<le> n" for n
      using arg_cong [OF e, of "\<lambda>w. bit w (n - 13)"] that by (simp add: bit_simps)
    then have "bit ?a n \<longleftrightarrow> bit ?b n" if "n < 64" for n
      using low [of n] high [of n] mid [of n] that by (cases "n < 13"; cases "n < 24") simp_all
    then show "?a = ?b" by (intro bit_word_eqI) simp
  qed
qed

text \<open>
  The receiver of a segment recovers the SeqAuth of the message, the IV Index and sequence number of
  its first segment, exactly when the segment's own sequence number lies in the same block of 8192
  numbers as the first one. A message whose segments or retransmissions cross a multiple of 8192
  is split into two reassembly sessions and never completes.
\<close>

theorem seq_auth_recovered:
  assumes "unat first < 2 ^ 24" "unat seq < 2 ^ 24"
  shows "SEQ_AUTH iv ((seq AND 0xffffe000) OR ucast (ucast (SEQ_AUTH iv first AND 0x1fff) :: u16)) = SEQ_AUTH iv first
   \<longleftrightarrow> unat seq div 8192 = unat first div 8192"
  using seq_auth_iff [OF assms] by (simp add: block_eq)

theorem seq_auth_recovered_witness:
  "SEQ_AUTH 5 ((0x12000 AND 0xffffe000) OR ucast (ucast (SEQ_AUTH 5 0x11fff AND 0x1fff) :: u16)) \<noteq> SEQ_AUTH 5 0x11fff"
  using seq_auth_recovered [of "0x11fff" "0x12000" 5] by simp

lemma bit_MESH_BIT: "bit (MESH_BIT k) n \<longleftrightarrow> n = unat k \<and> n < 32"
  by (auto simp: MESH_BIT_def bit_simps)

lemma bit_BLOCK_COMPLETE: "seg_n < 32 \<Longrightarrow> bit (BLOCK_COMPLETE seg_n) n \<longleftrightarrow> n \<le> seg_n"
proof -
  assume n: "seg_n < 32"
  have "push_bit (seg_n + 1) (1 :: u64) - 1 = mask (seg_n + 1)" by (simp add: mask_eq_exp_minus_1 push_bit_eq_mult)
  with n show ?thesis by (auto simp: BLOCK_COMPLETE_def bit_simps)
qed

section \<open>The reassembly buffer\<close>

text \<open>Segment \<open>k\<close> of a message cut into pieces of \<open>n\<close> bytes.\<close>

definition seg_chunk :: "nat \<Rightarrow> bytes \<Rightarrow> nat \<Rightarrow> bytes" where
  "seg_chunk n sdu k = take n (drop (n * k) sdu)"

text \<open>A context that has received the segments with numbers in \<open>K\<close>.\<close>

definition rx_holds :: "nat \<Rightarrow> bytes \<Rightarrow> nat \<Rightarrow> nat set \<Rightarrow> seg_rx \<Rightarrow> bool" where
  "rx_holds n sdu seg_n K rx \<longleftrightarrow>
     (\<forall>k. bit (sr_block rx) k \<longleftrightarrow> k \<in> K) \<and> nb_off (sr_buf rx) = 0 \<and>
     length (nb_buf (sr_buf rx)) = CONFIG_BT_MESH_RX_SDU_MAX \<and> \<not> nb_fault (sr_buf rx) \<and>
     (seg_n \<in> K \<longrightarrow> nb_len (sr_buf rx) = length sdu) \<and>
     (\<forall>k\<in>K. get_bytes (nb_buf (sr_buf rx)) (n * k) (length (seg_chunk n sdu k)) = seg_chunk n sdu k)"

lemma chunk_bounds:
  assumes "0 < n" "seg_n = (length sdu - 1) div n" "0 < length sdu" "k \<le> seg_n"
  shows "length (seg_chunk n sdu k) = (if k = seg_n then length sdu - n * seg_n else n)"
    "n * k + length (seg_chunk n sdu k) \<le> length sdu" "0 < length (seg_chunk n sdu k)"
proof -
  have a: "n * seg_n \<le> length sdu - 1" "length sdu - 1 < n * seg_n + n"
    using assms(1,2) by (simp_all add: mult.commute) (metis dividend_less_div_times mult.commute add.commute)
  have b: "k < seg_n \<Longrightarrow> n * k + n \<le> n * seg_n" by (metis Suc_leI mult_Suc_right mult_le_mono2 add.commute)
  show "length (seg_chunk n sdu k) = (if k = seg_n then length sdu - n * seg_n else n)"
    using a b assms(3,4) by (auto simp: seg_chunk_def)
  have "n * k \<le> n * seg_n" using assms(4) by simp
  with a(1) assms(3) have "n * k < length sdu" by linarith
  then show "n * k + length (seg_chunk n sdu k) \<le> length sdu" "0 < length (seg_chunk n sdu k)"
    using assms(1) by (auto simp: seg_chunk_def)
qed

lemma rx_holds_step:
  assumes h: "rx_holds n sdu seg_n K rx" and n: "0 < n" "seg_n = (length sdu - 1) div n" "0 < length sdu"
    "length sdu \<le> CONFIG_BT_MESH_RX_SDU_MAX" and k: "k \<le> seg_n" "seg_n < 32" "K \<subseteq> {0..seg_n}" "k \<notin> K"
    and rx': "rx' = rx\<lparr>sr_last := t, sr_buf := rx_put (if k = seg_n then (sr_buf rx)\<lparr>nb_len := length sdu\<rparr> else sr_buf rx) (k * n)
        (seg_chunk n sdu k), sr_block := sr_block rx OR MESH_BIT (of_nat k)\<rparr>"
  shows "rx_holds n sdu seg_n (insert k K) rx'"
proof -
  let ?c = "seg_chunk n sdu"
  have cb: "j \<le> seg_n \<Longrightarrow> n * j + length (?c j) \<le> length sdu" for j using chunk_bounds(2) [OF n(1-3)] by blast
  have len: "length (nb_buf (sr_buf rx)) = CONFIG_BT_MESH_RX_SDU_MAX" using h by (simp add: rx_holds_def)
  have fit: "n * k + length (?c k) \<le> length (nb_buf (sr_buf rx))" using cb [OF k(1)] n(4) len by simp
  have buf: "nb_buf (sr_buf rx') = put_bytes (nb_buf (sr_buf rx)) (n * k) (?c k)"
    by (simp add: rx' rx_put_def mult.commute)
  have kept: "get_bytes (nb_buf (sr_buf rx')) (n * j) (length (?c j)) = ?c j" if "j \<in> K" for j
  proof -
    have j: "j \<le> seg_n" "j \<noteq> k" using that k(3,4) by auto
    have "get_bytes (nb_buf (sr_buf rx')) (n * j) (length (?c j)) = get_bytes (nb_buf (sr_buf rx)) (n * j) (length (?c j))"
    proof (cases "j < k")
      case True
      then have "n * j + n \<le> n * k" by (metis Suc_leI mult_Suc_right mult_le_mono2 add.commute)
      moreover have "length (?c j) \<le> n" by (simp add: seg_chunk_def)
      ultimately show ?thesis unfolding buf using fit by (intro get_put_before) simp_all
    next
      case False
      with j have "n * k + n \<le> n * j" by (metis Suc_leI mult_Suc_right mult_le_mono2 add.commute linorder_neqE_nat)
      moreover have "length (?c k) \<le> n" by (simp add: seg_chunk_def)
      ultimately show ?thesis unfolding buf using fit by (intro get_put_after) simp_all
    qed
    with h that show ?thesis by (simp add: rx_holds_def)
  qed
  have new: "get_bytes (nb_buf (sr_buf rx')) (n * k) (length (?c k)) = ?c k"
    unfolding buf using fit by (rule get_put_same)
  have "bit (sr_block rx') j \<longleftrightarrow> j \<in> insert k K" for j
    using h k(1,2) by (auto simp: rx' rx_holds_def bit_or_iff bit_MESH_BIT unat_of_nat)
  moreover have "seg_n \<in> insert k K \<Longrightarrow> nb_len (sr_buf rx') = length sdu"
    using h by (auto simp: rx' rx_holds_def rx_put_def)
  moreover have "\<not> nb_fault (sr_buf rx')" "nb_off (sr_buf rx') = 0" "length (nb_buf (sr_buf rx')) = CONFIG_BT_MESH_RX_SDU_MAX"
    using h fit by (auto simp: rx' rx_holds_def rx_put_def mult.commute)
  ultimately show ?thesis using kept new by (auto simp: rx_holds_def)
qed

lemma rx_holds_all:
  assumes h: "rx_holds n sdu seg_n {0..seg_n} rx" and n: "0 < n" "seg_n = (length sdu - 1) div n" "0 < length sdu"
    "length sdu \<le> CONFIG_BT_MESH_RX_SDU_MAX"
  shows "nb_ok (sr_buf rx)" "nb_data (sr_buf rx) = sdu"
proof -
  let ?b = "nb_buf (sr_buf rx)"
  have l: "nb_len (sr_buf rx) = length sdu" "length ?b = CONFIG_BT_MESH_RX_SDU_MAX" "nb_off (sr_buf rx) = 0" "\<not> nb_fault (sr_buf rx)"
    using h by (auto simp: rx_holds_def)
  show "nb_ok (sr_buf rx)" using l n(4) by (simp add: nb_ok_def CONFIG_BT_MESH_RX_SDU_MAX_def)
  have "?b ! j = sdu ! j" if j: "j < length sdu" for j
  proof -
    let ?k = "j div n"
    have k: "?k \<le> seg_n" using j n(2) by (simp add: div_le_mono)
    have r: "n * ?k + j mod n = j" "j mod n < n" using n(1) by simp_all
    then have "j mod n < length sdu - n * ?k" using j by linarith
    then have jm: "j mod n < length (seg_chunk n sdu ?k)" using r(2) by (simp add: seg_chunk_def)
    have g: "get_bytes ?b (n * ?k) (length (seg_chunk n sdu ?k)) = seg_chunk n sdu ?k" using h k by (auto simp: rx_holds_def)
    have "n * ?k + length (seg_chunk n sdu ?k) \<le> length ?b" using chunk_bounds(2) [OF n(1-3) k] n(4) l(2) by simp
    from nth_get_bytes [OF jm this] have "seg_chunk n sdu ?k ! (j mod n) = ?b ! j" unfolding g r(1) .
    moreover have "seg_chunk n sdu ?k ! (j mod n) = sdu ! j"
      using nth_get_bytes [of "j mod n" "length (seg_chunk n sdu ?k)" "n * ?k" sdu] jm chunk_bounds(2) [OF n(1-3) k] r(1)
      by (simp add: get_bytes_def seg_chunk_def)
    ultimately show ?thesis by simp
  qed
  then show "nb_data (sr_buf rx) = sdu"
    using l n(4) by (intro nth_equalityI) (simp_all add: nb_data_def get_bytes_def)
qed

section \<open>One segment\<close>

lemma rx_sel [simp]:
  "ms_seg_rx (upd_rx i f s) = upd_at i f (ms_seg_rx s)" "ms_net (upd_rx i f s) = ms_net s"
  "ms_seg_rx (k_delayed_work_cancel w s) = ms_seg_rx s" "ms_seg_rx (k_delayed_work_submit w d s) = ms_seg_rx s"
  by (simp_all add: upd_rx_def k_delayed_work_cancel_def k_delayed_work_submit_def Let_def)

lemma get_upd_rx [simp]: "i < length (ms_seg_rx s) \<Longrightarrow> get_rx (upd_rx i f s) i = f (get_rx s i)"
  by (simp add: get_rx_def nth_upd_at)

lemma get_rx_work [simp]: "get_rx (k_delayed_work_submit w d s) i = get_rx s i" "get_rx (k_delayed_work_cancel w s) i = get_rx s i"
  by (simp_all add: get_rx_def)

text \<open>A state in which only the context \<open>i\<close> and the timers differ.\<close>

definition rx_upto :: "nat \<Rightarrow> seg_rx \<Rightarrow> mesh \<Rightarrow> mesh \<Rightarrow> bool" where
  "rx_upto i rx s s' \<longleftrightarrow> s' = s\<lparr>ms_seg_rx := (ms_seg_rx s)[i := rx], ms_works := ms_works s'\<rparr>"

lemma rx_upto_sel:
  assumes "rx_upto i rx s s'"
  shows "ms_seg_rx s' = (ms_seg_rx s)[i := rx]" "ms_net s' = ms_net s" "i < length (ms_seg_rx s) \<Longrightarrow> get_rx s' i = rx"
  by (subst assms [unfolded rx_upto_def], simp add: get_rx_def)+

lemma rx_upto_trans:
  assumes "rx_upto i rx s s'" "rx_upto i rx' s' s''"
  shows "rx_upto i rx' s s''"
proof -
  have "s'' = s'\<lparr>ms_seg_rx := (ms_seg_rx s')[i := rx'], ms_works := ms_works s''\<rparr>" using assms(2) by (simp add: rx_upto_def)
  also have "\<dots> = s\<lparr>ms_seg_rx := (ms_seg_rx s)[i := rx'], ms_works := ms_works s''\<rparr>"
    unfolding rx_upto_sel(1) [OF assms(1)] by (subst assms(1) [unfolded rx_upto_def]) simp
  finally show ?thesis by (simp add: rx_upto_def)
qed

text \<open>Storing a segment that is new and of the right size.\<close>

lemma seg_found_store:
  assumes i: "i < length (ms_seg_rx s)" and rx: "rx = get_rx s i" "\<not> sr_ctl rx"
    and new: "MESH_BIT seg_o AND sr_block rx = 0"
    and size: "if unat seg_o = seg_n then seg_n * 12 + nb_len buf \<le> CONFIG_BT_MESH_RX_SDU_MAX else nb_len buf = 12"
  obtains s' t where "rx_upto i (rx\<lparr>sr_last := t,
        sr_buf := rx_put (if unat seg_o = seg_n then (sr_buf rx)\<lparr>nb_len := seg_n * 12 + nb_len buf\<rparr> else sr_buf rx)
           (unat seg_o * 12) (nb_data buf), sr_block := sr_block rx OR MESH_BIT seg_o\<rparr>) s s'"
    and "seg_found h i hdr aszmic seq_auth seg_o seg_n buf net_rx s =
      (if sr_block rx OR MESH_BIT seg_o \<noteq> BLOCK_COMPLETE seg_n then (None, net_rx, s')
       else seg_complete h i hdr aszmic seq_auth seg_o net_rx s')"
proof -
  define s1 where "s1 = (if unat seg_o = seg_n
    then upd_rx i (\<lambda>rx. rx\<lparr>sr_buf := (sr_buf rx)\<lparr>nb_len := seg_n * seg_len False + nb_len buf\<rparr>\<rparr>) s else s)"
  define s2 where "s2 = upd_rx i (\<lambda>rx. rx\<lparr>sr_last := k_uptime_get_32 s1\<rparr>) s1"
  define s3 where "s3 = (if k_delayed_work_remaining_get (W_Ack i) s2 = 0
                   then k_delayed_work_submit (W_Ack i) (ack_timeout (get_rx s2 i)) s2 else s2)"
  define s4 where "s4 = upd_rx i (\<lambda>rx. rx\<lparr>sr_buf := rx_put (sr_buf rx) (unat seg_o * seg_len False) (nb_data buf),
                    sr_block := sr_block rx OR MESH_BIT seg_o\<rparr>) s3"
  let ?rx = "rx\<lparr>sr_last := k_uptime_get_32 s1,
        sr_buf := rx_put (if unat seg_o = seg_n then (sr_buf rx)\<lparr>nb_len := seg_n * 12 + nb_len buf\<rparr> else sr_buf rx)
           (unat seg_o * 12) (nb_data buf), sr_block := sr_block rx OR MESH_BIT seg_o\<rparr>"
  have u: "rx_upto i ?rx s s4"
    using i rx(1) by (simp add: rx_upto_def s4_def s3_def s2_def s1_def upd_rx_def upd_at_def get_rx_def seg_len_def
        k_delayed_work_submit_def k_delayed_work_cancel_def Let_def)
  moreover have "seg_found h i hdr aszmic seq_auth seg_o seg_n buf net_rx s =
      (if sr_block rx OR MESH_BIT seg_o \<noteq> BLOCK_COMPLETE seg_n then (None, net_rx, s4)
       else seg_complete h i hdr aszmic seq_auth seg_o net_rx s4)"
  proof -
    have ctl: "sr_ctl rx = False" using rx(2) by simp
    have b: "sr_block (get_rx s4 i) = sr_block rx OR MESH_BIT seg_o" using rx_upto_sel(3) [OF u i] by simp
    have c: "\<not> (unat seg_o = seg_n \<and> CONFIG_BT_MESH_RX_SDU_MAX < seg_n * seg_len False + nb_len buf)"
      "\<not> (unat seg_o \<noteq> seg_n \<and> nb_len buf \<noteq> seg_len False)"
      using size by (auto simp: seg_len_def split: if_splits)
    show ?thesis
      unfolding seg_found_def Let_def rx(1) [symmetric] ctl s1_def [symmetric] s2_def [symmetric] s3_def [symmetric]
        s4_def [symmetric] b
      using new c by (simp only: if_False simp_thms)
  qed
  ultimately show thesis by (rule that)
qed

section \<open>Finding the context\<close>

definition rx_matches :: "bt_mesh_net_rx \<Rightarrow> u64 \<Rightarrow> seg_rx \<Rightarrow> bool" where
  "rx_matches net_rx seq_auth rx \<longleftrightarrow>
     sr_src rx = cx_addr (rx_ctx net_rx) \<and> sr_dst rx = rx_dst net_rx \<and> (sr_seq_auth rx = seq_auth \<or> sr_in_use rx)"

lemma seg_rx_find_skip:
  "\<forall>j\<in>set js. \<not> rx_matches net_rx seq_auth (get_rx s j) \<Longrightarrow>
   seg_rx_find_from (js @ is) net_rx seq_auth s = seg_rx_find_from is net_rx seq_auth s"
  by (induction js) (auto simp: rx_matches_def Let_def)

lemma seg_rx_find_hit:
  assumes "i < length (ms_seg_rx s)" "\<forall>j<i. \<not> rx_matches net_rx seq_auth (get_rx s j)"
    "sr_src (get_rx s i) = cx_addr (rx_ctx net_rx)" "sr_dst (get_rx s i) = rx_dst net_rx" "sr_seq_auth (get_rx s i) = seq_auth"
  shows "seg_rx_find net_rx seq_auth s = (Some i, s)"
proof -
  have "[0..<length (ms_seg_rx s)] = [0..<i] @ i # [Suc i..<length (ms_seg_rx s)]"
    using upt_add_eq_append [of 0 i "length (ms_seg_rx s) - i"] upt_conv_Cons [of i "length (ms_seg_rx s)"] assms(1) by simp
  then show ?thesis
    using seg_rx_find_skip [of "[0..<i]" net_rx seq_auth s "i # [Suc i..<length (ms_seg_rx s)]"] assms
    by (simp add: seg_rx_find_def Let_def)
qed

lemma seg_rx_find_fresh:
  assumes "\<forall>rx\<in>set (ms_seg_rx s). \<not> rx_matches net_rx seq_auth rx"
  shows "seg_rx_find net_rx seq_auth s = (None, s)"
  using seg_rx_find_skip [of "[0..<length (ms_seg_rx s)]" net_rx seq_auth s "[]"] assms
  by (simp add: seg_rx_find_def get_rx_def)

section \<open>Parsing a segment\<close>

lemma trans_seg_parse:
  assumes "nb_ok buf" "nb_data buf = [a, b, c, d] @ data" "data \<noteq> []"
    and "seg_fields (sys_get_be16 [b, c]) d = (seq_zero, seg_o, n)" "seg_o \<le> n"
    and "seq_auth = SEQ_AUTH (BT_MESH_NET_IVI_RX s net_rx) ((rx_seq net_rx AND 0xffffe000) OR ucast seq_zero)"
  obtains buf' where "nb_ok buf'" "nb_data buf' = data"
    and "\<And>i. seg_rx_find net_rx seq_auth s = (Some i, s) \<Longrightarrow> seg_rx_is_valid (get_rx s i) net_rx a (unat n) \<Longrightarrow>
        sr_in_use (get_rx s i) \<Longrightarrow>
      trans_seg h buf net_rx s = (let (err, rx, s) = seg_found h i a (ASZMIC b) seq_auth seg_o (unat n) buf' net_rx s in (err, rx, buf', s))"
    and "\<And>i s'. seg_rx_find net_rx seq_auth s = (None, s) \<Longrightarrow> sdu_len_is_ok (rx_ctl net_rx) (unat n) \<Longrightarrow>
        seg_rx_alloc net_rx a seq_auth (unat n) s = (Some i, s') \<Longrightarrow>
      trans_seg h buf net_rx s = (let (err, rx, s) = seg_found h i a (ASZMIC b) seq_auth seg_o (unat n) buf' net_rx
         (upd_rx i (\<lambda>rx. rx\<lparr>sr_obo := rx_friend_match net_rx\<rparr>) s') in (err, rx, buf', s))"
proof -
  have l: "length (nb_data buf) = nb_len buf" using assms(1) by simp
  then have l5: "\<not> nb_len buf < 5" using assms(2,3) by (cases data) auto
  have d0: "nb_data buf = a # [b, c, d] @ data" using assms(2) by simp
  note p1 = pull_u8_Cons [OF assms(1) d0]
  let ?b1 = "net_buf_simple_pull buf 1"
  have d1: "nb_data ?b1 = b # c # d # data" using p1(3) by simp
  note p2 = pull_16_Cons [OF p1(2) d1]
  let ?b2 = "net_buf_simple_pull ?b1 2"
  note p3 = pull_u8_Cons [OF p2(3,4)]
  let ?b3 = "net_buf_simple_pull ?b2 1"
  have hdr: "nb_byte buf 0 = a" "nb_byte buf 1 = b"
    using nb_byte_eq [OF assms(1), of 0] nb_byte_eq [OF assms(1), of 1] l5 assms(2) by simp_all
  have le: "\<not> n < seg_o" using assms(5) by simp
  show thesis
  proof (rule that [OF p3(2,3)])
    fix i
    assume "seg_rx_find net_rx seq_auth s = (Some i, s)" "seg_rx_is_valid (get_rx s i) net_rx a (unat n)" "sr_in_use (get_rx s i)"
    then show "trans_seg h buf net_rx s =
      (let (err, rx, s) = seg_found h i a (ASZMIC b) seq_auth seg_o (unat n) ?b3 net_rx s in (err, rx, ?b3, s))"
      using l5 le unfolding trans_seg_def Let_def hdr p2(1) p3(1) prod.case assms(4) assms(6) [symmetric] by simp
  next
    fix i s'
    assume "seg_rx_find net_rx seq_auth s = (None, s)" "sdu_len_is_ok (rx_ctl net_rx) (unat n)"
      "seg_rx_alloc net_rx a seq_auth (unat n) s = (Some i, s')"
    then show "trans_seg h buf net_rx s = (let (err, rx, s) = seg_found h i a (ASZMIC b) seq_auth seg_o (unat n) ?b3 net_rx
         (upd_rx i (\<lambda>rx. rx\<lparr>sr_obo := rx_friend_match net_rx\<rparr>) s') in (err, rx, ?b3, s))"
      using l5 le unfolding trans_seg_def Let_def hdr p2(1) p3(1) prod.case assms(4) assms(6) [symmetric] by simp
  qed
qed

section \<open>Acknowledging leaves the reassembly alone\<close>

lemma core_ctl_send: "bt_mesh_ctl_send tx op data Cb_None s = (err, tx', s') \<Longrightarrow> core s' = core s"
  by (auto simp: bt_mesh_ctl_send_def Let_def frame dest!: core_adv_create core_net_send split: prod.splits option.splits)

lemma core_send_ack [frame]: "core (snd (send_ack sub src dst ttl auth block obo s)) = core s"
  by (auto simp: send_ack_def Let_def dest: core_ctl_send split: prod.splits)

text \<open>A state without the bearer, the reassembly contexts and the replay list.\<close>

definition rx_core :: "mesh \<Rightarrow> mesh" where
  "rx_core s = core (upd_net (\<lambda>n. n\<lparr>bm_rpl := []\<rparr>) (s\<lparr>ms_seg_rx := []\<rparr>))"

lemma rx_core_cong: "core s' = core s \<Longrightarrow> rx_core s' = rx_core s"
proof -
  have e: "rx_core s = (core s)\<lparr>ms_net := (ms_net (core s))\<lparr>bm_rpl := []\<rparr>, ms_seg_rx := []\<rparr>" for s
    by (simp add: rx_core_def core_def upd_net_def)
  show "core s' = core s \<Longrightarrow> rx_core s' = rx_core s" by (simp only: e)
qed

lemma rx_core_upto: "rx_upto i rx s s' \<Longrightarrow> rx_core s' = rx_core s"
  by (subst rx_upto_def [THEN iffD1], assumption) (simp add: rx_core_def core_def upd_net_def)

lemma rx_core_replay: "is_replay rx s = (r, s') \<Longrightarrow> rx_core s' = rx_core s"
  by (auto simp: is_replay_def rx_core_def core_def upd_net_def split: prod.splits)

lemma if_not_swap: "(if \<not> P then x else y) = (if P then y else x)" by simp

section \<open>A reassembly session\<close>

text \<open>
  Segment \<open>k\<close> of the message \<open>sdu\<close>, as \<^verbatim>\<open>send_seg\<close> forms it, decoded by the network layer with the
  header \<open>rx\<close>; only the sequence number differs between the segments.
\<close>

definition is_seg ::
  "u8 \<Rightarrow> u8 \<Rightarrow> u32 \<Rightarrow> u32 \<Rightarrow> bytes \<Rightarrow> bt_mesh_net_rx \<Rightarrow> nat \<times> net_buf_simple \<times> bt_mesh_net_rx \<Rightarrow> bool" where
  "is_seg hdr aszmic iv first sdu net_rx = (\<lambda>(k, buf, rx).
     nb_ok buf \<and> k \<le> (length sdu - 1) div 12 \<and>
     nb_data buf = seg_header hdr aszmic (ucast (SEQ_AUTH iv first AND 0x1fff)) (of_nat k) (of_nat ((length sdu - 1) div 12))
                     @ seg_chunk 12 sdu k \<and>
     rx = net_rx\<lparr>rx_seq := rx_seq rx\<rparr> \<and> unat (rx_seq rx) < 2 ^ 24 \<and> unat (rx_seq rx) div 8192 = unat first div 8192)"

definition session :: "nat \<Rightarrow> bt_mesh_net_rx \<Rightarrow> u8 \<Rightarrow> u64 \<Rightarrow> bytes \<Rightarrow> nat set \<Rightarrow> mesh \<Rightarrow> bool" where
  "session i net_rx hdr auth sdu K s \<longleftrightarrow>
     i < length (ms_seg_rx s) \<and> (\<forall>j<i. \<not> rx_matches net_rx auth (get_rx s j)) \<and> sr_in_use (get_rx s i) \<and>
     sr_src (get_rx s i) = cx_addr (rx_ctx net_rx) \<and> sr_dst (get_rx s i) = rx_dst net_rx \<and> sr_seq_auth (get_rx s i) = auth \<and>
     sr_hdr (get_rx s i) = hdr \<and> sr_seg_n (get_rx s i) = (length sdu - 1) div 12 \<and> \<not> sr_ctl (get_rx s i) \<and>
     rx_holds 12 sdu ((length sdu - 1) div 12) K (get_rx s i)"

text \<open>What all the segments of one message share.\<close>

definition message_ok :: "u8 \<Rightarrow> u32 \<Rightarrow> bytes \<Rightarrow> bt_mesh_net_rx \<Rightarrow> bool" where
  "message_ok aszmic first sdu net_rx \<longleftrightarrow>
     0 < length sdu \<and> length sdu \<le> CONFIG_BT_MESH_RX_SDU_MAX \<and> (aszmic = 0 \<or> aszmic = 1) \<and> unat first < 2 ^ 24 \<and>
     \<not> rx_ctl net_rx \<and> \<not> rx_friend_match net_rx"

lemma session_store:
  assumes ses: "session i net_rx hdr auth sdu K s" and ok: "message_ok aszmic first sdu net_rx"
    and k: "k \<le> (length sdu - 1) div 12" "k \<notin> K" "K \<subseteq> {0..(length sdu - 1) div 12}"
    and buf: "nb_ok buf" "nb_data buf = seg_chunk 12 sdu k"
  obtains s' where "session i net_rx hdr auth sdu (insert k K) s'" "ms_net s' = ms_net s" "rx_core s' = rx_core s"
    "seg_found h i hdr az auth' (of_nat k) ((length sdu - 1) div 12) buf rx s =
       (if insert k K = {0..(length sdu - 1) div 12} then seg_complete h i hdr az auth' (of_nat k) rx s' else (None, rx, s'))"
proof -
  let ?n = "(length sdu - 1) div 12" and ?c = "get_rx s i"
  have n: "0 < length sdu" "length sdu \<le> CONFIG_BT_MESH_RX_SDU_MAX" using ok by (simp_all add: message_ok_def)
  have n32: "?n < 32" using n(2) by (simp add: CONFIG_BT_MESH_RX_SDU_MAX_def)
  have i: "i < length (ms_seg_rx s)" "\<not> sr_ctl ?c" and h: "rx_holds 12 sdu ?n K ?c" using ses by (simp_all add: session_def)
  have ks: "unat (of_nat k :: u8) = k" using k(1) n32 by (simp add: unat_of_nat)
  have "length (nb_data buf) = nb_len buf" using buf(1) by simp
  then have len: "nb_len buf = length (seg_chunk 12 sdu k)" unfolding buf(2) by simp
  note cb = chunk_bounds [OF _ refl n(1) k(1)]
  have new: "MESH_BIT (of_nat k) AND sr_block ?c = 0"
    using h k(2) by (intro bit_word_eqI) (auto simp: bit_and_iff bit_MESH_BIT ks rx_holds_def)
  have size: "if unat (of_nat k :: u8) = ?n then ?n * 12 + nb_len buf \<le> CONFIG_BT_MESH_RX_SDU_MAX else nb_len buf = 12"
    using cb(1,2) n unfolding ks len by (auto simp: mult.commute)
  obtain s' t where u: "rx_upto i (?c\<lparr>sr_last := t,
        sr_buf := rx_put (if unat (of_nat k :: u8) = ?n then (sr_buf ?c)\<lparr>nb_len := ?n * 12 + nb_len buf\<rparr> else sr_buf ?c)
           (unat (of_nat k :: u8) * 12) (nb_data buf), sr_block := sr_block ?c OR MESH_BIT (of_nat k)\<rparr>) s s'" (is "rx_upto i ?c' s s'")
    and f: "seg_found h i hdr az auth' (of_nat k) ?n buf rx s =
      (if sr_block ?c OR MESH_BIT (of_nat k) \<noteq> BLOCK_COMPLETE ?n then (None, rx, s')
       else seg_complete h i hdr az auth' (of_nat k) rx s')"
    by (rule seg_found_store [OF i(1) refl i(2) new size])
  have c': "get_rx s' i = ?c'" using rx_upto_sel(3) [OF u i(1)] .
  have "12 * ?n \<le> length sdu - 1" by simp
  moreover have "k = ?n \<Longrightarrow> nb_len buf = length sdu - 12 * ?n" using cb(1) len by simp
  ultimately have tot: "k = ?n \<Longrightarrow> ?n * 12 + nb_len buf = length sdu" by linarith
  have holds: "rx_holds 12 sdu ?n (insert k K) ?c'"
  proof (rule rx_holds_step [OF h _ refl n k(1) n32 k(3,2)])
    have "(if k = ?n then (sr_buf ?c)\<lparr>nb_len := ?n * 12 + nb_len buf\<rparr> else sr_buf ?c) =
      (if k = ?n then (sr_buf ?c)\<lparr>nb_len := length sdu\<rparr> else sr_buf ?c)" by (rule if_cong [OF refl _ refl]) (simp only: tot)
    then show "?c' = ?c\<lparr>sr_last := t, sr_buf := rx_put (if k = ?n then (sr_buf ?c)\<lparr>nb_len := length sdu\<rparr> else sr_buf ?c) (k * 12)
        (seg_chunk 12 sdu k), sr_block := sr_block ?c OR MESH_BIT (of_nat k)\<rparr>" by (simp only: ks buf(2))
  qed simp
  have "get_rx s' j = get_rx s j" if "j < i" for j using rx_upto_sel(1) [OF u] that by (simp add: get_rx_def)
  then have ses': "session i net_rx hdr auth sdu (insert k K) s'"
    using ses holds rx_upto_sel(1) [OF u] c' by (simp add: session_def)
  have "sr_block ?c OR MESH_BIT (of_nat k) = BLOCK_COMPLETE ?n \<longleftrightarrow> insert k K = {0..?n}"
  proof -
    have b: "bit (sr_block ?c OR MESH_BIT (of_nat k)) j \<longleftrightarrow> j \<in> insert k K" for j using holds by (simp add: rx_holds_def)
    show ?thesis
    proof
      assume e: "sr_block ?c OR MESH_BIT (of_nat k) = BLOCK_COMPLETE ?n"
      have "j \<in> insert k K \<longleftrightarrow> j \<in> {0..?n}" for j
        unfolding b [symmetric] e bit_BLOCK_COMPLETE [OF n32] by simp
      then show "insert k K = {0..?n}" by (rule set_eqI)
    next
      assume "insert k K = {0..?n}"
      then have "bit (sr_block ?c OR MESH_BIT (of_nat k)) j = bit (BLOCK_COMPLETE ?n) j" for j
        unfolding b bit_BLOCK_COMPLETE [OF n32] by simp
      then show "sr_block ?c OR MESH_BIT (of_nat k) = BLOCK_COMPLETE ?n" by (rule bit_eqI)
    qed
  qed
  then have "seg_found h i hdr az auth' (of_nat k) ?n buf rx s =
       (if insert k K = {0..?n} then seg_complete h i hdr az auth' (of_nat k) rx s' else (None, rx, s'))"
    unfolding f by (simp only: if_not_swap)
  with ses' rx_upto_sel(2) [OF u] rx_core_upto [OF u] show thesis by (rule that)
qed


lemma is_seg_parse:
  assumes "is_seg hdr aszmic iv first sdu net_rx (k, buf, rx)" "message_ok aszmic first sdu net_rx" "iv = BT_MESH_NET_IVI_RX s net_rx"
  obtains b c d where "nb_ok buf" "nb_data buf = [hdr, b, c, d] @ seg_chunk 12 sdu k" "seg_chunk 12 sdu k \<noteq> []" "ASZMIC b = aszmic"
    "seg_fields (sys_get_be16 [b, c]) d = (ucast (SEQ_AUTH iv first AND 0x1fff), of_nat k, of_nat ((length sdu - 1) div 12))"
    "(of_nat k :: u8) \<le> of_nat ((length sdu - 1) div 12)" "unat (of_nat ((length sdu - 1) div 12) :: u8) = (length sdu - 1) div 12"
    "SEQ_AUTH iv first = SEQ_AUTH (BT_MESH_NET_IVI_RX s rx) ((rx_seq rx AND 0xffffe000) OR ucast (ucast (SEQ_AUTH iv first AND 0x1fff) :: u16))"
proof -
  let ?n = "(length sdu - 1) div 12" and ?z = "ucast (SEQ_AUTH iv first AND 0x1fff) :: u16"
  have m: "0 < length sdu" "length sdu \<le> 384" "aszmic = 0 \<or> aszmic = 1" "unat first < 2 ^ 24"
    using assms(2) by (simp_all add: message_ok_def CONFIG_BT_MESH_RX_SDU_MAX_def)
  have i: "nb_ok buf" "k \<le> ?n" "nb_data buf = seg_header hdr aszmic ?z (of_nat k) (of_nat ?n) @ seg_chunk 12 sdu k"
    "rx = net_rx\<lparr>rx_seq := rx_seq rx\<rparr>" "unat (rx_seq rx) < 2 ^ 24" "unat (rx_seq rx) div 8192 = unat first div 8192"
    using assms(1) by (simp_all add: is_seg_def)
  have n32: "?n < 32" using m(2) by simp
  have un: "unat (of_nat ?n :: u8) = ?n" "unat (of_nat k :: u8) = k" using n32 i(2) by (simp_all add: unat_of_nat)
  obtain b c d where h: "[hdr, b, c, d] = seg_header hdr aszmic ?z (of_nat k) (of_nat ?n)" by (simp add: seg_header_def)
  have small: "unat (of_nat k :: u8) < 2 ^ 5" "unat (of_nat ?n :: u8) < 2 ^ 5" using un n32 i(2) by simp_all
  note f = seg_header_fields [OF seq_zero_small small m(3) h]
  have "BT_MESH_NET_IVI_RX s rx = iv" by (subst i(4)) (simp add: assms(3) BT_MESH_NET_IVI_RX_def)
  then have auth: "SEQ_AUTH iv first = SEQ_AUTH (BT_MESH_NET_IVI_RX s rx) ((rx_seq rx AND 0xffffe000) OR ucast ?z)"
    using seq_auth_iff [OF m(4) i(5), of iv] block_eq [THEN iffD2, OF i(6)] by simp
  have le: "(of_nat k :: u8) \<le> of_nat ?n" using un i(2) by (simp only: word_le_nat_alt)
  have "0 < length (seg_chunk 12 sdu k)" by (rule chunk_bounds(3) [OF _ refl m(1) i(2)]) simp
  then have ne: "seg_chunk 12 sdu k \<noteq> []" by simp
  show thesis by (rule that [OF i(1) _ ne f(2,3) le un(1) auth]) (simp only: h i(3))
qed

lemma session_cong: "session i (net_rx\<lparr>rx_seq := q\<rparr>) hdr auth sdu K s = session i net_rx hdr auth sdu K s"
  by (simp add: session_def rx_matches_def)

lemma seg_step:
  assumes ses: "session i net_rx hdr (SEQ_AUTH iv first) sdu K s" and ok: "message_ok aszmic first sdu net_rx"
    and iv: "iv = BT_MESH_NET_IVI_RX s net_rx" and seg: "is_seg hdr aszmic iv first sdu net_rx (k, buf, rx)"
    and k: "k \<notin> K" "K \<subseteq> {0..(length sdu - 1) div 12}"
  obtains s' buf' where "session i net_rx hdr (SEQ_AUTH iv first) sdu (insert k K) s'" "ms_net s' = ms_net s" "rx_core s' = rx_core s"
    "trans_seg h buf rx s =
      (let (err, rx, s) = (if insert k K = {0..(length sdu - 1) div 12}
          then seg_complete h i hdr aszmic (SEQ_AUTH iv first) (of_nat k) rx s' else (None, rx, s')) in (err, rx, buf', s))"
proof -
  let ?n = "(length sdu - 1) div 12" and ?auth = "SEQ_AUTH iv first"
  have rx: "rx = net_rx\<lparr>rx_seq := rx_seq rx\<rparr>" and kn: "k \<le> ?n" using seg by (simp_all add: is_seg_def)
  have ses': "session i rx hdr ?auth sdu K s" by (subst rx) (simp add: session_cong ses)
  obtain b c d where p: "nb_ok buf" "nb_data buf = [hdr, b, c, d] @ seg_chunk 12 sdu k" "seg_chunk 12 sdu k \<noteq> []" "ASZMIC b = aszmic"
    "seg_fields (sys_get_be16 [b, c]) d = (ucast (?auth AND 0x1fff), of_nat k, of_nat ?n)"
    "(of_nat k :: u8) \<le> of_nat ?n" "unat (of_nat ?n :: u8) = ?n"
    "?auth = SEQ_AUTH (BT_MESH_NET_IVI_RX s rx) ((rx_seq rx AND 0xffffe000) OR ucast (ucast (?auth AND 0x1fff) :: u16))"
    by (rule is_seg_parse [OF seg ok iv])
  have find: "seg_rx_find rx ?auth s = (Some i, s)" using ses' by (intro seg_rx_find_hit) (simp_all add: session_def)
  have "\<not> rx_ctl rx" using ok by (subst rx) (simp add: message_ok_def)
  then have valid: "seg_rx_is_valid (get_rx s i) rx hdr ?n" "sr_in_use (get_rx s i)"
    using ses' by (simp_all add: session_def seg_rx_is_valid_def)
  obtain buf' where b': "nb_ok buf'" "nb_data buf' = seg_chunk 12 sdu k"
    and t: "trans_seg h buf rx s = (let (err, rx, s) = seg_found h i hdr aszmic ?auth (of_nat k) ?n buf' rx s in (err, rx, buf', s))"
    by (rule trans_seg_parse [OF p(1,2,3,5,6,8), of h]) (use find valid p(4,7) in simp)
  obtain s' where s': "session i net_rx hdr ?auth sdu (insert k K) s'" "ms_net s' = ms_net s" "rx_core s' = rx_core s"
    and f: "seg_found h i hdr aszmic ?auth (of_nat k) ?n buf' rx s =
       (if insert k K = {0..?n} then seg_complete h i hdr aszmic ?auth (of_nat k) rx s' else (None, rx, s'))"
    by (rule session_store [OF ses ok kn k b'])
  show thesis by (rule that [OF s']) (simp only: t f)
qed


text \<open>A node that can take a new message: no context belongs to it, one is free, and the buffers are intact.\<close>

definition rx_fresh :: "bt_mesh_net_rx \<Rightarrow> u64 \<Rightarrow> mesh \<Rightarrow> bool" where
  "rx_fresh net_rx auth s \<longleftrightarrow>
     (\<forall>c\<in>set (ms_seg_rx s). \<not> rx_matches net_rx auth c \<and>
        length (nb_buf (sr_buf c)) = CONFIG_BT_MESH_RX_SDU_MAX \<and> \<not> nb_fault (sr_buf c)) \<and>
     (\<exists>c\<in>set (ms_seg_rx s). \<not> sr_in_use c)"

lemma alloc_session:
  assumes fresh: "rx_fresh net_rx auth s" and ok: "message_ok aszmic first sdu net_rx"
  obtains i s0 where "seg_rx_alloc net_rx hdr auth ((length sdu - 1) div 12) s = (Some i, s0)"
    "session i net_rx hdr auth sdu {} (upd_rx i (\<lambda>c. c\<lparr>sr_obo := rx_friend_match net_rx\<rparr>) s0)"
    "ms_net (upd_rx i (\<lambda>c. c\<lparr>sr_obo := rx_friend_match net_rx\<rparr>) s0) = ms_net s"
    "rx_core (upd_rx i (\<lambda>c. c\<lparr>sr_obo := rx_friend_match net_rx\<rparr>) s0) = rx_core s"
proof -
  obtain i where i: "find_index (\<lambda>c. \<not> sr_in_use c) (ms_seg_rx s) = Some i"
    using fresh by (cases "find_index (\<lambda>c. \<not> sr_in_use c) (ms_seg_rx s)") (auto simp: rx_fresh_def find_index_None)
  then have il: "i < length (ms_seg_rx s)" by (auto dest: find_index_Some)
  let ?n = "(length sdu - 1) div 12"
  let ?f = "\<lambda>rx. rx\<lparr>sr_in_use := True, sr_buf := net_buf_simple_init (sr_buf rx) 0, sr_sub := rx_sub net_rx,
             sr_ctl := rx_ctl net_rx, sr_seq_auth := auth, sr_seg_n := ?n, sr_hdr := hdr,
             sr_ttl := cx_send_ttl (rx_ctx net_rx), sr_src := cx_addr (rx_ctx net_rx), sr_dst := rx_dst net_rx, sr_block := 0\<rparr>"
  let ?s = "upd_rx i (\<lambda>c. c\<lparr>sr_obo := rx_friend_match net_rx\<rparr>) (upd_rx i ?f s)"
  have a: "seg_rx_alloc net_rx hdr auth ?n s = (Some i, upd_rx i ?f s)" by (simp add: seg_rx_alloc_def i)
  have g: "get_rx ?s i = (?f (get_rx s i))\<lparr>sr_obo := rx_friend_match net_rx\<rparr>" using il by (simp add: nth_upd_at)
  have others: "get_rx ?s j = get_rx s j" if "j < i" for j using that il by (simp add: get_rx_def upd_rx_def nth_upd_at)
  have j: "\<not> rx_matches net_rx auth (get_rx s j)" if "j < i" for j using fresh that il by (simp add: rx_fresh_def get_rx_def)
  have "length (nb_buf (sr_buf (get_rx s i))) = CONFIG_BT_MESH_RX_SDU_MAX" "\<not> nb_fault (sr_buf (get_rx s i))"
    using fresh il by (auto simp: rx_fresh_def get_rx_def)
  then have ses: "session i net_rx hdr auth sdu {} ?s"
    using il j others ok unfolding session_def g by (simp add: rx_holds_def net_buf_simple_init_def message_ok_def)
  show thesis by (rule that [OF a ses]) (simp_all add: upd_rx_def rx_core_def core_def upd_net_def)
qed

text \<open>The state of the receiver when the segments in \<open>K\<close> have arrived.\<close>

definition progress :: "bt_mesh_net_rx \<Rightarrow> u8 \<Rightarrow> u64 \<Rightarrow> bytes \<Rightarrow> nat set \<Rightarrow> mesh \<Rightarrow> bool" where
  "progress net_rx hdr auth sdu K s \<longleftrightarrow> (if K = {} then rx_fresh net_rx auth s else \<exists>i. session i net_rx hdr auth sdu K s)"

lemma rx_fresh_cong: "rx_fresh (net_rx\<lparr>rx_seq := q\<rparr>) auth s = rx_fresh net_rx auth s"
  by (simp add: rx_fresh_def rx_matches_def)

lemma seg_first:
  assumes fresh: "rx_fresh net_rx (SEQ_AUTH iv first) s" and ok: "message_ok aszmic first sdu net_rx"
    and iv: "iv = BT_MESH_NET_IVI_RX s net_rx" and seg: "is_seg hdr aszmic iv first sdu net_rx (k, buf, rx)"
  obtains i s' buf' where "session i net_rx hdr (SEQ_AUTH iv first) sdu {k} s'" "ms_net s' = ms_net s" "rx_core s' = rx_core s"
    "trans_seg h buf rx s =
      (let (err, rx, s) = (if {k} = {0..(length sdu - 1) div 12}
          then seg_complete h i hdr aszmic (SEQ_AUTH iv first) (of_nat k) rx s' else (None, rx, s')) in (err, rx, buf', s))"
proof -
  let ?n = "(length sdu - 1) div 12" and ?auth = "SEQ_AUTH iv first" and ?o = "\<lambda>i. upd_rx i (\<lambda>c. c\<lparr>sr_obo := rx_friend_match rx\<rparr>)"
  have rx: "rx = net_rx\<lparr>rx_seq := rx_seq rx\<rparr>" and kn: "k \<le> ?n" using seg by (simp_all add: is_seg_def)
  have fresh': "rx_fresh rx ?auth s" by (subst rx) (simp add: rx_fresh_cong fresh)
  have ok': "message_ok aszmic first sdu rx" using ok by (subst rx) (simp add: message_ok_def)
  obtain b c d where p: "nb_ok buf" "nb_data buf = [hdr, b, c, d] @ seg_chunk 12 sdu k" "seg_chunk 12 sdu k \<noteq> []" "ASZMIC b = aszmic"
    "seg_fields (sys_get_be16 [b, c]) d = (ucast (?auth AND 0x1fff), of_nat k, of_nat ?n)"
    "(of_nat k :: u8) \<le> of_nat ?n" "unat (of_nat ?n :: u8) = ?n"
    "?auth = SEQ_AUTH (BT_MESH_NET_IVI_RX s rx) ((rx_seq rx AND 0xffffe000) OR ucast (ucast (?auth AND 0x1fff) :: u16))"
    by (rule is_seg_parse [OF seg ok iv])
  have find: "seg_rx_find rx ?auth s = (None, s)" using fresh' by (intro seg_rx_find_fresh) (simp add: rx_fresh_def)
  have len: "sdu_len_is_ok (rx_ctl rx) ?n"
    using ok' by (auto simp: message_ok_def sdu_len_is_ok_def seg_len_def CONFIG_BT_MESH_RX_SDU_MAX_def)
  obtain i s0 where a: "seg_rx_alloc rx hdr ?auth ?n s = (Some i, s0)"
    and s1: "session i rx hdr ?auth sdu {} (?o i s0)" "ms_net (?o i s0) = ms_net s" "rx_core (?o i s0) = rx_core s"
    by (rule alloc_session [OF fresh' ok'])
  have ses: "session i net_rx hdr ?auth sdu {} (?o i s0)" using s1(1) by (subst (asm) rx) (simp add: session_cong)
  obtain buf' where b': "nb_ok buf'" "nb_data buf' = seg_chunk 12 sdu k"
    and t: "trans_seg h buf rx s = (let (err, rx, s) = seg_found h i hdr aszmic ?auth (of_nat k) ?n buf' rx (?o i s0) in (err, rx, buf', s))"
    by (rule trans_seg_parse [OF p(1,2,3,5,6,8), of h]) (use find len a p(4,7) in simp)
  obtain s' where s': "session i net_rx hdr ?auth sdu {k} s'" "ms_net s' = ms_net (?o i s0)" "rx_core s' = rx_core (?o i s0)"
    and f: "seg_found h i hdr aszmic ?auth (of_nat k) ?n buf' rx (?o i s0) =
       (if {k} = {0..?n} then seg_complete h i hdr aszmic ?auth (of_nat k) rx s' else (None, rx, s'))"
    by (rule session_store [OF ses ok kn _ _ b']) auto
  show thesis by (rule that [OF s'(1) s'(2) [unfolded s1(2)] s'(3) [unfolded s1(3)]]) (simp only: t f)
qed


lemma progress_step:
  assumes pr: "progress net_rx hdr (SEQ_AUTH iv first) sdu K s" and ok: "message_ok aszmic first sdu net_rx"
    and iv: "iv = BT_MESH_NET_IVI_RX s net_rx" and seg: "is_seg hdr aszmic iv first sdu net_rx (k, buf, rx)"
    and k: "k \<notin> K" "K \<subseteq> {0..(length sdu - 1) div 12}"
  obtains i s' buf' where "session i net_rx hdr (SEQ_AUTH iv first) sdu (insert k K) s'" "ms_net s' = ms_net s" "rx_core s' = rx_core s"
    "trans_seg h buf rx s =
      (let (err, rx, s) = (if insert k K = {0..(length sdu - 1) div 12}
          then seg_complete h i hdr aszmic (SEQ_AUTH iv first) (of_nat k) rx s' else (None, rx, s')) in (err, rx, buf', s))"
proof (cases "K = {}")
  case True
  then have "rx_fresh net_rx (SEQ_AUTH iv first) s" using pr by (simp add: progress_def)
  then show thesis by (rule seg_first [OF _ ok iv seg, of h]) (rule that [unfolded True])
next
  case False
  then obtain i where "session i net_rx hdr (SEQ_AUTH iv first) sdu K s" using pr by (auto simp: progress_def)
  then show thesis by (rule seg_step [OF _ ok iv seg k, of _ h]) (rule that)
qed

text \<open>The segments of a list one after the other, with the codes \<^verbatim>\<open>trans_seg\<close> returns.\<close>

fun trans_segs :: "op_handler \<Rightarrow> (nat \<times> net_buf_simple \<times> bt_mesh_net_rx) list \<Rightarrow> mesh \<Rightarrow> errno option list \<times> mesh" where
  "trans_segs h [] s = ([], s)"
| "trans_segs h ((k, buf, rx) # segs) s =
     (let (err, rx, buf, s) = trans_seg h buf rx s; (errs, s) = trans_segs h segs s in (err # errs, s))"

lemma segs_run:
  assumes "progress net_rx hdr (SEQ_AUTH iv first) sdu K s" "message_ok aszmic first sdu net_rx" "iv = BT_MESH_NET_IVI_RX s net_rx"
    "\<forall>seg\<in>set segs. is_seg hdr aszmic iv first sdu net_rx seg" "distinct (map fst segs)" "fst ` set segs \<inter> K = {}"
    "K \<union> fst ` set segs \<subset> {0..(length sdu - 1) div 12}"
  obtains s' where "trans_segs h segs s = (replicate (length segs) None, s')" "ms_net s' = ms_net s" "rx_core s' = rx_core s"
    "progress net_rx hdr (SEQ_AUTH iv first) sdu (K \<union> fst ` set segs) s'"
  using assms
proof (induction segs arbitrary: K s thesis)
  case Nil
  then show ?case by simp
next
  case (Cons seg segs)
  obtain k buf rx where seg: "seg = (k, buf, rx)" by (metis prod_cases3)
  let ?n = "(length sdu - 1) div 12"
  have k: "k \<notin> K" "K \<subseteq> {0..?n}" "insert k K \<noteq> {0..?n}" using Cons.prems(6-8) seg by auto
  have is_k: "is_seg hdr aszmic iv first sdu net_rx (k, buf, rx)" using Cons.prems(5) seg by simp
  obtain i s1 buf' where s1: "session i net_rx hdr (SEQ_AUTH iv first) sdu (insert k K) s1" "ms_net s1 = ms_net s" "rx_core s1 = rx_core s"
    and t: "trans_seg h buf rx s = (let (err, rx, s) = (if insert k K = {0..?n}
          then seg_complete h i hdr aszmic (SEQ_AUTH iv first) (of_nat k) rx s1 else (None, rx, s1)) in (err, rx, buf', s))"
    by (rule progress_step [OF Cons.prems(2,3,4) is_k k(1,2)])
  have pr: "progress net_rx hdr (SEQ_AUTH iv first) sdu (insert k K) s1" using s1(1) by (auto simp: progress_def)
  have iv: "iv = BT_MESH_NET_IVI_RX s1 net_rx" using Cons.prems(4) s1(2) by (simp add: BT_MESH_NET_IVI_RX_def)
  obtain s' where s': "trans_segs h segs s1 = (replicate (length segs) None, s')" "ms_net s' = ms_net s1" "rx_core s' = rx_core s1"
    "progress net_rx hdr (SEQ_AUTH iv first) sdu (insert k K \<union> fst ` set segs) s'"
    by (rule Cons.IH [OF _ pr Cons.prems(3) iv]) (use Cons.prems(5-8) seg in auto)
  show ?case
  proof (rule Cons.prems(1) [of s'])
    show "trans_segs h (seg # segs) s = (replicate (length (seg # segs)) None, s')" using k(3) s'(1) by (simp add: seg t)
  qed (use s1 s' seg in simp_all)
qed

lemma seq_auth_low:
  assumes "unat first < 2 ^ 24"
  shows "ucast (SEQ_AUTH iv first AND 0xffffff) = first"
  by (rule bit_word_eqI) (auto simp: SEQ_AUTH_def masks bit_simps dest: bit_lt [OF assms])

lemma complete_step:
  assumes ses: "session i net_rx hdr (SEQ_AUTH iv first) sdu {0..(length sdu - 1) div 12} s" and ok: "message_ok aszmic first sdu net_rx"
    and rx: "rx = net_rx\<lparr>rx_seq := rx_seq rx\<rparr>" and new: "\<not> (rx_local_match rx \<and> fst (is_replay rx s))"
  obtains B s' where "nb_ok B" "nb_data B = sdu" "rx_core s' = rx_core s"
    "seg_complete h i hdr aszmic auth' seg_o rx s =
       (let (err, rx', B', t) = sdu_recv h (rx\<lparr>rx_seq := first\<rparr>) hdr aszmic B s'
        in (err, rx', seg_rx_reset i (upd_rx i (\<lambda>c. c\<lparr>sr_buf := B'\<rparr>) t)))"
proof -
  obtain s1 where s1: "(if rx_local_match rx then is_replay rx s else (False, s)) = (False, s1)"
  proof (cases "rx_local_match rx")
    case True
    with new have "is_replay rx s = (False, snd (is_replay rx s))" by (simp add: prod_eq_iff)
    with True show thesis by (intro that) simp
  next
    case False
    then show thesis by (intro that) simp
  qed
  have r1: "rx_core s1 = rx_core s" using s1 by (auto dest: rx_core_replay split: if_splits)
  have m1: "get_rx s1 i = get_rx s i" using s1 by (auto simp: is_replay_def upd_net_def get_rx_def split: if_splits prod.splits)
  have m: "0 < length sdu" "length sdu \<le> CONFIG_BT_MESH_RX_SDU_MAX" "unat first < 2 ^ 24" "\<not> rx_ctl rx" "\<not> rx_friend_match rx"
    using ok by (simp_all add: message_ok_def, (subst rx, simp)+)
  have h: "rx_holds 12 sdu ((length sdu - 1) div 12) {0..(length sdu - 1) div 12} (get_rx s i)" "sr_seq_auth (get_rx s i) = SEQ_AUTH iv first"
    using ses by (simp_all add: session_def)
  note B = rx_holds_all [OF h(1) _ refl m(1,2)]
  define s2 where "s2 = k_delayed_work_cancel (W_Ack i) s1"
  define s3 where "s3 = snd (send_ack (rx_sub rx) (rx_dst rx) (cx_addr (rx_ctx rx)) (cx_send_ttl (rx_ctx rx)) auth'
                  (sr_block (get_rx s2 i)) (sr_obo (get_rx s2 i)) s2)"
  have c3: "core s3 = core s1" by (simp add: s3_def s2_def frame)
  have "get_rx s3 i = get_rx s i" using core_sel(1) [OF c3] m1 by (simp add: get_rx_def)
  then have "seg_complete h i hdr aszmic auth' seg_o rx s =
       (let (err, rx', B', t) = sdu_recv h (rx\<lparr>rx_seq := first\<rparr>) hdr aszmic (sr_buf (get_rx s i)) s3
        in (err, rx', seg_rx_reset i (upd_rx i (\<lambda>c. c\<lparr>sr_buf := B'\<rparr>) t)))"
    using m(4,5) unfolding seg_complete_def s1 prod.case Let_def m1 h(2) seq_auth_low [OF m(3)]
    by (simp add: s2_def [symmetric] s3_def [symmetric] del: get_rx_work split: prod.splits)
  with rx_core_cong [OF c3] r1 B show thesis by (intro that) simp_all
qed

text \<open>
  C3. Reassembly. Whatever the order in which the segments of a message arrive, all but the last
  one are stored and accepted, and with the last one the transport layer decrypts exactly the
  concatenated message, under the sequence number of its first segment. The conditions: the node
  has a free context and none for this message, the segments carry sequence numbers of one block
  of 8192, and the last one is not a replay.
\<close>

theorem reassembly_any_order:
  assumes "rx_fresh net_rx (SEQ_AUTH iv first) s" "message_ok aszmic first sdu net_rx" "iv = BT_MESH_NET_IVI_RX s net_rx"
    and "\<forall>seg\<in>set (segs @ [(k, buf, rx)]). is_seg hdr aszmic iv first sdu net_rx seg"
    and "distinct (map fst (segs @ [(k, buf, rx)]))" "fst ` set (segs @ [(k, buf, rx)]) = {0..(length sdu - 1) div 12}"
    and "\<not> (rx_local_match rx \<and> fst (is_replay rx s))"
  shows "\<exists>i B buf' s1 s2. trans_segs h segs s = (replicate (length segs) None, s1) \<and> nb_ok B \<and> nb_data B = sdu \<and> rx_core s2 = rx_core s \<and>
    trans_seg h buf rx s1 =
      (let (err, rx', B', t) = sdu_recv h (rx\<lparr>rx_seq := first\<rparr>) hdr aszmic B s2
       in (err, rx', buf', seg_rx_reset i (upd_rx i (\<lambda>c. c\<lparr>sr_buf := B'\<rparr>) t)))"
proof -
  let ?n = "(length sdu - 1) div 12" and ?K = "fst ` set segs"
  have pr: "progress net_rx hdr (SEQ_AUTH iv first) sdu {} s" using assms(1) by (simp add: progress_def)
  have K: "k \<notin> ?K" "insert k ?K = {0..?n}" using assms(5,6) by auto
  have is_k: "is_seg hdr aszmic iv first sdu net_rx (k, buf, rx)" using assms(4) by simp
  obtain s1 where s1: "trans_segs h segs s = (replicate (length segs) None, s1)" "ms_net s1 = ms_net s" "rx_core s1 = rx_core s"
    "progress net_rx hdr (SEQ_AUTH iv first) sdu ?K s1"
    by (rule segs_run [OF pr assms(2,3), of segs]) (use assms(4,5) K in auto)
  have iv: "iv = BT_MESH_NET_IVI_RX s1 net_rx" using assms(3) s1(2) by (simp add: BT_MESH_NET_IVI_RX_def)
  obtain i s2 buf' where s2: "session i net_rx hdr (SEQ_AUTH iv first) sdu {0..?n} s2" "ms_net s2 = ms_net s1" "rx_core s2 = rx_core s1"
    and t: "trans_seg h buf rx s1 = (let (err, rx, s) = seg_complete h i hdr aszmic (SEQ_AUTH iv first) (of_nat k) rx s2 in (err, rx, buf', s))"
    by (rule progress_step [OF s1(4) assms(2) iv is_k K(1), of h]) (use K(2) in auto)
  have new: "\<not> (rx_local_match rx \<and> fst (is_replay rx s2))"
    using assms(7) s1(2) s2(2) by (simp add: is_replay_def split: prod.splits)
  have rx: "rx = net_rx\<lparr>rx_seq := rx_seq rx\<rparr>" using is_k by (simp add: is_seg_def)
  obtain B s3 where c: "nb_ok B" "nb_data B = sdu" "rx_core s3 = rx_core s2"
    "seg_complete h i hdr aszmic (SEQ_AUTH iv first) (of_nat k) rx s2 =
       (let (err, rx', B', t) = sdu_recv h (rx\<lparr>rx_seq := first\<rparr>) hdr aszmic B s3
        in (err, rx', seg_rx_reset i (upd_rx i (\<lambda>c. c\<lparr>sr_buf := B'\<rparr>) t)))"
    by (rule complete_step [OF s2(1) assms(2) rx new])
  have "trans_seg h buf rx s1 = (let (err, rx', B', t) = sdu_recv h (rx\<lparr>rx_seq := first\<rparr>) hdr aszmic B s3
       in (err, rx', buf', seg_rx_reset i (upd_rx i (\<lambda>c. c\<lparr>sr_buf := B'\<rparr>) t)))"
    unfolding t c(4) by (simp split: prod.splits)
  moreover have "rx_core s3 = rx_core s" using c(3) s2(3) s1(3) by simp
  ultimately show ?thesis using s1(1) c(1,2) by blast
qed


definition sdu_demo :: bytes where "sdu_demo = [1, 2, 3, 4, 5, 6, 7, 8, 9, 10, 11, 12, 13, 14]"

definition seg_demo :: "nat \<Rightarrow> nat \<times> net_buf_simple \<times> bt_mesh_net_rx" where
  "seg_demo k = (k, net_buf_simple_add_mem (NET_BUF_SIMPLE 20)
     (seg_header 0x80 0 (ucast (SEQ_AUTH (BT_MESH_NET_IVI_RX net_demo rx_demo) 7 AND 0x1fff)) (of_nat k) 1 @ seg_chunk 12 sdu_demo k),
     rx_demo\<lparr>rx_seq := 7 + of_nat k\<rparr>)"

lemma seg_demo_ok:
  assumes "k \<le> 1"
  shows "is_seg 0x80 0 (BT_MESH_NET_IVI_RX net_demo rx_demo) 7 sdu_demo rx_demo (seg_demo k)"
proof -
  let ?x = "seg_header 0x80 0 (ucast (SEQ_AUTH (BT_MESH_NET_IVI_RX net_demo rx_demo) 7 AND 0x1fff)) (of_nat k) 1 @ seg_chunk 12 sdu_demo k"
  have i: "nb_ok (NET_BUF_SIMPLE 20)" "nb_data (NET_BUF_SIMPLE 20) = []" "net_buf_simple_tailroom (NET_BUF_SIMPLE 20) = 20"
    using NET_BUF_SIMPLE_ok [of 20] by (simp_all add: net_buf_simple_tailroom_def net_buf_simple_headroom_def)
  have "length ?x \<le> 20" by (simp add: seg_header_def seg_chunk_def)
  with add_mem_data [OF i(1), of ?x] i have b: "nb_ok (net_buf_simple_add_mem (NET_BUF_SIMPLE 20) ?x)" "nb_data (net_buf_simple_add_mem (NET_BUF_SIMPLE 20) ?x) = ?x"
    by simp_all
  have "k = 0 \<or> k = 1" using assms by auto
  then have "unat (7 + of_nat k :: u32) = 7 + k" by auto
  then show ?thesis using b assms by (simp add: is_seg_def seg_demo_def sdu_demo_def)
qed

theorem reassembly_any_order_witness:
  "\<exists>i B buf' s1 s2. trans_segs recorder [seg_demo 1] net_demo = ([None], s1) \<and> nb_ok B \<and> nb_data B = sdu_demo \<and> rx_core s2 = rx_core net_demo \<and>
    trans_seg recorder (fst (snd (seg_demo 0))) (snd (snd (seg_demo 0))) s1 =
      (let (err, rx', B', t) = sdu_recv recorder ((snd (snd (seg_demo 0)))\<lparr>rx_seq := 7\<rparr>) 0x80 0 B s2
       in (err, rx', buf', seg_rx_reset i (upd_rx i (\<lambda>c. c\<lparr>sr_buf := B'\<rparr>) t)))"
proof -
  let ?x = "(0, fst (snd (seg_demo 0)), snd (snd (seg_demo 0)))"
  have e: "?x = seg_demo 0" by (simp add: seg_demo_def)
  have f: "rx_fresh rx_demo a net_demo" for a
  proof -
    have c: "set (ms_seg_rx net_demo) = {seg_rx0}" by (simp add: net_demo_def mesh0_def)
    have b: "length (nb_buf (NET_BUF_SIMPLE n)) = n" "\<not> nb_fault (NET_BUF_SIMPLE n)" for n by (simp_all add: NET_BUF_SIMPLE_def)
    show ?thesis unfolding rx_fresh_def c by (simp add: seg_rx0_def b rx_matches_def rx_demo_def ctx_demo_def)
  qed
  have m: "message_ok 0 7 sdu_demo rx_demo"
    by (simp add: message_ok_def sdu_demo_def rx_demo_def CONFIG_BT_MESH_RX_SDU_MAX_def)
  have s: "\<forall>seg\<in>set ([seg_demo 1] @ [?x]). is_seg 0x80 0 (BT_MESH_NET_IVI_RX net_demo rx_demo) 7 sdu_demo rx_demo seg"
    unfolding e using seg_demo_ok by simp
  have d: "distinct (map fst ([seg_demo 1] @ [?x]))" "fst ` set ([seg_demo 1] @ [?x]) = {0..(length sdu_demo - 1) div 12}"
    by (auto simp: seg_demo_def sdu_demo_def)
  have r: "\<not> (rx_local_match (snd (snd (seg_demo 0))) \<and> fst (is_replay (snd (snd (seg_demo 0))) net_demo))"
    by (simp add: seg_demo_def rx_demo_def)
  have l: "replicate (length [seg_demo 1]) None = [None]" by simp
  show ?thesis by (rule reassembly_any_order [OF f m refl s d r, of recorder, unfolded l])
qed

end
