(* ===== verification/Genie_State.thy ===== *)
theory Genie_State
  imports Main_Mesh
begin

text \<open>
  The data of the Genie application layer, \<^verbatim>\<open>src/genie_app\<close>: element states, vendor messages, timers and the
  record \<open>genie\<close> that holds its static variables beside the state of the mesh stack. The build is that of the
  lamp \<^verbatim>\<open>light_ctl\<close>: the simple model (\<^verbatim>\<open>CONFIG_ALI_SIMPLE_MODLE\<close>) with transitions, with the OnOff, Lightness,
  CTL and vendor servers and with OTA.
\<close>

section \<open>Timers\<close>

text \<open>
  \<^verbatim>\<open>struct k_timer\<close> as \<^verbatim>\<open>aos_port.c\<close> uses it: a timer runs while its time-out is not zero. The handler of each timer is
  fixed by its initialisation.
\<close>

record k_timer =
  kt_timeout :: u32
  kt_start_ms :: u32

definition k_timer_init :: k_timer where
  "k_timer_init = \<lparr>kt_timeout = 0, kt_start_ms = 0\<rparr>"

definition k_timer_stop :: "k_timer \<Rightarrow> k_timer" where
  "k_timer_stop t = (if kt_timeout t = 0 then t else t\<lparr>kt_timeout := 0\<rparr>)"

definition k_timer_start :: "u32 \<Rightarrow> nat \<Rightarrow> k_timer \<Rightarrow> k_timer" where
  "k_timer_start timeout now t = (k_timer_stop t)\<lparr>kt_timeout := timeout, kt_start_ms := of_nat now\<rparr>"

definition k_timer_is_started :: "k_timer \<Rightarrow> bool" where
  "k_timer_is_started t = (kt_timeout t \<noteq> 0)"

section \<open>Element states\<close>

datatype E_VALUE_TYPE = T_CUR | T_TAR

text \<open>The arrays indexed by \<^verbatim>\<open>T_CUR\<close> and \<^verbatim>\<open>T_TAR\<close> are pairs of fields.\<close>

record model_state_t =
  onoff_cur :: u8
  onoff_tar :: u8
  actual_cur :: u16
  actual_tar :: u16
  temp_cur :: u16
  temp_tar :: u16
  st_delay :: u8
  st_trans :: u8
  trans_start_time :: u32
  trans_end_time :: u32
  delay_timer :: k_timer
  trans_timer :: k_timer

record model_powerup_t =
  last_onoff :: u8
  last_actual :: u16
  last_temp :: u16

record elem_state_t =
  elem_index :: u8
  el_state :: model_state_t
  el_powerup :: model_powerup_t

datatype E_MESH_ERROR_TYPE = MESH_SUCCESS | MESH_TID_REPEAT | MESH_ANALYZE_SIZE_ERROR | MESH_ANALYZE_ARGS_ERROR
  | MESH_SET_TRANSTION_ERROR

definition MESH_TRNSATION_CYCLE :: u32 where "MESH_TRNSATION_CYCLE = 10"
definition CTL_TEMP_MIN :: u16 where "CTL_TEMP_MIN = 800"
definition CTL_TEMP_MAX :: u16 where "CTL_TEMP_MAX = 20000"
definition CTL_TEMP_DEFAULT :: u16 where "CTL_TEMP_DEFAULT = CTL_TEMP_MAX"
definition LIGHTNESS_DEFAULT :: u16 where "LIGHTNESS_DEFAULT = 0xE666"
definition GEN_ONOFF_DEFAULT :: u8 where "GEN_ONOFF_DEFAULT = 1"
definition INDICATION_FLAG_POWERON :: u8 where "INDICATION_FLAG_POWERON = 0x80"
definition INDICATION_FLAG_ONOFF :: u8 where "INDICATION_FLAG_ONOFF = 0x01"
definition INDICATION_FLAG_LIGHTNESS :: u8 where "INDICATION_FLAG_LIGHTNESS = 0x02"
definition INDICATION_FLAG_CTL :: u8 where "INDICATION_FLAG_CTL = 0x04"
definition INDICATION_FLAG_VERSION :: u8 where "INDICATION_FLAG_VERSION = 0x08"

section \<open>Vendor messages\<close>

text \<open>\<^verbatim>\<open>retry\<close> and \<^verbatim>\<open>left_retry\<close> are signed bytes: integers that wrap at 128.\<close>

definition s8_wrap :: "int \<Rightarrow> int" where
  "s8_wrap i = (i + 128) mod 256 - 128"

record vnd_model_msg =
  vm_elem :: nat
  vm_retry :: int
  vm_retry_period :: u16
  vm_opid :: u8
  vm_tid :: u8
  vm_data :: bytes

record vnd_model_msg_n =
  vn_left_retry :: int
  vn_timeout :: int
  vn_msg :: vnd_model_msg

section \<open>Events\<close>

datatype E_GENIE_EVENT = EVT_SW_RESET | EVT_HW_RESET_START | EVT_HW_RESET_DONE | EVT_SDK_MESH_INIT | EVT_SDK_MESH_PBADV_START
  | EVT_SDK_MESH_PBADV_TIMEOUT | EVT_SDK_MESH_SILENT_START | EVT_SDK_MESH_PROV_START | EVT_SDK_MESH_PROV_DATA
  | EVT_SDK_MESH_PROV_TIMEOUT | EVT_SDK_MESH_PROV_SUCCESS | EVT_SDK_MESH_PROV_FAIL | EVT_SDK_APPKEY_ADD | EVT_SDK_APPKEY_DEL
  | EVT_SDK_APPKEY_UPDATE | EVT_SDK_NETKEY_ADD | EVT_SDK_NETKEY_DEL | EVT_SDK_NETKEY_UPDATE | EVT_SDK_SUB_ADD | EVT_SDK_SUB_DEL
  | EVT_SDK_HB_SET | EVT_SDK_SEQ_UPDATE | EVT_SDK_STATE_SYNC | EVT_SDK_ANALYZE_MSG | EVT_SDK_AIS_DISCON | EVT_SDK_DELAY_START
  | EVT_SDK_DELAY_END | EVT_SDK_TRANS_START | EVT_SDK_TRANS_CYCLE | EVT_SDK_TRANS_END | EVT_SDK_ACTION_DONE
  | EVT_SDK_MESH_PWRON_INDC | EVT_SDK_INDICATE | EVT_SDK_VENDOR_MSG | EVT_TIME_OUT

text \<open>The argument of an event: nothing, an element state, a status, an address, a heartbeat parameter set, a vendor message.\<close>

datatype evt_arg = A_None | A_Elem nat | A_Status u8 | A_Addr u16 | A_Hb mesh_hb_para_t | A_Vnd vnd_model_msg

section \<open>The state of the application layer\<close>

record tid_entry =
  tq_tid :: u8
  tq_addr :: u16
  tq_time :: u32

text \<open>
  \<open>ga_user_data\<close> is the \<^verbatim>\<open>user_data\<close> pointer of each model, an index into \<^verbatim>\<open>g_elem_state\<close>. \<open>ga_fault\<close> records a division by
  zero. The random bytes that \<^verbatim>\<open>bt_rand\<close> delivers and the success of each \<^verbatim>\<open>k_malloc\<close> are given as sequences
  with the position of the next one. Calls that leave the program are appended to \<open>ga_calls\<close>.
\<close>

datatype genie_call = Call_Ota_Clear_Indicat | Call_Reboot | Call_Ais_Service_Register | Call_Adv_Stop | Call_Led_Init | Call_Led_Set u8 u16 u16

record genie =
  ga_mesh :: mesh
  ga_elems :: "elem_state_t list"
  ga_user_data :: "model_ref \<Rightarrow> nat"
  ga_indication_flag :: u8
  ga_tid_queue :: "tid_entry list"
  ga_tid_index :: nat
  ga_gen_tid :: u8
  ga_version_tid :: u8
  ga_vnd_init :: bool
  ga_vnd_list :: "vnd_model_msg_n list"
  ga_vnd_timer :: k_timer
  ga_pbadv_timer :: k_timer
  ga_prov_timer :: k_timer
  ga_indc_timer :: k_timer
  ga_indc_elem :: "nat option"
  ga_provisioned :: bool
  ga_in_prov :: bool
  ga_rand :: "nat \<Rightarrow> u8"
  ga_rand_pos :: nat
  ga_alloc :: "nat \<Rightarrow> bool"
  ga_alloc_pos :: nat
  ga_fault :: bool
  ga_calls :: "genie_call list"

definition get_elem :: "genie \<Rightarrow> nat \<Rightarrow> elem_state_t" where
  "get_elem g e = ga_elems g ! e"

definition upd_elem :: "nat \<Rightarrow> (elem_state_t \<Rightarrow> elem_state_t) \<Rightarrow> genie \<Rightarrow> genie" where
  "upd_elem e f g = g\<lparr>ga_elems := upd_at e f (ga_elems g)\<rparr>"

definition upd_state :: "(model_state_t \<Rightarrow> model_state_t) \<Rightarrow> elem_state_t \<Rightarrow> elem_state_t" where
  "upd_state f e = e\<lparr>el_state := f (el_state e)\<rparr>"

definition upd_powerup :: "(model_powerup_t \<Rightarrow> model_powerup_t) \<Rightarrow> elem_state_t \<Rightarrow> elem_state_t" where
  "upd_powerup f e = e\<lparr>el_powerup := f (el_powerup e)\<rparr>"

definition on_mesh :: "(mesh \<Rightarrow> mesh) \<Rightarrow> genie \<Rightarrow> genie" where
  "on_mesh f g = g\<lparr>ga_mesh := f (ga_mesh g)\<rparr>"

definition ga_now :: "genie \<Rightarrow> nat" where
  "ga_now g = ms_now (ga_mesh g)"

text \<open>\<^verbatim>\<open>u32_t cur_time = k_uptime_get()\<close>.\<close>

definition ga_now32 :: "genie \<Rightarrow> u32" where
  "ga_now32 g = of_nat (ga_now g)"

definition set_flag :: "u8 \<Rightarrow> genie \<Rightarrow> genie" where
  "set_flag f g = g\<lparr>ga_indication_flag := ga_indication_flag g OR f\<rparr>"

definition clear_flag :: "u8 \<Rightarrow> genie \<Rightarrow> genie" where
  "clear_flag f g = g\<lparr>ga_indication_flag := ga_indication_flag g AND NOT f\<rparr>"

definition has_flag :: "u8 \<Rightarrow> u8 \<Rightarrow> bool" where
  "has_flag flags f \<longleftrightarrow> flags AND f \<noteq> 0"

definition log_call :: "genie_call \<Rightarrow> genie \<Rightarrow> genie" where
  "log_call c g = g\<lparr>ga_calls := ga_calls g @ [c]\<rparr>"

text \<open>The state before initialisation, with one element.\<close>

definition model_state0 :: model_state_t where
  "model_state0 = \<lparr>onoff_cur = 0, onoff_tar = 0, actual_cur = 0, actual_tar = 0, temp_cur = 0, temp_tar = 0, st_delay = 0, st_trans = 0,
     trans_start_time = 0, trans_end_time = 0, delay_timer = k_timer_init, trans_timer = k_timer_init\<rparr>"

definition elem_state0 :: elem_state_t where
  "elem_state0 = \<lparr>elem_index = 0, el_state = model_state0, el_powerup = \<lparr>last_onoff = 0, last_actual = 0, last_temp = 0\<rparr>\<rparr>"

definition genie0 :: genie where
  "genie0 = \<lparr>ga_mesh = mesh0, ga_elems = [elem_state0], ga_user_data = (\<lambda>_. 0), ga_indication_flag = 0,
     ga_tid_queue = replicate 5 \<lparr>tq_tid = 0, tq_addr = 0, tq_time = 0\<rparr>, ga_tid_index = 0, ga_gen_tid = 0xFF, ga_version_tid = 0xFF,
     ga_vnd_init = False, ga_vnd_list = [], ga_vnd_timer = k_timer_init, ga_pbadv_timer = k_timer_init, ga_prov_timer = k_timer_init,
     ga_indc_timer = k_timer_init, ga_indc_elem = None, ga_provisioned = False, ga_in_prov = False, ga_rand = (\<lambda>_. 0), ga_rand_pos = 0,
     ga_alloc = (\<lambda>_. True), ga_alloc_pos = 0, ga_fault = False, ga_calls = []\<rparr>"

lemma get_upd_elem [simp]: "e < length (ga_elems g) \<Longrightarrow> get_elem (upd_elem e f g) e = f (get_elem g e)"
  by (simp add: get_elem_def upd_elem_def nth_upd_at)

lemma length_upd_elem [simp]: "length (ga_elems (upd_elem e f g)) = length (ga_elems g)"
  by (simp add: upd_elem_def)

end
