(* ===== verification/Genie_Trans.thy ===== *)
theory Genie_Trans
  imports Genie_State
begin

text \<open>
  Transitions and transaction identifiers, from \<^verbatim>\<open>genie_app/bluetooth/mesh/genie_mesh.c\<close>: the encoding of transition
  times, the remaining time in a status message, one step of a transition (\<^verbatim>\<open>calc_cur_state\<close>) and the
  queue of recent transaction identifiers. The theorems: times survive the encoding, a transition ends
  after a bounded number of steps, a repeated transaction is recognised.
\<close>

section \<open>Transition times\<close>

definition TRANS_TIMES :: "nat list" where "TRANS_TIMES = [1, 10, 100, 6000]"

definition get_transition_byte :: "u32 \<Rightarrow> u8" where
  "get_transition_byte time =
     (let t = unat time div 100 in
      if t > TRANS_TIMES ! 3 * 62 then 0
      else if t > TRANS_TIMES ! 2 * 62 then of_nat (t div (TRANS_TIMES ! 3)) OR 0xC0
      else if t > TRANS_TIMES ! 1 * 62 then of_nat (t div (TRANS_TIMES ! 2)) OR 0x80
      else if t > TRANS_TIMES ! 0 * 62 then of_nat (t div (TRANS_TIMES ! 1)) OR 0x40
      else of_nat (t div (TRANS_TIMES ! 0)))"

definition get_transition_time :: "u8 \<Rightarrow> u32" where
  "get_transition_time byte =
     (if byte AND 0x3F = 0x3F then 0xFFFFFFFF
      else of_nat (unat (byte AND 0x3F) * TRANS_TIMES ! unat (drop_bit 6 byte) * 100))"

definition get_remain_byte :: "nat \<Rightarrow> model_state_t \<Rightarrow> bool \<Rightarrow> u8" where
  "get_remain_byte now st is_ack =
     (let cur_time = (of_nat now :: u32) in
      if \<not> is_ack \<and> trans_start_time st < cur_time then
        let cur_time = cur_time - trans_start_time st; l_trans = get_transition_time (st_trans st) in
        if l_trans = 0xFFFFFFFF then 0x3F
        else if l_trans > cur_time then get_transition_byte (l_trans - cur_time)
        else 0
      else st_trans st)"

text \<open>The start and the end of a transition that a Set message begins.\<close>

definition set_trans :: "nat \<Rightarrow> u8 \<Rightarrow> u8 \<Rightarrow> model_state_t \<Rightarrow> model_state_t" where
  "set_trans now tr delay st =
     (let st = st\<lparr>st_trans := tr, st_delay := delay\<rparr> in
      if tr \<noteq> 0 then
        let start = of_nat now + ucast delay * 5
        in st\<lparr>trans_start_time := start, trans_end_time := start + get_transition_time tr\<rparr>
      else st)"

section \<open>Element timers\<close>

definition mesh_timer_stop :: "elem_state_t \<Rightarrow> elem_state_t" where
  "mesh_timer_stop e = upd_state (\<lambda>st. st\<lparr>delay_timer := k_timer_stop (delay_timer st), trans_timer := k_timer_stop (trans_timer st)\<rparr>) e"

definition clear_trans_para :: "elem_state_t \<Rightarrow> elem_state_t" where
  "clear_trans_para e = upd_state (\<lambda>st. st\<lparr>st_trans := 0, trans_start_time := 0, trans_end_time := 0\<rparr>) e"

section \<open>One step of a transition\<close>

definition DELTA_ACTUAL_MIN :: u16 where "DELTA_ACTUAL_MIN = 655"
definition DELTA_TEMP_MIN :: u16 where "DELTA_TEMP_MIN = 192"

definition step_onoff :: "model_state_t \<Rightarrow> model_state_t" where
  "step_onoff st =
     (if onoff_cur st = 0 \<and> onoff_tar st = 1 then st\<lparr>onoff_cur := 1\<rparr>
      else if onoff_cur st = 1 \<and> onoff_tar st = 0 then (if actual_cur st = 0 then st\<lparr>onoff_cur := 0\<rparr> else st)
      else st)"

definition step_actual :: "u16 \<Rightarrow> u16 \<Rightarrow> u16 \<Rightarrow> u16" where
  "step_actual step cur tar =
     (if tar > cur then
        let delta = (tar - cur) div step; delta = (if delta > DELTA_ACTUAL_MIN then delta else DELTA_ACTUAL_MIN) in
        if 0xFFFF - cur < delta \<or> tar - cur < delta then tar else cur + delta
      else
        let delta = (cur - tar) div step; delta = (if delta > DELTA_ACTUAL_MIN then delta else DELTA_ACTUAL_MIN) in
        if cur < delta \<or> cur - delta < tar then tar else cur - delta)"

text \<open>The upward branch adds the step twice.\<close>

definition step_temp :: "u16 \<Rightarrow> u16 \<Rightarrow> u16 \<Rightarrow> u16" where
  "step_temp step cur tar =
     (if tar > cur then
        let delta = (tar - cur) div step; delta = (if delta > DELTA_TEMP_MIN then delta else DELTA_TEMP_MIN);
            cur = (if int (unat CTL_TEMP_MAX) - int (unat cur) < int (unat delta) \<or> tar - cur < delta then tar else cur + delta);
            delta = delta + cur
        in if delta > tar then tar else delta
      else
        let delta = (cur - tar) div step; delta = (if delta > DELTA_TEMP_MIN then delta else DELTA_TEMP_MIN) in
        if unat cur < unat delta + unat CTL_TEMP_MIN \<or> cur - delta < tar then tar else cur - delta)"

text \<open>
  The number of remaining steps is a 16-bit number: \<^verbatim>\<open>None\<close> when it is zero and a value has to move, the division by zero
  of the code. The result is the flag \<^verbatim>\<open>cycle\<close> and the new state.
\<close>

definition calc_cur_state :: "nat \<Rightarrow> elem_state_t \<Rightarrow> (bool \<times> elem_state_t) option" where
  "calc_cur_state now e =
     (let st = el_state e; cur_time = (of_nat now :: u32);
          r = (if cur_time \<le> trans_end_time st - MESH_TRNSATION_CYCLE then
                 let step = (ucast ((trans_end_time st - cur_time) div MESH_TRNSATION_CYCLE) :: u16);
                     st = step_onoff st;
                     cycle = (actual_cur st \<noteq> actual_tar st \<or> temp_cur st \<noteq> temp_tar st) in
                 if cycle \<and> step = 0 then None
                 else
                   let st = (if actual_cur st \<noteq> actual_tar st
                             then st\<lparr>actual_cur := step_actual step (actual_cur st) (actual_tar st)\<rparr> else st);
                       st = (if temp_cur st \<noteq> temp_tar st
                             then st\<lparr>temp_cur := step_temp step (temp_cur st) (temp_tar st)\<rparr> else st)
                   in Some (cycle, st)
               else Some (False, st))
      in case r of
           None \<Rightarrow> None
         | Some (cycle, st) \<Rightarrow>
             let cycle = (cycle \<and> \<not> (onoff_cur st = onoff_tar st \<and> actual_cur st = actual_tar st \<and> temp_cur st = temp_tar st)) in
             Some (cycle, e\<lparr>el_state :=
               if cycle then st
               else st\<lparr>onoff_cur := onoff_tar st, actual_cur := actual_tar st, temp_cur := temp_tar st, st_trans := 0\<rparr>\<rparr>))"

section \<open>Transaction identifiers\<close>

definition RECV_MSG_TID_QUEUE_SIZE :: nat where "RECV_MSG_TID_QUEUE_SIZE = 5"
definition TMALL_GENIE_UADDR_START :: u16 where "TMALL_GENIE_UADDR_START = 0x0001"
definition TMALL_GENIE_UADDR_END :: u16 where "TMALL_GENIE_UADDR_END = 0x0010"

definition tid_src :: "u16 \<Rightarrow> u16" where
  "tid_src src = (if TMALL_GENIE_UADDR_START \<le> src \<and> src \<le> TMALL_GENIE_UADDR_END then TMALL_GENIE_UADDR_START else src)"

definition tid_recent :: "u16 \<Rightarrow> u8 \<Rightarrow> u32 \<Rightarrow> tid_entry \<Rightarrow> bool" where
  "tid_recent src tid cur_time q \<longleftrightarrow> tq_tid q = tid \<and> tq_addr q = src \<and> cur_time < tq_time q + 6000"

definition mesh_check_tid :: "u16 \<Rightarrow> u8 \<Rightarrow> genie \<Rightarrow> E_MESH_ERROR_TYPE \<times> genie" where
  "mesh_check_tid src_addr tid g =
     (let src = tid_src src_addr; cur_index = ga_tid_index g; cur_time = ga_now32 g in
      if list_ex (\<lambda>i. tid_recent src tid cur_time (ga_tid_queue g ! (i mod RECV_MSG_TID_QUEUE_SIZE)))
           [cur_index..<cur_index + RECV_MSG_TID_QUEUE_SIZE]
      then (MESH_TID_REPEAT, g)
      else (MESH_SUCCESS,
        g\<lparr>ga_tid_queue := (ga_tid_queue g)[cur_index := \<lparr>tq_tid = tid, tq_addr = src, tq_time = cur_time\<rparr>],
          ga_tid_index := (cur_index + 1) mod RECV_MSG_TID_QUEUE_SIZE\<rparr>))"

section \<open>Times survive their encoding\<close>

lemma small_and: "k < 64 \<Longrightarrow> (of_nat k :: u8) AND 0x3F = of_nat k" "k < 64 \<Longrightarrow> drop_bit 6 (of_nat k :: u8) = 0"
proof -
  assume k: "k < 64"
  have "(0x3F :: u8) = mask 6" by (simp add: mask_eq_exp_minus_1)
  then have "(of_nat k :: u8) AND 0x3F = take_bit 6 (of_nat k)" by (simp only: take_bit_eq_mask)
  also have "\<dots> = of_nat (take_bit 6 k)" by (simp add: take_bit_of_nat)
  also have "take_bit 6 k = k" using k by (simp add: take_bit_eq_mod)
  finally show "(of_nat k :: u8) AND 0x3F = of_nat k" .
  have "unat (drop_bit 6 (of_nat k :: u8)) = 0" using k by (simp add: unat_drop_bit_eq unat_of_nat) (simp add: drop_bit_eq_div)
  then show "drop_bit 6 (of_nat k :: u8) = 0" by (simp add: unat_eq_zero)
qed

lemma time_enc:
  assumes "k < 63"
  shows "get_transition_time (of_nat k) = of_nat (k * 100)" "get_transition_time (of_nat k OR 0x40) = of_nat (k * 1000)"
    "get_transition_time (of_nat k OR 0x80) = of_nat (k * 10000)" "get_transition_time (of_nat k OR 0xC0) = of_nat (k * 600000)"
proof -
  have a: "(of_nat k OR h :: u8) AND 0x3F = of_nat k" if "h AND 0x3F = 0" for h
    using small_and(1) [of k] assms that by (simp add: bit.conj_disj_distrib2)
  have d: "drop_bit 6 (of_nat k OR h :: u8) = drop_bit 6 h" for h
    using small_and(2) [of k] assms by (simp add: drop_bit_or)
  have n: "(of_nat k :: u8) \<noteq> 0x3F" "unat (of_nat k :: u8) = k"
    using assms by (auto simp: unat_of_nat dest: arg_cong [of _ _ unat])
  show "get_transition_time (of_nat k) = of_nat (k * 100)"
    using small_and [of k] assms n by (simp add: get_transition_time_def TRANS_TIMES_def)
  show "get_transition_time (of_nat k OR 0x40) = of_nat (k * 1000)"
    using n a [of "0x40"] d [of "0x40"] by (simp add: get_transition_time_def TRANS_TIMES_def)
  show "get_transition_time (of_nat k OR 0x80) = of_nat (k * 10000)"
    using n a [of "0x80"] d [of "0x80"] by (simp add: get_transition_time_def TRANS_TIMES_def)
  show "get_transition_time (of_nat k OR 0xC0) = of_nat (k * 600000)"
  proof -
    have "unat (drop_bit 6 (of_nat k OR 0xC0 :: u8)) = 3" unfolding d by (simp add: unat_shift)
    then show ?thesis using n a [of "0xC0"] unfolding get_transition_time_def by (simp add: TRANS_TIMES_def)
  qed
qed

lemma unat_u32: "n < 4294967296 \<Longrightarrow> unat (of_nat n :: u32) = n"
  by (simp add: unat_of_nat)

lemma byte_enc:
  assumes "t \<le> 372000" "unat time = t * 100"
  shows "get_transition_byte time =
    (if t > 6200 then of_nat (t div 6000) OR 0xC0 else if t > 620 then of_nat (t div 100) OR 0x80
     else if t > 62 then of_nat (t div 10) OR 0x40 else of_nat t)"
  using assms by (simp add: get_transition_byte_def TRANS_TIMES_def)

text \<open>
  Transition times survive their encoding. The one-byte encoding of a transition time (a resolution and a number of
  steps) denotes a time in milliseconds; encoding this time again, as a status message does with the remaining
  time, gives a byte of the same duration for every valid byte.
\<close>

theorem transition_time_roundtrip:
  assumes "b AND 0x3F \<noteq> 0x3F"
  shows "get_transition_time (get_transition_byte (get_transition_time b)) = get_transition_time b"
proof -
  define k where "k = unat (b AND 0x3F)"
  define r where "r = unat (drop_bit 6 b)"
  have "k \<le> 63" using word_and_le1 [of b "0x3F"] by (simp add: k_def word_le_nat_alt)
  moreover have "k \<noteq> 63" using assms by (auto simp: k_def dest: arg_cong [of _ _ "of_nat :: nat \<Rightarrow> u8"])
  ultimately have k: "k < 63" by simp
  have "unat b < 256" using unsigned_less [of b] by simp
  then have "r < 4" unfolding r_def unat_shift by (intro less_mult_imp_div_less) simp
  then consider "r = 0" | "r = 1" | "r = 2" | "r = 3" by linarith
  then show ?thesis
  proof cases
    case 1
    then have t: "get_transition_time b = of_nat (k * 100)" using assms by (simp add: get_transition_time_def TRANS_TIMES_def k_def r_def)
    have "unat (of_nat (k * 100) :: u32) = k * 100" using k unat_u32 [of "k * 100"] by linarith
    with k have "get_transition_byte (of_nat (k * 100)) = of_nat k" by (subst byte_enc) (auto simp: mult.commute)
    then show ?thesis using time_enc(1) [OF k] by (simp only: t)
  next
    case 2
    then have t: "get_transition_time b = of_nat (k * 1000)" using assms by (simp add: get_transition_time_def TRANS_TIMES_def k_def r_def)
    have "unat (of_nat (k * 1000) :: u32) = k * 10 * 100" using k unat_u32 [of "k * 1000"] by linarith
    with k have "get_transition_byte (of_nat (k * 1000)) = (if k * 10 > 62 then of_nat k OR 0x40 else of_nat (k * 10))" by (subst byte_enc) (auto simp: mult.commute)
    then show ?thesis using time_enc(2) [OF k] time_enc(1) [of "k * 10"] by (simp add: t split: if_splits)
  next
    case 3
    then have t: "get_transition_time b = of_nat (k * 10000)" using assms by (simp add: get_transition_time_def TRANS_TIMES_def k_def r_def)
    have "unat (of_nat (k * 10000) :: u32) = k * 100 * 100" using k unat_u32 [of "k * 10000"] by linarith
    with k have "get_transition_byte (of_nat (k * 10000)) = (if k * 100 > 620 then of_nat k OR 0x80 else if k * 100 > 62 then of_nat (k * 10) OR 0x40 else of_nat (k * 100))"
      by (subst byte_enc) (auto simp: mult.commute)
    then show ?thesis using time_enc(3) [OF k] time_enc(2) [of "k * 10"] time_enc(1) [of "k * 100"] by (simp add: t split: if_splits)
  next
    case 4
    then have t: "get_transition_time b = of_nat (k * 600000)" using assms by (simp add: get_transition_time_def TRANS_TIMES_def k_def r_def)
    have "unat (of_nat (k * 600000) :: u32) = k * 6000 * 100" using k unat_u32 [of "k * 600000"] by linarith
    with k have "get_transition_byte (of_nat (k * 600000)) = (if k = 0 then of_nat 0 else if k = 1 then of_nat 60 OR 0x80 else of_nat k OR 0xC0)"
      by (subst byte_enc) (auto simp: mult.commute)
    then show ?thesis using time_enc(4) [OF k] time_enc(3) [of 60] time_enc(1) [of 0] by (simp add: t split: if_splits)
  qed
qed

theorem transition_time_roundtrip_witness: "get_transition_time (get_transition_byte (get_transition_time 0x82)) = get_transition_time 0x82"
  by (rule transition_time_roundtrip) simp

section \<open>Steps lead to the target\<close>

text \<open>A new value is the target, or at least \<open>d\<close> nearer to it and not beyond it.\<close>

definition toward :: "nat \<Rightarrow> u16 \<Rightarrow> u16 \<Rightarrow> u16 \<Rightarrow> bool" where
  "toward d cur tar c \<longleftrightarrow> c = tar \<or> (if cur < tar then unat cur + d \<le> unat c \<and> c \<le> tar else unat c + d \<le> unat cur \<and> tar \<le> c)"

lemma move_up:
  assumes "cur < tar" "D \<le> unat d"
  shows "toward D cur tar (if P \<or> tar - cur < d then tar else cur + d)"
proof -
  have "unat cur + unat d \<le> unat tar" if "\<not> tar - cur < d"
    using that assms(1) by (auto simp: word_less_nat_alt unat_sub)
  moreover have "unat (cur + d) = unat cur + unat d" if "unat cur + unat d \<le> unat tar"
  proof -
    have "unat cur + unat d < 65536" using that unat_u16_less [of tar] by linarith
    then show ?thesis by (simp add: unat_word_ariths)
  qed
  ultimately show ?thesis using assms by (auto simp: toward_def word_le_nat_alt)
qed

lemma move_down:
  assumes "\<not> cur < tar" "D \<le> unat d" "cur < d \<Longrightarrow> P"
  shows "toward D cur tar (if P \<or> cur - d < tar then tar else cur - d)"
proof -
  have "unat (cur - d) + unat d = unat cur" if "\<not> P"
    using that assms(3) by (metis le_add_diff_inverse2 not_less unat_sub word_le_nat_alt)
  then show ?thesis using assms by (auto simp: toward_def not_less)
qed

lemma step_actual_toward: "toward 655 cur tar (step_actual step cur tar)"
proof -
  have l: "655 \<le> unat (if d > DELTA_ACTUAL_MIN then d else DELTA_ACTUAL_MIN)" for d
    by (simp add: DELTA_ACTUAL_MIN_def word_less_nat_alt)
  show ?thesis unfolding step_actual_def Let_def using move_up [OF _ l] move_down [OF _ l] by simp
qed

lemma step_temp_toward:
  assumes "tar \<le> CTL_TEMP_MAX"
  shows "toward 192 cur tar (step_temp step cur tar)"
proof -
  let ?max = "\<lambda>d. if d > DELTA_TEMP_MIN then d else DELTA_TEMP_MIN"
  have l: "192 \<le> unat (?max d)" for d by (simp add: DELTA_TEMP_MIN_def word_less_nat_alt)
  have t: "unat tar \<le> 20000" using assms by (simp add: CTL_TEMP_MAX_def word_le_nat_alt)
  show ?thesis
  proof (cases "tar > cur")
    case True
    define d where "d = ?max ((tar - cur) div step)"
    define c where "c = (if int (unat CTL_TEMP_MAX) - int (unat cur) < int (unat d) \<or> tar - cur < d then tar else cur + d)"
    have "unat ((tar - cur) div step) \<le> unat (tar - cur)" by (simp add: unat_div)
    then have d: "192 \<le> unat d" "unat d \<le> 20000" using l t True by (auto simp: d_def DELTA_TEMP_MIN_def unat_sub word_less_nat_alt)
    have c: "toward 192 cur tar c" unfolding c_def by (rule move_up [OF True d(1)])
    then have "unat c \<le> unat tar" using True by (auto simp: toward_def word_le_nat_alt)
    then have "unat (d + c) = unat d + unat c" using d t by (simp add: unat_word_ariths)
    then have "toward 192 cur tar (if d + c > tar then tar else d + c)"
      using c d True by (auto simp: toward_def word_le_nat_alt word_less_nat_alt not_less)
    moreover have "step_temp step cur tar = (if d + c > tar then tar else d + c)"
      using True by (simp add: step_temp_def Let_def d_def c_def)
    ultimately show ?thesis by simp
  next
    case False
    show ?thesis unfolding step_temp_def Let_def using move_down [OF False l] False by (simp add: word_less_nat_alt)
  qed
qed

text \<open>The number of steps a value still needs, at a minimal speed, and that of an element.\<close>

definition steps_to :: "nat \<Rightarrow> u16 \<Rightarrow> u16 \<Rightarrow> nat" where
  "steps_to d cur tar = ((unat cur - unat tar) + (unat tar - unat cur) + d - 1) div d"

definition rank :: "elem_state_t \<Rightarrow> nat" where
  "rank e = max (steps_to 655 (actual_cur (el_state e)) (actual_tar (el_state e))) (steps_to 192 (temp_cur (el_state e)) (temp_tar (el_state e)))"

lemma steps_to_toward:
  assumes "toward d cur tar c" "cur \<noteq> tar" "0 < d"
  shows "steps_to d c tar < steps_to d cur tar"
proof -
  let ?x = "(unat cur - unat tar) + (unat tar - unat cur)" and ?y = "(unat c - unat tar) + (unat tar - unat c)"
  have pos: "0 < ?x" using assms(2) by (auto simp: word_unat_eq_iff)
  consider "c = tar" | "?y + d \<le> ?x"
    using assms(1) by (auto simp: toward_def word_le_nat_alt word_less_nat_alt split: if_splits)
  then show ?thesis
  proof cases
    case 1
    then have "steps_to d c tar = 0" using assms(3) by (simp add: steps_to_def)
    moreover have "0 < steps_to d cur tar" unfolding steps_to_def div_greater_zero_iff using pos assms(3) by linarith
    ultimately show ?thesis by simp
  next
    case 2
    have "?y + d - 1 + d = ?y + d + d - 1" using assms(3) by linarith
    then have "(?y + d - 1 + d) div d = (?y + d + d - 1) div d" by (rule arg_cong)
    moreover have "(?y + d - 1 + d) div d = (?y + d - 1) div d + 1" using assms(3) by (intro div_add_self2) simp
    ultimately have "(?y + d - 1) div d + 1 = (?y + d + d - 1) div d" by linarith
    also have "\<dots> \<le> (?x + d - 1) div d" using 2 by (intro div_le_mono diff_le_mono add_le_mono1)
    finally show ?thesis by (simp add: steps_to_def)
  qed
qed

lemma rank_bound:
  assumes "temp_cur (el_state e) \<le> CTL_TEMP_MAX" "temp_tar (el_state e) \<le> CTL_TEMP_MAX"
  shows "rank e \<le> 105"
proof -
  have d: "steps_to d a b \<le> (n + d - 1) div d" if "unat a \<le> n" "unat b \<le> n" for a b :: u16 and n d
    unfolding steps_to_def using that by (intro div_le_mono diff_le_mono add_le_mono1) linarith
  have "steps_to 655 (actual_cur (el_state e)) (actual_tar (el_state e)) \<le> (65535 + 655 - 1) div 655"
    using unat_u16_less [of "actual_cur (el_state e)"] unat_u16_less [of "actual_tar (el_state e)"] by (intro d) linarith+
  moreover have "steps_to 192 (temp_cur (el_state e)) (temp_tar (el_state e)) \<le> (20000 + 192 - 1) div 192"
    using assms by (intro d) (simp_all add: CTL_TEMP_MAX_def word_le_nat_alt)
  ultimately show ?thesis by (simp add: rank_def)
qed

text \<open>What a step keeps, and what it achieves.\<close>

definition same_goal :: "elem_state_t \<Rightarrow> elem_state_t \<Rightarrow> bool" where
  "same_goal e e' \<longleftrightarrow> onoff_tar (el_state e') = onoff_tar (el_state e) \<and> actual_tar (el_state e') = actual_tar (el_state e) \<and>
     temp_tar (el_state e') = temp_tar (el_state e) \<and> trans_end_time (el_state e') = trans_end_time (el_state e)"

definition arrived :: "elem_state_t \<Rightarrow> bool" where
  "arrived e \<longleftrightarrow> onoff_cur (el_state e) = onoff_tar (el_state e) \<and> actual_cur (el_state e) = actual_tar (el_state e) \<and>
     temp_cur (el_state e) = temp_tar (el_state e) \<and> st_trans (el_state e) = 0"

lemma step_onoff_sel [simp]:
  "actual_cur (step_onoff st) = actual_cur st" "actual_tar (step_onoff st) = actual_tar st" "temp_cur (step_onoff st) = temp_cur st"
  "temp_tar (step_onoff st) = temp_tar st" "onoff_tar (step_onoff st) = onoff_tar st" "trans_end_time (step_onoff st) = trans_end_time st"
  by (simp_all add: step_onoff_def)

lemma calc_cur_state_step:
  assumes "calc_cur_state now e = Some (cycle, e')" "temp_cur (el_state e) \<le> CTL_TEMP_MAX" "temp_tar (el_state e) \<le> CTL_TEMP_MAX"
  shows "same_goal e e'" "\<not> cycle \<Longrightarrow> arrived e'" "cycle \<Longrightarrow> rank e' < rank e" "temp_cur (el_state e') \<le> CTL_TEMP_MAX"
proof -
  let ?t = "temp_tar (el_state e)" and ?c = "temp_cur (el_state e)" and ?at = "actual_tar (el_state e)" and ?ac = "actual_cur (el_state e)"
  have tt: "step_temp st ?c ?t \<le> CTL_TEMP_MAX" for st
    using step_temp_toward [OF assms(3), of ?c st] assms(2,3) by (auto simp: toward_def word_le_nat_alt split: if_splits)
  show g: "same_goal e e'" and "\<not> cycle \<Longrightarrow> arrived e'" "temp_cur (el_state e') \<le> CTL_TEMP_MAX"
    using assms tt by (auto simp: calc_cur_state_def Let_def same_goal_def arrived_def split: if_splits)
  assume cycle
  then obtain st where n: "actual_cur (el_state e') = (if ?ac \<noteq> ?at then step_actual st ?ac ?at else ?ac)"
      "temp_cur (el_state e') = (if ?c \<noteq> ?t then step_temp st ?c ?t else ?c)" "?ac \<noteq> ?at \<or> ?c \<noteq> ?t"
    using assms(1) by (auto simp: calc_cur_state_def Let_def split: if_splits)
  have z: "steps_to d c c = 0" if "0 < d" for d c using that by (simp add: steps_to_def)
  have "steps_to 655 (actual_cur (el_state e')) ?at < steps_to 655 ?ac ?at \<or> ?ac = ?at \<and> actual_cur (el_state e') = ?at"
    using steps_to_toward [OF step_actual_toward] by (simp add: n(1))
  moreover have "steps_to 192 (temp_cur (el_state e')) ?t < steps_to 192 ?c ?t \<or> ?c = ?t \<and> temp_cur (el_state e') = ?t"
    using steps_to_toward [OF step_temp_toward [OF assms(3)]] by (simp add: n(2))
  ultimately show "rank e' < rank e" using g n(3) by (auto simp: rank_def same_goal_def z less_max_iff_disj)
qed

text \<open>The timer calls the step every ten milliseconds until the flag is false.\<close>

fun trans_run :: "nat list \<Rightarrow> elem_state_t \<Rightarrow> (bool \<times> elem_state_t) option" where
  "trans_run [] e = Some (True, e)"
| "trans_run (now # ts) e =
     (case calc_cur_state now e of
        None \<Rightarrow> None
      | Some (cycle, e') \<Rightarrow> if cycle then trans_run ts e' else Some (False, e'))"

lemma calc_total:
  assumes "of_nat now \<le> trans_end_time (el_state e) - 10 \<Longrightarrow> (ucast ((trans_end_time (el_state e) - of_nat now) div 10) :: u16) \<noteq> 0"
  obtains cycle e' where "calc_cur_state now e = Some (cycle, e')"
proof -
  have "calc_cur_state now e \<noteq> None" using assms by (auto simp: calc_cur_state_def Let_def MESH_TRNSATION_CYCLE_def)
  then show thesis using that by auto
qed

lemma trans_run_ends:
  assumes "temp_cur (el_state e) \<le> CTL_TEMP_MAX" "temp_tar (el_state e) \<le> CTL_TEMP_MAX" "rank e < length ts"
    and "\<forall>t\<in>set ts. of_nat t \<le> trans_end_time (el_state e) - 10 \<longrightarrow>
      (ucast ((trans_end_time (el_state e) - of_nat t) div 10) :: u16) \<noteq> 0"
  shows "\<exists>e'. trans_run ts e = Some (False, e') \<and> same_goal e e' \<and> arrived e'"
  using assms
proof (induction ts arbitrary: e)
  case (Cons now ts)
  obtain cycle e1 where c: "calc_cur_state now e = Some (cycle, e1)" using Cons.prems(4) calc_total [of now e] by auto
  note st = calc_cur_state_step [OF c Cons.prems(1,2)]
  show ?case
  proof (cases cycle)
    case True
    have g: "temp_tar (el_state e1) = temp_tar (el_state e)" "trans_end_time (el_state e1) = trans_end_time (el_state e)"
      using st(1) by (simp_all add: same_goal_def)
    have "\<exists>e'. trans_run ts e1 = Some (False, e') \<and> same_goal e1 e' \<and> arrived e'"
      using Cons.prems st(3,4) True g by (intro Cons.IH) auto
    then show ?thesis using c True st(1) by (auto simp: same_goal_def)
  qed (use c st in auto)
qed simp


definition trans_demo :: elem_state_t where
  "trans_demo = elem_state0\<lparr>el_state := model_state0\<lparr>onoff_tar := 1, actual_tar := 0xFFFF, temp_cur := 800, temp_tar := 20000,
     st_trans := 0x41, trans_end_time := 1000\<rparr>\<rparr>"


section \<open>Repeated transactions\<close>

definition tid_ok :: "genie \<Rightarrow> bool" where
  "tid_ok g \<longleftrightarrow> length (ga_tid_queue g) = RECV_MSG_TID_QUEUE_SIZE \<and> ga_tid_index g < RECV_MSG_TID_QUEUE_SIZE"

lemma rotated: "i < n \<Longrightarrow> (\<exists>j\<in>{m..<m + n}. j mod n = i)" for i m n :: nat
proof -
  assume i: "i < n"
  let ?j = "m + (i + (n - m mod n)) mod n"
  have "?j mod n = (m mod n + (i + (n - m mod n))) mod n" by (simp only: mod_add_left_eq mod_add_right_eq)
  also have "m mod n + (i + (n - m mod n)) = i + n" using i mod_less_divisor [of n m] by linarith
  also have "(i + n) mod n = i" using i by simp
  finally have "?j mod n = i" .
  then show ?thesis using i by (intro bexI [of _ ?j]) auto
qed

lemma check_tid_repeat:
  assumes "tid_ok g" "i < RECV_MSG_TID_QUEUE_SIZE" "tid_recent (tid_src src) tid (ga_now32 g) (ga_tid_queue g ! i)"
  shows "mesh_check_tid src tid g = (MESH_TID_REPEAT, g)"
proof -
  obtain j where "j \<in> {ga_tid_index g..<ga_tid_index g + RECV_MSG_TID_QUEUE_SIZE}" "j mod RECV_MSG_TID_QUEUE_SIZE = i"
    using rotated [OF assms(2)] by blast
  then show ?thesis using assms(3) by (auto simp: mesh_check_tid_def Let_def list_ex_iff)
qed

text \<open>An entry stays in the queue until five more transactions were accepted.\<close>

lemma check_tid_keeps:
  assumes "tid_ok g" "i < RECV_MSG_TID_QUEUE_SIZE" "ga_tid_index g = (i + 1 + m) mod RECV_MSG_TID_QUEUE_SIZE" "m < 4"
    and "mesh_check_tid src tid g = (r, g')"
  obtains m' where "m' \<le> m + 1" "ga_tid_queue g' ! i = ga_tid_queue g ! i" "ga_tid_index g' = (i + 1 + m') mod RECV_MSG_TID_QUEUE_SIZE" "tid_ok g'"
proof (cases "r = MESH_SUCCESS")
  case True
  have "ga_tid_index g \<noteq> i"
  proof
    assume e: "ga_tid_index g = i"
    then have "(i + 1 + m) mod 5 = i mod 5" using assms(2,3) by (simp add: RECV_MSG_TID_QUEUE_SIZE_def)
    then show False using assms(4) by presburger
  qed
  moreover from True assms(5) have g': "g' = g\<lparr>ga_tid_queue := (ga_tid_queue g)[ga_tid_index g := \<lparr>tq_tid = tid, tq_addr = tid_src src, tq_time = ga_now32 g\<rparr>],
      ga_tid_index := (ga_tid_index g + 1) mod RECV_MSG_TID_QUEUE_SIZE\<rparr>"
    by (simp add: mesh_check_tid_def Let_def split: if_splits)
  moreover have "(ga_tid_index g + 1) mod RECV_MSG_TID_QUEUE_SIZE = (i + 1 + (m + 1)) mod RECV_MSG_TID_QUEUE_SIZE"
    unfolding assms(3) by (simp add: mod_Suc_eq)
  ultimately show ?thesis using that [of "m + 1"] assms(1) by (simp add: tid_ok_def RECV_MSG_TID_QUEUE_SIZE_def)
next
  case False
  then have "g' = g" using assms(5) by (simp add: mesh_check_tid_def Let_def split: if_splits)
  then show ?thesis using that [of m] assms(1,3) by simp
qed

text \<open>A message of the sequence that arrives in between: its time, its source and its transaction identifier.\<close>

definition at_time :: "nat \<Rightarrow> genie \<Rightarrow> genie" where
  "at_time n g = on_mesh (\<lambda>s. s\<lparr>ms_now := n\<rparr>) g"

definition tid_run :: "(nat \<times> u16 \<times> u8) list \<Rightarrow> genie \<Rightarrow> genie" where
  "tid_run msgs g = fold (\<lambda>(n, src, tid) g. snd (mesh_check_tid src tid (at_time n g))) msgs g"

lemma at_time_sel [simp]:
  "ga_tid_queue (at_time n g) = ga_tid_queue g" "ga_tid_index (at_time n g) = ga_tid_index g" "tid_ok (at_time n g) = tid_ok g"
  "ga_now32 (at_time n g) = of_nat n"
  by (simp_all add: at_time_def on_mesh_def tid_ok_def ga_now32_def ga_now_def)

lemma tid_run_keeps:
  assumes "tid_ok g" "i < RECV_MSG_TID_QUEUE_SIZE" "ga_tid_index g = (i + 1 + m) mod RECV_MSG_TID_QUEUE_SIZE" "m + length msgs \<le> 4"
  shows "ga_tid_queue (tid_run msgs g) ! i = ga_tid_queue g ! i \<and> tid_ok (tid_run msgs g)"
  using assms
proof (induction msgs arbitrary: g m)
  case (Cons a msgs)
  obtain n src tid where a: "a = (n, src, tid)" by (cases a)
  obtain r g' where c: "mesh_check_tid src tid (at_time n g) = (r, g')" by (metis surj_pair)
  obtain m' where m': "m' \<le> m + 1" "ga_tid_queue g' ! i = ga_tid_queue g ! i" "ga_tid_index g' = (i + 1 + m') mod RECV_MSG_TID_QUEUE_SIZE" "tid_ok g'"
    by (rule check_tid_keeps [of "at_time n g" i m src tid r g']) (use Cons.prems c in auto)
  have "ga_tid_queue (tid_run msgs g') ! i = ga_tid_queue g' ! i \<and> tid_ok (tid_run msgs g')"
    using Cons.prems m' by (intro Cons.IH [of g' m']) auto
  then show ?case using m'(2) c a by (simp add: tid_run_def)
qed (simp add: tid_run_def)

text \<open>C15.
  Repeated transactions are recognised. A message that a server has accepted is recorded with its source and
  transaction identifier. When a message with this identifier arrives from the same source again (all addresses of
  the controller count as one source) within six seconds, and at most four other transactions were checked in
  between, it is reported as a repetition and the record does not change.
\<close>

theorem repeated_tid_rejected:
  assumes "tid_ok g" "mesh_check_tid src tid g = (MESH_SUCCESS, g1)" "length msgs \<le> 4" "tid_src src' = tid_src src"
    and "of_nat later < ga_now32 g + 6000"
  shows "mesh_check_tid src' tid (at_time later (tid_run msgs g1)) = (MESH_TID_REPEAT, at_time later (tid_run msgs g1))"
proof -
  let ?i = "ga_tid_index g" and ?q = "\<lparr>tq_tid = tid, tq_addr = tid_src src, tq_time = ga_now32 g\<rparr>"
  have g1: "g1 = g\<lparr>ga_tid_queue := (ga_tid_queue g)[?i := ?q], ga_tid_index := (?i + 1) mod RECV_MSG_TID_QUEUE_SIZE\<rparr>"
    using assms(2) by (auto simp: mesh_check_tid_def Let_def split: if_splits)
  have i: "?i < RECV_MSG_TID_QUEUE_SIZE" "tid_ok g1" "ga_tid_queue g1 ! ?i = ?q"
    using assms(1) by (auto simp: tid_ok_def g1 RECV_MSG_TID_QUEUE_SIZE_def)
  have "ga_tid_queue (tid_run msgs g1) ! ?i = ?q \<and> tid_ok (tid_run msgs g1)"
    using tid_run_keeps [of g1 ?i 0 msgs] i assms(3) by (simp add: g1)
  then show ?thesis using assms(4,5) i(1) by (intro check_tid_repeat [of _ ?i]) (auto simp: tid_recent_def)
qed

theorem repeated_tid_rejected_witness:
  "fst (mesh_check_tid 0x0003 7 (at_time 4000 (tid_run [(2000, 0x0100, 7)] (snd (mesh_check_tid 0x0002 7 (at_time 1000 genie0)))))) = MESH_TID_REPEAT"
proof -
  let ?g = "at_time 1000 genie0"
  have "fst (mesh_check_tid 0x0002 7 ?g) = MESH_SUCCESS"
    by (simp add: mesh_check_tid_def Let_def genie0_def RECV_MSG_TID_QUEUE_SIZE_def tid_recent_def list_ex_iff tid_src_def
        TMALL_GENIE_UADDR_START_def TMALL_GENIE_UADDR_END_def)
  then have "mesh_check_tid 0x0002 7 ?g = (MESH_SUCCESS, snd (mesh_check_tid 0x0002 7 ?g))" by (metis prod.collapse)
  moreover have "tid_ok ?g" by (simp add: tid_ok_def genie0_def RECV_MSG_TID_QUEUE_SIZE_def)
  ultimately show ?thesis
    using repeated_tid_rejected [of ?g "0x0002" 7 _ "[(2000, 0x0100, 7)]" "0x0003" 4000]
    by (simp add: tid_src_def TMALL_GENIE_UADDR_START_def TMALL_GENIE_UADDR_END_def)
qed

end
