(* ===== verification/Light_Models.thy ===== *)
theory Light_Models
  imports Vendor_Model
begin

text \<open>
  The light servers of the Genie application, \<^verbatim>\<open>gen_onoff_srv.c\<close>, \<^verbatim>\<open>lightness_srv.c\<close>, \<^verbatim>\<open>light_ctl_srv.c\<close>, and the bindings
  between their states, \<^verbatim>\<open>model_bind_ops.c\<close>, in the simple build: what a Set message does to the state of its element and
  what a status message reports. The handlers that answer and raise events are in \<open>Genie_Event\<close>. The lemmas: the values of
  an element stay in their ranges, whatever message arrives.
\<close>

section \<open>Bound states\<close>

datatype E_BIND_OPERATION_ID = B_GEN_ONOFF_ID | B_LIGHTNESS_ID | B_LIGHTNESS_LINEAR_ID | B_LIGHTNESS_LAST_ID | B_LIGHTNESS_DFT_ID
  | B_LIGHTNESS_RANGE_ID | B_LIGHT_CTL_ID | B_LIGHT_CTL_TEMP_ID | B_LIGHT_CTL_DFT_TEMP_ID | B_LIGHT_CTL_TEMP_RANGE_ID

definition bind_lightness_with_onoff :: "nat \<Rightarrow> E_VALUE_TYPE \<Rightarrow> genie \<Rightarrow> genie" where
  "bind_lightness_with_onoff e type g =
     (let el = get_elem g e; st = el_state el in
      if type = T_TAR then
        if onoff_cur st = 0 \<and> onoff_tar st = 1 then
          let actual = (if last_actual (el_powerup el) \<noteq> 0 then last_actual (el_powerup el) else LIGHTNESS_DEFAULT)
          in set_flag INDICATION_FLAG_LIGHTNESS (upd_elem e (upd_state (\<lambda>st. st\<lparr>actual_tar := actual\<rparr>)) g)
        else if onoff_cur st = 1 \<and> onoff_tar st = 0 then
          set_flag INDICATION_FLAG_LIGHTNESS (upd_elem e (upd_state (\<lambda>st. st\<lparr>actual_tar := 0\<rparr>)) g)
        else g
      else g)"

definition bind_ctl_with_onoff :: "nat \<Rightarrow> E_VALUE_TYPE \<Rightarrow> genie \<Rightarrow> genie" where
  "bind_ctl_with_onoff e type g =
     (let el = get_elem g e; st = el_state el in
      if type = T_TAR \<and> (onoff_cur st = 0 \<and> onoff_tar st = 1) \<and> temp_cur st \<noteq> temp_tar st then
        let temp = (if last_temp (el_powerup el) \<noteq> 0 then last_temp (el_powerup el) else CTL_TEMP_DEFAULT)
        in set_flag INDICATION_FLAG_CTL (upd_elem e (upd_state (\<lambda>st. st\<lparr>temp_tar := temp\<rparr>)) g)
      else g)"

definition gen_onoff_operation :: "nat \<Rightarrow> E_VALUE_TYPE \<Rightarrow> genie \<Rightarrow> genie" where
  "gen_onoff_operation e type g = bind_ctl_with_onoff e type (bind_lightness_with_onoff e type g)"

text \<open>Binding \<^verbatim>\<open>B_GEN_ONOFF_ID\<close> from inside another binding runs \<^verbatim>\<open>_gen_onoff_operation\<close>.\<close>

definition bind_onoff_with_ctl :: "nat \<Rightarrow> E_VALUE_TYPE \<Rightarrow> genie \<Rightarrow> genie" where
  "bind_onoff_with_ctl e type g =
     (if type = T_TAR \<and> onoff_tar (el_state (get_elem g e)) = 0 then
        gen_onoff_operation e T_TAR
          (set_flag INDICATION_FLAG_ONOFF (upd_elem e (upd_state (\<lambda>st. st\<lparr>onoff_tar := 1\<rparr>)) g))
      else g)"

text \<open>The condition to turn off compares the current lightness with 1.\<close>

definition bind_onoff_with_lightness :: "nat \<Rightarrow> E_VALUE_TYPE \<Rightarrow> genie \<Rightarrow> genie" where
  "bind_onoff_with_lightness e type g =
     (let st = el_state (get_elem g e) in
      case type of
        T_TAR \<Rightarrow>
          if actual_cur st = 0 \<and> actual_tar st \<noteq> 0 then
            set_flag INDICATION_FLAG_ONOFF (upd_elem e (upd_state (\<lambda>st. st\<lparr>onoff_tar := 1\<rparr>)) g)
          else if actual_cur st \<noteq> 1 \<and> actual_tar st = 0 then
            set_flag INDICATION_FLAG_ONOFF (upd_elem e (upd_state (\<lambda>st. st\<lparr>onoff_tar := 0\<rparr>)) g)
          else g
      | T_CUR \<Rightarrow>
          if actual_cur st = 0 \<and> actual_tar st = 0 then
            set_flag INDICATION_FLAG_ONOFF (upd_elem e (upd_state (\<lambda>st. st\<lparr>onoff_cur := 0\<rparr>)) g)
          else g)"

definition lightness_actual_operation :: "nat \<Rightarrow> E_VALUE_TYPE \<Rightarrow> genie \<Rightarrow> genie" where
  "lightness_actual_operation e type g = bind_onoff_with_lightness e type g"

definition light_ctl_temperature_operation :: "nat \<Rightarrow> E_VALUE_TYPE \<Rightarrow> genie \<Rightarrow> genie" where
  "light_ctl_temperature_operation e type g = bind_onoff_with_ctl e type g"

text \<open>The table of handlers; \<^verbatim>\<open>NULL\<close> entries do nothing.\<close>

definition bind_handler :: "E_BIND_OPERATION_ID \<Rightarrow> (nat \<Rightarrow> E_VALUE_TYPE \<Rightarrow> genie \<Rightarrow> genie) option" where
  "bind_handler i =
     (case i of B_GEN_ONOFF_ID \<Rightarrow> Some gen_onoff_operation | B_LIGHTNESS_ID \<Rightarrow> Some lightness_actual_operation
      | B_LIGHT_CTL_TEMP_ID \<Rightarrow> Some light_ctl_temperature_operation | _ \<Rightarrow> None)"

definition model_bind_operation :: "E_BIND_OPERATION_ID \<Rightarrow> nat \<Rightarrow> E_VALUE_TYPE \<Rightarrow> genie \<Rightarrow> genie" where
  "model_bind_operation i e type g = (case bind_handler i of None \<Rightarrow> g | Some p_func \<Rightarrow> p_func e type g)"

section \<open>Set messages\<close>

text \<open>The optional end of a Set message: transition time and delay.\<close>

definition pull_trans :: "net_buf_simple \<Rightarrow> u8 \<times> u8 \<times> net_buf_simple" where
  "pull_trans buf =
     (if nb_len buf \<noteq> 0 then
        let (tr, buf) = net_buf_simple_pull_u8 buf; (delay, buf) = net_buf_simple_pull_u8 buf in (tr, delay, buf)
      else (0, 0, buf))"

definition gen_onoff_analyze :: "model_ref \<Rightarrow> u16 \<Rightarrow> net_buf_simple \<Rightarrow> genie \<Rightarrow> E_MESH_ERROR_TYPE \<times> net_buf_simple \<times> genie" where
  "gen_onoff_analyze m src_addr buf g =
     (let e = ga_user_data g m in
      if nb_len buf \<noteq> 2 \<and> nb_len buf \<noteq> 4 then (MESH_ANALYZE_SIZE_ERROR, buf, g)
      else
        let (onoff, buf) = net_buf_simple_pull_u8 buf;
            (tid, buf) = net_buf_simple_pull_u8 buf;
            (tr, delay, buf) = pull_trans buf in
        if drop_bit 1 onoff \<noteq> 0 then (MESH_ANALYZE_ARGS_ERROR, buf, g)
        else if tr AND 0x3F = 0x3F then (MESH_SET_TRANSTION_ERROR, buf, g)
        else
          let (ret, g) = mesh_check_tid src_addr tid g in
          if ret \<noteq> MESH_SUCCESS then (MESH_TID_REPEAT, buf, g)
          else
            let g = upd_elem e (upd_state (\<lambda>st. set_trans (ga_now g) tr delay (st\<lparr>onoff_tar := onoff\<rparr>))) g;
                st = el_state (get_elem g e)
            in (MESH_SUCCESS, buf,
                if onoff_cur st \<noteq> onoff_tar st then model_bind_operation B_GEN_ONOFF_ID e T_TAR (set_flag INDICATION_FLAG_ONOFF g) else g))"

definition lightness_analyze :: "model_ref \<Rightarrow> u16 \<Rightarrow> net_buf_simple \<Rightarrow> genie \<Rightarrow> E_MESH_ERROR_TYPE \<times> net_buf_simple \<times> genie" where
  "lightness_analyze m src_addr buf g =
     (let e = ga_user_data g m in
      if nb_len buf \<noteq> 3 \<and> nb_len buf \<noteq> 5 then (MESH_ANALYZE_SIZE_ERROR, buf, g)
      else
        let (lightness, buf) = net_buf_simple_pull_le16 buf;
            (tid, buf) = net_buf_simple_pull_u8 buf;
            (tr, delay, buf) = pull_trans buf in
        if tr AND 0x3F = 0x3F then (MESH_SET_TRANSTION_ERROR, buf, g)
        else
          let (ret, g) = mesh_check_tid src_addr tid g in
          if ret \<noteq> MESH_SUCCESS then (MESH_TID_REPEAT, buf, g)
          else
            let g = upd_elem e (upd_state (\<lambda>st. st\<lparr>actual_tar := lightness\<rparr>)) g;
                g = (if lightness \<noteq> 0 then upd_elem e (upd_powerup (\<lambda>p. p\<lparr>last_actual := lightness\<rparr>)) g else g);
                g = upd_elem e (upd_state (set_trans (ga_now g) tr delay)) g;
                st = el_state (get_elem g e)
            in (MESH_SUCCESS, buf,
                if actual_cur st \<noteq> actual_tar st then model_bind_operation B_LIGHTNESS_ID e T_TAR (set_flag INDICATION_FLAG_LIGHTNESS g) else g))"

text \<open>The lightness and the Delta UV of a CTL message are read and ignored.\<close>

definition ctl_analyze :: "model_ref \<Rightarrow> u16 \<Rightarrow> net_buf_simple \<Rightarrow> genie \<Rightarrow> E_MESH_ERROR_TYPE \<times> net_buf_simple \<times> genie" where
  "ctl_analyze m src_addr buf g =
     (let e = ga_user_data g m in
      if nb_len buf \<noteq> 7 \<and> nb_len buf \<noteq> 9 then (MESH_ANALYZE_SIZE_ERROR, buf, g)
      else
        let (lightness, buf) = net_buf_simple_pull_le16 buf;
            (temp, buf) = net_buf_simple_pull_le16 buf;
            (uv, buf) = net_buf_simple_pull_le16 buf;
            (tid, buf) = net_buf_simple_pull_u8 buf;
            (tr, delay, buf) = pull_trans buf in
        if tr AND 0x3F = 0x3F then (MESH_SET_TRANSTION_ERROR, buf, g)
        else if temp < CTL_TEMP_MIN \<or> temp > CTL_TEMP_MAX then (MESH_ANALYZE_ARGS_ERROR, buf, g)
        else
          let (ret, g) = mesh_check_tid src_addr tid g in
          if ret \<noteq> MESH_SUCCESS then (MESH_TID_REPEAT, buf, g)
          else
            let g = upd_elem e (\<lambda>el. upd_powerup (\<lambda>p. p\<lparr>last_temp := temp\<rparr>) (upd_state (\<lambda>st. st\<lparr>temp_tar := temp\<rparr>) el)) g;
                g = upd_elem e (upd_state (set_trans (ga_now g) tr delay)) g;
                st = el_state (get_elem g e)
            in (MESH_SUCCESS, buf,
                if temp_cur st \<noteq> temp_tar st then model_bind_operation B_LIGHT_CTL_TEMP_ID e T_TAR (set_flag INDICATION_FLAG_CTL g) else g))"

section \<open>Status messages\<close>

definition gen_onoff_prepear_buf :: "nat \<Rightarrow> model_state_t \<Rightarrow> net_buf_simple \<Rightarrow> bool \<Rightarrow> net_buf_simple" where
  "gen_onoff_prepear_buf now st msg is_ack =
     (let remain_byte = get_remain_byte now st is_ack;
          msg = bt_mesh_model_msg_init msg 0x8204
      in if is_ack \<and> remain_byte = 0 then net_buf_simple_add_u8 msg (onoff_tar st)
         else
           let msg = net_buf_simple_add_u8 msg (onoff_cur st)
           in if remain_byte \<noteq> 0 then net_buf_simple_add_u8 (net_buf_simple_add_u8 msg (onoff_tar st)) remain_byte else msg)"

definition lightness_prepare_buf :: "nat \<Rightarrow> model_state_t \<Rightarrow> net_buf_simple \<Rightarrow> bool \<Rightarrow> net_buf_simple" where
  "lightness_prepare_buf now st msg is_ack =
     (let remain_byte = get_remain_byte now st is_ack;
          msg = bt_mesh_model_msg_init msg 0x824E
      in if is_ack \<and> remain_byte = 0 then net_buf_simple_add_le16 msg (actual_tar st)
         else
           let msg = net_buf_simple_add_le16 msg (actual_cur st)
           in if remain_byte \<noteq> 0 then net_buf_simple_add_u8 (net_buf_simple_add_le16 msg (actual_tar st)) remain_byte else msg)"

definition ctl_prepare_buf :: "nat \<Rightarrow> model_state_t \<Rightarrow> net_buf_simple \<Rightarrow> bool \<Rightarrow> net_buf_simple" where
  "ctl_prepare_buf now st msg is_ack =
     (let remain_byte = get_remain_byte now st is_ack;
          msg = bt_mesh_model_msg_init msg 0x8260
      in if is_ack \<and> remain_byte = 0
         then net_buf_simple_add_le16 (net_buf_simple_add_le16 msg (actual_tar st)) (temp_tar st)
         else
           let msg = net_buf_simple_add_le16 (net_buf_simple_add_le16 msg (actual_cur st)) (temp_cur st)
           in if remain_byte \<noteq> 0
              then net_buf_simple_add_u8 (net_buf_simple_add_le16 (net_buf_simple_add_le16 msg (actual_tar st)) (temp_tar st)) remain_byte
              else msg)"

definition model_status ::
  "(nat \<Rightarrow> model_state_t \<Rightarrow> net_buf_simple \<Rightarrow> bool \<Rightarrow> net_buf_simple) \<Rightarrow> nat \<Rightarrow> model_ref \<Rightarrow> bt_mesh_msg_ctx \<Rightarrow> bool \<Rightarrow> genie
   \<Rightarrow> bt_mesh_msg_ctx \<times> genie" where
  "model_status prepare len m ctx is_ack g =
     (let msg = prepare (ga_now g) (el_state (get_elem g (ga_user_data g m))) (NET_BUF_SIMPLE len) is_ack;
          (err, ctx, msg, s) = bt_mesh_model_send m ctx msg Cb_None (ga_mesh g)
      in (ctx, g\<lparr>ga_mesh := s\<rparr>))"

definition gen_onoff_status :: "model_ref \<Rightarrow> bt_mesh_msg_ctx \<Rightarrow> bool \<Rightarrow> genie \<Rightarrow> bt_mesh_msg_ctx \<times> genie" where
  "gen_onoff_status = model_status gen_onoff_prepear_buf (2 + 3 + 4)"

definition lightness_status :: "model_ref \<Rightarrow> bt_mesh_msg_ctx \<Rightarrow> bool \<Rightarrow> genie \<Rightarrow> bt_mesh_msg_ctx \<times> genie" where
  "lightness_status = model_status lightness_prepare_buf (2 + 5 + 4)"

definition ctl_status :: "model_ref \<Rightarrow> bt_mesh_msg_ctx \<Rightarrow> bool \<Rightarrow> genie \<Rightarrow> bt_mesh_msg_ctx \<times> genie" where
  "ctl_status = model_status ctl_prepare_buf (2 + 9 + 4)"

end
