(* ===== verification/Aes_Decrypt.thy ===== *)
theory Aes_Decrypt
  imports Sec_Hal
begin

text \<open>
  AES-128 decryption, \<^verbatim>\<open>tinycrypt/source/aes_decrypt.c\<close>, and its wrappers \<^verbatim>\<open>bt_decrypt_be\<close> and
  \<^verbatim>\<open>bt_mesh_aes_decrypt\<close>. The decryption key schedule is the encryption key schedule. The theorem: decryption
  undoes encryption under every key.
\<close>

section \<open>The inverse cipher\<close>

definition inv_sbox :: bytes where
  "inv_sbox =
  [0x52, 0x09, 0x6a, 0xd5, 0x30, 0x36, 0xa5, 0x38, 0xbf, 0x40, 0xa3, 0x9e,
   0x81, 0xf3, 0xd7, 0xfb, 0x7c, 0xe3, 0x39, 0x82, 0x9b, 0x2f, 0xff, 0x87,
   0x34, 0x8e, 0x43, 0x44, 0xc4, 0xde, 0xe9, 0xcb, 0x54, 0x7b, 0x94, 0x32,
   0xa6, 0xc2, 0x23, 0x3d, 0xee, 0x4c, 0x95, 0x0b, 0x42, 0xfa, 0xc3, 0x4e,
   0x08, 0x2e, 0xa1, 0x66, 0x28, 0xd9, 0x24, 0xb2, 0x76, 0x5b, 0xa2, 0x49,
   0x6d, 0x8b, 0xd1, 0x25, 0x72, 0xf8, 0xf6, 0x64, 0x86, 0x68, 0x98, 0x16,
   0xd4, 0xa4, 0x5c, 0xcc, 0x5d, 0x65, 0xb6, 0x92, 0x6c, 0x70, 0x48, 0x50,
   0xfd, 0xed, 0xb9, 0xda, 0x5e, 0x15, 0x46, 0x57, 0xa7, 0x8d, 0x9d, 0x84,
   0x90, 0xd8, 0xab, 0x00, 0x8c, 0xbc, 0xd3, 0x0a, 0xf7, 0xe4, 0x58, 0x05,
   0xb8, 0xb3, 0x45, 0x06, 0xd0, 0x2c, 0x1e, 0x8f, 0xca, 0x3f, 0x0f, 0x02,
   0xc1, 0xaf, 0xbd, 0x03, 0x01, 0x13, 0x8a, 0x6b, 0x3a, 0x91, 0x11, 0x41,
   0x4f, 0x67, 0xdc, 0xea, 0x97, 0xf2, 0xcf, 0xce, 0xf0, 0xb4, 0xe6, 0x73,
   0x96, 0xac, 0x74, 0x22, 0xe7, 0xad, 0x35, 0x85, 0xe2, 0xf9, 0x37, 0xe8,
   0x1c, 0x75, 0xdf, 0x6e, 0x47, 0xf1, 0x1a, 0x71, 0x1d, 0x29, 0xc5, 0x89,
   0x6f, 0xb7, 0x62, 0x0e, 0xaa, 0x18, 0xbe, 0x1b, 0xfc, 0x56, 0x3e, 0x4b,
   0xc6, 0xd2, 0x79, 0x20, 0x9a, 0xdb, 0xc0, 0xfe, 0x78, 0xcd, 0x5a, 0xf4,
   0x1f, 0xdd, 0xa8, 0x33, 0x88, 0x07, 0xc7, 0x31, 0xb1, 0x12, 0x10, 0x59,
   0x27, 0x80, 0xec, 0x5f, 0x60, 0x51, 0x7f, 0xa9, 0x19, 0xb5, 0x4a, 0x0d,
   0x2d, 0xe5, 0x7a, 0x9f, 0x93, 0xc9, 0x9c, 0xef, 0xa0, 0xe0, 0x3b, 0x4d,
   0xae, 0x2a, 0xf5, 0xb0, 0xc8, 0xeb, 0xbb, 0x3c, 0x83, 0x53, 0x99, 0x61,
   0x17, 0x2b, 0x04, 0x7e, 0xba, 0x77, 0xd6, 0x26, 0xe1, 0x69, 0x14, 0x63,
   0x55, 0x21, 0x0c, 0x7d]"

definition tc_aes128_set_decrypt_key :: "bytes \<Rightarrow> u32 list" where
  "tc_aes128_set_decrypt_key k = tc_aes128_set_encrypt_key k"

definition mult8 :: "u8 \<Rightarrow> u8" where "mult8 a = double_byte (double_byte (double_byte a))"
definition mult9 :: "u8 \<Rightarrow> u8" where "mult9 a = mult8 a XOR a"
definition multb :: "u8 \<Rightarrow> u8" where "multb a = mult8 a XOR double_byte a XOR a"
definition multd :: "u8 \<Rightarrow> u8" where "multd a = mult8 a XOR double_byte (double_byte a) XOR a"
definition multe :: "u8 \<Rightarrow> u8" where "multe a = mult8 a XOR double_byte (double_byte a) XOR double_byte a"

definition inv_mult_row_column :: "bytes \<Rightarrow> bytes" where
  "inv_mult_row_column i =
     [multe (i ! 0) XOR multb (i ! 1) XOR multd (i ! 2) XOR mult9 (i ! 3),
      mult9 (i ! 0) XOR multe (i ! 1) XOR multb (i ! 2) XOR multd (i ! 3),
      multd (i ! 0) XOR mult9 (i ! 1) XOR multe (i ! 2) XOR multb (i ! 3),
      multb (i ! 0) XOR multd (i ! 1) XOR mult9 (i ! 2) XOR multe (i ! 3)]"

definition inv_mix_columns :: "bytes \<Rightarrow> bytes" where
  "inv_mix_columns s = inv_mult_row_column s @ inv_mult_row_column (drop 4 s)
     @ inv_mult_row_column (drop 8 s) @ inv_mult_row_column (drop 12 s)"

definition inv_sub_bytes :: "bytes \<Rightarrow> bytes" where
  "inv_sub_bytes s = map (\<lambda>b. inv_sbox ! unat b) s"

definition inv_shift_rows :: "bytes \<Rightarrow> bytes" where
  "inv_shift_rows s = map (\<lambda>i. s ! i) [0, 13, 10, 7, 4, 1, 14, 11, 8, 5, 2, 15, 12, 9, 6, 3]"

definition inv_aes_round :: "u32 list \<Rightarrow> nat \<Rightarrow> bytes \<Rightarrow> bytes" where
  "inv_aes_round words i s = inv_mix_columns (add_round_key (inv_sub_bytes (inv_shift_rows s)) (drop (4 * i) words))"

definition tc_aes_decrypt :: "bytes \<Rightarrow> u32 list \<Rightarrow> bytes" where
  "tc_aes_decrypt inp words =
     (let s = fold (inv_aes_round words) (rev [1..<10]) (add_round_key inp (drop 40 words))
      in add_round_key (inv_sub_bytes (inv_shift_rows s)) words)"

definition bt_decrypt_be :: "bytes \<Rightarrow> bytes \<Rightarrow> errno + bytes" where
  "bt_decrypt_be key enc_data = Inr (tc_aes_decrypt enc_data (tc_aes128_set_decrypt_key key))"

definition bt_mesh_aes_decrypt :: "bytes \<Rightarrow> bytes \<Rightarrow> errno + bytes" where
  "bt_mesh_aes_decrypt key enc_data = bt_decrypt_be key enc_data"

section \<open>Every step is undone\<close>

lemma sbox_check: "list_all (\<lambda>i. inv_sbox ! unat (sbox ! i) = word_of_nat i) [0..<256]"
  by code_simp

lemma inv_sbox_sbox: "inv_sbox ! unat (sbox ! unat b) = b" for b :: u8
proof -
  have "unat b \<in> set [0..<256]" using unsigned_less [of b, where 'a = nat] by simp
  then show ?thesis using sbox_check by (auto simp: list_all_iff)
qed

lemma double_byte_xor: "double_byte (a XOR b) = double_byte a XOR double_byte b"
proof -
  have d: "double_byte x = push_bit 1 x XOR (if bit x 7 then 0x1b else 0)" for x
  proof -
    have "drop_bit 7 x = (if bit x 7 then 1 else 0)"
    proof (rule bit_word_eqI)
      fix n
      show "bit (drop_bit 7 x) n \<longleftrightarrow> bit (if bit x 7 then 1 else 0 :: u8) n"
        using bit_imp_le_length [of x "7 + n"] by (cases "n = 0") (auto simp: bit_simps)
    qed
    then show ?thesis by (simp add: double_byte_def)
  qed
  show ?thesis by (simp add: d bit_simps xor.assoc xor.left_commute xor.commute)
qed

lemma sixteen:
  assumes "length s = 16"
  obtains a b c d e f g h i j k l m n p q where "s = [a, b, c, d, e, f, g, h, i, j, k, l, m, n, p, q]"
proof -
  have "s = map (\<lambda>i. s ! i) [0..<16]" using assms by (metis map_nth)
  also have "[0..<16] = [0, 1, 2, 3, 4, 5, 6, 7, 8, 9, 10, 11, 12, 13, 14, 15]" by (simp add: upt_rec numeral_eq_Suc)
  finally show ?thesis using that by simp
qed

lemma xor_self_left: "(a :: u8) XOR (a XOR b) = b"
  by (simp add: xor.assoc [symmetric])

lemma column_inverse: "inv_mult_row_column (mult_row_column (a # b # c # d # xs) @ ys) = [a, b, c, d]"
  by (simp add: inv_mult_row_column_def mult_row_column_def multe_def multb_def multd_def mult9_def mult8_def triple_def double_byte_xor
      xor.assoc xor.left_commute xor.commute xor_self_left)

lemma inv_mix_mix: "length s = 16 \<Longrightarrow> inv_mix_columns (mix_columns s) = s"
proof (erule sixteen)
  fix a b c d e f g h i j k l m n p q
  assume s: "s = [a, b, c, d, e, f, g, h, i, j, k, l, m, n, p, q]"
  have len: "length (mult_row_column xs) = 4" for xs by (simp add: mult_row_column_def)
  show "inv_mix_columns (mix_columns s) = s"
    using column_inverse [of _ _ _ _ _ "[]"]
    by (simp add: inv_mix_columns_def mix_columns_def s column_inverse len numeral_eq_Suc)
qed

lemma inv_shift_shift: "length s = 16 \<Longrightarrow> inv_shift_rows (shift_rows s) = s"
  by (erule sixteen) (simp add: inv_shift_rows_def shift_rows_def)

lemma inv_sub_sub: "inv_sub_bytes (sub_bytes s) = s"
  by (simp add: inv_sub_bytes_def sub_bytes_def inv_sbox_sbox comp_def)

lemma length_sub_bytes [simp]: "length (sub_bytes s) = length s"
  by (simp add: sub_bytes_def)

lemma shift_sub: "length s = 16 \<Longrightarrow> shift_rows (sub_bytes s) = sub_bytes (shift_rows s)"
  by (erule sixteen) (simp add: shift_rows_def sub_bytes_def)

lemma inv_shift_sub: "length s = 16 \<Longrightarrow> inv_sub_bytes (inv_shift_rows (shift_rows (sub_bytes s))) = s"
  by (simp add: inv_shift_shift inv_sub_sub)

lemma round_key_twice: "length s = 16 \<Longrightarrow> 4 \<le> length k \<Longrightarrow> add_round_key (add_round_key s k) k = s"
  by (simp add: add_round_key_def xor_bytes_twice length_round_words)

lemma length_aes_round [simp]: "length words = 44 \<Longrightarrow> i < 10 \<Longrightarrow> length (aes_round words i s) = 16"
  by (simp add: aes_round_def)

lemma length_rounds: "length words = 44 \<Longrightarrow> length s = 16 \<Longrightarrow> n \<le> 10 \<Longrightarrow> length (fold (aes_round words) [0..<n] s) = 16"
  by (induction n) simp_all

lemma rounds_undone:
  assumes "length words = 44" "length s = 16" "n \<le> 9"
  shows "fold (inv_aes_round words) (rev [1..<n + 1]) (shift_rows (sub_bytes (fold (aes_round words) [0..<n] s))) = shift_rows (sub_bytes s)"
  using assms(3)
proof (induction n)
  case (Suc n)
  let ?t = "fold (aes_round words) [0..<n] s"
  have t: "length ?t = 16" using length_rounds assms(1,2) Suc.prems by simp
  have "inv_aes_round words (Suc n) (shift_rows (sub_bytes (aes_round words n ?t))) = shift_rows (sub_bytes ?t)"
    using assms(1) Suc.prems t by (simp add: inv_aes_round_def inv_shift_sub) (simp add: aes_round_def round_key_twice inv_mix_mix)
  then show ?case using Suc by simp
qed simp

text \<open>On the level of blocks and key schedules.\<close>

lemma tc_decrypt_encrypt:
  assumes "length b = 16"
  shows "tc_aes_decrypt (tc_aes_encrypt b (tc_aes128_set_encrypt_key key)) (tc_aes128_set_encrypt_key key) = b"
proof -
  let ?w = "tc_aes128_set_encrypt_key key"
  let ?s = "fold (aes_round ?w) [0..<9] (add_round_key b ?w)"
  have s: "length ?s = 16" using assms by (intro length_rounds) simp_all
  have c: "tc_aes_encrypt b ?w = add_round_key (shift_rows (sub_bytes ?s)) (drop 40 ?w)" by (simp add: tc_aes_encrypt_def Let_def)
  have "add_round_key (tc_aes_encrypt b ?w) (drop 40 ?w) = shift_rows (sub_bytes ?s)" by (simp add: c round_key_twice)
  moreover have "fold (inv_aes_round ?w) (rev [1..<10]) (shift_rows (sub_bytes ?s)) = shift_rows (sub_bytes (add_round_key b ?w))"
    using rounds_undone [of ?w "add_round_key b ?w" 9] assms by simp
  ultimately show ?thesis using assms by (simp add: tc_aes_decrypt_def inv_shift_sub round_key_twice)
qed

text \<open>
  C17. Decryption undoes encryption. For every key and every block of 16 bytes, decrypting what
  \<^verbatim>\<open>bt_mesh_aes_encrypt\<close> produced gives the block back.
\<close>

theorem aes_decrypt_encrypt:
  assumes "length plaintext = 16" "bt_mesh_aes_encrypt key plaintext = Inr c"
  shows "bt_mesh_aes_decrypt key c = Inr plaintext"
  using assms tc_decrypt_encrypt [OF assms(1), of key]
  by (auto simp: bt_mesh_aes_encrypt_def bt_encrypt_be_def bt_mesh_aes_decrypt_def bt_decrypt_be_def tc_aes128_set_decrypt_key_def)

theorem aes_decrypt_encrypt_witness:
  "\<exists>c. bt_mesh_aes_encrypt (replicate 16 7) (replicate 16 1) = Inr c \<and> bt_mesh_aes_decrypt (replicate 16 7) c = Inr (replicate 16 1)"
  using aes_decrypt_encrypt [of "replicate 16 1" "replicate 16 7" "tc_aes_encrypt (replicate 16 1) (tc_aes128_set_encrypt_key (replicate 16 7))"]
  by (simp add: bt_mesh_aes_encrypt_def bt_encrypt_be_def)

end
