(* ===== verification/Genie_Flash.thy ===== *)
theory Genie_Flash
  imports Aes_Decrypt Byteorder
begin

text \<open>
  The flash store of the application layer, \<^verbatim>\<open>genie_app/base/genie_flash.c\<close>, in the build for boards
  other than TG7100B and CH6121: a log of cells in the system and the user data partition with a recycle partition for
  garbage collection, and the sequence number as a base and a count of cleared bits. Below it lies the flash driver
  (\<^verbatim>\<open>platform/mcu/nrf52xxx/hal/flash.c\<close>) over a memory that can only clear bits until it is erased.
\<close>

section \<open>The flash driver\<close>

datatype hal_partition_t = PART_SYSTEM | PART_USERDATA | PART_RECYCLE | PART_SEQ

datatype E_GENIE_FLASH_ERRCODE = GENIE_FLASH_SUCCESS | GENIE_FLASH_INIT_FAIL | GENIE_FLASH_MALLOC_FAIL | GENIE_FLASH_EARSE_FAIL
  | GENIE_FLASH_DATA_ORIGIN | GENIE_FLASH_DATA_INVALID | GENIE_FLASH_SEARCH_NONE | GENIE_FLASH_RECYCLE_FAIL | GENIE_FLASH_ERASE_FAIL
  | GENIE_FLASH_READ_FAIL | GENIE_FLASH_WRITE_FAIL | GENIE_FLASH_DELETE_FAIL | GENIE_FLASH_INVALID_INDEX | GENIE_FLASH_SIZE_ERROR
  | GENIE_FLASH_CHECK_CRC_FAIL

record genie_flash_info_t =
  gi_remain :: u16
  gi_free_offset :: nat

text \<open>
  The memory of each partition and the variables of \<^verbatim>\<open>genie_flash.c\<close>. \<open>fl_oom\<close> says that the heap is exhausted, \<open>fl_fault\<close>
  that uninitialised memory was used. \<open>fl_project_key\<close> is the build constant \<^verbatim>\<open>PROJECT_SECRET_KEY\<close> as the bytes it denotes, if
  it is defined, and \<open>fl_custom_2\<close> the partition from which the store only reads a random number.
\<close>

record flash =
  fl_mem :: "hal_partition_t \<Rightarrow> bytes"
  fl_info_system :: genie_flash_info_t
  fl_info_userdata :: genie_flash_info_t
  fl_info_recycle :: genie_flash_info_t
  fl_enc_key :: bytes
  fl_project_key :: "bytes option"
  fl_custom_2 :: bytes
  fl_inited :: bool
  fl_oom :: bool
  fl_fault :: bool

definition FLASH_PAGE :: nat where "FLASH_PAGE = 4096"

definition hal_flash_read :: "hal_partition_t \<Rightarrow> nat \<Rightarrow> nat \<Rightarrow> flash \<Rightarrow> bytes option" where
  "hal_flash_read pno off n fl =
     (if off + n > length (fl_mem fl pno) then None else Some (take n (drop off (fl_mem fl pno))))"

text \<open>Writing and erasing report success. Writing clears bits. The fill bytes \<^verbatim>\<open>0xff\<close> up to word boundaries change nothing.\<close>

definition and_bytes :: "bytes \<Rightarrow> bytes \<Rightarrow> bytes" where
  "and_bytes xs ys = map2 (AND) xs ys"

definition upd_mem :: "hal_partition_t \<Rightarrow> (bytes \<Rightarrow> bytes) \<Rightarrow> flash \<Rightarrow> flash" where
  "upd_mem pno f fl = fl\<lparr>fl_mem := (fl_mem fl)(pno := f (fl_mem fl pno))\<rparr>"

definition hal_flash_write :: "hal_partition_t \<Rightarrow> nat \<Rightarrow> bytes \<Rightarrow> flash \<Rightarrow> bool \<times> flash" where
  "hal_flash_write pno off buf fl =
     (if off + length buf > length (fl_mem fl pno) then (False, fl)
      else (True, upd_mem pno (\<lambda>m. put_bytes m off (and_bytes (take (length buf) (drop off m)) buf)) fl))"

text \<open>All pages that the range touches are erased.\<close>

definition hal_flash_erase :: "hal_partition_t \<Rightarrow> nat \<Rightarrow> nat \<Rightarrow> flash \<Rightarrow> bool \<times> flash" where
  "hal_flash_erase pno off sz fl =
     (if sz + off > length (fl_mem fl pno) then (False, fl)
      else (True, upd_mem pno (\<lambda>m. map (\<lambda>i. if off div FLASH_PAGE \<le> i div FLASH_PAGE \<and> i div FLASH_PAGE \<le> (off + sz - 1) div FLASH_PAGE
                                           then 0xFF else m ! i) [0..<length m]) fl))"

section \<open>Constants\<close>

definition GENIE_FLASH_SIZE_SYSTEM_PART :: nat where "GENIE_FLASH_SIZE_SYSTEM_PART = 0x1000"
definition GENIE_FLASH_SIZE_INITED_FLAG :: nat where "GENIE_FLASH_SIZE_INITED_FLAG = 4"
definition GENIE_FLASH_SIZE_RELIABLE :: nat where "GENIE_FLASH_SIZE_RELIABLE = 4092"
definition GENIE_FLASH_SIZE_SEQ_PART :: nat where "GENIE_FLASH_SIZE_SEQ_PART = 0x1000"
definition GENIE_FLASH_START_SEQ_BASE :: nat where "GENIE_FLASH_START_SEQ_BASE = 0"
definition GENIE_FLASH_START_SEQ_COUNT :: nat where "GENIE_FLASH_START_SEQ_COUNT = 4"
definition GENIE_FLASH_SIZE_SEQ :: nat where "GENIE_FLASH_SIZE_SEQ = 4092"
definition GENIE_FLASH_SIZE_USERDATA_PART :: nat where "GENIE_FLASH_SIZE_USERDATA_PART = 0x1000"
definition GENIE_FLASH_SIZE_USERDATA :: nat where "GENIE_FLASH_SIZE_USERDATA = 4092"
definition GENIE_FLASH_START_RECYCLE :: nat where "GENIE_FLASH_START_RECYCLE = 0"
definition GENIE_FLASH_SIZE_RECYCLE :: nat where "GENIE_FLASH_SIZE_RECYCLE = 0x1000"
definition GENIE_FLASH_FLAG_INITED_BASE :: u32 where "GENIE_FLASH_FLAG_INITED_BASE = 0xA5A500A8"
definition GENIE_FLASH_FLAG_INITED_INVALID :: u32 where "GENIE_FLASH_FLAG_INITED_INVALID = 0xAFAFFFA8"
definition GENIE_FLASH_FLAG_INITED_ORIGIN :: u32 where "GENIE_FLASH_FLAG_INITED_ORIGIN = 0xFFFFFFFF"
definition GENIE_FLASH_FLAG_INITED_SYS :: u32 where "GENIE_FLASH_FLAG_INITED_SYS = 0xA5A501A8"
definition GENIE_FLASH_FLAG_INITED_UD :: u32 where "GENIE_FLASH_FLAG_INITED_UD = 0xA5A502A8"
definition GENIE_FLASH_FLAG_INITED_SEQ :: u32 where "GENIE_FLASH_FLAG_INITED_SEQ = 0xA5A503A8"
definition GENIE_FLASH_FLAG_UNSED :: u8 where "GENIE_FLASH_FLAG_UNSED = 0xFF"
definition GENIE_FLASH_FLAG_WRITING :: u8 where "GENIE_FLASH_FLAG_WRITING = 0x03"
definition GENIE_FLASH_FLAG_ACTIVE :: u8 where "GENIE_FLASH_FLAG_ACTIVE = 0x01"
definition GENIE_FLASH_FLAG_INVALID :: u8 where "GENIE_FLASH_FLAG_INVALID = 0x00"

section \<open>Cells\<close>

record flash_header_t =
  fh_flag :: u8
  fh_align :: u8
  fh_index :: u16
  fh_length :: u16
  fh_crc :: u16

record genie_flash_cell_t =
  fc_index :: u16
  fc_pno :: hal_partition_t
  fc_offset :: nat
  fc_end :: nat
  fc_header :: flash_header_t

definition put_header :: "flash_header_t \<Rightarrow> bytes" where
  "put_header h = [fh_flag h, fh_align h] @ sys_put_le16 (fh_index h) @ sys_put_le16 (fh_length h) @ sys_put_le16 (fh_crc h)"

definition get_header :: "bytes \<Rightarrow> flash_header_t" where
  "get_header b = \<lparr>fh_flag = b ! 0, fh_align = b ! 1, fh_index = sys_get_le16 (take 2 (drop 2 b)),
     fh_length = sys_get_le16 (take 2 (drop 4 b)), fh_crc = sys_get_le16 (take 2 (drop 6 b))\<rparr>"

definition cell_size :: "flash_header_t \<Rightarrow> nat" where
  "cell_size h = 8 + unat (fh_length h) + unat (fh_align h)"

definition CELL_PREPEAR :: "u16 \<Rightarrow> hal_partition_t \<Rightarrow> nat \<Rightarrow> nat \<Rightarrow> genie_flash_cell_t" where
  "CELL_PREPEAR i pn start sz = \<lparr>fc_index = i, fc_pno = pn, fc_offset = start, fc_end = start + sz,
     fc_header = \<lparr>fh_flag = 0, fh_align = 0, fh_index = 0, fh_length = 0, fh_crc = 0\<rparr>\<rparr>"

definition CELL_PREPEAR_RELIABLE :: "u16 \<Rightarrow> genie_flash_cell_t" where
  "CELL_PREPEAR_RELIABLE i = CELL_PREPEAR i PART_SYSTEM GENIE_FLASH_SIZE_INITED_FLAG GENIE_FLASH_SIZE_RELIABLE"

definition CELL_PREPEAR_USERDATA :: "u16 \<Rightarrow> genie_flash_cell_t" where
  "CELL_PREPEAR_USERDATA i = CELL_PREPEAR i PART_USERDATA GENIE_FLASH_SIZE_INITED_FLAG GENIE_FLASH_SIZE_USERDATA"

definition CELL_PREPEAR_RECYCLE :: genie_flash_cell_t where
  "CELL_PREPEAR_RECYCLE = CELL_PREPEAR 0 PART_RECYCLE GENIE_FLASH_START_RECYCLE GENIE_FLASH_SIZE_RECYCLE"

fun crc16_loop :: "bytes \<Rightarrow> u16 \<Rightarrow> u16" where
  "crc16_loop [] crc = crc"
| "crc16_loop (b # bs) crc =
     (let crc = drop_bit 8 crc OR push_bit 8 crc;
          crc = crc XOR ucast b;
          crc = crc XOR drop_bit 4 (crc AND 0xFF);
          crc = crc XOR push_bit 4 (push_bit 8 crc);
          crc = crc XOR push_bit 1 (push_bit 4 (crc AND 0xFF))
      in crc16_loop bs crc)"

definition util_crc16_compute :: "bytes \<Rightarrow> u16" where
  "util_crc16_compute data = crc16_loop data 0xFFFF"

definition genie_flash_get_header :: "genie_flash_cell_t \<Rightarrow> flash \<Rightarrow> E_GENIE_FLASH_ERRCODE \<times> genie_flash_cell_t" where
  "genie_flash_get_header cell fl =
     (if fc_offset cell < fc_end cell then
        case hal_flash_read (fc_pno cell) (fc_offset cell) 8 fl of
          None \<Rightarrow> (GENIE_FLASH_READ_FAIL, cell)
        | Some b \<Rightarrow>
            let cell = cell\<lparr>fc_header := get_header b\<rparr> in
            if fh_flag (fc_header cell) \<noteq> GENIE_FLASH_FLAG_UNSED then (GENIE_FLASH_SUCCESS, cell) else (GENIE_FLASH_SEARCH_NONE, cell)
      else (GENIE_FLASH_SEARCH_NONE, cell))"

definition next_cell :: "genie_flash_cell_t \<Rightarrow> genie_flash_cell_t" where
  "next_cell cell = cell\<lparr>fc_offset := fc_offset cell + cell_size (fc_header cell)\<rparr>"

lemma get_header_step:
  "genie_flash_get_header cell fl = (ret, cell') \<Longrightarrow>
    fc_offset cell' = fc_offset cell \<and> fc_end cell' = fc_end cell \<and> fc_pno cell' = fc_pno cell \<and> fc_index cell' = fc_index cell \<and>
    (ret = GENIE_FLASH_SUCCESS \<longrightarrow> fc_offset cell < fc_end cell)"
  by (auto simp: genie_flash_get_header_def Let_def split: if_splits option.splits)

function genie_flash_search :: "genie_flash_cell_t \<Rightarrow> flash \<Rightarrow> E_GENIE_FLASH_ERRCODE \<times> genie_flash_cell_t" where
  "genie_flash_search cell fl =
     (let (ret, cell) = genie_flash_get_header cell fl in
      if fh_flag (fc_header cell) = GENIE_FLASH_FLAG_ACTIVE \<and> fh_index (fc_header cell) = fc_index cell then (GENIE_FLASH_SUCCESS, cell)
      else if ret = GENIE_FLASH_SUCCESS then genie_flash_search (next_cell cell) fl
      else (ret, next_cell cell))"
  by pat_completeness auto
termination
  by (relation "measure (\<lambda>(cell, fl). fc_end cell - fc_offset cell)")
    (auto simp: next_cell_def cell_size_def dest!: get_header_step [OF sym])

declare genie_flash_search.simps [simp del]

section \<open>Partitions\<close>

text \<open>The loop of \<^verbatim>\<open>_genie_flash_check_remain\<close>, once per partition.\<close>

function remain_loop :: "genie_flash_cell_t \<Rightarrow> flash \<Rightarrow> u16 \<Rightarrow> u16 \<times> nat" where
  "remain_loop cell fl remain =
     (let (ret, cell) = genie_flash_get_header cell fl in
      if ret = GENIE_FLASH_SUCCESS then
        remain_loop (next_cell cell) fl
          (if fh_flag (fc_header cell) = GENIE_FLASH_FLAG_ACTIVE then remain - of_nat (cell_size (fc_header cell)) else remain)
      else (remain, fc_offset cell))"
  by pat_completeness auto
termination
  by (relation "measure (\<lambda>(cell, fl, remain). fc_end cell - fc_offset cell)")
    (auto simp: next_cell_def cell_size_def dest!: get_header_step [OF sym])

declare remain_loop.simps [simp del]

definition check_info :: "genie_flash_cell_t \<Rightarrow> nat \<Rightarrow> flash \<Rightarrow> genie_flash_info_t \<Rightarrow> genie_flash_info_t" where
  "check_info cell sz fl info =
     (let (remain, off) = remain_loop cell fl (of_nat sz);
          info = info\<lparr>gi_remain := (if unat remain > sz then 0 else remain)\<rparr>
      in if off \<le> sz then info\<lparr>gi_free_offset := off\<rparr> else info)"

definition genie_flash_check_remain :: "flash \<Rightarrow> flash" where
  "genie_flash_check_remain fl =
     (let fl = fl\<lparr>fl_info_system := check_info (CELL_PREPEAR_RELIABLE 0) GENIE_FLASH_SIZE_RELIABLE fl (fl_info_system fl)\<rparr>;
          fl = fl\<lparr>fl_info_userdata := check_info (CELL_PREPEAR_USERDATA 0) GENIE_FLASH_SIZE_USERDATA fl (fl_info_userdata fl)\<rparr>
      in fl\<lparr>fl_info_recycle := \<lparr>gi_remain = of_nat GENIE_FLASH_SIZE_RECYCLE, gi_free_offset = GENIE_FLASH_START_RECYCLE\<rparr>\<rparr>)"

definition genie_flash_init_partition :: "hal_partition_t \<Rightarrow> nat \<Rightarrow> flash \<Rightarrow> E_GENIE_FLASH_ERRCODE \<times> flash" where
  "genie_flash_init_partition pno part_size fl =
     (let start = (\<lambda>flag fl.
            let (ok, fl) = hal_flash_erase pno 0 part_size fl in
            if \<not> ok then (GENIE_FLASH_EARSE_FAIL, fl)
            else let (ok, fl) = hal_flash_write pno 0 (sys_put_le32 flag) fl
              in (if ok then GENIE_FLASH_SUCCESS else GENIE_FLASH_WRITE_FAIL, fl))
      in case pno of
           PART_SYSTEM \<Rightarrow> start GENIE_FLASH_FLAG_INITED_SYS
             (fl\<lparr>fl_info_system := \<lparr>gi_remain = of_nat GENIE_FLASH_SIZE_RELIABLE, gi_free_offset = GENIE_FLASH_SIZE_INITED_FLAG\<rparr>\<rparr>)
         | PART_USERDATA \<Rightarrow> start GENIE_FLASH_FLAG_INITED_UD
             (fl\<lparr>fl_info_userdata := \<lparr>gi_remain = of_nat GENIE_FLASH_SIZE_USERDATA, gi_free_offset = GENIE_FLASH_SIZE_INITED_FLAG\<rparr>\<rparr>)
         | PART_RECYCLE \<Rightarrow> start GENIE_FLASH_FLAG_INITED_INVALID
             (fl\<lparr>fl_info_recycle := \<lparr>gi_remain = of_nat GENIE_FLASH_SIZE_RECYCLE, gi_free_offset = GENIE_FLASH_START_RECYCLE\<rparr>\<rparr>)
         | PART_SEQ \<Rightarrow> (let (ok, fl) = hal_flash_erase pno 0 part_size fl
             in (if ok then GENIE_FLASH_SUCCESS else GENIE_FLASH_EARSE_FAIL, fl)))"

definition genie_flash_checkflag :: "hal_partition_t \<Rightarrow> flash \<Rightarrow> E_GENIE_FLASH_ERRCODE" where
  "genie_flash_checkflag pno fl =
     (case hal_flash_read pno 0 4 fl of
        None \<Rightarrow> GENIE_FLASH_READ_FAIL
      | Some b \<Rightarrow>
          let flash_flag = sys_get_le32 b in
          if flash_flag = GENIE_FLASH_FLAG_INITED_ORIGIN then GENIE_FLASH_DATA_ORIGIN
          else if pno = PART_SYSTEM \<and> flash_flag \<noteq> GENIE_FLASH_FLAG_INITED_SYS \<or>
                  pno = PART_USERDATA \<and> flash_flag \<noteq> GENIE_FLASH_FLAG_INITED_UD \<or>
                  pno = PART_SEQ \<and> flash_flag \<noteq> GENIE_FLASH_FLAG_INITED_SEQ then GENIE_FLASH_DATA_INVALID
          else GENIE_FLASH_SUCCESS)"

section \<open>Reading a cell\<close>

definition genie_flash_read :: "genie_flash_cell_t \<Rightarrow> nat \<Rightarrow> flash \<Rightarrow> E_GENIE_FLASH_ERRCODE \<times> bytes" where
  "genie_flash_read cell sz fl =
     (let (ret, cell) = genie_flash_search cell fl in
      if ret \<noteq> GENIE_FLASH_SUCCESS then (ret, [])
      else
        let len = unat (fh_length (fc_header cell)); sz = (if len < sz \<or> sz = 0 then len else sz) in
        case hal_flash_read (fc_pno cell) (fc_offset cell + 8) sz fl of
          None \<Rightarrow> (GENIE_FLASH_READ_FAIL, [])
        | Some b \<Rightarrow> (if util_crc16_compute b = fh_crc (fc_header cell) then GENIE_FLASH_SUCCESS else GENIE_FLASH_CHECK_CRC_FAIL, b))"

section \<open>Copying a partition\<close>

definition align_count :: "nat \<Rightarrow> u8" where
  "align_count n = (if n mod 4 \<noteq> 0 then of_nat (4 - n mod 4) else 0)"

definition new_header :: "u8 \<Rightarrow> u16 \<Rightarrow> bytes \<Rightarrow> flash_header_t" where
  "new_header flag i buff = \<lparr>fh_flag = flag, fh_align = align_count (length buff), fh_index = i, fh_length = of_nat (length buff),
     fh_crc = util_crc16_compute buff\<rparr>"

text \<open>The new data go to the recycle partition before the old data.\<close>

definition copy_new :: "u16 \<Rightarrow> bytes \<Rightarrow> genie_flash_cell_t \<Rightarrow> flash \<Rightarrow> bool \<times> genie_flash_cell_t \<times> flash" where
  "copy_new i buff dst fl =
     (let h = new_header GENIE_FLASH_FLAG_ACTIVE i buff;
          (ok, fl) = hal_flash_write (fc_pno dst) (fc_offset dst) (put_header h) fl
      in if \<not> ok then (False, dst, fl)
      else let (ok, fl) = hal_flash_write (fc_pno dst) (fc_offset dst + 8) buff fl
        in (ok, dst\<lparr>fc_offset := fc_offset dst + cell_size h\<rparr>, fl))"

text \<open>
  The old data. The code ignores a failing read of the data and writes an uninitialised buffer; the model
  records it as a fault and stops.
\<close>

function copy_loop :: "genie_flash_cell_t \<Rightarrow> genie_flash_cell_t \<Rightarrow> flash \<Rightarrow> E_GENIE_FLASH_ERRCODE \<times> flash" where
  "copy_loop src dst fl =
     (let (ret, src) = genie_flash_get_header src fl; h = fc_header src in
      if ret = GENIE_FLASH_SUCCESS then
        if fh_flag h = GENIE_FLASH_FLAG_ACTIVE \<and> fc_index src \<noteq> fh_index h then
          let (ok, fl) = hal_flash_write (fc_pno dst) (fc_offset dst) (put_header h) fl in
          if \<not> ok then (GENIE_FLASH_WRITE_FAIL, fl)
          else if fl_oom fl then (GENIE_FLASH_DATA_INVALID, fl)
          else case hal_flash_read (fc_pno src) (fc_offset src + 8) (unat (fh_length h)) fl of
              None \<Rightarrow> (GENIE_FLASH_READ_FAIL, fl\<lparr>fl_fault := True\<rparr>)
            | Some data \<Rightarrow>
                let (ok, fl) = hal_flash_write (fc_pno dst) (fc_offset dst + 8) data fl in
                if \<not> ok then (GENIE_FLASH_WRITE_FAIL, fl)
                else copy_loop (next_cell src) (dst\<lparr>fc_offset := fc_offset dst + cell_size h\<rparr>) fl
        else copy_loop (next_cell src) dst fl
      else (GENIE_FLASH_SUCCESS, fl))"
  by pat_completeness auto
termination
  by (relation "measure (\<lambda>(src, dst, fl). fc_end src - fc_offset src)")
    (auto simp: next_cell_def cell_size_def dest!: get_header_step [OF sym])

declare copy_loop.simps [simp del]

text \<open>The last step of copying: the recycle partition gets the flag of its source, or is marked as done.\<close>

definition copy_flag :: "hal_partition_t \<Rightarrow> hal_partition_t \<Rightarrow> flash \<Rightarrow> E_GENIE_FLASH_ERRCODE \<times> flash" where
  "copy_flag src dst fl =
     (let (ret, fl) =
            (if dst = PART_RECYCLE then
               case hal_flash_read src 0 4 fl of
                 None \<Rightarrow> (GENIE_FLASH_READ_FAIL, fl)
               | Some part_flag \<Rightarrow> let (ok, fl) = hal_flash_write dst 0 part_flag fl in (if ok then GENIE_FLASH_SUCCESS else GENIE_FLASH_WRITE_FAIL, fl)
             else (GENIE_FLASH_SUCCESS, fl))
      in if ret \<noteq> GENIE_FLASH_SUCCESS then (ret, fl)
      else if src = PART_RECYCLE then
        let (ok, fl) = hal_flash_write src 0 (sys_put_le32 GENIE_FLASH_FLAG_INITED_BASE) fl in (if ok then GENIE_FLASH_SUCCESS else GENIE_FLASH_WRITE_FAIL, fl)
      else (GENIE_FLASH_SUCCESS, fl))"

definition cell_part :: "hal_partition_t \<Rightarrow> bool" where
  "cell_part pno \<longleftrightarrow> pno = PART_SYSTEM \<or> pno = PART_USERDATA \<or> pno = PART_RECYCLE"

definition genie_flash_copy :: "genie_flash_cell_t \<Rightarrow> genie_flash_cell_t \<Rightarrow> bytes \<Rightarrow> flash \<Rightarrow> E_GENIE_FLASH_ERRCODE \<times> flash" where
  "genie_flash_copy src dst buff fl =
     (let (dst, fl) = (if cell_part (fc_pno dst) then (dst\<lparr>fc_offset := 4\<rparr>, snd (genie_flash_init_partition (fc_pno dst) (fc_end dst) fl))
                       else (dst\<lparr>fc_offset := 0\<rparr>, snd (hal_flash_erase (fc_pno dst) 0 0x1000 fl)));
          src = src\<lparr>fc_offset := (if cell_part (fc_pno src) then 4 else 0)\<rparr>;
          (ok, dst, fl) = (if fc_pno dst = PART_RECYCLE \<and> buff \<noteq> [] then copy_new (fc_index src) buff dst fl else (True, dst, fl))
      in if \<not> ok then (GENIE_FLASH_WRITE_FAIL, fl)
      else
        let (ret, fl) = copy_loop src dst fl in
        if ret \<noteq> GENIE_FLASH_SUCCESS then (ret, fl) else copy_flag (fc_pno src) (fc_pno dst) fl)"

definition genie_flash_recycle :: "genie_flash_cell_t \<Rightarrow> bytes \<Rightarrow> flash \<Rightarrow> E_GENIE_FLASH_ERRCODE \<times> flash" where
  "genie_flash_recycle cell buff fl =
     (let (ret, fl) = genie_flash_copy cell CELL_PREPEAR_RECYCLE buff fl in
      if ret \<noteq> GENIE_FLASH_SUCCESS then (GENIE_FLASH_RECYCLE_FAIL, fl)
      else let (ret, fl) = genie_flash_copy CELL_PREPEAR_RECYCLE cell [] fl
        in (if ret \<noteq> GENIE_FLASH_SUCCESS then GENIE_FLASH_RECYCLE_FAIL else GENIE_FLASH_SUCCESS, fl))"

section \<open>Writing and deleting a cell\<close>

definition genie_flash_delete_flag :: "hal_partition_t \<Rightarrow> nat \<Rightarrow> flash \<Rightarrow> E_GENIE_FLASH_ERRCODE \<times> flash" where
  "genie_flash_delete_flag pno off fl =
     (let (ok, fl) = hal_flash_write pno off [GENIE_FLASH_FLAG_INVALID] fl in (if ok then GENIE_FLASH_SUCCESS else GENIE_FLASH_WRITE_FAIL, fl))"

definition genie_flash_delete :: "genie_flash_cell_t \<Rightarrow> flash \<Rightarrow> E_GENIE_FLASH_ERRCODE \<times> flash" where
  "genie_flash_delete cell fl =
     (let (ret, cell) = genie_flash_search cell fl in
      if ret \<noteq> GENIE_FLASH_SUCCESS then (ret, fl)
      else if fc_offset cell < fc_end cell then genie_flash_delete_flag (fc_pno cell) (fc_offset cell) fl
      else (GENIE_FLASH_DELETE_FAIL, fl))"

definition get_info :: "hal_partition_t \<Rightarrow> flash \<Rightarrow> genie_flash_info_t" where
  "get_info pno fl = (if pno = PART_SYSTEM then fl_info_system fl else fl_info_userdata fl)"

definition set_info :: "hal_partition_t \<Rightarrow> (genie_flash_info_t \<Rightarrow> genie_flash_info_t) \<Rightarrow> flash \<Rightarrow> flash" where
  "set_info pno f fl = (if pno = PART_SYSTEM then fl\<lparr>fl_info_system := f (fl_info_system fl)\<rparr> else fl\<lparr>fl_info_userdata := f (fl_info_userdata fl)\<rparr>)"

text \<open>A cell is written in two steps, the flag last, before the old cell is invalidated.\<close>

definition write_cell :: "hal_partition_t \<Rightarrow> nat \<Rightarrow> u16 \<Rightarrow> bytes \<Rightarrow> flash \<Rightarrow> bool \<times> flash" where
  "write_cell pno off i buff fl =
     (let (ok, fl) = hal_flash_write pno off (put_header (new_header GENIE_FLASH_FLAG_WRITING i buff)) fl in
      if \<not> ok then (False, fl)
      else
        let (ok, fl) = hal_flash_write pno (off + 8) buff fl in
        if \<not> ok then (False, fl) else hal_flash_write pno off [GENIE_FLASH_FLAG_ACTIVE] fl)"

definition genie_flash_write :: "genie_flash_cell_t \<Rightarrow> bytes \<Rightarrow> flash \<Rightarrow> E_GENIE_FLASH_ERRCODE \<times> flash" where
  "genie_flash_write cell buff fl =
     (let sz = length buff; pno = fc_pno cell in
      if sz = 0 then (GENIE_FLASH_WRITE_FAIL, fl)
      else if pno \<noteq> PART_SYSTEM \<and> pno \<noteq> PART_USERDATA then (GENIE_FLASH_WRITE_FAIL, fl)
      else
        let end = (if pno = PART_SYSTEM then GENIE_FLASH_SIZE_INITED_FLAG + GENIE_FLASH_SIZE_RELIABLE
                   else GENIE_FLASH_SIZE_INITED_FLAG + GENIE_FLASH_SIZE_USERDATA);
            info = get_info pno fl in
        if unat (gi_remain info) < sz + 8 then (GENIE_FLASH_WRITE_FAIL, fl)
        else if gi_free_offset info + sz + 8 > end then
          let (ret, fl) = genie_flash_recycle cell buff fl in
          if ret \<noteq> GENIE_FLASH_SUCCESS then (ret, fl) else (GENIE_FLASH_SUCCESS, genie_flash_check_remain fl)
        else
          let (found, old) = genie_flash_search cell fl; off = gi_free_offset info; align = align_count sz;
              (ok, fl) = write_cell pno off (fc_index cell) buff fl in
          if \<not> ok then (GENIE_FLASH_WRITE_FAIL, fl)
          else
              let fl = set_info pno (\<lambda>i. i\<lparr>gi_remain := gi_remain i - of_nat (sz + 8 + unat align), gi_free_offset := off + 8 + sz + unat align\<rparr>) fl in
              if found = GENIE_FLASH_SUCCESS then
                let (ret, fl) = genie_flash_delete_flag pno (fc_offset old) fl in
                if ret \<noteq> GENIE_FLASH_SUCCESS then (GENIE_FLASH_WRITE_FAIL, fl)
                else (GENIE_FLASH_SUCCESS, set_info pno (\<lambda>i. i\<lparr>gi_remain := gi_remain i + of_nat (cell_size (fc_header old))\<rparr>) fl)
              else (GENIE_FLASH_SUCCESS, fl))"

section \<open>The interface of the store\<close>

text \<open>The blocks of 16 bytes that encryption works on; a rest stays as it is.\<close>

fun flash_blocks :: "(bytes \<Rightarrow> errno + bytes) \<Rightarrow> nat \<Rightarrow> bytes \<Rightarrow> bytes" where
  "flash_blocks f 0 b = b"
| "flash_blocks f (Suc n) b = (case f (take 16 b) of Inr c \<Rightarrow> c | Inl e \<Rightarrow> take 16 b) @ flash_blocks f n (drop 16 b)"

definition genie_flash_encrypt :: "bytes \<Rightarrow> bytes \<Rightarrow> bytes" where
  "genie_flash_encrypt key buff = flash_blocks (bt_mesh_aes_encrypt key) (length buff div 16) buff"

definition genie_flash_decrypt :: "bytes \<Rightarrow> bytes \<Rightarrow> bytes" where
  "genie_flash_decrypt key buff = flash_blocks (bt_mesh_aes_decrypt key) (length buff div 16) buff"

definition genie_flash_get_reliable_size :: "nat \<Rightarrow> nat" where
  "genie_flash_get_reliable_size data_size =
     (if data_size mod 16 = 0 then data_size else (data_size div 16 + 1) * 16 mod 65536)"

text \<open>The part of the buffer that a shorter cell leaves uninitialised reads as zero, as in \<^const>\<open>byte_at\<close>.\<close>

definition genie_flash_read_reliable :: "u16 \<Rightarrow> nat \<Rightarrow> flash \<Rightarrow> E_GENIE_FLASH_ERRCODE \<times> bytes" where
  "genie_flash_read_reliable i data_size fl =
     (let buff_size = genie_flash_get_reliable_size data_size in
      if fl_oom fl then (GENIE_FLASH_DATA_INVALID, [])
      else
        let (ret, b) = genie_flash_read (CELL_PREPEAR_RELIABLE i) buff_size fl in
        if ret = GENIE_FLASH_SUCCESS
        then (ret, take data_size (genie_flash_decrypt (fl_enc_key fl) (b @ replicate (buff_size - length b) 0)))
        else (ret, []))"

definition genie_flash_write_reliable :: "u16 \<Rightarrow> bytes \<Rightarrow> flash \<Rightarrow> E_GENIE_FLASH_ERRCODE \<times> flash" where
  "genie_flash_write_reliable i data fl =
     (let buff_size = genie_flash_get_reliable_size (length data) in
      if fl_oom fl then (GENIE_FLASH_DATA_INVALID, fl)
      else genie_flash_write (CELL_PREPEAR_RELIABLE i)
             (genie_flash_encrypt (fl_enc_key fl) (data @ replicate (buff_size - length data) 0)) fl)"

definition genie_flash_delete_reliable :: "u16 \<Rightarrow> flash \<Rightarrow> E_GENIE_FLASH_ERRCODE \<times> flash" where
  "genie_flash_delete_reliable i fl = genie_flash_delete (CELL_PREPEAR_RELIABLE i) fl"

definition genie_flash_erase_reliable :: "flash \<Rightarrow> E_GENIE_FLASH_ERRCODE \<times> flash" where
  "genie_flash_erase_reliable fl = genie_flash_init_partition PART_SYSTEM GENIE_FLASH_SIZE_SYSTEM_PART fl"

definition genie_flash_read_userdata :: "u16 \<Rightarrow> nat \<Rightarrow> flash \<Rightarrow> E_GENIE_FLASH_ERRCODE \<times> bytes" where
  "genie_flash_read_userdata i sz fl = genie_flash_read (CELL_PREPEAR_USERDATA i) sz fl"

definition genie_flash_write_userdata :: "u16 \<Rightarrow> bytes \<Rightarrow> flash \<Rightarrow> E_GENIE_FLASH_ERRCODE \<times> flash" where
  "genie_flash_write_userdata i buff fl = genie_flash_write (CELL_PREPEAR_USERDATA i) buff fl"

definition genie_flash_delete_userdata :: "u16 \<Rightarrow> flash \<Rightarrow> E_GENIE_FLASH_ERRCODE \<times> flash" where
  "genie_flash_delete_userdata i fl = genie_flash_delete (CELL_PREPEAR_USERDATA i) fl"

definition genie_flash_erase_userdata :: "flash \<Rightarrow> E_GENIE_FLASH_ERRCODE \<times> flash" where
  "genie_flash_erase_userdata fl = genie_flash_init_partition PART_USERDATA GENIE_FLASH_SIZE_USERDATA fl"

section \<open>The sequence number\<close>

text \<open>The raw base word is returned too: the writer looks at it when the flag is wrong.\<close>

definition genie_flash_read_seqbase :: "flash \<Rightarrow> E_GENIE_FLASH_ERRCODE \<times> u32" where
  "genie_flash_read_seqbase fl =
     (case hal_flash_read PART_SEQ GENIE_FLASH_START_SEQ_BASE 4 fl of
        None \<Rightarrow> (GENIE_FLASH_READ_FAIL, 0)
      | Some b \<Rightarrow>
          let base = sys_get_le32 b in
          if drop_bit 24 base \<noteq> ucast GENIE_FLASH_FLAG_ACTIVE then (GENIE_FLASH_DATA_INVALID, base)
          else (GENIE_FLASH_SUCCESS, base AND 0x00FFFFFF))"

definition zero_bits :: "u8 \<Rightarrow> nat" where
  "zero_bits b = length (filter (\<lambda>j. \<not> bit b j) [0..<8])"

text \<open>Four bytes are read at a time; the count stops in the first byte that is not zero.\<close>

fun count_bytes :: "bytes \<Rightarrow> nat \<Rightarrow> bool \<times> nat" where
  "count_bytes [] n = (False, n)"
| "count_bytes (b # bs) n = (if b \<noteq> 0 then (True, n + zero_bits b) else count_bytes bs (n + 8))"

function seqcount_loop :: "nat \<Rightarrow> nat \<Rightarrow> flash \<Rightarrow> E_GENIE_FLASH_ERRCODE \<times> nat" where
  "seqcount_loop off n fl =
     (if off < GENIE_FLASH_START_SEQ_COUNT + GENIE_FLASH_SIZE_SEQ then
        case hal_flash_read PART_SEQ off 4 fl of
          None \<Rightarrow> (GENIE_FLASH_READ_FAIL, n)
        | Some b \<Rightarrow> (case count_bytes b n of
            (True, n) \<Rightarrow> (GENIE_FLASH_SUCCESS, n)
          | (False, n) \<Rightarrow> seqcount_loop (off + 4) n fl)
      else (GENIE_FLASH_SUCCESS, n))"
  by pat_completeness auto
termination
  by (relation "measure (\<lambda>(off, n, fl). GENIE_FLASH_START_SEQ_COUNT + GENIE_FLASH_SIZE_SEQ - off)") auto

declare seqcount_loop.simps [simp del]

text \<open>The count is at most 8 \<times> 4092, below the range of its 16-bit type.\<close>

definition genie_flash_read_seqcount :: "flash \<Rightarrow> E_GENIE_FLASH_ERRCODE \<times> u16" where
  "genie_flash_read_seqcount fl = map_prod id of_nat (seqcount_loop GENIE_FLASH_START_SEQ_COUNT 0 fl)"

definition genie_flash_read_seq :: "flash \<Rightarrow> E_GENIE_FLASH_ERRCODE \<times> u32" where
  "genie_flash_read_seq fl =
     (let (ret, base) = genie_flash_read_seqbase fl in
      if ret \<noteq> GENIE_FLASH_SUCCESS then (ret, 0)
      else let (ret, count) = genie_flash_read_seqcount fl in
        if ret \<noteq> GENIE_FLASH_SUCCESS then (GENIE_FLASH_READ_FAIL, 0) else (GENIE_FLASH_SUCCESS, base + ucast count))"

definition genie_flash_write_seqbase :: "u32 \<Rightarrow> flash \<Rightarrow> E_GENIE_FLASH_ERRCODE \<times> flash" where
  "genie_flash_write_seqbase base fl =
     (let (ok, fl) = hal_flash_write PART_SEQ GENIE_FLASH_START_SEQ_BASE (sys_put_le32 (base OR push_bit 24 (ucast GENIE_FLASH_FLAG_ACTIVE))) fl
      in (if ok then GENIE_FLASH_SUCCESS else GENIE_FLASH_WRITE_FAIL, fl))"

text \<open>The bytes before the last one are cleared when they are not zero already.\<close>

fun clear_loop :: "nat list \<Rightarrow> flash \<Rightarrow> bool \<times> flash" where
  "clear_loop [] fl = (True, fl)"
| "clear_loop (start # offs) fl =
     (case hal_flash_read PART_SEQ start 1 fl of
        None \<Rightarrow> (False, fl)
      | Some b \<Rightarrow>
          if b \<noteq> [0] then
            let (ok, fl) = hal_flash_write PART_SEQ start [0] fl in if \<not> ok then (False, fl) else clear_loop offs fl
          else clear_loop offs fl)"

definition genie_flash_write_seqcount :: "u16 \<Rightarrow> flash \<Rightarrow> E_GENIE_FLASH_ERRCODE \<times> flash" where
  "genie_flash_write_seqcount count fl =
     (let c = unat count; off = GENIE_FLASH_START_SEQ_COUNT + c div 8;
          (off, write_byte) = (if c \<noteq> 0 \<and> c mod 8 = 0 then (off - 1, 0) else (off, drop_bit (c mod 8) 0xFF));
          (ok, fl) = clear_loop [GENIE_FLASH_START_SEQ_COUNT..<off] fl
      in if \<not> ok then (GENIE_FLASH_WRITE_FAIL, fl)
      else let (ok, fl) = hal_flash_write PART_SEQ off [write_byte] fl
        in (if ok then GENIE_FLASH_SUCCESS else GENIE_FLASH_WRITE_FAIL, fl))"

definition genie_flash_delete_seq :: "flash \<Rightarrow> E_GENIE_FLASH_ERRCODE \<times> flash" where
  "genie_flash_delete_seq fl = genie_flash_init_partition PART_SEQ GENIE_FLASH_SIZE_SEQ_PART fl"

definition genie_flash_write_seq :: "u32 \<Rightarrow> flash \<Rightarrow> E_GENIE_FLASH_ERRCODE \<times> flash" where
  "genie_flash_write_seq seq fl =
     (let (ret, base) = genie_flash_read_seqbase fl;
          clean = (\<lambda>fl. genie_flash_write_seqbase seq (snd (genie_flash_delete_seq fl)))
      in if ret = GENIE_FLASH_DATA_INVALID then (if base \<noteq> 0xFFFFFFFF then clean fl else genie_flash_write_seqbase seq fl)
      else if ret = GENIE_FLASH_SUCCESS then
        if base \<ge> seq then (GENIE_FLASH_WRITE_FAIL, fl)
        else if unat (seq - base) \<le> GENIE_FLASH_SIZE_SEQ * 8 then
          let (ret, count) = genie_flash_read_seqcount fl in
          if ret \<noteq> GENIE_FLASH_SUCCESS then (GENIE_FLASH_READ_FAIL, fl)
          else if ucast count < seq - base then genie_flash_write_seqcount (ucast (seq - base)) fl
          else (GENIE_FLASH_WRITE_FAIL, fl)
        else clean fl
      else (GENIE_FLASH_WRITE_FAIL, fl))"

section \<open>Initialisation\<close>

definition genie_flash_check_recycle :: "flash \<Rightarrow> E_GENIE_FLASH_ERRCODE \<times> flash" where
  "genie_flash_check_recycle fl =
     (case hal_flash_read PART_RECYCLE 0 4 fl of
        None \<Rightarrow> (GENIE_FLASH_RECYCLE_FAIL, fl)
      | Some b \<Rightarrow>
          let part_flag = sys_get_le32 b in
          if part_flag = GENIE_FLASH_FLAG_INITED_SYS then genie_flash_copy CELL_PREPEAR_RECYCLE (CELL_PREPEAR_RELIABLE 0) [] fl
          else if part_flag = GENIE_FLASH_FLAG_INITED_UD then genie_flash_copy CELL_PREPEAR_RECYCLE (CELL_PREPEAR_USERDATA 0) [] fl
          else (GENIE_FLASH_SUCCESS, fl))"

definition check_partition :: "hal_partition_t \<Rightarrow> nat \<Rightarrow> flash \<Rightarrow> E_GENIE_FLASH_ERRCODE \<times> flash" where
  "check_partition pno part_size fl =
     (let ret = genie_flash_checkflag pno fl in
      if ret \<noteq> GENIE_FLASH_SUCCESS then genie_flash_init_partition pno part_size fl else (ret, fl))"

definition ginie_flash_get_enc_key :: "bytes \<Rightarrow> flash \<Rightarrow> flash" where
  "ginie_flash_get_enc_key project_key fl =
     (let random = (if 100 + 16 > length (fl_custom_2 fl) then replicate 16 0 else take 16 (drop 100 (fl_custom_2 fl)))
      in case bt_mesh_aes_encrypt random project_key of Inr key \<Rightarrow> fl\<lparr>fl_enc_key := key\<rparr> | Inl e \<Rightarrow> fl)"

definition load_enc_key :: "flash \<Rightarrow> flash" where
  "load_enc_key fl = (case fl_project_key fl of Some key \<Rightarrow> ginie_flash_get_enc_key key fl | None \<Rightarrow> fl)"

definition genie_flash_init :: "flash \<Rightarrow> E_GENIE_FLASH_ERRCODE \<times> flash" where
  "genie_flash_init fl =
     (if fl_inited fl then (GENIE_FLASH_SUCCESS, fl)
      else
        let fl = load_enc_key (fl\<lparr>fl_inited := True\<rparr>); (ret, fl) = genie_flash_check_recycle fl in
        if ret \<noteq> GENIE_FLASH_SUCCESS then (GENIE_FLASH_INIT_FAIL, fl)
        else
          let (ret, fl) = check_partition PART_USERDATA GENIE_FLASH_SIZE_USERDATA_PART fl;
              (ret, fl) = check_partition PART_SYSTEM GENIE_FLASH_SIZE_SYSTEM_PART fl in
          if ret \<noteq> GENIE_FLASH_SUCCESS then (GENIE_FLASH_INIT_FAIL, fl)
          else
            let (ret, fl) = check_partition PART_SEQ GENIE_FLASH_SIZE_SEQ_PART fl in
            if ret \<noteq> GENIE_FLASH_SUCCESS then (GENIE_FLASH_INIT_FAIL, fl)
            else (GENIE_FLASH_SUCCESS, genie_flash_check_remain fl))"

end
