(* ===== verification/Flash_Seq.thy ===== *)
theory Flash_Seq
  imports Genie_Flash
begin

text \<open>
  Correctness of the stored sequence number. The partition holds a base word followed by a unary count; \<open>seq_mem\<close> is
  its contents as a function of both. The interface \<open>monotone_store\<close> states what a store of a growing number promises;
  the functions of \<^verbatim>\<open>genie_flash.c\<close> satisfy it between two starts of the node, and a start loses the number.
\<close>

section \<open>Driver lemmas\<close>

lemma upd_mem_sel [simp]: "fl_mem (upd_mem p f fl) = (fl_mem fl)(p := f (fl_mem fl p))" "fl_oom (upd_mem p f fl) = fl_oom fl"
  "fl_enc_key (upd_mem p f fl) = fl_enc_key fl" "fl_info_system (upd_mem p f fl) = fl_info_system fl"
  "fl_info_userdata (upd_mem p f fl) = fl_info_userdata fl" "fl_fault (upd_mem p f fl) = fl_fault fl" "fl_inited (upd_mem p f fl) = fl_inited fl"
  by (simp_all add: upd_mem_def)

lemma nth_put_bytes:
  assumes "pos + length xs \<le> length m" "i < length m"
  shows "put_bytes m pos xs ! i = (if pos \<le> i \<and> i < pos + length xs then xs ! (i - pos) else m ! i)"
  using assms by (auto simp: put_bytes_in nth_append)

lemma nth_and_bytes [simp]: "i < length xs \<Longrightarrow> i < length ys \<Longrightarrow> and_bytes xs ys ! i = xs ! i AND ys ! i"
  by (simp add: and_bytes_def)

lemma length_and_bytes [simp]: "length (and_bytes xs ys) = min (length xs) (length ys)"
  by (simp add: and_bytes_def)

text \<open>A successful write, byte by byte.\<close>

lemma hal_write_ok:
  assumes "off + length buf \<le> length (fl_mem fl p)"
  shows "hal_flash_write p off buf fl = (True, upd_mem p (\<lambda>m. put_bytes m off (and_bytes (take (length buf) (drop off m)) buf)) fl)"
  using assms by (simp add: hal_flash_write_def)

lemma hal_write_nth:
  assumes "off + length buf \<le> length m" "i < length m"
  shows "put_bytes m off (and_bytes (take (length buf) (drop off m)) buf) ! i =
    (if off \<le> i \<and> i < off + length buf then m ! i AND buf ! (i - off) else m ! i)"
proof -
  have "and_bytes (take (length buf) (drop off m)) buf ! (i - off) = m ! i AND buf ! (i - off)" if "off \<le> i" "i < off + length buf"
    using that assms by (subst nth_and_bytes) auto
  with nth_put_bytes [of off "and_bytes (take (length buf) (drop off m)) buf" m i] show ?thesis using assms by auto
qed

lemma hal_write_blank:
  assumes "off + length buf \<le> length m" "\<forall>i. off \<le> i \<and> i < off + length buf \<longrightarrow> m ! i = 0xFF"
  shows "put_bytes m off (and_bytes (take (length buf) (drop off m)) buf) = put_bytes m off buf"
proof (rule nth_equalityI)
  fix i
  assume i: "i < length (put_bytes m off (and_bytes (take (length buf) (drop off m)) buf))"
  have "(255 :: u8) = - 1" by simp
  then have "(255 :: u8) AND x = x" for x by (metis and.left_neutral)
  then show "put_bytes m off (and_bytes (take (length buf) (drop off m)) buf) ! i = put_bytes m off buf ! i"
    using i assms hal_write_nth [OF assms(1), of i] nth_put_bytes [OF assms(1), of i] by auto
qed simp

section \<open>The contents of the partition\<close>

definition seq_byte :: "nat \<Rightarrow> nat \<Rightarrow> u8" where
  "seq_byte c j = (if j < c div 8 then 0 else if j = c div 8 then drop_bit (c mod 8) 0xFF else 0xFF)"

definition seq_mem :: "nat \<Rightarrow> nat \<Rightarrow> bytes" where
  "seq_mem base c = sys_put_le32 (of_nat base OR 0x1000000) @ map (seq_byte c) [0..<4092]"

lemma length_seq_mem [simp]: "length (seq_mem base c) = 4096"
  by (simp add: seq_mem_def)

lemma nth_seq_mem: "i < 4096 \<Longrightarrow> seq_mem base c ! i = (if i < 4 then sys_put_le32 (of_nat base OR 0x1000000) ! i else seq_byte c (i - 4))"
  by (simp add: seq_mem_def nth_append)

lemma take_seq_mem: "take 4 (seq_mem base c) = sys_put_le32 (of_nat base OR 0x1000000)" "drop 4 (seq_mem base c) = map (seq_byte c) [0..<4092]"
  by (simp_all add: seq_mem_def)

lemma bit_top: "bit (drop_bit r (0xFF :: u8)) n \<longleftrightarrow> r + n < 8"
proof -
  have "(0xFF :: u8) = - 1" by simp
  then have "bit (0xFF :: u8) k \<longleftrightarrow> k < 8" for k by (simp only: bit_minus_1_iff) (simp add: possible_bit_def exp_eq_zero_iff)
  then show ?thesis by (simp add: bit_drop_bit_eq)
qed

lemma zero_bits_top: "r < 8 \<Longrightarrow> zero_bits (drop_bit r 0xFF) = r" "r < 8 \<Longrightarrow> drop_bit r (0xFF :: u8) \<noteq> 0"
proof -
  assume r: "r < 8"
  have "\<exists>n. bit (drop_bit r (0xFF :: u8)) n" using r by (auto simp: bit_top intro: exI [of _ 0])
  then show "drop_bit r (0xFF :: u8) \<noteq> 0" by (auto simp del: bit_drop_bit_eq)
  have "[0..<8] = [0..<8 - r] @ [8 - r..<8]" using upt_add_eq_append [of 0 "8 - r" r] r by simp
  moreover have "filter (\<lambda>j. \<not> bit (drop_bit r (0xFF :: u8)) j) [0..<8 - r] = []"
    by (auto simp: filter_empty_conv bit_top)
  moreover have "filter (\<lambda>j. \<not> bit (drop_bit r (0xFF :: u8)) j) [8 - r..<8] = [8 - r..<8]"
    by (rule filter_True) (auto simp: bit_top)
  ultimately show "zero_bits (drop_bit r 0xFF) = r" using r by (simp add: zero_bits_def)
qed

lemma and_top: "drop_bit r (0xFF :: u8) AND drop_bit r' 0xFF = drop_bit (max r r') 0xFF"
  by (rule bit_eqI) (auto simp: bit_and_iff bit_top simp del: bit_drop_bit_eq)

section \<open>Reading\<close>

lemma seqbase_mem:
  assumes "fl_mem fl PART_SEQ = seq_mem base c" "base < 2 ^ 24"
  shows "genie_flash_read_seqbase fl = (GENIE_FLASH_SUCCESS, of_nat base)"
proof -
  let ?w = "of_nat base :: u32"
  have u: "unat ?w = base" using assms(2) by (simp add: unsigned_of_nat take_bit_nat_eq_self)
  have w: "take_bit 24 ?w = ?w" "drop_bit 24 ?w = 0"
    using assms(2) by (simp_all only: word_unat_eq_iff unsigned_take_bit_eq unsigned_drop_bit_eq u) (simp_all add: take_bit_nat_eq_self drop_bit_eq_div)
  have 1: "drop_bit 24 (?w OR 0x1000000) = 1" by (simp add: drop_bit_or w)
  have "(?w OR 0x1000000) AND mask 24 = take_bit 24 ?w OR take_bit 24 0x1000000" by (simp only: take_bit_eq_mask [symmetric] take_bit_or)
  then have 2: "(?w OR 0x1000000) AND 0x00FFFFFF = ?w" by (simp add: w mask_eq_exp_minus_1)
  show ?thesis using 1 2 assms(1)
    by (simp add: genie_flash_read_seqbase_def hal_flash_read_def GENIE_FLASH_START_SEQ_BASE_def take_seq_mem GENIE_FLASH_FLAG_ACTIVE_def)
qed

lemma count_bytes_append:
  "count_bytes (xs @ ys) n = (case count_bytes xs n of (True, m) \<Rightarrow> (True, m) | (False, m) \<Rightarrow> count_bytes ys m)"
  by (induction xs arbitrary: n) (auto split: prod.splits bool.splits)

lemma seqcount_bytes:
  assumes "length (fl_mem fl PART_SEQ) = 4096" "k \<le> 1023"
  shows "seqcount_loop (4 + 4 * k) n fl = (GENIE_FLASH_SUCCESS, snd (count_bytes (drop (4 + 4 * k) (fl_mem fl PART_SEQ)) n))"
  using assms(2)
proof (induction k arbitrary: n rule: inc_induct)
  case base
  show ?case using assms(1) by (simp add: seqcount_loop.simps GENIE_FLASH_START_SEQ_COUNT_def GENIE_FLASH_SIZE_SEQ_def)
next
  case (step k)
  let ?m = "drop (4 + 4 * k) (fl_mem fl PART_SEQ)"
  have split: "count_bytes ?m n = (case count_bytes (take 4 ?m) n of (True, m) \<Rightarrow> (True, m) | (False, m) \<Rightarrow> count_bytes (drop 4 ?m) m)"
    using count_bytes_append [of "take 4 ?m" "drop 4 ?m" n] by (simp only: append_take_drop_id)
  have d: "drop 4 ?m = drop (4 + 4 * Suc k) (fl_mem fl PART_SEQ)" by (simp add: add.commute)
  have nxt: "4 + 4 * k + 4 = 4 + 4 * Suc k" by simp
  have "seqcount_loop (4 + 4 * k) n fl = (case count_bytes (take 4 ?m) n of (True, m) \<Rightarrow> (GENIE_FLASH_SUCCESS, m)
      | (False, m) \<Rightarrow> seqcount_loop (4 + 4 * Suc k) m fl)"
    using step.hyps assms(1) unfolding nxt [symmetric]
    by (subst seqcount_loop.simps) (simp add: GENIE_FLASH_START_SEQ_COUNT_def GENIE_FLASH_SIZE_SEQ_def hal_flash_read_def)
  then show ?case using step.IH split d by (auto split: prod.splits bool.splits)
qed

lemma count_seq_bytes: "c \<le> 8 * 4092 \<Longrightarrow> snd (count_bytes (map (seq_byte c) [0..<4092]) 0) = c"
proof -
  assume c: "c \<le> 8 * 4092"
  have zeros: "count_bytes (replicate k 0 @ xs) n = count_bytes xs (n + 8 * k)" for k n xs
    by (induction k arbitrary: n) (simp_all add: algebra_simps)
  have z: "map (seq_byte c) [0..<c div 8] = replicate (c div 8) 0"
    by (rule nth_equalityI) (simp_all add: seq_byte_def)
  show ?thesis
  proof (cases "c div 8 < 4092")
    case True
    then have "[0..<4092] = [0..<c div 8] @ (c div 8) # [Suc (c div 8)..<4092]"
      using upt_add_eq_append [of 0 "c div 8" "4092 - c div 8"] upt_conv_Cons [of "c div 8" 4092] by simp
    then have "count_bytes (map (seq_byte c) [0..<4092]) 0 = count_bytes (replicate (c div 8) 0 @ drop_bit (c mod 8) 0xFF #
        map (seq_byte c) [Suc (c div 8)..<4092]) 0"
      by (simp add: z) (simp add: seq_byte_def)
    then show ?thesis using zero_bits_top [of "c mod 8"] by (simp only: zeros) simp
  next
    case False
    then have "c div 8 = 4092" "c = 8 * 4092" using c by linarith+
    then show ?thesis using z zeros [of 4092 "[]" 0] by simp
  qed
qed

lemma read_seq_mem:
  assumes "fl_mem fl PART_SEQ = seq_mem base c" "base < 2 ^ 24" "c \<le> 8 * 4092"
  shows "genie_flash_read_seqcount fl = (GENIE_FLASH_SUCCESS, of_nat c)" "genie_flash_read_seq fl = (GENIE_FLASH_SUCCESS, of_nat (base + c))"
proof -
  show 1: "genie_flash_read_seqcount fl = (GENIE_FLASH_SUCCESS, of_nat c)"
    using seqcount_bytes [of fl 0 0] count_seq_bytes [OF assms(3)] assms(1)
    by (simp add: genie_flash_read_seqcount_def GENIE_FLASH_START_SEQ_COUNT_def take_seq_mem)
  have "(ucast (of_nat c :: u16) :: u32) = of_nat c" using assms(3) by (simp add: unsigned_of_nat take_bit_nat_eq_self)
  then show "genie_flash_read_seq fl = (GENIE_FLASH_SUCCESS, of_nat (base + c))"
    using 1 seqbase_mem [OF assms(1,2)] by (simp add: genie_flash_read_seq_def)
qed

section \<open>Writing\<close>

lemma write_byte_mem:
  assumes "off < length m"
  shows "put_bytes m off (and_bytes (take (length [v]) (drop off m)) [v]) = m[off := m ! off AND v]"
  by (rule nth_equalityI) (use assms in \<open>simp_all add: hal_write_nth [of _ "[v]", simplified] nth_list_update hd_drop_conv_nth\<close>)

lemma clear_loop_mem:
  assumes "\<forall>i\<in>set offs. i < length (fl_mem fl PART_SEQ)"
  shows "clear_loop offs fl = (True, upd_mem PART_SEQ (\<lambda>m. fold (\<lambda>i m. m[i := 0]) offs m) fl)"
  using assms
proof (induction offs arbitrary: fl)
  case Nil
  show ?case by (simp add: upd_mem_def)
next
  case (Cons i offs)
  let ?m = "fl_mem fl PART_SEQ"
  have i: "i < length ?m" using Cons.prems by simp
  have rd: "hal_flash_read PART_SEQ i 1 fl = Some [?m ! i]"
    using i by (simp add: hal_flash_read_def take_Suc_conv_app_nth hd_drop_conv_nth take_Suc)
  show ?case
  proof (cases "?m ! i = 0")
    case True
    then have "?m[i := 0] = ?m" by (metis list_update_id)
    then show ?thesis using Cons rd True by (simp add: upd_mem_def)
  next
    case False
    let ?fl = "upd_mem PART_SEQ (\<lambda>m. m[i := 0]) fl"
    have "hal_flash_write PART_SEQ i [0] fl = (True, ?fl)"
      using i write_byte_mem [OF i, of 0] by (simp add: hal_flash_write_def upd_mem_def)
    then show ?thesis using Cons.IH [of ?fl] Cons.prems rd False by (simp add: upd_mem_def)
  qed
qed

lemma nth_fold_clear: "j < length m \<Longrightarrow> fold (\<lambda>i m. m[i := (0 :: u8)]) offs m ! j = (if j \<in> set offs then 0 else m ! j)"
  by (induction offs arbitrary: m) (auto simp: nth_list_update)

lemma length_fold_clear [simp]: "length (fold (\<lambda>i m. m[i := (0 :: u8)]) offs m) = length m"
  by (induction offs arbitrary: m) auto

lemma seq_byte_step:
  assumes "c < d" and l: "l = (if d mod 8 = 0 then d div 8 - 1 else d div 8)" and v: "v = (if d mod 8 = 0 then 0 else drop_bit (d mod 8) 0xFF)"
  shows "j < l \<Longrightarrow> seq_byte d j = 0" "seq_byte c l AND v = seq_byte d l" "l < j \<Longrightarrow> seq_byte c j = seq_byte d j"
proof -
  have le: "c div 8 \<le> d div 8" using assms(1) by (simp add: div_le_mono)
  have lt: "c div 8 < d div 8" if "d mod 8 = 0" using assms(1) that mult_div_mod_eq [of 8 c] mult_div_mod_eq [of 8 d] by linarith
  have e: "c mod 8 \<le> d mod 8" if "c div 8 = d div 8" using assms(1) that mult_div_mod_eq [of 8 c] mult_div_mod_eq [of 8 d] by linarith
  have a: "(0xFF :: u8) AND drop_bit r 0xFF = drop_bit r 0xFF" for r using and_top [of 0 r] by simp
  show "j < l \<Longrightarrow> seq_byte d j = 0" using l by (auto simp: seq_byte_def split: if_splits)
  show "seq_byte c l AND v = seq_byte d l"
  proof (cases "d mod 8 = 0")
    case True
    then show ?thesis using lt l v by (auto simp: seq_byte_def)
  next
    case False
    then show ?thesis using le e l v by (auto simp: seq_byte_def and_top a max_absorb2)
  qed
  show "l < j \<Longrightarrow> seq_byte c j = seq_byte d j" using le lt l by (cases "d mod 8 = 0") (auto simp: seq_byte_def)
qed

lemma write_seqcount_mem:
  assumes "fl_mem fl PART_SEQ = seq_mem base c" "c < d" "d \<le> 8 * 4092"
  shows "genie_flash_write_seqcount (of_nat d) fl = (GENIE_FLASH_SUCCESS, upd_mem PART_SEQ (\<lambda>_. seq_mem base d) fl)"
proof -
  have d: "unat (of_nat d :: u16) = d" using assms(3) by (simp add: unsigned_of_nat take_bit_nat_eq_self)
  let ?off = "4 + (if d mod 8 = 0 then d div 8 - 1 else d div 8)" and ?v = "if d mod 8 = 0 then 0 else drop_bit (d mod 8) 0xFF :: u8"
  have off: "?off < 4096" using assms(3) by auto presburger
  have sel: "(if d \<noteq> 0 \<and> d mod 8 = 0 then (4 + d div 8 - 1, 0) else (4 + d div 8, drop_bit (d mod 8) 0xFF)) = (?off, ?v)"
    using assms(2) by auto
  let ?m = "fold (\<lambda>i m. m[i := 0]) [4..<?off] (seq_mem base c)"
  have mem: "?m[?off := ?m ! ?off AND ?v] = seq_mem base d"
  proof (rule nth_equalityI)
    fix i
    assume "i < length (?m[?off := ?m ! ?off AND ?v])"
    then have i: "i < 4096" by simp
    show "?m[?off := ?m ! ?off AND ?v] ! i = seq_mem base d ! i"
    proof (cases "i < 4")
      case True
      then show ?thesis using i off by (simp add: nth_list_update nth_fold_clear nth_seq_mem)
    next
      case False
      note step = seq_byte_step [OF assms(2) refl refl]
      consider "i < ?off" | "i = ?off" | "?off < i" by linarith
      then show ?thesis
      proof cases
        case 1
        then show ?thesis using i False step(1) [of "i - 4"] off by (simp add: nth_fold_clear nth_seq_mem less_diff_conv2)
      next
        case 2
        then show ?thesis using i off step(2) by (simp add: nth_fold_clear nth_seq_mem)
      next
        case 3
        then show ?thesis using i False step(3) [of "i - 4"] by (simp add: nth_fold_clear nth_seq_mem less_diff_conv)
      qed
    qed
  qed simp
  have 1: "clear_loop [4..<?off] fl = (True, upd_mem PART_SEQ (\<lambda>m. fold (\<lambda>i m. m[i := 0]) [4..<?off] m) fl)"
    using off assms(1) by (intro clear_loop_mem) auto
  have 2: "hal_flash_write PART_SEQ ?off [?v] (upd_mem PART_SEQ (\<lambda>m. fold (\<lambda>i m. m[i := 0]) [4..<?off] m) fl) =
      (True, upd_mem PART_SEQ (\<lambda>_. seq_mem base d) fl)"
    using off write_byte_mem [of ?off ?m ?v] mem assms(1) by (simp add: hal_flash_write_def upd_mem_def)
  show ?thesis using sel 1 2 by (simp add: genie_flash_write_seqcount_def d GENIE_FLASH_START_SEQ_COUNT_def Let_def)
qed

section \<open>The promise of the store\<close>

text \<open>
  A store of a number that only grows: a write keeps the larger of the stored and the new number. \<open>bound\<close> is the range of
  the numbers that can be stored.
\<close>

locale monotone_store =
  fixes inv :: "'s \<Rightarrow> bool"
    and get :: "'s \<Rightarrow> nat option"
    and put :: "nat \<Rightarrow> 's \<Rightarrow> 's"
    and bound :: nat
  assumes put_inv: "inv s \<Longrightarrow> n < bound \<Longrightarrow> inv (put n s)"
    and get_put: "inv s \<Longrightarrow> n < bound \<Longrightarrow> get (put n s) = (case get s of None \<Rightarrow> Some n | Some m \<Rightarrow> Some (max m n))"
begin

lemma get_run:
  assumes "inv s" "\<forall>n\<in>set ns. n < bound"
  shows "inv (fold put ns s) \<and> get (fold put ns s) = (case get s of None \<Rightarrow> if ns = [] then None else Some (Max (set ns))
    | Some m \<Rightarrow> Some (Max (insert m (set ns))))"
  using assms
proof (induction ns arbitrary: s)
  case (Cons n ns)
  have "inv (put n s)" "get (put n s) = (case get s of None \<Rightarrow> Some n | Some m \<Rightarrow> Some (max m n))"
    using put_inv get_put Cons.prems by simp_all
  then show ?case using Cons.IH [of "put n s"] Cons.prems(2)
    by (cases "get s"; cases "ns = []") (simp_all add: max.assoc insert_commute)
qed (auto split: option.splits)

end

section \<open>The sequence number is such a store\<close>

definition seq_blank :: "flash \<Rightarrow> bool" where
  "seq_blank fl \<longleftrightarrow> fl_mem fl PART_SEQ = replicate 4096 0xFF"

definition seq_holds :: "nat \<Rightarrow> nat \<Rightarrow> flash \<Rightarrow> bool" where
  "seq_holds base c fl \<longleftrightarrow> fl_mem fl PART_SEQ = seq_mem base c \<and> base < 2 ^ 24 \<and> c \<le> 8 * 4092"

definition seq_inv :: "flash \<Rightarrow> bool" where
  "seq_inv fl \<longleftrightarrow> seq_blank fl \<or> (\<exists>base c. seq_holds base c fl)"

definition seq_get :: "flash \<Rightarrow> nat option" where
  "seq_get fl = (case genie_flash_read_seq fl of (ret, seq) \<Rightarrow> if ret = GENIE_FLASH_SUCCESS then Some (unat seq) else None)"

definition seq_put :: "nat \<Rightarrow> flash \<Rightarrow> flash" where
  "seq_put n fl = snd (genie_flash_write_seq (of_nat n) fl)"

lemma unat_small: "n < 2 ^ 32 \<Longrightarrow> unat (of_nat n :: u32) = n"
  by (simp add: unsigned_of_nat take_bit_nat_eq_self)

lemma seq_get_holds: "seq_holds base c fl \<Longrightarrow> seq_get fl = Some (base + c)"
  using unat_small [of "base + c"] by (auto simp: seq_get_def seq_holds_def read_seq_mem)

lemma seqbase_blank: "seq_blank fl \<Longrightarrow> genie_flash_read_seqbase fl = (GENIE_FLASH_DATA_INVALID, 0xFFFFFFFF)"
proof -
  assume b: "seq_blank fl"
  have "replicate 4 (0xFF :: u8) = sys_put_le32 0xFFFFFFFF" by code_simp
  then have "hal_flash_read PART_SEQ 0 4 fl = Some (sys_put_le32 0xFFFFFFFF)" using b by (simp add: seq_blank_def hal_flash_read_def)
  then show ?thesis by (simp add: genie_flash_read_seqbase_def GENIE_FLASH_START_SEQ_BASE_def GENIE_FLASH_FLAG_ACTIVE_def)
qed

lemma seq_get_blank: "seq_blank fl \<Longrightarrow> seq_get fl = None"
  by (simp add: seq_get_def genie_flash_read_seq_def seqbase_blank)

lemma erase_blank:
  assumes "length (fl_mem fl p) = 4096"
  shows "hal_flash_erase p 0 4096 fl = (True, upd_mem p (\<lambda>_. replicate 4096 0xFF) fl)"
proof -
  have "map (\<lambda>i. if 0 div FLASH_PAGE \<le> i div FLASH_PAGE \<and> i div FLASH_PAGE \<le> (0 + 4096 - 1) div FLASH_PAGE then 0xFF else m ! i)
      [0..<4096] = replicate 4096 (0xFF :: u8)" for m
    by (rule nth_equalityI) (simp_all add: FLASH_PAGE_def)
  then show ?thesis using assms by (simp add: hal_flash_erase_def upd_mem_def)
qed

lemma write_base_blank:
  assumes "seq_blank fl" "n < 2 ^ 24"
  shows "genie_flash_write_seqbase (of_nat n) fl = (GENIE_FLASH_SUCCESS, upd_mem PART_SEQ (\<lambda>_. seq_mem n 0) fl)"
proof -
  let ?w = "sys_put_le32 (of_nat n OR 0x1000000)"
  have m: "length (fl_mem fl PART_SEQ) = 4096" using assms(1) by (simp add: seq_blank_def)
  have "put_bytes (fl_mem fl PART_SEQ) 0 ?w = seq_mem n 0"
    using assms(1) by (simp add: seq_blank_def put_bytes_in seq_mem_def) (rule nth_equalityI, simp_all add: seq_byte_def)
  moreover have "put_bytes (fl_mem fl PART_SEQ) 0 (and_bytes (take (length ?w) (drop 0 (fl_mem fl PART_SEQ))) ?w) = put_bytes (fl_mem fl PART_SEQ) 0 ?w"
    using assms(1) by (intro hal_write_blank) (simp_all add: seq_blank_def)
  ultimately show ?thesis using m
    by (simp add: genie_flash_write_seqbase_def hal_flash_write_def GENIE_FLASH_START_SEQ_BASE_def GENIE_FLASH_FLAG_ACTIVE_def upd_mem_def push_bit_eq_mult)
qed

lemma delete_seq_blank:
  "length (fl_mem fl PART_SEQ) = 4096 \<Longrightarrow> genie_flash_delete_seq fl = (GENIE_FLASH_SUCCESS, upd_mem PART_SEQ (\<lambda>_. replicate 4096 0xFF) fl)"
  by (simp add: genie_flash_delete_seq_def genie_flash_init_partition_def GENIE_FLASH_SIZE_SEQ_PART_def erase_blank)

text \<open>What a write does, in every case.\<close>

lemma write_seq_blank:
  assumes "seq_blank fl" "n < 2 ^ 24"
  shows "genie_flash_write_seq (of_nat n) fl = (GENIE_FLASH_SUCCESS, upd_mem PART_SEQ (\<lambda>_. seq_mem n 0) fl)"
  using seqbase_blank [OF assms(1)] write_base_blank [OF assms] by (simp add: genie_flash_write_seq_def)

lemma write_seq_holds:
  assumes "seq_holds base c fl" "n < 2 ^ 24"
  shows "genie_flash_write_seq (of_nat n) fl =
    (if n \<le> base + c then (GENIE_FLASH_WRITE_FAIL, fl)
     else if n - base \<le> 8 * 4092 then (GENIE_FLASH_SUCCESS, upd_mem PART_SEQ (\<lambda>_. seq_mem base (n - base)) fl)
     else (GENIE_FLASH_SUCCESS, upd_mem PART_SEQ (\<lambda>_. seq_mem n 0) fl))"
proof -
  have h: "fl_mem fl PART_SEQ = seq_mem base c" "base < 2 ^ 24" "c \<le> 8 * 4092" using assms(1) by (auto simp: seq_holds_def)
  have u: "unat (of_nat n :: u32) = n" "unat (of_nat base :: u32) = base" "unat (of_nat c :: u16) = c"
    using unat_small [of n] unat_small [of base] assms(2) h by (simp_all add: unsigned_of_nat take_bit_nat_eq_self)
  have ge: "(of_nat base :: u32) \<ge> of_nat n \<longleftrightarrow> n \<le> base" by (simp only: word_le_nat_alt u)
  have diff: "unat (of_nat n - of_nat base :: u32) = n - base" if "base \<le> n" using that by (simp add: unat_sub word_le_nat_alt u)
  have "unat (ucast (of_nat c :: u16) :: u32) = c" using h(3) u(3) by (simp add: unsigned_ucast_eq take_bit_nat_eq_self)
  then have cnt: "(ucast (of_nat c :: u16) :: u32) < of_nat n - of_nat base \<longleftrightarrow> c < n - base" if "base \<le> n"
    using diff [OF that] by (simp only: word_less_nat_alt)
  have cast: "(ucast (of_nat n - of_nat base :: u32) :: u16) = of_nat (n - base)" if "base \<le> n"
    using that by (simp only: of_nat_diff [symmetric] word_unat_eq_iff unsigned_ucast_eq unsigned_of_nat) simp
  note rd = seqbase_mem [OF h(1,2)] read_seq_mem(1) [OF h]
  consider "n \<le> base" | "base < n" "n \<le> base + c" | "base + c < n" "n - base \<le> 8 * 4092" | "base + c < n" "\<not> n - base \<le> 8 * 4092"
    by linarith
  then show ?thesis
  proof cases
    case 1
    then show ?thesis using ge by (simp add: genie_flash_write_seq_def rd)
  next
    case 2
    then have "c \<ge> n - base" "n - base \<le> 8 * 4092" using h(3) by simp_all
    then show ?thesis using ge diff cnt 2 by (simp add: genie_flash_write_seq_def rd GENIE_FLASH_SIZE_SEQ_def)
  next
    case 3
    then have "c < n - base" by simp
    then show ?thesis using ge diff cnt cast 3 write_seqcount_mem [OF h(1), of "n - base"]
      by (simp add: genie_flash_write_seq_def rd GENIE_FLASH_SIZE_SEQ_def)
  next
    case 4
    let ?fl = "upd_mem PART_SEQ (\<lambda>_. replicate 4096 0xFF) fl"
    have "genie_flash_write_seqbase (of_nat n) ?fl = (GENIE_FLASH_SUCCESS, upd_mem PART_SEQ (\<lambda>_. seq_mem n 0) ?fl)"
      by (rule write_base_blank [OF _ assms(2)]) (simp add: seq_blank_def)
    then show ?thesis using ge diff 4 delete_seq_blank [of fl] h(1)
      by (simp add: genie_flash_write_seq_def rd GENIE_FLASH_SIZE_SEQ_def upd_mem_def)
  qed
qed

lemma seq_put_step:
  assumes "seq_inv fl" "n < 2 ^ 24"
  shows "seq_inv (seq_put n fl) \<and> seq_get (seq_put n fl) = (case seq_get fl of None \<Rightarrow> Some n | Some m \<Rightarrow> Some (max m n))"
proof (cases "seq_blank fl")
  case True
  have "seq_holds n 0 (seq_put n fl)" using write_seq_blank [OF True assms(2)] assms(2) by (simp add: seq_put_def seq_holds_def)
  then show ?thesis using True seq_get_holds [of n 0] by (auto simp: seq_inv_def seq_get_blank)
next
  case False
  then obtain base c where h: "seq_holds base c fl" using assms(1) by (auto simp: seq_inv_def)
  note w = write_seq_holds [OF h assms(2)]
  consider "n \<le> base + c" | "base + c < n" "n - base \<le> 8 * 4092" | "base + c < n" "\<not> n - base \<le> 8 * 4092" by linarith
  then show ?thesis
  proof cases
    case 1
    then have "seq_put n fl = fl" using w by (simp add: seq_put_def)
    then show ?thesis using assms(1) seq_get_holds [OF h] 1 by simp
  next
    case 2
    then have "seq_holds base (n - base) (seq_put n fl)" using w h by (simp add: seq_put_def seq_holds_def)
    then show ?thesis using seq_get_holds [OF h] seq_get_holds 2 by (auto simp: seq_inv_def)
  next
    case 3
    then have "seq_holds n 0 (seq_put n fl)" using w assms(2) by (simp add: seq_put_def seq_holds_def)
    then show ?thesis using seq_get_holds [OF h] seq_get_holds [of n 0] 3 by (auto simp: seq_inv_def)
  qed
qed

interpretation seq: monotone_store seq_inv seq_get seq_put "2 ^ 24"
  by unfold_locales (use seq_put_step in blast)+

text \<open>
  C16. The stored sequence number refines a number that only grows. After any sequence of
  \<^verbatim>\<open>genie_flash_write_seq\<close> calls with 24-bit numbers, \<^verbatim>\<open>genie_flash_read_seq\<close> returns the largest number written, although the flash memory can
  only clear bits: smaller numbers are refused, larger ones extend the unary count, and a count that is full starts a
  new base.
\<close>

theorem seq_store_refines:
  assumes "seq_inv fl" "\<forall>n\<in>set ns. n < 2 ^ 24"
  shows "seq_get (fold seq_put ns fl) = (case seq_get fl of None \<Rightarrow> if ns = [] then None else Some (Max (set ns))
    | Some m \<Rightarrow> Some (Max (insert m (set ns))))"
  using seq.get_run [OF assms] by blast

definition flash_demo :: flash where
  "flash_demo = \<lparr>fl_mem = (\<lambda>_. replicate 4096 0xFF), fl_info_system = \<lparr>gi_remain = 0, gi_free_offset = 0\<rparr>,
     fl_info_userdata = \<lparr>gi_remain = 0, gi_free_offset = 0\<rparr>, fl_info_recycle = \<lparr>gi_remain = 0, gi_free_offset = 0\<rparr>,
     fl_enc_key = replicate 16 0, fl_project_key = None, fl_custom_2 = [], fl_inited = False, fl_oom = False, fl_fault = False\<rparr>"

lemma flash_demo_blank: "seq_blank flash_demo"
  by (simp add: seq_blank_def flash_demo_def)

theorem seq_store_refines_witness: "seq_get (fold seq_put [5, 9, 7, 100000] flash_demo) = Some 100000"
  using seq_store_refines [of flash_demo "[5, 9, 7, 100000]"] flash_demo_blank by (simp add: seq_inv_def seq_get_blank)

section \<open>A start of the node\<close>

text \<open>The key is derived without touching anything else.\<close>

lemma load_enc_key_sel [simp]: "fl_mem (load_enc_key fl) = fl_mem fl" "fl_oom (load_enc_key fl) = fl_oom fl"
  "fl_info_system (load_enc_key fl) = fl_info_system fl"
  by (simp_all add: load_enc_key_def ginie_flash_get_enc_key_def Let_def split: option.splits sum.splits)

text \<open>What the cell store does to other partitions: nothing.\<close>

lemma write_frame [simp]: "p \<noteq> q \<Longrightarrow> fl_mem (snd (hal_flash_write p off buf fl)) q = fl_mem fl q"
  by (auto simp: hal_flash_write_def)

lemma erase_frame [simp]: "p \<noteq> q \<Longrightarrow> fl_mem (snd (hal_flash_erase p off sz fl)) q = fl_mem fl q"
  by (auto simp: hal_flash_erase_def)

lemma init_partition_frame [simp]: "p \<noteq> q \<Longrightarrow> fl_mem (snd (genie_flash_init_partition p sz fl)) q = fl_mem fl q"
  by (cases p) (simp_all add: genie_flash_init_partition_def Let_def case_prod_beta)

lemma copy_loop_frame [simp]: "fc_pno dst \<noteq> q \<Longrightarrow> fl_mem (snd (copy_loop src dst fl)) q = fl_mem fl q"
proof (induction "fc_end src - fc_offset src" arbitrary: src dst fl rule: less_induct)
  case less
  obtain ret src' where g: "genie_flash_get_header src fl = (ret, src')" by (meson surj_pair)
  have m: "fc_end (next_cell src') - fc_offset (next_cell src') < fc_end src - fc_offset src" if "ret = GENIE_FLASH_SUCCESS"
    using get_header_step [OF g] that by (auto simp: next_cell_def cell_size_def)
  show ?case
    using less.prems less.hyps [OF m]
    by (subst copy_loop.simps) (simp add: g Let_def case_prod_beta split: option.splits)
qed

lemma copy_frame [simp]:
  assumes "fc_pno src \<noteq> q" "fc_pno dst \<noteq> q"
  shows "fl_mem (snd (genie_flash_copy src dst buff fl)) q = fl_mem fl q"
proof -
  have new: "fl_mem (snd (snd (copy_new i buff dst fl))) q = fl_mem fl q" if "fc_pno dst \<noteq> q" for i buff dst fl
    using that by (simp add: copy_new_def Let_def case_prod_beta)
  have pno: "fc_pno (fst (snd (copy_new i buff dst fl))) = fc_pno dst" for i buff dst fl
    by (simp add: copy_new_def Let_def case_prod_beta)
  have flag: "fl_mem (snd (copy_flag p p' fl)) q = fl_mem fl q" if "p \<noteq> q" "p' \<noteq> q" for p p' fl
    using that by (auto simp: copy_flag_def Let_def case_prod_beta split: option.splits)
  obtain d1 f1 where 1: "(if cell_part (fc_pno dst) then (dst\<lparr>fc_offset := 4\<rparr>, snd (genie_flash_init_partition (fc_pno dst) (fc_end dst) fl))
      else (dst\<lparr>fc_offset := 0\<rparr>, snd (hal_flash_erase (fc_pno dst) 0 0x1000 fl))) = (d1, f1)" by (meson surj_pair)
  let ?src = "src\<lparr>fc_offset := (if cell_part (fc_pno src) then 4 else 0)\<rparr>"
  obtain ok d2 f2 where 2: "(if fc_pno d1 = PART_RECYCLE \<and> buff \<noteq> [] then copy_new (fc_index ?src) buff d1 f1 else (True, d1, f1)) = (ok, d2, f2)"
    by (metis prod_cases3)
  have m1: "fc_pno d1 = fc_pno dst" "fl_mem f1 q = fl_mem fl q" using 1 assms(2) by (auto split: if_splits)
  then have m2: "fc_pno d2 = fc_pno dst" "fl_mem f2 q = fl_mem fl q"
    using 2 assms(2) pno [of "fc_index ?src" buff d1 f1] new [of d1 "fc_index ?src" buff f1] by (auto split: if_splits)
  have "genie_flash_copy src dst buff fl = (if \<not> ok then (GENIE_FLASH_WRITE_FAIL, f2)
      else let (ret, fl) = copy_loop ?src d2 f2 in if ret \<noteq> GENIE_FLASH_SUCCESS then (ret, fl) else copy_flag (fc_pno src) (fc_pno d2) fl)"
    unfolding genie_flash_copy_def Let_def 1 prod.case 2 by (simp add: case_prod_beta)
  then show ?thesis using m2 assms flag copy_loop_frame [of d2 q ?src f2] by (simp add: case_prod_beta)
qed

lemma check_recycle_frame [simp]: "q = PART_SEQ \<Longrightarrow> fl_mem (snd (genie_flash_check_recycle fl)) q = fl_mem fl q"
  by (simp add: genie_flash_check_recycle_def Let_def CELL_PREPEAR_RECYCLE_def CELL_PREPEAR_RELIABLE_def CELL_PREPEAR_USERDATA_def
      CELL_PREPEAR_def split: option.splits)

lemma check_partition_frame [simp]: "p \<noteq> q \<Longrightarrow> fl_mem (snd (check_partition p sz fl)) q = fl_mem fl q"
  by (simp add: check_partition_def Let_def)

lemma check_remain_mem [simp]: "fl_mem (genie_flash_check_remain fl) = fl_mem fl"
  by (simp add: genie_flash_check_remain_def Let_def)

lemma checkflag_seq:
  assumes "seq_holds base c fl"
  shows "genie_flash_checkflag PART_SEQ fl = GENIE_FLASH_DATA_INVALID"
proof -
  let ?w = "of_nat base OR 0x1000000 :: u32"
  have "genie_flash_read_seqbase fl = (GENIE_FLASH_SUCCESS, of_nat base)" using assms by (auto simp: seq_holds_def seqbase_mem)
  then have "drop_bit 24 ?w = 1"
    using assms by (simp add: genie_flash_read_seqbase_def hal_flash_read_def seq_holds_def take_seq_mem GENIE_FLASH_START_SEQ_BASE_def
        GENIE_FLASH_FLAG_ACTIVE_def Let_def split: if_splits)
  moreover have "drop_bit 24 (0xFFFFFFFF :: u32) \<noteq> 1" "drop_bit 24 (0xA5A503A8 :: u32) \<noteq> 1" by simp_all
  ultimately have "?w \<noteq> 0xFFFFFFFF" "?w \<noteq> 0xA5A503A8" by metis+
  then show ?thesis using assms
    by (simp add: genie_flash_checkflag_def hal_flash_read_def seq_holds_def take_seq_mem Let_def GENIE_FLASH_FLAG_INITED_ORIGIN_def
        GENIE_FLASH_FLAG_INITED_SEQ_def)
qed

lemma check_seq_erases: "seq_holds base c fl \<Longrightarrow> seq_blank (snd (check_partition PART_SEQ GENIE_FLASH_SIZE_SEQ_PART fl))"
  using checkflag_seq [of base c fl] delete_seq_blank [of fl]
  by (simp add: check_partition_def seq_blank_def seq_holds_def genie_flash_delete_seq_def)

lemma init_erases_seq:
  assumes "\<not> fl_inited fl" "seq_holds base c fl" "genie_flash_init fl = (GENIE_FLASH_SUCCESS, fl')"
  shows "seq_blank fl'"
proof -
  let ?f1 = "snd (genie_flash_check_recycle (load_enc_key (fl\<lparr>fl_inited := True\<rparr>)))"
  let ?f2 = "snd (check_partition PART_USERDATA GENIE_FLASH_SIZE_USERDATA_PART ?f1)"
  let ?f3 = "snd (check_partition PART_SYSTEM GENIE_FLASH_SIZE_SYSTEM_PART ?f2)"
  let ?f4 = "snd (check_partition PART_SEQ GENIE_FLASH_SIZE_SEQ_PART ?f3)"
  have fl': "fl' = genie_flash_check_remain ?f4"
    using assms(1,3) by (simp add: genie_flash_init_def Let_def case_prod_beta split: if_splits)
  have "seq_holds base c ?f3" using assms(2) by (simp add: seq_holds_def)
  then have "seq_blank ?f4" by (rule check_seq_erases)
  then show ?thesis by (simp add: fl' seq_blank_def)
qed

text \<open>
  A start loses the sequence number. The check of the partition at the start expects a flag word where
  the build for these boards keeps the base of the sequence number: whatever number is stored, a successful
  \<^verbatim>\<open>genie_flash_init\<close> erases it and reading it fails afterwards.
\<close>

theorem seq_lost_at_start:
  assumes "\<not> fl_inited fl" "seq_holds base c fl" "genie_flash_init fl = (GENIE_FLASH_SUCCESS, fl')"
  shows "seq_get fl = Some (base + c) \<and> seq_get fl' = None"
  using seq_get_holds [OF assms(2)] seq_get_blank [OF init_erases_seq [OF assms]] by simp

text \<open>A node that has stored the number 1000, with an erased recycle partition and initialised cell partitions.\<close>

definition started_demo :: flash where
  "started_demo = upd_mem PART_SEQ (\<lambda>_. seq_mem 1000 0) (upd_mem PART_SYSTEM (\<lambda>m. put_bytes m 0 (sys_put_le32 GENIE_FLASH_FLAG_INITED_SYS))
     (upd_mem PART_USERDATA (\<lambda>m. put_bytes m 0 (sys_put_le32 GENIE_FLASH_FLAG_INITED_UD)) flash_demo))"

lemma flag_word: "length m = 4096 \<Longrightarrow> sys_get_le32 (take 4 (put_bytes m 0 (sys_put_le32 w))) = w"
  by (simp add: put_bytes_in)

lemma blank_word: "sys_get_le32 (replicate 4 0xFF) = 0xFFFFFFFF"
  by code_simp

lemma started_demo_init: "fst (genie_flash_init started_demo) = GENIE_FLASH_SUCCESS"
proof -
  have h: "seq_holds 1000 0 started_demo" by (simp add: seq_holds_def started_demo_def)
  have r: "genie_flash_check_recycle (started_demo\<lparr>fl_inited := True\<rparr>) = (GENIE_FLASH_SUCCESS, started_demo\<lparr>fl_inited := True\<rparr>)"
    by (simp add: genie_flash_check_recycle_def hal_flash_read_def started_demo_def flash_demo_def Let_def blank_word
        GENIE_FLASH_FLAG_INITED_SYS_def GENIE_FLASH_FLAG_INITED_UD_def)
  have ud: "genie_flash_checkflag PART_USERDATA (started_demo\<lparr>fl_inited := True\<rparr>) = GENIE_FLASH_SUCCESS"
    and sys: "genie_flash_checkflag PART_SYSTEM (started_demo\<lparr>fl_inited := True\<rparr>) = GENIE_FLASH_SUCCESS"
    by (simp_all add: genie_flash_checkflag_def hal_flash_read_def started_demo_def flash_demo_def Let_def flag_word
        GENIE_FLASH_FLAG_INITED_SYS_def GENIE_FLASH_FLAG_INITED_UD_def GENIE_FLASH_FLAG_INITED_ORIGIN_def)
  have "genie_flash_checkflag PART_SEQ (started_demo\<lparr>fl_inited := True\<rparr>) = GENIE_FLASH_DATA_INVALID"
    using h by (intro checkflag_seq [of 1000 0]) (simp add: seq_holds_def)
  then have "fst (check_partition PART_SEQ GENIE_FLASH_SIZE_SEQ_PART (started_demo\<lparr>fl_inited := True\<rparr>)) = GENIE_FLASH_SUCCESS"
    using delete_seq_blank [of "started_demo\<lparr>fl_inited := True\<rparr>"] h by (simp add: check_partition_def seq_holds_def genie_flash_delete_seq_def)
  moreover have "\<not> fl_inited started_demo" "load_enc_key (started_demo\<lparr>fl_inited := True\<rparr>) = started_demo\<lparr>fl_inited := True\<rparr>"
    by (simp_all add: started_demo_def flash_demo_def load_enc_key_def upd_mem_def)
  ultimately show ?thesis using r ud sys
    by (simp add: genie_flash_init_def Let_def case_prod_beta) (simp add: check_partition_def [of PART_USERDATA] check_partition_def [of PART_SYSTEM] Let_def)
qed

theorem seq_lost_at_start_witness: "seq_get started_demo = Some 1000 \<and> seq_get (snd (genie_flash_init started_demo)) = None"
proof -
  have "genie_flash_init started_demo = (GENIE_FLASH_SUCCESS, snd (genie_flash_init started_demo))"
    using started_demo_init by (metis prod.collapse)
  then show ?thesis using seq_lost_at_start [of started_demo 1000 0] by (simp add: started_demo_def flash_demo_def seq_holds_def)
qed

end
