(* ===== verification/Flash_Cells.thy ===== *)
theory Flash_Cells
  imports Flash_Seq
begin

text \<open>
  The layout of the cell store of \<^verbatim>\<open>genie_flash.c\<close>: a partition holds a flag word, a sequence of cells
  and erased memory. The lemmas say what the operations of \<^verbatim>\<open>Genie_Flash\<close> do to this sequence: searching,
  reading, appending and invalidating a cell, copying the active cells to another partition.
\<close>

section \<open>Cells in memory\<close>

record cell =
  cl_header :: flash_header_t
  cl_data :: bytes
  cl_pad :: bytes

definition cell_bytes :: "cell \<Rightarrow> bytes" where
  "cell_bytes c = put_header (cl_header c) @ cl_data c @ cl_pad c"

definition cells_bytes :: "cell list \<Rightarrow> bytes" where
  "cells_bytes cs = concat (map cell_bytes cs)"

definition active :: "cell \<Rightarrow> bool" where
  "active c \<longleftrightarrow> fh_flag (cl_header c) = GENIE_FLASH_FLAG_ACTIVE"

definition cell_index :: "cell \<Rightarrow> u16" where
  "cell_index c = fh_index (cl_header c)"

definition is_cell :: "u16 \<Rightarrow> cell \<Rightarrow> bool" where
  "is_cell i c \<longleftrightarrow> active c \<and> cell_index c = i"

definition cell_ok :: "cell \<Rightarrow> bool" where
  "cell_ok c \<longleftrightarrow> fh_flag (cl_header c) \<noteq> GENIE_FLASH_FLAG_UNSED \<and> length (cl_data c) = unat (fh_length (cl_header c)) \<and>
     length (cl_pad c) = unat (fh_align (cl_header c)) \<and> 4 dvd length (cl_data c) + length (cl_pad c) \<and> length (cl_pad c) < 4 \<and> cl_data c \<noteq> [] \<and>
     (active c \<longrightarrow> util_crc16_compute (cl_data c) = fh_crc (cl_header c))"

text \<open>A partition with flag word \<open>w\<close> that holds the cells \<open>cs\<close>.\<close>

definition part_mem :: "bytes \<Rightarrow> cell list \<Rightarrow> bytes" where
  "part_mem w cs = w @ cells_bytes cs @ replicate (4092 - length (cells_bytes cs)) 0xFF"

definition holds :: "hal_partition_t \<Rightarrow> bytes \<Rightarrow> cell list \<Rightarrow> flash \<Rightarrow> bool" where
  "holds p w cs fl \<longleftrightarrow> fl_mem fl p = part_mem w cs \<and> length w = 4 \<and> length (cells_bytes cs) \<le> 4092 \<and> (\<forall>c\<in>set cs. cell_ok c)"

lemma cells_bytes_simps [simp]:
  "cells_bytes [] = []" "cells_bytes (c # cs) = cell_bytes c @ cells_bytes cs" "cells_bytes (cs @ ds) = cells_bytes cs @ cells_bytes ds"
  by (simp_all add: cells_bytes_def)

lemma length_put_header [simp]: "length (put_header h) = 8"
  by (simp add: put_header_def)

lemma length_cell_bytes: "cell_ok c \<Longrightarrow> length (cell_bytes c) = cell_size (cl_header c)"
  by (simp add: cell_bytes_def cell_ok_def cell_size_def)

lemma get_put_header: "get_header (put_header h @ xs) = h"
proof -
  have "get_header (put_header h @ xs) = \<lparr>fh_flag = fh_flag h, fh_align = fh_align h, fh_index = sys_get_le16 (sys_put_le16 (fh_index h)),
    fh_length = sys_get_le16 (sys_put_le16 (fh_length h)), fh_crc = sys_get_le16 (sys_put_le16 (fh_crc h))\<rparr>"
    by (simp add: get_header_def put_header_def)
  then show ?thesis by simp
qed

lemma length_part_mem: "length w = 4 \<Longrightarrow> length (cells_bytes cs) \<le> 4092 \<Longrightarrow> length (part_mem w cs) = 4096"
  by (simp add: part_mem_def)

lemma size_mod4: "cell_ok c \<Longrightarrow> 4 dvd length (cell_bytes c)"
  unfolding cell_bytes_def cell_ok_def by (auto intro!: dvd_add [of 4 8])

lemma sizes_mod4: "\<forall>c\<in>set cs. cell_ok c \<Longrightarrow> 4 dvd length (cells_bytes cs)"
  by (induction cs) (simp_all add: size_mod4)

section \<open>Walking through the cells\<close>

text \<open>At the start of a cell its header is found, after the last cell none is.\<close>

lemma get_header_cell:
  assumes "fl_mem fl p = A @ cell_bytes c @ B" "cell_ok c" "fc_pno cell = p" "fc_offset cell = length A" "fc_end cell = 4096"
    "length (fl_mem fl p) = 4096"
  shows "genie_flash_get_header cell fl = (GENIE_FLASH_SUCCESS, cell\<lparr>fc_header := cl_header c\<rparr>)"
proof -
  have m: "length A + (8 + (length (cl_data c) + (length (cl_pad c) + length B))) = 4096"
    using arg_cong [OF assms(1), of length] assms(6) by (simp add: cell_bytes_def)
  then have "hal_flash_read p (length A) 8 fl = Some (put_header (cl_header c))"
    using assms(1,6) by (simp add: hal_flash_read_def cell_bytes_def)
  moreover have "get_header (put_header (cl_header c)) = cl_header c" using get_put_header [of _ "[]"] by simp
  ultimately show ?thesis using assms(2-5) m by (simp add: genie_flash_get_header_def cell_ok_def)
qed

lemma get_header_end:
  assumes "fl_mem fl p = A @ replicate k 0xFF" "fc_pno cell = p" "fc_offset cell = length A" "fc_end cell = 4096"
    "length (fl_mem fl p) = 4096"
  obtains ret cell' where "genie_flash_get_header cell fl = (ret, cell')" "ret \<noteq> GENIE_FLASH_SUCCESS" "fc_offset cell' = fc_offset cell"
    "fc_header cell' = fc_header cell \<or> fh_flag (fc_header cell') = GENIE_FLASH_FLAG_UNSED" "fc_index cell' = fc_index cell"
proof -
  have "length A + k = 4096" using arg_cong [OF assms(1), of length] assms(5) by simp
  then have r: "hal_flash_read p (length A) 8 fl = (if 8 \<le> k then Some (replicate 8 0xFF) else None)"
    using assms(1,5) by (simp add: hal_flash_read_def)
  have u: "fh_flag (get_header (replicate 8 0xFF)) = GENIE_FLASH_FLAG_UNSED" by (simp add: get_header_def GENIE_FLASH_FLAG_UNSED_def)
  show ?thesis
    using that assms(2-4) r u by (cases "genie_flash_get_header cell fl") (auto simp: genie_flash_get_header_def Let_def split: if_splits)
qed

section \<open>Searching and reading\<close>

definition no_hit :: "genie_flash_cell_t \<Rightarrow> bool" where
  "no_hit cell \<longleftrightarrow> \<not> (fh_flag (fc_header cell) = GENIE_FLASH_FLAG_ACTIVE \<and> fh_index (fc_header cell) = fc_index cell)"

lemma search_none:
  assumes "fl_mem fl p = A @ cells_bytes cs @ replicate k 0xFF" "\<forall>c\<in>set cs. cell_ok c \<and> \<not> is_cell (fc_index cell) c"
    "fc_pno cell = p" "fc_offset cell = length A" "fc_end cell = 4096" "length (fl_mem fl p) = 4096" "no_hit cell"
  shows "fst (genie_flash_search cell fl) \<noteq> GENIE_FLASH_SUCCESS"
  using assms
proof (induction cs arbitrary: A cell)
  case Nil
  obtain ret cell' where "genie_flash_get_header cell fl = (ret, cell')" "ret \<noteq> GENIE_FLASH_SUCCESS"
      "fc_header cell' = fc_header cell \<or> fh_flag (fc_header cell') = GENIE_FLASH_FLAG_UNSED" "fc_index cell' = fc_index cell"
    by (rule get_header_end [of fl p A k cell]) (use Nil.prems in auto)
  then show ?case using Nil.prems(7) by (subst genie_flash_search.simps) (auto simp: no_hit_def GENIE_FLASH_FLAG_ACTIVE_def GENIE_FLASH_FLAG_UNSED_def)
next
  case (Cons c cs)
  let ?c = "cell\<lparr>fc_header := cl_header c\<rparr>"
  have g: "genie_flash_get_header cell fl = (GENIE_FLASH_SUCCESS, ?c)"
    by (rule get_header_cell [of fl p A c "cells_bytes cs @ replicate k 0xFF"]) (use Cons.prems in auto)
  have n: "no_hit (next_cell ?c)" using Cons.prems(2) by (simp add: no_hit_def next_cell_def is_cell_def active_def cell_index_def)
  have "fst (genie_flash_search (next_cell ?c) fl) \<noteq> GENIE_FLASH_SUCCESS"
    by (rule Cons.IH [of "A @ cell_bytes c"]) (use Cons.prems n in \<open>auto simp: next_cell_def length_cell_bytes\<close>)
  moreover have "genie_flash_search cell fl = genie_flash_search (next_cell ?c) fl"
    using n by (subst genie_flash_search.simps) (auto simp: g no_hit_def next_cell_def)
  ultimately show ?case by simp
qed

lemma search_hit:
  assumes "fl_mem fl p = A @ cells_bytes (cs1 @ c # cs2) @ B" "\<forall>c\<in>set cs1. cell_ok c \<and> \<not> is_cell (fc_index cell) c"
    "cell_ok c" "is_cell (fc_index cell) c"
    "fc_pno cell = p" "fc_offset cell = length A" "fc_end cell = 4096" "length (fl_mem fl p) = 4096"
  shows "genie_flash_search cell fl =
    (GENIE_FLASH_SUCCESS, cell\<lparr>fc_header := cl_header c, fc_offset := length A + length (cells_bytes cs1)\<rparr>)"
  using assms
proof (induction cs1 arbitrary: A cell)
  case Nil
  have "genie_flash_get_header cell fl = (GENIE_FLASH_SUCCESS, cell\<lparr>fc_header := cl_header c\<rparr>)"
    by (rule get_header_cell [of fl p A c "cells_bytes cs2 @ B"]) (use Nil.prems in auto)
  then show ?case using Nil.prems by (subst genie_flash_search.simps) (simp add: is_cell_def active_def cell_index_def)
next
  case (Cons d cs)
  let ?c = "cell\<lparr>fc_header := cl_header d\<rparr>"
  have g: "genie_flash_get_header cell fl = (GENIE_FLASH_SUCCESS, ?c)"
    by (rule get_header_cell [of fl p A d "cells_bytes (cs @ c # cs2) @ B"]) (use Cons.prems in auto)
  have "genie_flash_search (next_cell ?c) fl = (GENIE_FLASH_SUCCESS, (next_cell ?c)\<lparr>fc_header := cl_header c, fc_offset := length (A @ cell_bytes d) + length (cells_bytes cs)\<rparr>)"
    by (rule Cons.IH) (use Cons.prems in \<open>auto simp: next_cell_def length_cell_bytes\<close>)
  moreover have "genie_flash_search cell fl = genie_flash_search (next_cell ?c) fl"
    using Cons.prems(2) by (subst genie_flash_search.simps) (auto simp: g is_cell_def active_def cell_index_def next_cell_def)
  ultimately show ?case by (simp add: next_cell_def)
qed

text \<open>The contents of a log: the data of the first active cell with an index.\<close>

definition lookup :: "cell list \<Rightarrow> u16 \<rightharpoonup> bytes" where
  "lookup cs i = map_option cl_data (find (is_cell i) cs)"

lemma lookup_None: "lookup cs i = None \<longleftrightarrow> (\<forall>c\<in>set cs. \<not> is_cell i c)"
  by (auto simp: lookup_def find_None_iff)

lemma find_append: "find P (xs @ ys) = (case find P xs of None \<Rightarrow> find P ys | r \<Rightarrow> r)"
  by (induction xs) auto

lemma lookup_Some:
  assumes "lookup cs i = Some d"
  obtains cs1 c cs2 where "cs = cs1 @ c # cs2" "is_cell i c" "cl_data c = d" "\<forall>c\<in>set cs1. \<not> is_cell i c"
proof -
  have "\<exists>c\<in>set cs. is_cell i c" using assms lookup_None [of cs i] by auto
  from split_list_first_prop [OF this] obtain cs1 c cs2 where s: "cs = cs1 @ c # cs2" "is_cell i c" "\<forall>c\<in>set cs1. \<not> is_cell i c" by auto
  then have "find (is_cell i) cs1 = None" by (simp add: find_None_iff)
  then have "find (is_cell i) cs = Some c" using s by (simp add: find_append)
  then show thesis using assms s that by (simp add: lookup_def)
qed

text \<open>The cell with which the operations of a partition begin.\<close>

definition start_cell :: "hal_partition_t \<Rightarrow> u16 \<Rightarrow> genie_flash_cell_t" where
  "start_cell p i = CELL_PREPEAR i p 4 4092"

lemma start_cell_sel [simp]:
  "fc_index (start_cell p i) = i" "fc_pno (start_cell p i) = p" "fc_offset (start_cell p i) = 4" "fc_end (start_cell p i) = 4096"
  "no_hit (start_cell p i)"
  by (simp_all add: start_cell_def CELL_PREPEAR_def no_hit_def GENIE_FLASH_FLAG_ACTIVE_def)

lemma start_cell_eq: "CELL_PREPEAR_RELIABLE i = start_cell PART_SYSTEM i" "CELL_PREPEAR_USERDATA i = start_cell PART_USERDATA i"
  by (simp_all add: CELL_PREPEAR_RELIABLE_def CELL_PREPEAR_USERDATA_def start_cell_def GENIE_FLASH_SIZE_INITED_FLAG_def
      GENIE_FLASH_SIZE_RELIABLE_def GENIE_FLASH_SIZE_USERDATA_def)

lemma search_lookup:
  assumes "holds p w cs fl"
  shows "lookup cs i = None \<Longrightarrow> fst (genie_flash_search (start_cell p i) fl) \<noteq> GENIE_FLASH_SUCCESS"
    "cs = cs1 @ c # cs2 \<Longrightarrow> is_cell i c \<Longrightarrow> \<forall>c\<in>set cs1. \<not> is_cell i c \<Longrightarrow>
      genie_flash_search (start_cell p i) fl =
        (GENIE_FLASH_SUCCESS, (start_cell p i)\<lparr>fc_header := cl_header c, fc_offset := 4 + length (cells_bytes cs1)\<rparr>)"
proof -
  have m: "fl_mem fl p = w @ cells_bytes cs @ replicate (4092 - length (cells_bytes cs)) 0xFF" "length (fl_mem fl p) = 4096" "length w = 4"
    "\<forall>c\<in>set cs. cell_ok c"
    using assms length_part_mem [of w cs] by (auto simp: holds_def part_mem_def)
  show "fst (genie_flash_search (start_cell p i) fl) \<noteq> GENIE_FLASH_SUCCESS" if "lookup cs i = None"
    by (rule search_none [OF m(1)]) (use m that in \<open>auto simp: lookup_None\<close>)
  show "genie_flash_search (start_cell p i) fl =
        (GENIE_FLASH_SUCCESS, (start_cell p i)\<lparr>fc_header := cl_header c, fc_offset := 4 + length (cells_bytes cs1)\<rparr>)"
    if "cs = cs1 @ c # cs2" "is_cell i c" "\<forall>c\<in>set cs1. \<not> is_cell i c"
    using search_hit [of fl p w cs1 c cs2 _ "start_cell p i"] m that by auto
qed

text \<open>Reading returns the contents, for a buffer that is large enough or of size zero.\<close>

lemma read_lookup:
  assumes "holds p w cs fl"
  shows "lookup cs i = None \<Longrightarrow> fst (genie_flash_read (start_cell p i) sz fl) \<noteq> GENIE_FLASH_SUCCESS"
    "lookup cs i = Some d \<Longrightarrow> sz = 0 \<or> length d \<le> sz \<Longrightarrow> genie_flash_read (start_cell p i) sz fl = (GENIE_FLASH_SUCCESS, d)"
proof -
  show "fst (genie_flash_read (start_cell p i) sz fl) \<noteq> GENIE_FLASH_SUCCESS" if "lookup cs i = None"
    using search_lookup(1) [OF assms that] by (simp add: genie_flash_read_def case_prod_beta)
  assume l: "lookup cs i = Some d" and sz: "sz = 0 \<or> length d \<le> sz"
  obtain cs1 c cs2 where s: "cs = cs1 @ c # cs2" "is_cell i c" "cl_data c = d" "\<forall>c\<in>set cs1. \<not> is_cell i c" by (rule lookup_Some [OF l])
  have ok: "cell_ok c" "length w = 4" "length (fl_mem fl p) = 4096" using assms s(1) length_part_mem [of w cs] by (auto simp: holds_def)
  let ?B = "cl_pad c @ cells_bytes cs2 @ replicate (4092 - length (cells_bytes cs)) 0xFF"
  have m: "fl_mem fl p = (w @ cells_bytes cs1 @ put_header (cl_header c)) @ d @ ?B"
    using assms s by (simp add: holds_def part_mem_def cell_bytes_def)
  then have "hal_flash_read p (4 + length (cells_bytes cs1) + 8) (length d) fl = Some d"
    using ok arg_cong [OF m, of length] by (simp add: hal_flash_read_def)
  moreover have "length d = unat (fh_length (cl_header c))" "util_crc16_compute d = fh_crc (cl_header c)" 
    using ok(1) s by (auto simp: cell_ok_def is_cell_def)
  ultimately show "genie_flash_read (start_cell p i) sz fl = (GENIE_FLASH_SUCCESS, d)"
    using sz search_lookup(2) [OF assms s(1,2,4)] by (auto simp: genie_flash_read_def Let_def)
qed

section \<open>Writing cells\<close>

definition set_mem :: "hal_partition_t \<Rightarrow> bytes \<Rightarrow> flash \<Rightarrow> flash" where
  "set_mem p m fl = upd_mem p (\<lambda>_. m) fl"

lemma set_mem_sel [simp]:
  "fl_mem (set_mem p m fl) q = (if q = p then m else fl_mem fl q)" "fl_oom (set_mem p m fl) = fl_oom fl"
  "fl_enc_key (set_mem p m fl) = fl_enc_key fl" "fl_info_system (set_mem p m fl) = fl_info_system fl"
  "fl_info_userdata (set_mem p m fl) = fl_info_userdata fl" "set_mem p m (set_mem p m' fl) = set_mem p m fl"
  by (simp_all add: set_mem_def upd_mem_def)

lemma set_mem_id: "fl_mem fl p = m \<Longrightarrow> set_mem p m fl = fl"
  by (auto simp: set_mem_def upd_mem_def)

lemma upd_mem_set: "upd_mem p f fl = set_mem p (f (fl_mem fl p)) fl"
  by (simp add: set_mem_def upd_mem_def)

text \<open>A write into erased memory and a write of one byte.\<close>

lemma write_append:
  assumes "fl_mem fl p = A @ replicate k 0xFF" "length buf \<le> k" "off = length A"
  shows "hal_flash_write p off buf fl = (True, set_mem p (A @ buf @ replicate (k - length buf) 0xFF) fl)"
proof -
  let ?m = "A @ replicate k 0xFF"
  have "put_bytes ?m off (and_bytes (take (length buf) (drop off ?m)) buf) = put_bytes ?m off buf"
    by (rule hal_write_blank) (use assms in \<open>auto simp: nth_append\<close>)
  also have "\<dots> = A @ buf @ replicate (k - length buf) 0xFF" using assms by (simp add: put_bytes_in)
  finally show ?thesis using assms by (simp add: hal_write_ok upd_mem_set)
qed

lemma write_flag:
  assumes "fl_mem fl p = A @ b # B" "off = length A"
  shows "hal_flash_write p off [v] fl = (True, set_mem p (A @ (b AND v) # B) fl)"
  using assms write_byte_mem [of off "A @ b # B" v] by (simp add: hal_write_ok upd_mem_set)

text \<open>A header, data and erased memory behind them are a cell.\<close>

lemma write_two:
  assumes "fl_mem fl p = A @ replicate k 0xFF" "8 + length buf \<le> k" "off = length A"
  shows "hal_flash_write p off (put_header h) fl = (True, set_mem p (A @ put_header h @ replicate (k - 8) 0xFF) fl)"
    "hal_flash_write p (off + 8) buf (set_mem p (A @ put_header h @ replicate (k - 8) 0xFF) fl) =
      (True, set_mem p (A @ put_header h @ buf @ replicate (k - 8 - length buf) 0xFF) fl)"
proof -
  show "hal_flash_write p off (put_header h) fl = (True, set_mem p (A @ put_header h @ replicate (k - 8) 0xFF) fl)"
    using write_append [OF assms(1), of "put_header h" off] assms(2,3) by simp
  show "hal_flash_write p (off + 8) buf (set_mem p (A @ put_header h @ replicate (k - 8) 0xFF) fl) =
      (True, set_mem p (A @ put_header h @ buf @ replicate (k - 8 - length buf) 0xFF) fl)"
    using write_append [of "set_mem p (A @ put_header h @ replicate (k - 8) 0xFF) fl" p "A @ put_header h" "k - 8" buf "off + 8"] assms(2,3) by simp
qed

lemma pad_blank: "n \<le> k \<Longrightarrow> replicate k x = replicate n x @ replicate (k - n) x"
  by (simp add: replicate_add [symmetric])

text \<open>The cell that a write appends.\<close>

definition new_cell :: "u16 \<Rightarrow> bytes \<Rightarrow> cell" where
  "new_cell i buff = \<lparr>cl_header = new_header GENIE_FLASH_FLAG_ACTIVE i buff, cl_data = buff,
     cl_pad = replicate (unat (align_count (length buff))) 0xFF\<rparr>"

lemma align_dvd: "4 dvd n + unat (align_count n)" "unat (align_count n) < 4"
proof -
  have u: "unat (align_count n) = (if n mod 4 \<noteq> 0 then 4 - n mod 4 else 0)"
  proof -
    have "unat (of_nat (4 - n mod 4) :: u8) = 4 - n mod 4" by (rule of_nat_inverse) simp_all
    then show ?thesis by (simp add: align_count_def del: of_nat_diff)
  qed
  show "unat (align_count n) < 4" unfolding u by (cases "n mod 4 = 0") auto
  define q r where "q = n div 4" and "r = n mod 4"
  then have "n = 4 * q + r" "r < 4" by simp_all
  then have "n + (4 - r) = 4 * (q + 1)" by simp
  then show "4 dvd n + unat (align_count n)" unfolding u by (cases "n mod 4 = 0") (auto simp: r_def)
qed

lemma new_cell_sel [simp]:
  "active (new_cell i b)" "cell_index (new_cell i b) = i" "cl_data (new_cell i b) = b" "is_cell j (new_cell i b) \<longleftrightarrow> i = j"
  by (simp_all add: new_cell_def active_def cell_index_def new_header_def is_cell_def)

lemma new_cell_ok: "b \<noteq> [] \<Longrightarrow> length b < 65536 \<Longrightarrow> cell_ok (new_cell i b)"
  using align_dvd [of "length b"] by (simp add: cell_ok_def new_cell_def new_header_def GENIE_FLASH_FLAG_ACTIVE_def GENIE_FLASH_FLAG_UNSED_def unat_of_nat)

lemma length_new_cell: "length (cell_bytes (new_cell i b)) = 8 + length b + unat (align_count (length b))"
  by (simp add: cell_bytes_def new_cell_def)

text \<open>Space that fits a cell fits it with its padding, since everything is aligned.\<close>

lemma aligned_fit:
  assumes "4 dvd n" "length b + 8 \<le> n"
  shows "length (cell_bytes (new_cell i b)) \<le> n"
proof -
  let ?a = "unat (align_count (length b))"
  obtain x y where x: "n = 4 * x" and y: "length b + ?a = 4 * y" using assms(1) align_dvd(1) [of "length b"] by (auto elim!: dvdE)
  have "4 * y + 8 < 4 * x + 4" using assms(2) align_dvd(2) [of "length b"] unfolding x y [symmetric] by linarith
  then have "y + 2 \<le> x" by simp
  then show ?thesis unfolding length_new_cell x using y by linarith
qed

lemma put_header_flag: "put_header h = fh_flag h # tl (put_header h)" "tl (put_header (h\<lparr>fh_flag := v\<rparr>)) = tl (put_header h)"
  by (simp_all add: put_header_def)

lemma write_cell_log:
  assumes h: "holds p w cs fl" and b: "b \<noteq> []" "length b + 8 \<le> 4092 - length (cells_bytes cs)"
  shows "write_cell p (4 + length (cells_bytes cs)) i b fl = (True, set_mem p (part_mem w (cs @ [new_cell i b])) fl)"
    "holds p w (cs @ [new_cell i b]) (set_mem p (part_mem w (cs @ [new_cell i b])) fl)"
proof -
  let ?A = "w @ cells_bytes cs" and ?k = "4092 - length (cells_bytes cs)" and ?H = "new_header GENIE_FLASH_FLAG_WRITING i b"
  let ?m = "?A @ put_header ?H @ b @ replicate (?k - 8 - length b) 0xFF" and ?a = "unat (align_count (length b))"
  have m: "fl_mem fl p = ?A @ replicate ?k 0xFF" and w: "length w = 4" "\<forall>c\<in>set cs. cell_ok c" "length (cells_bytes cs) \<le> 4092"
    using h by (simp_all add: holds_def part_mem_def)
  have "4 dvd ?k" using sizes_mod4 [OF w(2)] by (simp add: dvd_diff_nat)
  note fit = aligned_fit [OF this b(2), of i]
  have off: "4 + length (cells_bytes cs) = length ?A" "8 + length b \<le> ?k" using w b(2) by simp_all
  note two = write_two [OF m off(2,1), of ?H]
  have new: "cl_header (new_cell i b) = ?H\<lparr>fh_flag := 1\<rparr>" by (simp add: new_cell_def new_header_def GENIE_FLASH_FLAG_ACTIVE_def)
  have e: "part_mem w (cs @ [new_cell i b]) = ?A @ 1 # tl (put_header ?H) @ b @ replicate (?k - 8 - length b) 0xFF"
  proof -
    have "replicate (?k - 8 - length b) 0xFF = replicate ?a 0xFF @ replicate (?k - 8 - length b - ?a) (0xFF :: u8)"
      by (rule pad_blank) (use fit in \<open>simp add: length_new_cell\<close>)
    moreover have "put_header (?H\<lparr>fh_flag := 1\<rparr>) = 1 # tl (put_header ?H)"
      using put_header_flag(1) [of "?H\<lparr>fh_flag := 1\<rparr>"] by (simp add: put_header_flag(2))
    ultimately show ?thesis
      using fit by (simp add: part_mem_def cell_bytes_def new) (simp add: new_cell_def)
  qed
  have "hal_flash_write p (4 + length (cells_bytes cs)) [GENIE_FLASH_FLAG_ACTIVE] (set_mem p ?m fl) =
      (True, set_mem p (part_mem w (cs @ [new_cell i b])) fl)"
    using write_flag [of "set_mem p ?m fl" p ?A "fh_flag ?H" "tl (put_header ?H) @ b @ replicate (?k - 8 - length b) 0xFF"] off(1)
      put_header_flag(1) [of ?H] by (simp add: e) (simp add: new_header_def GENIE_FLASH_FLAG_ACTIVE_def GENIE_FLASH_FLAG_WRITING_def)
  then show "write_cell p (4 + length (cells_bytes cs)) i b fl = (True, set_mem p (part_mem w (cs @ [new_cell i b])) fl)"
    using two by (simp add: write_cell_def add.commute)
  show "holds p w (cs @ [new_cell i b]) (set_mem p (part_mem w (cs @ [new_cell i b])) fl)"
    using w fit new_cell_ok [OF b(1), of i] b(2) by (auto simp: holds_def)
qed

section \<open>Invalidating a cell\<close>

definition invalidate :: "cell \<Rightarrow> cell" where
  "invalidate c = c\<lparr>cl_header := (cl_header c)\<lparr>fh_flag := GENIE_FLASH_FLAG_INVALID\<rparr>\<rparr>"

lemma invalidate_sel [simp]: "\<not> active (invalidate c)" "\<not> is_cell i (invalidate c)" "length (cell_bytes (invalidate c)) = length (cell_bytes c)"
  by (simp_all add: invalidate_def active_def is_cell_def cell_bytes_def GENIE_FLASH_FLAG_INVALID_def GENIE_FLASH_FLAG_ACTIVE_def)

lemma invalidate_ok: "cell_ok c \<Longrightarrow> cell_ok (invalidate c)"
  using invalidate_sel(1) [of c] by (auto simp: cell_ok_def invalidate_def GENIE_FLASH_FLAG_INVALID_def GENIE_FLASH_FLAG_UNSED_def)

lemma delete_flag_log:
  assumes "holds p w (cs1 @ c # cs2) fl"
  shows "genie_flash_delete_flag p (4 + length (cells_bytes cs1)) fl =
      (GENIE_FLASH_SUCCESS, set_mem p (part_mem w (cs1 @ invalidate c # cs2)) fl)"
    "holds p w (cs1 @ invalidate c # cs2) (set_mem p (part_mem w (cs1 @ invalidate c # cs2)) fl)"
proof -
  define T where "T = tl (put_header (cl_header c))"
  let ?B = "T @ cl_data c @ cl_pad c @ cells_bytes cs2 @ replicate (4092 - length (cells_bytes (cs1 @ c # cs2))) 0xFF"
  have h: "put_header (cl_header c) = fh_flag (cl_header c) # T"
      "put_header (cl_header c\<lparr>fh_flag := GENIE_FLASH_FLAG_INVALID\<rparr>) = GENIE_FLASH_FLAG_INVALID # T"
    unfolding T_def by (simp_all add: put_header_def)
  have "part_mem w (cs1 @ c # cs2) = (w @ cells_bytes cs1) @ fh_flag (cl_header c) # ?B"
    by (simp add: part_mem_def cell_bytes_def [of c] h)
  moreover have "part_mem w (cs1 @ invalidate c # cs2) = (w @ cells_bytes cs1) @ GENIE_FLASH_FLAG_INVALID # ?B"
  proof -
    have "cell_bytes (invalidate c) = GENIE_FLASH_FLAG_INVALID # T @ cl_data c @ cl_pad c" by (simp add: cell_bytes_def invalidate_def h)
    then show ?thesis using invalidate_sel(3) [of c] by (simp add: part_mem_def)
  qed
  ultimately show "genie_flash_delete_flag p (4 + length (cells_bytes cs1)) fl =
      (GENIE_FLASH_SUCCESS, set_mem p (part_mem w (cs1 @ invalidate c # cs2)) fl)"
    using assms write_flag [of fl p "w @ cells_bytes cs1" "fh_flag (cl_header c)" ?B]
    by (simp add: genie_flash_delete_flag_def holds_def GENIE_FLASH_FLAG_INVALID_def)
  show "holds p w (cs1 @ invalidate c # cs2) (set_mem p (part_mem w (cs1 @ invalidate c # cs2)) fl)"
    using assms by (auto simp: holds_def invalidate_ok)
qed

section \<open>Copying the active cells\<close>

definition copied :: "cell \<Rightarrow> cell" where
  "copied c = c\<lparr>cl_pad := replicate (length (cl_pad c)) 0xFF\<rparr>"

definition kept :: "u16 \<Rightarrow> cell list \<Rightarrow> cell list" where
  "kept i cs = map copied (filter (\<lambda>c. active c \<and> cell_index c \<noteq> i) cs)"

lemma copied_sel [simp]: "cl_header (copied c) = cl_header c" "cl_data (copied c) = cl_data c" "active (copied c) = active c"
  "cell_index (copied c) = cell_index c" "is_cell i (copied c) = is_cell i c" "length (cell_bytes (copied c)) = length (cell_bytes c)"
  by (simp_all add: copied_def active_def cell_index_def is_cell_def cell_bytes_def)

lemma copied_ok: "cell_ok c \<Longrightarrow> cell_ok (copied c)"
  by (auto simp: cell_ok_def copied_def active_def)

lemma kept_simps [simp]: "kept i [] = []" "kept i (c # cs) = (if active c \<and> cell_index c \<noteq> i then copied c # kept i cs else kept i cs)"
  by (simp_all add: kept_def)

lemma copied_bytes:
  assumes "cell_ok c" "length (cell_bytes c) \<le> j"
  shows "cell_bytes (copied c) @ replicate (j - length (cell_bytes c)) 0xFF =
    put_header (cl_header c) @ cl_data c @ replicate (j - 8 - length (cl_data c)) 0xFF"
  using pad_blank [of "length (cl_pad c)" "j - 8 - length (cl_data c)" "0xFF :: u8"] assms(2)
  by (simp add: cell_bytes_def copied_def)

lemma copy_loop_log:
  assumes "fl_mem fl p = A @ cells_bytes cs @ replicate k 0xFF" "length (fl_mem fl p) = 4096" "\<forall>c\<in>set cs. cell_ok c"
    "fc_pno src = p" "fc_offset src = length A" "fc_end src = 4096"
    "fc_pno dst = q" "p \<noteq> q" "fl_mem fl q = D @ replicate j 0xFF" "fc_offset dst = length D"
    "length (cells_bytes (kept (fc_index src) cs)) \<le> j" "\<not> fl_oom fl"
  shows "copy_loop src dst fl = (GENIE_FLASH_SUCCESS, set_mem q
    (D @ cells_bytes (kept (fc_index src) cs) @ replicate (j - length (cells_bytes (kept (fc_index src) cs))) 0xFF) fl)"
  using assms
proof (induction cs arbitrary: A src D dst fl j)
  case Nil
  obtain ret src' where "genie_flash_get_header src fl = (ret, src')" "ret \<noteq> GENIE_FLASH_SUCCESS"
    by (rule get_header_end [of fl p A k src]) (use Nil.prems in auto)
  then show ?case using Nil.prems(9) by (subst copy_loop.simps) (simp add: set_mem_id)
next
  case (Cons c cs)
  let ?s = "src\<lparr>fc_header := cl_header c\<rparr>" and ?i = "fc_index src"
  have g: "genie_flash_get_header src fl = (GENIE_FLASH_SUCCESS, ?s)"
    by (rule get_header_cell [of fl p A c "cells_bytes cs @ replicate k 0xFF"]) (use Cons.prems in auto)
  have len: "length (cell_bytes c) = cell_size (cl_header c)" using Cons.prems(3) by (simp add: length_cell_bytes)
  show ?case
  proof (cases "active c \<and> cell_index c \<noteq> ?i")
    case False
    have "copy_loop (next_cell ?s) dst fl = (GENIE_FLASH_SUCCESS, set_mem q
        (D @ cells_bytes (kept ?i cs) @ replicate (j - length (cells_bytes (kept ?i cs))) 0xFF) fl)"
      using Cons.IH [of fl "A @ cell_bytes c" "next_cell ?s" dst D j] Cons.prems False len by (auto simp: next_cell_def)
    moreover have "copy_loop src dst fl = copy_loop (next_cell ?s) dst fl"
      using False by (subst copy_loop.simps) (auto simp: g active_def cell_index_def)
    moreover have "kept ?i (c # cs) = kept ?i cs" using False by simp
    ultimately show ?thesis by simp
  next
    case True
    let ?h = "cl_header c" and ?d = "cl_data c"
    let ?D = "D @ cell_bytes (copied c)" and ?j = "j - length (cell_bytes c)"
    let ?f1 = "set_mem q (D @ put_header ?h @ replicate (j - 8) 0xFF) fl"
    let ?f2 = "set_mem q (?D @ replicate ?j 0xFF) fl"
    have fit: "length (cell_bytes c) + length (cells_bytes (kept ?i cs)) \<le> j" using Cons.prems(11) True by simp
    then have fd: "8 + length ?d \<le> j" by (simp add: cell_bytes_def)
    have ok: "cell_ok c" using Cons.prems(3) by simp
    note two = write_two [OF Cons.prems(9) fd Cons.prems(10), of ?h]
    have m2: "D @ put_header ?h @ ?d @ replicate (j - 8 - length ?d) 0xFF = ?D @ replicate ?j 0xFF"
      using copied_bytes [OF ok, of j] fit by simp
    have rd: "hal_flash_read p (fc_offset src + 8) (unat (fh_length ?h)) ?f1 = Some ?d"
      using Cons.prems(1,2,5,8) ok arg_cong [OF Cons.prems(1), of length]
      by (simp add: hal_flash_read_def cell_bytes_def cell_ok_def)
    have "copy_loop (next_cell ?s) (dst\<lparr>fc_offset := fc_offset dst + cell_size ?h\<rparr>) ?f2 = (GENIE_FLASH_SUCCESS, set_mem q
        (?D @ cells_bytes (kept ?i cs) @ replicate (?j - length (cells_bytes (kept ?i cs))) 0xFF) ?f2)"
      using Cons.IH [of ?f2 "A @ cell_bytes c" "next_cell ?s" "dst\<lparr>fc_offset := fc_offset dst + cell_size ?h\<rparr>" ?D ?j] Cons.prems fit len
      by (auto simp: next_cell_def)
    moreover have "copy_loop src dst fl = copy_loop (next_cell ?s) (dst\<lparr>fc_offset := fc_offset dst + cell_size ?h\<rparr>) ?f2"
      using True two Cons.prems(4,7,12) rd m2 by (subst copy_loop.simps) (auto simp: g active_def cell_index_def Let_def)
    ultimately show ?thesis using True by simp
  qed
qed

section \<open>Copying a partition\<close>

text \<open>The flag word and the variables of a partition that has just been initialised.\<close>

definition part_flag :: "hal_partition_t \<Rightarrow> bytes" where
  "part_flag p = sys_put_le32 (case p of PART_SYSTEM \<Rightarrow> GENIE_FLASH_FLAG_INITED_SYS | PART_USERDATA \<Rightarrow> GENIE_FLASH_FLAG_INITED_UD
     | _ \<Rightarrow> GENIE_FLASH_FLAG_INITED_INVALID)"

definition fresh_info :: "hal_partition_t \<Rightarrow> flash \<Rightarrow> flash" where
  "fresh_info p fl = (case p of
       PART_SYSTEM \<Rightarrow> fl\<lparr>fl_info_system := \<lparr>gi_remain = of_nat 4092, gi_free_offset = 4\<rparr>\<rparr>
     | PART_USERDATA \<Rightarrow> fl\<lparr>fl_info_userdata := \<lparr>gi_remain = of_nat 4092, gi_free_offset = 4\<rparr>\<rparr>
     | _ \<Rightarrow> fl\<lparr>fl_info_recycle := \<lparr>gi_remain = of_nat 4096, gi_free_offset = 0\<rparr>\<rparr>)"

lemma length_part_flag [simp]: "length (part_flag p) = 4"
  by (simp add: part_flag_def)

lemma fresh_info_sel [simp]: "fl_mem (fresh_info p fl) = fl_mem fl" "fl_oom (fresh_info p fl) = fl_oom fl" "fl_enc_key (fresh_info p fl) = fl_enc_key fl"
  "fresh_info p (set_mem q m fl) = set_mem q m (fresh_info p fl)"
  by (cases p; simp add: fresh_info_def set_mem_def upd_mem_def)+

lemma init_partition_log:
  assumes "length (fl_mem fl p) = 4096" "cell_part p"
  shows "genie_flash_init_partition p 4096 fl = (GENIE_FLASH_SUCCESS, set_mem p (part_mem (part_flag p) []) (fresh_info p fl))"
proof -
  have e: "hal_flash_erase p 0 4096 (fresh_info p fl) = (True, set_mem p (replicate 4096 0xFF) (fresh_info p fl))"
    using erase_blank [of "fresh_info p fl" p] assms by (simp add: set_mem_def)
  have w: "hal_flash_write p 0 (part_flag p) (set_mem p (replicate 4096 0xFF) (fresh_info p fl)) =
      (True, set_mem p (part_mem (part_flag p) []) (fresh_info p fl))"
    using write_append [of "set_mem p (replicate 4096 0xFF) (fresh_info p fl)" p "[]" 4096 "part_flag p" 0] by (simp add: part_mem_def)
  consider "p = PART_SYSTEM" | "p = PART_USERDATA" | "p = PART_RECYCLE" using assms(2) by (auto simp: cell_part_def)
  then show ?thesis
    by cases (use e w in \<open>simp_all add: genie_flash_init_partition_def fresh_info_def part_flag_def GENIE_FLASH_SIZE_RELIABLE_def
      GENIE_FLASH_SIZE_INITED_FLAG_def GENIE_FLASH_SIZE_USERDATA_def GENIE_FLASH_SIZE_RECYCLE_def GENIE_FLASH_START_RECYCLE_def\<close>)
qed

lemma write_word:
  assumes "fl_mem fl p = W @ X" "length v = length W"
  shows "hal_flash_write p 0 v fl = (True, set_mem p (and_bytes W v @ X) fl)"
  using assms by (simp add: hal_write_ok upd_mem_set put_bytes_in)

text \<open>The first half of recycling: the new data and the other active cells go to the recycle partition, with the flag of the source.\<close>

lemma copy_out:
  assumes h: "holds p w cs fl" and r: "length (fl_mem fl PART_RECYCLE) = 4096" "p \<noteq> PART_RECYCLE" "cell_part p" and oom: "\<not> fl_oom fl"
    and b: "b \<noteq> []" "length (cells_bytes (new_cell i b # kept i cs)) \<le> 4092"
  defines "cs' \<equiv> new_cell i b # kept i cs"
  shows "genie_flash_copy (start_cell p i) CELL_PREPEAR_RECYCLE b fl =
      (GENIE_FLASH_SUCCESS, set_mem PART_RECYCLE (part_mem (and_bytes (part_flag PART_RECYCLE) w) cs') (fresh_info PART_RECYCLE fl))"
proof -
  let ?R = PART_RECYCLE and ?F = "part_flag PART_RECYCLE" and ?c = "new_cell i b" and ?k = "kept i cs"
  let ?f1 = "set_mem ?R (part_mem ?F []) (fresh_info ?R fl)"
  let ?dst = "CELL_PREPEAR_RECYCLE\<lparr>fc_offset := 4\<rparr>" and ?j = "4092 - length (cell_bytes ?c)"
  let ?f2 = "set_mem ?R ((?F @ cell_bytes ?c) @ replicate ?j 0xFF) (fresh_info ?R fl)"
  have lb: "8 + length b \<le> 4092" "length (cell_bytes ?c) + length (cells_bytes ?k) \<le> 4092" using b(2) by (simp_all add: length_new_cell)
  have dst: "fc_pno CELL_PREPEAR_RECYCLE = ?R" "fc_end CELL_PREPEAR_RECYCLE = 4096"
    by (simp_all add: CELL_PREPEAR_RECYCLE_def CELL_PREPEAR_def GENIE_FLASH_START_RECYCLE_def GENIE_FLASH_SIZE_RECYCLE_def)
  have init: "genie_flash_init_partition ?R 4096 fl = (GENIE_FLASH_SUCCESS, ?f1)"
    using r by (intro init_partition_log) (simp_all add: cell_part_def)
  have ok: "cell_ok ?c" using new_cell_ok b(1) lb(1) by simp
  have cc: "copied ?c = ?c" by (simp add: copied_def new_cell_def)
  have sz: "cell_size (new_header GENIE_FLASH_FLAG_ACTIVE i b) = length (cell_bytes ?c)"
    using length_cell_bytes [OF ok] by (simp add: new_cell_def)
  have "fl_mem ?f1 ?R = ?F @ replicate 4092 0xFF" by (simp add: part_mem_def)
  note two = write_two [OF this lb(1), of 4 "new_header GENIE_FLASH_FLAG_ACTIVE i b"]
  have m2: "?F @ put_header (new_header GENIE_FLASH_FLAG_ACTIVE i b) @ b @ replicate (4092 - 8 - length b) 0xFF = (?F @ cell_bytes ?c) @ replicate ?j 0xFF"
    using copied_bytes [OF ok, of 4092] lb by (simp add: cc) (simp add: new_cell_def)
  have new: "copy_new i b ?dst ?f1 = (True, ?dst\<lparr>fc_offset := 4 + length (cell_bytes ?c)\<rparr>, ?f2)"
    using two dst m2 by (simp add: copy_new_def sz)
  have m: "fl_mem fl p = w @ cells_bytes cs @ replicate (4092 - length (cells_bytes cs)) 0xFF" "\<forall>c\<in>set cs. cell_ok c" "length w = 4"
    "length (fl_mem fl p) = 4096"
    using h length_part_mem [of w cs] by (auto simp: holds_def part_mem_def)
  have src: "(start_cell p i)\<lparr>fc_offset := 4\<rparr> = start_cell p i" by (simp add: start_cell_def CELL_PREPEAR_def)
  have loop: "copy_loop (start_cell p i) (?dst\<lparr>fc_offset := 4 + length (cell_bytes ?c)\<rparr>) ?f2 =
      (GENIE_FLASH_SUCCESS, set_mem ?R ((?F @ cell_bytes ?c) @ cells_bytes ?k @ replicate (?j - length (cells_bytes ?k)) 0xFF) ?f2)"
    using copy_loop_log [of ?f2 p w cs _ "start_cell p i" "?dst\<lparr>fc_offset := 4 + length (cell_bytes ?c)\<rparr>" ?R "?F @ cell_bytes ?c" ?j]
      m r(2) dst lb oom by simp
  have flag: "copy_flag p ?R (set_mem ?R (?F @ X) (fresh_info ?R fl)) =
      (GENIE_FLASH_SUCCESS, set_mem ?R (and_bytes ?F w @ X) (fresh_info ?R fl))" for X
    using write_word [of "set_mem ?R (?F @ X) (fresh_info ?R fl)" ?R ?F X w] m r(2) by (simp add: copy_flag_def hal_flash_read_def Let_def)
  show ?thesis
    using init new loop r(2,3) dst b(1) flag [of "cell_bytes ?c @ cells_bytes ?k @ replicate (?j - length (cells_bytes ?k)) 0xFF"]
    by (simp add: genie_flash_copy_def cell_part_def [of PART_RECYCLE] src cs'_def part_mem_def Let_def)
qed

text \<open>The second half: the active cells go back.\<close>

lemma copy_back:
  assumes h: "holds PART_RECYCLE w cs fl" and p: "length (fl_mem fl p) = 4096" "p \<noteq> PART_RECYCLE" "cell_part p" and oom: "\<not> fl_oom fl"
    and all: "\<forall>c\<in>set cs. active c \<and> cell_index c \<noteq> 0"
  shows "genie_flash_copy CELL_PREPEAR_RECYCLE (start_cell p i) [] fl =
      (GENIE_FLASH_SUCCESS, set_mem PART_RECYCLE (part_mem (and_bytes w (sys_put_le32 GENIE_FLASH_FLAG_INITED_BASE)) cs)
        (set_mem p (part_mem (part_flag p) (map copied cs)) (fresh_info p fl)))"
proof -
  let ?R = PART_RECYCLE and ?F = "part_flag p" and ?k = "map copied cs"
  let ?f1 = "set_mem p (part_mem ?F []) (fresh_info p fl)" and ?src = "CELL_PREPEAR_RECYCLE\<lparr>fc_offset := 4\<rparr>"
  have src: "fc_pno CELL_PREPEAR_RECYCLE = ?R" "fc_end CELL_PREPEAR_RECYCLE = 4096" "fc_index CELL_PREPEAR_RECYCLE = 0"
    by (simp_all add: CELL_PREPEAR_RECYCLE_def CELL_PREPEAR_def GENIE_FLASH_START_RECYCLE_def GENIE_FLASH_SIZE_RECYCLE_def)
  have k: "kept 0 cs = ?k" "length (cells_bytes ?k) = length (cells_bytes cs)" using all by (induction cs) (simp_all add: cells_bytes_def)
  have m: "fl_mem fl ?R = w @ cells_bytes cs @ replicate (4092 - length (cells_bytes cs)) 0xFF" "\<forall>c\<in>set cs. cell_ok c" "length w = 4"
    "length (fl_mem fl ?R) = 4096" "length (cells_bytes cs) \<le> 4092"
    using h length_part_mem [of w cs] by (auto simp: holds_def part_mem_def)
  have dst: "(start_cell p i)\<lparr>fc_offset := 4\<rparr> = start_cell p i" by (simp add: start_cell_def CELL_PREPEAR_def)
  have init: "genie_flash_init_partition p 4096 fl = (GENIE_FLASH_SUCCESS, ?f1)" using p by (intro init_partition_log)
  have loop: "copy_loop ?src (start_cell p i) ?f1 = (GENIE_FLASH_SUCCESS, set_mem p (part_mem ?F ?k) ?f1)"
    using copy_loop_log [of ?f1 ?R w cs _ ?src "start_cell p i" p ?F 4092] m p(2) src k oom by (simp add: part_mem_def)
  have "hal_flash_write ?R 0 (sys_put_le32 GENIE_FLASH_FLAG_INITED_BASE) (set_mem p (part_mem ?F ?k) (fresh_info p fl)) =
      (True, set_mem ?R (part_mem (and_bytes w (sys_put_le32 GENIE_FLASH_FLAG_INITED_BASE)) cs) (set_mem p (part_mem ?F ?k) (fresh_info p fl)))"
    using write_word [of "set_mem p (part_mem ?F ?k) (fresh_info p fl)" ?R w "cells_bytes cs @ replicate (4092 - length (cells_bytes cs)) 0xFF"] m(1,3) p(2)
    by (simp add: part_mem_def)
  then show ?thesis
    using init loop p(2,3) src by (simp add: genie_flash_copy_def cell_part_def [of PART_RECYCLE] dst copy_flag_def Let_def)
qed

end
