(* ===== verification/Flash_Store.thy ===== *)
theory Flash_Store
  imports Flash_Cells
begin

text \<open>
  The cell store of \<^verbatim>\<open>genie_flash.c\<close> is a map. The entries of a partition are its active cells; writing, also
  when it has to recycle the partition, and deleting change them as the update of a map does, reading returns them.
  The locale \<open>map_store\<close> states this contract, its interpretations on the encrypted system partition and on the
  user data partition give it for the code.
\<close>

section \<open>Entries\<close>

definition entries :: "cell list \<Rightarrow> (u16 \<times> bytes) list" where
  "entries cs = map (\<lambda>c. (cell_index c, cl_data c)) (filter active cs)"

lemma entries_simps [simp]:
  "entries [] = []" "entries (c # cs) = (if active c then [(cell_index c, cl_data c)] else []) @ entries cs"
  "entries (cs @ ds) = entries cs @ entries ds" "entries (map copied cs) = entries cs"
  by (simp_all add: entries_def filter_map comp_def)

lemma lookup_entries: "lookup cs = map_of (entries cs)"
  by (rule ext) (simp add: lookup_def, induction cs, auto simp: is_cell_def)

lemma entries_kept: "entries (kept i cs) = filter (\<lambda>e. fst e \<noteq> i) (entries cs)"
  by (induction cs) auto

lemma map_of_kept: "map_of (filter (\<lambda>e. fst e \<noteq> i) xs) = (map_of xs)(i := None)"
  by (induction xs) (auto simp: fun_eq_iff)

lemma distinct_kept: "distinct (map fst xs) \<Longrightarrow> distinct (map fst (filter P xs))"
  by (induction xs) auto

lemma map_of_moved:
  assumes "i \<notin> fst ` set (xs @ ys)"
  shows "map_of (xs @ ys @ [(i, b)]) = (map_of (xs @ (i, d) # ys))(i \<mapsto> b)"
proof -
  have "map_of xs i = None" "map_of ys i = None" using assms by (auto simp: map_of_eq_None_iff image_Un)
  then show ?thesis by (auto simp: fun_eq_iff map_add_def split: option.splits)
qed

lemma map_of_removed:
  assumes "i \<notin> fst ` set (xs @ ys)"
  shows "map_of (xs @ ys) = (map_of (xs @ (i, d) # ys))(i := None)"
proof -
  have "map_of xs i = None" "map_of ys i = None" using assms by (auto simp: map_of_eq_None_iff image_Un)
  then show ?thesis by (auto simp: fun_eq_iff map_add_def split: option.splits)
qed

section \<open>The invariant of a partition\<close>

definition active_size :: "cell list \<Rightarrow> nat" where
  "active_size cs = sum_list (map (\<lambda>c. length (cell_bytes c)) (filter active cs))"

lemma active_size_simps [simp]:
  "active_size [] = 0" "active_size (c # cs) = (if active c then length (cell_bytes c) else 0) + active_size cs"
  "active_size (cs @ ds) = active_size cs + active_size ds" "active_size (map copied cs) = active_size cs"
  by (simp_all add: active_size_def filter_map comp_def)

lemma active_size_le: "active_size cs \<le> length (cells_bytes cs)"
  by (induction cs) auto

lemma active_size_all: "\<forall>c\<in>set cs. active c \<Longrightarrow> active_size cs = length (cells_bytes cs)"
  by (induction cs) auto

lemma active_size_kept: "length (cells_bytes (kept i cs)) \<le> active_size cs" "active_size (kept i cs) = length (cells_bytes (kept i cs))"
  by (induction cs) auto

lemma active_size_mod4: "\<forall>c\<in>set cs. cell_ok c \<Longrightarrow> 4 dvd active_size cs"
  by (induction cs) (auto simp: size_mod4)

text \<open>
  The variable \<^verbatim>\<open>remain\<close> never promises more than the space that is left beside the active cells. The variable
  \<^verbatim>\<open>free_offset\<close> points behind the cells, except in a partition that recycling filled completely: there it
  keeps an older value, but \<^verbatim>\<open>remain\<close> is zero. Between operations the recycle partition is not marked as the copy of another one.
\<close>

definition recycle_idle :: "flash \<Rightarrow> bool" where
  "recycle_idle fl \<longleftrightarrow> length (fl_mem fl PART_RECYCLE) = 4096 \<and>
     sys_get_le32 (take 4 (fl_mem fl PART_RECYCLE)) \<notin> {GENIE_FLASH_FLAG_INITED_SYS, GENIE_FLASH_FLAG_INITED_UD}"

definition store_inv :: "hal_partition_t \<Rightarrow> cell list \<Rightarrow> flash \<Rightarrow> bool" where
  "store_inv p cs fl \<longleftrightarrow> (p = PART_SYSTEM \<or> p = PART_USERDATA) \<and> holds p (part_flag p) cs fl \<and>
     recycle_idle fl \<and> distinct (map fst (entries cs)) \<and> 0 \<notin> fst ` set (entries cs) \<and>
     unat (gi_remain (get_info p fl)) + active_size cs \<le> 4092 \<and> 4 dvd unat (gi_remain (get_info p fl)) \<and>
     (gi_free_offset (get_info p fl) = 4 + length (cells_bytes cs) \<or> gi_remain (get_info p fl) = 0)"

lemma remain_loop_log:
  assumes "fl_mem fl p = A @ cells_bytes cs @ replicate k 0xFF" "length (fl_mem fl p) = 4096" "\<forall>c\<in>set cs. cell_ok c"
    "fc_pno cell = p" "fc_offset cell = length A" "fc_end cell = 4096"
  shows "remain_loop cell fl r = (r - of_nat (active_size cs), length A + length (cells_bytes cs))"
  using assms
proof (induction cs arbitrary: A cell r)
  case Nil
  obtain ret cell' where "genie_flash_get_header cell fl = (ret, cell')" "ret \<noteq> GENIE_FLASH_SUCCESS" "fc_offset cell' = fc_offset cell"
    by (rule get_header_end [of fl p A k cell]) (use Nil.prems in auto)
  then show ?case using Nil.prems by (subst remain_loop.simps) simp
next
  case (Cons c cs)
  let ?c = "cell\<lparr>fc_header := cl_header c\<rparr>"
  have g: "genie_flash_get_header cell fl = (GENIE_FLASH_SUCCESS, ?c)"
    by (rule get_header_cell [of fl p A c "cells_bytes cs @ replicate k 0xFF"]) (use Cons.prems in auto)
  have len: "length (cell_bytes c) = cell_size (cl_header c)" using Cons.prems(3) by (simp add: length_cell_bytes)
  have "remain_loop (next_cell ?c) fl r' = (r' - of_nat (active_size cs), length (A @ cell_bytes c) + length (cells_bytes cs))" for r'
    by (rule Cons.IH) (use Cons.prems len in \<open>auto simp: next_cell_def\<close>)
  then show ?case by (subst remain_loop.simps) (simp add: g len active_def algebra_simps)
qed

lemma check_info_log:
  assumes "holds p w cs fl"
  shows "check_info (start_cell p 0) 4092 fl info =
    info\<lparr>gi_remain := of_nat (4092 - active_size cs),
         gi_free_offset := if length (cells_bytes cs) \<le> 4088 then 4 + length (cells_bytes cs) else gi_free_offset info\<rparr>"
proof -
  have m: "fl_mem fl p = w @ cells_bytes cs @ replicate (4092 - length (cells_bytes cs)) 0xFF" "length (fl_mem fl p) = 4096"
    "\<forall>c\<in>set cs. cell_ok c" "length w = 4" "length (cells_bytes cs) \<le> 4092"
    using assms length_part_mem [of w cs] by (auto simp: holds_def part_mem_def)
  have a: "active_size cs \<le> 4092" using active_size_le [of cs] m(5) by simp
  have "remain_loop (start_cell p 0) fl (of_nat 4092) = (of_nat 4092 - of_nat (active_size cs), 4 + length (cells_bytes cs))"
    using remain_loop_log [OF m(1-3), of "start_cell p 0"] m(4) by simp
  moreover have "(of_nat 4092 - of_nat (active_size cs) :: u16) = of_nat (4092 - active_size cs)" using a by simp
  moreover have "unat (of_nat (4092 - active_size cs) :: u16) = 4092 - active_size cs" by (rule of_nat_inverse) simp_all
  ultimately show ?thesis by (simp add: check_info_def del: of_nat_diff of_nat_numeral)
qed

section \<open>Writing\<close>

lemma get_info_sel [simp]: "get_info p (set_mem q m fl) = get_info p fl"
  by (simp add: get_info_def)

lemma set_info_sel [simp]:
  "fl_mem (set_info p f fl) = fl_mem fl" "get_info p (set_info p f fl) = f (get_info p fl)" "fl_oom (set_info p f fl) = fl_oom fl"
  "fl_enc_key (set_info p f fl) = fl_enc_key fl" "set_mem q m (set_info p f fl) = set_info p f (set_mem q m fl)"
  "set_info p f (set_info p g fl) = set_info p (\<lambda>i. f (g i)) fl"
  by (simp_all add: set_info_def get_info_def set_mem_def upd_mem_def)

lemma holds_set_info [simp]: "holds p w cs (set_info q f fl) = holds p w cs fl"
  by (simp add: holds_def)

lemma holds_frame: "p \<noteq> q \<Longrightarrow> holds p w cs (set_mem q m fl) = holds p w cs fl"
  by (simp add: holds_def)

lemma recycle_idle_cong: "fl_mem fl PART_RECYCLE = fl_mem fl' PART_RECYCLE \<Longrightarrow> recycle_idle fl = recycle_idle fl'"
  by (simp add: recycle_idle_def)

lemma recycled_flag:
  assumes "p = PART_SYSTEM \<or> p = PART_USERDATA"
  shows "and_bytes (and_bytes (part_flag PART_RECYCLE) (part_flag p)) (sys_put_le32 GENIE_FLASH_FLAG_INITED_BASE) = sys_put_le32 GENIE_FLASH_FLAG_INITED_BASE"
proof -
  have "and_bytes (and_bytes (part_flag PART_RECYCLE) (part_flag PART_SYSTEM)) (sys_put_le32 GENIE_FLASH_FLAG_INITED_BASE) = sys_put_le32 GENIE_FLASH_FLAG_INITED_BASE"
    "and_bytes (and_bytes (part_flag PART_RECYCLE) (part_flag PART_USERDATA)) (sys_put_le32 GENIE_FLASH_FLAG_INITED_BASE) = sys_put_le32 GENIE_FLASH_FLAG_INITED_BASE"
    by code_simp+
  then show ?thesis using assms by auto
qed

lemma check_remain_sel [simp]: "fl_oom (genie_flash_check_remain fl) = fl_oom fl" "fl_enc_key (genie_flash_check_remain fl) = fl_enc_key fl"
  by (simp_all add: genie_flash_check_remain_def Let_def)

lemma length_copied [simp]: "length (cells_bytes (map copied cs)) = length (cells_bytes cs)"
  by (induction cs) simp_all

lemma check_remain_info:
  assumes "holds p w cs fl" "p = PART_SYSTEM \<or> p = PART_USERDATA"
  shows "get_info p (genie_flash_check_remain fl) = (get_info p fl)
    \<lparr>gi_remain := of_nat (4092 - active_size cs),
     gi_free_offset := if length (cells_bytes cs) \<le> 4088 then 4 + length (cells_bytes cs) else gi_free_offset (get_info p fl)\<rparr>"
proof -
  have "holds p w cs (fl\<lparr>fl_info_system := x\<rparr>)" for x using assms(1) by (simp add: holds_def)
  then show ?thesis
    using assms check_info_log [of p w cs] by (auto simp: genie_flash_check_remain_def Let_def get_info_def start_cell_eq
        GENIE_FLASH_SIZE_RELIABLE_def GENIE_FLASH_SIZE_USERDATA_def)
qed

lemma recycle_store:
  assumes inv: "store_inv p cs fl" and oom: "\<not> fl_oom fl" and b: "b \<noteq> []" "length b + 8 \<le> unat (gi_remain (get_info p fl))" and i: "i \<noteq> 0"
  defines "cs' \<equiv> map copied (new_cell i b # kept i cs)"
  obtains fl' where "genie_flash_recycle (start_cell p i) b fl = (GENIE_FLASH_SUCCESS, fl')" "store_inv p cs' (genie_flash_check_remain fl')"
    "lookup cs' = (lookup cs)(i \<mapsto> b)" "fl_oom fl' = fl_oom fl" "fl_enc_key fl' = fl_enc_key fl"
proof -
  let ?R = PART_RECYCLE and ?c = "new_cell i b # kept i cs" and ?w = "and_bytes (part_flag PART_RECYCLE) (part_flag p)"
  let ?v = "and_bytes ?w (sys_put_le32 GENIE_FLASH_FLAG_INITED_BASE)"
  have I: "p \<noteq> ?R" "cell_part p" "holds p (part_flag p) cs fl" "length (fl_mem fl ?R) = 4096" "length (fl_mem fl p) = 4096"
    "\<forall>c\<in>set cs. cell_ok c" "0 \<notin> fst ` set (entries cs)" "distinct (map fst (entries cs))"
    "4 dvd unat (gi_remain (get_info p fl))" "unat (gi_remain (get_info p fl)) + active_size cs \<le> 4092"
    using inv length_part_mem [of "part_flag p" cs] by (auto simp: store_inv_def recycle_idle_def cell_part_def holds_def)
  have fit: "length (cells_bytes ?c) \<le> 4092"
    using aligned_fit [OF I(9) b(2), of i] I(10) active_size_kept(1) [of i cs] by simp
  have ok: "\<forall>c\<in>set ?c. cell_ok c \<and> active c"
    using new_cell_ok [OF b(1), of i] b(2) unat_u16_less [of "gi_remain (get_info p fl)"] I(6) by (auto simp: kept_def copied_ok)
  have nz: "\<forall>c\<in>set ?c. active c \<and> cell_index c \<noteq> 0" using I(7) i by (force simp: kept_def entries_def)
  let ?f1 = "set_mem ?R (part_mem ?w ?c) (fresh_info ?R fl)"
  let ?f2 = "set_mem ?R (part_mem ?v ?c) (set_mem p (part_mem (part_flag p) cs') (fresh_info p ?f1))"
  have cout: "genie_flash_copy (start_cell p i) CELL_PREPEAR_RECYCLE b fl = (GENIE_FLASH_SUCCESS, ?f1)"
    by (rule copy_out [OF I(3,4,1,2) oom b(1) fit])
  have h1: "holds ?R ?w ?c ?f1" using ok fit by (simp add: holds_def)
  have cback: "genie_flash_copy CELL_PREPEAR_RECYCLE (start_cell p i) [] ?f1 = (GENIE_FLASH_SUCCESS, ?f2)"
    unfolding cs'_def by (rule copy_back [OF h1 _ I(1,2) _ nz]) (use I(1,5) oom in simp_all)
  have len: "length (cells_bytes cs') = length (cells_bytes ?c)" by (simp add: cs'_def del: list.map)
  have h2: "holds p (part_flag p) cs' ?f2"
    using ok fit len I(1) by (auto simp: holds_def cs'_def copied_ok)
  have az: "active_size cs' = length (cells_bytes cs')" by (rule active_size_all) (use ok in \<open>auto simp: cs'_def\<close>)
  have d4: "4 dvd length (cells_bytes cs')" by (rule sizes_mod4) (use h2 in \<open>simp add: holds_def\<close>)
  have en: "entries cs' = (i, b) # filter (\<lambda>e. fst e \<noteq> i) (entries cs)" by (simp add: cs'_def entries_kept del: list.map)
  have p: "p = PART_SYSTEM \<or> p = PART_USERDATA" using inv by (simp add: store_inv_def)
  have u: "unat (of_nat (4092 - active_size cs') :: u16) = 4092 - active_size cs'" by (rule of_nat_inverse) simp_all
  have "fl_mem ?f2 ?R = part_mem (sys_put_le32 GENIE_FLASH_FLAG_INITED_BASE) ?c" using recycled_flag [OF p] by simp
  then have "recycle_idle (genie_flash_check_remain ?f2)"
    using fit by (simp add: recycle_idle_def length_part_mem) (simp add: part_mem_def GENIE_FLASH_FLAG_INITED_BASE_def GENIE_FLASH_FLAG_INITED_SYS_def GENIE_FLASH_FLAG_INITED_UD_def)
  then have "store_inv p cs' (genie_flash_check_remain ?f2)"
    unfolding store_inv_def check_remain_info [OF h2 p]
    using p h2 len fit I(1,7,8) i en az d4 u by (auto simp: holds_def length_part_mem distinct_kept dvd_diff_nat simp del: of_nat_diff)
  moreover have "lookup cs' = (lookup cs)(i \<mapsto> b)" unfolding lookup_entries en by (simp add: map_of_kept)
  moreover have "genie_flash_recycle (start_cell p i) b fl = (GENIE_FLASH_SUCCESS, ?f2)" using cout cback by (simp add: genie_flash_recycle_def)
  ultimately show thesis using that by simp
qed

text \<open>Without recycling: the new cell is appended, the old one is invalidated.\<close>

definition advance :: "nat \<Rightarrow> nat \<Rightarrow> genie_flash_info_t \<Rightarrow> genie_flash_info_t" where
  "advance z off info = info\<lparr>gi_remain := gi_remain info - of_nat z, gi_free_offset := off\<rparr>"

definition regain :: "nat \<Rightarrow> genie_flash_info_t \<Rightarrow> genie_flash_info_t" where
  "regain y info = info\<lparr>gi_remain := gi_remain info + of_nat y\<rparr>"

lemma write_run:
  assumes p: "p = PART_SYSTEM \<or> p = PART_USERDATA" and b: "b \<noteq> []" "length b + 8 \<le> unat (gi_remain (get_info p fl))"
    and off: "gi_free_offset (get_info p fl) = off" "off + length b + 8 \<le> 4096" and w: "write_cell p off i b fl = (True, f1)"
    and s: "genie_flash_search (start_cell p i) fl = (found, old)"
  shows "genie_flash_write (start_cell p i) b fl =
    (let z = length (cell_bytes (new_cell i b)); fl = set_info p (advance z (off + z)) f1 in
     if found = GENIE_FLASH_SUCCESS then
       let (ret, fl) = genie_flash_delete_flag p (fc_offset old) fl in
       if ret \<noteq> GENIE_FLASH_SUCCESS then (GENIE_FLASH_WRITE_FAIL, fl)
       else (GENIE_FLASH_SUCCESS, set_info p (regain (cell_size (fc_header old))) fl)
     else (GENIE_FLASH_SUCCESS, fl))"
proof -
  let ?a = "unat (align_count (length b))"
  have z: "length (cell_bytes (new_cell i b)) = length b + 8 + ?a" by (simp add: length_new_cell)
  have adv: "advance (length b + 8 + ?a) (off + (length b + 8 + ?a)) =
      (\<lambda>i. i\<lparr>gi_remain := gi_remain i - of_nat (length b + 8 + ?a), gi_free_offset := off + 8 + length b + ?a\<rparr>)"
    by (simp add: advance_def fun_eq_iff)
  have reg: "regain (cell_size (fc_header old)) = (\<lambda>i. i\<lparr>gi_remain := gi_remain i + of_nat (cell_size (fc_header old))\<rparr>)"
    by (simp add: regain_def fun_eq_iff)
  have e: "\<not> unat (gi_remain (get_info p fl)) < length b + 8"
    "\<not> off + length b + 8 > (if p = PART_SYSTEM then GENIE_FLASH_SIZE_INITED_FLAG + GENIE_FLASH_SIZE_RELIABLE
        else GENIE_FLASH_SIZE_INITED_FLAG + GENIE_FLASH_SIZE_USERDATA)" "\<not> (p \<noteq> PART_SYSTEM \<and> p \<noteq> PART_USERDATA)" "length b \<noteq> 0"
    using p b off by (simp_all add: GENIE_FLASH_SIZE_INITED_FLAG_def GENIE_FLASH_SIZE_RELIABLE_def GENIE_FLASH_SIZE_USERDATA_def)
  show ?thesis
    unfolding genie_flash_write_def start_cell_sel Let_def s z adv reg
    by (simp only: e if_False off(1) w s prod.case not_True_eq_False)
qed

text \<open>The arithmetic of \<^verbatim>\<open>remain\<close> does not wrap.\<close>

lemma advance_remain:
  assumes "z \<le> unat (gi_remain info)"
  shows "unat (gi_remain (advance z off info)) = unat (gi_remain info) - z" "gi_free_offset (advance z off info) = off"
proof -
  have "z < 65536" using assms unat_u16_less [of "gi_remain info"] by linarith
  then have "unat (of_nat z :: u16) = z" by (simp add: unat_of_nat)
  then show "unat (gi_remain (advance z off info)) = unat (gi_remain info) - z"
    using assms by (simp add: advance_def) (metis unat_sub word_le_nat_alt)
qed (simp add: advance_def)

lemma regain_remain:
  assumes "unat (gi_remain info) + y < 65536"
  shows "unat (gi_remain (regain y info)) = unat (gi_remain info) + y" "gi_free_offset (regain y info) = gi_free_offset info"
proof -
  have "unat (of_nat y :: u16) = y" using assms by (simp add: unat_of_nat)
  then show "unat (gi_remain (regain y info)) = unat (gi_remain info) + y" using assms by (simp add: regain_def unat_word_ariths)
qed (simp add: regain_def)

lemma store_invI:
  assumes "p = PART_SYSTEM \<or> p = PART_USERDATA" "holds p (part_flag p) cs fl" "recycle_idle fl"
    "distinct (map fst (entries cs))" "0 \<notin> fst ` set (entries cs)" "unat (gi_remain (get_info p fl)) + active_size cs \<le> 4092"
    "4 dvd unat (gi_remain (get_info p fl))" "gi_free_offset (get_info p fl) = 4 + length (cells_bytes cs)"
  shows "store_inv p cs fl"
  using assms by (simp add: store_inv_def)

lemma old_cell:
  assumes "store_inv p cs fl" "lookup cs i = Some d"
  obtains cs1 c cs2 where "cs = cs1 @ c # cs2" "active c" "cell_ok c" "entries cs = entries cs1 @ (i, d) # entries cs2"
    "i \<notin> fst ` set (entries cs1 @ entries cs2)" "distinct (map fst (entries cs1 @ entries cs2))"
    "genie_flash_search (start_cell p i) fl =
      (GENIE_FLASH_SUCCESS, (start_cell p i)\<lparr>fc_header := cl_header c, fc_offset := 4 + length (cells_bytes cs1)\<rparr>)"
proof -
  obtain cs1 c cs2 where s: "cs = cs1 @ c # cs2" "is_cell i c" "cl_data c = d" "\<forall>c\<in>set cs1. \<not> is_cell i c" by (rule lookup_Some [OF assms(2)])
  have h: "holds p (part_flag p) cs fl" "distinct (map fst (entries cs))" using assms(1) by (simp_all add: store_inv_def)
  have c: "active c" "cell_index c = i" "cell_ok c" using s(1,2) h(1) by (auto simp: is_cell_def holds_def)
  have e: "entries cs = entries cs1 @ (i, d) # entries cs2" using s c by simp
  show thesis
    by (rule that [OF s(1) c(1,3) e _ _ search_lookup(2) [OF h(1) s(1,2,4)]]) (use h(2) in \<open>auto simp: e\<close>)
qed

lemma append_fresh:
  assumes inv: "store_inv p cs fl" and b: "b \<noteq> []" "length b + 8 \<le> unat (gi_remain (get_info p fl))" and i: "i \<noteq> 0"
    and off: "gi_free_offset (get_info p fl) = 4 + length (cells_bytes cs)" "gi_free_offset (get_info p fl) + length b + 8 \<le> 4096"
  defines "z \<equiv> length (cell_bytes (new_cell i b))"
  obtains f1 where "write_cell p (4 + length (cells_bytes cs)) i b fl = (True, f1)" "holds p (part_flag p) (cs @ [new_cell i b]) f1"
    "get_info p f1 = get_info p fl" "fl_mem f1 PART_RECYCLE = fl_mem fl PART_RECYCLE" "fl_oom f1 = fl_oom fl" "fl_enc_key f1 = fl_enc_key fl"
    "z \<le> unat (gi_remain (get_info p fl))" "4 dvd z"
proof -
  have I: "holds p (part_flag p) cs fl" "p \<noteq> PART_RECYCLE" "4 dvd unat (gi_remain (get_info p fl))" using inv by (auto simp: store_inv_def)
  have "length b + 8 \<le> 4092 - length (cells_bytes cs)" using off by simp
  note w = write_cell_log [OF I(1) b(1) this, of i]
  have d: "4 dvd z" unfolding z_def by (rule size_mod4) (use w(2) in \<open>simp add: holds_def\<close>)
  show thesis by (rule that [OF w _ _ _ _ aligned_fit [OF I(3) b(2), of i, folded z_def] d]) (use I(2) in simp_all)
qed

text \<open>The old cell of the index is invalidated after the new one is in place.\<close>

lemma replace_old:
  assumes inv: "store_inv p cs fl" and l: "lookup cs i = Some d" and i: "i \<noteq> 0"
    and f: "holds p (part_flag p) (cs @ [new_cell i b]) f2" "fl_mem f2 PART_RECYCLE = fl_mem fl PART_RECYCLE"
    and z: "unat (gi_remain (get_info p f2)) + length (cell_bytes (new_cell i b)) = unat (gi_remain (get_info p fl))"
      "4 dvd unat (gi_remain (get_info p f2))" "gi_free_offset (get_info p f2) = 4 + length (cells_bytes (cs @ [new_cell i b]))"
  obtains cs' old f3 where "genie_flash_search (start_cell p i) fl = (GENIE_FLASH_SUCCESS, old)"
    "genie_flash_delete_flag p (fc_offset old) f2 = (GENIE_FLASH_SUCCESS, f3)"
    "store_inv p cs' (set_info p (regain (cell_size (fc_header old))) f3)" "lookup cs' = (lookup cs)(i \<mapsto> b)"
    "fl_oom f3 = fl_oom f2" "fl_enc_key f3 = fl_enc_key f2"
proof -
  let ?r = "unat (gi_remain (get_info p f2))" and ?n = "new_cell i b"
  obtain cs1 c cs2 where s: "cs = cs1 @ c # cs2" "active c" "cell_ok c" and e: "entries cs = entries cs1 @ (i, d) # entries cs2"
    and k: "i \<notin> fst ` set (entries cs1 @ entries cs2)" "distinct (map fst (entries cs1 @ entries cs2))"
    and old: "genie_flash_search (start_cell p i) fl =
      (GENIE_FLASH_SUCCESS, (start_cell p i)\<lparr>fc_header := cl_header c, fc_offset := 4 + length (cells_bytes cs1)\<rparr>)"
    by (rule old_cell [OF inv l])
  let ?cs = "cs1 @ invalidate c # cs2 @ [?n]" and ?y = "length (cell_bytes c)"
  have "holds p (part_flag p) (cs1 @ c # cs2 @ [?n]) f2" using f(1) s(1) by simp
  note del = delete_flag_log [OF this]
  let ?f3 = "set_mem p (part_mem (part_flag p) ?cs) f2"
  have I: "p = PART_SYSTEM \<or> p = PART_USERDATA" "recycle_idle fl" "0 \<notin> fst ` set (entries cs)"
    "unat (gi_remain (get_info p fl)) + active_size cs \<le> 4092"
    using inv by (simp_all add: store_inv_def)
  have az: "active_size cs = active_size cs1 + ?y + active_size cs2" using s by simp
  then have "?r + ?y < 65536" using z(1) I(4) by linarith
  note reg = regain_remain [OF this]
  have "store_inv p ?cs (set_info p (regain ?y) ?f3)"
    by (rule store_invI [OF I(1)])
      (use I z recycle_idle_cong [of "set_info p (regain ?y) ?f3" fl] f(2) k i del(2) reg az e s(1) size_mod4 [OF s(3)] in \<open>auto simp: dvd_add\<close>)
  moreover have "lookup ?cs = (lookup cs)(i \<mapsto> b)" unfolding lookup_entries e using map_of_moved [OF k(1)] by simp
  ultimately show thesis using that [OF old] del(1) length_cell_bytes [OF s(3)] by simp
qed

lemma append_store:
  assumes inv: "store_inv p cs fl" and b: "b \<noteq> []" "length b + 8 \<le> unat (gi_remain (get_info p fl))" and i: "i \<noteq> 0"
    and room: "gi_free_offset (get_info p fl) + length b + 8 \<le> 4096"
  obtains cs' fl' where "genie_flash_write (start_cell p i) b fl = (GENIE_FLASH_SUCCESS, fl')" "store_inv p cs' fl'"
    "lookup cs' = (lookup cs)(i \<mapsto> b)" "fl_oom fl' = fl_oom fl" "fl_enc_key fl' = fl_enc_key fl"
proof -
  let ?r = "unat (gi_remain (get_info p fl))" and ?n = "new_cell i b" and ?z = "length (cell_bytes (new_cell i b))"
  have I: "p = PART_SYSTEM \<or> p = PART_USERDATA" "recycle_idle fl" "holds p (part_flag p) cs fl"
    "0 \<notin> fst ` set (entries cs)" "distinct (map fst (entries cs))" "4 dvd ?r" "?r + active_size cs \<le> 4092"
    "gi_free_offset (get_info p fl) = 4 + length (cells_bytes cs)"
    using inv b(2) by (auto simp: store_inv_def)
  have rm: "4 + length (cells_bytes cs) + length b + 8 \<le> 4096" using room I(8) by simp
  obtain f1 where w: "write_cell p (4 + length (cells_bytes cs)) i b fl = (True, f1)" and h: "holds p (part_flag p) (cs @ [?n]) f1"
    and f1: "get_info p f1 = get_info p fl" "fl_mem f1 PART_RECYCLE = fl_mem fl PART_RECYCLE" "fl_oom f1 = fl_oom fl" "fl_enc_key f1 = fl_enc_key fl"
    and z: "?z \<le> ?r" "4 dvd ?z"
    by (rule append_fresh [OF inv b i I(8) room])
  define f2 where "f2 = set_info p (advance ?z (4 + length (cells_bytes cs) + ?z)) f1"
  note run = write_run [OF I(1) b I(8) rm w, unfolded Let_def, folded f2_def]
  note adv = advance_remain [OF z(1)]
  have f2: "holds p (part_flag p) (cs @ [?n]) f2" "get_info p f2 = advance ?z (4 + length (cells_bytes cs) + ?z) (get_info p fl)"
      "fl_mem f2 PART_RECYCLE = fl_mem fl PART_RECYCLE" "fl_oom f2 = fl_oom fl" "fl_enc_key f2 = fl_enc_key fl"
    using h f1 by (simp_all add: f2_def)
  have d4: "4 dvd ?r - ?z" using I(6) z(2) by (rule dvd_diff_nat)
  show thesis
  proof (cases "lookup cs i")
    case None
    have "genie_flash_write (start_cell p i) b fl = (GENIE_FLASH_SUCCESS, f2)"
      using search_lookup(1) [OF I(3) None] run [of "fst (genie_flash_search (start_cell p i) fl)" "snd (genie_flash_search (start_cell p i) fl)"] by simp
    moreover have k: "i \<notin> fst ` set (entries cs)" using None by (simp add: lookup_entries map_of_eq_None_iff)
    have "store_inv p (cs @ [?n]) f2"
      by (rule store_invI [OF I(1) f2(1)]) (use I(2,4,5,7) f2(2) recycle_idle_cong [OF f2(3)] adv k i d4 z(1) in auto)
    moreover have "lookup (cs @ [?n]) = (lookup cs)(i \<mapsto> b)"
      using None by (auto simp: lookup_entries fun_eq_iff map_add_def split: option.splits)
    ultimately show thesis using that f2(4,5) by simp
  next
    case (Some d)
    obtain cs' old f3 where "genie_flash_search (start_cell p i) fl = (GENIE_FLASH_SUCCESS, old)"
        "genie_flash_delete_flag p (fc_offset old) f2 = (GENIE_FLASH_SUCCESS, f3)"
        "store_inv p cs' (set_info p (regain (cell_size (fc_header old))) f3)" "lookup cs' = (lookup cs)(i \<mapsto> b)"
        "fl_oom f3 = fl_oom f2" "fl_enc_key f3 = fl_enc_key f2"
      by (rule replace_old [OF inv Some i f2(1,3)]) (use f2(2) adv z(1) d4 in auto)
    then show thesis using that run f2(4,5) by simp
  qed
qed

text \<open>A write succeeds exactly when \<^verbatim>\<open>remain\<close> covers it; otherwise nothing changes.\<close>

lemma write_store:
  assumes inv: "store_inv p cs fl" and oom: "\<not> fl_oom fl" and b: "b \<noteq> []" and i: "i \<noteq> 0"
    and w: "genie_flash_write (start_cell p i) b fl = (ret, fl')"
  shows "if length b + 8 \<le> unat (gi_remain (get_info p fl))
    then ret = GENIE_FLASH_SUCCESS \<and> (\<exists>cs'. store_inv p cs' fl' \<and> lookup cs' = (lookup cs)(i \<mapsto> b)) \<and> fl_oom fl' = fl_oom fl \<and> fl_enc_key fl' = fl_enc_key fl
    else ret = GENIE_FLASH_WRITE_FAIL \<and> fl' = fl"
proof (cases "length b + 8 \<le> unat (gi_remain (get_info p fl))")
  case False
  then show ?thesis using w b inv by (auto simp: genie_flash_write_def store_inv_def Let_def split: if_splits)
next
  case True
  show ?thesis
  proof (cases "gi_free_offset (get_info p fl) + length b + 8 \<le> 4096")
    case room: True
    show ?thesis by (rule append_store [OF inv b True i room]) (use w True in auto)
  next
    case full: False
    obtain f1 where r: "genie_flash_recycle (start_cell p i) b fl = (GENIE_FLASH_SUCCESS, f1)"
      and s: "store_inv p (map copied (new_cell i b # kept i cs)) (genie_flash_check_remain f1)"
        "lookup (map copied (new_cell i b # kept i cs)) = (lookup cs)(i \<mapsto> b)" "fl_oom f1 = fl_oom fl" "fl_enc_key f1 = fl_enc_key fl"
      by (rule recycle_store [OF inv oom b True i])
    have "(ret, fl') = (GENIE_FLASH_SUCCESS, genie_flash_check_remain f1)"
      using w True full r b inv by (auto simp: genie_flash_write_def store_inv_def Let_def GENIE_FLASH_SIZE_INITED_FLAG_def
          GENIE_FLASH_SIZE_RELIABLE_def GENIE_FLASH_SIZE_USERDATA_def)
    then show ?thesis using True s by auto
  qed
qed

lemma delete_store:
  assumes inv: "store_inv p cs fl" and w: "genie_flash_delete (start_cell p i) fl = (ret, fl')"
  shows "ret = GENIE_FLASH_SUCCESS \<longleftrightarrow> lookup cs i \<noteq> None"
    "\<exists>cs'. store_inv p cs' fl' \<and> lookup cs' = (lookup cs)(i := None)" "fl_oom fl' = fl_oom fl" "fl_enc_key fl' = fl_enc_key fl"
proof -
  have h: "holds p (part_flag p) cs fl" using inv by (simp add: store_inv_def)
  have "(ret = GENIE_FLASH_SUCCESS \<longleftrightarrow> lookup cs i \<noteq> None) \<and> (\<exists>cs'. store_inv p cs' fl' \<and> lookup cs' = (lookup cs)(i := None)) \<and>
      fl_oom fl' = fl_oom fl \<and> fl_enc_key fl' = fl_enc_key fl"
  proof (cases "lookup cs i")
    case None
    then have "ret \<noteq> GENIE_FLASH_SUCCESS" "fl' = fl"
      using search_lookup(1) [OF h None] w by (auto simp: genie_flash_delete_def case_prod_beta)
    moreover have "lookup cs = (lookup cs)(i := None)" using None by auto
    ultimately show ?thesis using inv None by auto
  next
    case (Some d)
    obtain cs1 c cs2 where s: "cs = cs1 @ c # cs2" "active c" "cell_ok c" and e: "entries cs = entries cs1 @ (i, d) # entries cs2"
      and k: "i \<notin> fst ` set (entries cs1 @ entries cs2)" "distinct (map fst (entries cs1 @ entries cs2))"
      and old: "genie_flash_search (start_cell p i) fl =
        (GENIE_FLASH_SUCCESS, (start_cell p i)\<lparr>fc_header := cl_header c, fc_offset := 4 + length (cells_bytes cs1)\<rparr>)"
      by (rule old_cell [OF inv Some])
    let ?cs = "cs1 @ invalidate c # cs2"
    note del = delete_flag_log [OF h [unfolded s(1)]]
    have "4 + length (cells_bytes cs1) < 4096" using h s(1) by (auto simp: holds_def cell_bytes_def)
    then have "ret = GENIE_FLASH_SUCCESS" "fl' = set_mem p (part_mem (part_flag p) ?cs) fl"
      using w old del(1) by (simp_all add: genie_flash_delete_def)
    moreover have "store_inv p ?cs (set_mem p (part_mem (part_flag p) ?cs) fl)"
      using inv del(2) k e s(1) recycle_idle_cong [of "set_mem p (part_mem (part_flag p) ?cs) fl" fl] unfolding store_inv_def by auto
    moreover have "lookup ?cs = (lookup cs)(i := None)" unfolding lookup_entries e using map_of_removed [OF k(1)] by simp
    ultimately show ?thesis using Some by auto
  qed
  then show "ret = GENIE_FLASH_SUCCESS \<longleftrightarrow> lookup cs i \<noteq> None"
    "\<exists>cs'. store_inv p cs' fl' \<and> lookup cs' = (lookup cs)(i := None)" "fl_oom fl' = fl_oom fl" "fl_enc_key fl' = fl_enc_key fl"
    by auto
qed

section \<open>The contract of a store\<close>

datatype ('k, 'v) store_op = St_Write 'k 'v | St_Delete 'k

text \<open>The operations on a store, each with its success, and on a map: a failing write leaves the map as it is.\<close>

fun store_run :: "('k \<Rightarrow> 'v \<Rightarrow> 's \<Rightarrow> bool \<times> 's) \<Rightarrow> ('k \<Rightarrow> 's \<Rightarrow> bool \<times> 's) \<Rightarrow> ('k, 'v) store_op list \<Rightarrow> 's \<Rightarrow> bool list \<times> 's" where
  "store_run put del [] s = ([], s)"
| "store_run put del (St_Write k v # ops) s = (let (ok, s) = put k v s in map_prod ((#) ok) id (store_run put del ops s))"
| "store_run put del (St_Delete k # ops) s = (let (ok, s) = del k s in map_prod ((#) ok) id (store_run put del ops s))"

fun map_run :: "('k, 'v) store_op list \<Rightarrow> bool list \<Rightarrow> ('k \<rightharpoonup> 'v) \<Rightarrow> ('k \<rightharpoonup> 'v)" where
  "map_run (St_Write k v # ops) (ok # oks) m = map_run ops oks (if ok then m(k \<mapsto> v) else m)"
| "map_run (St_Delete k # ops) (ok # oks) m = map_run ops oks (m(k := None))"
| "map_run _ _ m = m"

fun op_allowed :: "('k \<Rightarrow> 'v \<Rightarrow> bool) \<Rightarrow> ('k, 'v) store_op \<Rightarrow> bool" where
  "op_allowed allowed (St_Write k v) = allowed k v"
| "op_allowed allowed (St_Delete k) = True"

locale map_store =
  fixes rep :: "'s \<Rightarrow> ('k \<rightharpoonup> 'v) \<Rightarrow> bool" and put :: "'k \<Rightarrow> 'v \<Rightarrow> 's \<Rightarrow> bool \<times> 's" and del :: "'k \<Rightarrow> 's \<Rightarrow> bool \<times> 's"
    and get :: "'k \<Rightarrow> nat \<Rightarrow> 's \<Rightarrow> 'v option" and sz :: "'v \<Rightarrow> nat" and allowed :: "'k \<Rightarrow> 'v \<Rightarrow> bool"
  assumes put_rep: "rep s m \<Longrightarrow> allowed k v \<Longrightarrow> put k v s = (ok, s') \<Longrightarrow> rep s' (if ok then m(k \<mapsto> v) else m)"
    and del_rep: "rep s m \<Longrightarrow> del k s = (ok, s') \<Longrightarrow> rep s' (m(k := None)) \<and> (ok \<longleftrightarrow> m k \<noteq> None)"
    and get_rep: "rep s m \<Longrightarrow> m k = Some v \<Longrightarrow> get k (sz v) s = Some v"
    and get_none: "rep s m \<Longrightarrow> m k = None \<Longrightarrow> get k n s = None"
begin

lemma run_rep:
  "rep s m \<Longrightarrow> list_all (op_allowed allowed) ops \<Longrightarrow> store_run put del ops s = (oks, s') \<Longrightarrow> rep s' (map_run ops oks m)"
proof (induction ops arbitrary: s m oks)
  case (Cons a ops)
  show ?case
  proof (cases a)
    case (St_Write k v)
    then show ?thesis using Cons.prems Cons.IH put_rep [of s m k v] by (cases "put k v s"; cases "store_run put del ops (snd (put k v s))") auto
  next
    case (St_Delete k)
    then show ?thesis using Cons.prems Cons.IH del_rep [of s m k] by (cases "del k s"; cases "store_run put del ops (snd (del k s))") auto
  qed
qed simp

lemma get_after_run:
  assumes "rep s m" "list_all (op_allowed allowed) ops" "store_run put del ops s = (oks, s')"
  shows "case map_run ops oks m k of Some v \<Rightarrow> get k (sz v) s' = Some v | None \<Rightarrow> get k n s' = None"
  using run_rep [OF assms] get_rep get_none by (auto split: option.splits)

end

section \<open>The user data partition\<close>

definition flash_get :: "E_GENIE_FLASH_ERRCODE \<times> bytes \<Rightarrow> bytes option" where
  "flash_get r = (if fst r = GENIE_FLASH_SUCCESS then Some (snd r) else None)"

definition flash_put :: "E_GENIE_FLASH_ERRCODE \<times> flash \<Rightarrow> bool \<times> flash" where
  "flash_put r = (fst r = GENIE_FLASH_SUCCESS, snd r)"

definition ud_get :: "u16 \<Rightarrow> nat \<Rightarrow> flash \<Rightarrow> bytes option" where "ud_get i n fl = flash_get (genie_flash_read_userdata i n fl)"
definition ud_put :: "u16 \<Rightarrow> bytes \<Rightarrow> flash \<Rightarrow> bool \<times> flash" where "ud_put i b fl = flash_put (genie_flash_write_userdata i b fl)"
definition ud_del :: "u16 \<Rightarrow> flash \<Rightarrow> bool \<times> flash" where "ud_del i fl = flash_put (genie_flash_delete_userdata i fl)"

definition ud_allowed :: "u16 \<Rightarrow> bytes \<Rightarrow> bool" where "ud_allowed i b \<longleftrightarrow> i \<noteq> 0 \<and> b \<noteq> []"

definition ud_rep :: "flash \<Rightarrow> (u16 \<rightharpoonup> bytes) \<Rightarrow> bool" where
  "ud_rep fl m \<longleftrightarrow> (\<exists>cs. store_inv PART_USERDATA cs fl \<and> lookup cs = m) \<and> \<not> fl_oom fl"

interpretation ud: map_store ud_rep ud_put ud_del ud_get length ud_allowed
proof unfold_locales
  show "ud_rep fl' (if ok then m(i \<mapsto> b) else m)" if "ud_rep fl m" "ud_allowed i b" "ud_put i b fl = (ok, fl')" for fl m i b ok fl'
  proof -
    note prem = that
    obtain cs where s: "store_inv PART_USERDATA cs fl" "lookup cs = m" "\<not> fl_oom fl" using prem(1) by (auto simp: ud_rep_def)
    obtain ret where w: "genie_flash_write (start_cell PART_USERDATA i) b fl = (ret, fl')" "ok \<longleftrightarrow> ret = GENIE_FLASH_SUCCESS"
      using prem(3) by (cases "genie_flash_write (start_cell PART_USERDATA i) b fl")
        (auto simp: ud_put_def flash_put_def genie_flash_write_userdata_def start_cell_eq)
    show ?thesis using write_store [OF s(1,3) _ _ w(1)] prem(2) s w(2) by (auto simp: ud_rep_def ud_allowed_def split: if_splits)
  qed
  show "ud_rep fl' (m(i := None)) \<and> (ok \<longleftrightarrow> m i \<noteq> None)" if "ud_rep fl m" "ud_del i fl = (ok, fl')" for fl m i ok fl'
  proof -
    note prem = that
    obtain cs where s: "store_inv PART_USERDATA cs fl" "lookup cs = m" "\<not> fl_oom fl" using prem(1) by (auto simp: ud_rep_def)
    obtain ret where w: "genie_flash_delete (start_cell PART_USERDATA i) fl = (ret, fl')" "ok \<longleftrightarrow> ret = GENIE_FLASH_SUCCESS"
      using prem(2) by (cases "genie_flash_delete (start_cell PART_USERDATA i) fl")
        (auto simp: ud_del_def flash_put_def genie_flash_delete_userdata_def start_cell_eq)
    show ?thesis using delete_store [OF s(1) w(1)] s w(2) by (auto simp: ud_rep_def)
  qed
  show "ud_get i (length b) fl = Some b" if "ud_rep fl m" "m i = Some b" for fl m i b
    using that read_lookup(2) [of PART_USERDATA "part_flag PART_USERDATA" _ fl i b "length b"]
    by (auto simp: ud_rep_def ud_get_def flash_get_def genie_flash_read_userdata_def start_cell_eq store_inv_def)
  show "ud_get i n fl = None" if "ud_rep fl m" "m i = None" for fl m i n
    using that read_lookup(1) [of PART_USERDATA "part_flag PART_USERDATA" _ fl i n]
    by (auto simp: ud_rep_def ud_get_def flash_get_def genie_flash_read_userdata_def start_cell_eq store_inv_def)
qed

section \<open>The system partition\<close>

text \<open>Reliable data are padded to blocks and encrypted.\<close>

definition sealed :: "bytes \<Rightarrow> bytes \<Rightarrow> bytes" where
  "sealed key d = genie_flash_encrypt key (d @ replicate (genie_flash_get_reliable_size (length d) - length d) 0)"

lemma reliable_size: "n \<le> 4092 \<Longrightarrow> n \<le> genie_flash_get_reliable_size n \<and> 16 dvd genie_flash_get_reliable_size n \<and> genie_flash_get_reliable_size n < n + 16"
proof -
  assume n: "n \<le> 4092"
  define q r where "q = n div 16" and "r = n mod 16"
  have e: "n = 16 * q + r" "r < 16" by (simp_all add: q_def r_def)
  have "(q + 1) * 16 < 65536" using n e by simp
  then have "genie_flash_get_reliable_size n = (if r = 0 then n else (q + 1) * 16)"
    by (simp add: genie_flash_get_reliable_size_def q_def r_def)
  then show ?thesis using e by auto
qed

lemma blocks_undone:
  "length b = 16 * n \<Longrightarrow> length (genie_flash_encrypt key b) = length b \<and> genie_flash_decrypt key (genie_flash_encrypt key b) = b"
proof -
  let ?w = "tc_aes128_set_encrypt_key key"
  have "length (flash_blocks (bt_mesh_aes_encrypt key) n b) = 16 * n \<and>
      flash_blocks (bt_mesh_aes_decrypt key) n (flash_blocks (bt_mesh_aes_encrypt key) n b) = b" if "length b = 16 * n"
    using that
  proof (induction n arbitrary: b)
    case (Suc n)
    have t: "length (take 16 b) = 16" "length (drop 16 b) = 16 * n" using Suc.prems by simp_all
    have l: "length (tc_aes_encrypt (take 16 b) ?w) = 16" by simp
    show ?case
      using Suc.IH [OF t(2)] tc_decrypt_encrypt [OF t(1), of key] l
      by (simp add: bt_mesh_aes_encrypt_def bt_encrypt_be_def bt_mesh_aes_decrypt_def bt_decrypt_be_def tc_aes128_set_decrypt_key_def)
  qed simp
  then show "length b = 16 * n \<Longrightarrow> length (genie_flash_encrypt key b) = length b \<and> genie_flash_decrypt key (genie_flash_encrypt key b) = b"
    by (simp add: genie_flash_encrypt_def genie_flash_decrypt_def)
qed

lemma sealed_open:
  assumes "length d \<le> 4092"
  shows "length (sealed key d) = genie_flash_get_reliable_size (length d)"
    "take (length d) (genie_flash_decrypt key (sealed key d)) = d"
proof -
  let ?b = "d @ replicate (genie_flash_get_reliable_size (length d) - length d) 0"
  obtain n where "length ?b = 16 * n" using reliable_size [OF assms] by (auto elim!: dvdE)
  note u = blocks_undone [OF this, of key]
  show "length (sealed key d) = genie_flash_get_reliable_size (length d)" using u reliable_size [OF assms] by (simp add: sealed_def)
  show "take (length d) (genie_flash_decrypt key (sealed key d)) = d" using u by (simp add: sealed_def)
qed

definition sys_get :: "u16 \<Rightarrow> nat \<Rightarrow> flash \<Rightarrow> bytes option" where "sys_get i n fl = flash_get (genie_flash_read_reliable i n fl)"
definition sys_put :: "u16 \<Rightarrow> bytes \<Rightarrow> flash \<Rightarrow> bool \<times> flash" where "sys_put i d fl = flash_put (genie_flash_write_reliable i d fl)"
definition sys_del :: "u16 \<Rightarrow> flash \<Rightarrow> bool \<times> flash" where "sys_del i fl = flash_put (genie_flash_delete_reliable i fl)"

definition sys_allowed :: "u16 \<Rightarrow> bytes \<Rightarrow> bool" where "sys_allowed i d \<longleftrightarrow> i \<noteq> 0 \<and> d \<noteq> [] \<and> length d \<le> 4092"

definition sys_rep :: "flash \<Rightarrow> (u16 \<rightharpoonup> bytes) \<Rightarrow> bool" where
  "sys_rep fl m \<longleftrightarrow> (\<exists>cs. store_inv PART_SYSTEM cs fl \<and> lookup cs = (\<lambda>i. map_option (sealed (fl_enc_key fl)) (m i))) \<and> \<not> fl_oom fl \<and>
     (\<forall>i d. m i = Some d \<longrightarrow> length d \<le> 4092)"

interpretation sys: map_store sys_rep sys_put sys_del sys_get length sys_allowed
proof unfold_locales
  show "sys_rep fl' (if ok then m(i \<mapsto> d) else m)" if "sys_rep fl m" "sys_allowed i d" "sys_put i d fl = (ok, fl')" for fl m i d ok fl'
  proof -
    note prem = that
    let ?b = "sealed (fl_enc_key fl) d"
    obtain cs where s: "store_inv PART_SYSTEM cs fl" "lookup cs = (\<lambda>i. map_option (sealed (fl_enc_key fl)) (m i))" "\<not> fl_oom fl"
      "\<forall>i d. m i = Some d \<longrightarrow> length d \<le> 4092"
      using prem(1) by (auto simp: sys_rep_def)
    have a: "i \<noteq> 0" "?b \<noteq> []" "length d \<le> 4092"
      using prem(2) sealed_open(1) [of d "fl_enc_key fl"] reliable_size [of "length d"] by (auto simp: sys_allowed_def)
    obtain ret where w: "genie_flash_write (start_cell PART_SYSTEM i) ?b fl = (ret, fl')" "ok \<longleftrightarrow> ret = GENIE_FLASH_SUCCESS"
      using prem(3) s(3) by (cases "genie_flash_write (start_cell PART_SYSTEM i) ?b fl")
        (auto simp: sys_put_def flash_put_def genie_flash_write_reliable_def start_cell_eq sealed_def Let_def)
    show ?thesis using write_store [OF s(1,3) a(2,1) w(1)] a(3) s w(2) by (auto simp: sys_rep_def fun_eq_iff split: if_splits)
  qed
  show "sys_rep fl' (m(i := None)) \<and> (ok \<longleftrightarrow> m i \<noteq> None)" if "sys_rep fl m" "sys_del i fl = (ok, fl')" for fl m i ok fl'
  proof -
    note prem = that
    obtain cs where s: "store_inv PART_SYSTEM cs fl" "lookup cs = (\<lambda>i. map_option (sealed (fl_enc_key fl)) (m i))" "\<not> fl_oom fl"
      "\<forall>i d. m i = Some d \<longrightarrow> length d \<le> 4092"
      using prem(1) by (auto simp: sys_rep_def)
    obtain ret where w: "genie_flash_delete (start_cell PART_SYSTEM i) fl = (ret, fl')" "ok \<longleftrightarrow> ret = GENIE_FLASH_SUCCESS"
      using prem(2) by (cases "genie_flash_delete (start_cell PART_SYSTEM i) fl")
        (auto simp: sys_del_def flash_put_def genie_flash_delete_reliable_def start_cell_eq)
    show ?thesis using delete_store [OF s(1) w(1)] s w(2) by (auto simp: sys_rep_def fun_eq_iff)
  qed
  show "sys_get i (length d) fl = Some d" if "sys_rep fl m" "m i = Some d" for fl m i d
  proof -
    note prem = that
    let ?b = "sealed (fl_enc_key fl) d"
    obtain cs where s: "store_inv PART_SYSTEM cs fl" "lookup cs i = Some ?b" "\<not> fl_oom fl" "length d \<le> 4092" using prem by (auto simp: sys_rep_def)
    have "genie_flash_read (start_cell PART_SYSTEM i) (length ?b) fl = (GENIE_FLASH_SUCCESS, ?b)"
      using read_lookup(2) [OF _ s(2)] s(1) by (auto simp: store_inv_def)
    then show ?thesis using sealed_open [OF s(4), of "fl_enc_key fl"] s(3)
      by (simp add: sys_get_def flash_get_def genie_flash_read_reliable_def start_cell_eq Let_def)
  qed
  show "sys_get i n fl = None" if "sys_rep fl m" "m i = None" for fl m i n
    using that read_lookup(1) [of PART_SYSTEM "part_flag PART_SYSTEM" _ fl i]
    by (auto simp: sys_rep_def sys_get_def flash_get_def genie_flash_read_reliable_def start_cell_eq store_inv_def Let_def case_prod_beta)
qed

section \<open>A restart\<close>

text \<open>
  A restart clears the variables; the memory stays. The encryption key is derived again from the project key and the
  stored random number.
\<close>

definition restarted :: "flash \<Rightarrow> flash" where
  "restarted fl = fl\<lparr>fl_inited := False, fl_enc_key := replicate 16 0, fl_info_system := \<lparr>gi_remain = 0, gi_free_offset = 0\<rparr>,
     fl_info_userdata := \<lparr>gi_remain = 0, gi_free_offset = 0\<rparr>, fl_info_recycle := \<lparr>gi_remain = 0, gi_free_offset = 0\<rparr>\<rparr>"

lemma restarted_sel [simp]: "fl_mem (restarted fl) = fl_mem fl" "\<not> fl_inited (restarted fl)" "fl_oom (restarted fl) = fl_oom fl"
  "fl_info_system (restarted fl) = \<lparr>gi_remain = 0, gi_free_offset = 0\<rparr>"
  by (simp_all add: restarted_def)

definition key_loaded :: "flash \<Rightarrow> bool" where
  "key_loaded fl \<longleftrightarrow> fl_enc_key (load_enc_key (restarted fl)) = fl_enc_key fl"

lemma check_partition_other:
  assumes "length (fl_mem fl p) = 4096" "p = PART_USERDATA \<or> p = PART_SEQ" "check_partition p 4096 fl = (ret, fl')"
  shows "ret = GENIE_FLASH_SUCCESS" "\<forall>q. q \<noteq> p \<longrightarrow> fl_mem fl' q = fl_mem fl q" "length (fl_mem fl' p) = 4096"
    "fl_oom fl' = fl_oom fl" "fl_enc_key fl' = fl_enc_key fl" "fl_info_system fl' = fl_info_system fl"
proof -
  have "\<exists>m fl0. genie_flash_init_partition p 4096 fl = (GENIE_FLASH_SUCCESS, set_mem p m fl0) \<and> length m = 4096 \<and> fl_mem fl0 = fl_mem fl \<and>
      fl_oom fl0 = fl_oom fl \<and> fl_enc_key fl0 = fl_enc_key fl \<and> fl_info_system fl0 = fl_info_system fl"
    using assms(2)
  proof
    assume p: "p = PART_USERDATA"
    then show ?thesis
      using init_partition_log [OF assms(1)] length_part_mem [of "part_flag p" "[]"]
      by (intro exI [of _ "part_mem (part_flag p) []"] exI [of _ "fresh_info p fl"]) (simp add: cell_part_def, simp add: fresh_info_def)
  next
    assume p: "p = PART_SEQ"
    then show ?thesis
      using erase_blank [OF assms(1)] by (intro exI [of _ "replicate 4096 0xFF"] exI [of _ fl]) (simp add: genie_flash_init_partition_def set_mem_def)
  qed
  then obtain m fl0 where "genie_flash_init_partition p 4096 fl = (GENIE_FLASH_SUCCESS, set_mem p m fl0)" "length m = 4096" "fl_mem fl0 = fl_mem fl"
    "fl_oom fl0 = fl_oom fl" "fl_enc_key fl0 = fl_enc_key fl" "fl_info_system fl0 = fl_info_system fl" by auto
  then show "ret = GENIE_FLASH_SUCCESS" "\<forall>q. q \<noteq> p \<longrightarrow> fl_mem fl' q = fl_mem fl q" "length (fl_mem fl' p) = 4096"
    "fl_oom fl' = fl_oom fl" "fl_enc_key fl' = fl_enc_key fl" "fl_info_system fl' = fl_info_system fl"
    using assms(1,3) by (auto simp: check_partition_def Let_def split: if_splits)
qed

text \<open>The start leaves a valid system partition alone and counts its cells again.\<close>

lemma init_keeps_system:
  assumes h: "holds PART_SYSTEM (part_flag PART_SYSTEM) cs fl" and r: "recycle_idle fl" and n: "\<not> fl_inited fl"
    and l: "length (fl_mem fl PART_USERDATA) = 4096" "length (fl_mem fl PART_SEQ) = 4096"
  obtains f3 where "genie_flash_init fl = (GENIE_FLASH_SUCCESS, genie_flash_check_remain f3)" "holds PART_SYSTEM (part_flag PART_SYSTEM) cs f3"
    "recycle_idle f3" "fl_oom f3 = fl_oom fl" "fl_enc_key f3 = fl_enc_key (load_enc_key fl)" "fl_info_system f3 = fl_info_system fl"
proof -
  let ?f0 = "load_enc_key (fl\<lparr>fl_inited := True\<rparr>)"
  have key: "fl_enc_key ?f0 = fl_enc_key (load_enc_key fl)"
    by (simp add: load_enc_key_def ginie_flash_get_enc_key_def Let_def split: option.splits sum.splits)
  have rec: "genie_flash_check_recycle ?f0 = (GENIE_FLASH_SUCCESS, ?f0)"
    using r by (simp add: genie_flash_check_recycle_def hal_flash_read_def recycle_idle_def Let_def)
  obtain r1 f1 where 1: "check_partition PART_USERDATA 4096 ?f0 = (r1, f1)" by fastforce
  have c1: "r1 = GENIE_FLASH_SUCCESS" "\<forall>q. q \<noteq> PART_USERDATA \<longrightarrow> fl_mem f1 q = fl_mem fl q" "fl_oom f1 = fl_oom fl" "fl_enc_key f1 = fl_enc_key (load_enc_key fl)"
      "fl_info_system f1 = fl_info_system fl"
    using check_partition_other [OF _ _ 1] l(1) key by auto
  have "genie_flash_checkflag PART_SYSTEM f1 = GENIE_FLASH_SUCCESS"
    using h c1(2) by (simp add: genie_flash_checkflag_def hal_flash_read_def holds_def length_part_mem Let_def)
      (simp add: part_mem_def part_flag_def GENIE_FLASH_FLAG_INITED_SYS_def GENIE_FLASH_FLAG_INITED_ORIGIN_def)
  then have 2: "check_partition PART_SYSTEM 4096 f1 = (GENIE_FLASH_SUCCESS, f1)" by (simp add: check_partition_def)
  obtain r3 f3 where 3: "check_partition PART_SEQ 4096 f1 = (r3, f3)" by fastforce
  have c3: "r3 = GENIE_FLASH_SUCCESS" "\<forall>q. q \<noteq> PART_SEQ \<longrightarrow> fl_mem f3 q = fl_mem f1 q" "fl_oom f3 = fl_oom f1" "fl_enc_key f3 = fl_enc_key f1"
      "fl_info_system f3 = fl_info_system f1"
    using check_partition_other [OF _ _ 3] l(2) c1(2) by auto
  have "genie_flash_init fl = (GENIE_FLASH_SUCCESS, genie_flash_check_remain f3)"
    using n rec 1 2 3 c1(1) c3(1) by (simp add: genie_flash_init_def Let_def GENIE_FLASH_SIZE_USERDATA_PART_def GENIE_FLASH_SIZE_SYSTEM_PART_def GENIE_FLASH_SIZE_SEQ_PART_def)
  moreover have "holds PART_SYSTEM (part_flag PART_SYSTEM) cs f3" using h c1(2) c3(2) by (simp add: holds_def)
  moreover have "recycle_idle f3" using r c1(2) c3(2) by (simp add: recycle_idle_def)
  ultimately show thesis using that c1(3-5) c3(3-5) by simp
qed

text \<open>A start counts the cells again; it finds the end of the cells unless they fill the partition.\<close>

lemma restart_counts:
  assumes "holds PART_SYSTEM (part_flag PART_SYSTEM) cs (restarted fl)" "recycle_idle (restarted fl)"
    "length (fl_mem fl PART_USERDATA) = 4096" "length (fl_mem fl PART_SEQ) = 4096"
  obtains fl' where "genie_flash_init (restarted fl) = (GENIE_FLASH_SUCCESS, fl')" "holds PART_SYSTEM (part_flag PART_SYSTEM) cs fl'"
    "unat (gi_remain (get_info PART_SYSTEM fl')) = 4092 - active_size cs"
    "gi_free_offset (get_info PART_SYSTEM fl') = (if length (cells_bytes cs) \<le> 4088 then 4 + length (cells_bytes cs) else 0)"
    "recycle_idle fl'" "fl_oom fl' = fl_oom fl" "fl_enc_key fl' = fl_enc_key (load_enc_key (restarted fl))"
proof -
  obtain f3 where f: "genie_flash_init (restarted fl) = (GENIE_FLASH_SUCCESS, genie_flash_check_remain f3)"
      "holds PART_SYSTEM (part_flag PART_SYSTEM) cs f3" "recycle_idle f3" "fl_oom f3 = fl_oom (restarted fl)"
      "fl_enc_key f3 = fl_enc_key (load_enc_key (restarted fl))" "fl_info_system f3 = fl_info_system (restarted fl)"
    by (rule init_keeps_system [OF assms(1,2)]) (use assms(3,4) in simp_all)
  have "unat (of_nat (4092 - active_size cs) :: u16) = 4092 - active_size cs" by (rule of_nat_inverse) simp_all
  then show thesis
    by (intro that [OF f(1)]) (use f(2-6) check_remain_info [OF f(2)] in \<open>simp_all add: holds_def recycle_idle_def get_info_def [of _ f3] del: of_nat_diff\<close>)
qed

text \<open>The offset at which the free space of the system partition begins.\<close>

definition sys_end :: "flash \<Rightarrow> nat" where
  "sys_end fl = snd (remain_loop (CELL_PREPEAR_RELIABLE 0) fl 0)"

lemma sys_end_log: "holds PART_SYSTEM w cs fl \<Longrightarrow> sys_end fl = 4 + length (cells_bytes cs)"
  using remain_loop_log [of fl PART_SYSTEM w cs "4092 - length (cells_bytes cs)" "start_cell PART_SYSTEM 0" 0] length_part_mem [of w cs]
  by (simp add: sys_end_def start_cell_eq holds_def) (simp add: part_mem_def)

section \<open>The contents of the system partition\<close>

lemma sys_rep_write:
  assumes "sys_rep fl m" "sys_allowed i d"
  shows "fst (genie_flash_write_reliable i d fl) = GENIE_FLASH_SUCCESS \<longleftrightarrow>
    genie_flash_get_reliable_size (length d) + 8 \<le> unat (gi_remain (fl_info_system fl))"
proof -
  let ?b = "sealed (fl_enc_key fl) d"
  obtain cs where s: "store_inv PART_SYSTEM cs fl" "\<not> fl_oom fl" using assms(1) by (auto simp: sys_rep_def)
  have a: "i \<noteq> 0" "?b \<noteq> []" "length ?b = genie_flash_get_reliable_size (length d)"
    using assms(2) sealed_open(1) [of d "fl_enc_key fl"] reliable_size [of "length d"] by (auto simp: sys_allowed_def)
  obtain ret fl' where w: "genie_flash_write (start_cell PART_SYSTEM i) ?b fl = (ret, fl')" by fastforce
  have "genie_flash_write_reliable i d fl = (ret, fl')"
    using w s(2) by (simp add: genie_flash_write_reliable_def start_cell_eq sealed_def Let_def)
  then show ?thesis using write_store [OF s a(2,1) w] a(3) by (auto simp: get_info_def split: if_splits)
qed

text \<open>
  C6. The reliable store is a map, across recycling. After any sequence of writes and deletes through the reliable interface
  on an initialised system partition, with data of at most 4092 bytes under non-zero indices, reading an index with the size of its data
  returns exactly what the last successful write stored (decrypted and without padding), and fails for an index that was
  deleted or never written, also when writes recycled the partition in between. A further write succeeds exactly when
  its padded size and a header fit into the space that is accounted as remaining.
\<close>

theorem reliable_store_refines:
  assumes "sys_rep fl m" "list_all (op_allowed sys_allowed) ops" "store_run sys_put sys_del ops fl = (oks, fl')"
  shows "(case map_run ops oks m i of
      Some d \<Rightarrow> genie_flash_read_reliable i (length d) fl' = (GENIE_FLASH_SUCCESS, d)
    | None \<Rightarrow> fst (genie_flash_read_reliable i n fl') \<noteq> GENIE_FLASH_SUCCESS) \<and>
    (sys_allowed j e \<longrightarrow> (fst (genie_flash_write_reliable j e fl') = GENIE_FLASH_SUCCESS \<longleftrightarrow>
      genie_flash_get_reliable_size (length e) + 8 \<le> unat (gi_remain (fl_info_system fl'))))"
proof -
  have "case map_run ops oks m i of Some d \<Rightarrow> sys_get i (length d) fl' = Some d | None \<Rightarrow> sys_get i n fl' = None"
    by (rule sys.get_after_run [OF assms])
  then show ?thesis
    using sys_rep_write [OF sys.run_rep [OF assms], of j e]
    by (auto simp: sys_get_def flash_get_def prod_eq_iff split: option.splits if_splits)
qed

lemma erased_rep:
  assumes "length (fl_mem fl PART_SYSTEM) = 4096" "recycle_idle fl" "\<not> fl_oom fl"
  shows "sys_rep (snd (genie_flash_erase_reliable fl)) Map.empty" "unat (gi_remain (fl_info_system (snd (genie_flash_erase_reliable fl)))) = 4092"
proof -
  have e: "snd (genie_flash_erase_reliable fl) = set_mem PART_SYSTEM (part_mem (part_flag PART_SYSTEM) []) (fresh_info PART_SYSTEM fl)"
    using init_partition_log [OF assms(1)] by (simp add: genie_flash_erase_reliable_def cell_part_def GENIE_FLASH_SIZE_SYSTEM_PART_def)
  show 2: "unat (gi_remain (fl_info_system (snd (genie_flash_erase_reliable fl)))) = 4092" unfolding e by (simp add: fresh_info_def)
  have "store_inv PART_SYSTEM [] (snd (genie_flash_erase_reliable fl))"
    by (rule store_invI) (use 2 assms(2) in \<open>simp_all add: e holds_def recycle_idle_def get_info_def fresh_info_def\<close>)
  moreover have "lookup [] = Map.empty" by (simp add: lookup_entries)
  ultimately show "sys_rep (snd (genie_flash_erase_reliable fl)) Map.empty" using assms(3) e by (auto simp: sys_rep_def)
qed

lemma flash_demo_erased:
  "sys_rep (snd (genie_flash_erase_reliable flash_demo)) Map.empty" "unat (gi_remain (fl_info_system (snd (genie_flash_erase_reliable flash_demo)))) = 4092"
proof -
  have "recycle_idle flash_demo" 
    by (simp add: recycle_idle_def flash_demo_def blank_word GENIE_FLASH_FLAG_INITED_SYS_def GENIE_FLASH_FLAG_INITED_UD_def)
  then show "sys_rep (snd (genie_flash_erase_reliable flash_demo)) Map.empty" 
    "unat (gi_remain (fl_info_system (snd (genie_flash_erase_reliable flash_demo)))) = 4092"
    using erased_rep [of flash_demo] by (simp_all add: flash_demo_def)
qed

theorem reliable_store_refines_witness:
  "genie_flash_read_reliable 3 2 (snd (genie_flash_write_reliable 3 [1, 2] (snd (genie_flash_erase_reliable flash_demo)))) = (GENIE_FLASH_SUCCESS, [1, 2])"
proof -
  let ?fl = "snd (genie_flash_erase_reliable flash_demo)"
  have a: "sys_allowed 3 [1, 2]" by (simp add: sys_allowed_def)
  have "fst (genie_flash_write_reliable 3 [1, 2] ?fl) = GENIE_FLASH_SUCCESS"
    unfolding sys_rep_write [OF flash_demo_erased(1) a] flash_demo_erased(2) by (simp add: genie_flash_get_reliable_size_def)
  then have "store_run sys_put sys_del [St_Write 3 [1, 2]] ?fl = ([True], snd (genie_flash_write_reliable 3 [1, 2] ?fl))"
    by (simp add: sys_put_def flash_put_def)
  from reliable_store_refines [OF flash_demo_erased(1) _ this, of 3] show ?thesis using a by (simp add: numeral_2_eq_2)
qed

text \<open>Cells of the system partition carry whole blocks, so that they need no padding.\<close>

definition live_size :: "(u16 \<rightharpoonup> bytes) \<Rightarrow> nat" where
  "live_size m = (\<Sum>i\<in>dom m. 8 + genie_flash_get_reliable_size (length (the (m i))))"

lemma live_size_entries:
  assumes "distinct (map fst (entries cs))" "\<forall>c\<in>set cs. cell_ok c"
    and m: "map_of (entries cs) = (\<lambda>i. map_option (sealed key) (m i))" "\<forall>i d. m i = Some d \<longrightarrow> length d \<le> 4092"
  shows "active_size cs = live_size m"
proof -
  have dom: "dom m = fst ` set (entries cs)"
  proof -
    have "dom m = dom (map_of (entries cs))" unfolding m(1) by (auto simp: dom_def)
    then show ?thesis by (simp only: dom_map_of_conv_image_fst)
  qed
  have sz: "8 + length d = 8 + genie_flash_get_reliable_size (length (the (m i)))" if "(i, d) \<in> set (entries cs)" for i d
  proof -
    have "map_of (entries cs) i = Some d" using assms(1) that by simp
    then obtain v where "m i = Some v" "d = sealed key v" using m(1) by auto
    then show ?thesis using sealed_open(1) m(2) by simp
  qed
  have pad: "length (cell_bytes c) = 8 + length (cl_data c)" if "c \<in> set cs" "active c" for c
  proof -
    have e: "(cell_index c, cl_data c) \<in> set (entries cs)" using that by (auto simp: entries_def)
    from sz [OF e] have l: "length (cl_data c) = genie_flash_get_reliable_size (length (the (m (cell_index c))))" by simp
    have "cell_index c \<in> dom m" unfolding dom by (rule image_eqI [OF _ e]) simp
    then obtain v where "m (cell_index c) = Some v" by auto
    then have "16 dvd length (cl_data c)" using l reliable_size m(2) by simp
    then have d: "4 dvd length (cl_data c)" by (rule dvd_trans [rotated]) simp
    have "4 dvd length (cl_data c) + length (cl_pad c)" and p: "length (cl_pad c) < 4" using assms(2) that by (auto simp: cell_ok_def)
    then have "4 dvd length (cl_pad c)" using dvd_add_right_iff [OF d] by blast
    then have "length (cl_pad c) = 0" using p by (metis dvd_imp_le not_le neq0_conv)
    then show ?thesis by (simp add: cell_bytes_def)
  qed
  have "map (\<lambda>c. length (cell_bytes c)) (filter active cs) = map (\<lambda>c. 8 + length (cl_data c)) (filter active cs)"
    by (rule map_cong [OF refl]) (use pad in auto)
  then have "active_size cs = sum_list (map (\<lambda>c. 8 + length (cl_data c)) (filter active cs))" by (simp only: active_size_def)
  also have "\<dots> = sum_list (map (\<lambda>e. 8 + length (snd e)) (entries cs))" by (simp add: entries_def comp_def)
  also have "map (\<lambda>e. 8 + length (snd e)) (entries cs) = map (\<lambda>e. 8 + genie_flash_get_reliable_size (length (the (m (fst e))))) (entries cs)"
  proof (rule map_cong [OF refl])
    fix e
    assume "e \<in> set (entries cs)"
    then show "8 + length (snd e) = 8 + genie_flash_get_reliable_size (length (the (m (fst e))))" using sz [of "fst e" "snd e"] by simp
  qed
  also have "sum_list (map (\<lambda>e. 8 + genie_flash_get_reliable_size (length (the (m (fst e))))) (entries cs)) =
      sum_list (map (\<lambda>i. 8 + genie_flash_get_reliable_size (length (the (m i)))) (map fst (entries cs)))"
    by (simp add: comp_def)
  also have "\<dots> = live_size m" unfolding live_size_def dom using sum_list_distinct_conv_sum_set [OF assms(1)] by simp
  finally show ?thesis .
qed


lemma restart_rep:
  assumes "sys_rep fl m" "key_loaded fl" "sys_end fl \<le> 4092" "length (fl_mem fl PART_USERDATA) = 4096" "length (fl_mem fl PART_SEQ) = 4096"
  obtains fl' where "genie_flash_init (restarted fl) = (GENIE_FLASH_SUCCESS, fl')" "sys_rep fl' m" "unat (gi_remain (fl_info_system fl')) + live_size m = 4092"
proof -
  obtain cs where s: "store_inv PART_SYSTEM cs fl" "lookup cs = (\<lambda>i. map_option (sealed (fl_enc_key fl)) (m i))" "\<not> fl_oom fl"
      "\<forall>i d. m i = Some d \<longrightarrow> length d \<le> 4092"
    using assms(1) by (auto simp: sys_rep_def)
  have h: "holds PART_SYSTEM (part_flag PART_SYSTEM) cs (restarted fl)" "recycle_idle (restarted fl)" "holds PART_SYSTEM (part_flag PART_SYSTEM) cs fl"
    using s(1) by (simp_all add: store_inv_def holds_def recycle_idle_def)
  obtain f3 where f: "genie_flash_init (restarted fl) = (GENIE_FLASH_SUCCESS, f3)" "holds PART_SYSTEM (part_flag PART_SYSTEM) cs f3"
      "unat (gi_remain (get_info PART_SYSTEM f3)) = 4092 - active_size cs"
      "gi_free_offset (get_info PART_SYSTEM f3) = (if length (cells_bytes cs) \<le> 4088 then 4 + length (cells_bytes cs) else 0)"
      "recycle_idle f3" "fl_oom f3 = fl_oom fl" "fl_enc_key f3 = fl_enc_key fl"
    by (rule restart_counts [OF h(1,2)]) (use assms(2,4,5) in \<open>simp_all add: key_loaded_def\<close>)
  have len: "length (cells_bytes cs) \<le> 4088" using sys_end_log [OF h(3)] assms(3) by simp
  have ok: "\<forall>c\<in>set cs. cell_ok c" "active_size cs \<le> 4092" using h(3) active_size_le [of cs] len by (simp_all add: holds_def)
  have "store_inv PART_SYSTEM cs (f3)"
    by (rule store_invI) (use s(1) f(2-5) len ok active_size_mod4 [OF ok(1)] in \<open>auto simp: store_inv_def dvd_diff_nat\<close>)
  then have "sys_rep (f3) m" unfolding sys_rep_def using s f(6,7) by auto
  moreover have "active_size cs = live_size m"
    by (rule live_size_entries [of cs "fl_enc_key fl"]) (use s ok(1) in \<open>auto simp: store_inv_def lookup_entries\<close>)
  ultimately show thesis using that f(1,3) ok(2) by (simp add: get_info_def)
qed

text \<open>
  C7. The stored data survive a restart. When the node starts again, with its variables cleared, a system partition
  that is not completely full is recognised and keeps every entry: each index reads as before, and the space beyond the live
  entries (a header and the padded data each) is available again, also that of entries that were deleted.
\<close>

theorem reliable_store_restart:
  assumes "sys_rep fl m" "key_loaded fl" "sys_end fl \<le> 4092" "length (fl_mem fl PART_USERDATA) = 4096" "length (fl_mem fl PART_SEQ) = 4096"
    "genie_flash_init (restarted fl) = (ret, fl')"
  shows "ret = GENIE_FLASH_SUCCESS \<and> unat (gi_remain (fl_info_system fl')) + live_size m = 4092 \<and>
    (case m i of Some d \<Rightarrow> genie_flash_read_reliable i (length d) fl' = (GENIE_FLASH_SUCCESS, d)
      | None \<Rightarrow> fst (genie_flash_read_reliable i n fl') \<noteq> GENIE_FLASH_SUCCESS)"
proof -
  have r: "ret = GENIE_FLASH_SUCCESS" "sys_rep fl' m" "unat (gi_remain (fl_info_system fl')) + live_size m = 4092"
    using restart_rep [OF assms(1-5)] assms(6) by auto
  have "case m i of Some d \<Rightarrow> sys_get i (length d) fl' = Some d | None \<Rightarrow> sys_get i n fl' = None"
    using sys.get_rep [OF r(2)] sys.get_none [OF r(2)] by (auto split: option.splits)
  then show ?thesis using r(1,3) by (auto simp: sys_get_def flash_get_def prod_eq_iff split: option.splits if_splits)
qed

definition stored_demo :: flash where
  "stored_demo = (set_mem PART_SYSTEM (part_mem (part_flag PART_SYSTEM) [new_cell 3 (sealed (replicate 16 0) [1, 2])]) flash_demo)
     \<lparr>fl_info_system := \<lparr>gi_remain = 4068, gi_free_offset = 28\<rparr>\<rparr>"

lemma stored_demo_rep:
  "sys_rep stored_demo [3 \<mapsto> [1, 2]]" "sys_end stored_demo = 28"
  "store_inv PART_SYSTEM [new_cell 3 (sealed (replicate 16 0) [1, 2])] stored_demo"
  "length (cell_bytes (new_cell 3 (sealed (replicate 16 0) [1, 2]))) = 24"
proof -
  let ?b = "sealed (replicate 16 0) [1, 2]"
  have l: "length ?b = 16" using sealed_open(1) [of "[1, 2]"] by (simp add: genie_flash_get_reliable_size_def)
  then have ok: "cell_ok (new_cell 3 ?b)" by (intro new_cell_ok) auto
  show z: "length (cell_bytes (new_cell 3 ?b)) = 24" using l by (simp add: length_new_cell align_count_def)
  have h: "holds PART_SYSTEM (part_flag PART_SYSTEM) [new_cell 3 ?b] stored_demo"
    using ok z by (simp add: holds_def stored_demo_def)
  have i: "get_info PART_SYSTEM stored_demo = \<lparr>gi_remain = 4068, gi_free_offset = 28\<rparr>" by (simp add: get_info_def stored_demo_def)
  have "recycle_idle stored_demo"
    by (simp add: recycle_idle_def stored_demo_def flash_demo_def blank_word GENIE_FLASH_FLAG_INITED_SYS_def GENIE_FLASH_FLAG_INITED_UD_def)
  then show s: "store_inv PART_SYSTEM [new_cell 3 ?b] stored_demo" by (intro store_invI) (use h i z in simp_all)
  moreover have "lookup [new_cell 3 ?b] = (\<lambda>i. map_option (sealed (fl_enc_key stored_demo)) ([3 \<mapsto> [1, 2]] i))"
    by (auto simp: lookup_entries stored_demo_def flash_demo_def)
  ultimately show "sys_rep stored_demo [3 \<mapsto> [1, 2]]" by (auto simp: sys_rep_def stored_demo_def flash_demo_def)
  show "sys_end stored_demo = 28" using sys_end_log [OF h] z by simp
qed

theorem reliable_store_restart_witness:
  "genie_flash_read_reliable 3 2 (snd (genie_flash_init (restarted stored_demo))) = (GENIE_FLASH_SUCCESS, [1, 2])"
proof -
  have k: "key_loaded stored_demo" by (simp add: key_loaded_def restarted_def load_enc_key_def stored_demo_def set_mem_def upd_mem_def flash_demo_def)
  have l: "length (fl_mem stored_demo PART_USERDATA) = 4096" "length (fl_mem stored_demo PART_SEQ) = 4096" by (simp_all add: stored_demo_def flash_demo_def)
  show ?thesis
    using reliable_store_restart [OF stored_demo_rep(1) k _ l, of "fst (genie_flash_init (restarted stored_demo))" "snd (genie_flash_init (restarted stored_demo))" 3]
      stored_demo_rep(2) by (simp add: numeral_2_eq_2)
qed

section \<open>A completely full partition\<close>

text \<open>A write at the start of the partition clears the low byte of its flag word.\<close>

lemma write_nth:
  assumes "off + length buf \<le> length (fl_mem fl p)"
  obtains fl' where "hal_flash_write p off buf fl = (True, fl')" "length (fl_mem fl' p) = length (fl_mem fl p)"
    "\<forall>i<length (fl_mem fl p). fl_mem fl' p ! i = (if off \<le> i \<and> i < off + length buf then fl_mem fl p ! i AND buf ! (i - off) else fl_mem fl p ! i)"
  using that [OF hal_write_ok [OF assms]] hal_write_nth [OF assms] by simp

lemma write_cell_over_flag:
  assumes "fl_mem fl PART_SYSTEM = part_mem (part_flag PART_SYSTEM) cs" "length (fl_mem fl PART_SYSTEM) = 4096" "8 + length b \<le> 4096"
  obtains fl' where "write_cell PART_SYSTEM 0 i b fl = (True, fl')" "fl_mem fl' PART_SYSTEM ! 0 = 0" "length (fl_mem fl' PART_SYSTEM) = 4096"
proof -
  let ?p = PART_SYSTEM and ?h = "put_header (new_header GENIE_FLASH_FLAG_WRITING i b)"
  have f: "fl_mem fl ?p ! 0 = 0xA8"
    using assms(1) by (simp add: part_mem_def part_flag_def sys_put_le32_def sys_put_le16_def GENIE_FLASH_FLAG_INITED_SYS_def)
  obtain f1 where 1: "hal_flash_write ?p 0 ?h fl = (True, f1)" "length (fl_mem f1 ?p) = 4096"
      "\<forall>i<4096. fl_mem f1 ?p ! i = (if 0 \<le> i \<and> i < 0 + length ?h then fl_mem fl ?p ! i AND ?h ! (i - 0) else fl_mem fl ?p ! i)"
    by (rule write_nth [of 0 ?h fl ?p]) (use assms(2) in auto)
  have "?h ! 0 = 3" by (simp add: put_header_def new_header_def GENIE_FLASH_FLAG_WRITING_def)
  then have z1: "fl_mem f1 ?p ! 0 = 0" using 1(3) f by simp
  obtain f2 where 2: "hal_flash_write ?p 8 b f1 = (True, f2)" "length (fl_mem f2 ?p) = 4096"
      "\<forall>i<4096. fl_mem f2 ?p ! i = (if 8 \<le> i \<and> i < 8 + length b then fl_mem f1 ?p ! i AND b ! (i - 8) else fl_mem f1 ?p ! i)"
    by (rule write_nth [of 8 b f1 ?p]) (use 1(2) assms(3) in auto)
  obtain f3 where 3: "hal_flash_write ?p 0 [GENIE_FLASH_FLAG_ACTIVE] f2 = (True, f3)" "length (fl_mem f3 ?p) = 4096"
      "\<forall>i<4096. fl_mem f3 ?p ! i = (if 0 \<le> i \<and> i < 0 + length [GENIE_FLASH_FLAG_ACTIVE] then fl_mem f2 ?p ! i AND [GENIE_FLASH_FLAG_ACTIVE] ! (i - 0) else fl_mem f2 ?p ! i)"
    by (rule write_nth [of 0 "[GENIE_FLASH_FLAG_ACTIVE]" f2 ?p]) (use 2(2) in auto)
  show thesis by (rule that [of f3]) (use 1(1) 2 3 z1 in \<open>simp_all add: write_cell_def\<close>)
qed

lemma flag_low_byte: "byte_at b 0 = 0 \<Longrightarrow> sys_get_le32 b \<noteq> GENIE_FLASH_FLAG_INITED_SYS \<and> sys_get_le32 b \<noteq> GENIE_FLASH_FLAG_INITED_ORIGIN"
proof -
  assume "byte_at b 0 = 0"
  then have "\<not> bit (sys_get_le32 b) 3" by (simp add: sys_get_le32_def sys_get_le16_def bit_simps)
  moreover have "bit (0xA5A501A8 :: u32) 3" "bit (0xFFFFFFFF :: u32) 3" by code_simp+
  ultimately show ?thesis by (auto simp: GENIE_FLASH_FLAG_INITED_SYS_def GENIE_FLASH_FLAG_INITED_ORIGIN_def)
qed


definition full_cell :: cell where
  "full_cell = \<lparr>cl_header = \<lparr>fh_flag = GENIE_FLASH_FLAG_INVALID, fh_align = 0, fh_index = 9, fh_length = 4084, fh_crc = 0\<rparr>,
     cl_data = replicate 4084 0, cl_pad = []\<rparr>"

definition full_demo :: flash where
  "full_demo = set_mem PART_SYSTEM (part_mem (part_flag PART_SYSTEM) [full_cell]) flash_demo"


section \<open>A write that a power loss interrupts\<close>

text \<open>
  C35. After an interrupted write the store returns stale data. When the power fails between the activation of a new cell
  and the invalidation of the old one, both are active after the restart. The next write of the same index
  invalidates only the first of them and reports success, but reading then returns the data of the interrupted
  write, not those just written.
\<close>

theorem interrupted_write_stale:
  assumes inv: "store_inv PART_SYSTEM cs fl" and old: "lookup cs i = Some a"
    and b: "b \<noteq> []" "c \<noteq> []" "length (cells_bytes (cs @ [new_cell i b])) + length c + 8 \<le> 4092"
    and cut: "write_cell PART_SYSTEM (4 + length (cells_bytes cs)) i b fl = (ok, f1)"
    and l: "length (fl_mem fl PART_USERDATA) = 4096" "length (fl_mem fl PART_SEQ) = 4096"
    and start: "genie_flash_init (restarted f1) = (ret, f2)" and w: "genie_flash_write (CELL_PREPEAR_RELIABLE i) c f2 = (ret2, f3)"
  shows "ret2 = GENIE_FLASH_SUCCESS \<and> genie_flash_read (CELL_PREPEAR_RELIABLE i) 0 f3 = (GENIE_FLASH_SUCCESS, b)"
proof -
  let ?p = PART_SYSTEM and ?F = "part_flag PART_SYSTEM" and ?n = "new_cell i b" and ?cs = "cs @ [new_cell i b]"
  have h0: "holds ?p ?F cs fl" using inv by (simp add: store_inv_def)
  have "length b + 8 \<le> 4092 - length (cells_bytes cs)" using b(3) by (simp add: length_new_cell)
  note wc = write_cell_log [OF h0 b(1) this, of i]
  have f1: "f1 = set_mem ?p (part_mem ?F ?cs) fl" using wc(1) cut by simp
  have h1: "holds ?p ?F ?cs (restarted f1)" "recycle_idle (restarted f1)"
    using wc(2) inv by (simp_all add: f1 holds_def store_inv_def recycle_idle_def)
  obtain g where "genie_flash_init (restarted f1) = (GENIE_FLASH_SUCCESS, g)" and g: "holds ?p ?F ?cs g" "unat (gi_remain (get_info ?p g)) = 4092 - active_size ?cs"
      "gi_free_offset (get_info ?p g) = (if length (cells_bytes ?cs) \<le> 4088 then 4 + length (cells_bytes ?cs) else 0)"
    by (rule restart_counts [OF h1]) (use l in \<open>simp_all add: f1\<close>)
  then have f2: "holds ?p ?F ?cs f2" and i: "unat (gi_remain (get_info ?p f2)) = 4092 - active_size ?cs" "gi_free_offset (get_info ?p f2) = 4 + length (cells_bytes ?cs)"
    using start b(3) by simp_all
  have fit: "length c + 8 \<le> unat (gi_remain (get_info ?p f2))" "length c + 8 \<le> 4092 - length (cells_bytes ?cs)"
    using b(3) i(1) active_size_le [of ?cs] by linarith+
  note wc2 = write_cell_log [OF f2 b(2) fit(2), of i]
  obtain cs1 x cs2 where s: "cs = cs1 @ x # cs2" "is_cell i x" "\<forall>c\<in>set cs1. \<not> is_cell i c" by (rule lookup_Some [OF old])
  have se: "genie_flash_search (start_cell ?p i) f2 =
      (GENIE_FLASH_SUCCESS, (start_cell ?p i)\<lparr>fc_header := cl_header x, fc_offset := 4 + length (cells_bytes cs1)\<rparr>)"
    by (rule search_lookup(2) [OF f2, of cs1 x "cs2 @ [?n]"]) (use s in simp_all)
  define z where "z = length (cell_bytes (new_cell i c))"
  define f4 where "f4 = set_info ?p (advance z (4 + length (cells_bytes ?cs) + z)) (set_mem ?p (part_mem ?F (?cs @ [new_cell i c])) f2)"
  let ?cs' = "cs1 @ invalidate x # cs2 @ [?n, new_cell i c]"
  have "holds ?p ?F (cs1 @ x # cs2 @ [?n, new_cell i c]) f4" using wc2(2) s(1) by (simp add: f4_def)
  note del = delete_flag_log [OF this]
  have room: "4 + length (cells_bytes ?cs) + length c + 8 \<le> 4096" using b(3) by simp
  have "genie_flash_write (start_cell ?p i) c f2 =
      (GENIE_FLASH_SUCCESS, set_info ?p (regain (cell_size (cl_header x))) (set_mem ?p (part_mem ?F ?cs') f4))"
    using write_run [OF _ b(2) fit(1) i(2) room wc2(1) se] del(1) by (simp add: Let_def f4_def [unfolded z_def] z_def)
  then have f3: "ret2 = GENIE_FLASH_SUCCESS" "holds ?p ?F ?cs' f3" using w del(2) by (auto simp: start_cell_eq)
  have "lookup ?cs' i = Some b"
  proof -
    have "distinct (map fst (entries cs))" using inv by (simp add: store_inv_def)
    then have "find (is_cell i) cs1 = None" "find (is_cell i) cs2 = None"
      using s by (auto simp: find_None_iff entries_def is_cell_def image_iff)
    then show ?thesis by (simp add: lookup_def find_append)
  qed
  then show ?thesis using f3 read_lookup(2) [OF f3(2)] by (simp add: start_cell_eq)
qed

theorem interrupted_write_stale_witness:
  "let f1 = snd (write_cell PART_SYSTEM 28 3 [7, 7] stored_demo); f2 = snd (genie_flash_init (restarted f1));
       f3 = snd (genie_flash_write (CELL_PREPEAR_RELIABLE 3) [8] f2)
   in genie_flash_read (CELL_PREPEAR_RELIABLE 3) 0 f3 = (GENIE_FLASH_SUCCESS, [7, 7])"
proof -
  let ?a = "sealed (replicate 16 0) [1, 2]" and ?f1 = "snd (write_cell PART_SYSTEM 28 3 [7, 7] stored_demo)"
  let ?f2 = "snd (genie_flash_init (restarted ?f1))"
  have z: "length (cells_bytes [new_cell 3 ?a]) = 24" using stored_demo_rep(4) by simp
  have l: "length (fl_mem stored_demo PART_USERDATA) = 4096" "length (fl_mem stored_demo PART_SEQ) = 4096" by (simp_all add: stored_demo_def flash_demo_def)
  have "lookup [new_cell 3 ?a] 3 = Some ?a" by (simp add: lookup_entries)
  from interrupted_write_stale [OF stored_demo_rep(3) this, of "[7, 7]" "[8]" "fst (write_cell PART_SYSTEM 28 3 [7, 7] stored_demo)" ?f1
      "fst (genie_flash_init (restarted ?f1))" ?f2 "fst (genie_flash_write (CELL_PREPEAR_RELIABLE 3) [8] ?f2)"
      "snd (genie_flash_write (CELL_PREPEAR_RELIABLE 3) [8] ?f2)"]
  show ?thesis using l z by (simp add: Let_def length_new_cell [of 3 "[7, 7]"] align_count_def)
qed

end
