(* ===== verification/Genie_Store.thy ===== *)
theory Genie_Store
  imports Flash_Store Genie_State
begin

text \<open>
  What the node keeps in the flash store, \<^verbatim>\<open>genie_app/bluetooth/mesh/genie_mesh_flash.c\<close> and the flash part of
  \<^verbatim>\<open>genie_app/base/tri_tuple.c\<close>: the records with their memory layout (32-bit ARM, natural alignment, padding bytes zero), the
  functions that write and read them, and the reset of the system data, which keeps the identity of the device. The layout of
  \<^verbatim>\<open>struct bt_mesh_net\<close> is a parameter, given by its size and by the conversions from and to bytes.
\<close>

section \<open>Indices\<close>

definition GFI_MESH_PARA :: u16 where "GFI_MESH_PARA = 1"
definition GFI_MESH_TRITUPLE :: u16 where "GFI_MESH_TRITUPLE = 2"
definition GFI_MESH_SADDR :: u16 where "GFI_MESH_SADDR = 3"
definition GFI_MESH_SUB :: u16 where "GFI_MESH_SUB = 4"
definition GFI_MESH_RESET_CNT :: u16 where "GFI_MESH_RESET_CNT = 6"
definition GFI_MESH_POWERUP :: u16 where "GFI_MESH_POWERUP = 8"
definition GFI_MESH_HB :: u16 where "GFI_MESH_HB = 9"
definition GFI_MESH_DEVKEY :: u16 where "GFI_MESH_DEVKEY = 10"
definition GFI_MESH_NETKEY :: u16 where "GFI_MESH_NETKEY = 11"
definition GFI_MESH_APPKEY :: u16 where "GFI_MESH_APPKEY = 12"
definition GFI_OTA_INDICAT :: u16 where "GFI_OTA_INDICAT = 13"
definition GFI_OTA_IMAGE_CHANGE :: u16 where "GFI_OTA_IMAGE_CHANGE = 14"

lemmas gfi_defs = GFI_MESH_PARA_def GFI_MESH_TRITUPLE_def GFI_MESH_SADDR_def GFI_MESH_SUB_def GFI_MESH_RESET_CNT_def GFI_MESH_POWERUP_def
  GFI_MESH_HB_def GFI_MESH_DEVKEY_def GFI_MESH_NETKEY_def GFI_MESH_APPKEY_def GFI_OTA_INDICAT_def GFI_OTA_IMAGE_CHANGE_def

section \<open>Records\<close>

record mesh_netkey_para_t =
  nk_net_index :: u16
  nk_flag :: u8
  nk_ivi :: u32
  nk_key :: bytes

record mesh_appkey_para_t =
  apk_net_index :: u16
  apk_key_index :: u16
  apk_flag :: u8
  apk_key :: bytes

definition netkey_bytes :: "mesh_netkey_para_t \<Rightarrow> bytes" where
  "netkey_bytes k = sys_put_le16 (nk_net_index k) @ [nk_flag k, 0] @ sys_put_le32 (nk_ivi k) @ nk_key k"

definition netkey_of :: "bytes \<Rightarrow> mesh_netkey_para_t" where
  "netkey_of b = \<lparr>nk_net_index = sys_get_le16 (take 2 b), nk_flag = byte_at b 2, nk_ivi = sys_get_le32 (take 4 (drop 4 b)), nk_key = drop 8 b\<rparr>"

definition appkey_bytes :: "mesh_appkey_para_t \<Rightarrow> bytes" where
  "appkey_bytes k = sys_put_le16 (apk_net_index k) @ sys_put_le16 (apk_key_index k) @ [apk_flag k] @ apk_key k @ [0]"

definition appkey_of :: "bytes \<Rightarrow> mesh_appkey_para_t" where
  "appkey_of b = \<lparr>apk_net_index = sys_get_le16 (take 2 b), apk_key_index = sys_get_le16 (take 2 (drop 2 b)), apk_flag = byte_at b 4,
     apk_key = take 16 (drop 5 b)\<rparr>"

definition hb_bytes :: "mesh_hb_para_t \<Rightarrow> bytes" where
  "hb_bytes p = sys_put_le16 (hb_dst p) @ [hb_count p, hb_period p, hb_ttl p, 0] @ sys_put_le16 (hb_feat p) @ sys_put_le16 (hb_net_idx p)"

definition hb_of :: "bytes \<Rightarrow> mesh_hb_para_t" where
  "hb_of b = \<lparr>hb_dst = sys_get_le16 (take 2 b), hb_count = byte_at b 2, hb_period = byte_at b 3, hb_ttl = byte_at b 4,
     hb_feat = sys_get_le16 (take 2 (drop 6 b)), hb_net_idx = sys_get_le16 (take 2 (drop 8 b))\<rparr>"

definition sub_bytes :: "u16 list \<Rightarrow> bytes" where
  "sub_bytes xs = concat (map sys_put_le16 xs)"

fun sub_of :: "bytes \<Rightarrow> u16 list" where
  "sub_of (a # b # bs) = sys_get_le16 [a, b] # sub_of bs"
| "sub_of _ = []"

record net_image =
  ni_size :: nat
  ni_put :: "bt_mesh_net \<Rightarrow> bytes"
  ni_get :: "bytes \<Rightarrow> bt_mesh_net"

section \<open>Writing and reading\<close>

definition CONFIG_BT_MESH_MODEL_GROUP_COUNT :: nat where "CONFIG_BT_MESH_MODEL_GROUP_COUNT = 8"

definition genie_flash_write_sub :: "u16 list \<Rightarrow> flash \<Rightarrow> E_GENIE_FLASH_ERRCODE \<times> flash" where
  "genie_flash_write_sub p_sub fl = genie_flash_write_reliable GFI_MESH_SUB (sub_bytes (take CONFIG_BT_MESH_MODEL_GROUP_COUNT p_sub)) fl"

definition genie_flash_read_sub :: "flash \<Rightarrow> E_GENIE_FLASH_ERRCODE \<times> u16 list" where
  "genie_flash_read_sub fl = map_prod id sub_of (genie_flash_read_reliable GFI_MESH_SUB (2 * CONFIG_BT_MESH_MODEL_GROUP_COUNT) fl)"

definition genie_flash_write_para :: "net_image \<Rightarrow> bt_mesh_net \<Rightarrow> flash \<Rightarrow> E_GENIE_FLASH_ERRCODE \<times> flash" where
  "genie_flash_write_para img mesh_data fl = genie_flash_write_reliable GFI_MESH_PARA (ni_put img mesh_data) fl"

definition genie_flash_read_para :: "net_image \<Rightarrow> flash \<Rightarrow> E_GENIE_FLASH_ERRCODE \<times> bt_mesh_net" where
  "genie_flash_read_para img fl = map_prod id (ni_get img) (genie_flash_read_reliable GFI_MESH_PARA (ni_size img) fl)"

definition genie_flash_write_devkey :: "bytes \<Rightarrow> flash \<Rightarrow> E_GENIE_FLASH_ERRCODE \<times> flash" where
  "genie_flash_write_devkey p_devkey fl = genie_flash_write_reliable GFI_MESH_DEVKEY (take 16 p_devkey) fl"

definition genie_flash_read_devkey :: "flash \<Rightarrow> E_GENIE_FLASH_ERRCODE \<times> bytes" where
  "genie_flash_read_devkey fl = genie_flash_read_reliable GFI_MESH_DEVKEY 16 fl"

definition genie_flash_write_netkey :: "mesh_netkey_para_t \<Rightarrow> flash \<Rightarrow> E_GENIE_FLASH_ERRCODE \<times> flash" where
  "genie_flash_write_netkey p_netkey fl = genie_flash_write_reliable GFI_MESH_NETKEY (netkey_bytes p_netkey) fl"

definition genie_flash_read_netkey :: "flash \<Rightarrow> E_GENIE_FLASH_ERRCODE \<times> mesh_netkey_para_t" where
  "genie_flash_read_netkey fl = map_prod id netkey_of (genie_flash_read_reliable GFI_MESH_NETKEY 24 fl)"

definition genie_flash_write_appkey :: "mesh_appkey_para_t \<Rightarrow> flash \<Rightarrow> E_GENIE_FLASH_ERRCODE \<times> flash" where
  "genie_flash_write_appkey p_appkey fl = genie_flash_write_reliable GFI_MESH_APPKEY (appkey_bytes p_appkey) fl"

definition genie_flash_read_appkey :: "flash \<Rightarrow> E_GENIE_FLASH_ERRCODE \<times> mesh_appkey_para_t" where
  "genie_flash_read_appkey fl = map_prod id appkey_of (genie_flash_read_reliable GFI_MESH_APPKEY 22 fl)"

definition genie_flash_write_addr :: "u16 \<Rightarrow> flash \<Rightarrow> E_GENIE_FLASH_ERRCODE \<times> flash" where
  "genie_flash_write_addr addr fl = genie_flash_write_reliable GFI_MESH_SADDR (sys_put_le16 addr) fl"

definition genie_flash_read_addr :: "flash \<Rightarrow> E_GENIE_FLASH_ERRCODE \<times> u16" where
  "genie_flash_read_addr fl = map_prod id sys_get_le16 (genie_flash_read_reliable GFI_MESH_SADDR 2 fl)"

definition genie_flash_write_hb :: "mesh_hb_para_t \<Rightarrow> flash \<Rightarrow> E_GENIE_FLASH_ERRCODE \<times> flash" where
  "genie_flash_write_hb p_para fl = genie_flash_write_reliable GFI_MESH_HB (hb_bytes p_para) fl"

definition genie_flash_read_hb :: "flash \<Rightarrow> E_GENIE_FLASH_ERRCODE \<times> mesh_hb_para_t" where
  "genie_flash_read_hb fl = map_prod id hb_of (genie_flash_read_reliable GFI_MESH_HB 10 fl)"

section \<open>The identity of the device\<close>

definition GENIE_SIZE_PID :: nat where "GENIE_SIZE_PID = 4"
definition GENIE_SIZE_KEY :: nat where "GENIE_SIZE_KEY = 16"
definition GENIE_SIZE_MAC :: nat where "GENIE_SIZE_MAC = 6"
definition GENIE_SIZE_TRI_TRUPLE :: nat where "GENIE_SIZE_TRI_TRUPLE = GENIE_SIZE_PID + GENIE_SIZE_KEY + GENIE_SIZE_MAC"

definition genie_flash_write_trituple :: "u32 \<Rightarrow> bytes \<Rightarrow> bytes \<Rightarrow> flash \<Rightarrow> E_GENIE_FLASH_ERRCODE \<times> flash" where
  "genie_flash_write_trituple pid mac key fl =
     genie_flash_write_reliable GFI_MESH_TRITUPLE (sys_put_le32 pid @ take GENIE_SIZE_KEY key @ take GENIE_SIZE_MAC mac) fl"

text \<open>The product, the address and the key; nothing is stored into the caller's variables on an error.\<close>

definition genie_flash_read_trituple :: "flash \<Rightarrow> E_GENIE_FLASH_ERRCODE \<times> (u32 \<times> bytes \<times> bytes) option" where
  "genie_flash_read_trituple fl =
     (let (ret, data) = genie_flash_read_reliable GFI_MESH_TRITUPLE GENIE_SIZE_TRI_TRUPLE fl in
      if ret \<noteq> GENIE_FLASH_SUCCESS then (ret, None)
      else (ret, Some (sys_get_le32 (take GENIE_SIZE_PID data), drop (GENIE_SIZE_PID + GENIE_SIZE_KEY) data,
                       take GENIE_SIZE_KEY (drop GENIE_SIZE_PID data))))"

definition restore_trituple :: "(u32 \<times> bytes \<times> bytes) option \<Rightarrow> flash \<Rightarrow> E_GENIE_FLASH_ERRCODE \<times> flash" where
  "restore_trituple tri fl =
     (case tri of
        Some (pid, mac, key) \<Rightarrow> if pid \<noteq> 0 then genie_flash_write_trituple pid mac key fl else (GENIE_FLASH_SUCCESS, fl)
      | None \<Rightarrow> (GENIE_FLASH_SUCCESS, fl))"

text \<open>
  Of the two error codes that the source combines bit by bit, the first one that is not a success is returned here; no
  caller looks at the result.
\<close>

definition genie_flash_reset_system :: "flash \<Rightarrow> E_GENIE_FLASH_ERRCODE \<times> flash" where
  "genie_flash_reset_system fl =
     (let (ret, tri) = genie_flash_read_trituple fl in
      if ret = GENIE_FLASH_SUCCESS \<or> ret = GENIE_FLASH_SEARCH_NONE then
        let (ret1, fl) = genie_flash_delete_seq fl; (ret2, fl) = genie_flash_erase_reliable fl in
        if ret1 \<noteq> GENIE_FLASH_SUCCESS then (ret1, fl)
        else if ret2 \<noteq> GENIE_FLASH_SUCCESS then (ret2, fl)
        else
          let (ret, fl) = restore_trituple tri fl
          in if ret \<noteq> GENIE_FLASH_SUCCESS then (ret, fl) else genie_flash_delete_seq fl
      else (ret, fl))"

section \<open>The identity that is advertised\<close>

text \<open>The digits of a string as \<^verbatim>\<open>stringtohex\<close> of \<^verbatim>\<open>bt_common/log.c\<close> reads them; a wrong digit stops it with what it has.\<close>

definition hex_digit :: "char \<Rightarrow> u8 option" where
  "hex_digit c =
     (let n = of_char c :: nat in
      if 97 \<le> n \<and> n \<le> 102 then Some (of_nat (n - 97 + 10))
      else if 65 \<le> n \<and> n \<le> 70 then Some (of_nat (n - 65 + 10))
      else if 48 \<le> n \<and> n \<le> 57 then Some (of_nat (n - 48))
      else None)"

fun hex_loop :: "string \<Rightarrow> bool \<times> bytes" where
  "hex_loop (a # b # cs) =
     (case hex_digit a of
        None \<Rightarrow> (False, [])
      | Some x \<Rightarrow> (case hex_digit b of
          None \<Rightarrow> (False, [x])
        | Some y \<Rightarrow> map_prod id ((#) (push_bit 4 x OR y)) (hex_loop cs)))"
| "hex_loop _ = (True, [])"

definition stringtohex :: "string \<Rightarrow> nat \<Rightarrow> u8 \<times> bytes" where
  "stringtohex str count =
     (if length str \<noteq> 2 * count then (0, replicate count 0)
      else let (ok, b) = hex_loop str in (if ok then of_nat count else 0, b @ replicate (count - length b) 0))"

definition DEFAULT_PID :: u32 where "DEFAULT_PID = 21218019"
definition DEFAULT_SECRET :: string where "DEFAULT_SECRET = ''3f4e8a0d7b1daecb3d5f93b677bbe395''"
definition DEFAULT_MAC :: string where "DEFAULT_MAC = ''64f0ad09cf5c''"

text \<open>The result: whether the stored identity is used, and product, address and key.\<close>

definition genie_tri_tuple_load :: "flash \<Rightarrow> bool \<times> u32 \<times> bytes \<times> bytes" where
  "genie_tri_tuple_load fl =
     (case genie_flash_read_trituple fl of
        (ret, Some tri) \<Rightarrow> (True, tri)
      | (ret, None) \<Rightarrow> (False, DEFAULT_PID, snd (stringtohex DEFAULT_MAC GENIE_SIZE_MAC), snd (stringtohex DEFAULT_SECRET GENIE_SIZE_KEY)))"

definition UNPROV_ADV_FEATURE_AUTO_BIND_MODEL_SUB :: u8 where "UNPROV_ADV_FEATURE_AUTO_BIND_MODEL_SUB = 0x02"
definition UNPROV_ADV_FEATURE_SILENT_ADV :: u8 where "UNPROV_ADV_FEATURE_SILENT_ADV = 0x01"
definition UNPROV_ADV_FLAG_GENIE_MESH_STACK :: u8 where "UNPROV_ADV_FLAG_GENIE_MESH_STACK = 0x10"

definition genie_tri_tuple_get_uuid :: "u32 \<Rightarrow> bytes \<Rightarrow> bytes" where
  "genie_tri_tuple_get_uuid pid mac =
     [0xa8, 0x01, 0x71] @ map (\<lambda>i. ucast (drop_bit (8 * i) pid)) [0..<4] @ map (\<lambda>i. byte_at mac (5 - i)) [0..<6] @
     [UNPROV_ADV_FEATURE_AUTO_BIND_MODEL_SUB, UNPROV_ADV_FLAG_GENIE_MESH_STACK, 0]"

definition genie_tri_tuple_set_silent_adv :: "bytes \<Rightarrow> bytes" where
  "genie_tri_tuple_set_silent_adv uuid = uuid[13 := byte_at uuid 13 OR UNPROV_ADV_FEATURE_SILENT_ADV]"

section \<open>Partitions do not disturb each other\<close>

lemma header_pno: "genie_flash_get_header cell fl = (ret, cell') \<Longrightarrow> fc_pno cell' = fc_pno cell"
  by (auto simp: genie_flash_get_header_def Let_def split: if_splits option.splits)

lemma search_pno [simp]: "fc_pno (snd (genie_flash_search cell fl)) = fc_pno cell"
proof (induction cell fl rule: genie_flash_search.induct)
  case (1 cell fl)
  obtain ret cell' where g: "genie_flash_get_header cell fl = (ret, cell')" by fastforce
  show ?case using 1 header_pno [OF g] g by (subst genie_flash_search.simps) (auto simp: Let_def next_cell_def)
qed

lemma search_cong: "fl_mem fl' (fc_pno cell) = fl_mem fl (fc_pno cell) \<Longrightarrow> genie_flash_search cell fl' = genie_flash_search cell fl"
proof (induction cell fl rule: genie_flash_search.induct)
  case (1 cell fl)
  obtain ret cell' where g: "genie_flash_get_header cell fl = (ret, cell')" by fastforce
  have g': "genie_flash_get_header cell fl' = (ret, cell')" 
  proof -
    have "hal_flash_read (fc_pno cell) off n fl' = hal_flash_read (fc_pno cell) off n fl" for off n using 1(2) by (simp add: hal_flash_read_def)
    then have "genie_flash_get_header cell fl' = genie_flash_get_header cell fl" unfolding genie_flash_get_header_def by simp
    then show ?thesis using g by simp
  qed
  show ?case using 1 header_pno [OF g] g g' by (subst (1 2) genie_flash_search.simps) (auto simp: Let_def next_cell_def)
qed

lemma read_cong: "fl_mem fl' (fc_pno cell) = fl_mem fl (fc_pno cell) \<Longrightarrow> genie_flash_read cell n fl' = genie_flash_read cell n fl"
  by (simp add: genie_flash_read_def search_cong [of fl' cell fl] hal_flash_read_def Let_def case_prod_beta)

lemma write_cell_frame [simp]: "p \<noteq> q \<Longrightarrow> fl_mem (snd (write_cell p off i b fl)) q = fl_mem fl q"
  by (simp add: write_cell_def Let_def case_prod_beta)

lemma info_mem [simp]: "fl_mem (set_info p f fl) = fl_mem fl"
  by (simp add: set_info_def)

lemma recycle_frame [simp]: "fc_pno cell \<noteq> q \<Longrightarrow> q \<noteq> PART_RECYCLE \<Longrightarrow> fl_mem (snd (genie_flash_recycle cell b fl)) q = fl_mem fl q"
proof -
  assume "fc_pno cell \<noteq> q" "q \<noteq> PART_RECYCLE"
  moreover have "fc_pno CELL_PREPEAR_RECYCLE = PART_RECYCLE" by (simp add: CELL_PREPEAR_RECYCLE_def CELL_PREPEAR_def)
  ultimately show ?thesis by (auto simp: genie_flash_recycle_def Let_def case_prod_beta)
qed

lemma if_mem: "(c \<Longrightarrow> fl_mem (snd x) q = m) \<Longrightarrow> (\<not> c \<Longrightarrow> fl_mem (snd y) q = m) \<Longrightarrow> fl_mem (snd (if c then x else y)) q = m"
  by simp

lemma genie_write_frame [simp]:
  "fc_pno cell \<noteq> q \<Longrightarrow> q \<noteq> PART_RECYCLE \<Longrightarrow> fl_mem (snd (genie_flash_write cell b fl)) q = fl_mem fl q"
  unfolding genie_flash_write_def genie_flash_delete_flag_def Let_def case_prod_beta by (intro if_mem) simp_all

lemma genie_delete_frame [simp]: "fc_pno cell \<noteq> q \<Longrightarrow> fl_mem (snd (genie_flash_delete cell fl)) q = fl_mem fl q"
  by (simp add: genie_flash_delete_def genie_flash_delete_flag_def Let_def case_prod_beta)

lemma cell_pno [simp]: "fc_pno (CELL_PREPEAR_RELIABLE i) = PART_SYSTEM" "fc_pno (CELL_PREPEAR_USERDATA i) = PART_USERDATA"
  by (simp_all add: CELL_PREPEAR_RELIABLE_def CELL_PREPEAR_USERDATA_def CELL_PREPEAR_def)

lemma userdata_kept [simp]:
  "fl_mem (snd (genie_flash_write_reliable i d fl)) PART_USERDATA = fl_mem fl PART_USERDATA"
  "fl_mem (snd (genie_flash_delete_reliable i fl)) PART_USERDATA = fl_mem fl PART_USERDATA"
  "fl_mem (snd (genie_flash_erase_reliable fl)) PART_USERDATA = fl_mem fl PART_USERDATA"
  "fl_mem (snd (genie_flash_delete_seq fl)) PART_USERDATA = fl_mem fl PART_USERDATA"
  by (simp_all add: genie_flash_write_reliable_def genie_flash_delete_reliable_def genie_flash_erase_reliable_def genie_flash_delete_seq_def
      Let_def)

lemma restore_userdata [simp]: "fl_mem (snd (restore_trituple tri fl)) PART_USERDATA = fl_mem fl PART_USERDATA"
  by (auto simp: restore_trituple_def genie_flash_write_trituple_def split: option.splits)

lemma reset_system_userdata [simp]: "fl_mem (snd (genie_flash_reset_system fl)) PART_USERDATA = fl_mem fl PART_USERDATA"
  unfolding genie_flash_reset_system_def Let_def case_prod_beta by (intro if_mem) simp_all

lemma read_userdata_cong:
  "fl_mem fl' PART_USERDATA = fl_mem fl PART_USERDATA \<Longrightarrow> genie_flash_read_userdata i n fl' = genie_flash_read_userdata i n fl"
  using read_cong [of fl' "CELL_PREPEAR_USERDATA i" fl n] by (simp add: genie_flash_read_userdata_def)

end
