(* ===== verification/Genie_Event.thy ===== *)
theory Genie_Event
  imports Light_Models Genie_Store
begin

text \<open>
  The events of the Genie application: \<^verbatim>\<open>genie_app/base/genie_event.c\<close> with its handlers, \<^verbatim>\<open>genie_reset.c\<close>, the timers of
  \<^verbatim>\<open>genie_mesh.c\<close>, the application \<^verbatim>\<open>app/example/bluetooth/light_ctl/light_ctl.c\<close> and the handlers of the light servers. The record
  \<open>app\<close> joins the state of \<open>Genie_State\<close>, the flash store and the variables of these files. An event is handled, shown to the
  application and followed by the event that its handler returns; the chain ends because every follower has a smaller
  rank. The build is that of the lamp for boards other than TG7100B and CH6121.
\<close>

section \<open>The state of the application\<close>

text \<open>\<^verbatim>\<open>g_flash_para\<close>: the blinking of the lamp.\<close>

record led_flash_t =
  lf_timer :: k_timer
  lf_temp_cur :: u16
  lf_temp_tar :: u16
  lf_actual_start :: u16
  lf_actual_cur :: u16
  lf_actual_tar :: u16
  lf_time_end :: u32

text \<open>
  \<open>ap_reset_done\<close> tells which of its two handlers the reset timer has. \<open>ap_store_due\<close> is the time at which the work item
  \<^verbatim>\<open>light_state_store_work\<close> runs. \<open>ap_led_last\<close> are the static variables of \<^verbatim>\<open>_led_ctrl\<close>.
\<close>

record app =
  ap_g :: genie
  ap_flash :: flash
  ap_powerup :: "model_powerup_t list"
  ap_reset_flag :: u8
  ap_reset_timer :: k_timer
  ap_reset_done :: bool
  ap_store_due :: "nat option"
  ap_led_last :: "u8 \<times> u16 \<times> u16"
  ap_led_flash :: led_flash_t

definition on_g :: "(genie \<Rightarrow> genie) \<Rightarrow> app \<Rightarrow> app" where
  "on_g f a = a\<lparr>ap_g := f (ap_g a)\<rparr>"

definition on_flash :: "(flash \<Rightarrow> E_GENIE_FLASH_ERRCODE \<times> flash) \<Rightarrow> app \<Rightarrow> app" where
  "on_flash f a = a\<lparr>ap_flash := snd (f (ap_flash a))\<rparr>"

definition app_now :: "app \<Rightarrow> nat" where
  "app_now a = ga_now (ap_g a)"

definition app_elem :: "app \<Rightarrow> nat \<Rightarrow> elem_state_t" where
  "app_elem a e = get_elem (ap_g a) e"

definition on_elem :: "nat \<Rightarrow> (elem_state_t \<Rightarrow> elem_state_t) \<Rightarrow> app \<Rightarrow> app" where
  "on_elem e f = on_g (upd_elem e f)"

definition app_fault :: "app \<Rightarrow> app" where
  "app_fault = on_g (\<lambda>g. g\<lparr>ga_fault := True\<rparr>)"

section \<open>Reset\<close>

definition GENIE_RESET_BY_REPEAT_COUNTER :: u8 where "GENIE_RESET_BY_REPEAT_COUNTER = 4"
definition GENIE_RESET_BY_REPEAT_TIMEOUT :: u32 where "GENIE_RESET_BY_REPEAT_TIMEOUT = 3 * 1000"
definition GENIE_RESET_WAIT_TIMEOUT :: u32 where "GENIE_RESET_WAIT_TIMEOUT = 5 * 1000"

definition genie_reset_get_flag :: "app \<Rightarrow> u8" where
  "genie_reset_get_flag a = ap_reset_flag a"

definition genie_reset_set_flag :: "u8 \<Rightarrow> app \<Rightarrow> app" where
  "genie_reset_set_flag flag a = a\<lparr>ap_reset_flag := flag\<rparr>"

definition genie_reset_done :: "app \<Rightarrow> app" where
  "genie_reset_done a = a\<lparr>ap_reset_done := True, ap_reset_timer := k_timer_start GENIE_RESET_WAIT_TIMEOUT (app_now a) k_timer_init\<rparr>"

definition genie_reset_write_count :: "u8 \<Rightarrow> app \<Rightarrow> app" where
  "genie_reset_write_count count = on_flash (genie_flash_write_userdata GFI_MESH_RESET_CNT [count])"

definition genie_reset_read_count :: "app \<Rightarrow> E_GENIE_FLASH_ERRCODE \<times> u8" where
  "genie_reset_read_count a =
     (let (ret, b) = genie_flash_read_userdata GFI_MESH_RESET_CNT 1 (ap_flash a)
      in (ret, if ret \<noteq> GENIE_FLASH_SUCCESS then 0 else byte_at b 0))"

definition genie_reset_timer_cb :: "app \<Rightarrow> app" where
  "genie_reset_timer_cb a = genie_reset_write_count 0 a"

definition genie_reset_clean_count :: "app \<Rightarrow> app" where
  "genie_reset_clean_count a = genie_reset_set_flag 0 (genie_reset_write_count 0 a)"

definition genie_reset_by_repeat_init :: "app \<Rightarrow> app" where
  "genie_reset_by_repeat_init a =
     (let (flash_err, count) = genie_reset_read_count a;
          count = (if flash_err \<noteq> GENIE_FLASH_SUCCESS then 0 else count);
          count = (if count > GENIE_RESET_BY_REPEAT_COUNTER then 0 else count)
      in if count < GENIE_RESET_BY_REPEAT_COUNTER then
           (genie_reset_write_count (count + 1) a)\<lparr>ap_reset_done := False,
              ap_reset_timer := k_timer_start GENIE_RESET_BY_REPEAT_TIMEOUT (app_now a) k_timer_init\<rparr>
         else genie_reset_set_flag 1 a)"

section \<open>The lamp\<close>

definition LED_FLASH_PERIOD :: u32 where "LED_FLASH_PERIOD = 1000"
definition LED_FLASH_ON_TIME :: u32 where "LED_FLASH_ON_TIME = 600"
definition LED_FLASH_OFF_TIME :: u32 where "LED_FLASH_OFF_TIME = 400"
definition LIGHT_STATE_STORE_DELAY_TIME :: nat where "LIGHT_STATE_STORE_DELAY_TIME = 5000"
definition MESH_PBADV_TIME :: u32 where "MESH_PBADV_TIME = 600"

definition get_mesh_pbadv_time :: u32 where
  "get_mesh_pbadv_time = MESH_PBADV_TIME * 1000"

text \<open>The memory of \<^verbatim>\<open>model_powerup_t\<close>: a byte, a padding byte and two 16-bit numbers.\<close>

definition powerup_bytes :: "model_powerup_t \<Rightarrow> bytes" where
  "powerup_bytes p = [last_onoff p, 0] @ sys_put_le16 (last_actual p) @ sys_put_le16 (last_temp p)"

definition powerup_of :: "bytes \<Rightarrow> model_powerup_t" where
  "powerup_of b = \<lparr>last_onoff = byte_at b 0, last_actual = sys_get_le16 [byte_at b 2, byte_at b 3],
     last_temp = sys_get_le16 [byte_at b 4, byte_at b 5]\<rparr>"

text \<open>
  The lamp has one element, so that \<^verbatim>\<open>g_powerup\<close> is one record in memory. When reading fails, the comparison looks at memory
  that was not initialised; it is taken to differ.
\<close>

definition light_state_store :: "app \<Rightarrow> app" where
  "light_state_store a =
     (let (ret, b) = genie_flash_read_userdata GFI_MESH_POWERUP 6 (ap_flash a);
          a = a\<lparr>ap_store_due := None\<rparr>;
          data = concat (map powerup_bytes (ap_powerup a))
      in if ret \<noteq> GENIE_FLASH_SUCCESS \<or> data \<noteq> b then on_flash (genie_flash_write_userdata GFI_MESH_POWERUP data) a else a)"

definition mesh_sub_init :: "u16 list" where
  "mesh_sub_init = [0xC000, 0xCFFF] @ replicate (CONFIG_BT_MESH_MODEL_GROUP_COUNT - 2) 0"

text \<open>A check before a restart for an update: the lamp restarts only while it is off.\<close>

definition ota_check_reboot :: "app \<Rightarrow> bool \<times> app" where
  "ota_check_reboot a =
     (if onoff_cur (el_state (app_elem a 0)) = 0 then
        let a = a\<lparr>ap_powerup := upd_at 0 (\<lambda>p. p\<lparr>last_onoff := 0\<rparr>) (ap_powerup a)\<rparr>
        in (True, on_flash (genie_flash_write_userdata GFI_MESH_POWERUP (concat (map powerup_bytes (ap_powerup a)))) a)
      else (False, a))"

text \<open>\<^verbatim>\<open>elem_state_init\<close> of \<^verbatim>\<open>genie_mesh.c\<close>, after the memory was cleared.\<close>

definition elem_state_init :: "nat \<Rightarrow> nat \<Rightarrow> elem_state_t list" where
  "elem_state_init now state_count =
     map (\<lambda>i. elem_state0\<lparr>elem_index := of_nat i,
            el_state := set_trans now 0x41 100 (model_state0\<lparr>onoff_tar := GEN_ONOFF_DEFAULT, actual_tar := LIGHTNESS_DEFAULT,
              temp_cur := CTL_TEMP_DEFAULT, temp_tar := CTL_TEMP_DEFAULT\<rparr>)\<rparr>) [0..<state_count]"

definition load_targets :: "model_powerup_t \<Rightarrow> model_state_t \<Rightarrow> model_state_t" where
  "load_targets p st =
     (let st = (if last_actual p \<noteq> 0 then st\<lparr>actual_tar := last_actual p\<rparr> else st)
      in if last_temp p \<noteq> 0 then st\<lparr>temp_tar := last_temp p\<rparr> else st)"

definition load_light_para :: "nat \<Rightarrow> model_powerup_t \<Rightarrow> elem_state_t \<Rightarrow> elem_state_t" where
  "load_light_para now p el =
     (let el = (if last_onoff p = 0 then
                  let el = upd_state (\<lambda>st. load_targets p (st\<lparr>onoff_tar := 0\<rparr>)) el;
                      el = upd_powerup (\<lambda>q. q\<lparr>last_onoff := 0,
                             last_actual := (if last_actual p \<noteq> 0 then last_actual p else last_actual q),
                             last_temp := (if last_temp p \<noteq> 0 then last_temp p else last_temp q)\<rparr>) el
                  in clear_trans_para el
                else
                  upd_state (\<lambda>st. let st = load_targets p st in
                    if onoff_tar st = 1 then
                      let start = of_nat now + ucast (st_delay st) * 5
                      in st\<lparr>trans_start_time := start, trans_end_time := start + get_transition_time (st_trans st)\<rparr>
                    else st) (el\<lparr>el_powerup := p\<rparr>))
      in upd_state (\<lambda>st. st\<lparr>temp_cur := temp_tar st\<rparr>) el)"

definition init_light_para :: "app \<Rightarrow> app" where
  "init_light_para a =
     (let a = on_g (\<lambda>g. g\<lparr>ga_elems := elem_state_init (ga_now g) 1\<rparr>) a;
          (ret, b) = genie_flash_read_userdata GFI_MESH_POWERUP 6 (ap_flash a)
      in if ret = GENIE_FLASH_SUCCESS then
           on_elem 0 (load_light_para (app_now a) (powerup_of b)) (a\<lparr>ap_powerup := [powerup_of b]\<rparr>)
         else a)"

definition reset_elem :: "elem_state_t \<Rightarrow> elem_state_t" where
  "reset_elem el =
     upd_powerup (\<lambda>p. p\<lparr>last_actual := LIGHTNESS_DEFAULT, last_temp := CTL_TEMP_DEFAULT\<rparr>)
       (upd_state (\<lambda>st. st\<lparr>onoff_cur := GEN_ONOFF_DEFAULT, actual_cur := LIGHTNESS_DEFAULT, temp_cur := CTL_TEMP_DEFAULT,
          onoff_tar := GEN_ONOFF_DEFAULT, actual_tar := LIGHTNESS_DEFAULT, temp_tar := CTL_TEMP_DEFAULT,
          st_trans := 0, st_delay := 0, trans_start_time := 0, trans_end_time := 0\<rparr>) el)"

definition reset_light_para :: "app \<Rightarrow> app" where
  "reset_light_para a =
     (let a = on_g (\<lambda>g. g\<lparr>ga_elems := map reset_elem (ga_elems g)\<rparr>) a;
          a = a\<lparr>ap_powerup := map (\<lambda>p. \<lparr>last_onoff = GEN_ONOFF_DEFAULT, last_actual = LIGHTNESS_DEFAULT, last_temp = CTL_TEMP_DEFAULT\<rparr>)
                  (ap_powerup a)\<rparr>
      in on_flash (genie_flash_write_userdata GFI_MESH_POWERUP (concat (map powerup_bytes (ap_powerup a)))) a)"

definition save_light_state :: "nat \<Rightarrow> app \<Rightarrow> app" where
  "save_light_state e a =
     (let el = app_elem a e; st = el_state el;
          save = (\<lambda>p. p\<lparr>last_actual := (if actual_cur st \<noteq> 0 then actual_cur st else last_actual p), last_temp := temp_cur st,
                    last_onoff := onoff_cur st\<rparr>)
      in (on_elem e (upd_powerup save) a)\<lparr>ap_powerup := upd_at (unat (elem_index el)) save (ap_powerup a),
            ap_store_due := Some (app_now a + LIGHT_STATE_STORE_DELAY_TIME)\<rparr>)"

definition ais_get_ota_indicat :: "flash \<Rightarrow> bool" where
  "ais_get_ota_indicat fl =
     (let (ret, b) = genie_flash_read_userdata GFI_OTA_INDICAT 1 fl in ret = GENIE_FLASH_SUCCESS \<and> byte_at b 0 = 1)"

definition ais_clear_ota_indicat :: "app \<Rightarrow> app" where
  "ais_clear_ota_indicat = on_flash (genie_flash_delete_userdata GFI_OTA_INDICAT)"

definition ais_check_ota_change :: "app \<Rightarrow> app" where
  "ais_check_ota_change = on_flash (genie_flash_delete_reliable GFI_OTA_IMAGE_CHANGE)"

definition user_init :: "app \<Rightarrow> app" where
  "user_init a = (let a = a\<lparr>ap_store_due := None\<rparr> in if ais_get_ota_indicat (ap_flash a) then on_g (set_flag INDICATION_FLAG_VERSION) a else a)"

text \<open>The colours and the brightness of the light itself are set by the board, \<open>Call_Led_Set\<close>.\<close>

definition led_ctrl :: "nat \<Rightarrow> app \<Rightarrow> app" where
  "led_ctrl e a =
     (let st = el_state (app_elem a e); now = (onoff_cur st, actual_cur st, temp_cur st)
      in if ap_led_last a \<noteq> now then (on_g (log_call (Call_Led_Set (onoff_cur st) (actual_cur st) (temp_cur st))) a)\<lparr>ap_led_last := now\<rparr> else a)"

definition cal_flash_next_step :: "u32 \<Rightarrow> led_flash_t \<Rightarrow> led_flash_t" where
  "cal_flash_next_step delta_time l =
     (let (actual_end, l, delta_time) =
            (if delta_time < 1000 then (lf_actual_tar l, l\<lparr>lf_temp_cur := lf_temp_tar l\<rparr>, delta_time)
             else (lf_actual_start l, l, delta_time mod 1000))
      in if delta_time > LED_FLASH_ON_TIME
         then l\<lparr>lf_actual_cur := ucast (ucast (lf_actual_start l) * (delta_time - LED_FLASH_ON_TIME) div LED_FLASH_OFF_TIME)\<rparr>
         else l\<lparr>lf_actual_cur := ucast (ucast actual_end * (LED_FLASH_ON_TIME - delta_time) div LED_FLASH_ON_TIME)\<rparr>)"

definition led_flash_timer_cb :: "app \<Rightarrow> app" where
  "led_flash_timer_cb a =
     (let l = ap_led_flash a; cur_time = ga_now32 (ap_g a)
      in if cur_time \<ge> lf_time_end l then on_g (log_call (Call_Led_Set 1 (lf_actual_tar l) (lf_temp_tar l))) a
         else
           let l = cal_flash_next_step (lf_time_end l - cur_time) l
           in (on_g (log_call (Call_Led_Set 1 (lf_actual_cur l) (lf_temp_cur l))) a)
                \<lparr>ap_led_flash := l\<lparr>lf_timer := k_timer_start MESH_TRNSATION_CYCLE (app_now a) (lf_timer l)\<rparr>\<rparr>)"

definition led_flash :: "u8 \<Rightarrow> bool \<Rightarrow> app \<Rightarrow> app" where
  "led_flash n_times reset a =
     (let el = app_elem a 0; st = el_state el; p = el_powerup el; l = ap_led_flash a; now = ga_now32 (ap_g a);
          l = (if onoff_cur st = 1 then
                 let actual = (if actual_cur st \<noteq> 0 then actual_cur st else LIGHTNESS_DEFAULT);
                     temp = (if temp_cur st \<noteq> 0 then temp_cur st else CTL_TEMP_DEFAULT)
                 in l\<lparr>lf_actual_start := actual, lf_actual_cur := actual, lf_temp_cur := temp,
                      lf_actual_tar := (if reset then LIGHTNESS_DEFAULT else actual), lf_temp_tar := (if reset then CTL_TEMP_DEFAULT else temp),
                      lf_time_end := now + ucast n_times * LED_FLASH_PERIOD\<rparr>
               else
                 let actual = (if last_actual p \<noteq> 0 \<and> \<not> reset then last_actual p else LIGHTNESS_DEFAULT);
                     temp = (if last_temp p \<noteq> 0 then last_temp p else CTL_TEMP_DEFAULT)
                 in l\<lparr>lf_actual_start := actual, lf_actual_tar := actual, lf_actual_cur := 0, lf_temp_cur := temp,
                      lf_temp_tar := (if reset then CTL_TEMP_DEFAULT else temp),
                      lf_time_end := now + ucast n_times * LED_FLASH_PERIOD - LED_FLASH_OFF_TIME\<rparr>)
      in a\<lparr>ap_led_flash := l\<lparr>lf_timer := k_timer_start MESH_TRNSATION_CYCLE (app_now a) (lf_timer l)\<rparr>\<rparr>)"

text \<open>
  One call of \<^verbatim>\<open>user_event\<close>: the event that it raises, or the event itself, and the new state. A missing element is a null
  pointer.
\<close>

definition user_handle :: "E_GENIE_EVENT \<Rightarrow> evt_arg \<Rightarrow> app \<Rightarrow> E_GENIE_EVENT \<times> app" where
  "user_handle ev arg a =
     (case ev of
        EVT_SW_RESET \<Rightarrow> (ev, led_flash 5 True a)
      | EVT_HW_RESET_START \<Rightarrow> (ev, led_flash 5 True a)
      | EVT_HW_RESET_DONE \<Rightarrow> (ev, reset_light_para a)
      | EVT_SDK_MESH_INIT \<Rightarrow>
          let a = user_init (init_light_para (on_g (log_call Call_Led_Init) a))
          in (if genie_reset_get_flag a = 0 then EVT_SDK_ANALYZE_MSG else ev, a)
      | EVT_SDK_MESH_PROV_SUCCESS \<Rightarrow> (ev, led_flash 3 False a)
      | EVT_SDK_TRANS_CYCLE \<Rightarrow> (ev, case arg of A_Elem e \<Rightarrow> led_ctrl e a | _ \<Rightarrow> app_fault a)
      | EVT_SDK_ACTION_DONE \<Rightarrow> (ev, case arg of A_Elem e \<Rightarrow> save_light_state e (led_ctrl e a) | _ \<Rightarrow> app_fault a)
      | _ \<Rightarrow> (ev, a))"

section \<open>Timers\<close>

definition MESH_PROVISIONING_TIMEOUT :: u32 where "MESH_PROVISIONING_TIMEOUT = 60 * 1000"

definition genie_pbadv_timer_start :: "app \<Rightarrow> app" where
  "genie_pbadv_timer_start = on_g (\<lambda>g. g\<lparr>ga_pbadv_timer := k_timer_start get_mesh_pbadv_time (ga_now g) (ga_pbadv_timer g)\<rparr>)"

definition genie_pbadv_timer_stop :: "app \<Rightarrow> app" where
  "genie_pbadv_timer_stop = on_g (\<lambda>g. g\<lparr>ga_pbadv_timer := k_timer_stop (ga_pbadv_timer g)\<rparr>)"

definition genie_prov_timer_start :: "app \<Rightarrow> app" where
  "genie_prov_timer_start = on_g (\<lambda>g. g\<lparr>ga_prov_timer := k_timer_start MESH_PROVISIONING_TIMEOUT (ga_now g) (ga_prov_timer g)\<rparr>)"

definition genie_prov_timer_stop :: "app \<Rightarrow> app" where
  "genie_prov_timer_stop = on_g (\<lambda>g. g\<lparr>ga_prov_timer := k_timer_stop (ga_prov_timer g)\<rparr>)"

definition app_mesh :: "(mesh \<Rightarrow> mesh) \<Rightarrow> app \<Rightarrow> app" where
  "app_mesh f = on_g (on_mesh f)"

definition unprov_beacon_interval_set :: "nat \<Rightarrow> mesh \<Rightarrow> mesh" where
  "unprov_beacon_interval_set delay s = s\<lparr>ms_unprov_interval := delay\<rparr>"

definition genie_pbadv_start_silent_adv :: "app \<Rightarrow> app" where
  "genie_pbadv_start_silent_adv = app_mesh (\<lambda>s.
     let s = s\<lparr>ms_prov := (ms_prov s)\<lparr>pv_uuid := genie_tri_tuple_set_silent_adv (pv_uuid (ms_prov s))\<rparr>\<rparr>;
         s = unprov_beacon_interval_set (60 * 1000) s
     in snd (bt_mesh_prov_enable True False s))"

section \<open>Handlers\<close>

definition genie_reset_prov :: "app \<Rightarrow> app" where
  "genie_reset_prov a =
     (let a = on_g (\<lambda>g. g\<lparr>ga_provisioned := False\<rparr>) a;
          a = app_mesh (bt_mesh_reset True) a
      in on_flash genie_flash_reset_system a)"

definition prov_enable :: "app \<Rightarrow> app" where
  "prov_enable = app_mesh (\<lambda>s. snd (bt_mesh_prov_enable True True s))"

definition handle_sw_reset :: "app \<Rightarrow> E_GENIE_EVENT \<times> app" where
  "handle_sw_reset a = (EVT_SDK_MESH_PBADV_START, prov_enable (on_g (log_call Call_Adv_Stop) (genie_reset_prov a)))"

definition handle_hw_reset_start :: "app \<Rightarrow> app" where
  "handle_hw_reset_start a =
     (let a = (if bt_mesh_is_provisioned (ga_mesh (ap_g a)) then on_g genie_indicate_hw_reset_event a else a)
      in genie_reset_done (on_g (log_call Call_Adv_Stop) a))"

definition handle_hw_reset_done :: "app \<Rightarrow> E_GENIE_EVENT \<times> app" where
  "handle_hw_reset_done a = (EVT_SDK_MESH_PBADV_START, prov_enable (genie_reset_prov (genie_reset_clean_count a)))"

definition genie_sub_list_init :: "app \<Rightarrow> u16 list \<times> app" where
  "genie_sub_list_init a =
     (let (ret, subs) = genie_flash_read_sub (ap_flash a) in
      if ret \<noteq> GENIE_FLASH_SUCCESS then (mesh_sub_init, on_flash (genie_flash_write_sub mesh_sub_init) a) else (subs, a))"

text \<open>
  What follows \<open>Call_Reboot\<close> runs only on a board whose \<^verbatim>\<open>aos_reboot\<close> returns.
  The stored network is read into five flags, as the code does. An old image of \<^verbatim>\<open>struct bt_mesh_net\<close> is read into the
  variable itself, converted to the new records and deleted; the variable is then cleared.
\<close>

definition net_cleared :: "bt_mesh_net \<Rightarrow> bt_mesh_net" where
  "net_cleared n = bt_mesh_net0\<lparr>
     bm_sub := map (\<lambda>i. if i = 0 then subnet0 else subnet0\<lparr>sn_net_idx := 0\<rparr>) [0..<length (bm_sub n)],
     bm_app_keys := map (\<lambda>i. if i = 0 then app_key0 else app_key0\<lparr>ak_net_idx := 0\<rparr>) [0..<length (bm_app_keys n)]\<rparr>"

definition zero_netkey :: "bytes \<Rightarrow> mesh_netkey_para_t" where
  "zero_netkey key = \<lparr>nk_net_index = 0, nk_flag = 0, nk_ivi = 0, nk_key = key\<rparr>"

definition zero_appkey :: "bytes \<Rightarrow> mesh_appkey_para_t" where
  "zero_appkey key = \<lparr>apk_net_index = 0, apk_key_index = 0, apk_flag = 0, apk_key = key\<rparr>"

definition write_net_keys :: "bt_mesh_net \<Rightarrow> app \<Rightarrow> app" where
  "write_net_keys n a =
     (let a = on_flash (genie_flash_write_devkey (bm_dev_key n)) a;
          a = on_flash (genie_flash_write_netkey (zero_netkey (sk_net (sn_key0 (bm_sub n ! 0))))) a
      in on_flash (genie_flash_write_appkey (zero_appkey (av_val (ak_key0 (bm_app_keys n ! 0))))) a)"

record stored_net =
  sd_flag :: u8
  sd_addr :: u16
  sd_seq :: u32
  sd_devkey :: bytes
  sd_netkey :: mesh_netkey_para_t
  sd_appkey :: mesh_appkey_para_t

definition read_bit :: "E_GENIE_FLASH_ERRCODE \<Rightarrow> u8 \<Rightarrow> u8" where
  "read_bit ret b = (if ret = GENIE_FLASH_SUCCESS then b else 0)"

definition read_stored :: "net_image \<Rightarrow> app \<Rightarrow> stored_net \<times> app" where
  "read_stored img a =
     (let fl = ap_flash a;
          (r1, addr) = genie_flash_read_addr fl;
          (r2, seq) = genie_flash_read_seq fl;
          flag = read_bit r1 0x01 OR read_bit r2 0x02;
          (r, n) = genie_flash_read_para img fl
      in if r = GENIE_FLASH_SUCCESS then
           let devkey = bm_dev_key n; netkey = zero_netkey (sk_net (sn_key0 (bm_sub n ! 0)));
               appkey = zero_appkey (av_val (ak_key0 (bm_app_keys n ! 0)));
               a = on_flash (genie_flash_delete_reliable GFI_MESH_PARA) (write_net_keys n a)
           in (\<lparr>sd_flag = flag OR 0x1C, sd_addr = addr, sd_seq = seq, sd_devkey = devkey, sd_netkey = netkey, sd_appkey = appkey\<rparr>,
               app_mesh (upd_net (\<lambda>_. net_cleared n)) a)
         else
           let (r3, devkey) = genie_flash_read_devkey fl;
               (r4, netkey) = genie_flash_read_netkey fl;
               (r5, appkey) = genie_flash_read_appkey fl
           in (\<lparr>sd_flag = flag OR read_bit r3 0x04 OR read_bit r4 0x08 OR read_bit r5 0x10, sd_addr = addr, sd_seq = seq,
                 sd_devkey = devkey, sd_netkey = netkey, sd_appkey = appkey\<rparr>, a))"

definition start_provisioned :: "stored_net \<Rightarrow> app \<Rightarrow> E_GENIE_EVENT \<times> app" where
  "start_provisioned sd a =
     (let netkey = sd_netkey sd; appkey = sd_appkey sd;
          a = app_mesh (\<lambda>s. snd (bt_mesh_provision (nk_key netkey) (nk_net_index netkey) (nk_flag netkey) (nk_ivi netkey) (sd_seq sd)
                (sd_addr sd) (sd_devkey sd) s)) a;
          (subs, a) = genie_sub_list_init a;
          a = app_mesh (genie_appkey_register subs (apk_net_index appkey) (apk_key_index appkey) (apk_key appkey) (apk_flag appkey \<noteq> 0)) a;
          a = on_g (log_call Call_Ais_Service_Register) a;
          (r, hb) = genie_flash_read_hb (ap_flash a);
          a = (if r = GENIE_FLASH_SUCCESS \<and> hb_count hb = 0xFF then app_mesh (\<lambda>s. snd (genie_heartbeat_set hb s)) a else a)
      in if genie_reset_get_flag a = 0
         then (EVT_SDK_MESH_INIT, on_g (\<lambda>g. genie_indicate_start 0 0 (set_flag INDICATION_FLAG_POWERON g)) a)
         else (EVT_HW_RESET_START, a))"

definition handle_mesh_init :: "net_image \<Rightarrow> app \<Rightarrow> E_GENIE_EVENT \<times> app" where
  "handle_mesh_init img a =
     (let (sd, a) = read_stored img (ais_check_ota_change a) in
      if sd_flag sd AND 0x1F = 0x1F then start_provisioned sd a
      else if sd_flag sd \<noteq> 0 then
        (EVT_SDK_MESH_INIT, on_g (log_call Call_Reboot) (on_flash genie_flash_reset_system a))
      else if genie_reset_get_flag a \<noteq> 0 then (EVT_HW_RESET_START, a)
      else (EVT_SDK_MESH_PBADV_START, prov_enable (on_g (log_call Call_Ais_Service_Register) a)))"

definition handle_pbadv_start :: "app \<Rightarrow> E_GENIE_EVENT \<times> app" where
  "handle_pbadv_start a = (EVT_SDK_MESH_PBADV_START, genie_pbadv_timer_start a)"

definition handle_pbadv_timeout :: "app \<Rightarrow> E_GENIE_EVENT \<times> app" where
  "handle_pbadv_timeout a = (EVT_SDK_MESH_SILENT_START, app_mesh (\<lambda>s. snd (bt_mesh_prov_disable True True s)) (genie_pbadv_timer_stop a))"

definition handle_silent_start :: "app \<Rightarrow> E_GENIE_EVENT \<times> app" where
  "handle_silent_start a = (EVT_SDK_MESH_SILENT_START, genie_pbadv_start_silent_adv a)"

definition handle_prov_start :: "app \<Rightarrow> E_GENIE_EVENT \<times> app" where
  "handle_prov_start a =
     (EVT_SDK_MESH_PROV_START,
      if \<not> ga_in_prov (ap_g a) then genie_prov_timer_start (genie_pbadv_timer_stop (on_g (\<lambda>g. g\<lparr>ga_in_prov := True\<rparr>) a)) else a)"

definition handle_prov_data :: "u16 \<Rightarrow> app \<Rightarrow> E_GENIE_EVENT \<times> app" where
  "handle_prov_data addr a = (EVT_SDK_MESH_PROV_DATA, on_flash (genie_flash_write_addr addr) a)"

definition handle_prov_success :: "app \<Rightarrow> E_GENIE_EVENT \<times> app" where
  "handle_prov_success a = (EVT_SDK_STATE_SYNC, on_g (\<lambda>g. g\<lparr>ga_provisioned := True\<rparr>) a)"

definition handle_sync :: "nat \<Rightarrow> app \<Rightarrow> E_GENIE_EVENT \<times> app" where
  "handle_sync e a =
     (EVT_SDK_STATE_SYNC, on_g (\<lambda>g. genie_indicate_start 1000 e
        (set_flag INDICATION_FLAG_CTL (set_flag INDICATION_FLAG_LIGHTNESS (set_flag INDICATION_FLAG_ONOFF g)))) a)"

definition handle_prov_fail :: "app \<Rightarrow> E_GENIE_EVENT \<times> app" where
  "handle_prov_fail a = (EVT_SDK_MESH_PBADV_START, prov_enable (genie_reset_prov (on_g (\<lambda>g. g\<lparr>ga_in_prov := False\<rparr>) a)))"

definition save_mesh_data :: "net_image \<Rightarrow> u8 \<Rightarrow> app \<Rightarrow> app" where
  "save_mesh_data img status a =
     (if status = 0 then on_flash (genie_flash_write_para img (ms_net (ga_mesh (ap_g a)))) a else a)"

definition handle_appkey_add :: "net_image \<Rightarrow> u8 \<Rightarrow> app \<Rightarrow> E_GENIE_EVENT \<times> app" where
  "handle_appkey_add img status a =
     (if ga_in_prov (ap_g a) then
        let a = genie_prov_timer_stop (on_g (\<lambda>g. g\<lparr>ga_in_prov := False\<rparr>) a) in
        if status = 0 then (EVT_SDK_MESH_PROV_SUCCESS, write_net_keys (ms_net (ga_mesh (ap_g a))) a)
        else (EVT_SDK_MESH_PROV_FAIL, a)
      else (EVT_SDK_APPKEY_ADD, save_mesh_data img status a))"

definition handle_sub_add :: "app \<Rightarrow> E_GENIE_EVENT \<times> app" where
  "handle_sub_add a = (EVT_SDK_SUB_ADD, on_flash (genie_flash_write_sub (ms_sub_list (ga_mesh (ap_g a)))) a)"

definition handle_hb_set :: "mesh_hb_para_t \<Rightarrow> app \<Rightarrow> E_GENIE_EVENT \<times> app" where
  "handle_hb_set para a = (EVT_SDK_HB_SET, on_flash (genie_flash_write_hb para) a)"

definition handle_seq_update :: "app \<Rightarrow> E_GENIE_EVENT \<times> app" where
  "handle_seq_update a = (EVT_SDK_SEQ_UPDATE, on_flash (genie_flash_write_seq (ucast (bm_seq (ms_net (ga_mesh (ap_g a)))))) a)"

definition handle_analyze_msg :: "nat \<Rightarrow> app \<Rightarrow> E_GENIE_EVENT" where
  "handle_analyze_msg e a =
     (let st = el_state (app_elem a e) in
      if st_trans st \<noteq> 0 \<or> st_delay st \<noteq> 0 then (if st_delay st \<noteq> 0 then EVT_SDK_DELAY_START else EVT_SDK_TRANS_START)
      else EVT_SDK_ACTION_DONE)"

definition handle_ais_discon :: "app \<Rightarrow> E_GENIE_EVENT \<times> app" where
  "handle_ais_discon a = (EVT_SDK_MESH_PBADV_START, prov_enable a)"

definition handle_delay_start :: "nat \<Rightarrow> app \<Rightarrow> E_GENIE_EVENT \<times> app" where
  "handle_delay_start e a =
     (EVT_SDK_DELAY_START, on_elem e (\<lambda>el. upd_state (\<lambda>st. st\<lparr>delay_timer := k_timer_start (ucast (st_delay st) * 5) (app_now a) (delay_timer st)\<rparr>)
        (mesh_timer_stop el)) a)"

definition handle_delay_end :: "nat \<Rightarrow> app \<Rightarrow> E_GENIE_EVENT \<times> app" where
  "handle_delay_end e a =
     (let cur_time = ga_now32 (ap_g a);
          a = on_elem e (upd_state (\<lambda>st. st\<lparr>st_delay := 0\<rparr>)) a;
          st = el_state (app_elem a e)
      in if st_trans st = 0 \<or> cur_time \<ge> trans_end_time st then (EVT_SDK_ACTION_DONE, on_elem e clear_trans_para a)
         else (EVT_SDK_TRANS_START, a))"

definition handle_trans_start :: "nat \<Rightarrow> app \<Rightarrow> E_GENIE_EVENT \<times> app" where
  "handle_trans_start e a =
     (let cur_time = ga_now32 (ap_g a);
          a = on_elem e mesh_timer_stop a
      in if cur_time \<ge> trans_end_time (el_state (app_elem a e)) - MESH_TRNSATION_CYCLE then (EVT_SDK_TRANS_END, a)
         else (EVT_SDK_TRANS_START,
               on_elem e (upd_state (\<lambda>st. st\<lparr>trans_timer := k_timer_start MESH_TRNSATION_CYCLE (app_now a) (trans_timer st)\<rparr>)) a))"

definition handle_trans_cycle :: "nat \<Rightarrow> app \<Rightarrow> E_GENIE_EVENT \<times> app" where
  "handle_trans_cycle e a =
     (EVT_SDK_TRANS_CYCLE,
      case calc_cur_state (app_now a) (app_elem a e) of
        None \<Rightarrow> app_fault a
      | Some (cycle, el) \<Rightarrow> on_elem e (\<lambda>_. if cycle then el else upd_state (\<lambda>st. st\<lparr>st_trans := 0\<rparr>) el) a)"

definition handle_trans_end :: "nat \<Rightarrow> app \<Rightarrow> E_GENIE_EVENT \<times> app" where
  "handle_trans_end e a = (EVT_SDK_ACTION_DONE, on_elem e clear_trans_para a)"

definition handle_action_done :: "nat \<Rightarrow> app \<Rightarrow> E_GENIE_EVENT \<times> app" where
  "handle_action_done e a =
     (if bt_mesh_is_provisioned (ga_mesh (ap_g a)) then EVT_SDK_INDICATE else EVT_SDK_ACTION_DONE,
      on_elem e (upd_state (\<lambda>st. st\<lparr>onoff_cur := onoff_tar st, actual_cur := actual_tar st, temp_cur := temp_tar st\<rparr>)) a)"

definition handle_indicate :: "nat \<Rightarrow> app \<Rightarrow> E_GENIE_EVENT \<times> app" where
  "handle_indicate e a = (EVT_SDK_INDICATE, if ga_indication_flag (ap_g a) \<noteq> 0 then on_g (standart_indication e) a else a)"

definition handle_vnd_msg :: "vnd_model_msg \<Rightarrow> app \<Rightarrow> E_GENIE_EVENT \<times> app" where
  "handle_vnd_msg msg a = (EVT_SDK_VENDOR_MSG, on_g (genie_vnd_msg_handle msg) a)"

section \<open>Dispatch\<close>

definition with_elem :: "(nat \<Rightarrow> app \<Rightarrow> E_GENIE_EVENT \<times> app) \<Rightarrow> E_GENIE_EVENT \<Rightarrow> evt_arg \<Rightarrow> app \<Rightarrow> E_GENIE_EVENT \<times> app" where
  "with_elem f ev arg a = (case arg of A_Elem e \<Rightarrow> f e a | _ \<Rightarrow> (ev, app_fault a))"

text \<open>The events whose handler runs after the application has seen them.\<close>

definition ignore_user_event :: "E_GENIE_EVENT \<Rightarrow> bool" where
  "ignore_user_event ev \<longleftrightarrow> ev = EVT_SW_RESET \<or> ev = EVT_HW_RESET_DONE"

text \<open>The \<^verbatim>\<open>switch\<close> of \<^verbatim>\<open>genie_event\<close>: the next event, the argument and the state.\<close>

definition genie_handle :: "net_image \<Rightarrow> E_GENIE_EVENT \<Rightarrow> evt_arg \<Rightarrow> app \<Rightarrow> E_GENIE_EVENT \<times> evt_arg \<times> app" where
  "genie_handle img ev arg a =
     (let run = (\<lambda>(next, a). (next, arg, a)); elem = (\<lambda>f. run (with_elem f ev arg a)) in
      case ev of
        EVT_SW_RESET \<Rightarrow> run (handle_sw_reset (snd (user_handle ev arg a)))
      | EVT_HW_RESET_START \<Rightarrow> run (ev, handle_hw_reset_start a)
      | EVT_HW_RESET_DONE \<Rightarrow> run (handle_hw_reset_done (snd (user_handle ev arg a)))
      | EVT_SDK_MESH_INIT \<Rightarrow> (let (next, a) = handle_mesh_init img a in (next, A_Elem 0, a))
      | EVT_SDK_MESH_PBADV_START \<Rightarrow> run (handle_pbadv_start a)
      | EVT_SDK_MESH_PBADV_TIMEOUT \<Rightarrow> run (handle_pbadv_timeout a)
      | EVT_SDK_MESH_SILENT_START \<Rightarrow> run (handle_silent_start a)
      | EVT_SDK_MESH_PROV_START \<Rightarrow> run (handle_prov_start a)
      | EVT_SDK_MESH_PROV_DATA \<Rightarrow> run (case arg of A_Addr addr \<Rightarrow> handle_prov_data addr a | _ \<Rightarrow> (ev, app_fault a))
      | EVT_SDK_MESH_PROV_TIMEOUT \<Rightarrow> run (EVT_SDK_MESH_PROV_FAIL, a)
      | EVT_SDK_MESH_PROV_SUCCESS \<Rightarrow> run (handle_prov_success a)
      | EVT_SDK_STATE_SYNC \<Rightarrow> elem handle_sync
      | EVT_SDK_MESH_PROV_FAIL \<Rightarrow> run (handle_prov_fail a)
      | EVT_SDK_APPKEY_ADD \<Rightarrow>
          (case arg of
             A_Status status \<Rightarrow>
               let (next, a) = handle_appkey_add img status a
               in (next, if next = EVT_SDK_MESH_PROV_SUCCESS then A_Elem 0 else arg, a)
           | _ \<Rightarrow> (ev, arg, app_fault a))
      | EVT_SDK_SUB_ADD \<Rightarrow> run (handle_sub_add a)
      | EVT_SDK_HB_SET \<Rightarrow> run (case arg of A_Hb para \<Rightarrow> handle_hb_set para a | _ \<Rightarrow> (ev, app_fault a))
      | EVT_SDK_SEQ_UPDATE \<Rightarrow> run (handle_seq_update a)
      | EVT_SDK_ANALYZE_MSG \<Rightarrow> elem (\<lambda>e a. (handle_analyze_msg e a, a))
      | EVT_SDK_AIS_DISCON \<Rightarrow> run (handle_ais_discon a)
      | EVT_SDK_DELAY_START \<Rightarrow> elem handle_delay_start
      | EVT_SDK_DELAY_END \<Rightarrow> elem handle_delay_end
      | EVT_SDK_TRANS_START \<Rightarrow> elem handle_trans_start
      | EVT_SDK_TRANS_CYCLE \<Rightarrow> elem handle_trans_cycle
      | EVT_SDK_TRANS_END \<Rightarrow> elem handle_trans_end
      | EVT_SDK_ACTION_DONE \<Rightarrow> elem handle_action_done
      | EVT_SDK_MESH_PWRON_INDC \<Rightarrow> run (EVT_SDK_INDICATE, a)
      | EVT_SDK_INDICATE \<Rightarrow> elem handle_indicate
      | EVT_SDK_VENDOR_MSG \<Rightarrow> run (case arg of A_Vnd msg \<Rightarrow> handle_vnd_msg msg a | _ \<Rightarrow> (ev, app_fault a))
      | _ \<Rightarrow> run (ev, a))"

text \<open>How many events an event can still cause, one after the other.\<close>

fun evt_rank :: "E_GENIE_EVENT \<Rightarrow> nat" where
  "evt_rank EVT_SDK_MESH_INIT = 6"
| "evt_rank EVT_SDK_ANALYZE_MSG = 5"
| "evt_rank EVT_SDK_DELAY_END = 4"
| "evt_rank EVT_SDK_TRANS_START = 3"
| "evt_rank EVT_SDK_TRANS_END = 2"
| "evt_rank EVT_SDK_ACTION_DONE = 1"
| "evt_rank EVT_SDK_MESH_PWRON_INDC = 1"
| "evt_rank EVT_SDK_APPKEY_ADD = 3"
| "evt_rank EVT_SDK_MESH_PROV_TIMEOUT = 2"
| "evt_rank EVT_SDK_MESH_PROV_SUCCESS = 1"
| "evt_rank EVT_SDK_MESH_PROV_FAIL = 1"
| "evt_rank EVT_SDK_MESH_PBADV_TIMEOUT = 1"
| "evt_rank EVT_SDK_AIS_DISCON = 1"
| "evt_rank EVT_SW_RESET = 1"
| "evt_rank EVT_HW_RESET_DONE = 1"
| "evt_rank _ = 0"

lemma genie_handle_rank:
  assumes "fst (genie_handle img ev arg a) \<noteq> ev"
  shows "evt_rank (fst (genie_handle img ev arg a)) < evt_rank ev"
  using assms
  by (cases ev) (auto simp: genie_handle_def with_elem_def Let_def case_prod_beta handle_sw_reset_def handle_hw_reset_done_def
      handle_mesh_init_def start_provisioned_def handle_pbadv_start_def handle_pbadv_timeout_def handle_silent_start_def
      handle_prov_start_def handle_prov_data_def handle_prov_success_def handle_sync_def handle_prov_fail_def handle_appkey_add_def
      handle_sub_add_def handle_hb_set_def handle_seq_update_def handle_analyze_msg_def handle_ais_discon_def handle_delay_start_def
      handle_delay_end_def handle_trans_start_def handle_trans_cycle_def handle_trans_end_def handle_action_done_def
      handle_indicate_def handle_vnd_msg_def split: evt_arg.splits if_splits)

lemma user_handle_rank: "fst (user_handle ev arg a) \<noteq> ev \<Longrightarrow> evt_rank (fst (user_handle ev arg a)) < evt_rank ev"
  by (cases ev) (auto simp: user_handle_def Let_def split: if_splits)

function genie_event :: "net_image \<Rightarrow> E_GENIE_EVENT \<Rightarrow> evt_arg \<Rightarrow> app \<Rightarrow> app" where
  "genie_event img ev arg a =
     (let r = genie_handle img ev arg a; arg = fst (snd r);
          a = (if ignore_user_event ev then snd (snd r)
               else let u = user_handle ev arg (snd (snd r))
                    in if fst u \<noteq> ev then genie_event img (fst u) arg (snd u) else snd u)
      in if fst r \<noteq> ev then genie_event img (fst r) arg a else a)"
  by pat_completeness auto
termination
  by (relation "measure (\<lambda>(img, ev, arg, a). evt_rank ev)") (auto intro: genie_handle_rank user_handle_rank)

declare genie_event.simps [simp del]

section \<open>Timer handlers\<close>

definition mesh_delay_timer_cb :: "net_image \<Rightarrow> nat \<Rightarrow> app \<Rightarrow> app" where
  "mesh_delay_timer_cb img e a = genie_event img EVT_SDK_DELAY_END (A_Elem e) (on_elem e mesh_timer_stop a)"

definition mesh_trans_timer_cycle :: "net_image \<Rightarrow> nat \<Rightarrow> app \<Rightarrow> app" where
  "mesh_trans_timer_cycle img e a =
     (let a = genie_event img EVT_SDK_TRANS_CYCLE (A_Elem e) (on_elem e mesh_timer_stop a)
      in if st_trans (el_state (app_elem a e)) = 0 then genie_event img EVT_SDK_TRANS_END (A_Elem e) a
         else on_elem e (upd_state (\<lambda>st. st\<lparr>trans_timer := k_timer_start MESH_TRNSATION_CYCLE (app_now a) (trans_timer st)\<rparr>)) a)"

definition genie_pbadv_timer_cb :: "net_image \<Rightarrow> app \<Rightarrow> app" where
  "genie_pbadv_timer_cb img a = genie_event img EVT_SDK_MESH_PBADV_TIMEOUT A_None a"

definition genie_prov_timer_cb :: "net_image \<Rightarrow> app \<Rightarrow> app" where
  "genie_prov_timer_cb img a = genie_event img EVT_SDK_MESH_PROV_TIMEOUT A_None a"

text \<open>The flags of a start are reported before the start itself.\<close>

definition genie_indicate_cb :: "net_image \<Rightarrow> app \<Rightarrow> app" where
  "genie_indicate_cb img a =
     (let flags = ga_indication_flag (ap_g a); arg = (case ga_indc_elem (ap_g a) of Some e \<Rightarrow> A_Elem e | None \<Rightarrow> A_None);
          poweron = has_flag flags INDICATION_FLAG_POWERON;
          a = (if poweron
               then on_g (\<lambda>g. set_flag INDICATION_FLAG_CTL (set_flag INDICATION_FLAG_LIGHTNESS (set_flag INDICATION_FLAG_ONOFF
                      (clear_flag INDICATION_FLAG_POWERON g)))) a
               else a);
          a = genie_event img EVT_SDK_INDICATE arg a
      in if poweron then genie_event img EVT_SDK_MESH_PWRON_INDC arg (on_g (set_flag INDICATION_FLAG_POWERON) a) else a)"

definition genie_reset_done_cb :: "net_image \<Rightarrow> app \<Rightarrow> app" where
  "genie_reset_done_cb img a = genie_event img EVT_HW_RESET_DONE A_None a"

definition genie_reset_timer :: "net_image \<Rightarrow> app \<Rightarrow> app" where
  "genie_reset_timer img a = (if ap_reset_done a then genie_reset_done_cb img a else genie_reset_timer_cb a)"

section \<open>Messages to the light servers\<close>

type_synonym app_result = "bt_mesh_msg_ctx \<times> net_buf_simple \<times> app"

definition model_get ::
  "(model_ref \<Rightarrow> bt_mesh_msg_ctx \<Rightarrow> bool \<Rightarrow> genie \<Rightarrow> bt_mesh_msg_ctx \<times> genie) \<Rightarrow> model_ref \<Rightarrow> bt_mesh_msg_ctx \<Rightarrow> net_buf_simple \<Rightarrow> app
   \<Rightarrow> app_result" where
  "model_get status m ctx buf a = (let (ctx, g) = status m ctx False (ap_g a) in (ctx, buf, a\<lparr>ap_g := g\<rparr>))"

definition model_set ::
  "net_image \<Rightarrow> (model_ref \<Rightarrow> u16 \<Rightarrow> net_buf_simple \<Rightarrow> genie \<Rightarrow> E_MESH_ERROR_TYPE \<times> net_buf_simple \<times> genie)
   \<Rightarrow> (model_ref \<Rightarrow> bt_mesh_msg_ctx \<Rightarrow> bool \<Rightarrow> genie \<Rightarrow> bt_mesh_msg_ctx \<times> genie) \<Rightarrow> model_ref \<Rightarrow> bt_mesh_msg_ctx \<Rightarrow> net_buf_simple \<Rightarrow> app
   \<Rightarrow> app_result" where
  "model_set img analyze status m ctx buf a =
     (let (ret, buf, g) = analyze m (cx_addr ctx) buf (ap_g a) in
      if ret = MESH_SUCCESS \<or> ret = MESH_TID_REPEAT then
        let (ctx, g) = status m ctx True g; a = a\<lparr>ap_g := g\<rparr>
        in (ctx, buf, if ret = MESH_SUCCESS then genie_event img EVT_SDK_ANALYZE_MSG (A_Elem (ga_user_data g m)) a else a)
      else (ctx, buf, a\<lparr>ap_g := g\<rparr>))"

definition model_set_unack ::
  "net_image \<Rightarrow> (model_ref \<Rightarrow> u16 \<Rightarrow> net_buf_simple \<Rightarrow> genie \<Rightarrow> E_MESH_ERROR_TYPE \<times> net_buf_simple \<times> genie)
   \<Rightarrow> model_ref \<Rightarrow> bt_mesh_msg_ctx \<Rightarrow> net_buf_simple \<Rightarrow> app \<Rightarrow> app_result" where
  "model_set_unack img analyze m ctx buf a =
     (let (ret, buf, g) = analyze m (cx_addr ctx) buf (ap_g a); a = a\<lparr>ap_g := g\<rparr>
      in (ctx, buf, if ret = MESH_SUCCESS then genie_event img EVT_SDK_ANALYZE_MSG (A_Elem (ga_user_data g m)) a else a))"

definition gen_onoff_get :: "model_ref \<Rightarrow> bt_mesh_msg_ctx \<Rightarrow> net_buf_simple \<Rightarrow> app \<Rightarrow> app_result" where
  "gen_onoff_get = model_get gen_onoff_status"

definition gen_onoff_set :: "net_image \<Rightarrow> model_ref \<Rightarrow> bt_mesh_msg_ctx \<Rightarrow> net_buf_simple \<Rightarrow> app \<Rightarrow> app_result" where
  "gen_onoff_set img = model_set img gen_onoff_analyze gen_onoff_status"

definition gen_onoff_set_unack :: "net_image \<Rightarrow> model_ref \<Rightarrow> bt_mesh_msg_ctx \<Rightarrow> net_buf_simple \<Rightarrow> app \<Rightarrow> app_result" where
  "gen_onoff_set_unack img = model_set_unack img gen_onoff_analyze"

definition lightness_get :: "model_ref \<Rightarrow> bt_mesh_msg_ctx \<Rightarrow> net_buf_simple \<Rightarrow> app \<Rightarrow> app_result" where
  "lightness_get = model_get lightness_status"

definition lightness_set :: "net_image \<Rightarrow> model_ref \<Rightarrow> bt_mesh_msg_ctx \<Rightarrow> net_buf_simple \<Rightarrow> app \<Rightarrow> app_result" where
  "lightness_set img = model_set img lightness_analyze lightness_status"

definition lightness_set_unack :: "net_image \<Rightarrow> model_ref \<Rightarrow> bt_mesh_msg_ctx \<Rightarrow> net_buf_simple \<Rightarrow> app \<Rightarrow> app_result" where
  "lightness_set_unack img = model_set_unack img lightness_analyze"

definition ctl_get :: "model_ref \<Rightarrow> bt_mesh_msg_ctx \<Rightarrow> net_buf_simple \<Rightarrow> app \<Rightarrow> app_result" where
  "ctl_get = model_get ctl_status"

definition ctl_set :: "net_image \<Rightarrow> model_ref \<Rightarrow> bt_mesh_msg_ctx \<Rightarrow> net_buf_simple \<Rightarrow> app \<Rightarrow> app_result" where
  "ctl_set img = model_set img ctl_analyze ctl_status"

definition ctl_set_unack :: "net_image \<Rightarrow> model_ref \<Rightarrow> bt_mesh_msg_ctx \<Rightarrow> net_buf_simple \<Rightarrow> app \<Rightarrow> app_result" where
  "ctl_set_unack img = model_set_unack img ctl_analyze"

text \<open>The tables of opcodes, with the minimal lengths.\<close>

definition g_gen_onoff_op :: "net_image \<Rightarrow> (u32 \<times> nat \<times> (model_ref \<Rightarrow> bt_mesh_msg_ctx \<Rightarrow> net_buf_simple \<Rightarrow> app \<Rightarrow> app_result)) list" where
  "g_gen_onoff_op img = [(0x8201, 0, gen_onoff_get), (0x8202, 2, gen_onoff_set img), (0x8203, 2, gen_onoff_set_unack img)]"

definition g_lightness_op :: "net_image \<Rightarrow> (u32 \<times> nat \<times> (model_ref \<Rightarrow> bt_mesh_msg_ctx \<Rightarrow> net_buf_simple \<Rightarrow> app \<Rightarrow> app_result)) list" where
  "g_lightness_op img = [(0x824b, 0, lightness_get), (0x824c, 2, lightness_set img), (0x824d, 2, lightness_set_unack img)]"

definition g_ctl_srv_op :: "net_image \<Rightarrow> (u32 \<times> nat \<times> (model_ref \<Rightarrow> bt_mesh_msg_ctx \<Rightarrow> net_buf_simple \<Rightarrow> app \<Rightarrow> app_result)) list" where
  "g_ctl_srv_op img = [(0x825d, 0, ctl_get), (0x825e, 7, ctl_set img), (0x825f, 7, ctl_set_unack img)]"

section \<open>Messages to the vendor model\<close>

text \<open>The message that is passed on holds the rest of the buffer, which is then taken out of it.\<close>

definition vendor_msg :: "u8 \<Rightarrow> u8 \<Rightarrow> net_buf_simple \<Rightarrow> vnd_model_msg" where
  "vendor_msg opid tid buf = \<lparr>vm_elem = 0, vm_retry = 0, vm_retry_period = 0, vm_opid = opid, vm_tid = tid, vm_data = nb_data buf\<rparr>"

definition vendor_model_analyze ::
  "net_image \<Rightarrow> bt_mesh_msg_ctx \<Rightarrow> net_buf_simple \<Rightarrow> u8 \<Rightarrow> app \<Rightarrow> E_MESH_ERROR_TYPE \<times> net_buf_simple \<times> app" where
  "vendor_model_analyze img ctx buf opid a =
     (if nb_len buf < 3 then (MESH_ANALYZE_SIZE_ERROR, buf, a)
      else
        let (tid, buf) = net_buf_simple_pull_u8 buf;
            (ret, g) = mesh_check_tid (cx_addr ctx) tid (ap_g a);
            a = a\<lparr>ap_g := g\<rparr>
        in if ret \<noteq> MESH_SUCCESS then (MESH_TID_REPEAT, buf, a)
           else (MESH_SUCCESS, net_buf_simple_pull buf (nb_len buf), genie_event img EVT_SDK_VENDOR_MSG (A_Vnd (vendor_msg opid tid buf)) a))"

definition vendor_model_pass :: "net_image \<Rightarrow> u8 \<Rightarrow> model_ref \<Rightarrow> bt_mesh_msg_ctx \<Rightarrow> net_buf_simple \<Rightarrow> app \<Rightarrow> app_result" where
  "vendor_model_pass img opid m ctx buf a = (let (ret, buf, a) = vendor_model_analyze img ctx buf opid a in (ctx, buf, a))"

definition vendor_model_get :: "net_image \<Rightarrow> model_ref \<Rightarrow> bt_mesh_msg_ctx \<Rightarrow> net_buf_simple \<Rightarrow> app \<Rightarrow> app_result" where
  "vendor_model_get img = vendor_model_pass img VENDOR_OP_ATTR_GET_STATUS"

definition vendor_model_set_ack :: "net_image \<Rightarrow> model_ref \<Rightarrow> bt_mesh_msg_ctx \<Rightarrow> net_buf_simple \<Rightarrow> app \<Rightarrow> app_result" where
  "vendor_model_set_ack img = vendor_model_pass img VENDOR_OP_ATTR_SET_ACK"

definition vendor_model_set_unack :: "net_image \<Rightarrow> model_ref \<Rightarrow> bt_mesh_msg_ctx \<Rightarrow> net_buf_simple \<Rightarrow> app \<Rightarrow> app_result" where
  "vendor_model_set_unack img = vendor_model_pass img VENDOR_OP_ATTR_SET_UNACK"

definition vendor_model_transparent :: "net_image \<Rightarrow> model_ref \<Rightarrow> bt_mesh_msg_ctx \<Rightarrow> net_buf_simple \<Rightarrow> app \<Rightarrow> app_result" where
  "vendor_model_transparent img = vendor_model_pass img VENDOR_OP_ATTR_TRANS_MSG"

definition vendor_model_confirm_tg :: "net_image \<Rightarrow> model_ref \<Rightarrow> bt_mesh_msg_ctx \<Rightarrow> net_buf_simple \<Rightarrow> app \<Rightarrow> app_result" where
  "vendor_model_confirm_tg img m ctx buf a =
     (let (tid, buf) = net_buf_simple_pull_u8 buf;
          a = on_g (vendor_model_msg_check_tid tid) a
      in (ctx, net_buf_simple_pull buf (nb_len buf),
          genie_event img EVT_SDK_VENDOR_MSG (A_Vnd (vendor_msg VENDOR_OP_ATTR_CONFIME_TG tid buf)) a))"

text \<open>Confirmations take their byte out of the buffer; the buffer is not used afterwards.\<close>

definition g_vendor_model_alibaba_op ::
  "net_image \<Rightarrow> (u32 \<times> nat \<times> (model_ref \<Rightarrow> bt_mesh_msg_ctx \<Rightarrow> net_buf_simple \<Rightarrow> app \<Rightarrow> app_result)) list" where
  "g_vendor_model_alibaba_op img =
     (let op = (\<lambda>o3. BT_MESH_MODEL_OP_3 o3 BT_MESH_MODEL_VND_COMPANY_ID) in
     [(op VENDOR_OP_ATTR_GET_STATUS, 2, vendor_model_get img), (op VENDOR_OP_ATTR_SET_ACK, 2, vendor_model_set_ack img),
      (op VENDOR_OP_ATTR_SET_UNACK, 2, vendor_model_set_unack img),
      (op VENDOR_OP_ATTR_CONFIME, 1, \<lambda>m ctx buf a. (ctx, buf, on_g (vendor_model_confirm buf) a)),
      (op VENDOR_OP_ATTR_CONFIME_TG, 1, vendor_model_confirm_tg img),
      (op VENDOR_OP_ATTR_TRANS_MSG, 1, vendor_model_transparent img),
      (op VENDOR_OP_ATTR_TRANS_ACK, 1, \<lambda>m ctx buf a. (ctx, buf, on_g (vendor_model_transparent_ack buf) a))])"

end
