(* ===== verification/Lamp.thy ===== *)
theory Lamp
  imports Genie_Event
begin

text \<open>
  Properties of the lamp: the values of its element stay in their ranges whatever arrives, a chain of events brings the lamp to its
  target, and what becomes of the stored network at the next start.
\<close>

section \<open>Well-formed elements\<close>

definition temp_ok :: "u16 \<Rightarrow> bool" where
  "temp_ok t \<longleftrightarrow> CTL_TEMP_MIN \<le> t \<and> t \<le> CTL_TEMP_MAX"

definition powerup_ok :: "model_powerup_t \<Rightarrow> bool" where
  "powerup_ok p \<longleftrightarrow> last_onoff p \<le> 1 \<and> (last_temp p = 0 \<or> temp_ok (last_temp p))"

definition state_ok :: "model_state_t \<Rightarrow> bool" where
  "state_ok st \<longleftrightarrow> onoff_cur st \<le> 1 \<and> onoff_tar st \<le> 1 \<and> temp_ok (temp_cur st) \<and> temp_ok (temp_tar st)"

definition elem_ok :: "elem_state_t \<Rightarrow> bool" where
  "elem_ok el \<longleftrightarrow> state_ok (el_state el) \<and> powerup_ok (el_powerup el)"

definition lamp_g :: "genie \<Rightarrow> bool" where
  "lamp_g g \<longleftrightarrow> (\<exists>el. ga_elems g = [el] \<and> elem_ok el) \<and> (\<forall>m. ga_user_data g m = 0) \<and> ga_indc_elem g \<in> {None, Some 0}"

definition lamp_ok :: "app \<Rightarrow> bool" where
  "lamp_ok a \<longleftrightarrow> lamp_g (ap_g a) \<and> list_all powerup_ok (ap_powerup a)"

lemma default_ok [simp]: "temp_ok CTL_TEMP_DEFAULT" "GEN_ONOFF_DEFAULT \<le> 1"
  by (simp_all add: temp_ok_def CTL_TEMP_DEFAULT_def CTL_TEMP_MIN_def CTL_TEMP_MAX_def GEN_ONOFF_DEFAULT_def)

lemma upd_sel [simp]:
  "el_state (upd_state f el) = f (el_state el)" "el_powerup (upd_state f el) = el_powerup el"
  "el_state (upd_powerup h el) = el_state el" "el_powerup (upd_powerup h el) = h (el_powerup el)"
  "elem_index (upd_state f el) = elem_index el" "elem_index (upd_powerup h el) = elem_index el"
  by (simp_all add: upd_state_def upd_powerup_def)

lemma elem_ok_upd:
  "elem_ok el \<Longrightarrow> state_ok (f (el_state el)) \<Longrightarrow> elem_ok (upd_state f el)"
  "elem_ok el \<Longrightarrow> powerup_ok (h (el_powerup el)) \<Longrightarrow> elem_ok (upd_powerup h el)"
  by (simp_all add: elem_ok_def)

lemma lamp_elem: "lamp_g g \<Longrightarrow> elem_ok (get_elem g 0)" "lamp_g g \<Longrightarrow> ga_user_data g m = 0" "lamp_g g \<Longrightarrow> length (ga_elems g) = 1"
  by (auto simp: lamp_g_def get_elem_def simp del: split_paired_All)

lemma lamp_upd: "lamp_g g \<Longrightarrow> (elem_ok (get_elem g 0) \<Longrightarrow> elem_ok (f (get_elem g 0))) \<Longrightarrow> lamp_g (upd_elem e f g)"
  by (cases e) (auto simp: lamp_g_def upd_elem_def get_elem_def upd_at_def)

text \<open>Everything else leaves the elements alone.\<close>

definition lamp_view :: "genie \<Rightarrow> elem_state_t list \<times> (model_ref \<Rightarrow> nat) \<times> nat option" where
  "lamp_view g = (ga_elems g, ga_user_data g, ga_indc_elem g)"

lemma lamp_view_ok: "lamp_view g' = lamp_view g \<Longrightarrow> lamp_g g' = lamp_g g"
  by (simp add: lamp_view_def lamp_g_def)

lemma lamp_view_upd [simp]:
  "lamp_view (set_flag f g) = lamp_view g" "lamp_view (clear_flag f g) = lamp_view g" "lamp_view (on_mesh h g) = lamp_view g"
  "lamp_view (log_call c g) = lamp_view g" "lamp_view (g\<lparr>ga_mesh := s\<rparr>) = lamp_view g" "lamp_view (g\<lparr>ga_fault := b\<rparr>) = lamp_view g"
  "lamp_view (g\<lparr>ga_provisioned := b\<rparr>) = lamp_view g" "lamp_view (g\<lparr>ga_in_prov := b\<rparr>) = lamp_view g"
  "lamp_view (g\<lparr>ga_pbadv_timer := t\<rparr>) = lamp_view g" "lamp_view (g\<lparr>ga_prov_timer := t\<rparr>) = lamp_view g"
  "lamp_view (g\<lparr>ga_version_tid := x\<rparr>) = lamp_view g" "lamp_view (g\<lparr>ga_vnd_list := xs\<rparr>) = lamp_view g"
  by (simp_all add: lamp_view_def set_flag_def clear_flag_def on_mesh_def log_call_def)

lemma lamp_view_tid [simp]: "lamp_view (snd (vendor_model_msg_gen_tid g)) = lamp_view g" "lamp_view (vendor_model_init g) = lamp_view g"
  "lamp_view (snd (mesh_check_tid src tid g)) = lamp_view g"
  by (auto simp: lamp_view_def vendor_model_msg_gen_tid_def vendor_model_init_def bt_rand1_def mesh_check_tid_def Let_def)

lemma lamp_view_append [simp]: "lamp_view (snd (snd (vendor_model_msg_list_append msg g))) = lamp_view g"
  by (auto simp: lamp_view_def vendor_model_msg_list_append_def vendor_model_msg_node_generate_def k_malloc_def Let_def
      split: option.splits prod.splits)

lemma lamp_view_send [simp]: "lamp_view (snd (snd (vendor_model_msg_send msg g))) = lamp_view g"
  by (auto simp: vendor_model_msg_send_def Let_def case_prod_beta split: option.splits)

lemma lamp_view_vendor [simp]:
  "lamp_view (genie_vendor_model_msg_send msg g) = lamp_view g" "lamp_view (genie_indicate_hw_reset_event g) = lamp_view g"
  by (simp_all add: genie_vendor_model_msg_send_def genie_indicate_hw_reset_event_def)

lemma lamp_view_indication [simp]: "lamp_view (standart_indication e g) = lamp_view g"
  by (simp add: standart_indication_def indication_flags_done_def indication_tid_def Let_def case_prod_beta)

lemma lamp_view_check [simp]: "lamp_view (vendor_model_msg_check_tid tid g) = lamp_view g"
  by (auto simp: vendor_model_msg_check_tid_def Let_def split: option.splits)

lemma lamp_g_frame [simp]:
  "lamp_g (set_flag f g) = lamp_g g" "lamp_g (g\<lparr>ga_mesh := s\<rparr>) = lamp_g g" "lamp_g (snd (mesh_check_tid src tid g)) = lamp_g g"
  by (rule lamp_view_ok, simp)+

lemma lamp_indicate: "lamp_g g \<Longrightarrow> lamp_g (genie_indicate_start d 0 g)" "lamp_g g \<Longrightarrow> lamp_g (genie_vnd_msg_handle msg g)"
  by (simp_all add: genie_vnd_msg_handle_def lamp_g_def genie_indicate_start_def bt_rand1_def Let_def)

section \<open>Set messages keep the ranges\<close>

lemma state_ok_upd [simp]:
  "state_ok (st\<lparr>onoff_tar := x\<rparr>) \<longleftrightarrow> onoff_cur st \<le> 1 \<and> x \<le> 1 \<and> temp_ok (temp_cur st) \<and> temp_ok (temp_tar st)"
  "state_ok (st\<lparr>actual_tar := y\<rparr>) = state_ok st" "state_ok (set_trans now tr d st) = state_ok st"
  "state_ok (st\<lparr>temp_tar := y\<rparr>) \<longleftrightarrow> onoff_cur st \<le> 1 \<and> onoff_tar st \<le> 1 \<and> temp_ok (temp_cur st) \<and> temp_ok y"
  "powerup_ok (p\<lparr>last_actual := y\<rparr>) = powerup_ok p" "powerup_ok (p\<lparr>last_temp := y\<rparr>) \<longleftrightarrow> last_onoff p \<le> 1 \<and> (y = 0 \<or> temp_ok y)"
  by (simp_all add: state_ok_def powerup_ok_def set_trans_def Let_def)

lemma set_trans_sel [simp]:
  "onoff_cur (set_trans now tr d st) = onoff_cur st" "onoff_tar (set_trans now tr d st) = onoff_tar st"
  "actual_cur (set_trans now tr d st) = actual_cur st" "actual_tar (set_trans now tr d st) = actual_tar st"
  "temp_cur (set_trans now tr d st) = temp_cur st" "temp_tar (set_trans now tr d st) = temp_tar st"
  "st_trans (set_trans now tr d st) = tr" "st_delay (set_trans now tr d st) = d"
  by (simp_all add: set_trans_def Let_def)

lemma elem_okD: "elem_ok el \<Longrightarrow> state_ok (el_state el)" "elem_ok el \<Longrightarrow> powerup_ok (el_powerup el)"
  by (simp_all add: elem_ok_def)

lemma elem_ok_sel:
  assumes "elem_ok el"
  shows "onoff_cur (el_state el) \<le> 1" "onoff_tar (el_state el) \<le> 1" "temp_ok (temp_cur (el_state el))" "temp_ok (temp_tar (el_state el))"
    "last_onoff (el_powerup el) \<le> 1" "last_temp (el_powerup el) \<noteq> 0 \<Longrightarrow> temp_ok (last_temp (el_powerup el))"
  using assms by (auto simp: elem_ok_def state_ok_def powerup_ok_def)

lemma lamp_bind_onoff: "lamp_g g \<Longrightarrow> lamp_g (gen_onoff_operation e t g)"
proof -
  have 1: "lamp_g (bind_lightness_with_onoff e t g)" if "lamp_g g" for g
    using that by (auto simp: bind_lightness_with_onoff_def Let_def intro!: lamp_upd elem_ok_upd dest: elem_okD)
  have 2: "lamp_g (bind_ctl_with_onoff 0 t g)" if "lamp_g g" for g
    using that by (auto simp: bind_ctl_with_onoff_def Let_def lamp_elem elem_ok_sel intro!: lamp_upd elem_ok_upd)
  have "lamp_g (bind_ctl_with_onoff e t g)" if "lamp_g g" for g
  proof (cases e)
    case (Suc k)
    have "upd_elem e f g = g" for f using that Suc by (auto simp: lamp_g_def upd_elem_def upd_at_def)
    then show ?thesis using that by (simp add: bind_ctl_with_onoff_def Let_def)
  qed (use 2 that in simp)
  then show "lamp_g g \<Longrightarrow> lamp_g (gen_onoff_operation e t g)" using 1 by (simp add: gen_onoff_operation_def)
qed

lemma lamp_bind: "lamp_g g \<Longrightarrow> lamp_g (model_bind_operation i e t g)"
proof -
  assume g: "lamp_g g"
  have 1: "lamp_g (bind_onoff_with_ctl e t g)"
    unfolding bind_onoff_with_ctl_def using g by (auto intro!: lamp_bind_onoff lamp_upd elem_ok_upd simp: elem_ok_sel)
  have 2: "lamp_g (bind_onoff_with_lightness e t g)"
    using g by (cases t) (auto simp: bind_onoff_with_lightness_def Let_def elem_ok_sel state_ok_def intro!: lamp_upd elem_ok_upd)
  show ?thesis using 1 2 g lamp_bind_onoff
    by (cases i) (simp_all add: model_bind_operation_def bind_handler_def lightness_actual_operation_def light_ctl_temperature_operation_def)
qed

lemma onoff_range: "drop_bit 1 (x :: u8) = 0 \<Longrightarrow> x \<le> 1"
proof -
  assume "drop_bit 1 x = 0"
  then have "unat x div 2 = 0" using unat_shift [of 1 x] by simp
  then show ?thesis by (simp add: word_le_nat_alt)
qed

lemma temp_checked: "\<not> t < CTL_TEMP_MIN \<Longrightarrow> \<not> CTL_TEMP_MAX < t \<Longrightarrow> temp_ok t"
  by (simp add: temp_ok_def not_less)

lemma onoff_analyze_ok: "lamp_g g \<Longrightarrow> lamp_g (snd (snd (gen_onoff_analyze m src buf g)))"
  by (auto simp: gen_onoff_analyze_def Let_def case_prod_beta elem_ok_sel onoff_range intro!: lamp_bind lamp_upd elem_ok_upd)

lemma lightness_analyze_ok: "lamp_g g \<Longrightarrow> lamp_g (snd (snd (lightness_analyze m src buf g)))"
  by (auto simp: lightness_analyze_def Let_def case_prod_beta elem_okD intro!: lamp_bind lamp_upd elem_ok_upd)

lemma ctl_analyze_ok: "lamp_g g \<Longrightarrow> lamp_g (snd (snd (ctl_analyze m src buf g)))"
  by (auto simp: ctl_analyze_def Let_def case_prod_beta elem_ok_sel elem_okD temp_checked intro!: lamp_bind lamp_upd elem_ok_upd)

section \<open>Events keep the ranges\<close>

lemma on_sel [simp]:
  "ap_g (on_g f a) = f (ap_g a)" "ap_powerup (on_g f a) = ap_powerup a" "ap_flash (on_g f a) = ap_flash a"
  "ap_g (on_flash h a) = ap_g a" "ap_powerup (on_flash h a) = ap_powerup a"
  "ap_g (on_elem e u a) = upd_elem e u (ap_g a)" "ap_powerup (on_elem e u a) = ap_powerup a" "ap_flash (on_elem e u a) = ap_flash a"
  "ap_g (app_mesh k a) = on_mesh k (ap_g a)" "ap_powerup (app_mesh k a) = ap_powerup a" "ap_flash (app_mesh k a) = ap_flash a"
  by (simp_all add: on_g_def on_flash_def on_elem_def app_mesh_def)

lemma lamp_frame: "lamp_view (ap_g a') = lamp_view (ap_g a) \<Longrightarrow> ap_powerup a' = ap_powerup a \<Longrightarrow> lamp_ok a' = lamp_ok a"
  by (simp add: lamp_ok_def lamp_view_ok [of "ap_g a'" "ap_g a"])

lemma lamp_on_elem:
  "lamp_ok a \<Longrightarrow> (elem_ok (app_elem a 0) \<Longrightarrow> elem_ok (f (app_elem a 0))) \<Longrightarrow> lamp_ok (on_elem e f a)"
  by (simp add: lamp_ok_def app_elem_def lamp_upd)

lemma toward_range: "toward d cur tar c \<Longrightarrow> temp_ok cur \<Longrightarrow> temp_ok tar \<Longrightarrow> temp_ok c"
  by (cases "cur < tar") (auto simp: toward_def temp_ok_def word_le_nat_alt word_less_nat_alt)

lemma calc_ok: "calc_cur_state now el = Some (cycle, el') \<Longrightarrow> elem_ok el \<Longrightarrow> elem_ok el'"
proof -
  assume c: "calc_cur_state now el = Some (cycle, el')" and ok: "elem_ok el"
  let ?s = "step_onoff (el_state el)"
  have s: "state_ok ?s" "temp_tar ?s = temp_tar (el_state el)" using elem_okD(1) [OF ok] by (auto simp: step_onoff_def state_ok_def)
  have t: "temp_ok (step_temp k (temp_cur ?s) (temp_tar ?s))" for k
    by (rule toward_range [OF step_temp_toward]) (use s(1) in \<open>simp_all add: state_ok_def temp_ok_def\<close>)
  show ?thesis using c ok s(1) t unfolding calc_cur_state_def
    by (auto simp: Let_def elem_ok_def state_ok_def split: if_splits)
qed

lemma lamp_ok_frame [simp]:
  "lamp_ok (on_flash h a) = lamp_ok a" "lamp_ok (app_mesh k a) = lamp_ok a" "lamp_ok (app_fault a) = lamp_ok a"
  "lamp_ok (on_g (log_call c) a) = lamp_ok a" "lamp_ok (on_g (\<lambda>g. g\<lparr>ga_provisioned := b\<rparr>) a) = lamp_ok a"
  "lamp_ok (on_g (\<lambda>g. g\<lparr>ga_in_prov := b\<rparr>) a) = lamp_ok a" "lamp_ok (on_g genie_indicate_hw_reset_event a) = lamp_ok a"
  "lamp_ok (on_g (standart_indication e) a) = lamp_ok a"
  "lamp_ok (on_g (set_flag f) a) = lamp_ok a" "lamp_ok (on_g (vendor_model_msg_check_tid tid) a) = lamp_ok a"
  "lamp_ok (genie_pbadv_timer_start a) = lamp_ok a" "lamp_ok (genie_pbadv_timer_stop a) = lamp_ok a"
  "lamp_ok (genie_prov_timer_start a) = lamp_ok a" "lamp_ok (genie_prov_timer_stop a) = lamp_ok a"
  "lamp_ok (genie_reset_done a) = lamp_ok a" "lamp_ok (genie_reset_set_flag x a) = lamp_ok a"
  "lamp_ok (genie_reset_write_count x a) = lamp_ok a" "lamp_ok (led_flash n r a) = lamp_ok a" "lamp_ok (led_ctrl e a) = lamp_ok a"
  by (rule lamp_frame; simp add: app_fault_def genie_pbadv_timer_start_def genie_pbadv_timer_stop_def genie_prov_timer_start_def
      genie_prov_timer_stop_def genie_reset_done_def genie_reset_set_flag_def genie_reset_write_count_def led_flash_def led_ctrl_def Let_def)+

lemma lamp_ok_more [simp]:
  "lamp_ok (genie_reset_prov a) = lamp_ok a" "lamp_ok (prov_enable a) = lamp_ok a" "lamp_ok (genie_reset_clean_count a) = lamp_ok a"
  "lamp_ok (write_net_keys n a) = lamp_ok a" "lamp_ok (save_mesh_data img status a) = lamp_ok a" "lamp_ok (handle_hw_reset_start a) = lamp_ok a"
  "lamp_ok (genie_pbadv_start_silent_adv a) = lamp_ok a"
  by (simp_all add: genie_reset_prov_def prov_enable_def genie_reset_clean_count_def write_net_keys_def save_mesh_data_def
      handle_hw_reset_start_def genie_pbadv_start_silent_adv_def Let_def)

lemma indicate_frame [simp]: "lamp_ok (on_g (\<lambda>g. set_flag x (h g)) a) = lamp_ok (on_g h a)" "lamp_ok (on_g (\<lambda>g. clear_flag x (h g)) a) = lamp_ok (on_g h a)"
  "lamp_ok (on_g (\<lambda>g. g) a) = lamp_ok a"
  by (rule lamp_frame; simp)+

lemma indicate_ok: "lamp_ok (on_g h a) \<Longrightarrow> lamp_ok (on_g (\<lambda>g. genie_indicate_start d 0 (h g)) a)"
  "lamp_ok a \<Longrightarrow> lamp_ok (on_g (genie_vnd_msg_handle msg) a)"
  by (simp_all add: lamp_ok_def lamp_indicate)

lemma state_ok_more [simp]:
  "state_ok (st\<lparr>st_trans := x\<rparr>) = state_ok st" "state_ok (st\<lparr>st_delay := x\<rparr>) = state_ok st"
  "state_ok (st\<lparr>delay_timer := t\<rparr>) = state_ok st" "state_ok (st\<lparr>trans_timer := t\<rparr>) = state_ok st"
  "state_ok (st\<lparr>trans_start_time := y\<rparr>) = state_ok st" "state_ok (st\<lparr>trans_end_time := y\<rparr>) = state_ok st"
  by (simp_all add: state_ok_def)

lemma elem_ok_timers [simp]: "elem_ok (mesh_timer_stop el) = elem_ok el" "elem_ok (clear_trans_para el) = elem_ok el"
  by (simp_all add: elem_ok_def mesh_timer_stop_def clear_trans_para_def)

lemma reset_elem_ok: "elem_ok el \<Longrightarrow> elem_ok (reset_elem el)"
  by (simp add: elem_ok_def reset_elem_def state_ok_def powerup_ok_def)

lemma reset_light_ok: "lamp_ok a \<Longrightarrow> lamp_ok (reset_light_para a)"
  by (auto simp: reset_light_para_def lamp_ok_def lamp_g_def reset_elem_ok list_all_iff powerup_ok_def Let_def)

lemma save_light_ok: "lamp_ok a \<Longrightarrow> lamp_ok (save_light_state 0 a)"
proof -
  assume a: "lamp_ok a"
  have e: "elem_ok (app_elem a 0)" using a by (simp add: lamp_ok_def app_elem_def lamp_elem)
  let ?st = "el_state (app_elem a 0)"
  let ?save = "\<lambda>p. p\<lparr>last_actual := (if actual_cur ?st \<noteq> 0 then actual_cur ?st else last_actual p), last_temp := temp_cur ?st, last_onoff := onoff_cur ?st\<rparr>"
  have s: "powerup_ok (?save p)" for p using elem_ok_sel [OF e] by (simp add: powerup_ok_def)
  then have "list_all powerup_ok (upd_at i ?save (ap_powerup a))" for i
    using a by (auto simp: lamp_ok_def upd_at_def list_all_iff dest: set_update_subset_insert [THEN subsetD])
  moreover have "lamp_ok (on_elem 0 (upd_powerup ?save) a)" by (rule lamp_on_elem [OF a]) (simp add: elem_ok_upd s)
  ultimately show ?thesis by (simp add: save_light_state_def Let_def lamp_ok_def)
qed

text \<open>Arguments that are elements are the element of the lamp.\<close>

fun arg_ok :: "evt_arg \<Rightarrow> bool" where
  "arg_ok (A_Elem e) = (e = 0)"
| "arg_ok _ = True"

lemma done_ok: "elem_ok el \<Longrightarrow>
    elem_ok (upd_state (\<lambda>st. st\<lparr>onoff_cur := onoff_tar st, actual_cur := actual_tar st, temp_cur := temp_tar st\<rparr>) el)"
  by (simp add: elem_ok_def state_ok_def)

lemma handlers_ok:
  assumes "lamp_ok a"
  shows "lamp_ok (snd (handle_sync 0 a))" "lamp_ok (snd (handle_delay_start e a))" "lamp_ok (snd (handle_delay_end e a))"
    "lamp_ok (snd (handle_trans_start e a))" "lamp_ok (snd (handle_trans_end e a))" "lamp_ok (snd (handle_action_done e a))"
    "lamp_ok (snd (handle_indicate e a))" "lamp_ok (snd (handle_trans_cycle 0 a))"
proof -
  show "lamp_ok (snd (handle_sync 0 a))" using assms by (simp add: handle_sync_def indicate_ok)
  show "lamp_ok (snd (handle_delay_start e a))" unfolding handle_delay_start_def snd_conv
    by (rule lamp_on_elem [OF assms]) (simp add: elem_ok_upd elem_okD)
  show "lamp_ok (snd (handle_delay_end e a))" using assms by (auto simp: handle_delay_end_def Let_def elem_ok_upd elem_okD intro!: lamp_on_elem)
  show "lamp_ok (snd (handle_trans_start e a))" using assms by (auto simp: handle_trans_start_def Let_def elem_ok_upd elem_okD intro!: lamp_on_elem)
  show "lamp_ok (snd (handle_trans_end e a))" using assms by (simp add: handle_trans_end_def lamp_on_elem)
  show "lamp_ok (snd (handle_action_done e a))" using assms by (simp add: handle_action_done_def lamp_on_elem done_ok)
  show "lamp_ok (snd (handle_indicate e a))" using assms by (simp add: handle_indicate_def)
  show "lamp_ok (snd (handle_trans_cycle 0 a))"
  proof (cases "calc_cur_state (app_now a) (app_elem a 0)")
    case (Some r)
    have "elem_ok (app_elem a 0)" using assms by (simp add: lamp_ok_def app_elem_def lamp_elem)
    then have "elem_ok (snd r)" using calc_ok Some by (cases r) auto
    then show ?thesis using assms Some by (cases r) (auto simp: handle_trans_cycle_def elem_ok_upd elem_okD intro!: lamp_on_elem)
  qed (use assms in \<open>simp add: handle_trans_cycle_def\<close>)
qed

lemma genie_handle_ok:
  assumes "lamp_ok a" "arg_ok arg" "ev \<noteq> EVT_SDK_MESH_INIT"
  shows "lamp_ok (snd (snd (genie_handle img ev arg a)))" "arg_ok (fst (snd (genie_handle img ev arg a)))"
    "fst (genie_handle img ev arg a) \<noteq> EVT_SDK_MESH_INIT"
proof -
  show "lamp_ok (snd (snd (genie_handle img ev arg a)))"
    using assms handlers_ok [OF assms(1)] reset_light_ok
    by (cases ev; cases arg) (simp_all add: genie_handle_def with_elem_def Let_def case_prod_beta user_handle_def handle_sw_reset_def
        handle_hw_reset_done_def handle_pbadv_start_def handle_pbadv_timeout_def handle_silent_start_def handle_prov_start_def
        handle_prov_data_def handle_prov_success_def handle_prov_fail_def handle_appkey_add_def handle_sub_add_def handle_hb_set_def
        handle_seq_update_def handle_ais_discon_def handle_vnd_msg_def indicate_ok)
  show "arg_ok (fst (snd (genie_handle img ev arg a)))"
    using assms by (cases ev; cases arg) (simp_all add: genie_handle_def with_elem_def Let_def case_prod_beta)
  show "fst (genie_handle img ev arg a) \<noteq> EVT_SDK_MESH_INIT"
    using genie_handle_rank [of img ev arg a] assms(3) by (cases ev) auto
qed

lemma user_handle_ok:
  "lamp_ok a \<Longrightarrow> arg_ok arg \<Longrightarrow> ev \<noteq> EVT_SDK_MESH_INIT \<Longrightarrow> lamp_ok (snd (user_handle ev arg a)) \<and> fst (user_handle ev arg a) = ev"
  by (cases ev; cases arg) (simp_all add: user_handle_def reset_light_ok save_light_ok)

lemma genie_event_ok: "lamp_ok a \<Longrightarrow> arg_ok arg \<Longrightarrow> ev \<noteq> EVT_SDK_MESH_INIT \<Longrightarrow> lamp_ok (genie_event img ev arg a)"
proof (induction img ev arg a rule: genie_event.induct)
  case (1 img ev arg a)
  let ?r = "genie_handle img ev arg a"
  let ?u = "user_handle ev (fst (snd ?r)) (snd (snd ?r))"
  note h = genie_handle_ok [OF 1(3-5), of img]
  note u = user_handle_ok [OF h(1,2) 1(5)]
  let ?a = "if ignore_user_event ev then snd (snd ?r) else snd ?u"
  have a: "lamp_ok ?a" using h u by simp
  have "genie_event img ev arg a = (if fst ?r \<noteq> ev then genie_event img (fst ?r) (fst (snd ?r)) ?a else ?a)"
    by (subst genie_event.simps) (use u in \<open>simp add: Let_def\<close>)
  then show ?case using 1(2) [OF refl refl, of ?a] a h u by (simp split: if_splits)
qed

section \<open>The lamp runs\<close>

text \<open>
  The power-up record that is found in the flash at the start, when there is one. Its writers are \<^verbatim>\<open>light_state_store\<close>,
  \<^verbatim>\<open>_reset_light_para\<close> and \<^verbatim>\<open>ota_check_reboot\<close>, which write \<open>ap_powerup\<close>.
\<close>

definition stored_ok :: "flash \<Rightarrow> bool" where
  "stored_ok fl \<longleftrightarrow> (case genie_flash_read_userdata GFI_MESH_POWERUP 6 fl of
     (ret, b) \<Rightarrow> ret = GENIE_FLASH_SUCCESS \<longrightarrow> powerup_ok (powerup_of b))"

lemma powerup_roundtrip: "powerup_of (powerup_bytes p) = p"
proof -
  have "sys_get_le16 [ucast x, ucast (drop_bit 8 x)] = x" for x using get_put_le16 [of x] by (simp add: sys_put_le16_def)
  then show ?thesis by (simp add: powerup_of_def powerup_bytes_def sys_put_le16_def)
qed

lemma load_ok:
  assumes "elem_ok el" "powerup_ok p"
  shows "elem_ok (load_light_para now p el)"
proof -
  have t: "state_ok (load_targets p st)" "onoff_tar (load_targets p st) = onoff_tar st" if "state_ok st" for st
    using that assms(2) by (auto simp: load_targets_def state_ok_def powerup_ok_def Let_def)
  show ?thesis
  proof (cases "last_onoff p = 0")
    case True
    have "state_ok (load_targets p ((el_state el)\<lparr>onoff_tar := 0\<rparr>))" using elem_ok_sel [OF assms(1)] by (intro t) simp
    then have "elem_ok (upd_state (\<lambda>st. load_targets p (st\<lparr>onoff_tar := 0\<rparr>)) el)" using assms(1) by (simp add: elem_ok_def)
    then show ?thesis using True assms(2) elem_okD(2) [OF assms(1)]
      by (auto simp: load_light_para_def Let_def clear_trans_para_def elem_ok_def powerup_ok_def state_ok_def)
  next
    case False
    then show ?thesis using assms t(1) [OF elem_okD(1) [OF assms(1)]]
      by (auto simp: load_light_para_def Let_def elem_ok_def state_ok_def)
  qed
qed

lemma init_light_ok: 
  assumes "stored_ok (ap_flash a)" "list_all powerup_ok (ap_powerup a)" "\<forall>m. ga_user_data (ap_g a) m = 0" "ga_indc_elem (ap_g a) \<in> {None, Some 0}"
  shows "lamp_ok (init_light_para a)"
proof -
  let ?a = "on_g (\<lambda>g. g\<lparr>ga_elems := elem_state_init (ga_now g) 1\<rparr>) a"
  have "elem_ok (elem_state0\<lparr>elem_index := 0, el_state := set_trans n 0x41 100 (model_state0\<lparr>onoff_tar := GEN_ONOFF_DEFAULT,
      actual_tar := LIGHTNESS_DEFAULT, temp_cur := CTL_TEMP_DEFAULT, temp_tar := CTL_TEMP_DEFAULT\<rparr>)\<rparr>)" for n
    by (simp add: elem_ok_def) (simp add: state_ok_def powerup_ok_def elem_state0_def model_state0_def)
  then have 1: "lamp_ok ?a" using assms(2-4) by (simp add: lamp_ok_def lamp_g_def elem_state_init_def)
  show ?thesis
  proof (cases "genie_flash_read_userdata GFI_MESH_POWERUP 6 (ap_flash a)")
    case (Pair ret b)
    have "lamp_ok (?a\<lparr>ap_powerup := [powerup_of b]\<rparr>)" if "ret = GENIE_FLASH_SUCCESS"
      using 1 assms(1) that Pair by (simp add: lamp_ok_def stored_ok_def)
    then show ?thesis using 1 assms(1) Pair
      by (auto simp: init_light_para_def Let_def stored_ok_def app_elem_def intro!: lamp_on_elem load_ok)
  qed
qed

text \<open>What can happen to the lamp after its start: messages to its servers, expired timers and events of the mesh stack.\<close>

datatype lamp_op = L_Onoff bool model_ref bt_mesh_msg_ctx net_buf_simple | L_Lightness bool model_ref bt_mesh_msg_ctx net_buf_simple
  | L_Ctl bool model_ref bt_mesh_msg_ctx net_buf_simple | L_Vendor u8 model_ref bt_mesh_msg_ctx net_buf_simple | L_Delay | L_Cycle
  | L_Pbadv | L_Prov | L_Indicate | L_Reset | L_Store | L_Led | L_Event E_GENIE_EVENT evt_arg | L_Time nat

fun lamp_do :: "net_image \<Rightarrow> lamp_op \<Rightarrow> app \<Rightarrow> app" where
  "lamp_do img (L_Onoff ack m ctx buf) a = snd (snd ((if ack then gen_onoff_set img else gen_onoff_set_unack img) m ctx buf a))"
| "lamp_do img (L_Lightness ack m ctx buf) a = snd (snd ((if ack then lightness_set img else lightness_set_unack img) m ctx buf a))"
| "lamp_do img (L_Ctl ack m ctx buf) a = snd (snd ((if ack then ctl_set img else ctl_set_unack img) m ctx buf a))"
| "lamp_do img (L_Vendor opid m ctx buf) a = snd (snd (vendor_model_pass img opid m ctx buf a))"
| "lamp_do img L_Delay a = mesh_delay_timer_cb img 0 a"
| "lamp_do img L_Cycle a = mesh_trans_timer_cycle img 0 a"
| "lamp_do img L_Pbadv a = genie_pbadv_timer_cb img a"
| "lamp_do img L_Prov a = genie_prov_timer_cb img a"
| "lamp_do img L_Indicate a = genie_indicate_cb img a"
| "lamp_do img L_Reset a = genie_reset_timer img a"
| "lamp_do img L_Store a = light_state_store a"
| "lamp_do img L_Led a = led_flash_timer_cb a"
| "lamp_do img (L_Event ev arg) a = genie_event img ev arg a"
| "lamp_do img (L_Time now) a = app_mesh (\<lambda>s. s\<lparr>ms_now := now\<rparr>) a"

text \<open>The start is raised once, by \<^verbatim>\<open>_genie_mesh_ready\<close>; an element in an argument is the lamp's.\<close>

fun lamp_op_ok :: "lamp_op \<Rightarrow> bool" where
  "lamp_op_ok (L_Event ev arg) = (ev \<noteq> EVT_SDK_MESH_INIT \<and> arg_ok arg)"
| "lamp_op_ok _ = True"

definition lamp_run :: "net_image \<Rightarrow> lamp_op list \<Rightarrow> app \<Rightarrow> app" where
  "lamp_run img ops a = fold (lamp_do img) ops a"

lemma lamp_ok_g: "lamp_ok a \<Longrightarrow> lamp_g g \<Longrightarrow> lamp_ok (a\<lparr>ap_g := g\<rparr>)" "lamp_ok a \<Longrightarrow> lamp_g (ap_g a)"
  by (simp_all add: lamp_ok_def)

lemma status_frame: "lamp_g (snd (model_status prep n m ctx ack g)) = lamp_g g"
  by (rule lamp_view_ok) (simp add: model_status_def Let_def case_prod_beta)

lemma set_ok:
  assumes "lamp_ok a" "lamp_g (snd (snd (analyze m (cx_addr ctx) buf (ap_g a))))" "\<And>ctx ack g. lamp_g (snd (status m ctx ack g)) = lamp_g g"
  shows "lamp_ok (snd (snd (model_set img analyze status m ctx buf a)))" "lamp_ok (snd (snd (model_set_unack img analyze m ctx buf a)))"
  using assms lamp_elem(2) by (auto simp: model_set_def model_set_unack_def Let_def case_prod_beta intro!: genie_event_ok lamp_ok_g(1))

lemma indicate_cb_ok: "lamp_ok a \<Longrightarrow> lamp_ok (genie_indicate_cb img a)"
proof -
  assume a: "lamp_ok a"
  then have "arg_ok (case ga_indc_elem (ap_g a) of Some e \<Rightarrow> A_Elem e | None \<Rightarrow> A_None)" by (auto simp: lamp_ok_def lamp_g_def)
  then show ?thesis using a by (auto simp: genie_indicate_cb_def Let_def intro!: genie_event_ok)
qed

section \<open>The start\<close>

text \<open>What the start leaves alone before the application is told: the models' elements, the saved values, the user data.\<close>

definition start_view :: "app \<Rightarrow> (model_ref \<Rightarrow> nat) \<times> model_powerup_t list \<times> bytes" where
  "start_view a = (ga_user_data (ap_g a), ap_powerup a, fl_mem (ap_flash a) PART_USERDATA)"

lemma start_view_frame [simp]:
  "start_view (app_mesh k a) = start_view a" "start_view (on_g (log_call c) a) = start_view a"
  "start_view (on_flash (genie_flash_write_reliable i d) a) = start_view a" "start_view (on_flash (genie_flash_delete_reliable i) a) = start_view a"
  "start_view (on_flash genie_flash_reset_system a) = start_view a" "start_view (prov_enable a) = start_view a"
  "start_view (ais_check_ota_change a) = start_view a"
  "start_view (on_g (\<lambda>g. genie_indicate_start d' e (set_flag x g)) a) = start_view a"
  by (simp_all add: start_view_def prov_enable_def ais_check_ota_change_def on_flash_def on_mesh_def log_call_def genie_indicate_start_def
      set_flag_def bt_rand1_def Let_def)

lemma start_view_keys [simp]: "start_view (write_net_keys n a) = start_view a" "start_view (snd (genie_sub_list_init a)) = start_view a"
  "start_view (snd (read_stored img a)) = start_view a"
proof -
  have f: "start_view (on_flash (genie_flash_write_devkey d) a) = start_view a" "start_view (on_flash (genie_flash_write_netkey n) a) = start_view a"
    "start_view (on_flash (genie_flash_write_appkey k) a) = start_view a" "start_view (on_flash (genie_flash_write_sub s) a) = start_view a" for a d n k s
    using start_view_frame(3) [of GFI_MESH_DEVKEY "take 16 d" a] start_view_frame(3) [of GFI_MESH_NETKEY "netkey_bytes n" a]
      start_view_frame(3) [of GFI_MESH_APPKEY "appkey_bytes k" a] start_view_frame(3) [of GFI_MESH_SUB "sub_bytes (take CONFIG_BT_MESH_MODEL_GROUP_COUNT s)" a]
    by (simp_all add: on_flash_def genie_flash_write_devkey_def genie_flash_write_netkey_def genie_flash_write_appkey_def genie_flash_write_sub_def)
  show k: "start_view (write_net_keys n a) = start_view a" for n a by (simp add: write_net_keys_def f Let_def)
  show "start_view (snd (genie_sub_list_init a)) = start_view a" by (simp add: genie_sub_list_init_def f Let_def case_prod_beta)
  show "start_view (snd (read_stored img a)) = start_view a" by (simp add: read_stored_def k Let_def case_prod_beta)
qed

lemma start_view_init [simp]: "start_view (snd (handle_mesh_init img a)) = start_view a"
proof -
  have "start_view (snd (start_provisioned sd a)) = start_view a" for sd a
    by (simp add: start_provisioned_def Let_def case_prod_beta)
  then show ?thesis by (simp add: handle_mesh_init_def Let_def case_prod_beta)
qed

lemma start_indc: "ga_indc_elem (ap_g a) \<in> {None, Some 0} \<Longrightarrow> ga_indc_elem (ap_g (snd (handle_mesh_init img a))) \<in> {None, Some 0}"
proof -
  assume a: "ga_indc_elem (ap_g a) \<in> {None, Some 0}"
  have r: "ga_indc_elem (ap_g (snd (read_stored img b))) = ga_indc_elem (ap_g b)" for b
    by (simp add: read_stored_def write_net_keys_def Let_def case_prod_beta on_mesh_def)
  have "ga_indc_elem (ap_g (snd (start_provisioned sd b))) \<in> {None, Some 0}" if "ga_indc_elem (ap_g b) \<in> {None, Some 0}" for sd b
    using that by (auto simp: start_provisioned_def genie_sub_list_init_def Let_def case_prod_beta on_mesh_def log_call_def genie_indicate_start_def)
  then show ?thesis using a r [of "ais_check_ota_change a"]
    by (auto simp: handle_mesh_init_def Let_def case_prod_beta prov_enable_def on_mesh_def log_call_def ais_check_ota_change_def)
qed

text \<open>Memory after a reset of the board: the models point at the lamp's element, no indication is under way.\<close>

definition boot_ok :: "app \<Rightarrow> bool" where
  "boot_ok a \<longleftrightarrow> stored_ok (ap_flash a) \<and> list_all powerup_ok (ap_powerup a) \<and> (\<forall>m. ga_user_data (ap_g a) m = 0) \<and>
     ga_indc_elem (ap_g a) = None"

lemma lamp_ok_due [simp]: "lamp_ok (a\<lparr>ap_store_due := x\<rparr>) = lamp_ok a" "lamp_ok (a\<lparr>ap_led_flash := l\<rparr>) = lamp_ok a"
  by (simp_all add: lamp_ok_def)

lemma start_ok: "boot_ok a \<Longrightarrow> lamp_ok (genie_event img EVT_SDK_MESH_INIT arg a)"
proof -
  assume a: "boot_ok a"
  let ?r = "handle_mesh_init img a"
  let ?b = "on_g (log_call Call_Led_Init) (snd ?r)"
  let ?u = "user_init (init_light_para ?b)"
  have v: "start_view ?b = start_view a" by simp
  then have "stored_ok (ap_flash ?b)"
    using a read_userdata_cong [of "ap_flash ?b" "ap_flash a"] by (simp add: boot_ok_def stored_ok_def start_view_def)
  moreover have "ga_indc_elem (ap_g ?b) \<in> {None, Some 0}" using a start_indc [of a img] by (simp add: boot_ok_def log_call_def)
  ultimately have "lamp_ok (init_light_para ?b)" using v a by (intro init_light_ok) (simp_all add: boot_ok_def start_view_def)
  then have u: "lamp_ok ?u" by (simp add: user_init_def Let_def)
  let ?a = "if genie_reset_get_flag ?u = 0 then genie_event img EVT_SDK_ANALYZE_MSG (A_Elem 0) ?u else ?u"
  have "genie_event img EVT_SDK_MESH_INIT arg a =
      (if fst ?r \<noteq> EVT_SDK_MESH_INIT then genie_event img (fst ?r) (A_Elem 0) ?a else ?a)"
    by (subst genie_event.simps) (simp add: genie_handle_def user_handle_def ignore_user_event_def Let_def case_prod_beta)
  moreover have "lamp_ok ?a" using u by (auto intro: genie_event_ok)
  ultimately show ?thesis by (auto intro: genie_event_ok)
qed

lemma lamp_do_ok: "lamp_ok a \<Longrightarrow> lamp_op_ok p \<Longrightarrow> lamp_ok (lamp_do img p a)"
proof (cases p)
  case (L_Onoff ack m ctx buf)
  then show "lamp_ok a \<Longrightarrow> ?thesis"
    using set_ok [of a gen_onoff_analyze m ctx buf gen_onoff_status img] onoff_analyze_ok [of "ap_g a"]
    by (auto simp: gen_onoff_set_def gen_onoff_set_unack_def gen_onoff_status_def status_frame lamp_ok_g)
next
  case (L_Lightness ack m ctx buf)
  then show "lamp_ok a \<Longrightarrow> ?thesis"
    using set_ok [of a lightness_analyze m ctx buf lightness_status img] lightness_analyze_ok [of "ap_g a"]
    by (auto simp: lightness_set_def lightness_set_unack_def lightness_status_def status_frame lamp_ok_g)
next
  case (L_Ctl ack m ctx buf)
  then show "lamp_ok a \<Longrightarrow> ?thesis"
    using set_ok [of a ctl_analyze m ctx buf ctl_status img] ctl_analyze_ok [of "ap_g a"]
    by (auto simp: ctl_set_def ctl_set_unack_def ctl_status_def status_frame lamp_ok_g)
next
  case (L_Vendor opid m ctx buf)
  then show "lamp_ok a \<Longrightarrow> ?thesis"
    by (auto simp: vendor_model_pass_def vendor_model_analyze_def Let_def case_prod_beta lamp_ok_g intro!: genie_event_ok)
next
  case L_Cycle
  then show "lamp_ok a \<Longrightarrow> ?thesis"
    by (auto simp: mesh_trans_timer_cycle_def Let_def elem_ok_upd elem_okD intro!: genie_event_ok lamp_on_elem)
next
  case L_Led
  have "lamp_ok (led_flash_timer_cb a) = lamp_ok a" by (simp add: led_flash_timer_cb_def Let_def)
  then show "lamp_ok a \<Longrightarrow> ?thesis" using L_Led by simp
qed (auto simp: mesh_delay_timer_cb_def genie_pbadv_timer_cb_def genie_prov_timer_cb_def genie_reset_timer_def genie_reset_done_cb_def
    genie_reset_timer_cb_def light_state_store_def Let_def case_prod_beta intro!: genie_event_ok lamp_on_elem indicate_cb_ok)

text \<open>
  C11. The state of the lamp is well-typed. Whatever follows the start of the mesh (Set messages of any content to the three
  light servers and to the vendor model, timers that expire, events of the stack, in any order and any number), the on/off values of the
  element are 0 or 1, its colour temperatures lie between 800 and 20000, and what would be saved for the next
  start is such a value too, provided that a power-up record found in the flash is well-typed.
\<close>

theorem lamp_state_typed:
  assumes "boot_ok a" "list_all lamp_op_ok ops"
  shows "lamp_ok (lamp_run img ops (genie_event img EVT_SDK_MESH_INIT A_None a))"
proof -
  have "lamp_ok (lamp_run img ops b)" if "lamp_ok b" "list_all lamp_op_ok ops" for ops b
    using that by (induction ops arbitrary: b) (simp_all add: lamp_run_def lamp_do_ok)
  then show ?thesis using start_ok assms by blast
qed

section \<open>A Set message reaches its target\<close>

definition action_done :: "model_state_t \<Rightarrow> model_state_t" where
  "action_done st = st\<lparr>onoff_cur := onoff_tar st, actual_cur := actual_tar st, temp_cur := temp_tar st\<rparr>"

lemma view_elem: "lamp_view (ap_g a) = lamp_view (ap_g b) \<Longrightarrow> app_elem a e = app_elem b e"
  by (simp add: lamp_view_def app_elem_def get_elem_def)

lemma event_indicate: "lamp_view (ap_g (genie_event img EVT_SDK_INDICATE (A_Elem e) a)) = lamp_view (ap_g a)"
  by (subst genie_event.simps)
    (simp add: genie_handle_def with_elem_def handle_indicate_def user_handle_def ignore_user_event_def Let_def)

lemma event_action_done:
  assumes "lamp_ok a"
  shows "el_state (app_elem (genie_event img EVT_SDK_ACTION_DONE (A_Elem 0) a) 0) = action_done (el_state (app_elem a 0))"
proof -
  let ?b = "snd (handle_action_done 0 a)"
  let ?c = "save_light_state 0 (led_ctrl 0 ?b)"
  have l: "0 < length (ga_elems (ap_g a))" using assms lamp_elem(3) [of "ap_g a"] by (simp add: lamp_ok_def)
  have lv: "lamp_view (ap_g (led_ctrl 0 ?b)) = lamp_view (ap_g ?b)" by (simp add: led_ctrl_def Let_def)
  then have ll: "0 < length (ga_elems (ap_g (led_ctrl 0 ?b)))" using l by (simp add: lamp_view_def handle_action_done_def)
  have "el_state (app_elem ?c 0) = el_state (app_elem (led_ctrl 0 ?b) 0)"
    using ll by (simp add: save_light_state_def app_elem_def Let_def)
  also have "\<dots> = action_done (el_state (app_elem a 0))"
    using view_elem [OF lv, of 0] l by (simp add: handle_action_done_def app_elem_def action_done_def)
  finally have c: "el_state (app_elem ?c 0) = action_done (el_state (app_elem a 0))" .
  have "genie_event img EVT_SDK_ACTION_DONE (A_Elem 0) a =
      (if bt_mesh_is_provisioned (ga_mesh (ap_g a)) then genie_event img EVT_SDK_INDICATE (A_Elem 0) ?c else ?c)"
    by (subst genie_event.simps)
      (simp add: genie_handle_def with_elem_def user_handle_def ignore_user_event_def Let_def case_prod_beta, simp add: handle_action_done_def)
  then show ?thesis using c view_elem [OF event_indicate] by simp
qed

lemma event_analyze:
  assumes "lamp_ok a"
  shows "el_state (app_elem (genie_event img EVT_SDK_ANALYZE_MSG (A_Elem 0) a) 0) =
    (if st_trans (el_state (app_elem a 0)) = 0 \<and> st_delay (el_state (app_elem a 0)) = 0 then action_done (el_state (app_elem a 0))
     else el_state (app_elem (genie_event img (handle_analyze_msg 0 a) (A_Elem 0) a) 0))"
proof -
  have "handle_analyze_msg 0 a \<noteq> EVT_SDK_ANALYZE_MSG" by (simp add: handle_analyze_msg_def Let_def)
  then have "genie_event img EVT_SDK_ANALYZE_MSG (A_Elem 0) a = genie_event img (handle_analyze_msg 0 a) (A_Elem 0) a"
    by (subst genie_event.simps) (simp add: genie_handle_def with_elem_def user_handle_def ignore_user_event_def Let_def)
  then show ?thesis using event_action_done [OF assms] by (simp add: handle_analyze_msg_def Let_def)
qed

lemma event_delay_start:
  assumes "lamp_ok a"
  shows "el_state (app_elem (genie_event img EVT_SDK_DELAY_START (A_Elem 0) a) 0) = el_state (app_elem (snd (handle_delay_start 0 a)) 0)"
  by (subst genie_event.simps)
    (simp add: genie_handle_def with_elem_def user_handle_def ignore_user_event_def Let_def case_prod_beta, simp add: handle_delay_start_def)

text \<open>The state that an accepted OnOff message asks for.\<close>

definition onoff_target :: "u8 \<Rightarrow> elem_state_t \<Rightarrow> model_state_t" where
  "onoff_target v el =
     (let st = (el_state el)\<lparr>onoff_tar := v\<rparr>; p = el_powerup el in
      if onoff_cur st = v then st
      else if v = 0 then st\<lparr>actual_tar := 0\<rparr>
      else st\<lparr>actual_tar := (if last_actual p \<noteq> 0 then last_actual p else LIGHTNESS_DEFAULT),
              temp_tar := (if temp_cur st = temp_tar st then temp_tar st else if last_temp p \<noteq> 0 then last_temp p else CTL_TEMP_DEFAULT)\<rparr>)"

definition same_values :: "model_state_t \<Rightarrow> model_state_t \<Rightarrow> bool" where
  "same_values st st' \<longleftrightarrow> onoff_cur st = onoff_cur st' \<and> onoff_tar st = onoff_tar st' \<and> actual_cur st = actual_cur st' \<and>
     actual_tar st = actual_tar st' \<and> temp_cur st = temp_cur st' \<and> temp_tar st = temp_tar st'"

definition fresh_tid :: "u16 \<Rightarrow> u8 \<Rightarrow> genie \<Rightarrow> bool" where
  "fresh_tid src tid g \<longleftrightarrow> fst (mesh_check_tid src tid g) = MESH_SUCCESS"

lemma le1_cases: "(x :: u8) \<le> 1 \<Longrightarrow> x = 0 \<or> x = 1"
proof -
  assume "x \<le> 1"
  then have "unat x = 0 \<or> unat x = 1" by (auto simp: word_le_nat_alt)
  then show ?thesis by (simp add: word_unat_eq_iff)
qed

lemma get_elem_flag [simp]: "get_elem (set_flag f g) e = get_elem g e" "get_elem (snd (mesh_check_tid src tid g)) e = get_elem g e"
  by (simp_all add: get_elem_def set_flag_def mesh_check_tid_def Let_def)

lemma len_flag [simp]: "length (ga_elems (set_flag f g)) = length (ga_elems g)" "length (ga_elems (snd (mesh_check_tid src tid g))) = length (ga_elems g)"
  by (simp_all add: set_flag_def mesh_check_tid_def Let_def)

lemma onoff_bind_effect:
  assumes "length (ga_elems g) = 1" "onoff_cur (el_state (get_elem g 0)) \<le> 1" "v \<le> 1"
    "onoff_tar (el_state (get_elem g 0)) = v" "onoff_cur (el_state (get_elem g 0)) \<noteq> v"
  shows "same_values (el_state (get_elem (gen_onoff_operation 0 T_TAR g) 0)) (onoff_target v (get_elem g 0))"
    "st_trans (el_state (get_elem (gen_onoff_operation 0 T_TAR g) 0)) = st_trans (el_state (get_elem g 0))"
    "st_delay (el_state (get_elem (gen_onoff_operation 0 T_TAR g) 0)) = st_delay (el_state (get_elem g 0))"
proof -
  have l: "0 < length (ga_elems g)" using assms(1) by simp
  consider "v = 0" "onoff_cur (el_state (get_elem g 0)) = 1" | "v = 1" "onoff_cur (el_state (get_elem g 0)) = 0"
    using le1_cases [OF assms(2)] le1_cases [OF assms(3)] assms(5) by auto
  then have "same_values (el_state (get_elem (gen_onoff_operation 0 T_TAR g) 0)) (onoff_target v (get_elem g 0)) \<and>
    st_trans (el_state (get_elem (gen_onoff_operation 0 T_TAR g) 0)) = st_trans (el_state (get_elem g 0)) \<and>
    st_delay (el_state (get_elem (gen_onoff_operation 0 T_TAR g) 0)) = st_delay (el_state (get_elem g 0))"
    by cases (use assms(4) l in \<open>simp_all add: gen_onoff_operation_def bind_lightness_with_onoff_def bind_ctl_with_onoff_def onoff_target_def
        same_values_def Let_def\<close>)
  then show "same_values (el_state (get_elem (gen_onoff_operation 0 T_TAR g) 0)) (onoff_target v (get_elem g 0))"
    "st_trans (el_state (get_elem (gen_onoff_operation 0 T_TAR g) 0)) = st_trans (el_state (get_elem g 0))"
    "st_delay (el_state (get_elem (gen_onoff_operation 0 T_TAR g) 0)) = st_delay (el_state (get_elem g 0))" by simp_all
qed

text \<open>The bytes of an OnOff message: the value, the transaction and, unless both are zero, a transition time and a delay.\<close>

definition onoff_bytes :: "u8 \<Rightarrow> u8 \<Rightarrow> u8 \<Rightarrow> u8 \<Rightarrow> bytes" where
  "onoff_bytes v tid tr d = [v, tid] @ (if tr = 0 \<and> d = 0 then [] else [tr, d])"

lemma pull_onoff:
  assumes "nb_ok buf" "nb_data buf = onoff_bytes v tid tr d"
  shows "nb_len buf = 2 \<or> nb_len buf = 4"
    "net_buf_simple_pull_u8 buf = (v, net_buf_simple_pull buf 1)"
    "net_buf_simple_pull_u8 (net_buf_simple_pull buf 1) = (tid, net_buf_simple_pull (net_buf_simple_pull buf 1) 1)"
    "\<exists>b. pull_trans (net_buf_simple_pull (net_buf_simple_pull buf 1) 1) = (tr, d, b)"
proof -
  let ?b2 = "net_buf_simple_pull (net_buf_simple_pull buf 1) 1"
  show "nb_len buf = 2 \<or> nb_len buf = 4" using length_nb_data [OF assms(1)] assms(2) by (auto simp: onoff_bytes_def split: if_splits)
  have b: "nb_data buf = v # tid # (if tr = 0 \<and> d = 0 then [] else [tr, d])" using assms(2) by (simp add: onoff_bytes_def)
  note 1 = pull_u8_Cons [OF assms(1) b]
  note 2 = pull_u8_Cons [OF 1(2,3)]
  show "net_buf_simple_pull_u8 buf = (v, net_buf_simple_pull buf 1)" by (rule 1)
  show "net_buf_simple_pull_u8 (net_buf_simple_pull buf 1) = (tid, ?b2)" by (rule 2)
  show "\<exists>b. pull_trans ?b2 = (tr, d, b)"
  proof (cases "tr = 0 \<and> d = 0")
    case True
    then show ?thesis using length_nb_data [OF 2(2)] 2(3) by (simp add: pull_trans_def)
  next
    case False
    then have b2: "nb_data ?b2 = tr # [d]" using 2(3) by simp
    note 3 = pull_u8_Cons [OF 2(2) b2]
    show ?thesis using length_nb_data [OF 2(2)] b2 3(1) pull_u8_Cons(1) [OF 3(2,3)] by (simp add: pull_trans_def)
  qed
qed

lemma onoff_analyze_effect:
  assumes "lamp_g g" "nb_ok buf" "nb_data buf = onoff_bytes v tid tr d" "v \<le> 1" "tr AND 0x3F \<noteq> 0x3F" "fresh_tid src tid g"
    "gen_onoff_analyze m src buf g = (ret, buf', g')"
  shows "ret = MESH_SUCCESS" "same_values (el_state (get_elem g' 0)) (onoff_target v (get_elem g 0))"
    "st_trans (el_state (get_elem g' 0)) = tr" "st_delay (el_state (get_elem g' 0)) = d"
proof -
  note p = pull_onoff [OF assms(2,3)]
  obtain b where b: "pull_trans (net_buf_simple_pull (net_buf_simple_pull buf 1) 1) = (tr, d, b)" using p(4) by blast
  obtain g1 where g1: "mesh_check_tid src tid g = (MESH_SUCCESS, g1)" "g1 = snd (mesh_check_tid src tid g)"
    using assms(6) by (cases "mesh_check_tid src tid g") (auto simp: fresh_tid_def)
  have e: "ga_user_data g m = 0" "elem_ok (get_elem g 0)" "length (ga_elems g1) = 1" using lamp_elem [OF assms(1)] g1(2) by simp_all
  have v: "drop_bit 1 v = 0" using le1_cases [OF assms(4)] by auto
  define g2 where "g2 = upd_elem 0 (upd_state (\<lambda>st. set_trans (ga_now g1) tr d (st\<lparr>onoff_tar := v\<rparr>))) g1"
  have s2: "el_state (get_elem g2 0) = set_trans (ga_now g1) tr d ((el_state (get_elem g 0))\<lparr>onoff_tar := v\<rparr>)"
    "el_powerup (get_elem g2 0) = el_powerup (get_elem g 0)" "length (ga_elems g2) = 1"
    using e(3) g1(2) by (simp_all add: g2_def)
  have r: "ret = MESH_SUCCESS" "g' = (if onoff_cur (el_state (get_elem g2 0)) \<noteq> onoff_tar (el_state (get_elem g2 0))
      then gen_onoff_operation 0 T_TAR (set_flag INDICATION_FLAG_ONOFF g2) else g2)"
    using assms(5,7) p(1-3) b g1(1) v e(1) by (auto simp: gen_onoff_analyze_def g2_def model_bind_operation_def bind_handler_def Let_def)
  show "ret = MESH_SUCCESS" by (rule r)
  have t: "same_values (onoff_target v (get_elem g2 0)) (onoff_target v (get_elem g 0))" using s2 by (simp add: onoff_target_def same_values_def Let_def)
  have "same_values (el_state (get_elem g' 0)) (onoff_target v (get_elem g 0)) \<and> st_trans (el_state (get_elem g' 0)) = tr \<and> st_delay (el_state (get_elem g' 0)) = d"
  proof (cases "onoff_cur (el_state (get_elem g 0)) = v")
    case True
    then show ?thesis using s2 r(2) by (simp add: same_values_def onoff_target_def)
  next
    case False
    then show ?thesis
      using onoff_bind_effect [of "set_flag INDICATION_FLAG_ONOFF g2" v] s2 r(2) t elem_ok_sel(1) [OF e(2)] assms(4) by (simp add: same_values_def)
  qed
  then show "same_values (el_state (get_elem g' 0)) (onoff_target v (get_elem g 0))" "st_trans (el_state (get_elem g' 0)) = tr"
    "st_delay (el_state (get_elem g' 0)) = d" by simp_all
qed

lemma zero_trans: "(0 :: u8) AND 0x3F \<noteq> 0x3F"
  by simp

lemma onoff_do:
  assumes "lamp_ok a" "nb_ok buf" "nb_data buf = onoff_bytes v tid tr d" "v \<le> 1" "tr AND 0x3F \<noteq> 0x3F" "fresh_tid (cx_addr ctx) tid (ap_g a)"
  obtains b where "lamp_do img (L_Onoff ack m ctx buf) a = genie_event img EVT_SDK_ANALYZE_MSG (A_Elem 0) b" "lamp_ok b"
    "same_values (el_state (app_elem b 0)) (onoff_target v (app_elem a 0))" "st_trans (el_state (app_elem b 0)) = tr" "st_delay (el_state (app_elem b 0)) = d"
proof -
  obtain ret buf' g where r: "gen_onoff_analyze m (cx_addr ctx) buf (ap_g a) = (ret, buf', g)" by (cases "gen_onoff_analyze m (cx_addr ctx) buf (ap_g a)") auto
  have g: "lamp_g (ap_g a)" "lamp_g g" using assms(1) onoff_analyze_ok [of "ap_g a" m "cx_addr ctx" buf] r by (simp_all add: lamp_ok_def)
  note e = onoff_analyze_effect [OF g(1) assms(2-6) r]
  let ?b = "a\<lparr>ap_g := if ack then snd (gen_onoff_status m ctx True g) else g\<rparr>"
  have v: "lamp_view (ap_g ?b) = lamp_view g" by (simp add: gen_onoff_status_def model_status_def Let_def case_prod_beta)
  then have u: "ga_user_data (ap_g ?b) m = 0" "get_elem (ap_g ?b) 0 = get_elem g 0" "lamp_g (ap_g ?b)"
    using lamp_elem(2) [OF g(2)] lamp_view_ok [OF v] g(2) by (simp_all add: lamp_view_def get_elem_def)
  show thesis
  proof (rule that)
    show "lamp_do img (L_Onoff ack m ctx buf) a = genie_event img EVT_SDK_ANALYZE_MSG (A_Elem 0) ?b"
      using u(1) by (cases ack) (simp_all add: gen_onoff_set_def gen_onoff_set_unack_def model_set_def model_set_unack_def r e(1) Let_def case_prod_beta)
    show "lamp_ok ?b" using assms(1) u(3) by (simp add: lamp_ok_def)
  qed (use e u(2) in \<open>simp_all add: app_elem_def\<close>)
qed

text \<open>
  C12. A Generic OnOff message without a transition takes effect at once. For a new transaction with the value 0 or 1, acknowledged or
  not, the lamp is on or off as asked when the handler returns. Switching on restores the last lightness (90 percent when
  there is none), switching off sets the lightness to zero, and a message that asks for the present
  state moves the lamp to the lightness it was heading for.
\<close>

theorem onoff_set_reaches:
  assumes "lamp_ok a" "nb_ok buf" "nb_data buf = [v, tid]" "v \<le> 1" "fresh_tid (cx_addr ctx) tid (ap_g a)"
    "st = el_state (app_elem a 0)" "st' = el_state (app_elem (lamp_do img (L_Onoff ack m ctx buf) a) 0)"
  shows "onoff_cur st' = v \<and> onoff_tar st' = v \<and> temp_cur st' = temp_tar st' \<and> actual_cur st' =
    (if onoff_cur st = v then actual_tar st else if v = 0 then 0
     else if last_actual (el_powerup (app_elem a 0)) \<noteq> 0 then last_actual (el_powerup (app_elem a 0)) else LIGHTNESS_DEFAULT)"
proof -
  have o: "nb_data buf = onoff_bytes v tid 0 0" using assms(3) by (simp add: onoff_bytes_def)
  obtain b where
    b: "lamp_do img (L_Onoff ack m ctx buf) a = genie_event img EVT_SDK_ANALYZE_MSG (A_Elem 0) b" "lamp_ok b"
      "same_values (el_state (app_elem b 0)) (onoff_target v (app_elem a 0))" "st_trans (el_state (app_elem b 0)) = 0" "st_delay (el_state (app_elem b 0)) = 0"
    by (rule onoff_do [OF assms(1,2) o assms(4) zero_trans assms(5)])
  then have "st' = action_done (el_state (app_elem b 0))" using event_analyze [OF b(2)] assms(7) by simp
  then show ?thesis using b(3) assms(6) by (auto simp: same_values_def onoff_target_def action_done_def Let_def)
qed

text \<open>
  C37. A lamp that is told to go off and, before that has happened, to stay on ends up on with lightness zero. The second message
  asks for the present value, so that the lightness, whose target the first message set to zero, is not bound to it again.
\<close>

theorem onoff_cancel_dark:
  assumes "lamp_ok a" "onoff_cur (el_state (app_elem a 0)) = 1" "nb_ok buf1" "nb_data buf1 = [0, t1, tr, d]" "tr AND 0x3F \<noteq> 0x3F" "d \<noteq> 0"
    "fresh_tid (cx_addr ctx1) t1 (ap_g a)" "a1 = lamp_do img (L_Onoff ack m ctx1 buf1) a" "nb_ok buf2" "nb_data buf2 = [1, t2]"
    "fresh_tid (cx_addr ctx2) t2 (ap_g a1)" "a2 = lamp_do img (L_Onoff ack' m ctx2 buf2) a1"
  shows "onoff_cur (el_state (app_elem a2 0)) = 1 \<and> actual_cur (el_state (app_elem a2 0)) = 0"
proof -
  have o1: "nb_data buf1 = onoff_bytes 0 t1 tr d" using assms(4,6) by (simp add: onoff_bytes_def)
  obtain b where
    b: "lamp_do img (L_Onoff ack m ctx1 buf1) a = genie_event img EVT_SDK_ANALYZE_MSG (A_Elem 0) b" "lamp_ok b"
      "same_values (el_state (app_elem b 0)) (onoff_target 0 (app_elem a 0))" "st_delay (el_state (app_elem b 0)) = d"
    by (rule onoff_do [OF assms(1,3) o1 word_zero_le assms(5,7)])
  have l: "0 < length (ga_elems (ap_g b))" using b(2) lamp_elem(3) [of "ap_g b"] by (simp add: lamp_ok_def)
  have "handle_analyze_msg 0 b = EVT_SDK_DELAY_START" using b(4) assms(6) by (simp add: handle_analyze_msg_def Let_def)
  then have "same_values (el_state (app_elem a1 0)) (onoff_target 0 (app_elem a 0))"
    using event_analyze [OF b(2), of img] event_delay_start [OF b(2), of img] b(1,3,4) assms(6,8) l
    by (simp add: handle_delay_start_def app_elem_def same_values_def mesh_timer_stop_def)
  then have v: "onoff_cur (el_state (app_elem a1 0)) = 1" "actual_tar (el_state (app_elem a1 0)) = 0"
    using assms(2) by (simp_all add: same_values_def onoff_target_def)
  have a1: "lamp_ok a1" unfolding assms(8) by (rule lamp_do_ok [OF assms(1)]) simp
  have o2: "nb_data buf2 = onoff_bytes 1 t2 0 0" using assms(10) by (simp add: onoff_bytes_def)
  obtain c where
    c: "lamp_do img (L_Onoff ack' m ctx2 buf2) a1 = genie_event img EVT_SDK_ANALYZE_MSG (A_Elem 0) c" "lamp_ok c" "same_values (el_state (app_elem c 0)) (onoff_target 1 (app_elem a1 0))"
      "st_trans (el_state (app_elem c 0)) = 0" "st_delay (el_state (app_elem c 0)) = 0"
    by (rule onoff_do [OF a1 assms(9) o2 order_refl zero_trans assms(11)])
  then have "el_state (app_elem a2 0) = action_done (el_state (app_elem c 0))" using event_analyze [OF c(2)] assms(12) by simp
  then show ?thesis using c(3) v by (simp add: same_values_def onoff_target_def action_done_def)
qed

section \<open>A lamp to look at\<close>

text \<open>A lamp that is on, with erased flash memory, and a layout of \<^verbatim>\<open>struct bt_mesh_net\<close> of one byte.\<close>

definition img_demo :: net_image where
  "img_demo = \<lparr>ni_size = 1, ni_put = (\<lambda>n. [0]), ni_get = (\<lambda>b. bt_mesh_net0)\<rparr>"

definition lamp_demo :: app where
  "lamp_demo = \<lparr>ap_g = genie0\<lparr>ga_elems := [elem_state0\<lparr>el_state := model_state0\<lparr>onoff_cur := 1, onoff_tar := 1, actual_cur := 0x8000,
       actual_tar := 0x8000, temp_cur := 5000, temp_tar := 5000\<rparr>\<rparr>]\<rparr>,
     ap_flash = flash_demo, ap_powerup = [\<lparr>last_onoff = 1, last_actual = 0x8000, last_temp = 5000\<rparr>], ap_reset_flag = 0,
     ap_reset_timer = k_timer_init, ap_reset_done = False, ap_store_due = None, ap_led_last = (1, 0x8000, 5000),
     ap_led_flash = \<lparr>lf_timer = k_timer_init, lf_temp_cur = 0, lf_temp_tar = 0, lf_actual_start = 0, lf_actual_cur = 0, lf_actual_tar = 0,
       lf_time_end = 0\<rparr>\<rparr>"

definition lamp_ctx :: bt_mesh_msg_ctx where
  "lamp_ctx = \<lparr>cx_net_idx = 0, cx_app_idx = 0, cx_addr = 0x0100, cx_recv_ttl = 5, cx_send_rel = False, cx_send_ttl = 5\<rparr>"

definition lamp_buf :: "bytes \<Rightarrow> net_buf_simple" where
  "lamp_buf b = \<lparr>nb_buf = b, nb_off = 0, nb_len = length b, nb_fault = False\<rparr>"

lemma lamp_buf_ok: "length b < 65536 \<Longrightarrow> nb_ok (lamp_buf b)" "nb_data (lamp_buf b) = b"
  by (simp_all add: lamp_buf_def nb_ok_def nb_data_def get_bytes_def)

lemma lamp_demo_ok: "lamp_ok lamp_demo"
  by (simp add: lamp_demo_def lamp_ok_def lamp_g_def genie0_def elem_ok_def state_ok_def powerup_ok_def temp_ok_def elem_state0_def
      CTL_TEMP_MIN_def CTL_TEMP_MAX_def)

lemma lamp_demo_boot: "boot_ok lamp_demo"
proof -
  have "fst (genie_flash_read_userdata GFI_MESH_POWERUP 6 flash_demo) \<noteq> GENIE_FLASH_SUCCESS"
    by (simp add: genie_flash_read_userdata_def genie_flash_read_def CELL_PREPEAR_USERDATA_def CELL_PREPEAR_def)
       (subst genie_flash_search.simps, simp add: genie_flash_get_header_def hal_flash_read_def flash_demo_def get_header_def next_cell_def
         GENIE_FLASH_SIZE_INITED_FLAG_def GENIE_FLASH_SIZE_USERDATA_def GENIE_FLASH_FLAG_ACTIVE_def GENIE_FLASH_FLAG_UNSED_def Let_def)
  then show ?thesis by (simp add: boot_ok_def stored_ok_def lamp_demo_def genie0_def powerup_ok_def temp_ok_def CTL_TEMP_MIN_def CTL_TEMP_MAX_def
      case_prod_beta)
qed

theorem lamp_state_typed_witness:
  "lamp_ok (lamp_run img_demo [L_Ctl False (0, False, 4) lamp_ctx (lamp_buf [0, 0, 0x20, 0x4E, 0, 0, 1, 0x41, 0]), L_Time 500, L_Cycle, L_Store]
     (genie_event img_demo EVT_SDK_MESH_INIT A_None lamp_demo))"
  by (rule lamp_state_typed [OF lamp_demo_boot]) simp

lemma demo_fresh: "fresh_tid 0x0100 7 (ap_g lamp_demo)"
  by (simp add: fresh_tid_def mesh_check_tid_def lamp_demo_def genie0_def tid_recent_def tid_src_def RECV_MSG_TID_QUEUE_SIZE_def upt_rec Let_def)

theorem onoff_set_reaches_witness:
  "onoff_cur (el_state (app_elem (lamp_do img_demo (L_Onoff True (0, False, 2) lamp_ctx (lamp_buf [0, 7])) lamp_demo) 0)) = 0"
  using onoff_set_reaches [OF lamp_demo_ok lamp_buf_ok(1) lamp_buf_ok(2), of 0 7 lamp_ctx _ _ img_demo True "(0, False, 2)"] demo_fresh
  by (simp add: lamp_ctx_def)

lemma delay_event: "handle_analyze_msg 0 a = EVT_SDK_DELAY_START \<Longrightarrow>
    genie_event img EVT_SDK_ANALYZE_MSG (A_Elem 0) a = snd (handle_delay_start 0 a)"
proof -
  assume h: "handle_analyze_msg 0 a = EVT_SDK_DELAY_START"
  have "genie_event img EVT_SDK_ANALYZE_MSG (A_Elem 0) a = genie_event img EVT_SDK_DELAY_START (A_Elem 0) a"
    by (subst genie_event.simps) (simp add: genie_handle_def with_elem_def user_handle_def ignore_user_event_def Let_def h)
  also have "\<dots> = snd (handle_delay_start 0 a)"
    by (subst genie_event.simps)
      (simp add: genie_handle_def with_elem_def user_handle_def ignore_user_event_def Let_def case_prod_beta, simp add: handle_delay_start_def)
  finally show ?thesis .
qed

text \<open>What decides whether a transaction is new.\<close>

definition tid_view :: "genie \<Rightarrow> tid_entry list \<times> nat \<times> mesh" where
  "tid_view g = (ga_tid_queue g, ga_tid_index g, ga_mesh g)"

lemma tid_view_simps [simp]: "tid_view (upd_elem e f g) = tid_view g" "tid_view (set_flag x g) = tid_view g"
  by (simp_all add: tid_view_def upd_elem_def set_flag_def)

lemma tid_view_bind [simp]: "tid_view (gen_onoff_operation e t g) = tid_view g"
  by (simp add: gen_onoff_operation_def bind_lightness_with_onoff_def bind_ctl_with_onoff_def Let_def)

lemma fresh_view: "tid_view g = tid_view g' \<Longrightarrow> fresh_tid src t g = fresh_tid src t g'"
  by (simp add: tid_view_def fresh_tid_def mesh_check_tid_def ga_now32_def ga_now_def Let_def)

lemma analyze_tid:
  assumes "nb_ok buf" "nb_data buf = onoff_bytes v tid tr d" "fst (gen_onoff_analyze m src buf g) = MESH_SUCCESS"
  shows "tid_view (snd (snd (gen_onoff_analyze m src buf g))) = tid_view (snd (mesh_check_tid src tid g))"
proof -
  note p = pull_onoff [OF assms(1,2)]
  obtain b where "pull_trans (net_buf_simple_pull (net_buf_simple_pull buf 1) 1) = (tr, d, b)" using p(4) by blast
  then show ?thesis using p(1-3) assms(3)
    by (auto simp: gen_onoff_analyze_def model_bind_operation_def bind_handler_def Let_def case_prod_beta split: if_splits)
qed

lemma cancel_demo_fresh:
  "fresh_tid 0x0100 8 (ap_g (lamp_do img_demo (L_Onoff False (0, False, 2) lamp_ctx (lamp_buf [0, 7, 0, 10])) lamp_demo))"
proof -
  let ?buf = "lamp_buf [0, 7, 0, 10]" and ?m = "(0, False, 2) :: model_ref"
  obtain ret b g where r: "gen_onoff_analyze ?m 0x0100 ?buf (ap_g lamp_demo) = (ret, b, g)"
    by (cases "gen_onoff_analyze ?m 0x0100 ?buf (ap_g lamp_demo)") auto
  have o: "nb_data ?buf = onoff_bytes 0 7 0 10" by (simp add: lamp_buf_ok onoff_bytes_def)
  have k: "nb_ok ?buf" by (rule lamp_buf_ok) simp
  have g: "lamp_g (ap_g lamp_demo)" "lamp_g g" using lamp_demo_ok onoff_analyze_ok [of "ap_g lamp_demo" ?m "0x0100" ?buf] r by (simp_all add: lamp_ok_def)
  note e = onoff_analyze_effect [OF g(1) k o word_zero_le zero_trans demo_fresh r]
  have "handle_analyze_msg 0 (lamp_demo\<lparr>ap_g := g\<rparr>) = EVT_SDK_DELAY_START" using e(4) by (simp add: handle_analyze_msg_def app_elem_def Let_def)
  then have "lamp_do img_demo (L_Onoff False ?m lamp_ctx ?buf) lamp_demo = snd (handle_delay_start 0 (lamp_demo\<lparr>ap_g := g\<rparr>))"
    using e(1) r lamp_elem(2) [OF g(2)] by (simp add: gen_onoff_set_unack_def model_set_unack_def lamp_ctx_def delay_event)
  moreover have "tid_view g = tid_view (snd (mesh_check_tid 0x0100 7 (ap_g lamp_demo)))" using analyze_tid [OF k o, of ?m "0x0100" "ap_g lamp_demo"] r e(1) by simp
  moreover have "fresh_tid 0x0100 8 (snd (mesh_check_tid 0x0100 7 (ap_g lamp_demo)))"
    by (simp add: fresh_tid_def mesh_check_tid_def lamp_demo_def genie0_def tid_recent_def tid_src_def RECV_MSG_TID_QUEUE_SIZE_def upt_rec Let_def)
  ultimately have f: "fresh_tid 0x0100 8 g"
    and d: "lamp_do img_demo (L_Onoff False ?m lamp_ctx ?buf) lamp_demo = snd (handle_delay_start 0 (lamp_demo\<lparr>ap_g := g\<rparr>))"
    using fresh_view [of g "snd (mesh_check_tid 0x0100 7 (ap_g lamp_demo))"] by blast+
  show ?thesis unfolding d handle_delay_start_def snd_conv on_sel by (rule fresh_view [THEN iffD2, OF tid_view_simps(1)]) (simp add: f)
qed

theorem onoff_cancel_dark_witness:
  "actual_cur (el_state (app_elem (lamp_run img_demo [L_Onoff False (0, False, 2) lamp_ctx (lamp_buf [0, 7, 0, 10]),
      L_Onoff False (0, False, 2) lamp_ctx (lamp_buf [1, 8])] lamp_demo) 0)) = 0"
proof -
  let ?a1 = "lamp_do img_demo (L_Onoff False (0, False, 2) lamp_ctx (lamp_buf [0, 7, 0, 10])) lamp_demo"
  have k: "nb_ok (lamp_buf [0, 7, 0, 10])" "nb_ok (lamp_buf [1, 8])" by (simp_all add: lamp_buf_ok)
  have c: "onoff_cur (el_state (app_elem lamp_demo 0)) = 1" by (simp add: lamp_demo_def app_elem_def get_elem_def)
  have f: "fresh_tid (cx_addr lamp_ctx) 7 (ap_g lamp_demo)" "fresh_tid (cx_addr lamp_ctx) 8 (ap_g ?a1)"
    using demo_fresh cancel_demo_fresh by (simp_all only: lamp_ctx_def bt_mesh_msg_ctx.simps)
  show ?thesis
    using onoff_cancel_dark [where ack' = False, OF lamp_demo_ok c k(1) lamp_buf_ok(2) zero_trans _ f(1) refl k(2) lamp_buf_ok(2) f(2) refl]
    by (simp only: lamp_run_def fold.simps o_apply id_apply) simp
qed

end
