(* ===== verification/Genie_Start.thy ===== *)
theory Genie_Start
  imports Lamp
begin

text \<open>
  The start of a provisioned node: the initialisation of the flash store (\<^verbatim>\<open>genie_app/base/genie_flash.c\<close>) followed by the
  initialisation event (\<^verbatim>\<open>genie_app/base/genie_event.c\<close>), over the abstract contents of the system partition. It rests on the
  laws of the reliable store (interpretation \<^verbatim>\<open>sys\<close>) and on what a reset of the system data keeps.
\<close>

section \<open>The stored network at a start\<close>

lemma sys_rep_seq [simp]: "sys_rep (upd_mem PART_SEQ f fl) m = sys_rep fl m"
  by (simp add: sys_rep_def store_inv_def holds_def recycle_idle_def get_info_def upd_mem_def)

lemma sys_read: "sys_rep fl m \<Longrightarrow> m i = Some d \<Longrightarrow> length d = n \<Longrightarrow> genie_flash_read_reliable i n fl = (GENIE_FLASH_SUCCESS, d)"
  "sys_rep fl m \<Longrightarrow> m i = None \<Longrightarrow> fst (genie_flash_read_reliable i n fl) \<noteq> GENIE_FLASH_SUCCESS"
proof -
  show "genie_flash_read_reliable i n fl = (GENIE_FLASH_SUCCESS, d)" if "sys_rep fl m" "m i = Some d" "length d = n"
    using sys.get_rep [of fl m i d] that by (auto simp: sys_get_def flash_get_def prod_eq_iff split: if_splits)
  show "fst (genie_flash_read_reliable i n fl) \<noteq> GENIE_FLASH_SUCCESS" if "sys_rep fl m" "m i = None"
    using sys.get_none [of fl m i n] that by (auto simp: sys_get_def flash_get_def split: if_splits)
qed

lemma sys_write: 
  assumes "sys_rep fl m" "sys_allowed i d" "genie_flash_write_reliable i d fl = (ret, fl')"
  shows "sys_rep fl' (if ret = GENIE_FLASH_SUCCESS then m(i \<mapsto> d) else m)"
  using sys.put_rep [of fl m i d "ret = GENIE_FLASH_SUCCESS" fl'] assms by (simp add: sys_put_def flash_put_def)

lemma sys_delete: "sys_rep fl m \<Longrightarrow> sys_rep (snd (genie_flash_delete_reliable i fl)) (m(i := None))"
  using sys.del_rep [of fl m i "fst (sys_del i fl)" "snd (sys_del i fl)"] by (simp add: sys_del_def flash_put_def)

lemma sys_delete_seq: "sys_rep (snd (genie_flash_delete_seq fl)) m = sys_rep fl m"
  by (simp add: genie_flash_delete_seq_def genie_flash_init_partition_def hal_flash_erase_def)

lemma le16_self: "sys_put_le16 (sys_get_le16 (a # b # xs)) = [a, b]"
  by (simp add: sys_get_le16_def sys_put_le16_def split8_join)

lemma le32_self: "length b = 4 \<Longrightarrow> sys_put_le32 (sys_get_le32 b) = b"
proof -
  assume "length b = 4"
  then obtain x y z w where b: "b = [x, y, z, w]" by (auto simp: numeral_eq_Suc length_Suc_conv)
  show ?thesis using le16_self [of x y "[z, w]"] le16_self [of z w "[]"]
    by (simp add: b sys_put_le32_def sys_get_le32_def split16_join)
qed

text \<open>A reset of the system data erases everything but the identity of the device.\<close>

lemma tri_parts: "take 4 tri @ take 16 (drop 4 tri) @ drop 20 tri = tri"
proof -
  have "take 16 (drop 4 tri) @ drop 16 (drop 4 tri) = drop 4 tri" by (rule append_take_drop_id)
  then show ?thesis by simp
qed

lemma read_tri:
  assumes "sys_rep fl m" "m GFI_MESH_TRITUPLE = Some tri" "length tri = 26"
  shows "genie_flash_read_trituple fl = (GENIE_FLASH_SUCCESS, Some (sys_get_le32 (take 4 tri), drop 20 tri, take 16 (drop 4 tri)))"
proof -
  have "genie_flash_read_reliable GFI_MESH_TRITUPLE GENIE_SIZE_TRI_TRUPLE fl = (GENIE_FLASH_SUCCESS, tri)"
    by (rule sys_read(1) [OF assms(1,2)]) (simp add: assms(3) GENIE_SIZE_TRI_TRUPLE_def GENIE_SIZE_PID_def GENIE_SIZE_KEY_def GENIE_SIZE_MAC_def)
  then show ?thesis by (simp add: genie_flash_read_trituple_def GENIE_SIZE_PID_def GENIE_SIZE_KEY_def)
qed

lemma erase_sys:
  assumes "sys_rep fl m" "length (fl_mem fl PART_SEQ) = 4096"
  shows "sys_rep (snd (genie_flash_erase_reliable fl)) Map.empty" "unat (gi_remain (fl_info_system (snd (genie_flash_erase_reliable fl)))) = 4092"
    "fst (genie_flash_erase_reliable fl) = GENIE_FLASH_SUCCESS" "length (fl_mem (snd (genie_flash_erase_reliable fl)) PART_SEQ) = 4096"
proof -
  have s: "length (fl_mem fl PART_SYSTEM) = 4096" "recycle_idle fl" "\<not> fl_oom fl"
    using assms(1) by (auto simp: sys_rep_def store_inv_def holds_def length_part_mem)
  show "sys_rep (snd (genie_flash_erase_reliable fl)) Map.empty" "unat (gi_remain (fl_info_system (snd (genie_flash_erase_reliable fl)))) = 4092"
    by (rule erased_rep [OF s])+
  have "genie_flash_erase_reliable fl = (GENIE_FLASH_SUCCESS, set_mem PART_SYSTEM (part_mem (part_flag PART_SYSTEM) []) (fresh_info PART_SYSTEM fl))"
    using init_partition_log [OF s(1)] by (simp add: genie_flash_erase_reliable_def cell_part_def GENIE_FLASH_SIZE_SYSTEM_PART_def)
  then show "fst (genie_flash_erase_reliable fl) = GENIE_FLASH_SUCCESS" "length (fl_mem (snd (genie_flash_erase_reliable fl)) PART_SEQ) = 4096"
    using assms(2) by simp_all
qed

lemma write_tri:
  assumes "sys_rep fl Map.empty" "unat (gi_remain (fl_info_system fl)) = 4092" "length tri = 26"
  shows "fst (restore_trituple (Some (sys_get_le32 (take 4 tri), drop 20 tri, take 16 (drop 4 tri))) fl) = GENIE_FLASH_SUCCESS"
    "sys_rep (snd (restore_trituple (Some (sys_get_le32 (take 4 tri), drop 20 tri, take 16 (drop 4 tri))) fl))
       (if sys_get_le32 (take 4 tri) \<noteq> 0 then [GFI_MESH_TRITUPLE \<mapsto> tri] else Map.empty)"
proof -
  have "sys_put_le32 (sys_get_le32 (take 4 tri)) @ take 16 (take 16 (drop 4 tri)) @ take 6 (drop 20 tri) = tri"
    using le32_self [of "take 4 tri"] tri_parts [of tri] assms(3) by simp
  then have w: "genie_flash_write_trituple (sys_get_le32 (take 4 tri)) (drop 20 tri) (take 16 (drop 4 tri)) fl = genie_flash_write_reliable GFI_MESH_TRITUPLE tri fl"
    by (simp add: genie_flash_write_trituple_def GENIE_SIZE_KEY_def GENIE_SIZE_MAC_def)
  have al: "sys_allowed GFI_MESH_TRITUPLE tri" using assms(3) by (auto simp: sys_allowed_def GFI_MESH_TRITUPLE_def)
  have ok: "fst (genie_flash_write_reliable GFI_MESH_TRITUPLE tri fl) = GENIE_FLASH_SUCCESS"
    using sys_rep_write [OF assms(1) al] assms(2,3) by (simp add: genie_flash_get_reliable_size_def)
  have k: "sys_rep (snd (genie_flash_write_reliable GFI_MESH_TRITUPLE tri fl)) [GFI_MESH_TRITUPLE \<mapsto> tri]"
    using sys_write [OF assms(1) al, of _ "snd (genie_flash_write_reliable GFI_MESH_TRITUPLE tri fl)"] ok by (simp add: prod_eq_iff)
  show "fst (restore_trituple (Some (sys_get_le32 (take 4 tri), drop 20 tri, take 16 (drop 4 tri))) fl) = GENIE_FLASH_SUCCESS"
    using ok by (simp add: restore_trituple_def w)
  show "sys_rep (snd (restore_trituple (Some (sys_get_le32 (take 4 tri), drop 20 tri, take 16 (drop 4 tri))) fl))
       (if sys_get_le32 (take 4 tri) \<noteq> 0 then [GFI_MESH_TRITUPLE \<mapsto> tri] else Map.empty)"
    using assms(1) k by (simp add: restore_trituple_def w)
qed

lemma reset_keeps_identity:
  assumes "sys_rep fl m" "length (fl_mem fl PART_SEQ) = 4096" "m GFI_MESH_TRITUPLE = Some tri" "length tri = 26"
  shows "sys_rep (snd (genie_flash_reset_system fl)) (if sys_get_le32 (take 4 tri) \<noteq> 0 then [GFI_MESH_TRITUPLE \<mapsto> tri] else Map.empty)"
proof -
  define f1 where "f1 = upd_mem PART_SEQ (\<lambda>_. replicate 4096 0xFF) fl"
  define f2 where "f2 = snd (genie_flash_erase_reliable f1)"
  have f1: "genie_flash_delete_seq fl = (GENIE_FLASH_SUCCESS, f1)" using delete_seq_blank [OF assms(2)] by (simp add: f1_def)
  have "sys_rep f1 m" "length (fl_mem f1 PART_SEQ) = 4096" using assms(1) by (simp_all add: f1_def)
  note e = erase_sys [OF this, folded f2_def]
  have f2: "genie_flash_erase_reliable f1 = (GENIE_FLASH_SUCCESS, f2)" using e(3) by (simp add: f2_def prod_eq_iff)
  show ?thesis using write_tri [OF e(1,2) assms(4)]
    by (simp add: genie_flash_reset_system_def read_tri [OF assms(1,3,4)] f1 f2 Let_def case_prod_beta sys_delete_seq del: sys_rep_seq)
qed

text \<open>
  C13. A start with a lost sequence number forgets the network. A node that is provisioned (its address is stored, its keys too or not) and
  whose sequence number is stored starts again: the flash is initialised with success, which erases the
  sequence number, and the initialisation event then finds an incomplete record, so that it erases the system data,
  the address and the keys with it, and reboots the node. No key is loaded into the stack; of the stored entries only the identity of the
  device is left, and only when its product id is not zero.
\<close>

theorem restart_forgets_network:
  assumes "sys_rep fl m" "key_loaded fl" "sys_end fl \<le> 4092" "length (fl_mem fl PART_USERDATA) = 4096" "seq_holds base c fl"
    "m GFI_MESH_SADDR = Some addr" "length addr = 2" "m GFI_MESH_PARA = None" "m GFI_MESH_TRITUPLE = Some tri" "length tri = 26"
    "genie_flash_init (restarted fl) = (ret, ap_flash a)"
  shows "case handle_mesh_init img a of (next, a') \<Rightarrow>
    ret = GENIE_FLASH_SUCCESS \<and> ga_calls (ap_g a') = ga_calls (ap_g a) @ [Call_Reboot] \<and> ga_mesh (ap_g a') = ga_mesh (ap_g a) \<and>
    (\<forall>i n. i \<noteq> GFI_MESH_TRITUPLE \<longrightarrow> fst (genie_flash_read_reliable i n (ap_flash a')) \<noteq> GENIE_FLASH_SUCCESS) \<and>
    (sys_get_le32 (take 4 tri) \<noteq> 0 \<longrightarrow> genie_flash_read_reliable GFI_MESH_TRITUPLE 26 (ap_flash a') = (GENIE_FLASH_SUCCESS, tri))"
proof -
  have l: "length (fl_mem fl PART_SEQ) = 4096" using assms(5) by (simp add: seq_holds_def)
  have s: "ret = GENIE_FLASH_SUCCESS" "sys_rep (ap_flash a) m" using restart_rep [OF assms(1-4) l] assms(11) by auto
  have b: "seq_blank (ap_flash a)" using init_erases_seq [of "restarted fl" base c "ap_flash a"] assms(5,11) s(1) by (simp add: seq_holds_def)
  define f where "f = snd (genie_flash_delete_reliable GFI_OTA_IMAGE_CHANGE (ap_flash a))"
  have f: "sys_rep f (m(GFI_OTA_IMAGE_CHANGE := None))" "seq_blank f"
    using sys_delete [OF s(2), of GFI_OTA_IMAGE_CHANGE] b by (simp_all add: f_def seq_blank_def genie_flash_delete_reliable_def)
  have r: "fst (genie_flash_read_addr f) = GENIE_FLASH_SUCCESS" "fst (genie_flash_read_seq f) \<noteq> GENIE_FLASH_SUCCESS"
      "fst (genie_flash_read_para img f) \<noteq> GENIE_FLASH_SUCCESS"
  proof -
    show "fst (genie_flash_read_addr f) = GENIE_FLASH_SUCCESS"
      using sys_read(1) [OF f(1), of GFI_MESH_SADDR addr 2] assms(6,7) by (simp add: genie_flash_read_addr_def gfi_defs)
    show "fst (genie_flash_read_seq f) \<noteq> GENIE_FLASH_SUCCESS"
      using seq_get_blank [OF f(2)] by (auto simp: seq_get_def split: prod.splits if_splits)
    show "fst (genie_flash_read_para img f) \<noteq> GENIE_FLASH_SUCCESS"
      using sys_read(2) [OF f(1), of GFI_MESH_PARA "ni_size img"] assms(8) by (simp add: genie_flash_read_para_def gfi_defs)
  qed
  define x where "x = a\<lparr>ap_flash := f\<rparr>"
  define sd where "sd = fst (read_stored img x)"
  have g: "read_stored img x = (sd, x)" "sd_flag sd AND 0x1F \<noteq> 0x1F" "sd_flag sd \<noteq> 0"
    using r by (auto simp: sd_def read_stored_def x_def Let_def case_prod_beta read_bit_def)
  have h: "handle_mesh_init img a = (EVT_SDK_MESH_INIT, on_g (log_call Call_Reboot) (on_flash genie_flash_reset_system x))"
    using g by (simp add: handle_mesh_init_def ais_check_ota_change_def on_flash_def f_def x_def)
  have k: "sys_rep (snd (genie_flash_reset_system f)) (if sys_get_le32 (take 4 tri) \<noteq> 0 then [GFI_MESH_TRITUPLE \<mapsto> tri] else Map.empty)"
    by (rule reset_keeps_identity [OF f(1)]) (use f(2) assms(9,10) in \<open>simp_all add: seq_blank_def gfi_defs\<close>)
  show ?thesis
    using s(1) sys_read(2) [OF k] sys_read(1) [OF k, of GFI_MESH_TRITUPLE tri 26] assms(10)
    by (simp add: h x_def on_flash_def on_g_def log_call_def)
qed

text \<open>A node with a stored address, an identity with product id 7 and the sequence number 1000.\<close>

definition tri_demo :: bytes where
  "tri_demo = [7, 0, 0, 0] @ replicate 22 1"

definition kept_demo :: flash where
  "kept_demo = upd_mem PART_SEQ (\<lambda>_. seq_mem 1000 0) ((set_mem PART_SYSTEM (part_mem (part_flag PART_SYSTEM)
     [new_cell 3 (sealed (replicate 16 0) [1, 2]), new_cell 2 (sealed (replicate 16 0) tri_demo)]) flash_demo)
     \<lparr>fl_info_system := \<lparr>gi_remain = 4028, gi_free_offset = 68\<rparr>\<rparr>)"

lemma kept_demo_rep: "sys_rep kept_demo [3 \<mapsto> [1, 2], 2 \<mapsto> tri_demo]" "sys_end kept_demo = 68"
proof -
  let ?b = "sealed (replicate 16 0) [1, 2]" and ?t = "sealed (replicate 16 0) tri_demo"
  let ?cs = "[new_cell 3 ?b, new_cell 2 ?t]"
  have l: "length ?b = 16" "length ?t = 32"
    using sealed_open(1) [of "[1, 2]"] sealed_open(1) [of tri_demo] by (simp_all add: genie_flash_get_reliable_size_def tri_demo_def)
  then have ok: "cell_ok (new_cell 3 ?b)" "cell_ok (new_cell 2 ?t)" by (auto intro!: new_cell_ok)
  have z: "length (cell_bytes (new_cell 3 ?b)) = 24" "length (cell_bytes (new_cell 2 ?t)) = 40"
    using l by (simp_all add: length_new_cell align_count_def)
  have h: "holds PART_SYSTEM (part_flag PART_SYSTEM) ?cs kept_demo"
    using ok z by (simp add: holds_def kept_demo_def)
  have i: "get_info PART_SYSTEM kept_demo = \<lparr>gi_remain = 4028, gi_free_offset = 68\<rparr>" by (simp add: get_info_def kept_demo_def)
  have "recycle_idle kept_demo"
    by (simp add: recycle_idle_def kept_demo_def flash_demo_def blank_word GENIE_FLASH_FLAG_INITED_SYS_def GENIE_FLASH_FLAG_INITED_UD_def)
  then have "store_inv PART_SYSTEM ?cs kept_demo" by (intro store_invI) (use h i z in simp_all)
  moreover have "lookup ?cs = (\<lambda>i. map_option (sealed (fl_enc_key kept_demo)) ([3 \<mapsto> [1, 2], 2 \<mapsto> tri_demo] i))"
    by (auto simp: lookup_entries kept_demo_def flash_demo_def)
  moreover have "length tri_demo \<le> 4092" by (simp add: tri_demo_def)
  ultimately show "sys_rep kept_demo [3 \<mapsto> [1, 2], 2 \<mapsto> tri_demo]" by (auto simp: sys_rep_def kept_demo_def flash_demo_def)
  show "sys_end kept_demo = 68" using sys_end_log [OF h] z by simp
qed

definition restarted_demo :: app where
  "restarted_demo = lamp_demo\<lparr>ap_flash := snd (genie_flash_init (restarted kept_demo))\<rparr>"

theorem restart_forgets_network_witness:
  "case handle_mesh_init img_demo restarted_demo of (next, a) \<Rightarrow>
    fst (genie_flash_read_reliable GFI_MESH_SADDR 2 (ap_flash a)) \<noteq> GENIE_FLASH_SUCCESS \<and>
    genie_flash_read_reliable GFI_MESH_TRITUPLE 26 (ap_flash a) = (GENIE_FLASH_SUCCESS, tri_demo)"
proof -
  have k: "key_loaded kept_demo" by (simp add: key_loaded_def restarted_def load_enc_key_def kept_demo_def set_mem_def upd_mem_def flash_demo_def)
  have d: "length (fl_mem kept_demo PART_USERDATA) = 4096" "seq_holds 1000 0 kept_demo" by (simp_all add: kept_demo_def flash_demo_def seq_holds_def)
  have p: "sys_get_le32 (take 4 tri_demo) \<noteq> 0" "length tri_demo = 26" by (simp add: tri_demo_def, code_simp) (simp add: tri_demo_def)
  have f: "genie_flash_init (restarted kept_demo) = (fst (genie_flash_init (restarted kept_demo)), ap_flash restarted_demo)"
    by (simp add: restarted_demo_def)
  show ?thesis
    using restart_forgets_network [OF kept_demo_rep(1) k _ d, of "[1, 2]" tri_demo _ restarted_demo img_demo, OF _ _ _ _ _ p(2) f]
      kept_demo_rep(2) p(1)
    by (simp add: gfi_defs case_prod_beta)
qed

end
