(* ===== verification/Spec2Isabelle.thy ===== *)
theory Spec2Isabelle
  imports Prov_Honest Reassembly Genie_Start
begin

text \<open>
  The Bluetooth mesh stack of the Genie SDK: \<^verbatim>\<open>src/network/bluetooth/bt_mesh\<close>, with the parts of
  \<^verbatim>\<open>bt_common\<close> (buffers, byte order, work queue, tinycrypt) it runs on.

  \<^bold>\<open>The program.\<close> A mesh node receives network PDUs and beacons from an advertising bearer (\<^verbatim>\<open>adv.c\<close>) and
  from GATT connections (\<^verbatim>\<open>proxy.c\<close>). The network layer (\<^verbatim>\<open>net.c\<close>) removes obfuscation and encryption, drops
  duplicates, relays, and hands PDUs to the transport layer (\<^verbatim>\<open>transport.c\<close>), which reassembles and
  decrypts messages for the access layer (\<^verbatim>\<open>access.c\<close>) and its models. Secure network beacons (\<^verbatim>\<open>beacon.c\<close>)
  drive the IV Index and key refresh procedures. Everything rests on the security functions of
  \<^verbatim>\<open>crypto.c\<close>, which use AES-CMAC from tinycrypt and an AES-CCM of their own. A node joins a network by the
  provisioning protocol (\<^verbatim>\<open>prov.c\<close>) and is configured by the Configuration Server (\<^verbatim>\<open>cfg_srv.c\<close>). The Genie
  application layer (\<^verbatim>\<open>src/genie_app\<close>) adds the lamp's element states, the vendor model and a flash store.

  \<^bold>\<open>The model.\<close> One record \<^verbatim>\<open>mesh\<close> (theory \<^verbatim>\<open>Mesh_State\<close>) holds the static variables of the stack, a second one,
  \<^verbatim>\<open>genie\<close> (theory \<^verbatim>\<open>Genie_State\<close>), those of the application; an operation of the code is a function that takes and
  returns the record. Error codes are values of the datatype \<^verbatim>\<open>errno\<close>; \<^verbatim>\<open>None\<close> stands for 0. Buffers are records with storage,
  offset and length, and a failed buffer assertion is remembered in a fault flag. Integers keep their width.
  Calls that leave the program (radio, user callbacks, events) are appended to a log; random numbers,
  key generation, model handlers of the application and memory allocation are arguments or recorded sequences.

  \<^bold>\<open>Stack, lower layers.\<close>

  \<^item> \<^verbatim>\<open>Prelude\<close>: word and list facts and the collections shared by the components.
  \<^item> \<^verbatim>\<open>Byteorder\<close>, \<^verbatim>\<open>Net_Buf\<close>:
    \<^verbatim>\<open>misc/byteorder.h\<close> and the buffers of \<^verbatim>\<open>buf.c\<close>.
  \<^item> \<^verbatim>\<open>Tinycrypt\<close>, \<^verbatim>\<open>Sec_Hal\<close>,
    \<^verbatim>\<open>Aes_Decrypt\<close>: AES-128 in both directions, CMAC and the security port. The scatter-gather
    CMAC is RFC 4493 except in one case, which a theorem characterises; decryption inverts encryption.
  \<^item> \<^verbatim>\<open>Ccm\<close>, \<^verbatim>\<open>Crypto\<close>: CCM over a block cipher given by a
    locale, and the mesh security toolbox. CCM is RFC 3610, decryption accepts exactly what encryption produces, nonces
    are injective.
  \<^item> \<^verbatim>\<open>Mesh_State\<close>, \<^verbatim>\<open>Adv\<close>: the data model; the buffer pool, the
    advertising queue and its callbacks (\<^verbatim>\<open>adv.c\<close>).
  \<^item> \<^verbatim>\<open>Net_Keys\<close>: subnets, key refresh and the IV Update procedure of
    \<^verbatim>\<open>net.c\<close>: the index never goes back, no nonce position is reused, phases follow the
    procedure.
  \<^item> \<^verbatim>\<open>Proxy_Out\<close>, \<^verbatim>\<open>Proxy_In\<close>,
    \<^verbatim>\<open>Proxy_Adv\<close>: \<^verbatim>\<open>proxy.c\<close>: filters (through a locale of bounded
    sets), segmentation, relaying to exactly the clients whose filter accepts; reassembly and configuration messages;
    connectable advertising.
  \<^item> \<^verbatim>\<open>Net\<close>, \<^verbatim>\<open>Net_Recv\<close>: \<^verbatim>\<open>net.c\<close>:
    caches (a locale of ring caches, interpreted on both), encoding, decoding, relaying, reception: round trip,
    authenticity, duplicates, the effect of relaying.
  \<^item> \<^verbatim>\<open>Beacon\<close>: \<^verbatim>\<open>beacon.c\<close>: only authenticated beacons touch
    the security state, the IV Index is monotone, what one node sends another recognises.

  \<^bold>\<open>Stack, upper layers.\<close>

  \<^item> \<^verbatim>\<open>Replay\<close>, \<^verbatim>\<open>Transport\<close>, \<^verbatim>\<open>Frame\<close>,
    \<^verbatim>\<open>Reassembly\<close>: \<^verbatim>\<open>transport.c\<close>: the replay list (a locale,
    interpreted on it), sending, receiving; what sending leaves unchanged; segments in any order give the message back.
  \<^item> \<^verbatim>\<open>Comp\<close>, \<^verbatim>\<open>Model_Recv\<close>, \<^verbatim>\<open>Access\<close>:
    \<^verbatim>\<open>access.c\<close>: composition lookups and opcodes, which round-trip; delivery to exactly the
    models that are bound and subscribed; sending and publishing.
  \<^item> \<^verbatim>\<open>Cfg_Keys\<close>, \<^verbatim>\<open>Cfg_Model\<close>,
    \<^verbatim>\<open>Cfg_Srv\<close>, \<^verbatim>\<open>Health_Srv\<close>: the Configuration Server
    (\<^verbatim>\<open>cfg_srv.c\<close>) and the Health Server (\<^verbatim>\<open>health_srv.c\<close>) with all
    their handlers.
  \<^item> \<^verbatim>\<open>Prov_Link\<close>, \<^verbatim>\<open>Prov\<close>,
    \<^verbatim>\<open>Main_Mesh\<close>: provisioning (\<^verbatim>\<open>prov.c\<close>) on both bearers, installation
    of the data and reset (\<^verbatim>\<open>main.c\<close>).
  \<^item> \<^verbatim>\<open>Prov_Auth\<close>, \<^verbatim>\<open>Prov_Honest\<close>: a node is only provisioned
    after an authenticated handshake, by rule induction over all inputs; an honest handshake completes.

  \<^bold>\<open>Application.\<close>

  \<^item> \<^verbatim>\<open>Genie_State\<close>, \<^verbatim>\<open>Genie_Trans\<close>: element states and timers,
    transitions and transaction identifiers of \<^verbatim>\<open>genie_mesh.c\<close>: times round-trip, transitions
    end, repeated messages are rejected.
  \<^item> \<^verbatim>\<open>Vendor_Model\<close>: \<^verbatim>\<open>vendor_model_srv.c\<close>: vendor messages
    with retransmission and confirmation: retransmission ends, a confirmation stops it, the list is bounded.
  \<^item> \<^verbatim>\<open>Light_Models\<close>: the Generic OnOff, Light Lightness and Light CTL servers
    (\<^verbatim>\<open>gen_onoff_srv.c\<close>, \<^verbatim>\<open>lightness_srv.c\<close>,
    \<^verbatim>\<open>light_ctl_srv.c\<close>) and their bindings (\<^verbatim>\<open>model_bind_ops.c\<close>).
  \<^item> \<^verbatim>\<open>Genie_Flash\<close>, \<^verbatim>\<open>Flash_Seq\<close>,
    \<^verbatim>\<open>Flash_Cells\<close>, \<^verbatim>\<open>Flash_Store\<close>:
    \<^verbatim>\<open>genie_flash.c\<close> over the flash driver: the stored sequence number is a monotone counter (a
    locale), the cell store is a map (a locale, interpreted on both partitions), also across the recycling of a full
    partition.
  \<^item> \<^verbatim>\<open>Genie_Store\<close>: \<^verbatim>\<open>genie_mesh_flash.c\<close> and the flash part of
    \<^verbatim>\<open>tri_tuple.c\<close>: the stored network data and the identity of the device.
  \<^item> \<^verbatim>\<open>Genie_Event\<close>: the event machine (\<^verbatim>\<open>genie_event.c\<close>,
    \<^verbatim>\<open>genie_reset.c\<close>) with the lamp application (\<^verbatim>\<open>light_ctl.c\<close>) and the message
    handlers of its models, over a record \<^verbatim>\<open>app\<close> that adds the flash and the application's variables to
    \<^verbatim>\<open>genie\<close>.
  \<^item> \<^verbatim>\<open>Lamp\<close>: the lamp's values stay well-typed under any sequence of messages, timers and
    events; a Generic OnOff message reaches its target, except that a cancelled turn-off leaves the lamp dark.
  \<^item> \<^verbatim>\<open>Genie_Start\<close>: the start of a provisioned node, which loses the sequence number and then
    forgets its network.

  \<^bold>\<open>Loops.\<close> Loops are structural recursion or functions with a measure. The segmentation loop of the proxy runs with
  the number of bytes as fuel, which is enough whenever the MTU is at least two; a smaller MTU, for which the code does
  not end, is the event \<^verbatim>\<open>Ev_Hang\<close>. The local delivery loop \<^verbatim>\<open>bt_mesh_net_local\<close>, which a model can feed again, is a partial function.
  The event machine calls itself with the event that a handler returns; it ends because these calls go down in a rank of the events.

  \<^bold>\<open>Not modelled.\<close> Friendship and low power (\<^verbatim>\<open>friend.c\<close>, \<^verbatim>\<open>lpn.c\<close>), the model clients, the provisioner role
  and the shell are compiled out in the node build; the multi-advertising variants and the TG7100B/CH6121 branches belong
  to other boards. Drivers, controllers, the operating system and vendor SDKs appear only as what the stack calls of them.
  Of the application layer, the vendor timers, the debug commands, the GATT service for firmware updates, the authentication values of the
  identity and the servers that the simple lamp build leaves out are not modelled; of the example applications, only
  \<^verbatim>\<open>light_ctl\<close> is, and its LED driver is a logged call.
\<close>

end
